(* ===== verification/Prelude.thy ===== *)
theory Prelude
  imports
    Main
    "HOL-Library.Word"
    "HOL-Library.Sublist"
    "HOL-Library.Char_ord"
    "HOL-Library.List_Lexorder"
begin

text \<open>
  What every component shares: text as UTF-8 byte strings with the operations of Rust's
  \<open>str\<close> that the code calls, 64-bit counters with saturating arithmetic, results with an
  error, and the loops of the code as folds that stop at the first error.

  A Rust \<open>str\<close> is a sequence of UTF-8 bytes, ordered by its bytes. Here it is a
  \<open>string\<close>, one \<open>char\<close> per byte, with the order of \<open>List_Lexorder\<close> over
  \<open>Char_ord\<close>, which is that order.
\<close>

named_theorems path_simps "splitting, joining and prefixes of slash-separated paths"
named_theorems plan_intros "introduction rules of the planner's invariants"

section \<open>Machine integers\<close>

type_synonym u8 = "8 word"
type_synonym u32 = "32 word"
type_synonym u64 = "64 word"

text \<open>An \<open>i64\<close> is an \<open>int\<close>; the one addition the code performs on one saturates.\<close>

definition i64_max :: int where
  "i64_max = 2 ^ 63 - 1"

definition i64_min :: int where
  "i64_min = - (2 ^ 63)"

definition i64_sat_add :: "int \<Rightarrow> int \<Rightarrow> int" where
  "i64_sat_add a b = max i64_min (min i64_max (a + b))"

text \<open>\<open>u64::saturating_add\<close> and \<open>u64::saturating_sub\<close>.\<close>

definition u64_sat_add :: "u64 \<Rightarrow> u64 \<Rightarrow> u64" where
  "u64_sat_add a b = (let s = a + b in if s < a then - 1 else s)"

definition u64_sat_sub :: "u64 \<Rightarrow> u64 \<Rightarrow> u64" where
  "u64_sat_sub a b = (if b \<le> a then a - b else 0)"

lemma u64_no_overflow_iff: "\<not> a + b < a \<longleftrightarrow> unat a + unat b < 2 ^ 64" for a b :: u64
  using no_olen_add_nat [of a b] by (simp add: not_less)

lemma unat_u64_sat_add:
  "unat (u64_sat_add a b) = min (2 ^ 64 - 1) (unat a + unat b)"
proof (cases "unat a + unat b < 2 ^ 64")
  case True
  then have "unat (a + b) = unat a + unat b"
    by (subst unat_add_lem [symmetric]) simp
  with True u64_no_overflow_iff [of a b] show ?thesis
    by (simp add: u64_sat_add_def)
next
  case False
  have "unat (- 1 :: u64) = 2 ^ 64 - 1"
    by (simp add: unsigned_minus_1_eq_mask mask_eq_exp_minus_1)
  with False u64_no_overflow_iff [of a b] show ?thesis
    by (simp add: u64_sat_add_def)
qed

lemma u64_sat_add_exact:
  "unat a + unat b < 2 ^ 64 \<Longrightarrow> unat (u64_sat_add a b) = unat a + unat b"
  by (simp add: unat_u64_sat_add)

lemma unat_u64_sat_sub: "unat (u64_sat_sub a b) = unat a - unat b"
proof (cases "b \<le> a")
  case True
  then show ?thesis by (simp add: u64_sat_sub_def unat_sub)
next
  case False
  then have "unat a \<le> unat b"
    by (simp add: word_le_nat_alt)
  with False show ?thesis by (simp add: u64_sat_sub_def)
qed

section \<open>Results and loops that stop at the first error\<close>

definition bind_r :: "'e + 'a \<Rightarrow> ('a \<Rightarrow> 'e + 'b) \<Rightarrow> 'e + 'b" where
  "bind_r r f = (case r of Inl e \<Rightarrow> Inl e | Inr a \<Rightarrow> f a)"

definition map_r :: "('a \<Rightarrow> 'b) \<Rightarrow> 'e + 'a \<Rightarrow> 'e + 'b" where
  "map_r f r = (case r of Inl e \<Rightarrow> Inl e | Inr a \<Rightarrow> Inr (f a))"

lemma bind_r_simps [simp]:
  "bind_r (Inl e) f = Inl e"
  "bind_r (Inr a) f = f a"
  by (simp_all add: bind_r_def)

lemma map_r_simps [simp]:
  "map_r f (Inl e) = Inl e"
  "map_r f (Inr a) = Inr (f a)"
  by (simp_all add: map_r_def)

lemma bind_r_Inr_iff [simp]:
  "(bind_r r f = Inr b) = (\<exists>a. r = Inr a \<and> f a = Inr b)"
  by (cases r) simp_all

lemma bind_r_Inl_iff:
  "(bind_r r f = Inl e) = (r = Inl e \<or> (\<exists>a. r = Inr a \<and> f a = Inl e))"
  by (cases r) auto

lemma map_r_Inr_iff [simp]: "(map_r f r = Inr b) = (\<exists>a. r = Inr a \<and> f a = b)"
  by (cases r) auto

lemma map_r_result:
  assumes "map_r f r = Inr v"
  shows "r = Inr (projr r)" and "f (projr r) = v"
  using assms by (cases r; simp)+

text \<open>A \<open>for\<close> loop over a sequence whose body may return early with an error.\<close>

fun fold_r :: "('s \<Rightarrow> 'a \<Rightarrow> 'e + 's) \<Rightarrow> 's \<Rightarrow> 'a list \<Rightarrow> 'e + 's" where
  "fold_r f s [] = Inr s"
| "fold_r f s (x # xs) = bind_r (f s x) (\<lambda>s'. fold_r f s' xs)"

lemma fold_r_append:
  "fold_r f s (xs @ ys) = bind_r (fold_r f s xs) (\<lambda>s'. fold_r f s' ys)"
  by (induction xs arbitrary: s) (auto simp: bind_r_def split: sum.splits)

text \<open>
  A loop whose body is fallible only in a first part that does not look at the state: the loop is
  that part over every element, then a plain fold.
\<close>

fun collect :: "('a \<Rightarrow> 'e + 'b) \<Rightarrow> 'a list \<Rightarrow> 'e + 'b list" where
  "collect f [] = Inr []"
| "collect f (x # xs) = bind_r (f x) (\<lambda>y. map_r (\<lambda>ys. y # ys) (collect f xs))"

lemma fold_r_collect:
  "fold_r (\<lambda>s x. map_r (g s) (f x)) s xs = map_r (foldl g s) (collect f xs)"
proof (induction xs arbitrary: s)
  case Nil
  then show ?case by simp
next
  case (Cons x xs)
  then show ?case
    by (cases "f x"; cases "collect f xs") auto
qed

lemma collect_Inr_iff:
  "collect f xs = Inr ys \<longleftrightarrow> list_all2 (\<lambda>x y. f x = Inr y) xs ys"
proof (induction xs arbitrary: ys)
  case Nil
  then show ?case by auto
next
  case (Cons x xs)
  then show ?case
    by (cases "f x") (auto simp: list_all2_Cons1)
qed

lemma collect_Inl_iff: "(\<exists>e. collect f xs = Inl e) \<longleftrightarrow> (\<exists>x \<in> set xs. \<exists>e. f x = Inl e)"
proof (induction xs)
  case Nil
  then show ?case by simp
next
  case (Cons x xs)
  then show ?case
    by (cases "f x"; cases "collect f xs") auto
qed

text \<open>
  The contract of a loop body: it keeps an invariant, over the elements for which a premise
  holds. Every loop of the planner and of the executor is an interpretation of this locale.
\<close>

locale loop_body =
  fixes step :: "'s \<Rightarrow> 'a \<Rightarrow> 'e + 's"
    and Inv :: "'s \<Rightarrow> bool"
    and Elem :: "'a \<Rightarrow> bool"
  assumes step_keeps: "Inv s \<Longrightarrow> Elem x \<Longrightarrow> step s x = Inr s' \<Longrightarrow> Inv s'"
begin

lemma fold_keeps:
  "Inv s \<Longrightarrow> list_all Elem xs \<Longrightarrow> fold_r step s xs = Inr s' \<Longrightarrow> Inv s'"
proof (induction xs arbitrary: s)
  case Nil
  then show ?case by simp
next
  case (Cons x xs)
  then obtain t where "step s x = Inr t" and rest: "fold_r step t xs = Inr s'"
    by auto
  with Cons.prems have "Inv t" by (auto intro: step_keeps)
  with Cons.IH rest Cons.prems show ?case by simp
qed

end

text \<open>The same contract for a loop that counts: every body adds at most (exactly) its weight.\<close>

locale counting_body =
  fixes step :: "'s \<Rightarrow> 'a \<Rightarrow> 'e + 's"
    and count :: "'s \<Rightarrow> nat"
    and weight :: "'a \<Rightarrow> nat"
  assumes step_counts: "step s x = Inr s' \<Longrightarrow> count s' = count s + weight x"
begin

lemma fold_counts:
  "fold_r step s xs = Inr s' \<Longrightarrow> count s' = count s + sum_list (map weight xs)"
  by (induction xs arbitrary: s) (auto dest: step_counts)

end

section \<open>Text\<close>

definition slash :: char where "slash = CHR ''/''"
definition backslash :: char where "backslash = CHR 0x5C"
definition newline :: char where "newline = CHR 0x0A"
definition nul :: char where "nul = CHR 0x00"

definition byte :: "char \<Rightarrow> nat" where
  "byte c = of_char c"

lemma byte_less: "byte c < 256"
  by (cases c) (simp add: byte_def)

definition is_ascii :: "string \<Rightarrow> bool" where
  "is_ascii s = list_all (\<lambda>c. byte c < 128) s"

text \<open>\<open>chars().count()\<close>: the bytes of UTF-8 text that do not continue a character.\<close>

definition is_continuation :: "char \<Rightarrow> bool" where
  "is_continuation c = (128 \<le> byte c \<and> byte c < 192)"

definition chars_count :: "string \<Rightarrow> nat" where
  "chars_count s = length (filter (\<lambda>c. \<not> is_continuation c) s)"

text \<open>
  \<open>chars().any(char::is_control)\<close>: the code points U+0000 to U+001F, U+007F and U+0080 to
  U+009F, the last group encoded as C2 80 to C2 9F.
\<close>

fun has_control :: "string \<Rightarrow> bool" where
  "has_control [] = False"
| "has_control [c] = (byte c < 32 \<or> byte c = 127)"
| "has_control (c # d # s) =
     (byte c < 32 \<or> byte c = 127 \<or> (byte c = 194 \<and> 128 \<le> byte d \<and> byte d < 160)
      \<or> has_control (d # s))"

definition ascii_lower_char :: "char \<Rightarrow> char" where
  "ascii_lower_char c = (let n = byte c in if 65 \<le> n \<and> n \<le> 90 then char_of (n + 32) else c)"

definition ascii_upper_char :: "char \<Rightarrow> char" where
  "ascii_upper_char c = (let n = byte c in if 97 \<le> n \<and> n \<le> 122 then char_of (n - 32) else c)"

definition ascii_lower :: "string \<Rightarrow> string" where
  "ascii_lower s = map ascii_lower_char s"

definition ascii_upper :: "string \<Rightarrow> string" where
  "ascii_upper s = map ascii_upper_char s"

text \<open>Decimal rendering of an unsigned number (\<open>to_string\<close>).\<close>

definition digit_char :: "nat \<Rightarrow> char" where
  "digit_char d = char_of (48 + d)"

fun show_nat :: "nat \<Rightarrow> string" where
  "show_nat n = (if n < 10 then [digit_char n] else show_nat (n div 10) @ [digit_char (n mod 10)])"

declare show_nat.simps [simp del]

definition show_u64 :: "u64 \<Rightarrow> string" where
  "show_u64 n = show_nat (unat n)"

text \<open>\<open>str::contains\<close> for a text needle.\<close>

fun contains_str :: "string \<Rightarrow> string \<Rightarrow> bool" where
  "contains_str needle [] = (needle = [])"
| "contains_str needle (c # s) = (prefix needle (c # s) \<or> contains_str needle s)"

text \<open>\<open>str::trim\<close>: the white space of Unicode, by its UTF-8 encodings.\<close>

definition whitespace :: "string list" where
  "whitespace =
     map (map char_of :: nat list \<Rightarrow> string)
       [[9], [10], [11], [12], [13], [32], [194, 133], [194, 160], [225, 154, 128],
        [226, 128, 128], [226, 128, 129], [226, 128, 130], [226, 128, 131], [226, 128, 132],
        [226, 128, 133], [226, 128, 134], [226, 128, 135], [226, 128, 136], [226, 128, 137],
        [226, 128, 138], [226, 128, 168], [226, 128, 169], [226, 128, 175], [226, 129, 159],
        [227, 128, 128]]"

definition ws_ahead :: "string list \<Rightarrow> string \<Rightarrow> nat" where
  "ws_ahead wss s = (case find (\<lambda>w. prefix w s) wss of None \<Rightarrow> 0 | Some w \<Rightarrow> length w)"

fun drop_ws :: "nat \<Rightarrow> string list \<Rightarrow> string \<Rightarrow> string" where
  "drop_ws 0 wss s = s"
| "drop_ws (Suc n) wss s =
     (let k = ws_ahead wss s in if k = 0 then s else drop_ws n wss (drop k s))"

definition trim_start :: "string \<Rightarrow> string" where
  "trim_start s = drop_ws (length s) whitespace s"

definition trim_end :: "string \<Rightarrow> string" where
  "trim_end s = rev (drop_ws (length s) (map rev whitespace) (rev s))"

definition trim :: "string \<Rightarrow> string" where
  "trim s = trim_end (trim_start s)"

end
