(* ===== verification/PathText.thy ===== *)
theory PathText
  imports Prelude
begin

text \<open>
  Slash-separated paths as text: the \<open>str\<close> operations the code uses on them
  (\<open>strip_prefix\<close>, \<open>split\<close>, \<open>rsplit_once\<close>, \<open>match_indices\<close>) and the one relation
  they all decide, being strictly beneath a path. The loops of the code that walk a path
  upwards with \<open>rsplit_once('/')\<close> visit \<open>ancestors\<close>; the loops that cut it at every
  slash visit \<open>slash_prefixes\<close>.
\<close>

section \<open>Splitting text\<close>

fun strip_prefix :: "string \<Rightarrow> string \<Rightarrow> string option" where
  "strip_prefix [] s = Some s"
| "strip_prefix (p # ps) [] = None"
| "strip_prefix (p # ps) (c # s) = (if p = c then strip_prefix ps s else None)"

fun split_on :: "char \<Rightarrow> string \<Rightarrow> string list" where
  "split_on d [] = [[]]"
| "split_on d (c # s) =
     (if c = d then [] # split_on d s
      else (case split_on d s of [] \<Rightarrow> [[c]] | w # ws \<Rightarrow> (c # w) # ws))"

fun join_with :: "char \<Rightarrow> string list \<Rightarrow> string" where
  "join_with d [] = []"
| "join_with d [w] = w"
| "join_with d (w # v # ws) = w @ d # join_with d (v # ws)"

text \<open>\<open>rsplit_once\<close>: the text before and after the last separator.\<close>

fun rsplit_once :: "char \<Rightarrow> string \<Rightarrow> (string \<times> string) option" where
  "rsplit_once d [] = None"
| "rsplit_once d (c # s) =
     (case rsplit_once d s of
        Some (a, b) \<Rightarrow> Some (c # a, b)
      | None \<Rightarrow> if c = d then Some ([], s) else None)"

lemma strip_prefix_Some_iff [path_simps]: "strip_prefix p s = Some r \<longleftrightarrow> s = p @ r"
  by (induction p s rule: strip_prefix.induct) auto

lemma strip_prefix_None_iff: "strip_prefix p s = None \<longleftrightarrow> \<not> prefix p s"
  by (induction p s rule: strip_prefix.induct) auto

lemma strip_prefix_append [simp]: "strip_prefix p (p @ r) = Some r"
  by (simp add: strip_prefix_Some_iff)

lemma split_on_nonempty [simp]: "split_on d s \<noteq> []"
  by (induction s) (auto split: list.splits)

lemma join_with_split_on [simp]: "join_with d (split_on d s) = s"
proof (induction s)
  case Nil
  then show ?case by simp
next
  case (Cons c s)
  obtain w ws where s: "split_on d s = w # ws"
    using split_on_nonempty [of d s] by (cases "split_on d s") auto
  with Cons.IH show ?case by (cases ws) auto
qed

lemma split_on_no_sep: "w \<in> set (split_on d s) \<Longrightarrow> d \<notin> set w"
  by (induction s arbitrary: w) (auto split: list.splits if_splits)

lemma split_on_single: "d \<notin> set s \<Longrightarrow> split_on d s = [s]"
  by (induction s) auto

lemma split_on_append:
  "split_on d (a @ d # b) = split_on d a @ split_on d b"
proof (induction a)
  case Nil
  then show ?case by simp
next
  case (Cons c a)
  then show ?case
    using split_on_nonempty [of d a] by (cases "split_on d a") auto
qed

lemma concat_split_on_subset: "w \<in> set (split_on d s) \<Longrightarrow> set w \<subseteq> set s"
  by (induction s arbitrary: w) (auto split: list.splits if_splits, fastforce+)

lemma rsplit_once_Some_iff [path_simps]:
  "rsplit_once d s = Some (a, b) \<longleftrightarrow> s = a @ d # b \<and> d \<notin> set b"
proof (induction s arbitrary: a b)
  case Nil
  then show ?case by simp
next
  case (Cons c s)
  show ?case
  proof (cases "rsplit_once d s")
    case None
    have "d \<notin> set s"
    proof
      assume "d \<in> set s"
      then obtain x y where "s = x @ d # y" "d \<notin> set y"
        by (auto dest: split_list_last)
      with Cons.IH None show False by auto
    qed
    with None show ?thesis by (cases a) auto
  next
    case (Some ab)
    then obtain x y where xy: "rsplit_once d s = Some (x, y)"
      by (cases ab) auto
    then have s: "s = x @ d # y" and y: "d \<notin> set y"
      using Cons.IH by auto
    show ?thesis
    proof
      assume "rsplit_once d (c # s) = Some (a, b)"
      with xy s y show "c # s = a @ d # b \<and> d \<notin> set b" by auto
    next
      assume r: "c # s = a @ d # b \<and> d \<notin> set b"
      then obtain a' where "a = c # a'"
        using s by (cases a) auto
      with r have "s = a' @ d # b" "d \<notin> set b" by auto
      then have "rsplit_once d s = Some (a', b)"
        using Cons.IH by auto
      with \<open>a = c # a'\<close> show "rsplit_once d (c # s) = Some (a, b)" by simp
    qed
  qed
qed

lemma rsplit_once_None_iff [path_simps]: "rsplit_once d s = None \<longleftrightarrow> d \<notin> set s"
proof
  assume "rsplit_once d s = None"
  show "d \<notin> set s"
  proof
    assume "d \<in> set s"
    then obtain x y where "s = x @ d # y" "d \<notin> set y"
      by (auto dest: split_list_last)
    then have "rsplit_once d s = Some (x, y)"
      by (simp add: rsplit_once_Some_iff)
    with \<open>rsplit_once d s = None\<close> show False by simp
  qed
next
  assume "d \<notin> set s"
  then show "rsplit_once d s = None"
    by (cases "rsplit_once d s") (auto simp: rsplit_once_Some_iff)
qed

section \<open>Strictly beneath a path\<close>

text \<open>\<open>s.strip_prefix(p).is_some_and(|rest| rest.starts_with('/'))\<close>.\<close>

definition beneath :: "string \<Rightarrow> string \<Rightarrow> bool" where
  "beneath p s =
     (case strip_prefix p s of
        None \<Rightarrow> False
      | Some rest \<Rightarrow> (case rest of [] \<Rightarrow> False | c # _ \<Rightarrow> c = slash))"

definition at_or_beneath :: "string \<Rightarrow> string \<Rightarrow> bool" where
  "at_or_beneath p s = (s = p \<or> beneath p s)"

lemma beneath_iff [path_simps]: "beneath p s \<longleftrightarrow> (\<exists>x. s = p @ slash # x)"
proof
  assume "beneath p s"
  then show "\<exists>x. s = p @ slash # x"
    by (auto simp: beneath_def strip_prefix_Some_iff split: option.splits list.splits)
next
  assume "\<exists>x. s = p @ slash # x"
  then show "beneath p s"
    by (auto simp: beneath_def)
qed

lemma beneath_prefix: "beneath p s \<longleftrightarrow> prefix (p @ [slash]) s"
  by (auto simp: beneath_iff prefix_def)

lemma beneath_trans: "beneath p q \<Longrightarrow> beneath q s \<Longrightarrow> beneath p s"
  by (auto simp: beneath_iff)

lemma beneath_length: "beneath p s \<Longrightarrow> length p < length s"
  by (auto simp: beneath_iff)

lemma beneath_irrefl [simp]: "\<not> beneath p p"
  by (auto dest: beneath_length)

lemma beneath_Nil [simp]: "\<not> beneath p []"
  by (simp add: beneath_iff)

lemma beneath_asym: "beneath p s \<Longrightarrow> \<not> beneath s p"
  using beneath_length [of p s] beneath_length [of s p] by auto

lemma at_or_beneath_refl [simp]: "at_or_beneath p p"
  by (simp add: at_or_beneath_def)

lemma at_or_beneath_trans:
  "at_or_beneath p q \<Longrightarrow> at_or_beneath q s \<Longrightarrow> at_or_beneath p s"
  by (auto simp: at_or_beneath_def intro: beneath_trans)

text \<open>Two paths above the same path lie on one line.\<close>

lemma beneath_linear:
  assumes "beneath p s" and "beneath q s"
  shows "p = q \<or> beneath p q \<or> beneath q p"
proof -
  from assms obtain x y where x: "s = p @ slash # x" and y: "s = q @ slash # y"
    unfolding beneath_iff by blast
  then have "p @ slash # x = q @ slash # y" by simp
  then show ?thesis
    by (auto simp: beneath_iff append_eq_append_conv2 Cons_eq_append_conv append_eq_Cons_conv)
qed

text \<open>
  The contract of every predicate that shields, scopes or excludes a subtree: it holds for
  everything beneath a path it holds for.
\<close>

locale subtree_closed =
  fixes covers :: "string \<Rightarrow> bool"
  assumes covers_child: "covers p \<Longrightarrow> covers (p @ slash # x)"
begin

lemma covers_beneath: "covers p \<Longrightarrow> beneath p s \<Longrightarrow> covers s"
  by (auto simp: beneath_iff covers_child)

lemma covers_at_or_beneath: "covers p \<Longrightarrow> at_or_beneath p s \<Longrightarrow> covers s"
  by (auto simp: at_or_beneath_def covers_beneath)

lemma uncovered_above: "\<not> covers s \<Longrightarrow> beneath p s \<Longrightarrow> \<not> covers p"
  using covers_beneath by blast

end

interpretation below: subtree_closed "at_or_beneath p"
  by unfold_locales (auto simp: at_or_beneath_def beneath_iff)

section \<open>Walking a path upwards\<close>

function ancestors :: "string \<Rightarrow> string list" where
  "ancestors s = (case rsplit_once slash s of None \<Rightarrow> [] | Some (p, _) \<Rightarrow> p # ancestors p)"
  by pat_completeness auto
termination
  by (relation "measure length") (auto simp: rsplit_once_Some_iff dest: sym)

declare ancestors.simps [simp del]

lemma ancestors_no_slash: "slash \<notin> set s \<Longrightarrow> ancestors s = []"
  by (subst ancestors.simps) (simp add: rsplit_once_None_iff [THEN iffD2])

lemma ancestors_append:
  "slash \<notin> set b \<Longrightarrow> ancestors (a @ slash # b) = a # ancestors a"
proof -
  assume "slash \<notin> set b"
  then have "rsplit_once slash (a @ slash # b) = Some (a, b)"
    by (simp add: rsplit_once_Some_iff)
  then show ?thesis by (subst ancestors.simps) simp
qed

text \<open>The walk visits exactly the paths above \<open>s\<close>.\<close>

lemma in_ancestors_iff [path_simps]: "p \<in> set (ancestors s) \<longleftrightarrow> beneath p s"
proof (induction s arbitrary: p rule: ancestors.induct)
  case (1 s)
  show ?case
  proof (cases "rsplit_once slash s")
    case None
    then have "slash \<notin> set s"
      by (simp add: rsplit_once_None_iff)
    then show ?thesis
      by (auto simp: ancestors_no_slash beneath_iff)
  next
    case (Some ab)
    then obtain a b where ab: "rsplit_once slash s = Some (a, b)"
      by (cases ab) auto
    then have s: "s = a @ slash # b" and b: "slash \<notin> set b"
      by (auto simp: rsplit_once_Some_iff)
    have IH: "q \<in> set (ancestors a) \<longleftrightarrow> beneath q a" for q
      using "1.IH" ab by blast
    have "beneath p s \<longleftrightarrow> p = a \<or> beneath p a"
    proof
      assume "beneath p s"
      then obtain x where x: "a @ slash # b = p @ slash # x"
        by (auto simp: beneath_iff s)
      then obtain us where
        "a = p @ us \<and> us @ slash # b = slash # x \<or> a @ us = p \<and> slash # b = us @ slash # x"
        by (auto simp: append_eq_append_conv2)
      then show "p = a \<or> beneath p a"
        using b by (cases us) (auto simp: beneath_iff)
    next
      assume "p = a \<or> beneath p a"
      then show "beneath p s"
        by (auto simp: beneath_iff s)
    qed
    with IH s b show ?thesis by (simp add: ancestors_append)
  qed
qed

text \<open>\<open>match_indices('/')\<close> as the texts before each slash, the shortest first.\<close>

fun slash_prefixes :: "string \<Rightarrow> string list" where
  "slash_prefixes [] = []"
| "slash_prefixes (c # s) =
     (if c = slash then [[]] else []) @ map (\<lambda>p. c # p) (slash_prefixes s)"

lemma in_slash_prefixes_iff [path_simps]: "p \<in> set (slash_prefixes s) \<longleftrightarrow> beneath p s"
proof (induction s arbitrary: p)
  case Nil
  then show ?case by simp
next
  case (Cons c s)
  show ?case
    by (cases p) (auto simp: Cons.IH beneath_iff image_iff)
qed

lemma slash_prefixes_append_no_slash:
  "slash \<notin> set b \<Longrightarrow> slash_prefixes (a @ slash # b) = slash_prefixes a @ [a]"
proof (induction a)
  case Nil
  then have "slash_prefixes b = []"
    by (induction b) auto
  then show ?case by simp
next
  case (Cons c a)
  then show ?case by simp
qed

lemma slash_prefixes_rev_ancestors: "slash_prefixes s = rev (ancestors s)"
proof (induction s rule: ancestors.induct)
  case (1 s)
  show ?case
  proof (cases "rsplit_once slash s")
    case None
    then have n: "slash \<notin> set s"
      by (simp add: rsplit_once_None_iff)
    then have "slash_prefixes s = []"
      by (induction s) auto
    with n show ?thesis by (simp add: ancestors_no_slash)
  next
    case (Some ab)
    then obtain a b where ab: "rsplit_once slash s = Some (a, b)"
      by (cases ab) auto
    then have s: "s = a @ slash # b" and b: "slash \<notin> set b"
      by (auto simp: rsplit_once_Some_iff)
    have "slash_prefixes a = rev (ancestors a)"
      using "1.IH" ab by blast
    with s b show ?thesis
      by (simp add: ancestors_append slash_prefixes_append_no_slash)
  qed
qed

text \<open>\<open>relative_parent_and_name\<close> and the like: the part before the last slash, and after it.\<close>

definition parent_name :: "string \<Rightarrow> string \<times> string" where
  "parent_name s = (case rsplit_once slash s of None \<Rightarrow> ([], s) | Some pn \<Rightarrow> pn)"

end
