(* ===== verification/OrdMap.thy ===== *)
theory OrdMap
  imports PathText
begin

text \<open>
  \<open>BTreeMap<K, V>\<close>: an association list in the order of its keys. The interface the
  code uses, for text keys, is the locale \<open>ordered_map\<close>; the lemmas about range queries, removal of a
  subtree and look-up by key order are proved once from it and interpreted on the model's map.
\<close>

section \<open>The interface\<close>

locale ordered_map =
  fixes get :: "'m \<Rightarrow> string \<Rightarrow> 'v option"
    and insert_at :: "string \<Rightarrow> 'v \<Rightarrow> 'm \<Rightarrow> 'm"
    and remove_at :: "string \<Rightarrow> 'm \<Rightarrow> 'm"
    and items :: "'m \<Rightarrow> (string \<times> 'v) list"
    and wf :: "'m \<Rightarrow> bool"
  assumes items_sorted: "wf m \<Longrightarrow> sorted_wrt (<) (map fst (items m))"
    and get_items: "wf m \<Longrightarrow> get m k = map_of (items m) k"
    and get_insert: "wf m \<Longrightarrow> get (insert_at k v m) j = (if j = k then Some v else get m j)"
    and get_remove: "wf m \<Longrightarrow> get (remove_at k m) j = (if j = k then None else get m j)"
    and wf_insert: "wf m \<Longrightarrow> wf (insert_at k v m)"
    and wf_remove: "wf m \<Longrightarrow> wf (remove_at k m)"
begin

lemma items_distinct: "wf m \<Longrightarrow> distinct (map fst (items m))"
  using items_sorted strict_sorted_iff by blast

lemma in_items_iff: "wf m \<Longrightarrow> (k, v) \<in> set (items m) \<longleftrightarrow> get m k = Some v"
  by (simp add: get_items items_distinct)

lemma wf_remove_all: "wf m \<Longrightarrow> wf (fold remove_at ks m)"
  by (induction ks arbitrary: m) (auto simp: wf_remove)

lemma get_remove_all:
  "wf m \<Longrightarrow> get (fold remove_at ks m) j = (if j \<in> set ks then None else get m j)"
  by (induction ks arbitrary: m) (auto simp: wf_remove get_remove)

end

section \<open>Prefixes are contiguous in the order of text\<close>

lemma prefix_ge: "prefix p s \<Longrightarrow> p \<le> (s :: 'a :: linorder list)"
proof (induction p arbitrary: s)
  case Nil
  then show ?case by simp
next
  case (Cons x p)
  then obtain t where "s = x # t" "prefix p t"
    by (cases s) auto
  with Cons.IH show ?case by simp
qed

lemma prefix_convex:
  fixes p a b c :: "'a :: linorder list"
  shows "prefix p a \<Longrightarrow> prefix p c \<Longrightarrow> a \<le> b \<Longrightarrow> b \<le> c \<Longrightarrow> prefix p b"
proof (induction p arbitrary: a b c)
  case Nil
  then show ?case by simp
next
  case (Cons x p)
  obtain a' where a: "a = x # a'" "prefix p a'"
    using Cons.prems(1) by (cases a) auto
  obtain c' where c: "c = x # c'" "prefix p c'"
    using Cons.prems(2) by (cases c) auto
  obtain y b' where b: "b = y # b'"
    using Cons.prems(3) a by (cases b) auto
  have "x \<le> y" "y \<le> x"
    using Cons.prems(3,4) a b c by auto
  then have "y = x" by simp
  then have "a' \<le> b'" "b' \<le> c'"
    using Cons.prems(3,4) a b c by auto
  then have "prefix p b'"
    using Cons.IH a c by blast
  with b \<open>y = x\<close> show ?case by simp
qed

lemma dropWhile_less_sorted:
  "sorted_wrt (<) (map f xs) \<Longrightarrow>
   dropWhile (\<lambda>x. f x < (b :: 'b :: linorder)) xs = filter (\<lambda>x. b \<le> f x) xs"
proof (induction xs)
  case Nil
  then show ?case by simp
next
  case (Cons x xs)
  show ?case
  proof (cases "f x < b")
    case True
    with Cons show ?thesis by simp
  next
    case False
    with Cons.prems have "\<forall>y \<in> set xs. b \<le> f y"
      by force
    then have "filter (\<lambda>x. b \<le> f x) xs = xs"
      by (simp add: filter_id_conv)
    with False show ?thesis by simp
  qed
qed

lemma takeWhile_prefix_sorted:
  fixes f :: "'a \<Rightarrow> 'b :: linorder list"
  assumes "sorted_wrt (<) (map f xs)" and "list_all (\<lambda>x. p \<le> f x) xs"
  shows "takeWhile (\<lambda>x. prefix p (f x)) xs = filter (\<lambda>x. prefix p (f x)) xs"
  using assms
proof (induction xs)
  case Nil
  then show ?case by simp
next
  case (Cons x xs)
  show ?case
  proof (cases "prefix p (f x)")
    case True
    with Cons show ?thesis by simp
  next
    case False
    have "\<not> prefix p (f y)" if "y \<in> set xs" for y
    proof
      assume "prefix p (f y)"
      moreover have "p \<le> f x" "f x \<le> f y"
        using Cons.prems that by (auto intro: less_imp_le)
      ultimately show False
        using False prefix_convex [of p p "f y" "f x"] by auto
    qed
    then have "filter (\<lambda>x. prefix p (f x)) xs = []"
      by (simp add: filter_empty_conv)
    with False show ?thesis by simp
  qed
qed

section \<open>The model's map\<close>

type_synonym ('k, 'v) kmap = "('k \<times> 'v) list"
type_synonym 'v omap = "(string, 'v) kmap"

definition om_wf :: "('k :: linorder, 'v) kmap \<Rightarrow> bool" where
  "om_wf m = sorted_wrt (<) (map fst m)"

definition om_get :: "('k, 'v) kmap \<Rightarrow> 'k \<Rightarrow> 'v option" where
  "om_get m k = map_of m k"

definition om_has :: "('k, 'v) kmap \<Rightarrow> 'k \<Rightarrow> bool" where
  "om_has m k = (om_get m k \<noteq> None)"

fun om_insert :: "'k :: linorder \<Rightarrow> 'v \<Rightarrow> ('k, 'v) kmap \<Rightarrow> ('k, 'v) kmap" where
  "om_insert k v [] = [(k, v)]"
| "om_insert k v ((j, w) # m) =
     (if k < j then (k, v) # (j, w) # m
      else if k = j then (k, v) # m
      else (j, w) # om_insert k v m)"

definition om_remove :: "'k \<Rightarrow> ('k, 'v) kmap \<Rightarrow> ('k, 'v) kmap" where
  "om_remove k m = filter (\<lambda>(j, _). j \<noteq> k) m"

definition om_keys :: "('k, 'v) kmap \<Rightarrow> 'k list" where
  "om_keys m = map fst m"

definition om_values :: "('k, 'v) kmap \<Rightarrow> 'v list" where
  "om_values m = map snd m"

text \<open>
  \<open>range(prefix..).take_while(starts_with(prefix))\<close>: the entries whose key carries a
  prefix, by position in the order.
\<close>

definition om_prefixed :: "string \<Rightarrow> 'v omap \<Rightarrow> 'v omap" where
  "om_prefixed p m =
     takeWhile (\<lambda>kv. prefix p (fst kv)) (dropWhile (\<lambda>kv. fst kv < p) m)"

text \<open>\<open>range(prefix..).next()\<close>, when its key carries the prefix.\<close>

definition om_first_prefixed :: "string \<Rightarrow> 'v omap \<Rightarrow> (string \<times> 'v) option" where
  "om_first_prefixed p m =
     (case dropWhile (\<lambda>kv. fst kv < p) m of
        [] \<Rightarrow> None
      | kv # _ \<Rightarrow> if prefix p (fst kv) then Some kv else None)"

lemma set_keys_om_insert: "set (map fst (om_insert k v m)) = insert k (set (map fst m))"
  by (induction k v m rule: om_insert.induct) auto

lemma om_wf_insert: "om_wf m \<Longrightarrow> om_wf (om_insert k v m)"
proof (induction k v m rule: om_insert.induct)
  case (1 k v)
  then show ?case by (simp add: om_wf_def)
next
  case (2 k v j w m)
  then have wf: "om_wf m" and j: "\<forall>x \<in> set (map fst m). j < x"
    by (auto simp: om_wf_def)
  show ?case
  proof (cases "k < j \<or> k = j")
    case True
    with wf j show ?thesis by (auto simp: om_wf_def)
  next
    case False
    then have "j < k" by auto
    with False wf j 2 set_keys_om_insert [of k v m] show ?thesis
      by (auto simp: om_wf_def)
  qed
qed

lemma om_get_insert: "om_wf m \<Longrightarrow> om_get (om_insert k v m) i = (if i = k then Some v else om_get m i)"
  by (induction k v m rule: om_insert.induct) (auto simp: om_get_def om_wf_def)

lemma om_wf_filter: "om_wf m \<Longrightarrow> om_wf (filter P m)"
  unfolding om_wf_def by (induction m) auto

lemma om_get_remove: "om_get (om_remove k m) i = (if i = k then None else om_get m i)"
  unfolding om_get_def om_remove_def by (induction m) auto

lemma om_wf_remove: "om_wf m \<Longrightarrow> om_wf (om_remove k m)"
  by (simp add: om_remove_def om_wf_filter)

interpretation om: ordered_map om_get om_insert om_remove "\<lambda>m. m" om_wf
proof
  fix m :: "'a omap" and k j v
  assume wf: "om_wf m"
  show "sorted_wrt (<) (map fst m)"
    using wf by (simp add: om_wf_def)
  show "om_get m k = map_of m k"
    by (simp add: om_get_def)
  show "om_get (om_insert k v m) j = (if j = k then Some v else om_get m j)"
    using wf by (rule om_get_insert)
  show "om_get (om_remove k m) j = (if j = k then None else om_get m j)"
    by (rule om_get_remove)
  show "om_wf (om_insert k v m)"
    using wf by (rule om_wf_insert)
  show "om_wf (om_remove k m)"
    using wf by (rule om_wf_remove)
qed

lemma om_get_Some_in: "om_get m k = Some v \<Longrightarrow> (k, v) \<in> set m"
  by (simp add: om_get_def map_of_SomeD)

lemma om_values_in: "v \<in> set (om_values m) \<longleftrightarrow> (\<exists>k. (k, v) \<in> set m)"
  by (force simp: om_values_def)

lemma om_prefixed_eq: "om_wf m \<Longrightarrow> om_prefixed p m = filter (\<lambda>kv. prefix p (fst kv)) m"
proof -
  assume wf: "om_wf m"
  let ?d = "filter (\<lambda>kv. p \<le> fst kv) m"
  have "dropWhile (\<lambda>kv. fst kv < p) m = ?d"
    using wf by (simp add: om_wf_def dropWhile_less_sorted)
  moreover have "takeWhile (\<lambda>kv. prefix p (fst kv)) ?d = filter (\<lambda>kv. prefix p (fst kv)) ?d"
    using om_wf_filter [OF wf] by (intro takeWhile_prefix_sorted) (auto simp: om_wf_def list_all_iff)
  moreover have "filter (\<lambda>kv. prefix p (fst kv)) ?d = filter (\<lambda>kv. prefix p (fst kv)) m"
    by (auto simp: filter_filter intro!: filter_cong dest: prefix_ge)
  ultimately show ?thesis by (simp add: om_prefixed_def)
qed

lemma om_first_prefixed_None_iff:
  "om_wf m \<Longrightarrow> om_first_prefixed p m = None \<longleftrightarrow> (\<forall>kv \<in> set m. \<not> prefix p (fst kv))"
proof -
  assume wf: "om_wf m"
  have "om_prefixed p m = [] \<longleftrightarrow> om_first_prefixed p m = None"
    unfolding om_prefixed_def om_first_prefixed_def
    by (simp del: dropWhile_eq_Nil_conv split: list.split)
  with om_prefixed_eq [OF wf, of p] show ?thesis
    by (auto simp: filter_empty_conv)
qed

lemma om_first_prefixed_SomeD:
  assumes "om_first_prefixed p m = Some (k, v)"
  shows "(k, v) \<in> set m" and "prefix p k"
proof -
  obtain rest where d: "dropWhile (\<lambda>kv. fst kv < p) m = (k, v) # rest" and "prefix p k"
    using assms unfolding om_first_prefixed_def by (auto split: list.splits if_splits)
  then show "prefix p k" by simp
  have "(k, v) \<in> set (dropWhile (\<lambda>kv. fst kv < p) m)"
    using d by simp
  then show "(k, v) \<in> set m"
    by (rule set_dropWhileD)
qed

section \<open>Grouping\<close>

text \<open>\<open>entry(k).or_default().push(x)\<close>.\<close>

definition push_at :: "'k :: linorder \<Rightarrow> 'a \<Rightarrow> ('k, 'a list) kmap \<Rightarrow> ('k, 'a list) kmap" where
  "push_at k x m = om_insert k ((case om_get m k of None \<Rightarrow> [] | Some xs \<Rightarrow> xs) @ [x]) m"

text \<open>A loop that files every element that has a key under it.\<close>

definition group_push ::
  "('x \<Rightarrow> 'k :: linorder option) \<Rightarrow> ('x \<Rightarrow> 'a) \<Rightarrow> 'x \<Rightarrow> ('k, 'a list) kmap \<Rightarrow> ('k, 'a list) kmap"
where
  "group_push key val x m = (case key x of None \<Rightarrow> m | Some k \<Rightarrow> push_at k (val x) m)"

definition list_at :: "('k, 'a list) kmap \<Rightarrow> 'k \<Rightarrow> 'a list" where
  "list_at m k = (case om_get m k of None \<Rightarrow> [] | Some xs \<Rightarrow> xs)"

lemma om_wf_Nil [simp]: "om_wf []"
  by (simp add: om_wf_def)

lemma list_at_push:
  "om_wf m \<Longrightarrow> list_at (push_at k x m) j = (if j = k then list_at m k @ [x] else list_at m j)"
  by (simp add: push_at_def list_at_def om_get_insert)

lemma om_wf_push: "om_wf m \<Longrightarrow> om_wf (push_at k x m)"
  by (simp add: push_at_def om_wf_insert)

lemma om_wf_group: "om_wf m \<Longrightarrow> om_wf (fold (group_push key val) xs m)"
  by (induction xs arbitrary: m) (auto simp: group_push_def om_wf_push split: option.splits)

lemma list_at_group:
  "om_wf m \<Longrightarrow>
   list_at (fold (group_push key val) xs m) k =
     list_at m k @ map val (filter (\<lambda>x. key x = Some k) xs)"
proof (induction xs arbitrary: m)
  case Nil
  then show ?case by simp
next
  case (Cons x xs)
  show ?case
  proof (cases "key x")
    case None
    with Cons show ?thesis by (simp add: group_push_def)
  next
    case (Some j)
    with Cons show ?thesis by (simp add: group_push_def om_wf_push list_at_push)
  qed
qed

lemma group_get:
  "om_get (fold (group_push key val) xs []) k = Some ys \<Longrightarrow>
   ys = map val (filter (\<lambda>x. key x = Some k) xs)"
  using list_at_group [of "[]" key val xs k] by (simp add: list_at_def om_get_def)

end
