(* ===== verification/Errors.thy ===== *)
theory Errors
  imports PathText
begin

text \<open>
  \<open>src/error.rs\<close>: the error type every fallible operation returns, the classes of a refusal of
  one path, and the questions the executor asks of an error. An error of another library (I/O,
  HTTP, JSON) is carried by what the code reads of it: the kind of an I/O error and its text.
\<close>

datatype io_kind =
    NotFound | PermissionDenied | InvalidFilename | NotADirectory | OtherIo

record io_error =
  io_kind_of :: io_kind
  io_text :: string

datatype refusal_class =
    Permission
  | NameClass
  | SizeClass
  | Clash
  | FolderLimit
  | CreateFailed

datatype error =
    InvalidUrl string
  | HttpsRequired
  | UnsafeRemotePath (unsafe_path_of: string) (unsafe_reason_of: string)
  | InvalidSource string
  | UnsupportedLocalEntryError string string
  | FileIo string io_error
  | Http string string
  | HttpBody string io_error
  | HttpStatus string string string
  | InvalidResponse string string
  | Api (api_name: string) (api_operation: string) (api_error_code: int) string
  | UnsupportedApiVersion string nat nat nat
  | RemoteRefusedError (refused_operation: string) (refused_path: string) (refused_code: int) string
  | RemoteLinkInScope string string
  | RemoteRefusalsShareWide refusal_class nat nat nat nat "(string \<times> nat) list" "string list" nat
  | RemoteRealPathUnusable string nat nat "string list" nat
  | MissingApi string
  | ShareNotWritable string
  | RemoteEscape string
  | RemoteMountRoot string string
  | TypeConflictError string string string
  | ProtectedConflict string
  | EmptySourceDeletion
  | DeleteLimit nat nat
  | SourceChangedError string
  | ResyncTicketStale string string
  | ScopeNotFound string
  | InvalidContentHash
  | ContentVerificationFailed string
  | RemoteSnapshotChanged string
  | ServerCopyNotStarted
  | RemoteDigestsFailing error "string list"
  | ServerCopyFailedError string string
  | OperationTimedOut string
  | ReconciliationPending nat
  | Cancelled
  | Vault string string
  | Configuration string
  | Message string

type_synonym 'a res = "error + 'a"

fun api_code :: "error \<Rightarrow> int option" where
  "api_code (Api _ _ code _) = Some code"
| "api_code (RemoteRefusedError _ _ code _) = Some code"
| "api_code _ = None"

fun refused_remote_path :: "error \<Rightarrow> string option" where
  "refused_remote_path (RemoteRefusedError _ path _ _) = Some path"
| "refused_remote_path _ = None"

definition class_of_code :: "int \<Rightarrow> refusal_class" where
  "class_of_code code =
     (if code = 105 \<or> code = 407 then Permission
      else if code = 400 \<or> code = 412 \<or> code = 413 \<or> code = 418 \<or> code = 1802 then NameClass
      else if code = 1804 then SizeClass
      else if code = 414 then Clash
      else if code = 1101 then FolderLimit
      else CreateFailed)"

fun refusal_class_str :: "refusal_class \<Rightarrow> string" where
  "refusal_class_str Permission = ''permission''"
| "refusal_class_str NameClass = ''name''"
| "refusal_class_str SizeClass = ''size''"
| "refusal_class_str Clash = ''clash''"
| "refusal_class_str FolderLimit = ''folder-limit''"
| "refusal_class_str CreateFailed = ''create-failed''"

fun error_refusal_class :: "error \<Rightarrow> refusal_class option" where
  "error_refusal_class (RemoteRefusedError _ _ code _) = Some (class_of_code code)"
| "error_refusal_class _ = None"

text \<open>Signed decimal rendering, as \<open>format!("{code}")\<close> has it for an \<open>i64\<close>.\<close>

definition show_int :: "int \<Rightarrow> string" where
  "show_int i = (if i < 0 then ''-'' @ show_nat (nat (- i)) else show_nat (nat i))"

fun refusal_cause_key :: "error \<Rightarrow> string option" where
  "refusal_cause_key (RemoteRefusedError operation _ code _) =
     Some (operation @ '':'' @ show_int code)"
| "refusal_cause_key _ = None"

fun is_session_failure :: "error \<Rightarrow> bool" where
  "is_session_failure (Api api _ code _) =
     (api = ''SYNO.API.Auth'' \<or> code = 106 \<or> code = 107 \<or> code = 119)"
| "is_session_failure _ = False"

section \<open>What a refusal of one path is\<close>

text \<open>
  The four questions agree: an error has a refused path exactly when it has a class and a cause
  key, it then has a DSM code which decides the class, and it is never a failure of the session.
\<close>

lemma refusal_questions_agree:
  "(error_refusal_class e = None) = (refused_remote_path e = None)"
  "(refusal_cause_key e = None) = (refused_remote_path e = None)"
  by (cases e; simp)+

lemma refused_has_class:
  "refused_remote_path e = Some p \<Longrightarrow>
   \<exists>code. api_code e = Some code \<and> error_refusal_class e = Some (class_of_code code)"
  by (cases e) auto

lemma refused_not_session: "refused_remote_path e = Some p \<Longrightarrow> \<not> is_session_failure e"
  by (cases e) auto

lemma session_failure_has_code: "is_session_failure e \<Longrightarrow> \<exists>code. api_code e = Some code"
  by (cases e) auto

lemma refusal_class_str_inj: "refusal_class_str a = refusal_class_str b \<Longrightarrow> a = b"
  by (cases a; cases b) simp_all

end
