(* ===== verification/Deferral.thy ===== *)
theory Deferral
  imports Errors
begin

text \<open>
  \<open>DeferReason\<close> of \<open>src/sync.rs\<close>: why one path of a run is left for the next one, its wire
  names, which reasons are lasting, and which errors defer a path at all.
\<close>

datatype defer_reason =
    SourceChanged
  | SourceVanished
  | SourceUnreadable
  | UnsupportedLocalEntry
  | RemoteDigestUnavailableD
  | RemoteUnreadable
  | RemoteChanged
  | UnrepresentableName
  | ListingIncomplete
  | ServerCopyFailed
  | DeleteFailed
  | RemoteRefused
  | LocalPermissionDenied
  | CaseRenamePending
  | RemoteSkipped
  | UnsupportedEntry
  | DeleteNotPermitted

fun defer_str :: "defer_reason \<Rightarrow> string" where
  "defer_str SourceChanged = ''source-changed''"
| "defer_str SourceVanished = ''source-vanished''"
| "defer_str SourceUnreadable = ''source-unreadable''"
| "defer_str UnsupportedLocalEntry = ''unsupported-local-entry''"
| "defer_str RemoteDigestUnavailableD = ''remote-digest-unavailable''"
| "defer_str RemoteUnreadable = ''remote-unreadable''"
| "defer_str RemoteChanged = ''remote-changed''"
| "defer_str UnrepresentableName = ''unrepresentable-name''"
| "defer_str ListingIncomplete = ''listing-incomplete''"
| "defer_str ServerCopyFailed = ''server-copy-failed''"
| "defer_str DeleteFailed = ''delete-failed''"
| "defer_str RemoteRefused = ''remote-refused''"
| "defer_str LocalPermissionDenied = ''local-permission-denied''"
| "defer_str CaseRenamePending = ''case-rename-pending''"
| "defer_str RemoteSkipped = ''remote-skipped''"
| "defer_str UnsupportedEntry = ''unsupported-entry''"
| "defer_str DeleteNotPermitted = ''delete-not-permitted''"

fun is_lasting :: "defer_reason \<Rightarrow> bool" where
  "is_lasting UnrepresentableName = True"
| "is_lasting UnsupportedLocalEntry = True"
| "is_lasting ListingIncomplete = True"
| "is_lasting RemoteUnreadable = True"
| "is_lasting LocalPermissionDenied = True"
| "is_lasting DeleteNotPermitted = True"
| "is_lasting RemoteRefused = True"
| "is_lasting RemoteSkipped = True"
| "is_lasting UnsupportedEntry = True"
| "is_lasting CaseRenamePending = True"
| "is_lasting _ = False"

definition all_reasons :: "defer_reason list" where
  "all_reasons =
     [SourceChanged, SourceVanished, SourceUnreadable, UnsupportedLocalEntry,
      RemoteDigestUnavailableD, RemoteUnreadable, RemoteChanged, UnrepresentableName,
      ListingIncomplete, ServerCopyFailed, DeleteFailed, RemoteRefused, LocalPermissionDenied,
      CaseRenamePending, RemoteSkipped, UnsupportedEntry, DeleteNotPermitted]"

text \<open>
  \<open>is_entry_without_data\<close> asks the Windows error code of an I/O error; on every other platform it
  answers \<open>false\<close>, which is the platform modelled.
\<close>

definition is_entry_without_data :: "io_error \<Rightarrow> bool" where
  "is_entry_without_data e = False"

fun for_local_error :: "error \<Rightarrow> defer_reason option" where
  "for_local_error (SourceChangedError _) = Some SourceChanged"
| "for_local_error (FileIo _ source) =
     (if io_kind_of source = NotFound then Some SourceVanished
      else if is_entry_without_data source then Some UnsupportedLocalEntry
      else if io_kind_of source = PermissionDenied then Some LocalPermissionDenied
      else Some SourceUnreadable)"
| "for_local_error (UnsupportedLocalEntryError _ _) = Some UnsupportedLocalEntry"
| "for_local_error _ = None"

fun for_path_error :: "error \<Rightarrow> defer_reason option" where
  "for_path_error (RemoteRefusedError _ _ _ _) = Some RemoteRefused"
| "for_path_error other = for_local_error other"

definition delete_refusal_reason :: "error \<Rightarrow> defer_reason" where
  "delete_refusal_reason e =
     (if api_code e = Some 105 \<or> api_code e = Some 407 then DeleteNotPermitted else DeleteFailed)"

lemma all_reasons_complete: "r \<in> set all_reasons"
  by (cases r) (simp_all add: all_reasons_def)

lemma all_reasons_distinct: "distinct all_reasons"
  by (simp add: all_reasons_def)

lemma defer_str_inj: "defer_str a = defer_str b \<Longrightarrow> a = b"
  by (cases a; cases b; simp)

text \<open>Only a failure of the one path defers it: never the session, the network or the run.\<close>

lemma for_path_error_Some_iff:
  "for_path_error e \<noteq> None \<longleftrightarrow>
     refused_remote_path e \<noteq> None \<or> (\<exists>p. e = SourceChangedError p) \<or>
     (\<exists>p io. e = FileIo p io) \<or> (\<exists>p r. e = UnsupportedLocalEntryError p r)"
  by (cases e) auto

lemma for_path_error_refused:
  "refused_remote_path e \<noteq> None \<Longrightarrow> for_path_error e = Some RemoteRefused"
  by (cases e) auto

lemma delete_refusal_lasting_iff:
  "is_lasting (delete_refusal_reason e) \<longleftrightarrow> (api_code e = Some 105 \<or> api_code e = Some 407)"
  by (simp add: delete_refusal_reason_def)

end
