(* ===== verification/Fingerprint.thy ===== *)
theory Fingerprint
  imports Errors "HOL-Library.Option_ord" "HOL-Library.Product_Lexorder"
begin

text \<open>
  \<open>src/integrity.rs\<close>: content fingerprints. A fingerprint is an MD5 and, when the whole content
  was hashed here, a CRC32 and a SHA-256. The hash functions are of other crates: they are a
  parameter, \<open>hash_suite\<close>. Comparison reports what was established, and only
  \<open>Strong\<close> may authorise the destruction or the duplication of remote data.
\<close>

section \<open>Fingerprints\<close>

datatype strong_digests = StrongDigests (sd_crc32: u32) (sd_sha256: "u8 list")

datatype fingerprint = Fingerprint (fp_md5: "u8 list") (fp_strong: "strong_digests option")

text \<open>The arrays of the code have fixed lengths.\<close>

definition fp_wf :: "fingerprint \<Rightarrow> bool" where
  "fp_wf f =
     (length (fp_md5 f) = 16 \<and>
      (case fp_strong f of None \<Rightarrow> True | Some d \<Rightarrow> length (sd_sha256 d) = 32))"

datatype content_match = Strong | Md5Only | Differs

definition from_bytes :: "u8 list \<Rightarrow> fingerprint" where
  "from_bytes bytes = Fingerprint bytes None"

definition from_digests :: "u8 list \<Rightarrow> u32 \<Rightarrow> u8 list \<Rightarrow> fingerprint" where
  "from_digests md5 crc32 sha256 = Fingerprint md5 (Some (StrongDigests crc32 sha256))"

definition fp_crc32 :: "fingerprint \<Rightarrow> u32 option" where
  "fp_crc32 f = map_option sd_crc32 (fp_strong f)"

definition fp_sha256 :: "fingerprint \<Rightarrow> u8 list option" where
  "fp_sha256 f = map_option sd_sha256 (fp_strong f)"

definition has_full_proof :: "fingerprint \<Rightarrow> bool" where
  "has_full_proof f = (fp_strong f \<noteq> None)"

definition full_match :: "fingerprint \<Rightarrow> fingerprint \<Rightarrow> bool option" where
  "full_match a b =
     (case (fp_strong a, fp_strong b) of
        (Some left, Some right) \<Rightarrow> Some (fp_md5 a = fp_md5 b \<and> left = right)
      | _ \<Rightarrow> None)"

definition compare_content :: "fingerprint \<Rightarrow> fingerprint \<Rightarrow> content_match" where
  "compare_content a b =
     (if fp_md5 a \<noteq> fp_md5 b then Differs
      else (case (fp_strong a, fp_strong b) of
              (Some left, Some right) \<Rightarrow> if left = right then Strong else Differs
            | _ \<Rightarrow> Md5Only))"

definition md5_matches :: "fingerprint \<Rightarrow> fingerprint \<Rightarrow> bool" where
  "md5_matches a b = (fp_md5 a = fp_md5 b)"

section \<open>Hexadecimal\<close>

definition hex_value :: "char \<Rightarrow> u8 option" where
  "hex_value c =
     (let n = byte c in
      if 48 \<le> n \<and> n \<le> 57 then Some (of_nat (n - 48))
      else if 97 \<le> n \<and> n \<le> 102 then Some (of_nat (n - 97 + 10))
      else if 65 \<le> n \<and> n \<le> 70 then Some (of_nat (n - 65 + 10))
      else None)"

definition hex_digit :: "nat \<Rightarrow> char" where
  "hex_digit d = char_of (if d < 10 then 48 + d else 87 + d)"

text \<open>\<open>{byte:02x}\<close>, and the whole of \<open>hex_encode\<close>.\<close>

definition hex_byte :: "u8 \<Rightarrow> string" where
  "hex_byte b = [hex_digit (unat b div 16), hex_digit (unat b mod 16)]"

definition hex_encode :: "u8 list \<Rightarrow> string" where
  "hex_encode bytes = concat (map hex_byte bytes)"

text \<open>\<open>{digest:08x}\<close>.\<close>

definition hex_u32 :: "u32 \<Rightarrow> string" where
  "hex_u32 w = map (\<lambda>i. hex_digit (unat w div 16 ^ i mod 16)) (rev [0..<8])"

definition crc32_hex :: "fingerprint \<Rightarrow> string option" where
  "crc32_hex f = map_option hex_u32 (fp_crc32 f)"

definition sha256_hex :: "fingerprint \<Rightarrow> string option" where
  "sha256_hex f = map_option hex_encode (fp_sha256 f)"

text \<open>\<open>Display\<close>: the MD5 in lower-case hexadecimal.\<close>

definition fp_display :: "fingerprint \<Rightarrow> string" where
  "fp_display f = hex_encode (fp_md5 f)"

text \<open>The loop of \<open>parse_hex\<close>: two digits per byte, the high one first.\<close>

definition hex_byte_value :: "char \<Rightarrow> char \<Rightarrow> u8 option" where
  "hex_byte_value high low =
     (case hex_value high of
        None \<Rightarrow> None
      | Some h \<Rightarrow> (case hex_value low of
                   None \<Rightarrow> None
                 | Some l \<Rightarrow> Some (or (push_bit 4 h) l)))"

fun hex_bytes :: "string \<Rightarrow> u8 list option" where
  "hex_bytes [] = Some []"
| "hex_bytes [c] = None"
| "hex_bytes (h # l # s) =
     (case hex_byte_value h l of
        None \<Rightarrow> None
      | Some b \<Rightarrow> map_option (\<lambda>bs. b # bs) (hex_bytes s))"

definition parse_hex :: "string \<Rightarrow> fingerprint res" where
  "parse_hex value =
     (let v = trim value in
      if length v \<noteq> 32 then Inl InvalidContentHash
      else (case hex_bytes v of
              None \<Rightarrow> Inl InvalidContentHash
            | Some bytes \<Rightarrow> Inr (from_bytes bytes)))"

section \<open>Hashers\<close>

text \<open>
  The states and functions of the \<open>md5\<close>, \<open>crc32fast\<close> and \<open>sha2\<close> crates: what the code uses is
  a fresh state, feeding bytes, and the digest of what was fed.
\<close>

record ('m, 'c, 's) hash_suite =
  md5_new :: 'm
  md5_update :: "'m \<Rightarrow> u8 list \<Rightarrow> 'm"
  md5_final :: "'m \<Rightarrow> u8 list"
  crc_new :: 'c
  crc_update :: "'c \<Rightarrow> u8 list \<Rightarrow> 'c"
  crc_final :: "'c \<Rightarrow> u32"
  sha_new :: 's
  sha_update :: "'s \<Rightarrow> u8 list \<Rightarrow> 's"
  sha_final :: "'s \<Rightarrow> u8 list"

record ('m, 'c, 's) content_hasher =
  ch_md5 :: 'm
  ch_crc32 :: 'c
  ch_sha256 :: 's

definition hasher_new :: "('m, 'c, 's) hash_suite \<Rightarrow> ('m, 'c, 's) content_hasher" where
  "hasher_new H = \<lparr>ch_md5 = md5_new H, ch_crc32 = crc_new H, ch_sha256 = sha_new H\<rparr>"

definition hasher_update ::
  "('m, 'c, 's) hash_suite \<Rightarrow> ('m, 'c, 's) content_hasher \<Rightarrow> u8 list \<Rightarrow> ('m, 'c, 's) content_hasher"
where
  "hasher_update H h bytes =
     \<lparr>ch_md5 = md5_update H (ch_md5 h) bytes,
      ch_crc32 = crc_update H (ch_crc32 h) bytes,
      ch_sha256 = sha_update H (ch_sha256 h) bytes\<rparr>"

definition hasher_finalize :: "('m, 'c, 's) hash_suite \<Rightarrow> ('m, 'c, 's) content_hasher \<Rightarrow> fingerprint"
where
  "hasher_finalize H h =
     from_digests (md5_final H (ch_md5 h)) (crc_final H (ch_crc32 h)) (sha_final H (ch_sha256 h))"

definition from_content :: "('m, 'c, 's) hash_suite \<Rightarrow> u8 list \<Rightarrow> fingerprint" where
  "from_content H content = hasher_finalize H (hasher_update H (hasher_new H) content)"

definition md5_hasher_finalize :: "('m, 'c, 's) hash_suite \<Rightarrow> 'm \<Rightarrow> fingerprint" where
  "md5_hasher_finalize H h = from_bytes (md5_final H h)"

text \<open>Feeding a stream in pieces, as the scanner and the uploader do.\<close>

definition hash_chunks :: "('m, 'c, 's) hash_suite \<Rightarrow> u8 list list \<Rightarrow> fingerprint" where
  "hash_chunks H cs = hasher_finalize H (fold (\<lambda>c h. hasher_update H h c) cs (hasher_new H))"

definition hash_chunks_md5 :: "('m, 'c, 's) hash_suite \<Rightarrow> u8 list list \<Rightarrow> fingerprint" where
  "hash_chunks_md5 H cs =
     md5_hasher_finalize H (fold (\<lambda>c h. md5_update H h c) cs (md5_new H))"

section \<open>Comparison\<close>

lemma compare_Strong_iff: "compare_content a b = Strong \<longleftrightarrow> full_match a b = Some True"
  by (auto simp: compare_content_def full_match_def split: option.splits)

lemma compare_Strong_full_proof:
  "compare_content a b = Strong \<Longrightarrow> has_full_proof a \<and> has_full_proof b \<and> a = b"
  by (cases a; cases b)
    (auto simp: compare_content_def has_full_proof_def split: option.splits if_splits)

lemma compare_Md5Only_iff:
  "compare_content a b = Md5Only \<longleftrightarrow>
     md5_matches a b \<and> \<not> (has_full_proof a \<and> has_full_proof b)"
  by (auto simp: compare_content_def has_full_proof_def md5_matches_def split: option.splits)

lemma compare_sym: "compare_content a b = compare_content b a"
  by (auto simp: compare_content_def split: option.splits)

lemma compare_Differs_iff:
  "compare_content a b = Differs \<longleftrightarrow> \<not> md5_matches a b \<or> full_match a b = Some False"
  by (auto simp: compare_content_def full_match_def md5_matches_def split: option.splits)

section \<open>The order of fingerprints (the derived \<open>Ord\<close>, used as a map key)\<close>

definition fp_key :: "fingerprint \<Rightarrow> u8 list \<times> (u32 \<times> u8 list) option" where
  "fp_key f = (fp_md5 f, map_option (\<lambda>d. (sd_crc32 d, sd_sha256 d)) (fp_strong f))"

lemma fp_key_inj: "fp_key a = fp_key b \<Longrightarrow> a = b"
proof -
  assume k: "fp_key a = fp_key b"
  have "inj (\<lambda>d. (sd_crc32 d, sd_sha256 d))"
    by (rule injI) (simp add: strong_digests.expand)
  then have "fp_strong a = fp_strong b"
    using k by (auto simp: fp_key_def dest: option.inj_map [THEN injD])
  with k show ?thesis by (simp add: fp_key_def fingerprint.expand)
qed

instantiation fingerprint :: linorder
begin

definition less_eq_fingerprint :: "fingerprint \<Rightarrow> fingerprint \<Rightarrow> bool" where
  "less_eq_fingerprint a b = (fp_key a \<le> fp_key b)"

definition less_fingerprint :: "fingerprint \<Rightarrow> fingerprint \<Rightarrow> bool" where
  "less_fingerprint a b = (fp_key a < fp_key b)"

instance
  by standard
    (auto simp: less_eq_fingerprint_def less_fingerprint_def dest: fp_key_inj order_antisym)

end

section \<open>Hexadecimal round trips\<close>

lemma byte_char_of [simp]: "n < 256 \<Longrightarrow> byte (char_of n) = n"
  by (simp add: byte_def)

lemma hex_value_digit: "d < 16 \<Longrightarrow> hex_value (hex_digit d) = Some (of_nat d)"
  by (auto simp: hex_value_def hex_digit_def Let_def)

lemma nibbles_or: "or (push_bit 4 (of_nat (unat b div 16))) (of_nat (unat b mod 16)) = (b :: u8)"
proof -
  let ?h = "push_bit 4 (of_nat (unat b div 16)) :: u8"
  let ?l = "of_nat (unat b mod 16) :: u8"
  have "take_bit 4 ?l = of_nat (take_bit 4 (unat b mod 16))"
    by (rule take_bit_of_nat)
  then have l: "?l = take_bit 4 ?l"
    by (simp add: take_bit_eq_mod)
  have "\<not> bit ?h n \<or> \<not> bit ?l n" for n
  proof (cases "n < 4")
    case True
    then show ?thesis by (simp add: bit_push_bit_iff)
  next
    case False
    then have "\<not> bit (take_bit 4 ?l) n"
      by (simp add: bit_take_bit_iff)
    with l show ?thesis by metis
  qed
  then have "or ?h ?l = ?h + ?l"
    by (simp add: disjunctive_add)
  also have "\<dots> = of_nat (unat b div 16 * 16 + unat b mod 16)"
    by (simp only: push_bit_eq_mult of_nat_add of_nat_mult of_nat_numeral) simp
  also have "\<dots> = b"
    by (simp only: div_mult_mod_eq of_nat_unat ucast_id)
  finally show ?thesis .
qed

lemma hex_byte_value_digits:
  "hex_byte_value (hex_digit (unat b div 16)) (hex_digit (unat b mod 16)) = Some (b :: u8)"
proof -
  have b: "unat b < 256"
    using unsigned_less [of b] by simp
  then show ?thesis
    using nibbles_or [of b] by (simp add: hex_byte_value_def hex_value_digit)
qed

lemma hex_encode_Nil [simp]: "hex_encode [] = []"
  by (simp add: hex_encode_def)

lemma hex_encode_Cons:
  "hex_encode (b # bs) = hex_digit (unat b div 16) # hex_digit (unat b mod 16) # hex_encode bs"
  by (simp only: hex_encode_def hex_byte_def list.map concat.simps append_Cons append_Nil)

lemma hex_bytes_encode [simp]: "hex_bytes (hex_encode bs) = Some bs"
proof (induction bs)
  case Nil
  then show ?case by simp
next
  case (Cons b bs)
  show ?case
    unfolding hex_encode_Cons hex_bytes.simps hex_byte_value_digits option.case Cons.IH
    by simp
qed

lemma length_hex_encode [simp]: "length (hex_encode bs) = 2 * length bs"
proof (induction bs)
  case Nil
  then show ?case by simp
next
  case (Cons b bs)
  then show ?case unfolding hex_encode_Cons by simp
qed

lemma hex_encode_inj: "hex_encode a = hex_encode b \<Longrightarrow> a = b"
  by (metis hex_bytes_encode option.inject)

lemma hex_bytes_length: "hex_bytes s = Some bs \<Longrightarrow> length s = 2 * length bs"
  by (induction s arbitrary: bs rule: hex_bytes.induct) (auto split: option.splits)

definition is_hex_char :: "char \<Rightarrow> bool" where
  "is_hex_char c = (48 \<le> byte c \<and> byte c \<le> 57 \<or> 97 \<le> byte c \<and> byte c \<le> 102)"

lemma hex_encode_chars: "list_all is_hex_char (hex_encode bs)"
proof (induction bs)
  case Nil
  then show ?case by simp
next
  case (Cons b bs)
  have "is_hex_char (hex_digit d)" if "d < 16" for d
    using that by (auto simp: is_hex_char_def hex_digit_def)
  moreover have "unat b < 256"
    using unsigned_less [of b] by simp
  ultimately have "is_hex_char (hex_digit (unat b div 16))" "is_hex_char (hex_digit (unat b mod 16))"
    by simp_all
  with Cons show ?case unfolding hex_encode_Cons by simp
qed

text \<open>Text of hexadecimal digits carries no white space, so trimming leaves it as it is.\<close>

lemma ws_ahead_none:
  assumes "list_all (\<lambda>w. w \<noteq> [] \<and> hd w \<noteq> hd s) wss" and "s \<noteq> []"
  shows "ws_ahead wss s = 0"
proof -
  have "find (\<lambda>w. prefix w s) wss = None"
    using assms by (auto simp: find_None_iff list_all_iff prefix_def)
  then show ?thesis by (simp add: ws_ahead_def)
qed

lemma drop_ws_none: "s = [] \<or> ws_ahead wss s = 0 \<Longrightarrow> drop_ws (length s) wss s = s"
  by (cases s) (auto simp: Let_def)

lemma hex_no_ws:
  "is_hex_char c \<Longrightarrow> list_all (\<lambda>w. w \<noteq> [] \<and> hd w \<noteq> c) whitespace"
  "is_hex_char c \<Longrightarrow> list_all (\<lambda>w. w \<noteq> [] \<and> hd w \<noteq> c) (map rev whitespace)"
  by (auto simp: whitespace_def is_hex_char_def)

lemma trim_hex: "list_all is_hex_char s \<Longrightarrow> trim s = s"
proof -
  assume h: "list_all is_hex_char s"
  have "trim_start s = s"
    unfolding trim_start_def using h hex_no_ws(1) [of "hd s"]
    by (intro drop_ws_none) (cases s; auto intro!: ws_ahead_none)
  moreover have "drop_ws (length s) (map rev whitespace) (rev s) = rev s"
    using h hex_no_ws(2) [of "hd (rev s)"] drop_ws_none [of "rev s" "map rev whitespace"]
      ws_ahead_none [of "rev s" "map rev whitespace"]
    by (cases "rev s") (auto simp: list_all_iff dest: arg_cong [of _ _ set])
  ultimately show ?thesis by (simp add: trim_def trim_end_def)
qed

lemma parse_hex_InrD: "parse_hex v = Inr f \<Longrightarrow> fp_wf f \<and> \<not> has_full_proof f"
  by (auto simp: parse_hex_def Let_def fp_wf_def from_bytes_def has_full_proof_def
      split: if_splits option.splits dest: hex_bytes_length)

lemma parse_display: "fp_wf f \<Longrightarrow> parse_hex (fp_display f) = Inr (from_bytes (fp_md5 f))"
  by (simp add: parse_hex_def fp_display_def trim_hex hex_encode_chars fp_wf_def)

section \<open>Streaming\<close>

text \<open>
  What the code relies on of the hash crates: feeding two pieces is feeding their concatenation.
\<close>

definition hash_laws :: "('m, 'c, 's) hash_suite \<Rightarrow> bool" where
  "hash_laws H =
     ((\<forall>h a b. md5_update H (md5_update H h a) b = md5_update H h (a @ b)) \<and>
      (\<forall>h a b. crc_update H (crc_update H h a) b = crc_update H h (a @ b)) \<and>
      (\<forall>h a b. sha_update H (sha_update H h a) b = sha_update H h (a @ b)))"

lemma hasher_update_append:
  "hash_laws H \<Longrightarrow> hasher_update H (hasher_update H h a) b = hasher_update H h (a @ b)"
  by (simp add: hasher_update_def hash_laws_def)

lemma fold_update:
  "hash_laws H \<Longrightarrow>
   fold (\<lambda>c h. hasher_update H h c) cs (hasher_update H h a) = hasher_update H h (a @ concat cs)"
  by (induction cs arbitrary: a) (simp_all add: hasher_update_append)

lemma fold_md5_update:
  "hash_laws H \<Longrightarrow>
   fold (\<lambda>c h. md5_update H h c) cs (md5_update H h a) = md5_update H h (a @ concat cs)"
  by (induction cs arbitrary: a) (simp_all add: hash_laws_def)

lemma hash_chunks_whole:
  "hash_laws H \<Longrightarrow> hash_chunks H (c # cs) = from_content H (c @ concat cs)"
  by (simp add: hash_chunks_def from_content_def fold_update)

lemma from_content_full: "has_full_proof (from_content H c)"
  by (simp add: from_content_def hasher_finalize_def from_digests_def has_full_proof_def)

lemma hash_chunks_md5_whole:
  "hash_laws H \<Longrightarrow>
   hash_chunks_md5 H (c # cs) = from_bytes (fp_md5 (from_content H (c @ concat cs)))"
  by (simp add: hash_chunks_md5_def fold_md5_update md5_hasher_finalize_def from_content_def
      hasher_finalize_def hasher_update_def hasher_new_def from_digests_def)

lemma compare_with_own_md5: "compare_content (from_bytes (fp_md5 f)) f = Md5Only"
  by (simp add: compare_content_def from_bytes_def)

end
