(* ===== verification/Paths.thy ===== *)
theory Paths
  imports Errors
begin

text \<open>
  \<open>src/path.rs\<close>: destination roots and the relative paths mapped beneath them, the names the
  destination refuses, and the two keys under which spellings are compared. The Unicode tables
  (NFC of the \<open>icu_normalizer\<close> crate, full lower-casing and the escapes of \<open>{:?}\<close> and
  \<open>escape_debug\<close> of the standard library) are the fields of \<open>text_env\<close>; the code consults them only for text that is
  not ASCII, and that case distinction is modelled.
\<close>

record text_env =
  nfc_table :: "string \<Rightarrow> string"
  lower_table :: "string \<Rightarrow> string"
  debug_str :: "string \<Rightarrow> string"
  escape_str :: "string \<Rightarrow> string"

section \<open>Names\<close>

definition dsm_managed_names :: "string list" where
  "dsm_managed_names =
     [''#recycle'', ''#snapshot'', ''@eaDir'', ''@tmp'', ''@sharebin'', ''@apphome'', ''@appdata'',
      ''@appstore'', ''@apptemp'', ''@appconf'', ''.SynologyWorkingDirectory'']"

definition is_dsm_managed_name :: "string \<Rightarrow> bool" where
  "is_dsm_managed_name name = (name \<in> set dsm_managed_names)"

definition is_dsm_managed :: "string \<Rightarrow> bool" where
  "is_dsm_managed relative = list_ex is_dsm_managed_name (split_on slash relative)"

definition windows_reserved :: "string list" where
  "windows_reserved =
     [''CON'', ''PRN'', ''AUX'', ''NUL'', ''COM1'', ''COM2'', ''COM3'', ''COM4'', ''COM5'',
      ''COM6'', ''COM7'', ''COM8'', ''COM9'', ''LPT1'', ''LPT2'', ''LPT3'', ''LPT4'', ''LPT5'',
      ''LPT6'', ''LPT7'', ''LPT8'', ''LPT9'']"

definition windows_unsupported :: "char list" where
  "windows_unsupported = [CHR ''*'', CHR '':'', CHR ''?'', CHR 0x22, CHR ''<'', CHR ''>'', CHR ''|'']"

text \<open>One pass of the component loop of \<open>drive_path_issue\<close>.\<close>

definition component_issue :: "string \<Rightarrow> string option" where
  "component_issue c =
     (if 255 < chars_count c then
        Some ''a path component exceeds Synology Drive's 255-character limit''
      else if 255 < length c then
        Some (''a path component is '' @ show_nat (length c)
              @ '' bytes in UTF-8, over the NAS filesystem's 255-byte name limit'')
      else if prefix ''~'' c then
        Some ''names beginning with ~ are not synchronized by Synology Drive''
      else if has_control c then
        Some ''name contains a terminal-unsafe control character''
      else if list_ex (\<lambda>x. x \<in> set windows_unsupported) c then
        Some ''name contains characters unsupported by Windows Synology Drive clients''
      else if c \<noteq> [] \<and> (last c = CHR ''.'' \<or> last c = CHR '' '') then
        Some ''name ends with a dot or space and is not Windows-compatible''
      else if ascii_upper (hd (split_on (CHR ''.'') c)) \<in> set windows_reserved then
        Some ''name is reserved by Windows and cannot sync portably''
      else None)"

fun first_issue :: "string list \<Rightarrow> string option" where
  "first_issue [] = None"
| "first_issue (c # cs) = (case component_issue c of Some r \<Rightarrow> Some r | None \<Rightarrow> first_issue cs)"

definition drive_path_issue :: "string \<Rightarrow> string option" where
  "drive_path_issue path =
     (if 247 < chars_count path then
        Some ''path exceeds Synology Drive's 247-character Windows compatibility limit''
      else first_issue (split_on slash path))"

section \<open>Relative paths\<close>

definition dot_name :: "string \<Rightarrow> bool" where
  "dot_name part = (part = ''.'' \<or> part = ''..'')"

definition validate_relative :: "string \<Rightarrow> unit res" where
  "validate_relative value =
     (if value = [] then Inr ()
      else if hd value = slash \<or> last value = slash \<or> backslash \<in> set value then
        Inl (UnsafeRemotePath value ''relative path is not normalized'')
      else if has_control value then
        Inl (UnsafeRemotePath value ''control characters are not allowed'')
      else if list_ex (\<lambda>part. part = [] \<or> dot_name part \<or> slash \<in> set part) (split_on slash value) then
        Inl (UnsafeRemotePath value ''relative path contains an unsafe component'')
      else Inr ())"

definition parent_and_name :: "string \<Rightarrow> (string \<times> string) res" where
  "parent_and_name remote =
     (case rsplit_once slash remote of
        None \<Rightarrow> Inl (UnsafeRemotePath remote ''remote path has no parent'')
      | Some (parent, name) \<Rightarrow>
          if parent = [] \<or> name = [] \<or> dot_name name then
            Inl (UnsafeRemotePath remote ''remote path has an invalid final component'')
          else Inr (parent, name))"

definition depth :: "string \<Rightarrow> nat" where
  "depth relative =
     (if relative = [] then 0 else length (filter (\<lambda>c. c = slash) relative) + 1)"

section \<open>Destination roots\<close>

datatype remote_root = RemoteRoot (root_str: string)

definition root_parse :: "string \<Rightarrow> remote_root res" where
  "root_parse value =
     (if \<not> prefix [slash] value then
        Inl (UnsafeRemotePath value ''it must begin with a shared-folder slash'')
      else if value = [slash] then
        Inl (UnsafeRemotePath value ''DSM root is never a valid sync destination'')
      else if last value = slash then
        Inl (UnsafeRemotePath value ''trailing slashes are not allowed'')
      else if backslash \<in> set value then
        Inl (UnsafeRemotePath value ''use forward slashes, not backslashes'')
      else if has_control value then
        Inl (UnsafeRemotePath value ''control characters are not allowed'')
      else
        let components = split_on slash (tl value) in
        if list_ex (\<lambda>part. part = []) components then
          Inl (UnsafeRemotePath value ''empty path components are not allowed'')
        else if list_ex dot_name components then
          Inl (UnsafeRemotePath value ''. and .. components are not allowed'')
        else if list_ex is_dsm_managed_name components then
          Inl (UnsafeRemotePath value ''DSM-managed directories cannot be sync roots'')
        else
          (case drive_path_issue (tl value) of
             Some reason \<Rightarrow> Inl (UnsafeRemotePath value reason)
           | None \<Rightarrow> Inr (RemoteRoot value)))"

definition share_name :: "remote_root \<Rightarrow> string" where
  "share_name r = hd (split_on slash (tl (root_str r)))"

definition share_path :: "remote_root \<Rightarrow> string" where
  "share_path r = slash # share_name r"

definition root_join :: "remote_root \<Rightarrow> string \<Rightarrow> string res" where
  "root_join r relative =
     bind_r (validate_relative relative) (\<lambda>_.
       let joined = (if relative = [] then root_str r else root_str r @ slash # relative) in
       case drive_path_issue (tl joined) of
         Some reason \<Rightarrow> Inl (UnsafeRemotePath joined reason)
       | None \<Rightarrow> Inr joined)"

definition root_relative :: "remote_root \<Rightarrow> string \<Rightarrow> string res" where
  "root_relative r remote =
     (if remote = root_str r then Inr []
      else (case strip_prefix (root_str r @ [slash]) remote of
              None \<Rightarrow> Inl (RemoteEscape remote)
            | Some relative \<Rightarrow> map_r (\<lambda>_. relative) (validate_relative relative)))"

definition contains_child :: "remote_root \<Rightarrow> string \<Rightarrow> bool" where
  "contains_child r remote = prefix (root_str r @ [slash]) remote"

section \<open>Spelling keys\<close>

definition nfc :: "text_env \<Rightarrow> string \<Rightarrow> string" where
  "nfc E text = (if is_ascii text then text else nfc_table E text)"

text \<open>
  \<open>nfc\<close> borrows its argument when that is already composed; \<open>if let Cow::Owned\<close> asks for the
  other case. The normaliser of the crate borrows exactly when it changes nothing.
\<close>

definition nfc_owned :: "text_env \<Rightarrow> string \<Rightarrow> string option" where
  "nfc_owned E text = (if nfc E text = text then None else Some (nfc E text))"

definition portable_fold :: "text_env \<Rightarrow> string \<Rightarrow> string" where
  "portable_fold E text =
     (if is_ascii text then ascii_lower text else lower_table E (nfc E text))"

text \<open>
  What the code relies on of the tables: composing twice is composing once, and the fold of a
  path is the path of the folds of its components (no table moves text across a slash, none
  makes or removes one).
\<close>

definition text_laws :: "text_env \<Rightarrow> bool" where
  "text_laws E =
     ((\<forall>s. nfc E (nfc E s) = nfc E s) \<and>
      (\<forall>s. split_on slash (portable_fold E s) = map (portable_fold E) (split_on slash s)))"

text \<open>The environment whose tables leave text as it is.\<close>

definition plain_env :: text_env where
  "plain_env = \<lparr>nfc_table = (\<lambda>s. s), lower_table = ascii_lower, debug_str = (\<lambda>s. [CHR 0x22] @ s @ [CHR 0x22]),
     escape_str = (\<lambda>s. s)\<rparr>"

section \<open>Relative paths: facts\<close>

definition safe_component :: "string \<Rightarrow> bool" where
  "safe_component part = (part \<noteq> [] \<and> \<not> dot_name part)"

lemma validate_relative_Inr_iff [path_simps]:
  "validate_relative v = Inr u \<longleftrightarrow>
     v = [] \<or> (hd v \<noteq> slash \<and> last v \<noteq> slash \<and> backslash \<notin> set v \<and> \<not> has_control v \<and>
       list_all safe_component (split_on slash v))"
proof -
  have "list_ex (\<lambda>part. part = [] \<or> dot_name part \<or> slash \<in> set part) (split_on slash v) \<longleftrightarrow>
    \<not> list_all safe_component (split_on slash v)"
    by (auto simp: list_ex_iff list_all_iff safe_component_def dest: split_on_no_sep)
  then show ?thesis by (auto simp: validate_relative_def)
qed

lemma validate_relative_unit: "validate_relative v = Inr () \<or> (\<exists>e. validate_relative v = Inl e)"
  by (cases "validate_relative v") auto

lemma parent_and_name_Inr_iff [path_simps]:
  "parent_and_name p = Inr (a, b) \<longleftrightarrow>
     p = a @ slash # b \<and> slash \<notin> set b \<and> a \<noteq> [] \<and> safe_component b"
proof -
  have "parent_and_name p = Inr (a, b) \<longleftrightarrow>
      rsplit_once slash p = Some (a, b) \<and> a \<noteq> [] \<and> safe_component b"
    by (auto simp: parent_and_name_def safe_component_def split: option.splits)
  then show ?thesis by (auto simp: rsplit_once_Some_iff)
qed

lemma depth_beneath: "beneath p s \<Longrightarrow> depth p < depth s"
  by (auto simp: beneath_iff depth_def)

lemma depth_ancestors: "s \<noteq> [] \<Longrightarrow> depth s = Suc (length (ancestors s))"
proof (induction s rule: ancestors.induct)
  case (1 s)
  show ?case
  proof (cases "rsplit_once slash s")
    case None
    then have "slash \<notin> set s"
      by (simp add: rsplit_once_None_iff)
    moreover from this have "filter (\<lambda>c. c = slash) s = []"
      by (auto simp: filter_empty_conv)
    ultimately show ?thesis
      using "1.prems" by (simp add: ancestors_no_slash depth_def)
  next
    case (Some ab)
    then obtain a b where ab: "rsplit_once slash s = Some (a, b)"
      by (cases ab) auto
    then have s: "s = a @ slash # b" and b: "slash \<notin> set b"
      by (auto simp: rsplit_once_Some_iff)
    have nb: "filter (\<lambda>c. c = slash) b = []"
      using b by (auto simp: filter_empty_conv)
    show ?thesis
    proof (cases "a = []")
      case True
      with s b nb show ?thesis
        using ancestors_append [of b "[]"] by (simp add: depth_def ancestors_no_slash)
    next
      case False
      then have "depth a = Suc (length (ancestors a))"
        using "1.IH" ab by blast
      with False s b nb show ?thesis
        by (simp add: depth_def ancestors_append)
    qed
  qed
qed

interpretation managed: subtree_closed is_dsm_managed
  by unfold_locales (simp add: is_dsm_managed_def split_on_append)

section \<open>Destination roots: facts\<close>

definition wf_root :: "remote_root \<Rightarrow> bool" where
  "wf_root r =
     (\<exists>rest. root_str r = slash # rest \<and> rest \<noteq> [] \<and> last rest \<noteq> slash \<and> backslash \<notin> set rest \<and>
       \<not> has_control (slash # rest) \<and> list_all safe_component (split_on slash rest) \<and>
       \<not> is_dsm_managed rest \<and> drive_path_issue rest = None)"

lemma root_parse_Inr_iff: "root_parse v = Inr r \<longleftrightarrow> r = RemoteRoot v \<and> wf_root r"
proof (cases v)
  case Nil
  then show ?thesis by (auto simp: root_parse_def wf_root_def)
next
  case (Cons c rest)
  have [simp]: "slash \<noteq> backslash" "backslash \<noteq> slash"
    by (simp_all add: slash_def backslash_def)
  have "list_all safe_component (split_on slash rest) \<longleftrightarrow>
    \<not> list_ex (\<lambda>part. part = []) (split_on slash rest) \<and> \<not> list_ex dot_name (split_on slash rest)"
    by (auto simp: safe_component_def list_all_iff list_ex_iff)
  with Cons show ?thesis
    by (auto simp: root_parse_def wf_root_def is_dsm_managed_def Let_def split: option.splits)
qed

lemma wf_root_nonempty: "wf_root r \<Longrightarrow> root_str r \<noteq> []"
  by (auto simp: wf_root_def)

lemma root_join_Inr_iff:
  "root_join r rel = Inr p \<longleftrightarrow>
     validate_relative rel = Inr () \<and> drive_path_issue (tl p) = None \<and>
     p = (if rel = [] then root_str r else root_str r @ slash # rel)"
  by (auto simp: root_join_def Let_def split: option.splits)

text \<open>Nothing the code maps leaves the destination, and no component of it can climb.\<close>

lemma root_join_contained:
  "root_join r rel = Inr p \<Longrightarrow> at_or_beneath (root_str r) p"
  by (auto simp: root_join_Inr_iff at_or_beneath_def beneath_iff)

lemma root_join_safe:
  assumes "wf_root r" and "root_join r rel = Inr p"
  shows "list_all safe_component (split_on slash (tl p))"
proof -
  obtain rest where r: "root_str r = slash # rest" "list_all safe_component (split_on slash rest)"
    using assms(1) by (auto simp: wf_root_def)
  show ?thesis
  proof (cases "rel = []")
    case True
    with assms(2) r show ?thesis by (simp add: root_join_Inr_iff)
  next
    case False
    then have "list_all safe_component (split_on slash rel)"
      using assms(2) by (auto simp: root_join_Inr_iff validate_relative_Inr_iff)
    with False assms(2) r show ?thesis
      by (simp add: root_join_Inr_iff split_on_append)
  qed
qed

lemma root_join_inj:
  "root_join r a = Inr p \<Longrightarrow> root_join r b = Inr p \<Longrightarrow> a = b"
  by (auto simp: root_join_Inr_iff split: if_splits)

lemma root_relative_join: "root_join r rel = Inr p \<Longrightarrow> root_relative r p = Inr rel"
  by (auto simp: root_join_Inr_iff root_relative_def strip_prefix_Some_iff split: option.splits)
    (auto simp: strip_prefix_None_iff)

lemma root_relative_Inr_iff:
  "root_relative r p = Inr rel \<longleftrightarrow>
     validate_relative rel = Inr () \<and> (rel = [] \<and> p = root_str r \<or>
       p = root_str r @ slash # rel)"
  by (auto simp: root_relative_def strip_prefix_Some_iff strip_prefix_None_iff validate_relative_def
      split: option.splits if_splits)

lemma root_relative_rejects_siblings:
  "root_relative r p = Inr rel \<Longrightarrow> p = root_str r \<or> contains_child r p"
  by (auto simp: root_relative_Inr_iff contains_child_def)

lemma contains_child_beneath: "contains_child r p \<longleftrightarrow> beneath (root_str r) p"
  by (simp add: contains_child_def beneath_prefix)

lemma share_path_above: "wf_root r \<Longrightarrow> at_or_beneath (share_path r) (root_str r)"
proof -
  assume "wf_root r"
  then obtain rest where r: "root_str r = slash # rest" "rest \<noteq> []"
    by (auto simp: wf_root_def)
  obtain w ws where "split_on slash rest = w # ws"
    by (cases "split_on slash rest") auto
  moreover have "join_with slash (w # ws) = rest"
    using calculation by (metis join_with_split_on)
  ultimately show ?thesis
    using r by (cases ws) (auto simp: share_path_def share_name_def at_or_beneath_def beneath_iff)
qed

section \<open>Spelling keys: facts\<close>

lemma nfc_owned_None_iff: "nfc_owned E s = None \<longleftrightarrow> nfc E s = s"
  by (simp add: nfc_owned_def)

lemma is_ascii_append: "is_ascii (a @ b) \<longleftrightarrow> is_ascii a \<and> is_ascii b"
  by (simp add: is_ascii_def)

lemma nfc_ascii [simp]: "is_ascii s \<Longrightarrow> nfc E s = s"
  by (simp add: nfc_def)

text \<open>
  The fold of a prefix of a path, cut at a slash, is the prefix of the fold, cut at the same slash.
\<close>

lemma portable_fold_join:
  assumes "text_laws E"
  shows "portable_fold E (a @ slash # b) = portable_fold E a @ slash # portable_fold E b"
proof -
  let ?f = "portable_fold E"
  have laws: "split_on slash (?f s) = map ?f (split_on slash s)" for s
    using assms by (simp add: text_laws_def)
  have "split_on slash (?f (a @ slash # b)) = split_on slash (?f a) @ split_on slash (?f b)"
    by (simp add: laws split_on_append)
  also have "\<dots> = split_on slash (?f a @ slash # ?f b)"
    by (simp add: split_on_append)
  finally show ?thesis
    by (metis join_with_split_on)
qed

lemma portable_fold_beneath:
  "text_laws E \<Longrightarrow> beneath p s \<Longrightarrow> beneath (portable_fold E p) (portable_fold E s)"
  by (auto simp: beneath_iff portable_fold_join)

lemma ascii_lower_slash: "ascii_lower_char c = slash \<longleftrightarrow> c = slash"
proof (cases "65 \<le> byte c \<and> byte c \<le> 90")
  case True
  then have "byte (ascii_lower_char c) = byte c + 32"
    by (simp add: ascii_lower_char_def byte_def)
  moreover have "byte slash = 47"
    by (simp add: byte_def slash_def)
  ultimately show ?thesis
    using True by auto
next
  case False
  then show ?thesis by (auto simp: ascii_lower_char_def Let_def)
qed

lemma split_on_ascii_lower: "split_on slash (ascii_lower s) = map ascii_lower (split_on slash s)"
  by (induction s) (auto simp: ascii_lower_def ascii_lower_slash split: list.splits)

lemma plain_env_laws: "text_laws plain_env"
proof -
  have "portable_fold plain_env s = ascii_lower s" for s
    by (simp add: portable_fold_def plain_env_def nfc_def)
  then show ?thesis
    by (simp add: text_laws_def split_on_ascii_lower nfc_def plain_env_def)
qed

end
