(* ===== verification/ErrorText.thy ===== *)
theory ErrorText
  imports Paths
begin

text \<open>
  The text of an error, as the \<open>#[error(...)]\<close> attributes of \<open>src/error.rs\<close> give it. A value
  rendered with \<open>{:?}\<close> goes through the environment's \<open>debug_str\<close>.
\<close>

fun join_text :: "string \<Rightarrow> string list \<Rightarrow> string" where
  "join_text sep [] = []"
| "join_text sep [x] = x"
| "join_text sep (x # y # xs) = x @ sep @ join_text sep (y # xs)"

definition join_refusal_codes :: "(string \<times> nat) list \<Rightarrow> string" where
  "join_refusal_codes codes =
     join_text '', '' (map (\<lambda>(code, count). code @ '' x'' @ show_nat count) codes)"

definition and_more :: "nat \<Rightarrow> string" where
  "and_more extra = (if 0 < extra then '', and '' @ show_nat extra @ '' more'' else [])"

primrec error_display :: "text_env \<Rightarrow> error \<Rightarrow> string" where
  "error_display E (InvalidUrl u) = ''invalid reverse-proxy URL: '' @ u"
| "error_display E HttpsRequired =
     ''reverse-proxy URL must use HTTPS (pass --allow-http only for a trusted test/LAN endpoint)''"
| "error_display E (UnsafeRemotePath path reason) =
     ''unsafe remote path '' @ debug_str E path @ '': '' @ reason"
| "error_display E (InvalidSource path) =
     ''local source is not a readable directory: '' @ debug_str E path"
| "error_display E (UnsupportedLocalEntryError path reason) =
     ''unsupported local entry '' @ debug_str E path @ '': '' @ reason"
| "error_display E (FileIo path source) =
     ''failed to read '' @ debug_str E path @ '': '' @ io_text source"
| "error_display E (Http operation source) =
     ''HTTP request failed during '' @ operation @ '': '' @ source"
| "error_display E (HttpBody operation source) =
     ''HTTP transfer failed during '' @ operation @ '': '' @ io_text source"
| "error_display E (HttpStatus operation status message) =
     ''reverse proxy returned HTTP '' @ status @ '' during '' @ operation @ '': '' @ message"
| "error_display E (InvalidResponse operation message) =
     ''unexpected response during '' @ operation @ '': '' @ message"
| "error_display E (Api api operation code description) =
     ''Synology API '' @ api @ ''.'' @ operation @ '' failed with code '' @ show_int code @ description"
| "error_display E (UnsupportedApiVersion api version lo hi) =
     ''required Synology API '' @ api @ '' version '' @ show_nat version
     @ '' is not available (server offers '' @ show_nat lo @ ''..='' @ show_nat hi @ '')''"
| "error_display E (RemoteRefusedError operation path code description) =
     ''NAS refused '' @ operation @ '' of '' @ debug_str E path @ '' with code '' @ show_int code
     @ description"
| "error_display E (RemoteLinkInScope path cause) =
     ''remote path '' @ debug_str E path @ '' on the requested scope is a NAS link ('' @ cause
     @ ''); a scoped run never writes or deletes through a link: run without --scope, or replace the link with a folder''"
| "error_display E (RemoteRefusalsShareWide class refused considered in_sync not_attempted codes sample extra) =
     ''remote-refused-share-wide: '' @ refusal_class_str class @ '': '' @ show_nat refused
     @ '' of the '' @ show_nat considered
     @ '' folders and files this run wrote or found in sync (including '' @ show_nat in_sync
     @ '' already in sync) were refused for one cause ('' @ join_refusal_codes codes @ ''); ''
     @ show_nat not_attempted
     @ '' planned writes were not attempted; the share or this account's rights on it are the likely problem; paths: ''
     @ join_text '', '' sample @ and_more extra"
| "error_display E (RemoteRealPathUnusable kind linked checked sample extra) =
     ''remote-real-path-unusable: '' @ show_nat linked @ '' of the '' @ show_nat checked @ '' NAS ''
     @ kind
     @ '' checked look like links to somewhere else, which points to DSM reporting real paths in a shape this tool does not expect rather than to real links; nothing was synced. Exclude the links by name if they are real; ''
     @ kind @ '': '' @ join_text '', '' sample @ and_more extra"
| "error_display E (MissingApi api) =
     ''required Synology API '' @ api @ '' was not reported by API discovery''"
| "error_display E (ShareNotWritable share) =
     ''DSM shared folder /'' @ share @ '' is unavailable or not writable by this account''"
| "error_display E (RemoteEscape path) =
     ''remote path returned by File Station escaped the configured destination: '' @ debug_str E path"
| "error_display E (RemoteMountRoot path mount_type) =
     ''remote destination '' @ debug_str E path @ '' is a File Station mount point (''
     @ debug_str E mount_type @ ''); mounted filesystems are never synchronized''"
| "error_display E (TypeConflictError path local_kind remote_kind) =
     ''local/remote type conflict at '' @ path @ ''; rerun with --delete to replace the remote ''
     @ remote_kind @ '' with a local '' @ local_kind"
| "error_display E (ProtectedConflict path) =
     ''cannot modify remote directory '' @ path
     @ '' because it contains an excluded, DSM-managed, or mounted path''"
| "error_display E EmptySourceDeletion =
     ''refusing mirror deletion from a local source with no payload files; pass --allow-empty-source if intentional''"
| "error_display E (DeleteLimit planned maximum) =
     ''plan would delete '' @ show_nat planned @ '' remote entries, exceeding --max-delete ''
     @ show_nat maximum @ ''; inspect --dry-run and raise the limit explicitly''"
| "error_display E (SourceChangedError path) =
     ''source file changed while it was being synchronized: '' @ debug_str E path"
| "error_display E (ResyncTicketStale presented current) =
     ''resync ticket '' @ presented @ '' no longer describes what would be overwritten (now ''
     @ current @ ''); review the refreshed plan below and confirm it instead''"
| "error_display E (ScopeNotFound s) =
     ''scope '' @ debug_str E s
     @ '' does not exist in the local source or under the remote destination''"
| "error_display E InvalidContentHash = ''DSM returned an invalid MD5 content digest''"
| "error_display E (ContentVerificationFailed path) =
     ''remote content verification failed for '' @ debug_str E path"
| "error_display E (RemoteSnapshotChanged path) =
     ''remote path '' @ debug_str E path @ '' changed since planning; it was preserved''"
| "error_display E ServerCopyNotStarted =
     ''server-side copy was rejected before a task was created; verified upload fallback is safe''"
| "error_display E (RemoteDigestsFailing cause paths) =
     show_nat (length paths)
     @ '' remote checksums failed with the same cause, so the NAS rather than these files is the likely problem: ''
     @ error_display E cause @ ''; files: '' @ join_text '', '' paths"
| "error_display E (ServerCopyFailedError destination detail) =
     ''server-side copy to '' @ debug_str E destination @ '' finished with an error: '' @ detail"
| "error_display E (OperationTimedOut operation) =
     operation @ '' did not finish within the configured request timeout''"
| "error_display E (ReconciliationPending operations) =
     ''final reconciliation found '' @ show_nat operations
     @ '' pending in-scope operations; inspect a fresh plan before rerunning''"
| "error_display E Cancelled = ''operation cancelled''"
| "error_display E (Vault operation reason) =
     ''OS credential vault '' @ operation @ '' failed: '' @ reason"
| "error_display E (Configuration text) = text"
| "error_display E (Message text) = text"

end
