(* ===== verification/Local.thy ===== *)
theory Local
  imports OrdMap Deferral Fingerprint ErrorText
begin

text \<open>
  \<open>src/local.rs\<close>: the inventory of the source, the paths it declines to carry, the exclusion
  rules, and the operations that take a path out of a run without letting it read as absent. The
  walk of the file system itself is not here: its result, an inventory, is. The matchers of the
  \<open>ignore\<close> crate are fields of \<open>ignore_rules\<close>.
\<close>

section \<open>Entries and inventories\<close>

datatype entry_kind = File | Directory

fun kind_str :: "entry_kind \<Rightarrow> string" where
  "kind_str File = ''file''"
| "kind_str Directory = ''directory''"

record file_identity =
  fi_device :: u64
  fi_inode :: u64

definition default_identity :: file_identity where
  "default_identity = \<lparr>fi_device = 0, fi_inode = 0\<rparr>"

definition identity_is_known :: "file_identity \<Rightarrow> bool" where
  "identity_is_known i = (i \<noteq> default_identity)"

record local_entry =
  l_relative :: string
  l_full_path :: string
  l_kind :: entry_kind
  l_size :: u64
  l_mtime_ms :: int
  l_identity :: file_identity
  l_md5 :: "fingerprint option"

datatype skip_reason =
    WindowsAttributes
  | LinkOrReparsePoint
  | DehydratedPlaceholder
  | LocalCaseCollision (lc_other: string)
  | RemoteCaseCollision (rc_other: string)
  | CaseRenameNeedsDelete (cr_remote: string)
  | Deferred (df_detail: string)
  | TypeConflict (tc_detail: string)
  | RemoteLink (rl_path: string)
  | ProtectedDescendant (pd_entry: string)

record skipped_entry =
  sk_relative :: string
  sk_reason :: skip_reason

record local_inventory =
  li_root :: string
  li_entries :: "local_entry omap"
  li_skipped :: "skipped_entry list"

fun skip_str :: "skip_reason \<Rightarrow> string" where
  "skip_str WindowsAttributes = ''windows-attributes''"
| "skip_str LinkOrReparsePoint = ''link-or-reparse-point''"
| "skip_str DehydratedPlaceholder = ''dehydrated-placeholder''"
| "skip_str (LocalCaseCollision _) = ''local-case-collision''"
| "skip_str (RemoteCaseCollision _) = ''remote-case-collision''"
| "skip_str (CaseRenameNeedsDelete _) = ''case-rename-needs-delete''"
| "skip_str (Deferred _) = ''deferred''"
| "skip_str (TypeConflict _) = ''type-conflict''"
| "skip_str (RemoteLink _) = ''remote-link''"
| "skip_str (ProtectedDescendant _) = ''protected-descendant''"

definition default_ignore_file :: string where
  "default_ignore_file = ''.sdsyncignore''"

definition skipped :: "string \<Rightarrow> skip_reason \<Rightarrow> skipped_entry" where
  "skipped relative reason = \<lparr>sk_relative = relative, sk_reason = reason\<rparr>"

definition unsupported_entry :: "string \<Rightarrow> skip_reason" where
  "unsupported_entry reason = Deferred (defer_str UnsupportedEntry @ '': '' @ reason)"

definition read_failure_detail :: "text_env \<Rightarrow> string \<Rightarrow> io_error \<Rightarrow> string" where
  "read_failure_detail E path e =
     (let reason = (if io_kind_of e = PermissionDenied then LocalPermissionDenied
                    else SourceUnreadable) in
      defer_str reason @ '': failed to read '' @ debug_str E path @ '': '' @ io_text e)"

section \<open>Operations on an inventory\<close>

text \<open>
  The entries beneath a path by a range query, then the path itself, removed: shared by
  \<open>withhold\<close>, \<open>withhold_unreadable\<close> and the collision pass.
\<close>

definition remove_subtree :: "string \<Rightarrow> 'v omap \<Rightarrow> 'v omap" where
  "remove_subtree relative m =
     om_remove relative (fold om_remove (om_keys (om_prefixed (relative @ [slash]) m)) m)"

definition insert_sorted_skip :: "skipped_entry \<Rightarrow> skipped_entry list \<Rightarrow> skipped_entry list" where
  "insert_sorted_skip s ss =
     takeWhile (\<lambda>e. sk_relative e \<le> sk_relative s) ss @
     s # dropWhile (\<lambda>e. sk_relative e \<le> sk_relative s) ss"

definition withhold :: "string \<Rightarrow> skip_reason \<Rightarrow> local_inventory \<Rightarrow> local_inventory" where
  "withhold relative reason inventory =
     inventory\<lparr>li_entries := remove_subtree relative (li_entries inventory),
         li_skipped := insert_sorted_skip (skipped relative reason) (li_skipped inventory)\<rparr>"

definition li_files :: "local_inventory \<Rightarrow> nat" where
  "li_files inventory =
     length (filter (\<lambda>e. l_kind e = File) (om_values (li_entries inventory)))"

section \<open>Exclusion rules\<close>

record ignore_rules =
  ir_composed :: "string \<Rightarrow> bool \<Rightarrow> bool"
  ir_exact :: "string \<Rightarrow> bool \<Rightarrow> bool"
  ir_fold :: bool

definition rules_none :: ignore_rules where
  "rules_none = \<lparr>ir_composed = (\<lambda>_ _. False), ir_exact = (\<lambda>_ _. False), ir_fold = False\<rparr>"

definition is_ignored :: "text_env \<Rightarrow> ignore_rules \<Rightarrow> string \<Rightarrow> bool \<Rightarrow> bool" where
  "is_ignored E rules relative is_dir =
     (if relative = [] then False
      else if relative = default_ignore_file then True
      else ir_composed rules (nfc E relative) is_dir)"

definition excludes_for_deletion :: "text_env \<Rightarrow> ignore_rules \<Rightarrow> string \<Rightarrow> bool \<Rightarrow> bool" where
  "excludes_for_deletion E rules relative is_dir =
     (if is_ignored E rules relative is_dir then True
      else relative \<noteq> [] \<and> ir_exact rules relative is_dir)"

definition folds_names :: "ignore_rules \<Rightarrow> bool" where
  "folds_names rules = ir_fold rules"

text \<open>The first probe that answers decides whether the source folds names.\<close>

definition case_folding_verdict :: "bool option \<Rightarrow> bool option \<Rightarrow> bool \<Rightarrow> bool" where
  "case_folding_verdict inside beside platform_default =
     (case inside of
        Some b \<Rightarrow> b
      | None \<Rightarrow> (case beside of Some b \<Rightarrow> b | None \<Rightarrow> platform_default))"

definition swap_char_case :: "char \<Rightarrow> char" where
  "swap_char_case c =
     (if 97 \<le> byte c \<and> byte c \<le> 122 then ascii_upper_char c else ascii_lower_char c)"

definition swap_ascii_case :: "string \<Rightarrow> string option" where
  "swap_ascii_case name =
     (let swapped = map swap_char_case name in if swapped = name then None else Some swapped)"

definition is_administrative_share :: "string \<Rightarrow> bool" where
  "is_administrative_share share =
     (if share = [] \<or> last share \<noteq> CHR ''$'' then False
      else
        let name = butlast share in
        (length name = 1 \<and> (let n = byte (hd name) in 65 \<le> n \<and> n \<le> 90 \<or> 97 \<le> n \<and> n \<le> 122))
        \<or> ascii_lower name = ''admin'' \<or> ascii_lower name = ''ipc'')"

section \<open>What an entry of the source is\<close>

datatype link_class = Ordinary | Link | Dehydrated

text \<open>\<open>OFFLINE\<close>, \<open>RECALL_ON_OPEN\<close> and \<open>RECALL_ON_DATA_ACCESS\<close>.\<close>

definition recall_attributes :: u32 where
  "recall_attributes = 0x00441000"

definition classify_link :: "bool \<Rightarrow> u32 \<Rightarrow> link_class" where
  "classify_link name_surrogate attributes =
     (if name_surrogate then Link
      else if and attributes recall_attributes \<noteq> 0 then Dehydrated
      else Ordinary)"

fun link_skip_reason :: "link_class \<Rightarrow> skip_reason option" where
  "link_skip_reason Ordinary = None"
| "link_skip_reason Link = Some LinkOrReparsePoint"
| "link_skip_reason Dehydrated = Some DehydratedPlaceholder"

section \<open>Recording what the walk finds\<close>

record scan_output =
  so_entries :: "local_entry omap"
  so_excluded :: "string list"
  so_skipped :: "skipped_entry list"
  so_complete :: bool

definition scan_output_default :: scan_output where
  "scan_output_default =
     \<lparr>so_entries = [], so_excluded = [], so_skipped = [], so_complete = True\<rparr>"

definition so_recorded :: "scan_output \<Rightarrow> nat" where
  "so_recorded so = length (so_entries so) + length (so_skipped so)"

definition so_insert :: "string \<Rightarrow> local_entry \<Rightarrow> nat \<Rightarrow> scan_output \<Rightarrow> bool \<times> scan_output" where
  "so_insert relative entry budget so =
     (if budget \<le> so_recorded so then (False, so\<lparr>so_complete := False\<rparr>)
      else (True, so\<lparr>so_entries := om_insert relative entry (so_entries so)\<rparr>))"

definition so_skip :: "string \<Rightarrow> skip_reason \<Rightarrow> nat \<Rightarrow> scan_output \<Rightarrow> bool \<times> scan_output" where
  "so_skip relative reason budget so =
     (if budget \<le> so_recorded so then (False, so\<lparr>so_complete := False\<rparr>)
      else (True, so\<lparr>so_skipped := so_skipped so @ [skipped relative reason]\<rparr>))"

definition withhold_unreadable ::
  "text_env \<Rightarrow> string \<Rightarrow> string \<Rightarrow> io_error \<Rightarrow> scan_output \<Rightarrow> scan_output"
where
  "withhold_unreadable E relative path e so =
     so\<lparr>so_entries := remove_subtree relative (so_entries so),
        so_skipped := so_skipped so @ [skipped relative (Deferred (read_failure_detail E path e))]\<rparr>"

section \<open>Names that differ only by case or normalisation\<close>

definition fold_has_ancestor_in :: "string \<Rightarrow> string set \<Rightarrow> bool" where
  "fold_has_ancestor_in fld folds =
     (if folds = {} then False else list_ex (\<lambda>p. p \<in> folds) (slash_prefixes fld))"

definition group_by_fold :: "text_env \<Rightarrow> string list \<Rightarrow> string list omap" where
  "group_by_fold E keys = fold (\<lambda>k m. push_at (portable_fold E k) k m) keys []"

definition skipped_by_fold :: "text_env \<Rightarrow> skipped_entry list \<Rightarrow> string \<Rightarrow> string option" where
  "skipped_by_fold E ss =
     fold (\<lambda>s m. m(portable_fold E (sk_relative s) \<mapsto> sk_relative s)) ss Map.empty"

definition next_spellings :: "string list \<Rightarrow> (string \<times> string) list" where
  "next_spellings ss = map (\<lambda>i. (ss ! i, ss ! ((i + 1) mod length ss))) [0..<length ss]"

definition collision_step ::
  "(string \<Rightarrow> string option) \<Rightarrow> (string \<times> string list) \<Rightarrow>
   (string \<times> string) list \<times> string set \<Rightarrow> (string \<times> string) list \<times> string set"
where
  "collision_step by_skip = (\<lambda>(fld, spellings) (colliding, dropped).
     let skipped_spelling =
           (case by_skip fld of
              None \<Rightarrow> None
            | Some s \<Rightarrow> if s \<in> set spellings then None else Some s) in
     if length spellings < 2 \<and> skipped_spelling = None then (colliding, dropped)
     else if fold_has_ancestor_in fld dropped then (colliding, dropped)
     else
       (colliding @ (case skipped_spelling of
                       Some s \<Rightarrow> map (\<lambda>x. (x, s)) spellings
                     | None \<Rightarrow> next_spellings spellings),
        insert fld dropped))"

definition drop_colliding :: "(string \<times> string) \<Rightarrow> scan_output \<Rightarrow> scan_output" where
  "drop_colliding = (\<lambda>(relative, other) so.
     so\<lparr>so_entries := remove_subtree relative (so_entries so),
        so_skipped := so_skipped so @ [skipped relative (LocalCaseCollision other)]\<rparr>)"

definition skip_portable_case_collisions :: "text_env \<Rightarrow> scan_output \<Rightarrow> scan_output" where
  "skip_portable_case_collisions E so =
     (let by_fold = group_by_fold E (om_keys (so_entries so));
          by_skip = skipped_by_fold E (so_skipped so);
          (colliding, _) = fold (collision_step by_skip) by_fold ([], {}) in
      fold drop_colliding colliding so)"

section \<open>Removing a subtree\<close>

lemma remove_subtree_wf: "om_wf m \<Longrightarrow> om_wf (remove_subtree r m)"
  by (simp add: remove_subtree_def om.wf_remove_all om_wf_remove)

lemma remove_subtree_get:
  assumes "om_wf m"
  shows "om_get (remove_subtree r m) k = (if at_or_beneath r k then None else om_get m k)"
proof -
  have "k \<in> set (om_keys (om_prefixed (r @ [slash]) m)) \<longleftrightarrow> om_get m k \<noteq> None \<and> beneath r k"
    using assms om.in_items_iff [OF assms, of k]
    by (force simp: om_prefixed_eq om_keys_def beneath_prefix)
  then show ?thesis
    using assms
    by (auto simp: remove_subtree_def at_or_beneath_def om_get_remove om.get_remove_all)
qed

lemma remove_subtree_keys:
  assumes "om_wf m"
  shows "set (om_keys (remove_subtree r m)) = {k \<in> set (om_keys m). \<not> at_or_beneath r k}"
proof -
  have key: "k \<in> set (om_keys n) \<longleftrightarrow> om_get n k \<noteq> None" for k and n :: "'a omap"
    by (auto simp: om_keys_def om_get_def map_of_eq_None_iff)
  show ?thesis
    using assms by (auto simp: key remove_subtree_get split: if_splits)
qed

definition wf_local :: "local_inventory \<Rightarrow> bool" where
  "wf_local i =
     (om_wf (li_entries i) \<and> list_all (\<lambda>(k, e). k = l_relative e) (li_entries i))"

lemma wf_local_get: "wf_local i \<Longrightarrow> om_get (li_entries i) k = Some e \<Longrightarrow> l_relative e = k"
  by (auto simp: wf_local_def list_all_iff dest: om_get_Some_in)

lemma wf_local_key: "wf_local i \<Longrightarrow> (k, e) \<in> set (li_entries i) \<Longrightarrow> k = l_relative e"
  by (auto simp: wf_local_def list_all_iff)

lemma wf_local_values:
  "wf_local i \<Longrightarrow> e \<in> set (om_values (li_entries i)) \<longleftrightarrow>
     om_get (li_entries i) (l_relative e) = Some e"
  by (auto simp: om_values_in wf_local_def list_all_iff om.in_items_iff [symmetric])

lemma fold_remove_subset: "set (fold om_remove ks m) \<subseteq> set m"
proof (induction ks arbitrary: m)
  case Nil
  then show ?case by simp
next
  case (Cons k ks)
  have "set (om_remove k m) \<subseteq> set m"
    by (auto simp: om_remove_def)
  with Cons [of "om_remove k m"] show ?case by auto
qed

lemma remove_subtree_subset: "set (remove_subtree r m) \<subseteq> set m"
  using fold_remove_subset [of _ m] unfolding remove_subtree_def om_remove_def by fastforce

lemma withhold_wf: "wf_local i \<Longrightarrow> wf_local (withhold r reason i)"
  using remove_subtree_subset [of r "li_entries i"]
  by (auto simp: wf_local_def withhold_def remove_subtree_wf list_all_iff)

lemma withhold_get:
  "wf_local i \<Longrightarrow>
   om_get (li_entries (withhold r reason i)) k =
     (if at_or_beneath r k then None else om_get (li_entries i) k)"
  by (simp add: wf_local_def withhold_def remove_subtree_get)

lemma withhold_skipped:
  "set (li_skipped (withhold r reason i)) = insert (skipped r reason) (set (li_skipped i))"
proof -
  have "set (takeWhile P xs) \<union> set (dropWhile P xs) = set xs" for P and xs :: "skipped_entry list"
    by (metis set_append takeWhile_dropWhile_id)
  then show ?thesis
    by (auto simp: withhold_def insert_sorted_skip_def)
qed

lemma insert_sorted_skip_sorted:
  "sorted (map sk_relative ss) \<Longrightarrow> sorted (map sk_relative (insert_sorted_skip s ss))"
proof (induction ss)
  case Nil
  then show ?case by (simp add: insert_sorted_skip_def)
next
  case (Cons x ss)
  show ?case
  proof (cases "sk_relative x \<le> sk_relative s")
    case True
    have "set (insert_sorted_skip s ss) = insert s (set ss)"
      unfolding insert_sorted_skip_def
      by (metis Un_insert_right list.simps(15) set_append takeWhile_dropWhile_id)
    with True Cons show ?thesis
      by (auto simp: insert_sorted_skip_def)
  next
    case False
    with Cons.prems show ?thesis
      by (fastforce simp: insert_sorted_skip_def)
  qed
qed

section \<open>Rules\<close>

lemma excludes_for_deletion_wider:
  "is_ignored E rules p d \<Longrightarrow> excludes_for_deletion E rules p d"
  by (simp add: excludes_for_deletion_def)

lemma excludes_for_deletion_exact:
  "p \<noteq> [] \<Longrightarrow> ir_exact rules p d \<Longrightarrow> excludes_for_deletion E rules p d"
  by (simp add: excludes_for_deletion_def)

lemma rules_none_only_ignore_file:
  "excludes_for_deletion E rules_none p d \<longleftrightarrow> p = default_ignore_file"
  by (auto simp: excludes_for_deletion_def is_ignored_def rules_none_def default_ignore_file_def)

section \<open>Recording on a budget\<close>

lemma length_om_insert: "length (om_insert r e m) \<le> Suc (length m)"
  by (induction r e m rule: om_insert.induct) auto

lemma so_insert_within:
  "so_recorded so \<le> budget \<Longrightarrow> so_insert r e budget so = (ok, so') \<Longrightarrow>
   so_recorded so' \<le> budget \<and> (ok \<longleftrightarrow> so_recorded so < budget) \<and> (\<not> ok \<longrightarrow> \<not> so_complete so')"
  using length_om_insert [of r e "so_entries so"]
  by (auto simp: so_insert_def so_recorded_def split: if_splits)

lemma so_skip_within:
  "so_recorded so \<le> budget \<Longrightarrow> so_skip r s budget so = (ok, so') \<Longrightarrow>
   so_recorded so' \<le> budget \<and> (ok \<longleftrightarrow> so_recorded so < budget) \<and> (\<not> ok \<longrightarrow> \<not> so_complete so')"
  by (auto simp: so_skip_def so_recorded_def split: if_splits)

section \<open>Folds\<close>

lemma fold_has_ancestor_in_iff [path_simps]:
  "fold_has_ancestor_in f folds \<longleftrightarrow> (\<exists>p \<in> folds. beneath p f)"
  by (auto simp: fold_has_ancestor_in_def list_ex_iff in_slash_prefixes_iff)

end
