(* ===== verification/PlanTypes.thy ===== *)
theory PlanTypes
  imports Local
begin

text \<open>
  The data of \<open>src/plan.rs\<close> and the two inventory types of \<open>src/api.rs\<close> it plans over: the
  comparison modes, the scope of a run, the reasons, the actions and the plan.
\<close>

section \<open>The remote inventory\<close>

record remote_entry =
  r_relative :: string
  r_path :: string
  r_kind :: entry_kind
  r_size :: u64
  r_mtime :: int
  r_mount :: "string option"
  r_md5 :: "fingerprint option"

record remote_inventory =
  ri_root_exists :: bool
  ri_entries :: "remote_entry omap"

definition linked_entry_mount_type :: string where
  "linked_entry_mount_type = ''link''"

definition unlistable_entry_mount_type :: string where
  "unlistable_entry_mount_type = ''unlistable''"

section \<open>Comparison modes\<close>

datatype compare_mode = Content | Metadata | SizeOnly | Force

fun requires_deletion_digest :: "compare_mode \<Rightarrow> bool" where
  "requires_deletion_digest Content = True"
| "requires_deletion_digest Force = True"
| "requires_deletion_digest _ = False"

section \<open>The scope of a run\<close>

datatype scope = Scope (scope_str: string)

definition scope_root :: scope where
  "scope_root = Scope []"

definition scope_is_root :: "scope \<Rightarrow> bool" where
  "scope_is_root s = (scope_str s = [])"

text \<open>\<open>trim_matches('/')\<close>.\<close>

definition trim_slashes :: "string \<Rightarrow> string" where
  "trim_slashes v =
     rev (dropWhile (\<lambda>c. c = slash) (rev (dropWhile (\<lambda>c. c = slash) v)))"

definition scope_parse :: "text_env \<Rightarrow> string \<Rightarrow> scope res" where
  "scope_parse E value =
     (let trimmed = trim_slashes value in
      if trimmed = [] then Inr scope_root
      else if backslash \<in> set trimmed then
        Inl (Configuration (''scope '' @ debug_str E value
               @ '' must use forward slashes, not backslashes''))
      else
        bind_r (validate_relative trimmed) (\<lambda>_.
          if list_ex dot_name (split_on slash trimmed) then
            Inl (Configuration (''scope '' @ debug_str E value
                   @ '' must not contain . or .. components''))
          else if is_dsm_managed trimmed then
            Inl (Configuration (''scope '' @ debug_str E value
                   @ '' names a DSM-managed directory, which is never synchronized''))
          else Inr (Scope trimmed)))"

definition scope_matches :: "scope \<Rightarrow> string \<Rightarrow> bool" where
  "scope_matches s relative =
     (if scope_is_root s then True
      else if relative = scope_str s then True
      else beneath (scope_str s) relative)"

definition is_ancestor_of_scope :: "scope \<Rightarrow> string \<Rightarrow> bool" where
  "is_ancestor_of_scope s relative =
     (if scope_is_root s then False
      else if relative = [] then True
      else beneath relative (scope_str s))"

record plan_options =
  po_delete :: bool
  po_allow_empty_source :: bool
  po_max_delete :: nat
  po_compare :: compare_mode
  po_server_copy :: bool
  po_scope :: scope

section \<open>Reasons\<close>

datatype change_reason =
    MissingRemote
  | SizeDiffers
  | MtimeDiffers
  | ContentDiffers
  | LocalDigestUnavailable
  | RemoteDigestUnavailable
  | TypeReplaced
  | Forced

fun reason_str :: "change_reason \<Rightarrow> string" where
  "reason_str MissingRemote = ''missing-remote''"
| "reason_str SizeDiffers = ''size-differs''"
| "reason_str MtimeDiffers = ''mtime-differs''"
| "reason_str ContentDiffers = ''content-differs''"
| "reason_str LocalDigestUnavailable = ''local-digest-unavailable''"
| "reason_str RemoteDigestUnavailable = ''remote-digest-unavailable''"
| "reason_str TypeReplaced = ''type-replaced''"
| "reason_str Forced = ''forced''"

fun reason_detail :: "change_reason \<Rightarrow> string" where
  "reason_detail MissingRemote = ''no remote entry at this path''"
| "reason_detail SizeDiffers = ''local and remote sizes differ''"
| "reason_detail MtimeDiffers = ''size equal, modification time differs''"
| "reason_detail ContentDiffers = ''size equal, MD5 content digests differ''"
| "reason_detail LocalDigestUnavailable =
     ''size and time equal, no local MD5 content digest, uploading unverified''"
| "reason_detail RemoteDigestUnavailable =
     ''size and time equal, no MD5 content digest from the NAS, uploading unverified''"
| "reason_detail TypeReplaced = ''remote entry has the conflicting kind''"
| "reason_detail Forced = ''comparison skipped, forced re-upload overwrites the remote copy''"

section \<open>Actions and plans\<close>

record remote_snapshot =
  sn_kind :: entry_kind
  sn_size :: u64
  sn_mtime :: int
  sn_md5 :: "fingerprint option"
  sn_require_mtime :: bool

record create_action =
  ca_relative :: string
  ca_remote_path :: string
  ca_reason :: change_reason

record upload_action =
  ua_local :: local_entry
  ua_remote_path :: string
  ua_reason :: change_reason
  ua_expected :: "remote_snapshot option"

record copy_action =
  cp_from_relative :: string
  cp_from_remote_path :: string
  cp_to_relative :: string
  cp_to_remote_path :: string
  cp_local :: local_entry
  cp_expected_size :: u64
  cp_md5 :: fingerprint
  cp_source_snapshot :: remote_snapshot

record destination_guard =
  dg_remote_path :: string
  dg_local :: local_entry
  dg_expected_size :: u64
  dg_expected_mtime :: int
  dg_md5 :: fingerprint

record delete_action =
  da_relative :: string
  da_local_relative :: string
  da_remote_path :: string
  da_kind :: entry_kind
  da_type_conflict :: bool
  da_snapshot :: remote_snapshot
  da_guard :: "destination_guard option"

record rename_action =
  ra_relative :: string
  ra_from_relative :: string
  ra_from_remote_path :: string
  ra_new_name :: string
  ra_to_remote_path :: string
  ra_kind :: entry_kind

record sync_plan =
  sp_source_root :: string
  sp_scope :: scope
  sp_rules :: ignore_rules
  sp_pre_deletes :: "delete_action list"
  sp_creates :: "create_action list"
  sp_copies :: "copy_action list"
  sp_uploads :: "upload_action list"
  sp_post_deletes :: "delete_action list"
  sp_renames :: "rename_action list"
  sp_unchanged :: nat
  sp_protected :: nat
  sp_upload_bytes :: u64
  sp_skipped :: "skipped_entry list"
  sp_link_unchecked :: nat

definition delete_count :: "sync_plan \<Rightarrow> nat" where
  "delete_count p = length (sp_pre_deletes p) + length (sp_post_deletes p)"

definition plan_is_empty :: "sync_plan \<Rightarrow> bool" where
  "plan_is_empty p =
     (sp_pre_deletes p = [] \<and> sp_creates p = [] \<and> sp_copies p = [] \<and> sp_uploads p = [] \<and>
      sp_post_deletes p = [] \<and> sp_renames p = [])"

section \<open>Facts\<close>

definition wf_remote :: "remote_inventory \<Rightarrow> bool" where
  "wf_remote i =
     (om_wf (ri_entries i) \<and> list_all (\<lambda>(k, e). k = r_relative e) (ri_entries i))"

lemma wf_remote_get: "wf_remote i \<Longrightarrow> om_get (ri_entries i) k = Some e \<Longrightarrow> r_relative e = k"
  by (auto simp: wf_remote_def list_all_iff dest: om_get_Some_in)

lemma wf_remote_values:
  "wf_remote i \<Longrightarrow> e \<in> set (om_values (ri_entries i)) \<longleftrightarrow>
     om_get (ri_entries i) (r_relative e) = Some e"
  by (auto simp: om_values_in wf_remote_def list_all_iff om.in_items_iff [symmetric])

lemma scope_matches_iff:
  "scope_matches s p \<longleftrightarrow> scope_str s = [] \<or> at_or_beneath (scope_str s) p"
  by (auto simp: scope_matches_def scope_is_root_def at_or_beneath_def)

interpretation scope: subtree_closed "scope_matches s"
  by unfold_locales (auto simp: scope_matches_iff intro: below.covers_child)

text \<open>A path is in the scope, above it, or neither; never both.\<close>

lemma scope_ancestor_disjoint: "is_ancestor_of_scope s p \<Longrightarrow> \<not> scope_matches s p"
  by (auto simp: is_ancestor_of_scope_def scope_matches_def scope_is_root_def beneath_asym
      split: if_splits dest: beneath_asym)

lemma scope_above:
  assumes "scope_matches s q" and "beneath p q" and "p \<noteq> []"
  shows "scope_matches s p \<or> is_ancestor_of_scope s p"
proof (cases "scope_str s = []")
  case True
  then show ?thesis by (simp add: scope_matches_iff)
next
  case False
  with assms(1) have "q = scope_str s \<or> beneath (scope_str s) q"
    by (simp add: scope_matches_iff at_or_beneath_def)
  with assms(2) have "beneath p (scope_str s) \<or> p = scope_str s \<or> beneath (scope_str s) p"
    using beneath_linear by blast
  with False assms(3) show ?thesis
    by (auto simp: scope_matches_iff at_or_beneath_def is_ancestor_of_scope_def scope_is_root_def)
qed

lemma trim_slashes_ends:
  "trim_slashes v \<noteq> [] \<Longrightarrow> hd (trim_slashes v) \<noteq> slash \<and> last (trim_slashes v) \<noteq> slash"
proof -
  let ?d = "dropWhile (\<lambda>c. c = slash) v"
  let ?e = "dropWhile (\<lambda>c. c = slash) (rev ?d)"
  assume "trim_slashes v \<noteq> []"
  then have e: "?e \<noteq> []"
    by (simp add: trim_slashes_def)
  then have "last (trim_slashes v) \<noteq> slash"
    using hd_dropWhile [of "\<lambda>c. c = slash" "rev ?d"] by (simp add: trim_slashes_def last_rev)
  moreover have "?d \<noteq> []"
    using e by (metis dropWhile.simps(1) rev.simps(1))
  then have "hd ?d \<noteq> slash"
    using hd_dropWhile [of "\<lambda>c. c = slash" v] by simp
  moreover obtain t where "rev ?d = t @ ?e"
    by (metis takeWhile_dropWhile_id)
  then have "?d = rev ?e @ rev t"
    by (metis rev_append rev_rev_ident)
  then have "hd (rev ?e) = hd ?d"
    using e by (metis hd_append2 rev_is_Nil_conv)
  ultimately show ?thesis
    by (simp add: trim_slashes_def)
qed

lemma scope_parse_Inr:
  "scope_parse E v = Inr s \<Longrightarrow>
     s = Scope (trim_slashes v) \<and> validate_relative (scope_str s) = Inr () \<and>
     \<not> is_dsm_managed (scope_str s)"
  by (auto simp: scope_parse_def Let_def scope_root_def validate_relative_def is_dsm_managed_def
      dsm_managed_names_def is_dsm_managed_name_def split: if_splits)

lemma reason_str_inj: "reason_str a = reason_str b \<Longrightarrow> a = b"
  by (cases a; cases b; simp)

lemma plan_is_empty_no_deletes: "plan_is_empty p \<Longrightarrow> delete_count p = 0"
  by (simp add: plan_is_empty_def delete_count_def)

end
