(* ===== verification/Resolve.thy ===== *)
theory Resolve
  imports PlanTypes
begin

text \<open>
  The spelling resolution of \<open>src/plan.rs\<close>: which local path pairs with which remote one
  (\<open>Correspondence\<close>), which paths a plan must neither carry nor delete (\<open>Shield\<close>), and the
  decision of every class of spellings that a Synology Drive client cannot hold together
  (\<open>resolve_spellings\<close>), followed by the two passes that shield paired exclusions and kind
  conflicts. Digest selection and planning share its result.
\<close>

section \<open>Correspondence of spellings\<close>

record correspondence =
  co_to_remote :: "string omap"
  co_to_local :: "string omap"

definition no_pairs :: correspondence where
  "no_pairs = \<lparr>co_to_remote = [], co_to_local = []\<rparr>"

definition co_insert :: "string \<Rightarrow> string \<Rightarrow> correspondence \<Rightarrow> correspondence" where
  "co_insert local remote c =
     c\<lparr>co_to_remote := om_insert local remote (co_to_remote c),
       co_to_local := om_insert remote local (co_to_local c)\<rparr>"

text \<open>The keys that are not already composed, grouped by their composed form.\<close>

definition non_nfc_by_nfc :: "text_env \<Rightarrow> string list \<Rightarrow> string list omap" where
  "non_nfc_by_nfc E keys =
     fold (\<lambda>key m. case nfc_owned E key of None \<Rightarrow> m | Some composed \<Rightarrow> push_at composed key m) keys []"

definition pair_local_odd ::
  "local_inventory \<Rightarrow> remote_inventory \<Rightarrow> string list omap \<Rightarrow> (string \<times> string list)
     \<Rightarrow> correspondence \<Rightarrow> correspondence"
where
  "pair_local_odd local remote remote_odd = (\<lambda>(composed, spellings) pairs.
     case spellings of
       [local_spelling] \<Rightarrow>
         if om_has (ri_entries remote) local_spelling then pairs
         else
           let candidates = (case om_get remote_odd composed of None \<Rightarrow> [] | Some ss \<Rightarrow> ss)
                 @ (if om_has (ri_entries remote) composed then [composed] else []) in
           (case candidates of
              [remote_spelling] \<Rightarrow>
                if om_has (li_entries local) remote_spelling then pairs
                else co_insert local_spelling remote_spelling pairs
            | _ \<Rightarrow> pairs)
     | _ \<Rightarrow> pairs)"

definition pair_remote_odd ::
  "local_inventory \<Rightarrow> remote_inventory \<Rightarrow> string list omap \<Rightarrow> (string \<times> string list)
     \<Rightarrow> correspondence \<Rightarrow> correspondence"
where
  "pair_remote_odd local remote local_odd = (\<lambda>(composed, spellings) pairs.
     case spellings of
       [remote_spelling] \<Rightarrow>
         if om_has (co_to_local pairs) remote_spelling
            \<or> om_has (li_entries local) remote_spelling
            \<or> om_has local_odd composed
            \<or> om_has (ri_entries remote) composed
            \<or> \<not> om_has (li_entries local) composed
         then pairs
         else co_insert composed remote_spelling pairs
     | _ \<Rightarrow> pairs)"

definition co_build :: "text_env \<Rightarrow> local_inventory \<Rightarrow> remote_inventory \<Rightarrow> correspondence" where
  "co_build E local remote =
     (let local_odd = non_nfc_by_nfc E (om_keys (li_entries local));
          remote_odd = non_nfc_by_nfc E (om_keys (ri_entries remote)) in
      if local_odd = [] \<and> remote_odd = [] then no_pairs
      else
        fold (pair_remote_odd local remote local_odd) remote_odd
          (fold (pair_local_odd local remote remote_odd) local_odd no_pairs))"

text \<open>
  The spelling of a path through a pairing: its own pair, or the nearest paired folder above it
  with the rest of the path as it is spelled. The walk upwards is the \<open>rsplit_once\<close> loop.
\<close>

fun first_paired :: "string omap \<Rightarrow> string list \<Rightarrow> (string \<times> string) option" where
  "first_paired m [] = None"
| "first_paired m (q # qs) =
     (case om_get m q of Some r \<Rightarrow> Some (q, r) | None \<Rightarrow> first_paired m qs)"

definition paired_spelling :: "string omap \<Rightarrow> string \<Rightarrow> string" where
  "paired_spelling m p =
     (if m = [] then p
      else (case om_get m p of
              Some r \<Rightarrow> r
            | None \<Rightarrow>
                (case first_paired m (ancestors p) of
                   Some (parent, r) \<Rightarrow> r @ drop (length parent) p
                 | None \<Rightarrow> p)))"

definition remote_relative :: "correspondence \<Rightarrow> string \<Rightarrow> string" where
  "remote_relative c local_rel = paired_spelling (co_to_remote c) local_rel"

definition local_relative :: "correspondence \<Rightarrow> string \<Rightarrow> string" where
  "local_relative c remote_rel = paired_spelling (co_to_local c) remote_rel"

definition remote_of :: "correspondence \<Rightarrow> remote_inventory \<Rightarrow> string \<Rightarrow> remote_entry option" where
  "remote_of c remote local_rel = om_get (ri_entries remote) (remote_relative c local_rel)"

definition local_of :: "correspondence \<Rightarrow> local_inventory \<Rightarrow> string \<Rightarrow> local_entry option" where
  "local_of c local remote_rel = om_get (li_entries local) (local_relative c remote_rel)"

definition is_paired_remote :: "correspondence \<Rightarrow> string \<Rightarrow> bool" where
  "is_paired_remote c remote_rel = om_has (co_to_local c) remote_rel"

section \<open>The shield\<close>

definition shield_covers :: "text_env \<Rightarrow> string set \<Rightarrow> string \<Rightarrow> bool" where
  "shield_covers E folds relative =
     (if folds = {} then False
      else let f = portable_fold E relative in f \<in> folds \<or> fold_has_ancestor_in f folds)"

section \<open>Protection\<close>

definition is_dir :: "remote_entry \<Rightarrow> bool" where
  "is_dir entry = (r_kind entry = Directory)"

definition is_protected_as_spelled :: "text_env \<Rightarrow> ignore_rules \<Rightarrow> remote_entry \<Rightarrow> bool" where
  "is_protected_as_spelled E rules entry =
     (r_mount entry \<noteq> None
      \<or> is_dsm_managed (r_relative entry)
      \<or> excludes_for_deletion E rules (r_relative entry) (is_dir entry))"

definition is_protected :: "text_env \<Rightarrow> ignore_rules \<Rightarrow> correspondence \<Rightarrow> remote_entry \<Rightarrow> bool" where
  "is_protected E rules pairs entry =
     (if is_protected_as_spelled E rules entry then True
      else
        let local = local_relative pairs (r_relative entry) in
        local \<noteq> r_relative entry
        \<and> (is_dsm_managed local \<or> excludes_for_deletion E rules local (is_dir entry)))"

definition is_excluded_from_comparison ::
  "text_env \<Rightarrow> ignore_rules \<Rightarrow> correspondence \<Rightarrow> remote_entry \<Rightarrow> bool"
where
  "is_excluded_from_comparison E rules pairs entry =
     (if r_mount entry \<noteq> None \<or> is_dsm_managed (r_relative entry)
         \<or> is_ignored E rules (r_relative entry) (is_dir entry)
      then True
      else
        let local = local_relative pairs (r_relative entry) in
        local \<noteq> r_relative entry
        \<and> (is_dsm_managed local \<or> is_ignored E rules local (is_dir entry)))"

definition remote_subtree :: "remote_entry omap \<Rightarrow> string \<Rightarrow> remote_entry list" where
  "remote_subtree entries relative =
     (case om_get entries relative of None \<Rightarrow> [] | Some e \<Rightarrow> [e])
     @ map snd (om_prefixed (relative @ [slash]) entries)"

section \<open>Classes of spellings\<close>

record spellings =
  ss_local :: "string option"
  ss_local_other :: "string option"
  ss_remote :: "string option"
  ss_remote_other :: "string option"

definition no_spellings :: spellings where
  "no_spellings =
     \<lparr>ss_local = None, ss_local_other = None, ss_remote = None, ss_remote_other = None\<rparr>"

fun note_spelling ::
  "string option \<times> string option \<Rightarrow> string \<Rightarrow> string option \<times> string option"
where
  "note_spelling (None, other) s = (Some s, other)"
| "note_spelling (Some e, other) s =
     (if e = s then (Some e, other)
      else (Some e, (case other of None \<Rightarrow> Some s | Some _ \<Rightarrow> other)))"

definition note_in_class :: "bool \<Rightarrow> string \<Rightarrow> spellings \<Rightarrow> spellings" where
  "note_in_class is_local s c =
     (if is_local then
        let (a, b) = note_spelling (ss_local c, ss_local_other c) s in
        c\<lparr>ss_local := a, ss_local_other := b\<rparr>
      else
        let (a, b) = note_spelling (ss_remote c, ss_remote_other c) s in
        c\<lparr>ss_remote := a, ss_remote_other := b\<rparr>)"

definition note_class :: "bool \<Rightarrow> (string \<times> string) \<Rightarrow> spellings omap \<Rightarrow> spellings omap" where
  "note_class is_local = (\<lambda>(key, s) classes.
     om_insert key
       (note_in_class is_local s
          (case om_get classes key of None \<Rightarrow> no_spellings | Some c \<Rightarrow> c)) classes)"

text \<open>Every prefix of a path, cut at the slashes, and the path itself, with its fold.\<close>

definition path_cuts :: "string \<Rightarrow> string list" where
  "path_cuts s = slash_prefixes s @ [s]"

definition note_path :: "text_env \<Rightarrow> (string \<times> bool) \<Rightarrow> spellings omap \<Rightarrow> spellings omap" where
  "note_path E = (\<lambda>(relative, is_local) classes.
     fold (note_class is_local)
       (zip (path_cuts (portable_fold E relative)) (path_cuts relative)) classes)"

definition considered ::
  "text_env \<Rightarrow> local_inventory \<Rightarrow> remote_inventory \<Rightarrow> ignore_rules \<Rightarrow> (string \<times> bool) list"
where
  "considered E local remote rules =
     map (\<lambda>k. (k, True)) (om_keys (li_entries local))
     @ map (\<lambda>e. (r_relative e, False))
         (filter (\<lambda>e. \<not> is_protected_as_spelled E rules e) (om_values (ri_entries remote)))"

definition spelling_classes ::
  "text_env \<Rightarrow> local_inventory \<Rightarrow> remote_inventory \<Rightarrow> ignore_rules \<Rightarrow> spellings omap"
where
  "spelling_classes E local remote rules = fold (note_path E) (considered E local remote rules) []"

definition final_name :: "string \<Rightarrow> string" where
  "final_name relative = (case rsplit_once slash relative of None \<Rightarrow> relative | Some (_, name) \<Rightarrow> name)"

definition names_differ :: "text_env \<Rightarrow> string \<Rightarrow> string \<Rightarrow> bool" where
  "names_differ E left right = (nfc E (final_name left) \<noteq> nfc E (final_name right))"

section \<open>The decision of one class\<close>

record class_decision =
  cd_reports :: "skipped_entry list"
  cd_renames :: "(string \<times> string) list"
  cd_leftovers :: "(string \<times> string) list"

definition nothing_to_decide :: class_decision where
  "nothing_to_decide = \<lparr>cd_reports = [], cd_renames = [], cd_leftovers = []\<rparr>"

definition decide_two_remote :: "text_env \<Rightarrow> string option \<Rightarrow> string \<Rightarrow> string \<Rightarrow> class_decision" where
  "decide_two_remote E local first second =
     (if \<not> names_differ E first second then nothing_to_decide
      else
        let kept = (case local of
                      None \<Rightarrow> None
                    | Some l \<Rightarrow> find (\<lambda>r. nfc E r = nfc E l) [first, second]) in
        (case kept of
           Some k \<Rightarrow> nothing_to_decide\<lparr>cd_leftovers := [(if k = first then second else first, k)]\<rparr>
         | None \<Rightarrow> nothing_to_decide\<lparr>cd_reports :=
             [skipped first (RemoteCaseCollision second),
              skipped second (RemoteCaseCollision first)]
             @ (case local of
                  None \<Rightarrow> []
                | Some l \<Rightarrow> if l \<noteq> first \<and> l \<noteq> second
                            then [skipped l (RemoteCaseCollision first)] else [])\<rparr>))"

definition decide_rename ::
  "local_inventory \<Rightarrow> remote_inventory \<Rightarrow> bool \<Rightarrow> string \<Rightarrow> string \<Rightarrow> class_decision"
where
  "decide_rename local remote delete l r =
     (if \<not> delete then
        nothing_to_decide\<lparr>cd_reports := [skipped l (CaseRenameNeedsDelete r)]\<rparr>
      else if map_option l_kind (om_get (li_entries local) l)
              = map_option r_kind (om_get (ri_entries remote) r) then
        nothing_to_decide\<lparr>cd_renames := [(l, r)]\<rparr>
      else nothing_to_decide)"

definition decide_class ::
  "text_env \<Rightarrow> local_inventory \<Rightarrow> remote_inventory \<Rightarrow> bool \<Rightarrow> spellings \<Rightarrow> class_decision"
where
  "decide_class E local remote delete c =
     (case (ss_local c, ss_local_other c) of
        (Some first, Some second) \<Rightarrow>
          if names_differ E first second then
            nothing_to_decide\<lparr>cd_reports :=
              [skipped first (LocalCaseCollision second),
               skipped second (LocalCaseCollision first)]\<rparr>
          else nothing_to_decide
      | _ \<Rightarrow>
          (case (ss_remote c, ss_remote_other c) of
             (Some first, Some second) \<Rightarrow> decide_two_remote E (ss_local c) first second
           | _ \<Rightarrow>
               (case (ss_local c, ss_remote c) of
                  (Some l, Some r) \<Rightarrow>
                    if l \<noteq> r \<and> nfc E l \<noteq> nfc E r \<and> names_differ E l r
                    then decide_rename local remote delete l r
                    else nothing_to_decide
                | _ \<Rightarrow> nothing_to_decide)))"

section \<open>Resolution\<close>

record resolution =
  rs_pairs :: correspondence
  rs_folds :: "string set"
  rs_skipped :: "skipped_entry list"
  rs_renames :: "(string \<times> string) list"
  rs_leftovers :: "(string \<times> string) list"

text \<open>One pass of the loop over the classes: a blocked class, or one beneath it, is passed over.\<close>

definition resolve_step ::
  "text_env \<Rightarrow> local_inventory \<Rightarrow> remote_inventory \<Rightarrow> bool \<Rightarrow> (string \<times> spellings)
     \<Rightarrow> resolution \<Rightarrow> resolution"
where
  "resolve_step E local remote delete = (\<lambda>(fld, class) s.
     if fld \<in> rs_folds s \<or> fold_has_ancestor_in fld (rs_folds s) then s
     else
       let d = decide_class E local remote delete class;
           s' = s\<lparr>rs_renames := rs_renames s @ cd_renames d,
                  rs_leftovers := rs_leftovers s @ cd_leftovers d\<rparr> in
       if cd_reports d = [] then s'
       else s'\<lparr>rs_folds := insert fld (rs_folds s'),
               rs_skipped := rs_skipped s' @ cd_reports d\<rparr>)"

definition deepest_first :: "(string \<times> 'a) list \<Rightarrow> (string \<times> 'a) list" where
  "deepest_first xs = sort_key (\<lambda>(l, _). (- int (depth l), l)) xs"

definition resolve_spellings ::
  "text_env \<Rightarrow> local_inventory \<Rightarrow> remote_inventory \<Rightarrow> ignore_rules \<Rightarrow> bool
     \<Rightarrow> skipped_entry list \<Rightarrow> resolution"
where
  "resolve_spellings E local remote rules delete refused =
     (let blocked = set (map (\<lambda>s. portable_fold E (sk_relative s)) (li_skipped local @ refused));
          start = \<lparr>rs_pairs = no_pairs, rs_folds = blocked, rs_skipped = refused,
                   rs_renames = [], rs_leftovers = []\<rparr>;
          s = fold (resolve_step E local remote delete)
                (spelling_classes E local remote rules) start in
      s\<lparr>rs_renames := deepest_first
           (filter (\<lambda>(l, _). \<not> fold_has_ancestor_in (portable_fold E l) (rs_folds s))
             (rs_renames s))\<rparr>)"

text \<open>\<open>shield_paired_exclusions\<close>: a local entry whose paired NAS spelling the rules exclude.\<close>

definition shield_excluded_step ::
  "text_env \<Rightarrow> ignore_rules \<Rightarrow> local_entry \<Rightarrow> resolution \<Rightarrow> resolution"
where
  "shield_excluded_step E rules entry s =
     (if shield_covers E (rs_folds s) (l_relative entry) then s
      else
        let remote_rel = remote_relative (rs_pairs s) (l_relative entry) in
        if remote_rel = l_relative entry then s
        else if is_dsm_managed remote_rel \<or> is_ignored E rules remote_rel (l_kind entry = Directory)
        then s\<lparr>rs_folds := insert (portable_fold E (l_relative entry)) (rs_folds s)\<rparr>
        else s)"

definition shield_paired_exclusions ::
  "text_env \<Rightarrow> local_inventory \<Rightarrow> ignore_rules \<Rightarrow> resolution \<Rightarrow> resolution"
where
  "shield_paired_exclusions E local rules s =
     (if co_to_remote (rs_pairs s) = [] then s
      else fold (shield_excluded_step E rules) (om_values (li_entries local)) s)"

text \<open>\<open>shield_type_conflicts\<close>: every kind conflict this run cannot carry.\<close>

definition mount_reason :: "text_env \<Rightarrow> remote_entry \<Rightarrow> string \<Rightarrow> skip_reason" where
  "mount_reason E entry mount_type =
     (if mount_type = linked_entry_mount_type then RemoteLink (r_path entry)
      else if mount_type = unlistable_entry_mount_type then
        Deferred (''remote-unreadable: '' @ debug_str E (r_path entry)
          @ '' cannot be listed by this account; nothing is ''
          @ ''uploaded, compared or deleted beneath it; grant this account list ''
          @ ''permission on it or exclude it'')
      else
        TypeConflict (''the NAS entry '' @ debug_str E (r_path entry) @ '' is a mount point (''
          @ mount_type @ ''); nothing is written at ''
          @ ''or beneath it, and nothing there is deleted''))"

definition kept_candidate ::
  "text_env \<Rightarrow> ignore_rules \<Rightarrow> correspondence \<Rightarrow> string set \<Rightarrow> remote_entry list
     \<Rightarrow> remote_entry option"
where
  "kept_candidate E rules pairs folds candidates =
     find (\<lambda>c. is_protected E rules pairs c \<or> shield_covers E folds (r_relative c)) candidates"

definition conflict_detail ::
  "text_env \<Rightarrow> remote_inventory \<Rightarrow> ignore_rules \<Rightarrow> bool \<Rightarrow> resolution \<Rightarrow> local_entry
     \<Rightarrow> remote_entry \<Rightarrow> string option"
where
  "conflict_detail E remote rules delete s entry remote_entry =
     (if \<not> delete then
        Some (''the source holds a '' @ kind_str (l_kind entry) @ '' where the NAS holds a ''
          @ kind_str (r_kind remote_entry) @ ''; run with --delete to replace the ''
          @ ''NAS '' @ kind_str (r_kind remote_entry))
      else if r_kind remote_entry = Directory then
        map_option (\<lambda>kept.
          ''the source holds a file where the NAS folder holds '' @ debug_str E (r_relative kept)
          @ '', which is excluded, DSM-managed, mounted or skipped and is never deleted, so the ''
          @ ''folder cannot be replaced; remove that entry in File Station'')
          (kept_candidate E rules (rs_pairs s) (rs_folds s)
             (remote_subtree (ri_entries remote) (r_relative remote_entry)))
      else None)"

definition shield_with :: "text_env \<Rightarrow> local_entry \<Rightarrow> skip_reason \<Rightarrow> resolution \<Rightarrow> resolution" where
  "shield_with E entry reason s =
     s\<lparr>rs_folds := insert (portable_fold E (l_relative entry)) (rs_folds s),
       rs_skipped := rs_skipped s @ [skipped (l_relative entry) reason]\<rparr>"

definition shield_conflict_step ::
  "text_env \<Rightarrow> remote_inventory \<Rightarrow> ignore_rules \<Rightarrow> bool \<Rightarrow> local_entry \<Rightarrow> resolution \<Rightarrow> resolution"
where
  "shield_conflict_step E remote rules delete entry s =
     (if shield_covers E (rs_folds s) (l_relative entry) then s
      else
        (case om_get (ri_entries remote) (remote_relative (rs_pairs s) (l_relative entry)) of
           None \<Rightarrow> s
         | Some remote_entry \<Rightarrow>
             (case r_mount remote_entry of
                Some mount_type \<Rightarrow> shield_with E entry (mount_reason E remote_entry mount_type) s
              | None \<Rightarrow>
                  if l_kind entry = r_kind remote_entry then s
                  else
                    (case conflict_detail E remote rules delete s entry remote_entry of
                       None \<Rightarrow> s
                     | Some detail \<Rightarrow> shield_with E entry (TypeConflict detail) s))))"

definition shield_type_conflicts ::
  "text_env \<Rightarrow> local_inventory \<Rightarrow> remote_inventory \<Rightarrow> ignore_rules \<Rightarrow> bool \<Rightarrow> resolution \<Rightarrow> resolution"
where
  "shield_type_conflicts E local remote rules delete s =
     fold (shield_conflict_step E remote rules delete) (om_values (li_entries local)) s"

definition resolve ::
  "text_env \<Rightarrow> local_inventory \<Rightarrow> remote_inventory \<Rightarrow> ignore_rules \<Rightarrow> bool
     \<Rightarrow> skipped_entry list \<Rightarrow> resolution"
where
  "resolve E local remote rules delete refused =
     (let s = resolve_spellings E local remote rules delete refused;
          pairs = fold (\<lambda>(l, r) c. co_insert l r c) (rs_renames s) (co_build E local remote);
          s1 = shield_paired_exclusions E local rules (s\<lparr>rs_pairs := pairs\<rparr>) in
      shield_type_conflicts E local remote rules delete s1)"

definition is_leftover :: "resolution \<Rightarrow> string \<Rightarrow> bool" where
  "is_leftover s relative =
     list_ex (\<lambda>(old, _). relative = old \<or> beneath old relative) (rs_leftovers s)"

end
