(* ===== verification/Planner.thy ===== *)
theory Planner
  imports Resolve
begin

text \<open>
  \<open>build_plan\<close> of \<open>src/plan.rs\<close> and what it calls: the comparison of a file pair, the
  scheduling of creates, uploads and type replacements, the server copies, the case-only renames,
  the mirror deletions with their snapshots, and the limits. Every loop of the code is a fold over
  the same sequence in the same order; an early return is the \<open>Inl\<close> of a result.
\<close>

section \<open>Comparing a file pair\<close>

definition local_mtime_seconds :: "local_entry \<Rightarrow> int" where
  "local_mtime_seconds e = l_mtime_ms e div 1000"

definition mtimes_agree :: "int \<Rightarrow> int \<Rightarrow> bool" where
  "mtimes_agree local_ms remote_s =
     (let floored = local_ms div 1000;
          rounded = i64_sat_add local_ms 500 div 1000 in
      remote_s = floored \<or> remote_s = rounded)"

definition compare_files :: "local_entry \<Rightarrow> remote_entry \<Rightarrow> compare_mode \<Rightarrow> change_reason option" where
  "compare_files local remote mode =
     (if mode = Force then Some Forced
      else if l_size local \<noteq> r_size remote then Some SizeDiffers
      else
        let mtime_differs = \<not> mtimes_agree (l_mtime_ms local) (r_mtime remote) in
        (case mode of
           Force \<Rightarrow> Some Forced
         | SizeOnly \<Rightarrow> None
         | Metadata \<Rightarrow> if mtime_differs then Some MtimeDiffers else None
         | Content \<Rightarrow>
             if l_size local = 0 then (if mtime_differs then Some MtimeDiffers else None)
             else
               (case (l_md5 local, r_md5 remote) of
                  (Some ld, Some rd) \<Rightarrow>
                    (case compare_content ld rd of
                       Strong \<Rightarrow> None
                     | Md5Only \<Rightarrow> None
                     | Differs \<Rightarrow> Some ContentDiffers)
                | (None, _) \<Rightarrow> if mtime_differs then Some MtimeDiffers else Some LocalDigestUnavailable
                | (Some _, None) \<Rightarrow>
                    if mtime_differs then Some MtimeDiffers else Some RemoteDigestUnavailable)))"

section \<open>Snapshots\<close>

definition overwritten_snapshot :: "remote_entry \<Rightarrow> remote_snapshot" where
  "overwritten_snapshot e =
     \<lparr>sn_kind = r_kind e, sn_size = r_size e, sn_mtime = r_mtime e, sn_md5 = r_md5 e,
      sn_require_mtime = True\<rparr>"

definition deletion_digest :: "text_env \<Rightarrow> remote_entry \<Rightarrow> compare_mode \<Rightarrow> fingerprint option res" where
  "deletion_digest E entry compare =
     (if requires_deletion_digest compare \<and> r_kind entry = File \<and> 0 < r_size entry then
        (case r_md5 entry of
           None \<Rightarrow> Inl (Message
             (''content-mode deletion requires a plan-time MD5/CRC32/SHA-256 fingerprint for ''
              @ debug_str E (r_path entry)))
         | Some fp \<Rightarrow>
             if has_full_proof fp then Inr (Some fp)
             else Inl (Message
               (''content-mode deletion requires a complete plan-time MD5/CRC32/SHA-256 fingerprint for ''
                @ debug_str E (r_path entry))))
      else Inr None)"

definition has_descendants :: "remote_entry omap \<Rightarrow> remote_entry \<Rightarrow> bool" where
  "has_descendants entries entry =
     (r_kind entry = Directory \<and> om_first_prefixed (r_relative entry @ [slash]) entries \<noteq> None)"

definition deletion_snapshot ::
  "text_env \<Rightarrow> remote_entry \<Rightarrow> remote_entry omap \<Rightarrow> compare_mode \<Rightarrow> remote_snapshot res"
where
  "deletion_snapshot E entry entries compare =
     map_r (\<lambda>digest.
       \<lparr>sn_kind = r_kind entry, sn_size = r_size entry, sn_mtime = r_mtime entry,
        sn_md5 = digest, sn_require_mtime = \<not> has_descendants entries entry\<rparr>)
       (deletion_digest E entry compare)"

section \<open>Scheduling\<close>

definition schedule_create ::
  "remote_root \<Rightarrow> local_entry \<Rightarrow> string \<Rightarrow> change_reason \<Rightarrow> sync_plan \<Rightarrow> sync_plan res"
where
  "schedule_create root entry remote_rel reason plan =
     map_r (\<lambda>path.
       plan\<lparr>sp_creates := sp_creates plan @
         [\<lparr>ca_relative = l_relative entry, ca_remote_path = path, ca_reason = reason\<rparr>]\<rparr>)
       (root_join root remote_rel)"

definition schedule_upload ::
  "remote_root \<Rightarrow> local_entry \<Rightarrow> string \<Rightarrow> change_reason \<Rightarrow> remote_snapshot option
     \<Rightarrow> sync_plan \<Rightarrow> sync_plan res"
where
  "schedule_upload root entry remote_rel reason expected plan =
     map_r (\<lambda>path.
       plan\<lparr>sp_upload_bytes := u64_sat_add (sp_upload_bytes plan) (l_size entry),
            sp_uploads := sp_uploads plan @
              [\<lparr>ua_local = entry, ua_remote_path = path, ua_reason = reason,
                ua_expected = expected\<rparr>]\<rparr>)
       (root_join root remote_rel)"

definition schedule_missing :: "remote_root \<Rightarrow> local_entry \<Rightarrow> string \<Rightarrow> sync_plan \<Rightarrow> sync_plan res" where
  "schedule_missing root entry remote_rel plan =
     (case l_kind entry of
        Directory \<Rightarrow> schedule_create root entry remote_rel MissingRemote plan
      | File \<Rightarrow> schedule_upload root entry remote_rel MissingRemote None plan)"

type_synonym plan_state = "sync_plan \<times> string set"

definition push_predelete ::
  "text_env \<Rightarrow> correspondence \<Rightarrow> remote_entry omap \<Rightarrow> compare_mode \<Rightarrow> plan_state \<Rightarrow> remote_entry
     \<Rightarrow> plan_state res"
where
  "push_predelete E pairs entries compare = (\<lambda>(plan, predeleted) remote.
     if r_relative remote \<in> predeleted then Inr (plan, predeleted)
     else
       map_r (\<lambda>snapshot.
         (plan\<lparr>sp_pre_deletes := sp_pre_deletes plan @
            [\<lparr>da_relative = r_relative remote,
              da_local_relative = local_relative pairs (r_relative remote),
              da_remote_path = r_path remote, da_kind = r_kind remote,
              da_type_conflict = True, da_snapshot = snapshot, da_guard = None\<rparr>]\<rparr>,
          insert (r_relative remote) predeleted))
         (deletion_snapshot E remote entries compare))"

section \<open>Local paths the destination cannot hold\<close>

definition refuse_step ::
  "text_env \<Rightarrow> remote_root \<Rightarrow> string \<Rightarrow> skipped_entry list \<Rightarrow> skipped_entry list"
where
  "refuse_step E root relative refused =
     (if refused \<noteq> [] \<and> beneath (sk_relative (last refused)) relative then refused
      else
        (case root_join root relative of
           Inr _ \<Rightarrow> refused
         | Inl (UnsafeRemotePath path reason) \<Rightarrow>
             refused @ [skipped relative (unsupported_entry
               (''the destination path '' @ debug_str E path @ '' is refused: '' @ reason))]
         | Inl other \<Rightarrow> refused @ [skipped relative (unsupported_entry (error_display E other))]))"

definition paths_the_destination_refuses ::
  "text_env \<Rightarrow> remote_root \<Rightarrow> local_inventory \<Rightarrow> skipped_entry list"
where
  "paths_the_destination_refuses E root local =
     fold (refuse_step E root) (om_keys (li_entries local)) []"

section \<open>The loop over the source\<close>

definition plan_file_over_directory ::
  "text_env \<Rightarrow> remote_root \<Rightarrow> remote_inventory \<Rightarrow> ignore_rules \<Rightarrow> plan_options \<Rightarrow> resolution
     \<Rightarrow> local_entry \<Rightarrow> string \<Rightarrow> remote_entry \<Rightarrow> plan_state \<Rightarrow> plan_state res"
where
  "plan_file_over_directory E root remote rules options rs entry remote_rel remote_entry st =
     (let subtree = remote_subtree (ri_entries remote) (r_relative remote_entry) in
      if list_ex (\<lambda>c. is_protected E rules (rs_pairs rs) c
                     \<or> shield_covers E (rs_folds rs) (r_relative c)) subtree
      then Inl (ProtectedConflict (r_path remote_entry))
      else
        bind_r
          (fold_r (push_predelete E (rs_pairs rs) (ri_entries remote) (po_compare options)) st subtree)
          (\<lambda>(plan, predeleted).
            map_r (\<lambda>plan'. (plan', predeleted))
              (schedule_upload root entry remote_rel TypeReplaced None plan)))"

definition plan_directory_over_file ::
  "text_env \<Rightarrow> remote_root \<Rightarrow> remote_inventory \<Rightarrow> plan_options \<Rightarrow> resolution
     \<Rightarrow> local_entry \<Rightarrow> string \<Rightarrow> remote_entry \<Rightarrow> plan_state \<Rightarrow> plan_state res"
where
  "plan_directory_over_file E root remote options rs entry remote_rel remote_entry st =
     bind_r (push_predelete E (rs_pairs rs) (ri_entries remote) (po_compare options) st remote_entry)
       (\<lambda>(plan, predeleted).
         map_r (\<lambda>plan'. (plan', predeleted))
           (schedule_create root entry remote_rel TypeReplaced plan))"

definition plan_same_kind ::
  "remote_root \<Rightarrow> plan_options \<Rightarrow> local_entry \<Rightarrow> string \<Rightarrow> remote_entry \<Rightarrow> sync_plan \<Rightarrow> sync_plan res"
where
  "plan_same_kind root options entry remote_rel remote_entry plan =
     (case compare_files entry remote_entry (po_compare options) of
        None \<Rightarrow> Inr (plan\<lparr>sp_unchanged := sp_unchanged plan + 1\<rparr>)
      | Some reason \<Rightarrow>
          schedule_upload root entry remote_rel reason (Some (overwritten_snapshot remote_entry)) plan)"

definition plan_entry ::
  "text_env \<Rightarrow> remote_root \<Rightarrow> remote_inventory \<Rightarrow> ignore_rules \<Rightarrow> plan_options \<Rightarrow> resolution
     \<Rightarrow> plan_state \<Rightarrow> local_entry \<Rightarrow> plan_state res"
where
  "plan_entry E root remote rules options rs = (\<lambda>(plan, predeleted) entry.
     if shield_covers E (rs_folds rs) (l_relative entry) then Inr (plan, predeleted)
     else
       let remote_rel = remote_relative (rs_pairs rs) (l_relative entry) in
       (case om_get (ri_entries remote) remote_rel of
          None \<Rightarrow> map_r (\<lambda>p. (p, predeleted)) (schedule_missing root entry remote_rel plan)
        | Some remote_entry \<Rightarrow>
            (case (l_kind entry, r_kind remote_entry) of
               (Directory, Directory) \<Rightarrow> Inr (plan, predeleted)
             | (File, File) \<Rightarrow>
                 map_r (\<lambda>p. (p, predeleted))
                   (plan_same_kind root options entry remote_rel remote_entry plan)
             | (lk, rk) \<Rightarrow>
                 if \<not> po_delete options then
                   Inl (TypeConflictError (r_path remote_entry) (kind_str lk) (kind_str rk))
                 else if lk = Directory then
                   plan_directory_over_file E root remote options rs entry remote_rel remote_entry
                     (plan, predeleted)
                 else
                   plan_file_over_directory E root remote rules options rs entry remote_rel
                     remote_entry (plan, predeleted))))"

section \<open>Server copies\<close>

type_synonym content_key = "u64 \<times> fingerprint \<times> int"

definition group_upload ::
  "correspondence \<Rightarrow> remote_inventory \<Rightarrow> (content_key, nat list) kmap \<Rightarrow> (nat \<times> upload_action)
     \<Rightarrow> (content_key, nat list) kmap res"
where
  "group_upload pairs remote groups = (\<lambda>(index, upload).
     let local = ua_local upload in
     if l_size local = 0 \<or> remote_of pairs remote (l_relative local) \<noteq> None then Inr groups
     else
       (case l_md5 local of
          None \<Rightarrow> Inl (Message ''content comparison requires every local file digest'')
        | Some digest \<Rightarrow>
            if \<not> has_full_proof digest then
              Inl (Message ''content comparison requires every local MD5/CRC32/SHA-256 fingerprint'')
            else Inr (push_at (l_size local, digest, local_mtime_seconds local) index groups)))"

definition is_copy_source ::
  "text_env \<Rightarrow> local_inventory \<Rightarrow> ignore_rules \<Rightarrow> resolution \<Rightarrow> string set \<Rightarrow> remote_entry \<Rightarrow> bool"
where
  "is_copy_source E local rules rs predeleted entry =
     (\<not> (r_kind entry \<noteq> File
         \<or> r_size entry = 0
         \<or> local_of (rs_pairs rs) local (r_relative entry) \<noteq> None
         \<or> is_protected E rules (rs_pairs rs) entry
         \<or> r_relative entry \<in> predeleted
         \<or> shield_covers E (rs_folds rs) (r_relative entry)
         \<or> is_leftover rs (r_relative entry)))"

definition group_remote ::
  "text_env \<Rightarrow> local_inventory \<Rightarrow> ignore_rules \<Rightarrow> resolution \<Rightarrow> string set \<Rightarrow> remote_entry
     \<Rightarrow> (content_key, remote_entry list) kmap \<Rightarrow> (content_key, remote_entry list) kmap"
where
  "group_remote E local rules rs predeleted entry groups =
     (if \<not> is_copy_source E local rules rs predeleted entry then groups
      else
        (case r_md5 entry of
           None \<Rightarrow> groups
         | Some digest \<Rightarrow>
             if \<not> has_full_proof digest then groups
             else push_at (r_size entry, digest, r_mtime entry) entry groups))"

definition copy_of :: "upload_action \<Rightarrow> remote_entry \<Rightarrow> u64 \<Rightarrow> fingerprint \<Rightarrow> copy_action" where
  "copy_of upload source expected_size digest =
     \<lparr>cp_from_relative = r_relative source, cp_from_remote_path = r_path source,
      cp_to_relative = l_relative (ua_local upload), cp_to_remote_path = ua_remote_path upload,
      cp_local = ua_local upload, cp_expected_size = expected_size, cp_md5 = digest,
      cp_source_snapshot =
        \<lparr>sn_kind = File, sn_size = r_size source, sn_mtime = r_mtime source,
         sn_md5 = Some digest, sn_require_mtime = True\<rparr>\<rparr>"

definition replace_step ::
  "upload_action list \<Rightarrow> (content_key, remote_entry list) kmap \<Rightarrow> (nat \<times> copy_action) list
     \<Rightarrow> (content_key \<times> nat list) \<Rightarrow> (nat \<times> copy_action) list res"
where
  "replace_step uploads remote_groups replacements = (\<lambda>((expected_size, digest, mtime), locals).
     case om_get remote_groups (expected_size, digest, mtime) of
       None \<Rightarrow> Inr replacements
     | Some remotes \<Rightarrow>
         (case (locals, remotes) of
            ([upload_index], [source]) \<Rightarrow>
              let upload = uploads ! upload_index in
              bind_r (parent_and_name (r_path source)) (\<lambda>(source_parent, source_name).
              bind_r (parent_and_name (ua_remote_path upload)) (\<lambda>(target_parent, target_name).
                if source_parent = target_parent \<or> source_name \<noteq> target_name
                then Inr replacements
                else Inr (replacements @
                            [(upload_index, copy_of upload source expected_size digest)])))
          | _ \<Rightarrow> Inr replacements))"

definition apply_replacement ::
  "(nat \<times> copy_action) list \<Rightarrow> (nat \<times> upload_action) \<Rightarrow> sync_plan \<Rightarrow> sync_plan"
where
  "apply_replacement replacements = (\<lambda>(index, upload) plan.
     case map_of replacements index of
       Some copy \<Rightarrow>
         plan\<lparr>sp_upload_bytes := u64_sat_sub (sp_upload_bytes plan) (l_size (ua_local upload)),
              sp_copies := sp_copies plan @ [copy]\<rparr>
     | None \<Rightarrow> plan\<lparr>sp_uploads := sp_uploads plan @ [upload]\<rparr>)"

definition replace_uploads_with_server_copies ::
  "text_env \<Rightarrow> local_inventory \<Rightarrow> remote_inventory \<Rightarrow> ignore_rules \<Rightarrow> plan_options \<Rightarrow> resolution
     \<Rightarrow> sync_plan \<Rightarrow> sync_plan res"
where
  "replace_uploads_with_server_copies E local remote rules options rs plan =
     (if \<not> po_server_copy options then Inr plan
      else
        let predeleted = set (map da_relative (sp_pre_deletes plan));
            uploads = sp_uploads plan;
            indexed = enumerate 0 uploads in
        (case fold_r (group_upload (rs_pairs rs) remote) [] indexed of
           Inl e \<Rightarrow> Inl e
         | Inr local_groups \<Rightarrow>
        (case fold_r
                (replace_step uploads
                  (fold (group_remote E local rules rs predeleted)
                    (om_values (ri_entries remote)) [])) [] local_groups of
           Inl e \<Rightarrow> Inl e
         | Inr replacements \<Rightarrow>
             if replacements = [] then Inr plan
             else Inr (fold (apply_replacement replacements) indexed (plan\<lparr>sp_uploads := []\<rparr>)))))"

section \<open>Case-only renames\<close>

definition rename_pending_detail :: "text_env \<Rightarrow> string \<Rightarrow> string \<Rightarrow> remote_entry \<Rightarrow> string" where
  "rename_pending_detail E l r kept =
     ''case-rename-pending: the source spells it '' @ debug_str E l @ '' and the NAS ''
     @ debug_str E r @ '', which holds '' @ debug_str E (r_relative kept)
     @ '', an excluded, DSM-managed, ''
     @ ''mounted or skipped entry this run does not move; the content is kept in ''
     @ ''sync under '' @ debug_str E r @ '', and renaming it in File Station finishes ''
     @ ''the rename''"

definition plan_rename ::
  "text_env \<Rightarrow> remote_inventory \<Rightarrow> ignore_rules \<Rightarrow> plan_options \<Rightarrow> resolution \<Rightarrow> sync_plan
     \<Rightarrow> (string \<times> string) \<Rightarrow> sync_plan res"
where
  "plan_rename E remote rules options rs plan = (\<lambda>(l, r).
     if \<not> scope_matches (po_scope options) l then Inr plan
     else
       (case om_get (ri_entries remote) r of
          None \<Rightarrow> Inr plan
        | Some remote_entry \<Rightarrow>
            (case kept_candidate E rules (rs_pairs rs) (rs_folds rs)
                    (remote_subtree (ri_entries remote) r) of
               Some kept \<Rightarrow>
                 Inr (plan\<lparr>sp_skipped := sp_skipped plan @
                   [skipped l (Deferred (rename_pending_detail E l r kept))]\<rparr>)
             | None \<Rightarrow>
                 map_r (\<lambda>(parent, _).
                   let new_name = nfc E (snd (parent_name l)) in
                   plan\<lparr>sp_renames := sp_renames plan @
                     [\<lparr>ra_relative = l, ra_from_relative = r,
                       ra_from_remote_path = r_path remote_entry, ra_new_name = new_name,
                       ra_to_remote_path = parent @ slash # new_name,
                       ra_kind = r_kind remote_entry\<rparr>]\<rparr>)
                   (parent_and_name (r_path remote_entry)))))"

section \<open>Mirror deletions\<close>

record protection =
  pr_count :: nat
  pr_by :: "string \<rightharpoonup> string"
  pr_dirs :: "string set"

definition no_protection :: protection where
  "no_protection = \<lparr>pr_count = 0, pr_by = Map.empty, pr_dirs = {}\<rparr>"

definition protect_step ::
  "text_env \<Rightarrow> ignore_rules \<Rightarrow> resolution \<Rightarrow> remote_entry \<Rightarrow> protection \<Rightarrow> protection"
where
  "protect_step E rules rs entry p =
     (let above = ancestors (r_relative entry) in
      if is_protected E rules (rs_pairs rs) entry then
        p\<lparr>pr_count := pr_count p + 1,
          pr_dirs := pr_dirs p \<union> set above,
          pr_by := fold (\<lambda>a m. case m a of None \<Rightarrow> m(a \<mapsto> r_relative entry) | Some _ \<Rightarrow> m) above (pr_by p)\<rparr>
      else if shield_covers E (rs_folds rs) (r_relative entry) then
        p\<lparr>pr_dirs := pr_dirs p \<union> set above\<rparr>
      else p)"

definition protections ::
  "text_env \<Rightarrow> remote_inventory \<Rightarrow> ignore_rules \<Rightarrow> plan_options \<Rightarrow> resolution \<Rightarrow> protection"
where
  "protections E remote rules options rs =
     fold (protect_step E rules rs)
       (filter (\<lambda>_. po_delete options) (om_values (ri_entries remote))) no_protection"

definition leftover_detail :: "text_env \<Rightarrow> string \<Rightarrow> string \<Rightarrow> string" where
  "leftover_detail E old kept =
     ''case-rename-pending: the NAS holds '' @ debug_str E old @ '' beside '' @ debug_str E kept
     @ '', two spellings ''
     @ ''Synology Drive clients cannot hold together; '' @ debug_str E old @ '' is left as it is, so ''
     @ ''remove it in File Station once its contents are in '' @ debug_str E kept"

definition leftover_skips :: "text_env \<Rightarrow> plan_options \<Rightarrow> resolution \<Rightarrow> skipped_entry list" where
  "leftover_skips E options rs =
     map (\<lambda>(old, kept). skipped old (Deferred (leftover_detail E old kept)))
       (filter (\<lambda>(old, _). scope_matches (po_scope options) old) (rs_leftovers rs))"

text \<open>Why a remote entry is not a candidate of mirror deletion: the \<open>continue\<close>s of the loop.\<close>

definition not_deletable ::
  "text_env \<Rightarrow> local_inventory \<Rightarrow> ignore_rules \<Rightarrow> plan_options \<Rightarrow> resolution \<Rightarrow> string set
     \<Rightarrow> remote_entry \<Rightarrow> bool"
where
  "not_deletable E local rules options rs predeleted entry =
     (local_of (rs_pairs rs) local (r_relative entry) \<noteq> None
      \<or> r_relative entry \<in> predeleted
      \<or> \<not> scope_matches (po_scope options) (r_relative entry)
      \<or> is_protected E rules (rs_pairs rs) entry
      \<or> shield_covers E (rs_folds rs) (r_relative entry)
      \<or> is_leftover rs (r_relative entry))"

definition plan_delete ::
  "text_env \<Rightarrow> local_inventory \<Rightarrow> remote_inventory \<Rightarrow> ignore_rules \<Rightarrow> plan_options \<Rightarrow> resolution
     \<Rightarrow> string set \<Rightarrow> protection \<Rightarrow> sync_plan \<times> string list \<Rightarrow> remote_entry
     \<Rightarrow> (sync_plan \<times> string list) res"
where
  "plan_delete E local remote rules options rs predeleted prot = (\<lambda>(plan, reported) entry.
     if not_deletable E local rules options rs predeleted entry then Inr (plan, reported)
     else if r_kind entry = Directory \<and> r_relative entry \<in> pr_dirs prot then
       (case pr_by prot (r_relative entry) of
          Some protected \<Rightarrow>
            if list_ex (\<lambda>q. beneath q (r_relative entry)) reported then Inr (plan, reported)
            else
              Inr (plan\<lparr>sp_skipped := sp_skipped plan @
                     [skipped (r_relative entry) (ProtectedDescendant protected)]\<rparr>,
                   reported @ [r_relative entry])
        | None \<Rightarrow> Inr (plan, reported))
     else
       map_r (\<lambda>snapshot.
         (plan\<lparr>sp_post_deletes := sp_post_deletes plan @
            [\<lparr>da_relative = r_relative entry,
              da_local_relative = local_relative (rs_pairs rs) (r_relative entry),
              da_remote_path = r_path entry, da_kind = r_kind entry,
              da_type_conflict = False, da_snapshot = snapshot, da_guard = None\<rparr>]\<rparr>,
          reported))
         (deletion_snapshot E entry (ri_entries remote) (po_compare options)))"

definition guard_of :: "copy_action \<Rightarrow> destination_guard" where
  "guard_of copy =
     \<lparr>dg_remote_path = cp_to_remote_path copy, dg_local = cp_local copy,
      dg_expected_size = cp_expected_size copy,
      dg_expected_mtime = local_mtime_seconds (cp_local copy), dg_md5 = cp_md5 copy\<rparr>"

text \<open>A hash map collected from the copies by their source: a later copy replaces an earlier.\<close>

definition guard_deletions :: "sync_plan \<Rightarrow> sync_plan" where
  "guard_deletions plan =
     (if sp_copies plan = [] then plan
      else
        let by_source = map_of (rev (map (\<lambda>c. (cp_from_relative c, c)) (sp_copies plan))) in
        plan\<lparr>sp_post_deletes :=
          map (\<lambda>d. d\<lparr>da_guard := map_option guard_of (by_source (da_relative d))\<rparr>)
            (sp_post_deletes plan)\<rparr>)"

definition plan_deletions ::
  "text_env \<Rightarrow> local_inventory \<Rightarrow> remote_inventory \<Rightarrow> ignore_rules \<Rightarrow> plan_options \<Rightarrow> resolution
     \<Rightarrow> string set \<Rightarrow> protection \<Rightarrow> sync_plan \<Rightarrow> sync_plan res"
where
  "plan_deletions E local remote rules options rs predeleted prot plan =
     (if \<not> po_delete options then Inr plan
      else
        map_r (\<lambda>(p, _). guard_deletions p)
          (fold_r (plan_delete E local remote rules options rs predeleted prot) (plan, [])
            (om_values (ri_entries remote))))"

section \<open>The order of a plan\<close>

definition by_depth_down :: "('a \<Rightarrow> string) \<Rightarrow> 'a list \<Rightarrow> 'a list" where
  "by_depth_down f xs = sort_key (\<lambda>a. (- int (depth (f a)), f a)) xs"

definition by_depth_up :: "('a \<Rightarrow> string) \<Rightarrow> 'a list \<Rightarrow> 'a list" where
  "by_depth_up f xs = sort_key (\<lambda>a. (depth (f a), f a)) xs"

definition sort_plan :: "sync_plan \<Rightarrow> sync_plan" where
  "sort_plan plan =
     plan\<lparr>sp_pre_deletes := by_depth_down da_relative (sp_pre_deletes plan),
          sp_creates := by_depth_up ca_relative (sp_creates plan),
          sp_copies := sort_key cp_to_relative (sp_copies plan),
          sp_uploads := sort_key (\<lambda>u. l_relative (ua_local u)) (sp_uploads plan),
          sp_post_deletes := by_depth_down da_relative (sp_post_deletes plan)\<rparr>"

section \<open>The whole plan\<close>

definition initial_plan ::
  "local_inventory \<Rightarrow> ignore_rules \<Rightarrow> plan_options \<Rightarrow> skipped_entry list \<Rightarrow> sync_plan"
where
  "initial_plan local rules options skips =
     \<lparr>sp_source_root = li_root local, sp_scope = po_scope options, sp_rules = rules,
      sp_pre_deletes = [], sp_creates = [], sp_copies = [], sp_uploads = [],
      sp_post_deletes = [], sp_renames = [], sp_unchanged = 0, sp_protected = 0,
      sp_upload_bytes = 0, sp_skipped = skips, sp_link_unchecked = 0\<rparr>"

definition plan_root :: "remote_root \<Rightarrow> remote_inventory \<Rightarrow> sync_plan \<Rightarrow> sync_plan res" where
  "plan_root root remote plan =
     (if ri_root_exists remote then Inr plan
      else if root_str root = share_path root then Inl (ShareNotWritable (share_name root))
      else Inr (plan\<lparr>sp_creates := sp_creates plan @
        [\<lparr>ca_relative = [], ca_remote_path = root_str root, ca_reason = MissingRemote\<rparr>]\<rparr>))"

definition check_mount ::
  "text_env \<Rightarrow> local_inventory \<Rightarrow> resolution \<Rightarrow> sync_plan \<Rightarrow> remote_entry \<Rightarrow> sync_plan res"
where
  "check_mount E local rs plan mount =
     (if list_ex (\<lambda>k. prefix (r_relative mount @ [slash]) (remote_relative (rs_pairs rs) k))
           (filter (\<lambda>k. \<not> shield_covers E (rs_folds rs) k) (om_keys (li_entries local)))
      then Inl (ProtectedConflict (r_path mount))
      else Inr plan)"

definition check_limits :: "local_inventory \<Rightarrow> plan_options \<Rightarrow> sync_plan \<Rightarrow> sync_plan res" where
  "check_limits local options plan =
     (if po_delete options \<and> li_files local = 0 \<and> 0 < delete_count plan
         \<and> \<not> po_allow_empty_source options
      then Inl EmptySourceDeletion
      else if po_max_delete options < delete_count plan
      then Inl (DeleteLimit (delete_count plan) (po_max_delete options))
      else Inr plan)"

text \<open>What \<open>build_plan\<close> does before the limits, in its order.\<close>

definition plan_actions ::
  "text_env \<Rightarrow> remote_root \<Rightarrow> local_inventory \<Rightarrow> remote_inventory \<Rightarrow> ignore_rules
     \<Rightarrow> plan_options \<Rightarrow> resolution \<Rightarrow> sync_plan res"
where
  "plan_actions E root local remote rules options rs =
     (case plan_root root remote
             (initial_plan local rules options (rs_skipped rs @ li_skipped local)) of
        Inl e \<Rightarrow> Inl e
      | Inr plan \<Rightarrow>
     (case fold_r (check_mount E local rs) plan
             (filter (\<lambda>e. r_mount e \<noteq> None) (om_values (ri_entries remote))) of
        Inl e \<Rightarrow> Inl e
      | Inr plan \<Rightarrow>
     (case fold_r (plan_entry E root remote rules options rs) (plan, {})
             (om_values (li_entries local)) of
        Inl e \<Rightarrow> Inl e
      | Inr (plan, predeleted) \<Rightarrow>
     (case (if po_compare options = Content
            then replace_uploads_with_server_copies E local remote rules options rs plan
            else Inr plan) of
        Inl e \<Rightarrow> Inl e
      | Inr plan \<Rightarrow>
     (case fold_r (plan_rename E remote rules options rs) plan (rs_renames rs) of
        Inl e \<Rightarrow> Inl e
      | Inr plan \<Rightarrow>
       let prot = protections E remote rules options rs;
           plan = plan\<lparr>sp_protected := sp_protected plan + pr_count prot,
                       sp_skipped := sp_skipped plan @ leftover_skips E options rs\<rparr> in
     (case plan_deletions E local remote rules options rs predeleted prot plan of
        Inl e \<Rightarrow> Inl e
      | Inr plan \<Rightarrow>
          Inr (sort_plan (plan\<lparr>sp_skipped := sort_key sk_relative (sp_skipped plan)\<rparr>))))))))"

definition plan_resolution ::
  "text_env \<Rightarrow> remote_root \<Rightarrow> local_inventory \<Rightarrow> remote_inventory \<Rightarrow> ignore_rules
     \<Rightarrow> plan_options \<Rightarrow> resolution"
where
  "plan_resolution E root local remote rules options =
     resolve E local remote rules (po_delete options) (paths_the_destination_refuses E root local)"

definition build_plan ::
  "text_env \<Rightarrow> remote_root \<Rightarrow> local_inventory \<Rightarrow> remote_inventory \<Rightarrow> ignore_rules
     \<Rightarrow> plan_options \<Rightarrow> sync_plan res"
where
  "build_plan E root local remote rules options =
     bind_r (plan_actions E root local remote rules options
              (plan_resolution E root local remote rules options))
       (check_limits local options)"

end
