(* ===== verification/ResolveFacts.thy ===== *)
theory ResolveFacts
  imports Resolve
begin

text \<open>
  Facts about the spelling resolution (\<open>resolve\<close> of \<open>src/plan.rs\<close>). The shield only grows; it
  covers whole subtrees; every path that the resolution reports as skipped, and every path the
  local walk skipped, is covered by it; without \<open>--delete\<close> no rename is decided; and after
  the pass over the kind conflicts no uncovered local entry meets a remote entry of another kind
  that the run may not replace.
\<close>

section \<open>Coverage\<close>

lemma shield_covers_iff:
  "shield_covers E folds p \<longleftrightarrow> (\<exists>f \<in> folds. at_or_beneath f (portable_fold E p))"
  by (auto simp: shield_covers_def Let_def fold_has_ancestor_in_iff at_or_beneath_def)

lemma shield_covers_mono: "shield_covers E folds p \<Longrightarrow> folds \<subseteq> folds' \<Longrightarrow> shield_covers E folds' p"
  by (auto simp: shield_covers_iff)

lemma shield_covers_own: "portable_fold E p \<in> folds \<Longrightarrow> shield_covers E folds p"
  by (auto simp: shield_covers_iff intro: bexI [of _ "portable_fold E p"])

lemma shield_covers_beneath:
  assumes "text_laws E" and "shield_covers E folds p" and "at_or_beneath p q"
  shows "shield_covers E folds q"
proof -
  have "at_or_beneath (portable_fold E p) (portable_fold E q)"
    using assms(1,3) by (auto simp: at_or_beneath_def portable_fold_beneath)
  with assms(2) show ?thesis
    by (auto simp: shield_covers_iff intro: at_or_beneath_trans)
qed

section \<open>The classes of spellings\<close>

text \<open>Every spelling a class holds folds to the key of the class.\<close>

definition class_spellings :: "spellings \<Rightarrow> string set" where
  "class_spellings c =
     set_option (ss_local c) \<union> set_option (ss_local_other c)
     \<union> set_option (ss_remote c) \<union> set_option (ss_remote_other c)"

definition classes_fold :: "text_env \<Rightarrow> spellings omap \<Rightarrow> bool" where
  "classes_fold E m = (om_wf m \<and> (\<forall>(k, c) \<in> set m. \<forall>s \<in> class_spellings c. portable_fold E s = k))"

lemma note_in_class_spellings:
  "class_spellings (note_in_class b s c) \<subseteq> insert s (class_spellings c)"
proof -
  have kept: "note_spelling (x, y) s = (x', y') \<Longrightarrow>
      set_option x' \<union> set_option y' \<subseteq> insert s (set_option x \<union> set_option y)" for x y x' y'
    by (cases x; cases y) (auto split: if_splits)
  show ?thesis
  proof (cases b)
    case True
    obtain x y where xy: "note_spelling (ss_local c, ss_local_other c) s = (x, y)"
      by (cases "note_spelling (ss_local c, ss_local_other c) s") auto
    with True kept [OF xy] show ?thesis
      by (auto simp: note_in_class_def class_spellings_def)
  next
    case False
    obtain x y where xy: "note_spelling (ss_remote c, ss_remote_other c) s = (x, y)"
      by (cases "note_spelling (ss_remote c, ss_remote_other c) s") auto
    with False kept [OF xy] show ?thesis
      by (auto simp: note_in_class_def class_spellings_def)
  qed
qed

lemma set_om_insert: "set (om_insert k v m) \<subseteq> insert (k, v) (set m)"
  by (induction k v m rule: om_insert.induct) auto

lemma note_class_keeps:
  assumes "classes_fold E m" and "portable_fold E s = k"
  shows "classes_fold E (note_class b (k, s) m)"
proof -
  let ?old = "case om_get m k of None \<Rightarrow> no_spellings | Some c \<Rightarrow> c"
  have "\<forall>t \<in> class_spellings ?old. portable_fold E t = k"
    using assms by (auto simp: classes_fold_def no_spellings_def class_spellings_def
        split: option.splits dest!: om_get_Some_in)
  then have "\<forall>t \<in> class_spellings (note_in_class b s ?old). portable_fold E t = k"
    using note_in_class_spellings [of b s ?old] assms(2) by auto
  moreover have "om_wf (note_class b (k, s) m)"
    using assms(1) by (simp add: classes_fold_def note_class_def om_wf_insert)
  moreover have "set (note_class b (k, s) m) \<subseteq> insert (k, note_in_class b s ?old) (set m)"
    using set_om_insert by (fastforce simp: note_class_def)
  ultimately show ?thesis
    using assms(1) unfolding classes_fold_def by blast
qed

lemma path_cuts_no_slash: "slash \<notin> set s \<Longrightarrow> path_cuts s = [s]"
  by (simp add: path_cuts_def slash_prefixes_rev_ancestors ancestors_no_slash)

lemma path_cuts_append:
  "slash \<notin> set b \<Longrightarrow> path_cuts (a @ slash # b) = path_cuts a @ [a @ slash # b]"
  by (simp add: path_cuts_def slash_prefixes_append_no_slash)

lemma portable_fold_no_slash:
  assumes "text_laws E" and "slash \<notin> set b"
  shows "slash \<notin> set (portable_fold E b)"
proof -
  have "split_on slash (portable_fold E b) = [portable_fold E b]"
    using assms by (simp add: text_laws_def split_on_single)
  then show ?thesis
    using split_on_no_sep [of "portable_fold E b" slash] by (metis list.set_intros(1))
qed

lemma path_cuts_fold:
  "text_laws E \<Longrightarrow> path_cuts (portable_fold E s) = map (portable_fold E) (path_cuts s)"
proof (induction s rule: ancestors.induct)
  case (1 s)
  show ?case
  proof (cases "rsplit_once slash s")
    case None
    then have "slash \<notin> set s"
      by (simp add: rsplit_once_None_iff)
    with 1 show ?thesis
      by (simp add: path_cuts_no_slash portable_fold_no_slash)
  next
    case (Some ab)
    then obtain a b where ab: "rsplit_once slash s = Some (a, b)"
      by (cases ab) auto
    then have s: "s = a @ slash # b" and b: "slash \<notin> set b"
      by (auto simp: rsplit_once_Some_iff)
    have "path_cuts (portable_fold E a) = map (portable_fold E) (path_cuts a)"
      using 1 ab by blast
    then show ?thesis
      using 1 b by (simp add: s path_cuts_append portable_fold_join portable_fold_no_slash)
  qed
qed

lemma fold_note_class_keeps:
  "classes_fold E m \<Longrightarrow> list_all (\<lambda>(k, s). portable_fold E s = k) ps \<Longrightarrow>
   classes_fold E (fold (note_class b) ps m)"
  by (induction ps arbitrary: m) (auto intro: note_class_keeps)

lemma note_path_keeps:
  assumes "text_laws E" and "classes_fold E m"
  shows "classes_fold E (note_path E (p, b) m)"
proof -
  have "list_all (\<lambda>(k, s). portable_fold E s = k)
      (zip (path_cuts (portable_fold E p)) (path_cuts p))"
    by (simp add: path_cuts_fold [OF assms(1)] list_all_iff zip_map1) (auto simp: in_set_zip)
  then show ?thesis
    using assms(2) by (simp add: note_path_def fold_note_class_keeps)
qed

lemma spelling_classes_fold:
  assumes "text_laws E"
  shows "classes_fold E (spelling_classes E local remote rules)"
proof -
  have "classes_fold E m \<Longrightarrow> classes_fold E (fold (note_path E) ps m)" for ps m
    by (induction ps arbitrary: m) (auto intro: note_path_keeps [OF assms])
  moreover have "classes_fold E []"
    by (simp add: classes_fold_def om_wf_def)
  ultimately show ?thesis
    by (simp add: spelling_classes_def)
qed

section \<open>What the resolution reports, it shields\<close>

definition skips_covered :: "text_env \<Rightarrow> resolution \<Rightarrow> bool" where
  "skips_covered E s =
     (\<forall>k \<in> set (rs_skipped s). shield_covers E (rs_folds s) (sk_relative k))"

lemma decide_reports_in_class:
  "k \<in> set (cd_reports (decide_class E local remote delete c)) \<Longrightarrow>
   sk_relative k \<in> class_spellings c"
  by (auto simp: decide_class_def decide_two_remote_def decide_rename_def nothing_to_decide_def
      skipped_def class_spellings_def Let_def split: option.splits if_splits)

lemma decide_no_renames:
  "cd_renames (decide_class E local remote False c) = []"
  by (auto simp: decide_class_def decide_two_remote_def decide_rename_def nothing_to_decide_def
      Let_def split: option.splits)

lemma resolve_step_folds: "rs_folds s \<subseteq> rs_folds (resolve_step E local remote delete kc s)"
  by (cases kc) (auto simp: resolve_step_def Let_def)

lemma resolve_step_covered:
  assumes "\<forall>t \<in> class_spellings c. portable_fold E t = k" and "skips_covered E s"
  shows "skips_covered E (resolve_step E local remote delete (k, c) s)"
  unfolding skips_covered_def
proof
  let ?s' = "resolve_step E local remote delete (k, c) s"
  let ?reports = "cd_reports (decide_class E local remote delete c)"
  fix x
  assume x: "x \<in> set (rs_skipped ?s')"
  show "shield_covers E (rs_folds ?s') (sk_relative x)"
  proof (cases "x \<in> set (rs_skipped s)")
    case True
    then show ?thesis
      using assms(2) resolve_step_folds [of s E local remote delete "(k, c)"]
      by (auto simp: skips_covered_def intro: shield_covers_mono)
  next
    case False
    with x have "x \<in> set ?reports" and "k \<in> rs_folds ?s'"
      by (auto simp: resolve_step_def Let_def split: if_splits)
    then show ?thesis
      using assms(1) by (auto intro!: shield_covers_own dest: decide_reports_in_class)
  qed
qed

definition resolution_start ::
  "text_env \<Rightarrow> local_inventory \<Rightarrow> skipped_entry list \<Rightarrow> resolution"
where
  "resolution_start E local refused =
     \<lparr>rs_pairs = no_pairs,
      rs_folds = set (map (\<lambda>s. portable_fold E (sk_relative s)) (li_skipped local @ refused)),
      rs_skipped = refused, rs_renames = [], rs_leftovers = []\<rparr>"

definition resolution_classes ::
  "text_env \<Rightarrow> local_inventory \<Rightarrow> remote_inventory \<Rightarrow> ignore_rules \<Rightarrow> bool
     \<Rightarrow> skipped_entry list \<Rightarrow> resolution"
where
  "resolution_classes E local remote rules delete refused =
     fold (resolve_step E local remote delete) (spelling_classes E local remote rules)
       (resolution_start E local refused)"

lemma resolve_spellings_fields:
  "rs_folds (resolve_spellings E local remote rules delete refused) =
     rs_folds (resolution_classes E local remote rules delete refused)"
  "rs_skipped (resolve_spellings E local remote rules delete refused) =
     rs_skipped (resolution_classes E local remote rules delete refused)"
  "set (rs_renames (resolve_spellings E local remote rules delete refused)) \<subseteq>
     set (rs_renames (resolution_classes E local remote rules delete refused))"
  by (auto simp: resolve_spellings_def resolution_classes_def resolution_start_def Let_def
      deepest_first_def)

lemma resolution_classes_folds:
  "rs_folds (resolution_start E local refused) \<subseteq>
     rs_folds (resolution_classes E local remote rules delete refused)"
  unfolding resolution_classes_def
  by (rule fold_invariant [where Q = "\<lambda>_. True"])
    (auto dest: resolve_step_folds [THEN subsetD])

lemma resolution_classes_covered:
  assumes "text_laws E"
  shows "skips_covered E (resolution_classes E local remote rules delete refused)"
  unfolding resolution_classes_def
proof (rule fold_invariant)
  let ?Q = "\<lambda>(k, c). \<forall>t \<in> class_spellings c. portable_fold E t = k"
  show "?Q kc" if "kc \<in> set (spelling_classes E local remote rules)" for kc
    using that spelling_classes_fold [OF assms, of local remote rules]
    by (auto simp: classes_fold_def)
  show "skips_covered E (resolution_start E local refused)"
    by (auto simp: skips_covered_def resolution_start_def intro!: shield_covers_own)
  show "skips_covered E (resolve_step E local remote delete kc s)"
    if "?Q kc" and "skips_covered E s" for kc s
    using that by (cases kc) (simp add: resolve_step_covered)
qed

lemma resolution_classes_no_renames:
  "rs_renames (resolution_classes E local remote rules False refused) = []"
  unfolding resolution_classes_def
  by (rule fold_invariant [where Q = "\<lambda>_. True"])
    (auto simp: resolution_start_def resolve_step_def Let_def decide_no_renames)

section \<open>The two passes that extend the shield\<close>

lemma shield_excluded_step_folds: "rs_folds s \<subseteq> rs_folds (shield_excluded_step E rules e s)"
  by (auto simp: shield_excluded_step_def Let_def)

lemma shield_excluded_step_frame:
  "rs_pairs (shield_excluded_step E rules e s) = rs_pairs s"
  "rs_skipped (shield_excluded_step E rules e s) = rs_skipped s"
  "rs_renames (shield_excluded_step E rules e s) = rs_renames s"
  "rs_leftovers (shield_excluded_step E rules e s) = rs_leftovers s"
  by (auto simp: shield_excluded_step_def Let_def)

lemma shield_paired_exclusions_frame:
  "rs_folds s \<subseteq> rs_folds (shield_paired_exclusions E local rules s)"
  "rs_pairs (shield_paired_exclusions E local rules s) = rs_pairs s"
  "rs_skipped (shield_paired_exclusions E local rules s) = rs_skipped s"
  "rs_renames (shield_paired_exclusions E local rules s) = rs_renames s"
proof -
  have "rs_folds s \<subseteq> rs_folds (fold (shield_excluded_step E rules) es s) \<and>
      rs_pairs (fold (shield_excluded_step E rules) es s) = rs_pairs s \<and>
      rs_skipped (fold (shield_excluded_step E rules) es s) = rs_skipped s \<and>
      rs_renames (fold (shield_excluded_step E rules) es s) = rs_renames s" for es
    by (rule fold_invariant [where Q = "\<lambda>_. True"])
      (auto simp: shield_excluded_step_frame dest: shield_excluded_step_folds [THEN subsetD])
  then show
    "rs_folds s \<subseteq> rs_folds (shield_paired_exclusions E local rules s)"
    "rs_pairs (shield_paired_exclusions E local rules s) = rs_pairs s"
    "rs_skipped (shield_paired_exclusions E local rules s) = rs_skipped s"
    "rs_renames (shield_paired_exclusions E local rules s) = rs_renames s"
    by (simp_all add: shield_paired_exclusions_def)
qed

lemma shield_conflict_step_frame:
  "rs_folds s \<subseteq> rs_folds (shield_conflict_step E remote rules delete e s)"
  "rs_pairs (shield_conflict_step E remote rules delete e s) = rs_pairs s"
  "rs_renames (shield_conflict_step E remote rules delete e s) = rs_renames s"
  by (auto simp: shield_conflict_step_def shield_with_def split: option.splits)

lemma shield_conflict_step_covered:
  "skips_covered E s \<Longrightarrow> skips_covered E (shield_conflict_step E remote rules delete e s)"
  by (auto simp: shield_conflict_step_def shield_with_def skips_covered_def skipped_def
      split: option.splits intro: shield_covers_own
        shield_covers_mono [where folds = "rs_folds s"])

text \<open>
  A local entry that the shield leaves uncovered does not meet a mount point, and where it meets
  an entry of the other kind the run may replace that entry.
\<close>

definition conflict_free ::
  "text_env \<Rightarrow> remote_inventory \<Rightarrow> bool \<Rightarrow> resolution \<Rightarrow> local_entry \<Rightarrow> bool"
where
  "conflict_free E remote delete s e =
     (shield_covers E (rs_folds s) (l_relative e) \<or>
      (case om_get (ri_entries remote) (remote_relative (rs_pairs s) (l_relative e)) of
         None \<Rightarrow> True
       | Some r \<Rightarrow> r_mount r = None \<and> (l_kind e = r_kind r \<or> delete)))"

lemma shield_conflict_step_settles:
  "conflict_free E remote delete (shield_conflict_step E remote rules delete e s) e"
proof -
  have "shield_covers E (insert (portable_fold E (l_relative e)) F) (l_relative e)" for F
    by (rule shield_covers_own) simp
  then show ?thesis
    by (auto simp: shield_conflict_step_def shield_with_def conflict_free_def conflict_detail_def
        split: option.splits)
qed

lemma conflict_free_mono:
  "conflict_free E remote delete s e \<Longrightarrow>
   conflict_free E remote delete (shield_conflict_step E remote rules delete e' s) e"
  using shield_conflict_step_frame(1) [of s E remote rules delete e']
    shield_conflict_step_frame(2) [of E remote rules delete e' s]
  by (auto simp: conflict_free_def intro: shield_covers_mono)

lemma conflict_pass_settles:
  "e \<in> set es \<Longrightarrow> conflict_free E remote delete (fold (shield_conflict_step E remote rules delete) es s) e"
proof (induction es arbitrary: s)
  case Nil
  then show ?case by simp
next
  case (Cons x es)
  have mono: "conflict_free E remote delete t e \<Longrightarrow>
      conflict_free E remote delete (fold (shield_conflict_step E remote rules delete) es t) e" for t
    by (rule fold_invariant [where Q = "\<lambda>_. True"]) (auto intro: conflict_free_mono)
  with Cons show ?case
    by (auto intro: shield_conflict_step_settles)
qed

section \<open>The resolution as a whole\<close>

lemma shield_type_conflicts_frame:
  "rs_folds s \<subseteq> rs_folds (shield_type_conflicts E local remote rules delete s)"
  "rs_pairs (shield_type_conflicts E local remote rules delete s) = rs_pairs s"
  "rs_renames (shield_type_conflicts E local remote rules delete s) = rs_renames s"
  "skips_covered E s \<Longrightarrow> skips_covered E (shield_type_conflicts E local remote rules delete s)"
proof -
  let ?f = "shield_conflict_step E remote rules delete"
  have "rs_folds s \<subseteq> rs_folds (fold ?f es s) \<and> rs_pairs (fold ?f es s) = rs_pairs s \<and>
      rs_renames (fold ?f es s) = rs_renames s" for es
    by (rule fold_invariant [where Q = "\<lambda>_. True"])
      (auto simp: shield_conflict_step_frame dest: shield_conflict_step_frame(1) [THEN subsetD])
  then show
    "rs_folds s \<subseteq> rs_folds (shield_type_conflicts E local remote rules delete s)"
    "rs_pairs (shield_type_conflicts E local remote rules delete s) = rs_pairs s"
    "rs_renames (shield_type_conflicts E local remote rules delete s) = rs_renames s"
    by (simp_all add: shield_type_conflicts_def)
  show "skips_covered E s \<Longrightarrow> skips_covered E (shield_type_conflicts E local remote rules delete s)"
    unfolding shield_type_conflicts_def
    by (rule fold_invariant [where Q = "\<lambda>_. True"]) (auto intro: shield_conflict_step_covered)
qed

lemma resolve_folds:
  "rs_folds (resolution_classes E local remote rules delete refused) \<subseteq>
     rs_folds (resolve E local remote rules delete refused)"
proof -
  have "rs_folds s \<subseteq>
      rs_folds (shield_type_conflicts E local remote rules delete
        (shield_paired_exclusions E local rules (s\<lparr>rs_pairs := p\<rparr>)))" for s p
    using subset_trans [OF shield_paired_exclusions_frame(1) shield_type_conflicts_frame(1)]
    by (metis resolution.select_convs(2) resolution.surjective resolution.update_convs(1))
  then show ?thesis
    by (simp add: resolve_def Let_def resolve_spellings_fields(1) [symmetric])
qed

lemma resolve_start_folds:
  "rs_folds (resolution_start E local refused) \<subseteq>
     rs_folds (resolve E local remote rules delete refused)"
  by (rule subset_trans [OF resolution_classes_folds resolve_folds])

lemma resolve_covers_skips:
  assumes "text_laws E"
  shows "skips_covered E (resolve E local remote rules delete refused)"
proof -
  have "skips_covered E (s\<lparr>rs_pairs := p\<rparr>) = skips_covered E s" for s p
    by (simp add: skips_covered_def)
  moreover have "skips_covered E s \<Longrightarrow> skips_covered E (shield_paired_exclusions E local rules s)" for s
    using shield_covers_mono [OF _ shield_paired_exclusions_frame(1) [of s E local rules]]
    by (auto simp: skips_covered_def shield_paired_exclusions_frame)
  moreover have "skips_covered E (resolve_spellings E local remote rules delete refused)"
    using resolution_classes_covered [OF assms]
    by (simp add: skips_covered_def resolve_spellings_fields)
  ultimately show ?thesis
    by (simp add: resolve_def Let_def shield_type_conflicts_frame(4))
qed

lemma resolve_covers_local_skips:
  "k \<in> set (li_skipped local) \<Longrightarrow>
   shield_covers E (rs_folds (resolve E local remote rules delete refused)) (sk_relative k)"
  by (rule shield_covers_own, rule subsetD [OF resolve_start_folds])
    (auto simp: resolution_start_def)

lemma resolve_covers_refused:
  "k \<in> set refused \<Longrightarrow>
   shield_covers E (rs_folds (resolve E local remote rules delete refused)) (sk_relative k)"
  by (rule shield_covers_own, rule subsetD [OF resolve_start_folds])
    (auto simp: resolution_start_def)

lemma resolve_no_renames: "rs_renames (resolve E local remote rules False refused) = []"
  using resolve_spellings_fields(3) [of E local remote rules False refused]
  by (simp add: resolve_def Let_def shield_type_conflicts_frame shield_paired_exclusions_frame
      resolution_classes_no_renames)

lemma resolve_conflict_free:
  "e \<in> set (om_values (li_entries local)) \<Longrightarrow>
   conflict_free E remote delete (resolve E local remote rules delete refused) e"
  by (simp add: resolve_def Let_def shield_type_conflicts_def conflict_pass_settles)

section \<open>Kept entries\<close>

text \<open>What a plan must leave as it is: protected, or covered by the shield.\<close>

definition kept_entry :: "text_env \<Rightarrow> ignore_rules \<Rightarrow> resolution \<Rightarrow> remote_entry \<Rightarrow> bool" where
  "kept_entry E rules rs r =
     (is_protected E rules (rs_pairs rs) r \<or> shield_covers E (rs_folds rs) (r_relative r))"

end
