(* ===== verification/PlanFacts.thy ===== *)
theory PlanFacts
  imports Planner ResolveFacts
begin

text \<open>
  What \<open>build_plan\<close> promises. The loop over the source is refined to a specification per
  entry (\<open>upload_for\<close>, \<open>create_for\<close>, \<open>predeletes_for\<close>); the loops over the remote
  entries are instances of \<open>loop_body\<close>; the stages of a successful run are taken apart once
  (\<open>build_plan_stages\<close>) and every property rests on the facts about its stages.
\<close>

section \<open>The specification of one source entry\<close>

definition planned_upload ::
  "text_env \<Rightarrow> remote_inventory \<Rightarrow> plan_options \<Rightarrow> resolution \<Rightarrow> local_entry
     \<Rightarrow> (change_reason \<times> remote_snapshot option) option"
where
  "planned_upload E remote options rs e =
     (if shield_covers E (rs_folds rs) (l_relative e) \<or> l_kind e = Directory then None
      else
        (case remote_of (rs_pairs rs) remote (l_relative e) of
           None \<Rightarrow> Some (MissingRemote, None)
         | Some r \<Rightarrow>
             if r_kind r = Directory then Some (TypeReplaced, None)
             else map_option (\<lambda>reason. (reason, Some (overwritten_snapshot r)))
                    (compare_files e r (po_compare options))))"

definition planned_create ::
  "text_env \<Rightarrow> remote_inventory \<Rightarrow> resolution \<Rightarrow> local_entry \<Rightarrow> change_reason option"
where
  "planned_create E remote rs e =
     (if shield_covers E (rs_folds rs) (l_relative e) \<or> l_kind e = File then None
      else
        (case remote_of (rs_pairs rs) remote (l_relative e) of
           None \<Rightarrow> Some MissingRemote
         | Some r \<Rightarrow> if r_kind r = File then Some TypeReplaced else None))"

definition planned_predeletes ::
  "text_env \<Rightarrow> remote_inventory \<Rightarrow> resolution \<Rightarrow> local_entry \<Rightarrow> remote_entry list"
where
  "planned_predeletes E remote rs e =
     (if shield_covers E (rs_folds rs) (l_relative e) then []
      else
        (case remote_of (rs_pairs rs) remote (l_relative e) of
           None \<Rightarrow> []
         | Some r \<Rightarrow>
             if l_kind e = r_kind r then []
             else if l_kind e = Directory then [r]
             else remote_subtree (ri_entries remote) (r_relative r)))"

definition counts_unchanged ::
  "text_env \<Rightarrow> remote_inventory \<Rightarrow> plan_options \<Rightarrow> resolution \<Rightarrow> local_entry \<Rightarrow> bool"
where
  "counts_unchanged E remote options rs e =
     (\<not> shield_covers E (rs_folds rs) (l_relative e) \<and> l_kind e = File \<and>
      (case remote_of (rs_pairs rs) remote (l_relative e) of
         None \<Rightarrow> False
       | Some r \<Rightarrow> r_kind r = File \<and> compare_files e r (po_compare options) = None))"

definition destination_of :: "remote_root \<Rightarrow> resolution \<Rightarrow> local_entry \<Rightarrow> string res" where
  "destination_of root rs e = root_join root (remote_relative (rs_pairs rs) (l_relative e))"

definition upload_for ::
  "text_env \<Rightarrow> remote_root \<Rightarrow> remote_inventory \<Rightarrow> plan_options \<Rightarrow> resolution \<Rightarrow> local_entry
     \<Rightarrow> upload_action list"
where
  "upload_for E root remote options rs e =
     (case planned_upload E remote options rs e of
        None \<Rightarrow> []
      | Some (reason, expected) \<Rightarrow>
          (case destination_of root rs e of
             Inl _ \<Rightarrow> []
           | Inr path \<Rightarrow>
               [\<lparr>ua_local = e, ua_remote_path = path, ua_reason = reason,
                 ua_expected = expected\<rparr>]))"

definition create_for ::
  "text_env \<Rightarrow> remote_root \<Rightarrow> remote_inventory \<Rightarrow> resolution \<Rightarrow> local_entry \<Rightarrow> create_action list"
where
  "create_for E root remote rs e =
     (case planned_create E remote rs e of
        None \<Rightarrow> []
      | Some reason \<Rightarrow>
          (case destination_of root rs e of
             Inl _ \<Rightarrow> []
           | Inr path \<Rightarrow>
               [\<lparr>ca_relative = l_relative e, ca_remote_path = path, ca_reason = reason\<rparr>]))"

section \<open>Deletions before the writes\<close>

text \<open>Two plans that agree in everything but the deletions scheduled before the writes.\<close>

definition same_but_predeletes :: "sync_plan \<Rightarrow> sync_plan \<Rightarrow> bool" where
  "same_but_predeletes p q = (p\<lparr>sp_pre_deletes := []\<rparr> = q\<lparr>sp_pre_deletes := []\<rparr>)"

lemma same_but_predeletes_fields:
  assumes "same_but_predeletes p q"
  shows "sp_uploads p = sp_uploads q" "sp_creates p = sp_creates q" "sp_copies p = sp_copies q"
    "sp_post_deletes p = sp_post_deletes q" "sp_renames p = sp_renames q"
    "sp_unchanged p = sp_unchanged q" "sp_skipped p = sp_skipped q"
    "sp_upload_bytes p = sp_upload_bytes q"
    "sp_source_root p = sp_source_root q" "sp_scope p = sp_scope q" "sp_rules p = sp_rules q"
    "sp_protected p = sp_protected q"
    "sp_link_unchecked p = sp_link_unchecked q"
  using assms unfolding same_but_predeletes_def
  by (cases p; cases q; simp)+

definition predelete_of ::
  "text_env \<Rightarrow> correspondence \<Rightarrow> remote_entry omap \<Rightarrow> compare_mode \<Rightarrow> remote_entry
     \<Rightarrow> delete_action \<Rightarrow> bool"
where
  "predelete_of E pairs entries compare r d =
     (da_relative d = r_relative r \<and> da_remote_path d = r_path r \<and> da_kind d = r_kind r \<and>
      da_type_conflict d \<and> da_guard d = None \<and>
      deletion_snapshot E r entries compare = Inr (da_snapshot d))"

text \<open>
  What the calls of \<open>push_predelete\<close> over the entries of \<open>A\<close> have done to a plan \<open>p\<close>:
  nothing but deletions of those entries, each path once, and the set of paths is the log.
\<close>

definition predeleted_from ::
  "(remote_entry \<Rightarrow> delete_action \<Rightarrow> bool) \<Rightarrow> remote_entry set \<Rightarrow> sync_plan \<Rightarrow> plan_state \<Rightarrow> bool"
where
  "predeleted_from P A p = (\<lambda>(q, _).
     same_but_predeletes p q \<and>
     (\<forall>d \<in> set (sp_pre_deletes q). d \<in> set (sp_pre_deletes p) \<or> (\<exists>r \<in> A. P r d)))"

definition logged :: "plan_state \<Rightarrow> bool" where
  "logged = (\<lambda>(p, predeleted).
     predeleted = set (map da_relative (sp_pre_deletes p)) \<and>
     distinct (map da_relative (sp_pre_deletes p)))"

lemma predeleted_from_self: "predeleted_from P A p (p, pre)"
  by (simp add: predeleted_from_def same_but_predeletes_def)

lemma push_predelete_keeps:
  assumes "predeleted_from (predelete_of E pairs entries compare) A p s" and "r \<in> A"
    and "push_predelete E pairs entries compare s r = Inr s'"
  shows "predeleted_from (predelete_of E pairs entries compare) A p s'"
proof -
  obtain q pre where s: "s = (q, pre)"
    by (cases s)
  show ?thesis
    using assms
    by (auto simp: s push_predelete_def predeleted_from_def same_but_predeletes_def
        predelete_of_def split: if_splits)
qed

lemma push_predelete_logged:
  "logged s \<Longrightarrow> push_predelete E pairs entries compare s r = Inr s' \<Longrightarrow> logged s'"
  by (cases s) (auto simp: push_predelete_def logged_def split: if_splits)

interpretation predelete_loop: loop_body
  "push_predelete E pairs entries compare"
  "predeleted_from (predelete_of E pairs entries compare) A p"
  "\<lambda>r. r \<in> A" for E pairs entries compare p A
  by unfold_locales (rule push_predelete_keeps)

interpretation predelete_log: loop_body
  "push_predelete E pairs entries compare" logged "\<lambda>_. True" for E pairs entries compare
  by unfold_locales (rule push_predelete_logged)

lemma predelete_fold:
  assumes "fold_r (push_predelete E pairs entries compare) (p, pre) rs = Inr (p', pre')"
  shows "predeleted_from (predelete_of E pairs entries compare) (set rs) p (p', pre')"
    and "logged (p, pre) \<Longrightarrow> logged (p', pre')"
  using predelete_loop.fold_keeps [OF predeleted_from_self _ assms]
    predelete_log.fold_keeps [OF _ _ assms]
  by (simp_all add: list_all_iff)

section \<open>One pass of the loop over the source\<close>

lemma schedule_create_Inr [simp]:
  "schedule_create root e rel reason p = Inr p' \<longleftrightarrow>
     (\<exists>path. root_join root rel = Inr path \<and>
        p' = p\<lparr>sp_creates := sp_creates p @
               [\<lparr>ca_relative = l_relative e, ca_remote_path = path, ca_reason = reason\<rparr>]\<rparr>)"
  by (auto simp: schedule_create_def)

lemma schedule_upload_Inr [simp]:
  "schedule_upload root e rel reason expected p = Inr p' \<longleftrightarrow>
     (\<exists>path. root_join root rel = Inr path \<and>
        p' = p\<lparr>sp_upload_bytes := u64_sat_add (sp_upload_bytes p) (l_size e),
               sp_uploads := sp_uploads p @
                 [\<lparr>ua_local = e, ua_remote_path = path, ua_reason = reason,
                   ua_expected = expected\<rparr>]\<rparr>)"
  by (auto simp: schedule_upload_def)

text \<open>What one pass adds to the plan, and what it leaves alone.\<close>

definition entry_pass ::
  "text_env \<Rightarrow> remote_root \<Rightarrow> remote_inventory \<Rightarrow> ignore_rules \<Rightarrow> plan_options \<Rightarrow> resolution
     \<Rightarrow> local_entry \<Rightarrow> sync_plan \<Rightarrow> sync_plan \<Rightarrow> bool"
where
  "entry_pass E root remote rules options rs e p p' =
     (sp_uploads p' = sp_uploads p @ upload_for E root remote options rs e \<and>
      sp_creates p' = sp_creates p @ create_for E root remote rs e \<and>
      sp_unchanged p' = sp_unchanged p + (if counts_unchanged E remote options rs e then 1 else 0) \<and>
      sp_copies p' = sp_copies p \<and> sp_post_deletes p' = sp_post_deletes p \<and>
      sp_renames p' = sp_renames p \<and> sp_skipped p' = sp_skipped p \<and>
      (planned_upload E remote options rs e \<noteq> None \<or> planned_create E remote rs e \<noteq> None \<longrightarrow>
        (\<exists>path. destination_of root rs e = Inr path)) \<and>
      (\<forall>d \<in> set (sp_pre_deletes p'). d \<in> set (sp_pre_deletes p) \<or>
        (\<exists>r \<in> set (planned_predeletes E remote rs e).
           predelete_of E (rs_pairs rs) (ri_entries remote) (po_compare options) r d)) \<and>
      (planned_predeletes E remote rs e \<noteq> [] \<longrightarrow> po_delete options) \<and>
      (l_kind e = File \<longrightarrow>
        (\<forall>r \<in> set (planned_predeletes E remote rs e). \<not> kept_entry E rules rs r)))"

lemmas entry_specs =
  upload_for_def create_for_def planned_upload_def planned_create_def planned_predeletes_def
  counts_unchanged_def remote_of_def destination_of_def

lemma entry_pass_missing:
  assumes "\<not> shield_covers E (rs_folds rs) (l_relative e)"
    and "om_get (ri_entries remote) (remote_relative (rs_pairs rs) (l_relative e)) = None"
    and "schedule_missing root e (remote_relative (rs_pairs rs) (l_relative e)) p = Inr p'"
  shows "entry_pass E root remote rules options rs e p p'"
  using assms
  by (auto simp: entry_pass_def entry_specs schedule_missing_def split: entry_kind.splits)

lemma entry_pass_same_kind:
  assumes "\<not> shield_covers E (rs_folds rs) (l_relative e)"
    and "om_get (ri_entries remote) (remote_relative (rs_pairs rs) (l_relative e)) = Some r"
    and "l_kind e = File" "r_kind r = File"
    and "plan_same_kind root options e (remote_relative (rs_pairs rs) (l_relative e)) r p = Inr p'"
  shows "entry_pass E root remote rules options rs e p p'"
  using assms
  by (auto simp: entry_pass_def entry_specs plan_same_kind_def split: option.splits)

lemma entry_pass_file_over_directory:
  assumes "\<not> shield_covers E (rs_folds rs) (l_relative e)"
    and "om_get (ri_entries remote) (remote_relative (rs_pairs rs) (l_relative e)) = Some r"
    and "l_kind e = File" "r_kind r = Directory" "po_delete options"
    and "plan_file_over_directory E root remote rules options rs e
           (remote_relative (rs_pairs rs) (l_relative e)) r (p, pre) = Inr (p', pre')"
  shows "entry_pass E root remote rules options rs e p p'"
    and "logged (p, pre) \<Longrightarrow> logged (p', pre')"
proof -
  obtain q where f: "fold_r (push_predelete E (rs_pairs rs) (ri_entries remote) (po_compare options))
      (p, pre) (remote_subtree (ri_entries remote) (r_relative r)) = Inr (q, pre')"
    and p': "schedule_upload root e (remote_relative (rs_pairs rs) (l_relative e)) TypeReplaced None q
      = Inr p'"
    using assms(6) by (auto simp: plan_file_over_directory_def Let_def split: if_splits)
  have "\<forall>c \<in> set (remote_subtree (ri_entries remote) (r_relative r)). \<not> kept_entry E rules rs c"
    using assms(6)
    by (auto simp: plan_file_over_directory_def Let_def list_ex_iff kept_entry_def split: if_splits)
  moreover have "predeleted_from (predelete_of E (rs_pairs rs) (ri_entries remote) (po_compare options))
      (set (remote_subtree (ri_entries remote) (r_relative r))) p (q, pre')"
    using f by (rule predelete_fold(1))
  ultimately show "entry_pass E root remote rules options rs e p p'"
    using assms(1-5) p'
    by (auto simp: entry_pass_def entry_specs predeleted_from_def
        dest: same_but_predeletes_fields)
  show "logged (p', pre')" if "logged (p, pre)"
    using predelete_fold(2) [OF f that] p' by (auto simp: logged_def)
qed

lemma entry_pass_directory_over_file:
  assumes "\<not> shield_covers E (rs_folds rs) (l_relative e)"
    and "om_get (ri_entries remote) (remote_relative (rs_pairs rs) (l_relative e)) = Some r"
    and "l_kind e = Directory" "r_kind r = File" "po_delete options"
    and "plan_directory_over_file E root remote options rs e
           (remote_relative (rs_pairs rs) (l_relative e)) r (p, pre) = Inr (p', pre')"
  shows "entry_pass E root remote rules options rs e p p'"
    and "logged (p, pre) \<Longrightarrow> logged (p', pre')"
proof -
  obtain q where f: "push_predelete E (rs_pairs rs) (ri_entries remote) (po_compare options)
      (p, pre) r = Inr (q, pre')"
    and p': "schedule_create root e (remote_relative (rs_pairs rs) (l_relative e)) TypeReplaced q
      = Inr p'"
    using assms(6) by (auto simp: plan_directory_over_file_def)
  have "predeleted_from (predelete_of E (rs_pairs rs) (ri_entries remote) (po_compare options))
      {r} p (q, pre')"
    using push_predelete_keeps [OF predeleted_from_self _ f] by simp
  with assms(1-5) p' show "entry_pass E root remote rules options rs e p p'"
    by (auto simp: entry_pass_def entry_specs predeleted_from_def
        dest: same_but_predeletes_fields)
  show "logged (p', pre')" if "logged (p, pre)"
    using push_predelete_logged [OF that f] p' by (auto simp: logged_def)
qed

lemma entry_pass_nothing:
  assumes "shield_covers E (rs_folds rs) (l_relative e) \<or>
      (l_kind e = Directory \<and> (\<exists>r. remote_of (rs_pairs rs) remote (l_relative e) = Some r \<and>
        r_kind r = Directory))"
  shows "entry_pass E root remote rules options rs e p p"
  using assms by (auto simp: entry_pass_def entry_specs)

lemma plan_entry_pass:
  assumes "plan_entry E root remote rules options rs (p, pre) e = Inr (p', pre')"
  shows "entry_pass E root remote rules options rs e p p' \<and> (logged (p, pre) \<longrightarrow> logged (p', pre'))"
proof (cases "shield_covers E (rs_folds rs) (l_relative e)")
  case True
  with assms show ?thesis
    by (auto simp: plan_entry_def entry_pass_nothing)
next
  case False
  note uncovered = this
  let ?rel = "remote_relative (rs_pairs rs) (l_relative e)"
  show ?thesis
  proof (cases "om_get (ri_entries remote) ?rel")
    case None
    with assms uncovered have "schedule_missing root e ?rel p = Inr p'" and "pre' = pre"
      by (auto simp: plan_entry_def Let_def)
    moreover from this have "sp_pre_deletes p' = sp_pre_deletes p"
      by (auto simp: schedule_missing_def split: entry_kind.splits)
    ultimately show ?thesis
      using uncovered None by (simp add: entry_pass_missing logged_def)
  next
    case (Some r)
    consider (dirs) "l_kind e = Directory" "r_kind r = Directory"
      | (files) "l_kind e = File" "r_kind r = File"
      | (over_dir) "l_kind e = File" "r_kind r = Directory"
      | (over_file) "l_kind e = Directory" "r_kind r = File"
      by (cases "l_kind e"; cases "r_kind r") auto
    then show ?thesis
    proof cases
      case dirs
      with assms uncovered Some show ?thesis
        by (auto simp: plan_entry_def Let_def remote_of_def intro!: entry_pass_nothing)
    next
      case files
      with assms uncovered Some have same: "plan_same_kind root options e ?rel r p = Inr p'" "pre' = pre"
        by (auto simp: plan_entry_def Let_def)
      moreover from same have "sp_pre_deletes p' = sp_pre_deletes p"
        by (auto simp: plan_same_kind_def split: option.splits)
      ultimately show ?thesis
        using uncovered Some files by (simp add: entry_pass_same_kind logged_def)
    next
      case over_dir
      with assms uncovered Some have "po_delete options"
        and "plan_file_over_directory E root remote rules options rs e ?rel r (p, pre) = Inr (p', pre')"
        by (auto simp: plan_entry_def Let_def split: if_splits)
      with uncovered Some over_dir show ?thesis
        by (blast intro: entry_pass_file_over_directory)
    next
      case over_file
      with assms uncovered Some have "po_delete options"
        and "plan_directory_over_file E root remote options rs e ?rel r (p, pre) = Inr (p', pre')"
        by (auto simp: plan_entry_def Let_def split: if_splits)
      with uncovered Some over_file show ?thesis
        by (blast intro: entry_pass_directory_over_file)
    qed
  qed
qed

section \<open>The loop over the source\<close>

interpretation entry_log: loop_body
  "plan_entry E root remote rules options rs" logged "\<lambda>_. True"
  for E root remote rules options rs
  by unfold_locales (metis plan_entry_pass surj_pair)

text \<open>
  Every source file the shield leaves uncovered is counted once: as unchanged or as an upload.
\<close>

definition is_payload_file :: "text_env \<Rightarrow> resolution \<Rightarrow> local_entry \<Rightarrow> bool" where
  "is_payload_file E rs e = (l_kind e = File \<and> \<not> shield_covers E (rs_folds rs) (l_relative e))"

lemma entry_pass_counts:
  assumes "entry_pass E root remote rules options rs e p p'"
  shows "sp_unchanged p' + length (sp_uploads p') =
    sp_unchanged p + length (sp_uploads p) + (if is_payload_file E rs e then 1 else 0)"
proof -
  have "length (upload_for E root remote options rs e) =
      (if planned_upload E remote options rs e = None then 0 else 1)"
    using assms by (auto simp: upload_for_def entry_pass_def split: option.splits sum.splits)
  moreover have "is_payload_file E rs e \<longleftrightarrow>
      (planned_upload E remote options rs e \<noteq> None) \<noteq> counts_unchanged E remote options rs e"
    by (cases "l_kind e")
      (auto simp: is_payload_file_def planned_upload_def counts_unchanged_def split: option.splits
        entry_kind.splits, (metis entry_kind.exhaust)+)
  moreover have "\<not> (planned_upload E remote options rs e \<noteq> None \<and> counts_unchanged E remote options rs e)"
    by (auto simp: planned_upload_def counts_unchanged_def split: option.splits)
  ultimately show ?thesis
    using assms by (auto simp: entry_pass_def)
qed

interpretation entry_count: counting_body
  "plan_entry E root remote rules options rs"
  "\<lambda>s. sp_unchanged (fst s) + length (sp_uploads (fst s))"
  "\<lambda>e. if is_payload_file E rs e then 1 else 0"
  for E root remote rules options rs
proof
  fix s e s'
  assume "plan_entry E root remote rules options rs s e = Inr s'"
  then have "entry_pass E root remote rules options rs e (fst s) (fst s')"
    using plan_entry_pass [of E root remote rules options rs "fst s" "snd s" e "fst s'" "snd s'"]
    by simp
  then show "sp_unchanged (fst s') + length (sp_uploads (fst s')) =
      sp_unchanged (fst s) + length (sp_uploads (fst s)) + (if is_payload_file E rs e then 1 else 0)"
    by (rule entry_pass_counts)
qed

text \<open>The plan after the loop, as what the specification of the entries adds to it.\<close>

lemma plan_entries:
  assumes "fold_r (plan_entry E root remote rules options rs) (p, pre) es = Inr (p', pre')"
  shows "sp_uploads p' = sp_uploads p @ concat (map (upload_for E root remote options rs) es)"
    and "sp_creates p' = sp_creates p @ concat (map (create_for E root remote rs) es)"
    and "sp_copies p' = sp_copies p" and "sp_post_deletes p' = sp_post_deletes p"
    and "sp_renames p' = sp_renames p" and "sp_skipped p' = sp_skipped p"
    and "\<forall>e \<in> set es. planned_upload E remote options rs e \<noteq> None \<or> planned_create E remote rs e \<noteq> None
      \<longrightarrow> (\<exists>path. destination_of root rs e = Inr path)"
    and "\<forall>d \<in> set (sp_pre_deletes p'). d \<in> set (sp_pre_deletes p) \<or>
      (\<exists>e \<in> set es. \<exists>r \<in> set (planned_predeletes E remote rs e).
         predelete_of E (rs_pairs rs) (ri_entries remote) (po_compare options) r d)"
    and "\<forall>e \<in> set es. planned_predeletes E remote rs e \<noteq> [] \<longrightarrow> po_delete options"
    and "\<forall>e \<in> set es. l_kind e = File \<longrightarrow>
      (\<forall>r \<in> set (planned_predeletes E remote rs e). \<not> kept_entry E rules rs r)"
  using assms
proof (atomize(full), induction es arbitrary: p pre)
  case Nil
  then show ?case by simp
next
  case (Cons e es)
  then obtain q preq where step: "plan_entry E root remote rules options rs (p, pre) e = Inr (q, preq)"
    and rest: "fold_r (plan_entry E root remote rules options rs) (q, preq) es = Inr (p', pre')"
    by auto
  have "entry_pass E root remote rules options rs e p q"
    using plan_entry_pass [OF step] by simp
  with Cons.IH [of q preq] rest show ?case
    by (auto simp: entry_pass_def)
qed

end
