(* ===== verification/CopyFacts.thy ===== *)
theory CopyFacts
  imports Planner
begin

text \<open>
  Facts about \<open>replace_uploads_with_server_copies\<close> of \<open>src/plan.rs\<close>: the two groupings are
  the same grouping by content, an upload is replaced exactly when its content has one upload and
  one source, and the replacement only moves uploads into copies.
\<close>

section \<open>The content of an upload and of a source\<close>

definition upload_content :: "correspondence \<Rightarrow> remote_inventory \<Rightarrow> upload_action \<Rightarrow> content_key option" where
  "upload_content pairs remote u =
     (if l_size (ua_local u) = 0 \<or> remote_of pairs remote (l_relative (ua_local u)) \<noteq> None then None
      else map_option (\<lambda>d. (l_size (ua_local u), d, local_mtime_seconds (ua_local u)))
             (l_md5 (ua_local u)))"

definition source_content ::
  "text_env \<Rightarrow> local_inventory \<Rightarrow> ignore_rules \<Rightarrow> resolution \<Rightarrow> string set \<Rightarrow> remote_entry
     \<Rightarrow> content_key option"
where
  "source_content E local rules rs predeleted r =
     (if \<not> is_copy_source E local rules rs predeleted r then None
      else (case r_md5 r of
              None \<Rightarrow> None
            | Some d \<Rightarrow> if has_full_proof d then Some (r_size r, d, r_mtime r) else None))"

lemma group_remote_push:
  "group_remote E local rules rs predeleted =
     group_push (source_content E local rules rs predeleted) (\<lambda>r. r)"
  by (rule ext, rule ext)
    (auto simp: group_remote_def group_push_def source_content_def split: option.splits)

lemma group_upload_push:
  assumes "group_upload pairs remote m (i, u) = Inr m'"
  shows "m' = group_push (\<lambda>(_, v). upload_content pairs remote v) fst (i, u) m"
    and "\<And>k. upload_content pairs remote u = Some k \<Longrightarrow> has_full_proof (fst (snd k))"
  using assms
  by (auto simp: group_upload_def group_push_def upload_content_def Let_def
      split: option.splits if_splits)

lemma group_uploads:
  assumes "fold_r (group_upload pairs remote) m ius = Inr m'"
  shows "m' = fold (group_push (\<lambda>(_, v). upload_content pairs remote v) fst) ius m"
    and "\<forall>(i, u) \<in> set ius. \<forall>k. upload_content pairs remote u = Some k \<longrightarrow> has_full_proof (fst (snd k))"
  using assms
proof (atomize(full), induction ius arbitrary: m)
  case Nil
  then show ?case by simp
next
  case (Cons x ius)
  obtain i u where x: "x = (i, u)"
    by (cases x)
  with Cons.prems obtain m1 where s: "group_upload pairs remote m (i, u) = Inr m1"
    and r: "fold_r (group_upload pairs remote) m1 ius = Inr m'"
    by auto
  show ?case
    using Cons.IH [OF r] group_upload_push [OF s] by (auto simp: x)
qed

section \<open>The pairs that are replaced\<close>

text \<open>The copy of the upload at an index from a source: what the code demands of the two.\<close>

definition replaces ::
  "upload_action list \<Rightarrow> (content_key, remote_entry list) kmap \<Rightarrow> (content_key, nat list) kmap
     \<Rightarrow> nat \<Rightarrow> copy_action \<Rightarrow> bool"
where
  "replaces uploads remote_groups local_groups i c =
     (\<exists>sz digest mtime source sp tp name.
        ((sz, digest, mtime), [i]) \<in> set local_groups \<and>
        om_get remote_groups (sz, digest, mtime) = Some [source] \<and>
        parent_and_name (r_path source) = Inr (sp, name) \<and>
        parent_and_name (ua_remote_path (uploads ! i)) = Inr (tp, name) \<and> sp \<noteq> tp \<and>
        c = copy_of (uploads ! i) source sz digest)"

lemma replace_step_adds:
  assumes "replace_step uploads rg acc ((sz, digest, mtime), ixs) = Inr acc'"
    and "(i, c) \<in> set acc'" and "((sz, digest, mtime), ixs) \<in> set lg"
  shows "(i, c) \<in> set acc \<or> replaces uploads rg lg i c"
proof (cases "(i, c) \<in> set acc")
  case True
  then show ?thesis ..
next
  case False
  with assms(1,2) obtain source sp name tp where "om_get rg (sz, digest, mtime) = Some [source]"
    and "ixs = [i]" and "parent_and_name (r_path source) = Inr (sp, name)"
    and "parent_and_name (ua_remote_path (uploads ! i)) = Inr (tp, name)" and "sp \<noteq> tp"
    and "c = copy_of (uploads ! i) source sz digest"
    by (auto simp: replace_step_def Let_def split: option.splits list.splits if_splits)
  with assms(3) show ?thesis
    unfolding replaces_def by blast
qed

interpretation replace_loop: loop_body
  "replace_step uploads rg" "\<lambda>acc. \<forall>(i, c) \<in> set acc. replaces uploads rg lg i c"
  "\<lambda>g. g \<in> set lg" for uploads rg lg
proof
  fix acc g acc'
  assume "\<forall>(i, c) \<in> set acc. replaces uploads rg lg i c" and "g \<in> set lg"
    and "replace_step uploads rg acc g = Inr acc'"
  then show "\<forall>(i, c) \<in> set acc'. replaces uploads rg lg i c"
    by (cases g) (auto dest: replace_step_adds)
qed

section \<open>The replacement\<close>

lemma apply_replacements:
  "sp_uploads (fold (apply_replacement reps) ius p) =
     sp_uploads p @ map snd (filter (\<lambda>(i, _). map_of reps i = None) ius)"
  "sp_copies (fold (apply_replacement reps) ius p) =
     sp_copies p @ List.map_filter (\<lambda>(i, _). map_of reps i) ius"
  by (induction ius arbitrary: p)
    (auto simp: apply_replacement_def List.map_filter_def split: option.splits)

lemma apply_replacements_frame:
  "sp_creates (fold (apply_replacement reps) ius p) = sp_creates p"
  "sp_pre_deletes (fold (apply_replacement reps) ius p) = sp_pre_deletes p"
  "sp_post_deletes (fold (apply_replacement reps) ius p) = sp_post_deletes p"
  "sp_renames (fold (apply_replacement reps) ius p) = sp_renames p"
  "sp_unchanged (fold (apply_replacement reps) ius p) = sp_unchanged p"
  "sp_skipped (fold (apply_replacement reps) ius p) = sp_skipped p"
  by (induction ius arbitrary: p) (auto simp: apply_replacement_def split: option.splits)

text \<open>The copy that stands for an upload writes the same source to the same place.\<close>

definition copies_upload :: "upload_action \<Rightarrow> copy_action \<Rightarrow> bool" where
  "copies_upload u c =
     (cp_local c = ua_local u \<and> cp_to_remote_path c = ua_remote_path u \<and>
      cp_to_relative c = l_relative (ua_local u))"

lemma replaced_or_kept:
  assumes "\<forall>(i, c) \<in> set reps. copies_upload (us ! i) c" and "u \<in> set us"
  shows "u \<in> set (map snd (filter (\<lambda>(i, _). map_of reps i = None) (enumerate 0 us))) \<or>
    (\<exists>c \<in> set (List.map_filter (\<lambda>(i, _). map_of reps i) (enumerate 0 us)). copies_upload u c)"
proof -
  obtain i where i: "i < length us" "u = us ! i"
    using assms(2) by (metis in_set_conv_nth)
  then have mem: "(i, u) \<in> set (enumerate 0 us)"
    by (simp add: in_set_enumerate_eq)
  show ?thesis
  proof (cases "map_of reps i")
    case None
    with mem show ?thesis by force
  next
    case (Some c)
    then have "copies_upload u c"
      using assms(1) i map_of_SomeD by fastforce
    moreover have "c \<in> set (List.map_filter (\<lambda>(i, _). map_of reps i) (enumerate 0 us))"
      using mem Some by (force simp: List.map_filter_def)
    ultimately show ?thesis by blast
  qed
qed

lemma split_replacements:
  "length (filter (\<lambda>(i, _). map_of reps i = None) ius)
     + length (List.map_filter (\<lambda>(i, _). map_of reps i) ius) = length ius"
  by (induction ius) (auto simp: List.map_filter_def split: option.splits)

text \<open>
  The contract of the stage: uploads become copies, one for one, and each copy is justified by an
  upload of the plan and a source of the inventory, alone with their content on either side.
\<close>

definition justified_copy ::
  "text_env \<Rightarrow> local_inventory \<Rightarrow> remote_inventory \<Rightarrow> ignore_rules \<Rightarrow> resolution \<Rightarrow> string set
     \<Rightarrow> upload_action list \<Rightarrow> copy_action \<Rightarrow> bool"
where
  "justified_copy E local remote rules rs predeleted uploads c =
     (\<exists>u r d sp tp name.
        u \<in> set uploads \<and> r \<in> set (om_values (ri_entries remote)) \<and>
        is_copy_source E local rules rs predeleted r \<and>
        remote_of (rs_pairs rs) remote (l_relative (ua_local u)) = None \<and>
        l_md5 (ua_local u) = Some d \<and> r_md5 r = Some d \<and> has_full_proof d \<and>
        l_size (ua_local u) = r_size r \<and> local_mtime_seconds (ua_local u) = r_mtime r \<and>
        parent_and_name (r_path r) = Inr (sp, name) \<and>
        parent_and_name (ua_remote_path u) = Inr (tp, name) \<and> sp \<noteq> tp \<and>
        (\<forall>v \<in> set uploads. upload_content (rs_pairs rs) remote v = upload_content (rs_pairs rs) remote u
           \<longrightarrow> v = u) \<and>
        (\<forall>r' \<in> set (om_values (ri_entries remote)).
           source_content E local rules rs predeleted r' = source_content E local rules rs predeleted r
           \<longrightarrow> r' = r) \<and>
        c = copy_of u r (l_size (ua_local u)) d)"

lemma justified_copy_upload:
  assumes "justified_copy E local remote rules rs predeleted uploads c"
  shows "\<exists>u \<in> set uploads. copies_upload u c"
proof -
  obtain u r d where "u \<in> set uploads" "c = copy_of u r (l_size (ua_local u)) d"
    using assms unfolding justified_copy_def by blast
  then show ?thesis
    by (auto simp: copies_upload_def copy_of_def)
qed

lemma filter_singleton:
  assumes "filter P xs = [x]"
  shows "x \<in> set xs" and "P x" and "\<And>y. y \<in> set xs \<Longrightarrow> P y \<Longrightarrow> y = x"
proof -
  have "x \<in> set (filter P xs)"
    by (simp add: assms)
  then show "x \<in> set xs" and "P x"
    by auto
  show "y = x" if "y \<in> set xs" and "P y" for y
  proof -
    have "y \<in> set (filter P xs)"
      using that by simp
    then show ?thesis
      by (simp add: assms)
  qed
qed

lemma unique_of_enumerate:
  assumes "filter (\<lambda>x. (case x of (_, v) \<Rightarrow> f v) = k) (enumerate 0 xs) = [(i, v)]"
    and "w \<in> set xs" and "f w = k"
  shows "w = v"
proof -
  obtain j where "j < length xs" "w = xs ! j"
    using assms(2) by (metis in_set_conv_nth)
  then have "(j, w) \<in> set (enumerate 0 xs)"
    by (simp add: in_set_enumerate_eq)
  then have "(j, w) = (i, v)"
    by (rule filter_singleton(3) [OF assms(1)]) (simp add: assms(3))
  then show ?thesis
    by simp
qed

lemma replaces_justified:
  assumes lg: "lg = fold (group_push (\<lambda>(_, v). upload_content (rs_pairs rs) remote v) fst)
      (enumerate 0 uploads) []"
    and rg: "rg = fold (group_push (source_content E local rules rs predeleted) (\<lambda>r. r))
      (om_values (ri_entries remote)) []"
    and "replaces uploads rg lg i c"
  shows "justified_copy E local remote rules rs predeleted uploads c"
proof -
  obtain sz d mtime r sp tp name where
    in_lg: "((sz, d, mtime), [i]) \<in> set lg" and
    in_rg: "om_get rg (sz, d, mtime) = Some [r]" and
    names: "parent_and_name (r_path r) = Inr (sp, name)"
      "parent_and_name (ua_remote_path (uploads ! i)) = Inr (tp, name)" "sp \<noteq> tp" and
    c: "c = copy_of (uploads ! i) r sz d"
    using assms(3) unfolding replaces_def by blast
  let ?k = "(sz, d, mtime)"
  have "om_wf lg"
    by (simp add: lg om_wf_group)
  then have "om_get lg ?k = Some [i]"
    using in_lg by (simp add: om_get_def om_wf_def strict_sorted_iff)
  then have "map fst (filter (\<lambda>x. (case x of (_, v) \<Rightarrow> upload_content (rs_pairs rs) remote v) = Some ?k)
      (enumerate 0 uploads)) = [i]"
    unfolding lg by (metis group_get)
  then obtain v where ups: "filter (\<lambda>x. (case x of (_, v) \<Rightarrow> upload_content (rs_pairs rs) remote v) = Some ?k)
      (enumerate 0 uploads) = [(i, v)]"
    by auto
  have v: "i < length uploads" "v = uploads ! i" "upload_content (rs_pairs rs) remote v = Some ?k"
    using filter_singleton(1,2) [OF ups] by (simp_all add: in_set_enumerate_eq)
  have v_only: "w = v" if "w \<in> set uploads" "upload_content (rs_pairs rs) remote w = Some ?k" for w
    using unique_of_enumerate [OF ups] that by simp
  have srcs: "filter (\<lambda>x. source_content E local rules rs predeleted x = Some ?k)
      (om_values (ri_entries remote)) = [r]"
    using group_get [OF in_rg [unfolded rg]] by simp
  note r = filter_singleton [OF srcs]
  have "l_md5 (ua_local v) = Some d" "sz = l_size (ua_local v)"
    "mtime = local_mtime_seconds (ua_local v)"
    "remote_of (rs_pairs rs) remote (l_relative (ua_local v)) = None"
    using v(3) by (auto simp: upload_content_def split: if_splits)
  moreover have "is_copy_source E local rules rs predeleted r" "r_md5 r = Some d" "has_full_proof d"
    "sz = r_size r" "mtime = r_mtime r"
    using r(2) by (auto simp: source_content_def split: option.splits if_splits)
  moreover have "v \<in> set uploads"
    using v by simp
  moreover have "\<forall>w \<in> set uploads.
      upload_content (rs_pairs rs) remote w = upload_content (rs_pairs rs) remote v \<longrightarrow> w = v"
    using v(3) v_only by metis
  moreover have "\<forall>r' \<in> set (om_values (ri_entries remote)).
      source_content E local rules rs predeleted r' = source_content E local rules rs predeleted r
        \<longrightarrow> r' = r"
    using r(2,3) by metis
  moreover have "parent_and_name (ua_remote_path v) = Inr (tp, name)"
    "c = copy_of v r (l_size (ua_local v)) d"
    using names(2) c v(2) \<open>sz = l_size (ua_local v)\<close> by simp_all
  ultimately show ?thesis
    unfolding justified_copy_def using r(1) names(1,3) by metis
qed

lemma replace_uploads:
  assumes "replace_uploads_with_server_copies E local remote rules options rs p = Inr p'"
    and "sp_copies p = []"
  shows "set (sp_uploads p') \<subseteq> set (sp_uploads p)"
    and "length (sp_uploads p') + length (sp_copies p') = length (sp_uploads p)"
    and "\<forall>u \<in> set (sp_uploads p). u \<in> set (sp_uploads p') \<or> (\<exists>c \<in> set (sp_copies p'). copies_upload u c)"
    and "\<forall>c \<in> set (sp_copies p'). po_server_copy options \<and>
      justified_copy E local remote rules rs (set (map da_relative (sp_pre_deletes p))) (sp_uploads p) c"
    and "sp_creates p' = sp_creates p" and "sp_pre_deletes p' = sp_pre_deletes p"
    and "sp_post_deletes p' = sp_post_deletes p" and "sp_renames p' = sp_renames p"
    and "sp_unchanged p' = sp_unchanged p" and "sp_skipped p' = sp_skipped p"
proof -
  let ?pre = "set (map da_relative (sp_pre_deletes p))"
  let ?ius = "enumerate 0 (sp_uploads p)"
  have "p' = p \<or> po_server_copy options \<and> (\<exists>lg rg reps.
      fold_r (group_upload (rs_pairs rs) remote) [] ?ius = Inr lg \<and>
      rg = fold (group_remote E local rules rs ?pre) (om_values (ri_entries remote)) [] \<and>
      fold_r (replace_step (sp_uploads p) rg) [] lg = Inr reps \<and>
      p' = fold (apply_replacement reps) ?ius (p\<lparr>sp_uploads := []\<rparr>))"
    using assms(1)
    by (simp add: replace_uploads_with_server_copies_def Let_def split: if_splits sum.splits)
  then have "set (sp_uploads p') \<subseteq> set (sp_uploads p) \<and>
    length (sp_uploads p') + length (sp_copies p') = length (sp_uploads p) \<and>
    (\<forall>u \<in> set (sp_uploads p). u \<in> set (sp_uploads p') \<or>
      (\<exists>c \<in> set (sp_copies p'). copies_upload u c)) \<and>
    (\<forall>c \<in> set (sp_copies p'). po_server_copy options \<and>
      justified_copy E local remote rules rs ?pre (sp_uploads p) c) \<and>
    sp_creates p' = sp_creates p \<and> sp_pre_deletes p' = sp_pre_deletes p \<and>
    sp_post_deletes p' = sp_post_deletes p \<and> sp_renames p' = sp_renames p \<and>
    sp_unchanged p' = sp_unchanged p \<and> sp_skipped p' = sp_skipped p"
  proof (elim disjE conjE exE)
    assume "p' = p"
    with assms(2) show ?thesis by simp
  next
    fix lg rg reps
    assume sc: "po_server_copy options"
      and lg: "fold_r (group_upload (rs_pairs rs) remote) [] ?ius = Inr lg"
      and rg: "rg = fold (group_remote E local rules rs ?pre) (om_values (ri_entries remote)) []"
      and reps: "fold_r (replace_step (sp_uploads p) rg) [] lg = Inr reps"
      and p': "p' = fold (apply_replacement reps) ?ius (p\<lparr>sp_uploads := []\<rparr>)"
    have reps_ok: "\<forall>(i, c) \<in> set reps. replaces (sp_uploads p) rg lg i c"
      using replace_loop.fold_keeps [OF _ _ reps, of lg] by (simp add: list_all_iff)
    then have "\<forall>(i, c) \<in> set reps. copies_upload (sp_uploads p ! i) c"
      by (auto simp: replaces_def copies_upload_def copy_of_def)
    then have cover: "\<forall>u \<in> set (sp_uploads p). u \<in> set (sp_uploads p') \<or>
        (\<exists>c \<in> set (sp_copies p'). copies_upload u c)"
      using replaced_or_kept [of reps "sp_uploads p"]
      by (simp add: p' apply_replacements assms(2))
    have just: "justified_copy E local remote rules rs ?pre (sp_uploads p) c"
      if "(i, c) \<in> set reps" for i c
      using that reps_ok group_uploads(1) [OF lg] rg
      by (intro replaces_justified [where lg = lg and rg = rg and i = i])
        (auto simp: group_remote_push)
    have "\<forall>c \<in> set (sp_copies p'). \<exists>i. map_of reps i = Some c"
      by (auto simp: p' apply_replacements assms(2) List.map_filter_def)
    then have "\<forall>c \<in> set (sp_copies p'). \<exists>i. (i, c) \<in> set reps"
      by (meson map_of_SomeD)
    moreover have "set (sp_uploads p') \<subseteq> set (sp_uploads p)"
      by (auto simp: p' apply_replacements in_set_enumerate_eq)
    ultimately show ?thesis
      using just sc cover split_replacements [of reps ?ius]
      by (auto simp: p' apply_replacements apply_replacements_frame assms(2))
  qed
  then show "set (sp_uploads p') \<subseteq> set (sp_uploads p)"
    and "length (sp_uploads p') + length (sp_copies p') = length (sp_uploads p)"
    and "\<forall>u \<in> set (sp_uploads p). u \<in> set (sp_uploads p') \<or> (\<exists>c \<in> set (sp_copies p'). copies_upload u c)"
    and "\<forall>c \<in> set (sp_copies p'). po_server_copy options \<and>
      justified_copy E local remote rules rs ?pre (sp_uploads p) c"
    and "sp_creates p' = sp_creates p" and "sp_pre_deletes p' = sp_pre_deletes p"
    and "sp_post_deletes p' = sp_post_deletes p" and "sp_renames p' = sp_renames p"
    and "sp_unchanged p' = sp_unchanged p" and "sp_skipped p' = sp_skipped p"
    by simp_all
qed

end
