(* ===== verification/DeleteFacts.thy ===== *)
theory DeleteFacts
  imports Planner ResolveFacts
begin

text \<open>
  Facts about the case-only renames and the mirror deletions of \<open>build_plan\<close>: which remote
  entries are deleted (exactly the deletable ones that hold nothing kept), what the proof carried
  by a deletion is, and what the renames and the guards leave alone.
\<close>

section \<open>Snapshots\<close>

lemma deletion_digest_Inr:
  "deletion_digest E r compare = Inr digest \<longleftrightarrow>
     (if requires_deletion_digest compare \<and> r_kind r = File \<and> 0 < r_size r
      then \<exists>fp. r_md5 r = Some fp \<and> has_full_proof fp \<and> digest = Some fp
      else digest = None)"
  by (auto simp: deletion_digest_def split: option.splits)

lemma deletion_snapshot_Inr:
  "deletion_snapshot E r entries compare = Inr s \<longleftrightarrow>
     deletion_digest E r compare = Inr (sn_md5 s) \<and> sn_kind s = r_kind r \<and> sn_size s = r_size r \<and>
     sn_mtime s = r_mtime r \<and> sn_require_mtime s = (\<not> has_descendants entries r)"
  by (cases s) (auto simp: deletion_snapshot_def)

lemma has_descendants_iff:
  "om_wf entries \<Longrightarrow>
   has_descendants entries r \<longleftrightarrow>
     r_kind r = Directory \<and> (\<exists>(k, _) \<in> set entries. beneath (r_relative r) k)"
  using om_first_prefixed_None_iff [of entries "r_relative r @ [slash]"]
  by (auto simp: has_descendants_def beneath_prefix)

section \<open>What holds a kept entry\<close>

lemma protect_fold_dirs:
  "pr_dirs (fold (protect_step E rules rs) es p) =
     pr_dirs p \<union> (\<Union>r \<in> {r \<in> set es. kept_entry E rules rs r}. set (ancestors (r_relative r)))"
  by (induction es arbitrary: p) (auto simp: protect_step_def kept_entry_def Let_def)

lemma protect_fold_count:
  "pr_count (fold (protect_step E rules rs) es p) =
     pr_count p + length (filter (is_protected E rules (rs_pairs rs)) es)"
  by (induction es arbitrary: p) (auto simp: protect_step_def Let_def)

lemma in_protected_dirs:
  "po_delete options \<Longrightarrow>
   d \<in> pr_dirs (protections E remote rules options rs) \<longleftrightarrow>
     (\<exists>r \<in> set (om_values (ri_entries remote)). kept_entry E rules rs r \<and> beneath d (r_relative r))"
  by (auto simp: protections_def protect_fold_dirs no_protection_def in_ancestors_iff)

section \<open>Mirror deletions\<close>

definition deletable ::
  "text_env \<Rightarrow> local_inventory \<Rightarrow> ignore_rules \<Rightarrow> plan_options \<Rightarrow> resolution \<Rightarrow> string set
     \<Rightarrow> protection \<Rightarrow> remote_entry \<Rightarrow> bool"
where
  "deletable E local rules options rs predeleted prot r =
     (\<not> not_deletable E local rules options rs predeleted r \<and>
      \<not> (r_kind r = Directory \<and> r_relative r \<in> pr_dirs prot))"

definition mirror_deletion ::
  "text_env \<Rightarrow> remote_inventory \<Rightarrow> plan_options \<Rightarrow> resolution \<Rightarrow> remote_entry \<Rightarrow> delete_action \<Rightarrow> bool"
where
  "mirror_deletion E remote options rs r d =
     (da_relative d = r_relative r \<and>
      da_local_relative d = local_relative (rs_pairs rs) (r_relative r) \<and>
      da_remote_path d = r_path r \<and> da_kind d = r_kind r \<and> \<not> da_type_conflict d \<and>
      deletion_snapshot E r (ri_entries remote) (po_compare options) = Inr (da_snapshot d))"

lemma mirror_deletion_cong:
  "mirror_deletion E remote options rs r d \<Longrightarrow> mirror_deletion E remote options rs r (d\<lparr>da_guard := g\<rparr>)"
  by (simp add: mirror_deletion_def)

lemma plan_delete_step:
  assumes "plan_delete E local remote rules options rs predeleted prot (p, rep) r = Inr (p', rep')"
  shows "if deletable E local rules options rs predeleted prot r
    then \<exists>d. sp_post_deletes p' = sp_post_deletes p @ [d] \<and> mirror_deletion E remote options rs r d
    else sp_post_deletes p' = sp_post_deletes p"
    and "p'\<lparr>sp_post_deletes := [], sp_skipped := []\<rparr> = p\<lparr>sp_post_deletes := [], sp_skipped := []\<rparr>"
    and "set (sp_skipped p) \<subseteq> set (sp_skipped p')"
  using assms
  by (auto simp: plan_delete_def deletable_def mirror_deletion_def split: if_splits option.splits)

lemma plan_delete_fold:
  assumes "fold_r (plan_delete E local remote rules options rs predeleted prot) (p, rep) es = Inr (p', rep')"
  shows "\<exists>ds. sp_post_deletes p' = sp_post_deletes p @ ds \<and>
      list_all2 (mirror_deletion E remote options rs)
        (filter (deletable E local rules options rs predeleted prot) es) ds"
    and "p'\<lparr>sp_post_deletes := [], sp_skipped := []\<rparr> = p\<lparr>sp_post_deletes := [], sp_skipped := []\<rparr>"
    and "set (sp_skipped p) \<subseteq> set (sp_skipped p')"
  using assms
proof (atomize(full), induction es arbitrary: p rep)
  case Nil
  then show ?case by simp
next
  case (Cons r es)
  then obtain q repq where step: "plan_delete E local remote rules options rs predeleted prot (p, rep) r
      = Inr (q, repq)"
    and rest: "fold_r (plan_delete E local remote rules options rs predeleted prot) (q, repq) es
      = Inr (p', rep')"
    by auto
  obtain ds where ds: "sp_post_deletes p' = sp_post_deletes q @ ds"
    "list_all2 (mirror_deletion E remote options rs)
        (filter (deletable E local rules options rs predeleted prot) es) ds"
    and frame: "p'\<lparr>sp_post_deletes := [], sp_skipped := []\<rparr> = q\<lparr>sp_post_deletes := [], sp_skipped := []\<rparr>"
      "set (sp_skipped q) \<subseteq> set (sp_skipped p')"
    using Cons.IH [OF rest] by blast
  show ?case
  proof (cases "deletable E local rules options rs predeleted prot r")
    case True
    then obtain d where "sp_post_deletes q = sp_post_deletes p @ [d]" "mirror_deletion E remote options rs r d"
      using plan_delete_step(1) [OF step] by auto
    with True ds frame plan_delete_step(2,3) [OF step] show ?thesis
      by (auto intro!: exI [of _ "d # ds"])
  next
    case False
    with ds frame plan_delete_step [OF step] show ?thesis
      by auto
  qed
qed

lemma guard_deletions_frame:
  "guard_deletions p\<lparr>sp_post_deletes := []\<rparr> = p\<lparr>sp_post_deletes := []\<rparr>"
  "map da_relative (sp_post_deletes (guard_deletions p)) = map da_relative (sp_post_deletes p)"
  by (auto simp: guard_deletions_def Let_def)

lemma guard_deletions_all2:
  "list_all2 (mirror_deletion E remote options rs) rs' (sp_post_deletes p) \<Longrightarrow>
   list_all2 (mirror_deletion E remote options rs) rs' (sp_post_deletes (guard_deletions p))"
  by (auto simp: guard_deletions_def Let_def list_all2_conv_all_nth mirror_deletion_cong)

lemma map_of_rev_None:
  "map_of (rev (map (\<lambda>c. (cp_from_relative c, c)) cs)) k = None \<Longrightarrow>
   \<forall>c \<in> set cs. cp_from_relative c \<noteq> k"
  by (simp add: map_of_eq_None_iff image_image) blast

lemma map_of_rev_Some:
  "map_of (rev (map (\<lambda>c. (cp_from_relative c, c)) cs)) k = Some c \<Longrightarrow>
   c \<in> set cs \<and> cp_from_relative c = k"
  by (drule map_of_SomeD) auto

text \<open>
  A deletion whose path is the source of a server copy carries the guard of the last such copy;
  every other carries none.
\<close>

lemma guard_deletions_guards:
  "d \<in> set (sp_post_deletes (guard_deletions p)) \<Longrightarrow>
   \<forall>d \<in> set (sp_post_deletes p). da_guard d = None \<Longrightarrow>
   (case da_guard d of
      None \<Rightarrow> \<forall>c \<in> set (sp_copies p). cp_from_relative c \<noteq> da_relative d
    | Some g \<Rightarrow> \<exists>c \<in> set (sp_copies p). cp_from_relative c = da_relative d \<and> g = guard_of c)"
proof -
  assume d: "d \<in> set (sp_post_deletes (guard_deletions p))"
    and none: "\<forall>d \<in> set (sp_post_deletes p). da_guard d = None"
  let ?m = "map_of (rev (map (\<lambda>c. (cp_from_relative c, c)) (sp_copies p)))"
  show ?thesis
  proof (cases "sp_copies p = []")
    case True
    with d none show ?thesis by (simp add: guard_deletions_def)
  next
    case False
    then have "da_guard d = map_option guard_of (?m (da_relative d))"
      using d by (auto simp: guard_deletions_def Let_def)
    note guard = this
    show ?thesis
    proof (cases "?m (da_relative d)")
      case None
      then show ?thesis
        unfolding guard by (simp only: option.map option.case) (rule map_of_rev_None)
    next
      case (Some c)
      then have "c \<in> set (sp_copies p) \<and> cp_from_relative c = da_relative d"
        by (rule map_of_rev_Some)
      then show ?thesis
        unfolding guard Some by (simp only: option.map option.case) blast
    qed
  qed
qed

lemma plan_deletions_facts:
  assumes "plan_deletions E local remote rules options rs predeleted prot p = Inr p'"
    and "sp_post_deletes p = []"
  shows "list_all2 (mirror_deletion E remote options rs)
      (filter (\<lambda>r. po_delete options \<and> deletable E local rules options rs predeleted prot r)
        (om_values (ri_entries remote))) (sp_post_deletes p')"
    and "p'\<lparr>sp_post_deletes := [], sp_skipped := []\<rparr> = p\<lparr>sp_post_deletes := [], sp_skipped := []\<rparr>"
    and "set (sp_skipped p) \<subseteq> set (sp_skipped p')"
proof (atomize(full), cases "po_delete options")
  case False
  with assms show "list_all2 (mirror_deletion E remote options rs)
      (filter (\<lambda>r. po_delete options \<and> deletable E local rules options rs predeleted prot r)
        (om_values (ri_entries remote))) (sp_post_deletes p') \<and>
    p'\<lparr>sp_post_deletes := [], sp_skipped := []\<rparr> = p\<lparr>sp_post_deletes := [], sp_skipped := []\<rparr> \<and>
    set (sp_skipped p) \<subseteq> set (sp_skipped p')"
    by (simp add: plan_deletions_def)
next
  case True
  with assms obtain q rep where q: "fold_r (plan_delete E local remote rules options rs predeleted prot)
      (p, []) (om_values (ri_entries remote)) = Inr (q, rep)" and p': "p' = guard_deletions q"
    by (auto simp: plan_deletions_def)
  have "sp_skipped p' = sp_skipped q"
    by (simp add: p' guard_deletions_def Let_def)
  moreover have "p'\<lparr>sp_post_deletes := [], sp_skipped := []\<rparr> = q\<lparr>sp_post_deletes := [], sp_skipped := []\<rparr>"
    by (simp add: p' guard_deletions_def Let_def)
  ultimately show "list_all2 (mirror_deletion E remote options rs)
      (filter (\<lambda>r. po_delete options \<and> deletable E local rules options rs predeleted prot r)
        (om_values (ri_entries remote))) (sp_post_deletes p') \<and>
    p'\<lparr>sp_post_deletes := [], sp_skipped := []\<rparr> = p\<lparr>sp_post_deletes := [], sp_skipped := []\<rparr> \<and>
    set (sp_skipped p) \<subseteq> set (sp_skipped p')"
    using plan_delete_fold [OF q] True assms(2) by (auto simp: p' guard_deletions_all2)
qed

section \<open>Renames\<close>

definition justified_rename ::
  "text_env \<Rightarrow> remote_inventory \<Rightarrow> ignore_rules \<Rightarrow> plan_options \<Rightarrow> resolution \<Rightarrow> rename_action \<Rightarrow> bool"
where
  "justified_rename E remote rules options rs a =
     ((ra_relative a, ra_from_relative a) \<in> set (rs_renames rs) \<and>
      scope_matches (po_scope options) (ra_relative a) \<and>
      (\<exists>r parent name. om_get (ri_entries remote) (ra_from_relative a) = Some r \<and>
         ra_from_remote_path a = r_path r \<and> ra_kind a = r_kind r \<and>
         parent_and_name (r_path r) = Inr (parent, name) \<and>
         ra_new_name a = nfc E (snd (parent_name (ra_relative a))) \<and>
         ra_to_remote_path a = parent @ slash # ra_new_name a) \<and>
      list_all (\<lambda>c. \<not> kept_entry E rules rs c)
        (remote_subtree (ri_entries remote) (ra_from_relative a)))"

definition rename_frame :: "sync_plan \<Rightarrow> sync_plan \<Rightarrow> bool" where
  "rename_frame p q =
     (p\<lparr>sp_renames := [], sp_skipped := []\<rparr> = q\<lparr>sp_renames := [], sp_skipped := []\<rparr> \<and>
      set (sp_skipped p) \<subseteq> set (sp_skipped q))"

interpretation rename_loop: loop_body
  "plan_rename E remote rules options rs"
  "\<lambda>q. rename_frame p q \<and> (\<forall>a \<in> set (sp_renames q). a \<in> set (sp_renames p) \<or>
     justified_rename E remote rules options rs a)"
  "\<lambda>lr. lr \<in> set (rs_renames rs)" for E remote rules options rs p
proof
  fix q lr q'
  assume inv: "rename_frame p q \<and> (\<forall>a \<in> set (sp_renames q). a \<in> set (sp_renames p) \<or>
     justified_rename E remote rules options rs a)"
    and lr: "lr \<in> set (rs_renames rs)"
    and step: "plan_rename E remote rules options rs q lr = Inr q'"
  obtain l r where [simp]: "lr = (l, r)"
    by (cases lr)
  have "rename_frame q q'"
    using step by (auto simp: rename_frame_def plan_rename_def Let_def split: if_splits option.splits)
  moreover have "a \<in> set (sp_renames q) \<or> justified_rename E remote rules options rs a"
    if "a \<in> set (sp_renames q')" for a
    using step lr that
    by (auto simp: plan_rename_def justified_rename_def kept_candidate_def kept_entry_def Let_def
        find_None_iff list_all_iff split: if_splits option.splits)
  ultimately show "rename_frame p q' \<and> (\<forall>a \<in> set (sp_renames q'). a \<in> set (sp_renames p) \<or>
     justified_rename E remote rules options rs a)"
    using inv by (auto simp: rename_frame_def)
qed

lemma plan_renames:
  assumes "fold_r (plan_rename E remote rules options rs) p (rs_renames rs) = Inr p'"
    and "sp_renames p = []"
  shows "rename_frame p p'"
    and "\<forall>a \<in> set (sp_renames p'). justified_rename E remote rules options rs a"
  using rename_loop.fold_keeps [OF _ _ assms(1), of p] assms(2)
  by (simp_all add: rename_frame_def list_all_iff)

end
