(* ===== verification/PlanStages.thy ===== *)
theory PlanStages
  imports PlanFacts CopyFacts DeleteFacts "HOL-Library.Multiset"
begin

text \<open>
  The stages of a successful run of \<open>build_plan\<close>, taken apart once: every action of the plan
  in terms of the specifications of the stages (\<open>planned\<close>). The properties of the plan rest
  on \<open>build_plan_planned\<close>.
\<close>

section \<open>Sorting keeps the actions\<close>

lemma mset_by_depth [simp]:
  "mset (by_depth_down f xs) = mset xs" "mset (by_depth_up f xs) = mset xs"
  "set (by_depth_down f xs) = set xs" "set (by_depth_up f xs) = set xs"
  "length (by_depth_down f xs) = length xs" "length (by_depth_up f xs) = length xs"
  by (simp_all add: by_depth_down_def by_depth_up_def)

lemma sort_plan_sets [simp]:
  "set (sp_pre_deletes (sort_plan p)) = set (sp_pre_deletes p)"
  "set (sp_creates (sort_plan p)) = set (sp_creates p)"
  "set (sp_copies (sort_plan p)) = set (sp_copies p)"
  "set (sp_uploads (sort_plan p)) = set (sp_uploads p)"
  "set (sp_post_deletes (sort_plan p)) = set (sp_post_deletes p)"
  "sp_renames (sort_plan p) = sp_renames p"
  "sp_unchanged (sort_plan p) = sp_unchanged p"
  "sp_skipped (sort_plan p) = sp_skipped p"
  "length (sp_copies (sort_plan p)) = length (sp_copies p)"
  "length (sp_uploads (sort_plan p)) = length (sp_uploads p)"
  "length (sp_pre_deletes (sort_plan p)) = length (sp_pre_deletes p)"
  "length (sp_post_deletes (sort_plan p)) = length (sp_post_deletes p)"
  by (simp_all add: sort_plan_def)

lemma list_all2_in_left: "list_all2 P xs ys \<Longrightarrow> x \<in> set xs \<Longrightarrow> \<exists>y \<in> set ys. P x y"
  by (induction xs ys rule: list_all2_induct) auto

lemma list_all2_in_right: "list_all2 P xs ys \<Longrightarrow> y \<in> set ys \<Longrightarrow> \<exists>x \<in> set xs. P x y"
  by (induction xs ys rule: list_all2_induct) auto

section \<open>The stages of a successful run\<close>

lemma check_mount_Inr:
  "check_mount E local rs p m = Inr q \<longleftrightarrow>
     q = p \<and> (\<forall>k \<in> set (om_keys (li_entries local)). \<not> shield_covers E (rs_folds rs) k \<longrightarrow>
       \<not> beneath (r_relative m) (remote_relative (rs_pairs rs) k))"
  by (auto simp: check_mount_def list_ex_iff beneath_prefix)

lemma check_mount_fold:
  "fold_r (check_mount E local rs) p ms = Inr p' \<Longrightarrow>
   p' = p \<and> (\<forall>m \<in> set ms. check_mount E local rs p m = Inr p)"
  by (induction ms arbitrary: p) (auto simp: check_mount_Inr)

lemma check_limits_Inr:
  "check_limits local options p = Inr q \<longleftrightarrow>
     q = p \<and> delete_count p \<le> po_max_delete options \<and>
     (po_delete options \<and> li_files local = 0 \<and> \<not> po_allow_empty_source options \<longrightarrow> delete_count p = 0)"
  by (auto simp: check_limits_def)

lemma plan_root_Inr:
  assumes "plan_root root remote p = Inr p'"
  shows "sp_uploads p' = sp_uploads p" "sp_copies p' = sp_copies p"
    "sp_pre_deletes p' = sp_pre_deletes p" "sp_post_deletes p' = sp_post_deletes p"
    "sp_renames p' = sp_renames p" "sp_unchanged p' = sp_unchanged p" "sp_skipped p' = sp_skipped p"
    "sp_creates p' = sp_creates p @ (if ri_root_exists remote then []
       else [\<lparr>ca_relative = [], ca_remote_path = root_str root, ca_reason = MissingRemote\<rparr>])"
    "ri_root_exists remote \<or> root_str root \<noteq> share_path root"
  using assms by (auto simp: plan_root_def split: if_splits)

text \<open>What a plan holds, stage by stage, in terms of the specifications of the stages.\<close>

definition mirror_candidates ::
  "text_env \<Rightarrow> local_inventory \<Rightarrow> remote_inventory \<Rightarrow> ignore_rules \<Rightarrow> plan_options \<Rightarrow> resolution
     \<Rightarrow> string set \<Rightarrow> remote_entry list"
where
  "mirror_candidates E local remote rules options rs predeleted =
     filter (\<lambda>r. po_delete options \<and>
         deletable E local rules options rs predeleted (protections E remote rules options rs) r)
       (om_values (ri_entries remote))"

definition planned ::
  "text_env \<Rightarrow> remote_root \<Rightarrow> local_inventory \<Rightarrow> remote_inventory \<Rightarrow> ignore_rules
     \<Rightarrow> plan_options \<Rightarrow> resolution \<Rightarrow> sync_plan \<Rightarrow> upload_action list \<Rightarrow> sync_plan \<Rightarrow> bool"
where
  "planned E root local remote rules options rs p ups p4 =
     (let es = om_values (li_entries local);
          predeleted = set (map da_relative (sp_pre_deletes p)) in
      p = sort_plan p4 \<and>
      ups = concat (map (upload_for E root remote options rs) es) \<and>
      set (sp_uploads p) \<subseteq> set ups \<and>
      length (sp_uploads p) + length (sp_copies p) = length ups \<and>
      (\<forall>u \<in> set ups. u \<in> set (sp_uploads p) \<or> (\<exists>c \<in> set (sp_copies p). copies_upload u c)) \<and>
      (\<forall>c \<in> set (sp_copies p). po_compare options = Content \<and> po_server_copy options \<and>
         justified_copy E local remote rules rs predeleted ups c) \<and>
      (po_compare options \<noteq> Content \<longrightarrow> set (sp_uploads p) = set ups) \<and>
      set (sp_creates p) = set (concat (map (create_for E root remote rs) es)) \<union>
        (if ri_root_exists remote then {}
         else {\<lparr>ca_relative = [], ca_remote_path = root_str root, ca_reason = MissingRemote\<rparr>}) \<and>
      sp_unchanged p + length ups = length (filter (is_payload_file E rs) es) \<and>
      (\<forall>e \<in> set es. planned_upload E remote options rs e \<noteq> None \<or> planned_create E remote rs e \<noteq> None
         \<longrightarrow> (\<exists>path. destination_of root rs e = Inr path)) \<and>
      (\<forall>d \<in> set (sp_pre_deletes p). \<exists>e \<in> set es. \<exists>r \<in> set (planned_predeletes E remote rs e).
         predelete_of E (rs_pairs rs) (ri_entries remote) (po_compare options) r d) \<and>
      (\<forall>e \<in> set es. l_kind e = File \<longrightarrow>
        (\<forall>r \<in> set (planned_predeletes E remote rs e). \<not> kept_entry E rules rs r)) \<and>
      distinct (map da_relative (sp_pre_deletes p)) \<and>
      (sp_pre_deletes p \<noteq> [] \<longrightarrow> po_delete options) \<and>
      list_all2 (mirror_deletion E remote options rs)
        (mirror_candidates E local remote rules options rs predeleted) (sp_post_deletes p4) \<and>
      (\<forall>a \<in> set (sp_renames p). justified_rename E remote rules options rs a) \<and>
      set (rs_skipped rs @ li_skipped local) \<subseteq> set (sp_skipped p))"

lemma plannedD:
  assumes "planned E root local remote rules options rs p ups p4"
  shows "p = sort_plan p4"
    and "ups = concat (map (upload_for E root remote options rs) (om_values (li_entries local)))"
    and "set (sp_uploads p) \<subseteq> set ups"
    and "length (sp_uploads p) + length (sp_copies p) = length ups"
    and "\<forall>u \<in> set ups. u \<in> set (sp_uploads p) \<or> (\<exists>c \<in> set (sp_copies p). copies_upload u c)"
    and "\<forall>c \<in> set (sp_copies p). po_compare options = Content \<and> po_server_copy options \<and>
      justified_copy E local remote rules rs (set (map da_relative (sp_pre_deletes p))) ups c"
    and "po_compare options \<noteq> Content \<longrightarrow> set (sp_uploads p) = set ups"
    and "set (sp_creates p) =
      set (concat (map (create_for E root remote rs) (om_values (li_entries local)))) \<union>
        (if ri_root_exists remote then {}
         else {\<lparr>ca_relative = [], ca_remote_path = root_str root, ca_reason = MissingRemote\<rparr>})"
    and "sp_unchanged p + length ups = length (filter (is_payload_file E rs) (om_values (li_entries local)))"
    and "\<forall>e \<in> set (om_values (li_entries local)).
      planned_upload E remote options rs e \<noteq> None \<or> planned_create E remote rs e \<noteq> None
         \<longrightarrow> (\<exists>path. destination_of root rs e = Inr path)"
    and "\<forall>d \<in> set (sp_pre_deletes p). \<exists>e \<in> set (om_values (li_entries local)).
      \<exists>r \<in> set (planned_predeletes E remote rs e).
         predelete_of E (rs_pairs rs) (ri_entries remote) (po_compare options) r d"
    and "\<forall>e \<in> set (om_values (li_entries local)). l_kind e = File \<longrightarrow>
        (\<forall>r \<in> set (planned_predeletes E remote rs e). \<not> kept_entry E rules rs r)"
    and "distinct (map da_relative (sp_pre_deletes p))"
    and "sp_pre_deletes p \<noteq> [] \<longrightarrow> po_delete options"
    and "list_all2 (mirror_deletion E remote options rs)
        (mirror_candidates E local remote rules options rs (set (map da_relative (sp_pre_deletes p))))
        (sp_post_deletes p4)"
    and "\<forall>a \<in> set (sp_renames p). justified_rename E remote rules options rs a"
    and "set (rs_skipped rs @ li_skipped local) \<subseteq> set (sp_skipped p)"
  using assms unfolding planned_def Let_def by - (elim conjE, assumption)+

lemma copy_stage:
  assumes "(if po_compare options = Content
      then replace_uploads_with_server_copies E local remote rules options rs p else Inr p) = Inr p'"
    and "sp_copies p = []"
  shows "set (sp_uploads p') \<subseteq> set (sp_uploads p)"
    and "length (sp_uploads p') + length (sp_copies p') = length (sp_uploads p)"
    and "\<forall>u \<in> set (sp_uploads p). u \<in> set (sp_uploads p') \<or> (\<exists>c \<in> set (sp_copies p'). copies_upload u c)"
    and "\<forall>c \<in> set (sp_copies p'). po_compare options = Content \<and> po_server_copy options \<and>
      justified_copy E local remote rules rs (set (map da_relative (sp_pre_deletes p))) (sp_uploads p) c"
    and "po_compare options \<noteq> Content \<Longrightarrow> p' = p"
    and "sp_creates p' = sp_creates p" and "sp_pre_deletes p' = sp_pre_deletes p"
    and "sp_post_deletes p' = sp_post_deletes p" and "sp_renames p' = sp_renames p"
    and "sp_unchanged p' = sp_unchanged p" and "sp_skipped p' = sp_skipped p"
proof -
  have T: "po_compare options = Content \<Longrightarrow>
      replace_uploads_with_server_copies E local remote rules options rs p = Inr p'"
    and F: "po_compare options \<noteq> Content \<Longrightarrow> p' = p"
    using assms(1) by simp_all
  note r = replace_uploads [OF T assms(2)]
  show "set (sp_uploads p') \<subseteq> set (sp_uploads p)"
    by (cases "po_compare options = Content") (use r(1) F in blast)+
  show "length (sp_uploads p') + length (sp_copies p') = length (sp_uploads p)"
    by (cases "po_compare options = Content") (use r(2) F assms(2) in auto)
  show "\<forall>u \<in> set (sp_uploads p). u \<in> set (sp_uploads p') \<or> (\<exists>c \<in> set (sp_copies p'). copies_upload u c)"
    by (cases "po_compare options = Content") (use r(3) F in blast)+
  show "\<forall>c \<in> set (sp_copies p'). po_compare options = Content \<and> po_server_copy options \<and>
      justified_copy E local remote rules rs (set (map da_relative (sp_pre_deletes p))) (sp_uploads p) c"
    by (cases "po_compare options = Content") (use r(4) F assms(2) in auto)
  show "p' = p" if "po_compare options \<noteq> Content"
    using F that .
  show "sp_creates p' = sp_creates p" "sp_pre_deletes p' = sp_pre_deletes p"
    "sp_post_deletes p' = sp_post_deletes p" "sp_renames p' = sp_renames p"
    "sp_unchanged p' = sp_unchanged p" "sp_skipped p' = sp_skipped p"
    by (cases "po_compare options = Content"; use r(5-) F in blast)+
qed

lemma rename_frame_fields:
  assumes "rename_frame p q"
  shows "sp_uploads q = sp_uploads p" "sp_copies q = sp_copies p" "sp_creates q = sp_creates p"
    "sp_pre_deletes q = sp_pre_deletes p" "sp_post_deletes q = sp_post_deletes p"
    "sp_unchanged q = sp_unchanged p" "set (sp_skipped p) \<subseteq> set (sp_skipped q)"
  using assms unfolding rename_frame_def by (cases p; cases q; simp)+

lemma delete_frame_fields:
  assumes "p'\<lparr>sp_post_deletes := [], sp_skipped := []\<rparr> = p\<lparr>sp_post_deletes := [], sp_skipped := []\<rparr>"
  shows "sp_uploads p' = sp_uploads p" "sp_copies p' = sp_copies p" "sp_creates p' = sp_creates p"
    "sp_pre_deletes p' = sp_pre_deletes p" "sp_renames p' = sp_renames p"
    "sp_unchanged p' = sp_unchanged p"
  using assms by (cases p; cases p'; simp)+

lemma plan_actions_bind:
  "plan_actions E root local remote rules options rs =
     bind_r (plan_root root remote (initial_plan local rules options (rs_skipped rs @ li_skipped local)))
       (\<lambda>plan.
     bind_r (fold_r (check_mount E local rs) plan
              (filter (\<lambda>e. r_mount e \<noteq> None) (om_values (ri_entries remote)))) (\<lambda>plan.
     bind_r (fold_r (plan_entry E root remote rules options rs) (plan, {})
              (om_values (li_entries local))) (\<lambda>(plan, predeleted).
     bind_r (if po_compare options = Content
             then replace_uploads_with_server_copies E local remote rules options rs plan
             else Inr plan) (\<lambda>plan.
     bind_r (fold_r (plan_rename E remote rules options rs) plan (rs_renames rs)) (\<lambda>plan.
     map_r (\<lambda>plan. sort_plan (plan\<lparr>sp_skipped := sort_key sk_relative (sp_skipped plan)\<rparr>))
       (plan_deletions E local remote rules options rs predeleted
         (protections E remote rules options rs)
         (plan\<lparr>sp_protected := sp_protected plan + pr_count (protections E remote rules options rs),
              sp_skipped := sp_skipped plan @ leftover_skips E options rs\<rparr>)))))))"
  unfolding plan_actions_def bind_r_def map_r_def Let_def by (rule refl)

lemma plan_actions_stages:
  assumes "plan_actions E root local remote rules options rs = Inr p"
  obtains p0 p1 pre p2 p3 p4 where
    "plan_root root remote (initial_plan local rules options (rs_skipped rs @ li_skipped local)) = Inr p0"
    and "fold_r (plan_entry E root remote rules options rs) (p0, {}) (om_values (li_entries local))
      = Inr (p1, pre)"
    and "(if po_compare options = Content
        then replace_uploads_with_server_copies E local remote rules options rs p1 else Inr p1) = Inr p2"
    and "fold_r (plan_rename E remote rules options rs) p2 (rs_renames rs) = Inr p3"
    and "plan_deletions E local remote rules options rs pre (protections E remote rules options rs)
        (p3\<lparr>sp_protected := sp_protected p3 + pr_count (protections E remote rules options rs),
            sp_skipped := sp_skipped p3 @ leftover_skips E options rs\<rparr>) = Inr p4"
    and "p = sort_plan (p4\<lparr>sp_skipped := sort_key sk_relative (sp_skipped p4)\<rparr>)"
proof -
  note u = assms [unfolded plan_actions_bind bind_r_Inr_iff map_r_Inr_iff]
  from u obtain p0 m s where root: "plan_root root remote
      (initial_plan local rules options (rs_skipped rs @ li_skipped local)) = Inr p0"
    and mounts: "fold_r (check_mount E local rs) p0
      (filter (\<lambda>e. r_mount e \<noteq> None) (om_values (ri_entries remote))) = Inr m"
    and loop: "fold_r (plan_entry E root remote rules options rs) (m, {})
        (om_values (li_entries local)) = Inr s"
    and tail: "(case s of (plan, predeleted) \<Rightarrow>
        bind_r (if po_compare options = Content
             then replace_uploads_with_server_copies E local remote rules options rs plan
             else Inr plan) (\<lambda>plan.
        bind_r (fold_r (plan_rename E remote rules options rs) plan (rs_renames rs)) (\<lambda>plan.
          map_r (\<lambda>plan. sort_plan (plan\<lparr>sp_skipped := sort_key sk_relative (sp_skipped plan)\<rparr>))
            (plan_deletions E local remote rules options rs predeleted
              (protections E remote rules options rs)
              (plan\<lparr>sp_protected := sp_protected plan + pr_count (protections E remote rules options rs),
                   sp_skipped := sp_skipped plan @ leftover_skips E options rs\<rparr>))))) = Inr p"
    by blast
  have "m = p0"
    using check_mount_fold [OF mounts] by simp
  obtain p1 pre where s: "s = (p1, pre)"
    by (cases s)
  note v = tail [unfolded s case_prod_conv bind_r_Inr_iff map_r_Inr_iff]
  from v obtain p2 p3 p4 where "(if po_compare options = Content
        then replace_uploads_with_server_copies E local remote rules options rs p1 else Inr p1) = Inr p2"
    and "fold_r (plan_rename E remote rules options rs) p2 (rs_renames rs) = Inr p3"
    and "plan_deletions E local remote rules options rs pre (protections E remote rules options rs)
        (p3\<lparr>sp_protected := sp_protected p3 + pr_count (protections E remote rules options rs),
            sp_skipped := sp_skipped p3 @ leftover_skips E options rs\<rparr>) = Inr p4"
    and "p = sort_plan (p4\<lparr>sp_skipped := sort_key sk_relative (sp_skipped p4)\<rparr>)"
    by metis
  then show thesis
    using that root loop unfolding s \<open>m = p0\<close> by blast
qed

lemma build_plan_planned:
  assumes "build_plan E root local remote rules options = Inr p"
    and "rs = plan_resolution E root local remote rules options"
  shows "\<exists>ups p4. planned E root local remote rules options rs p ups p4"
    and "check_limits local options p = Inr p"
proof -
  let ?es = "om_values (li_entries local)"
  let ?init = "initial_plan local rules options (rs_skipped rs @ li_skipped local)"
  let ?prot = "protections E remote rules options rs"
  obtain q where q: "plan_actions E root local remote rules options rs = Inr q"
    and lim: "check_limits local options q = Inr p"
    using assms by (auto simp: build_plan_def)
  then have "q = p" by (simp add: check_limits_Inr)
  with lim show "check_limits local options p = Inr p" by simp
  from q obtain p0 p1 pre p2 p3 p4 where
    root: "plan_root root remote ?init = Inr p0" and
    loop: "fold_r (plan_entry E root remote rules options rs) (p0, {}) ?es = Inr (p1, pre)" and
    copies: "(if po_compare options = Content
        then replace_uploads_with_server_copies E local remote rules options rs p1 else Inr p1) = Inr p2" and
    renames: "fold_r (plan_rename E remote rules options rs) p2 (rs_renames rs) = Inr p3" and
    dels: "plan_deletions E local remote rules options rs pre ?prot
        (p3\<lparr>sp_protected := sp_protected p3 + pr_count ?prot,
            sp_skipped := sp_skipped p3 @ leftover_skips E options rs\<rparr>) = Inr p4" and
    p: "p = sort_plan (p4\<lparr>sp_skipped := sort_key sk_relative (sp_skipped p4)\<rparr>)"
    unfolding \<open>q = p\<close> by (rule plan_actions_stages)
  note r = plan_root_Inr [OF root]
  note l = plan_entries [OF loop]
  have init: "sp_uploads ?init = []" "sp_copies ?init = []" "sp_pre_deletes ?init = []"
    "sp_post_deletes ?init = []" "sp_renames ?init = []" "sp_unchanged ?init = 0"
    "sp_creates ?init = []" "sp_skipped ?init = rs_skipped rs @ li_skipped local"
    by (simp_all add: initial_plan_def)
  define ups where "ups = concat (map (upload_for E root remote options rs) ?es)"
  have ups: "sp_uploads p1 = ups"
    using l(1) r init by (simp add: ups_def)
  have log: "logged (p1, pre)"
    using entry_log.fold_keeps [OF _ _ loop] r init by (simp add: logged_def list_all_iff)
  have cnt: "sp_unchanged p1 + length ups = length (filter (is_payload_file E rs) ?es)"
  proof -
    have "sum_list (map (\<lambda>e. if P e then 1 else 0) xs) = length (filter P xs)" for P and xs :: "local_entry list"
      by (induction xs) auto
    then show ?thesis
      using entry_count.fold_counts [OF loop] ups r init by simp
  qed
  have p1: "sp_copies p1 = []" "sp_post_deletes p1 = []" "sp_renames p1 = []"
    "sp_skipped p1 = rs_skipped rs @ li_skipped local"
    by (simp_all only: l(3-6) r(1-7) init)
  note c = copy_stage [OF copies p1(1), unfolded ups]
  have "sp_renames p2 = []"
    by (simp only: c(9) p1)
  note rn = plan_renames [OF renames this]
  note rnf = rename_frame_fields [OF rn(1)]
  have "sp_post_deletes (p3\<lparr>sp_protected := sp_protected p3 + pr_count ?prot,
            sp_skipped := sp_skipped p3 @ leftover_skips E options rs\<rparr>) = []"
    by (simp add: rnf(5) c(8) p1(2))
  note d = plan_deletions_facts [OF dels this]
  note df = delete_frame_fields [OF d(2), simplified]
  have eqs: "sp_copies p4 = sp_copies p2" "sp_uploads p4 = sp_uploads p2"
    "sp_creates p4 = sp_creates p1" "sp_pre_deletes p4 = sp_pre_deletes p1"
    "sp_unchanged p4 = sp_unchanged p1" "sp_renames p4 = sp_renames p3"
    by (simp_all only: df rnf c)
  have pre: "set (map da_relative (sp_pre_deletes p)) = pre"
    "mset (sp_pre_deletes p) = mset (sp_pre_deletes p1)"
    using log by (simp_all add: logged_def p sort_plan_def eqs)
  have "set (sp_skipped p2) \<subseteq> set (sp_skipped p)"
    using rnf(7) d(3) by (auto simp: p)
  then have skips: "set (rs_skipped rs @ li_skipped local) \<subseteq> set (sp_skipped p)"
    by (simp only: c(11) p1(4))
  have "planned E root local remote rules options rs p ups (p4\<lparr>sp_skipped := sort_key sk_relative (sp_skipped p4)\<rparr>)"
    unfolding planned_def Let_def
  proof (intro conjI)
    show "p = sort_plan (p4\<lparr>sp_skipped := sort_key sk_relative (sp_skipped p4)\<rparr>)"
      by (rule p)
    show "ups = concat (map (upload_for E root remote options rs) ?es)"
      by (rule ups_def)
    show "set (sp_uploads p) \<subseteq> set ups"
      using c(1) by (simp add: p eqs)
    show "length (sp_uploads p) + length (sp_copies p) = length ups"
      using c(2) by (simp add: p eqs)
    show "\<forall>u \<in> set ups. u \<in> set (sp_uploads p) \<or> (\<exists>c \<in> set (sp_copies p). copies_upload u c)"
      using c(3) by (simp add: p eqs)
    show "\<forall>c \<in> set (sp_copies p). po_compare options = Content \<and> po_server_copy options \<and>
         justified_copy E local remote rules rs (set (map da_relative (sp_pre_deletes p))) ups c"
      using c(4) log by (simp add: p eqs logged_def)
    show "po_compare options \<noteq> Content \<longrightarrow> set (sp_uploads p) = set ups"
      using c(5) ups by (auto simp: p eqs)
    show "set (sp_creates p) = set (concat (map (create_for E root remote rs) ?es)) \<union>
        (if ri_root_exists remote then {}
         else {\<lparr>ca_relative = [], ca_remote_path = root_str root, ca_reason = MissingRemote\<rparr>})"
      by (simp add: p eqs l(2) r(8) init(7))
    show "sp_unchanged p + length ups = length (filter (is_payload_file E rs) ?es)"
      using cnt by (simp add: p eqs)
    show "\<forall>e \<in> set ?es. planned_upload E remote options rs e \<noteq> None \<or> planned_create E remote rs e \<noteq> None
         \<longrightarrow> (\<exists>path. destination_of root rs e = Inr path)"
      by (rule l(7))
    have none: "sp_pre_deletes p0 = []"
      by (simp only: r(3) init(3))
    show origin: "\<forall>d \<in> set (sp_pre_deletes p). \<exists>e \<in> set ?es. \<exists>r \<in> set (planned_predeletes E remote rs e).
         predelete_of E (rs_pairs rs) (ri_entries remote) (po_compare options) r d"
      using l(8) by (simp add: p eqs none)
    show "\<forall>e \<in> set ?es. l_kind e = File \<longrightarrow>
        (\<forall>r \<in> set (planned_predeletes E remote rs e). \<not> kept_entry E rules rs r)"
      by (rule l(10))
    show "distinct (map da_relative (sp_pre_deletes p))"
      using log pre(2) by (simp add: logged_def) (metis mset_map mset_eq_imp_distinct_iff)
    show "sp_pre_deletes p \<noteq> [] \<longrightarrow> po_delete options"
    proof
      assume "sp_pre_deletes p \<noteq> []"
      then obtain d where "d \<in> set (sp_pre_deletes p)"
        by (cases "sp_pre_deletes p") auto
      with origin obtain e r where "e \<in> set ?es" "r \<in> set (planned_predeletes E remote rs e)"
        by blast
      with l(9) show "po_delete options"
        by force
    qed
    show "list_all2 (mirror_deletion E remote options rs)
        (mirror_candidates E local remote rules options rs (set (map da_relative (sp_pre_deletes p))))
        (sp_post_deletes (p4\<lparr>sp_skipped := sort_key sk_relative (sp_skipped p4)\<rparr>))"
      using d(1) pre(1) by (simp add: mirror_candidates_def)
    show "\<forall>a \<in> set (sp_renames p). justified_rename E remote rules options rs a"
      using rn(2) by (simp add: p eqs)
    show "set (rs_skipped rs @ li_skipped local) \<subseteq> set (sp_skipped p)"
      by (rule skips)
  qed
  then show "\<exists>ups p4. planned E root local remote rules options rs p ups p4"
    by blast
qed

end
