(* ===== verification/Demo.thy ===== *)
theory Demo
  imports PlanStages
begin

text \<open>
  Concrete inventories, roots and options: the inputs at which the properties of the planner are
  applied. The plans are evaluated by the kernel from the definitions of the model.
\<close>

definition demo_root :: remote_root where
  "demo_root = RemoteRoot ''/s/d''"

definition demo_local :: "string \<Rightarrow> entry_kind \<Rightarrow> u64 \<Rightarrow> int \<Rightarrow> fingerprint option \<Rightarrow> string \<times> local_entry" where
  "demo_local rel kind sz ms digest =
     (rel, \<lparr>l_relative = rel, l_full_path = ''/src/'' @ rel, l_kind = kind, l_size = sz,
            l_mtime_ms = ms, l_identity = default_identity, l_md5 = digest\<rparr>)"

definition demo_remote :: "string \<Rightarrow> entry_kind \<Rightarrow> u64 \<Rightarrow> int \<Rightarrow> fingerprint option \<Rightarrow> string \<times> remote_entry" where
  "demo_remote rel kind sz s digest =
     (rel, \<lparr>r_relative = rel, r_path = ''/s/d/'' @ rel, r_kind = kind, r_size = sz, r_mtime = s,
            r_mount = None, r_md5 = digest\<rparr>)"

definition demo_options :: "bool \<Rightarrow> compare_mode \<Rightarrow> plan_options" where
  "demo_options delete compare =
     \<lparr>po_delete = delete, po_allow_empty_source = False, po_max_delete = 10,
      po_compare = compare, po_server_copy = True, po_scope = scope_root\<rparr>"

section \<open>A mirror run in metadata mode\<close>

definition mirror_local :: local_inventory where
  "mirror_local =
     \<lparr>li_root = ''/src'',
      li_entries =
        [demo_local ''a'' Directory 0 0 None, demo_local ''a/keep'' File 3 5000 None,
         demo_local ''a/new'' File 4 7000 None, demo_local ''edit'' File 9 6000 None],
      li_skipped = [skipped ''raw'' LinkOrReparsePoint]\<rparr>"

definition mirror_remote :: remote_inventory where
  "mirror_remote =
     \<lparr>ri_root_exists = True,
      ri_entries =
        [demo_remote ''a'' Directory 0 0 None, demo_remote ''a/keep'' File 3 5 None,
         demo_remote ''edit'' File 8 1 None, demo_remote ''old'' Directory 0 0 None,
         demo_remote ''old/gone'' File 4 2 None, demo_remote ''raw'' Directory 0 0 None]\<rparr>"

definition mirror_plan :: "sync_plan res" where
  "mirror_plan =
     build_plan plain_env demo_root mirror_local mirror_remote rules_none (demo_options True Metadata)"

definition mirror_result :: sync_plan where
  "mirror_result = projr mirror_plan"

lemma mirror_run:
  "build_plan plain_env demo_root mirror_local mirror_remote rules_none (demo_options True Metadata)
     = Inr mirror_result"
  "map da_relative (sp_post_deletes mirror_result) = [''old/gone'', ''old'']"
  "sp_pre_deletes mirror_result = []"
  "map (l_relative \<circ> ua_local) (sp_uploads mirror_result) = [''a/new'', ''edit'']"
  "map ua_remote_path (sp_uploads mirror_result) = [''/s/d/a/new'', ''/s/d/edit'']"
  "sp_unchanged mirror_result = 1"
proof -
  have e: "map_r (\<lambda>p. (map da_relative (sp_post_deletes p), sp_pre_deletes p,
      map (l_relative \<circ> ua_local) (sp_uploads p), map ua_remote_path (sp_uploads p), sp_unchanged p))
      mirror_plan =
    Inr ([''old/gone'', ''old''], [], [''a/new'', ''edit''], [''/s/d/a/new'', ''/s/d/edit''], 1)"
    by code_simp
  note r = map_r_result [OF e, folded mirror_result_def]
  show "build_plan plain_env demo_root mirror_local mirror_remote rules_none (demo_options True Metadata)
      = Inr mirror_result"
    using r(1) by (simp only: mirror_plan_def)
  show "map da_relative (sp_post_deletes mirror_result) = [''old/gone'', ''old'']"
    "sp_pre_deletes mirror_result = []"
    "map (l_relative \<circ> ua_local) (sp_uploads mirror_result) = [''a/new'', ''edit'']"
    "map ua_remote_path (sp_uploads mirror_result) = [''/s/d/a/new'', ''/s/d/edit'']"
    "sp_unchanged mirror_result = 1"
    using r(2) by (simp_all only: prod.inject)
qed

section \<open>A mirror run that replaces entries of the other kind\<close>

text \<open>
  The rules are those of a whitelist of folders: a file named \<open>notes\<close> is excluded, a folder of
  that name is not.
\<close>

definition folder_rules :: ignore_rules where
  "folder_rules =
     \<lparr>ir_composed = (\<lambda>p is_dir. p = ''notes'' \<and> \<not> is_dir),
      ir_exact = (\<lambda>p is_dir. p = ''notes'' \<and> \<not> is_dir), ir_fold = False\<rparr>"

definition replace_local :: local_inventory where
  "replace_local =
     \<lparr>li_root = ''/src'',
      li_entries =
        [demo_local ''doc'' File 5 1000 None, demo_local ''notes'' Directory 0 0 None,
         demo_local ''notes/n'' File 2 2000 None],
      li_skipped = []\<rparr>"

definition replace_remote :: remote_inventory where
  "replace_remote =
     \<lparr>ri_root_exists = True,
      ri_entries =
        [demo_remote ''doc'' Directory 0 0 None, demo_remote ''doc/x'' File 1 1 None,
         demo_remote ''notes'' File 7 3 None]\<rparr>"

definition replace_plan :: "sync_plan res" where
  "replace_plan =
     build_plan plain_env demo_root replace_local replace_remote folder_rules (demo_options True Metadata)"

definition replace_result :: sync_plan where
  "replace_result = projr replace_plan"

lemma replace_run:
  "build_plan plain_env demo_root replace_local replace_remote folder_rules (demo_options True Metadata)
     = Inr replace_result"
  "map da_relative (sp_pre_deletes replace_result) = [''doc/x'', ''doc'', ''notes'']"
  "map ca_relative (sp_creates replace_result) = [''notes'']"
  "map (l_relative \<circ> ua_local) (sp_uploads replace_result) = [''doc'', ''notes/n'']"
proof -
  have e: "map_r (\<lambda>p. (map da_relative (sp_pre_deletes p), map ca_relative (sp_creates p),
      map (l_relative \<circ> ua_local) (sp_uploads p))) replace_plan =
    Inr ([''doc/x'', ''doc'', ''notes''], [''notes''], [''doc'', ''notes/n''])"
    by code_simp
  note r = map_r_result [OF e, folded replace_result_def]
  show "build_plan plain_env demo_root replace_local replace_remote folder_rules (demo_options True Metadata)
      = Inr replace_result"
    using r(1) by (simp only: replace_plan_def)
  show "map da_relative (sp_pre_deletes replace_result) = [''doc/x'', ''doc'', ''notes'']"
    "map ca_relative (sp_creates replace_result) = [''notes'']"
    "map (l_relative \<circ> ua_local) (sp_uploads replace_result) = [''doc'', ''notes/n'']"
    using r(2) by (simp_all only: prod.inject)
qed

section \<open>A content run that moves a file on the NAS\<close>

definition demo_digest :: "u8 \<Rightarrow> fingerprint" where
  "demo_digest b = Fingerprint [b] (Some (StrongDigests 1 [b]))"

definition move_local :: local_inventory where
  "move_local =
     \<lparr>li_root = ''/src'',
      li_entries =
        [demo_local ''new'' Directory 0 0 None, demo_local ''new/f'' File 4 2500 (Some (demo_digest 7)),
         demo_local ''z'' File 3 1000 (Some (demo_digest 9))],
      li_skipped = []\<rparr>"

definition move_remote :: remote_inventory where
  "move_remote =
     \<lparr>ri_root_exists = True,
      ri_entries =
        [demo_remote ''old'' Directory 0 0 None, demo_remote ''old/f'' File 4 2 (Some (demo_digest 7))]\<rparr>"

definition move_plan :: "sync_plan res" where
  "move_plan =
     build_plan plain_env demo_root move_local move_remote rules_none (demo_options True Content)"

definition move_result :: sync_plan where
  "move_result = projr move_plan"

lemma move_run:
  "build_plan plain_env demo_root move_local move_remote rules_none (demo_options True Content)
     = Inr move_result"
  "map (\<lambda>c. (cp_from_relative c, cp_to_relative c)) (sp_copies move_result) = [(''old/f'', ''new/f'')]"
  "map (l_relative \<circ> ua_local) (sp_uploads move_result) = [''z'']"
  "map da_relative (sp_post_deletes move_result) = [''old/f'', ''old'']"
  "map (\<lambda>d. da_guard d = None) (sp_post_deletes move_result) = [False, True]"
proof -
  have e: "map_r (\<lambda>p. (map (\<lambda>c. (cp_from_relative c, cp_to_relative c)) (sp_copies p),
      map (l_relative \<circ> ua_local) (sp_uploads p), map da_relative (sp_post_deletes p),
      map (\<lambda>d. da_guard d = None) (sp_post_deletes p))) move_plan =
    Inr ([(''old/f'', ''new/f'')], [''z''], [''old/f'', ''old''], [False, True])"
    by code_simp
  note r = map_r_result [OF e, folded move_result_def]
  show "build_plan plain_env demo_root move_local move_remote rules_none (demo_options True Content)
      = Inr move_result"
    using r(1) by (simp only: move_plan_def)
  show "map (\<lambda>c. (cp_from_relative c, cp_to_relative c)) (sp_copies move_result) = [(''old/f'', ''new/f'')]"
    "map (l_relative \<circ> ua_local) (sp_uploads move_result) = [''z'']"
    "map da_relative (sp_post_deletes move_result) = [''old/f'', ''old'']"
    "map (\<lambda>d. da_guard d = None) (sp_post_deletes move_result) = [False, True]"
    using r(2) by (simp_all only: prod.inject)
qed

end
