(* ===== verification/PlanDeletes.thy ===== *)
theory PlanDeletes
  imports Demo
begin

text \<open>
  What \<open>build_plan\<close> promises about deletions and renames: they are absent without
  \<open>--delete\<close>, within the limits, exactly the remote entries that nothing keeps, and each carries
  the proof the executor checks again; what the source could not read is never deleted.
\<close>

section \<open>What a plan's deletions are\<close>

lemma no_deletions_planned:
  assumes "build_plan E root local remote rules options = Inr p" and "\<not> po_delete options"
  shows "sp_pre_deletes p = []" and "sp_post_deletes p = []"
proof -
  obtain ups p4 where pl: "planned E root local remote rules options
      (plan_resolution E root local remote rules options) p ups p4"
    using build_plan_planned(1) [OF assms(1) refl] by blast
  show "sp_pre_deletes p = []"
    using plannedD(14) [OF pl] assms(2) by blast
  have "sp_post_deletes p4 = []"
    using plannedD(15) [OF pl] assms(2) by (simp add: mirror_candidates_def)
  then show "sp_post_deletes p = []"
    by (simp add: plannedD(1) [OF pl] sort_plan_def by_depth_down_def)
qed

lemma post_delete_origin:
  assumes "build_plan E root local remote rules options = Inr p"
    and "rs = plan_resolution E root local remote rules options"
  shows "\<And>d. d \<in> set (sp_post_deletes p) \<Longrightarrow>
      \<exists>r \<in> set (mirror_candidates E local remote rules options rs (set (map da_relative (sp_pre_deletes p)))).
        mirror_deletion E remote options rs r d"
    and "\<And>r. r \<in> set (mirror_candidates E local remote rules options rs (set (map da_relative (sp_pre_deletes p)))) \<Longrightarrow>
      \<exists>d \<in> set (sp_post_deletes p). mirror_deletion E remote options rs r d"
proof -
  let ?c = "mirror_candidates E local remote rules options rs (set (map da_relative (sp_pre_deletes p)))"
  obtain ups p4 where pl: "planned E root local remote rules options rs p ups p4"
    using build_plan_planned(1) [OF assms] by blast
  note all2 = plannedD(15) [OF pl]
  have same: "set (sp_post_deletes p) = set (sp_post_deletes p4)"
    by (simp add: plannedD(1) [OF pl])
  show "\<exists>r \<in> set ?c. mirror_deletion E remote options rs r d" if "d \<in> set (sp_post_deletes p)" for d
    using list_all2_in_right [OF all2] that same by blast
  show "\<exists>d \<in> set (sp_post_deletes p). mirror_deletion E remote options rs r d" if "r \<in> set ?c" for r
    using list_all2_in_left [OF all2 that] same by blast
qed

lemma pre_delete_origin:
  assumes "build_plan E root local remote rules options = Inr p"
    and "rs = plan_resolution E root local remote rules options"
    and "d \<in> set (sp_pre_deletes p)"
  obtains e r where "e \<in> set (om_values (li_entries local))"
    and "r \<in> set (planned_predeletes E remote rs e)"
    and "predelete_of E (rs_pairs rs) (ri_entries remote) (po_compare options) r d"
    and "l_kind e = File \<longrightarrow> \<not> kept_entry E rules rs r"
proof -
  obtain ups p4 where pl: "planned E root local remote rules options rs p ups p4"
    using build_plan_planned(1) [OF assms(1,2)] by blast
  show thesis
    using that plannedD(11,12) [OF pl] assms(3) by meson
qed

section \<open>Limits\<close>

text \<open>
  C8. Without \<open>--delete\<close> a plan holds no deletion and no rename, whatever the two inventories
  are.
\<close>

theorem plan_without_delete:
  assumes "build_plan E root local remote rules options = Inr p" and "\<not> po_delete options"
  shows "sp_pre_deletes p = [] \<and> sp_post_deletes p = [] \<and> sp_renames p = []"
proof -
  obtain ups p4 where pl: "planned E root local remote rules options
      (plan_resolution E root local remote rules options) p ups p4"
    using build_plan_planned(1) [OF assms(1) refl] by blast
  have "rs_renames (plan_resolution E root local remote rules options) = []"
    using assms(2) resolve_no_renames by (simp add: plan_resolution_def)
  then have "sp_renames p = []"
    using plannedD(16) [OF pl] by (cases "sp_renames p") (auto simp: justified_rename_def)
  then show ?thesis
    using no_deletions_planned [OF assms] by simp
qed

theorem plan_without_delete_witness:
  "sp_uploads (projr (build_plan plain_env demo_root mirror_local mirror_remote rules_none
     (demo_options False Metadata))) \<noteq> [] \<and>
   sp_post_deletes (projr (build_plan plain_env demo_root mirror_local mirror_remote rules_none
     (demo_options False Metadata))) = []"
proof -
  let ?r = "build_plan plain_env demo_root mirror_local mirror_remote rules_none (demo_options False Metadata)"
  have "map_r (\<lambda>p. sp_uploads p = []) ?r = Inr False"
    by code_simp
  note r = map_r_result [OF this]
  have "\<not> po_delete (demo_options False Metadata)"
    by (simp add: demo_options_def)
  then show ?thesis
    using plan_without_delete [OF r(1)] r(2) by simp
qed

text \<open>
  C12. A plan that is returned respects the limit on deletions, and a source without a single file
  deletes nothing unless the run allows it.
\<close>

theorem plan_limits:
  assumes "build_plan E root local remote rules options = Inr p"
  shows "delete_count p \<le> po_max_delete options \<and>
    (li_files local = 0 \<and> \<not> po_allow_empty_source options \<longrightarrow> delete_count p = 0)"
proof -
  have "check_limits local options p = Inr p"
    using build_plan_planned(2) [OF assms refl] .
  moreover have "\<not> po_delete options \<Longrightarrow> delete_count p = 0"
    using no_deletions_planned [OF assms] by (simp add: delete_count_def)
  ultimately show ?thesis
    by (cases "po_delete options") (auto simp: check_limits_Inr)
qed

theorem plan_limits_witness:
  "delete_count mirror_result = 2 \<and> delete_count mirror_result \<le> 10"
proof -
  have "delete_count mirror_result = 2"
    using arg_cong [OF mirror_run(2), of length] by (simp add: delete_count_def mirror_run(3))
  moreover have "delete_count mirror_result \<le> 10"
    using plan_limits [OF mirror_run(1)] by (simp add: demo_options_def)
  ultimately show ?thesis ..
qed

section \<open>Deletions\<close>

definition mirror_target ::
  "text_env \<Rightarrow> local_inventory \<Rightarrow> remote_inventory \<Rightarrow> ignore_rules \<Rightarrow> plan_options \<Rightarrow> resolution
     \<Rightarrow> sync_plan \<Rightarrow> remote_entry \<Rightarrow> bool"
where
  "mirror_target E local remote rules options rs p r =
     (r \<in> set (om_values (ri_entries remote)) \<and>
      scope_matches (po_scope options) (r_relative r) \<and>
      local_of (rs_pairs rs) local (r_relative r) = None \<and>
      \<not> is_protected E rules (rs_pairs rs) r \<and>
      \<not> shield_covers E (rs_folds rs) (r_relative r) \<and>
      \<not> is_leftover rs (r_relative r) \<and>
      r_relative r \<notin> set (map da_relative (sp_pre_deletes p)) \<and>
      (r_kind r = Directory \<longrightarrow>
        (\<forall>c \<in> set (om_values (ri_entries remote)).
           beneath (r_relative r) (r_relative c) \<longrightarrow>
             \<not> is_protected E rules (rs_pairs rs) c \<and>
             \<not> shield_covers E (rs_folds rs) (r_relative c))))"

lemma mirror_candidates_iff:
  "po_delete options \<Longrightarrow>
   r \<in> set (mirror_candidates E local remote rules options rs (set (map da_relative (sp_pre_deletes p))))
   \<longleftrightarrow> mirror_target E local remote rules options rs p r"
  unfolding mirror_candidates_def mirror_target_def deletable_def not_deletable_def
  by (auto simp: in_protected_dirs kept_entry_def)

text \<open>
  C9. The mirror deletions are exactly the remote entries that the scope names, that have no local
  counterpart, that nothing protects, that the shield does not cover, that are no leftover of a
  rename and that no replacement has removed already, and, for a folder, that hold no kept entry at any depth.
\<close>

theorem mirror_deletions_exact:
  assumes "build_plan E root local remote rules options = Inr p" and "po_delete options"
    and "rs = plan_resolution E root local remote rules options"
  shows "{(da_relative d, da_remote_path d, da_kind d) | d. d \<in> set (sp_post_deletes p)} =
    {(r_relative r, r_path r, r_kind r) | r. mirror_target E local remote rules options rs p r}"
proof -
  note target = mirror_candidates_iff [OF assms(2)]
  show ?thesis
  proof (intro equalityI subsetI)
    fix x
    assume "x \<in> {(da_relative d, da_remote_path d, da_kind d) | d. d \<in> set (sp_post_deletes p)}"
    then obtain d where d: "d \<in> set (sp_post_deletes p)" and
      x: "x = (da_relative d, da_remote_path d, da_kind d)"
      by blast
    from post_delete_origin(1) [OF assms(1,3) d] obtain r where
      "r \<in> set (mirror_candidates E local remote rules options rs
        (set (map da_relative (sp_pre_deletes p))))" and
      "mirror_deletion E remote options rs r d" ..
    then have "mirror_target E local remote rules options rs p r" "mirror_deletion E remote options rs r d"
      by (simp_all only: target)
    then show "x \<in> {(r_relative r, r_path r, r_kind r) | r.
        mirror_target E local remote rules options rs p r}"
      unfolding x mirror_deletion_def by auto
  next
    fix x
    assume "x \<in> {(r_relative r, r_path r, r_kind r) | r.
        mirror_target E local remote rules options rs p r}"
    then obtain r where r: "mirror_target E local remote rules options rs p r" and
      x: "x = (r_relative r, r_path r, r_kind r)"
      by blast
    from post_delete_origin(2) [OF assms(1,3), unfolded target, OF r] obtain d where
      "d \<in> set (sp_post_deletes p)" "mirror_deletion E remote options rs r d" ..
    then have "d \<in> set (sp_post_deletes p)" and "x = (da_relative d, da_remote_path d, da_kind d)"
      by (simp_all add: x mirror_deletion_def)
    then show "x \<in> {(da_relative d, da_remote_path d, da_kind d) | d. d \<in> set (sp_post_deletes p)}"
      by blast
  qed
qed

theorem mirror_deletions_exact_witness:
  "''old'' \<in> fst ` {(r_relative r, r_path r, r_kind r) | r.
     mirror_target plain_env mirror_local mirror_remote rules_none (demo_options True Metadata)
       (plan_resolution plain_env demo_root mirror_local mirror_remote rules_none
         (demo_options True Metadata)) mirror_result r}"
proof -
  have "fst ` {(da_relative d, da_remote_path d, da_kind d) | d. d \<in> set (sp_post_deletes mirror_result)}
      = set (map da_relative (sp_post_deletes mirror_result))"
    by force
  moreover have "po_delete (demo_options True Metadata)"
    by (simp add: demo_options_def)
  ultimately show ?thesis
    using mirror_deletions_exact [OF mirror_run(1) _ refl] by (simp only: mirror_run(2)) simp
qed

definition carries_proof ::
  "remote_inventory \<Rightarrow> plan_options \<Rightarrow> delete_action \<Rightarrow> bool"
where
  "carries_proof remote options d =
     (\<exists>r \<in> set (om_values (ri_entries remote)).
        da_relative d = r_relative r \<and> da_remote_path d = r_path r \<and>
        sn_kind (da_snapshot d) = r_kind r \<and> sn_size (da_snapshot d) = r_size r \<and>
        sn_mtime (da_snapshot d) = r_mtime r \<and>
        (requires_deletion_digest (po_compare options) \<and> r_kind r = File \<and> 0 < r_size r \<longrightarrow>
           (\<exists>fp. r_md5 r = Some fp \<and> has_full_proof fp \<and> sn_md5 (da_snapshot d) = Some fp)))"

lemma om_get_values: "om_get m k = Some v \<Longrightarrow> v \<in> set (om_values m)"
  by (auto simp: om_values_in dest: om_get_Some_in)

lemma om_prefixed_in: "x \<in> set (om_prefixed q m) \<Longrightarrow> x \<in> set m"
  unfolding om_prefixed_def by (rule set_dropWhileD) (drule set_takeWhileD, blast)

lemma remote_subtree_values:
  assumes "r \<in> set (remote_subtree entries rel)"
  shows "r \<in> set (om_values entries)"
proof -
  have "om_get entries rel = Some r \<or> r \<in> snd ` set (om_prefixed (rel @ [slash]) entries)"
    using assms by (auto simp: remote_subtree_def split: option.splits)
  then show ?thesis
  proof
    assume "om_get entries rel = Some r"
    then show ?thesis by (rule om_get_values)
  next
    assume "r \<in> snd ` set (om_prefixed (rel @ [slash]) entries)"
    then show ?thesis by (auto simp: om_values_def dest!: om_prefixed_in)
  qed
qed

lemma planned_predeletes_values:
  "r \<in> set (planned_predeletes E remote rs e) \<Longrightarrow> r \<in> set (om_values (ri_entries remote))"
  by (auto simp: planned_predeletes_def remote_of_def split: option.splits if_splits
      dest: om_get_values remote_subtree_values)

text \<open>
  C10. Every deletion of a plan, before or after the writes, names an entry of the remote inventory
  by its own path, and its snapshot is that entry's: kind, size and time. In the modes that demand
  a digest, a file that is not empty carries the full MD5/CRC32/SHA-256 fingerprint the inventory
  holds for it; an incomplete one never reaches a plan.
\<close>

theorem deletions_carry_proof:
  assumes "build_plan E root local remote rules options = Inr p"
  shows "list_all (carries_proof remote options) (sp_pre_deletes p) \<and>
    list_all (carries_proof remote options) (sp_post_deletes p)"
proof -
  let ?rs = "plan_resolution E root local remote rules options"
  have "carries_proof remote options d" if d: "d \<in> set (sp_pre_deletes p)" for d
  proof -
    obtain e r where "r \<in> set (planned_predeletes E remote ?rs e)"
      "predelete_of E (rs_pairs ?rs) (ri_entries remote) (po_compare options) r d"
      by (rule pre_delete_origin [OF assms refl d])
    then show ?thesis
      unfolding carries_proof_def
      by (intro bexI [of _ r] planned_predeletes_values)
        (auto simp: predelete_of_def deletion_snapshot_Inr deletion_digest_Inr)
  qed
  moreover have "carries_proof remote options d" if d: "d \<in> set (sp_post_deletes p)" for d
  proof -
    from post_delete_origin(1) [OF assms refl d] obtain r where
      "r \<in> set (mirror_candidates E local remote rules options ?rs
        (set (map da_relative (sp_pre_deletes p))))" "mirror_deletion E remote options ?rs r d" ..
    then show ?thesis
      unfolding carries_proof_def
      by (intro bexI [of _ r])
        (auto simp: mirror_deletion_def deletion_snapshot_Inr deletion_digest_Inr mirror_candidates_def)
  qed
  ultimately show ?thesis
    by (simp add: list_all_iff)
qed

theorem deletions_carry_proof_witness:
  "\<exists>d \<in> set (sp_post_deletes move_result). da_relative d = ''old/f'' \<and>
     sn_md5 (da_snapshot d) = Some (demo_digest 7)"
proof -
  have "''old/f'' \<in> set (map da_relative (sp_post_deletes move_result))"
    by (simp add: move_run(4))
  then obtain d where d: "d \<in> set (sp_post_deletes move_result)" "da_relative d = ''old/f''"
    by auto
  have "list_all (carries_proof move_remote (demo_options True Content)) (sp_post_deletes move_result)"
    using deletions_carry_proof [OF move_run(1)] ..
  then have "carries_proof move_remote (demo_options True Content) d"
    using d(1) by (simp add: list_all_iff)
  then have "sn_md5 (da_snapshot d) = Some (demo_digest 7)"
    using d(2)
    by (auto simp: carries_proof_def move_remote_def om_values_def demo_remote_def demo_options_def)
  with d show ?thesis by blast
qed

section \<open>What is skipped is left alone\<close>

lemma upload_for_in:
  "u \<in> set (upload_for E root remote options rs e) \<longleftrightarrow>
     (\<exists>reason expected path.
        planned_upload E remote options rs e = Some (reason, expected) \<and>
        destination_of root rs e = Inr path \<and>
        u = \<lparr>ua_local = e, ua_remote_path = path, ua_reason = reason, ua_expected = expected\<rparr>)"
  by (auto simp: upload_for_def split: option.splits sum.splits)

lemma create_for_in:
  "c \<in> set (create_for E root remote rs e) \<longleftrightarrow>
     (\<exists>reason path.
        planned_create E remote rs e = Some reason \<and> destination_of root rs e = Inr path \<and>
        c = \<lparr>ca_relative = l_relative e, ca_remote_path = path, ca_reason = reason\<rparr>)"
  by (auto simp: create_for_def split: option.splits sum.splits)

lemma write_uncovered:
  assumes "planned E root local remote rules options rs p ups p4"
  shows "\<And>u. u \<in> set ups \<Longrightarrow> \<not> shield_covers E (rs_folds rs) (l_relative (ua_local u))"
    and "\<And>u. u \<in> set (sp_uploads p) \<Longrightarrow> \<not> shield_covers E (rs_folds rs) (l_relative (ua_local u))"
    and "\<And>c. c \<in> set (sp_copies p) \<Longrightarrow> \<not> shield_covers E (rs_folds rs) (cp_to_relative c)"
    and "\<And>c. c \<in> set (sp_creates p) \<Longrightarrow>
      ca_relative c = [] \<or> \<not> shield_covers E (rs_folds rs) (ca_relative c)"
proof -
  note d = plannedD [OF assms]
  show ups: "\<not> shield_covers E (rs_folds rs) (l_relative (ua_local u))" if "u \<in> set ups" for u
    using that d(2) by (auto simp: upload_for_in planned_upload_def split: if_splits)
  show "\<not> shield_covers E (rs_folds rs) (l_relative (ua_local u))" if "u \<in> set (sp_uploads p)" for u
    using that d(3) ups by blast
  show "\<not> shield_covers E (rs_folds rs) (cp_to_relative c)" if "c \<in> set (sp_copies p)" for c
  proof -
    have "\<exists>u \<in> set ups. copies_upload u c"
      using d(6) that justified_copy_upload by blast
    then show ?thesis
      using ups by (auto simp: copies_upload_def)
  qed
  show "ca_relative c = [] \<or> \<not> shield_covers E (rs_folds rs) (ca_relative c)"
    if "c \<in> set (sp_creates p)" for c
  proof -
    have "c \<in> set (concat (map (create_for E root remote rs) (om_values (li_entries local)))) \<or> ca_relative c = []"
      using that unfolding d(8) by (auto split: if_splits)
    then show ?thesis
      by (auto simp: create_for_in planned_create_def split: if_splits)
  qed
qed

text \<open>
  C11. A path the local walk skipped is reported by the plan, and the plan leaves it and everything
  beneath it alone: it creates, uploads, copies and mirror-deletes nothing there. Unknown is never
  taken for absent.
\<close>

theorem skipped_paths_untouched:
  assumes "text_laws E" and "build_plan E root local remote rules options = Inr p"
    and "s \<in> set (li_skipped local)" and "sk_relative s \<noteq> []"
  shows "s \<in> set (sp_skipped p) \<and>
    list_all (\<lambda>c. \<not> at_or_beneath (sk_relative s) (ca_relative c)) (sp_creates p) \<and>
    list_all (\<lambda>u. \<not> at_or_beneath (sk_relative s) (l_relative (ua_local u))) (sp_uploads p) \<and>
    list_all (\<lambda>c. \<not> at_or_beneath (sk_relative s) (cp_to_relative c)) (sp_copies p) \<and>
    list_all (\<lambda>d. \<not> at_or_beneath (sk_relative s) (da_relative d)) (sp_post_deletes p)"
proof -
  let ?rs = "plan_resolution E root local remote rules options"
  obtain ups p4 where pl: "planned E root local remote rules options ?rs p ups p4"
    using build_plan_planned(1) [OF assms(2) refl] by blast
  have "shield_covers E (rs_folds ?rs) (sk_relative s)"
    using assms(3) by (simp add: plan_resolution_def resolve_covers_local_skips)
  then have covered: "shield_covers E (rs_folds ?rs) q" if "at_or_beneath (sk_relative s) q" for q
    using shield_covers_beneath [OF assms(1) _ that] by blast
  have "\<not> at_or_beneath (sk_relative s) []"
    using assms(4) by (simp add: at_or_beneath_def)
  moreover have "\<not> shield_covers E (rs_folds ?rs) (da_relative d)" if "d \<in> set (sp_post_deletes p)" for d
    using post_delete_origin(1) [OF assms(2) refl that]
    by (auto simp: mirror_candidates_def deletable_def not_deletable_def mirror_deletion_def)
  moreover have "s \<in> set (sp_skipped p)"
    using plannedD(17) [OF pl] assms(3) by auto
  ultimately show ?thesis
    unfolding list_all_iff using write_uncovered(2-4) [OF pl] covered by metis
qed

theorem skipped_paths_untouched_witness:
  "skipped ''raw'' LinkOrReparsePoint \<in> set (sp_skipped mirror_result) \<and>
   ''raw'' \<in> set (om_keys (ri_entries mirror_remote)) \<and>
   list_all (\<lambda>d. \<not> at_or_beneath ''raw'' (da_relative d)) (sp_post_deletes mirror_result)"
  using skipped_paths_untouched [OF plain_env_laws mirror_run(1), of "skipped ''raw'' LinkOrReparsePoint"]
  by (simp add: mirror_local_def mirror_remote_def demo_remote_def om_keys_def skipped_def)

text \<open>
  C17. A deletion that makes room for a source file takes nothing that the plan must keep: no
  protected entry and none the shield covers is deleted when a file replaces a folder.
\<close>

theorem file_replacement_keeps_protected:
  assumes "build_plan E root local remote rules options = Inr p"
    and "rs = plan_resolution E root local remote rules options"
    and "d \<in> set (sp_pre_deletes p)"
  shows "\<exists>e \<in> set (om_values (li_entries local)). \<exists>r \<in> set (om_values (ri_entries remote)).
    da_relative d = r_relative r \<and> da_remote_path d = r_path r \<and>
    (if l_kind e = File
     then \<not> is_protected E rules (rs_pairs rs) r \<and> \<not> shield_covers E (rs_folds rs) (r_relative r)
     else r_kind r = File \<and> r_relative r = r_relative (the (remote_of (rs_pairs rs) remote (l_relative e))))"
proof -
  obtain e r where e: "e \<in> set (om_values (li_entries local))"
    and r: "r \<in> set (planned_predeletes E remote rs e)"
    and d: "predelete_of E (rs_pairs rs) (ri_entries remote) (po_compare options) r d"
    and kept: "l_kind e = File \<longrightarrow> \<not> kept_entry E rules rs r"
    by (rule pre_delete_origin [OF assms])
  have "l_kind e \<noteq> File \<Longrightarrow>
      r_kind r = File \<and> r_relative r = r_relative (the (remote_of (rs_pairs rs) remote (l_relative e)))"
    using r by (cases "l_kind e")
      (auto simp: planned_predeletes_def split: option.splits if_splits, metis entry_kind.exhaust)
  then show ?thesis
    using e d kept planned_predeletes_values [OF r]
    by (intro bexI [of _ e] bexI [of _ r]) (auto simp: predelete_of_def kept_entry_def)
qed

theorem file_replacement_keeps_protected_witness:
  "\<exists>d \<in> set (sp_pre_deletes replace_result). \<exists>e \<in> set (om_values (li_entries replace_local)).
     da_relative d = ''doc/x'' \<and>
     (\<exists>r \<in> set (om_values (ri_entries replace_remote)). da_relative d = r_relative r)"
proof -
  have "''doc/x'' \<in> set (map da_relative (sp_pre_deletes replace_result))"
    by (simp add: replace_run(2))
  then obtain d where d: "d \<in> set (sp_pre_deletes replace_result)" "da_relative d = ''doc/x''"
    by auto
  then show ?thesis
    using file_replacement_keeps_protected [OF replace_run(1) refl d(1)] by blast
qed

text \<open>
  A folder that replaces a file does not ask the same question: with the rules of a whitelist of
  folders, the run below deletes the remote file \<open>notes\<close>, which the rules exclude from
  deletion.
\<close>

lemma directory_replaces_excluded_file:
  "\<exists>d \<in> set (sp_pre_deletes replace_result). \<exists>r \<in> set (om_values (ri_entries replace_remote)).
     da_relative d = r_relative r \<and>
     is_protected plain_env folder_rules
       (rs_pairs (plan_resolution plain_env demo_root replace_local replace_remote folder_rules
         (demo_options True Metadata))) r"
proof -
  have "''notes'' \<in> set (map da_relative (sp_pre_deletes replace_result))"
    by (simp add: replace_run(2))
  then obtain d where d: "d \<in> set (sp_pre_deletes replace_result)" "da_relative d = ''notes''"
    by auto
  let ?r = "snd (demo_remote ''notes'' File 7 3 None)"
  have "?r \<in> set (om_values (ri_entries replace_remote))"
    by (simp add: replace_remote_def om_values_def)
  moreover have "is_protected plain_env folder_rules pairs ?r" for pairs
    by (simp add: is_protected_def is_protected_as_spelled_def excludes_for_deletion_def folder_rules_def
        demo_remote_def is_dir_def)
  ultimately show ?thesis
    using d by (intro bexI [of _ d] bexI [of _ ?r]) (simp_all add: demo_remote_def)
qed

end
