(* ===== verification/PlanWrites.thy ===== *)
theory PlanWrites
  imports PlanDeletes
begin

text \<open>
  What \<open>build_plan\<close> promises about writes: an upload exists exactly where the comparison asks
  for one, every source file is accounted for once, nothing is written outside the destination, a
  server copy replaces an upload only on full proof, and the order of the actions is one the NAS
  can carry out.
\<close>

section \<open>Comparison\<close>

lemma int_div_1000: "s = m div 1000 \<longleftrightarrow> 1000 * s \<le> m \<and> m < 1000 * s + 1000" for s m :: int
proof -
  define d where "d = m div 1000"
  define k where "k = m mod 1000"
  have "m = 1000 * d + k" and "0 \<le> k" and "k < 1000"
    by (simp_all add: d_def k_def)
  then show ?thesis
    unfolding d_def [symmetric] by linarith
qed

text \<open>
  Two times agree exactly when the remote second is the local time's floor or its half-up
  rounding: the local time lies between half a second before and one second after it.
\<close>

theorem mtimes_agree_window:
  assumes "ms + 500 \<le> i64_max" and "i64_min \<le> ms"
  shows "mtimes_agree ms s \<longleftrightarrow> - 500 \<le> ms - 1000 * s \<and> ms - 1000 * s < 1000"
proof -
  have "i64_sat_add ms 500 = ms + 500"
    using assms by (simp add: i64_sat_add_def)
  then show ?thesis
    by (auto simp: mtimes_agree_def int_div_1000)
qed

theorem mtimes_agree_window_witness:
  "mtimes_agree 3700 4 \<and> \<not> mtimes_agree 3200 4"
  using mtimes_agree_window [of 3700 4] mtimes_agree_window [of 3200 4]
  by (simp add: i64_max_def i64_min_def)

text \<open>
  What each mode accepts as equal. Size alone; size and time; size and, unless both files are
  empty, the digests of both sides; nothing at all in a forced run.
\<close>

theorem compare_files_equal_iff:
  "compare_files l r mode = None \<longleftrightarrow>
     l_size l = r_size r \<and>
     (case mode of
        Force \<Rightarrow> False
      | SizeOnly \<Rightarrow> True
      | Metadata \<Rightarrow> mtimes_agree (l_mtime_ms l) (r_mtime r)
      | Content \<Rightarrow>
          if l_size l = 0 then mtimes_agree (l_mtime_ms l) (r_mtime r)
          else (\<exists>a b. l_md5 l = Some a \<and> r_md5 r = Some b \<and> compare_content a b \<noteq> Differs))"
  by (cases mode)
    (auto simp: compare_files_def Let_def split: option.splits content_match.splits)

section \<open>Uploads\<close>

lemma planned_upload_scheduled:
  assumes "planned E root local remote rules options rs p ups p4"
    and "e \<in> set (om_values (li_entries local))"
    and "planned_upload E remote options rs e = Some (reason, expected)"
  shows "\<exists>path. destination_of root rs e = Inr path \<and>
    \<lparr>ua_local = e, ua_remote_path = path, ua_reason = reason, ua_expected = expected\<rparr> \<in> set ups"
proof -
  note d = plannedD [OF assms(1)]
  obtain path where path: "destination_of root rs e = Inr path"
    using d(10) assms(2,3) by auto
  have "\<lparr>ua_local = e, ua_remote_path = path, ua_reason = reason, ua_expected = expected\<rparr>
      \<in> set (upload_for E root remote options rs e)"
    using assms(3) path by (simp add: upload_for_in)
  then have "\<lparr>ua_local = e, ua_remote_path = path, ua_reason = reason, ua_expected = expected\<rparr> \<in> set ups"
    using assms(2) unfolding d(2) by auto
  with path show ?thesis by blast
qed

lemma ups_planned:
  assumes "planned E root local remote rules options rs p ups p4" and "u \<in> set ups"
  shows "ua_local u \<in> set (om_values (li_entries local))"
    and "planned_upload E remote options rs (ua_local u) = Some (ua_reason u, ua_expected u)"
    and "destination_of root rs (ua_local u) = Inr (ua_remote_path u)"
  using assms(2) unfolding plannedD(2) [OF assms(1)] by (auto simp: upload_for_in)

lemma ups_count:
  assumes "planned E root local remote rules options rs p ups p4"
  shows "length ups = length (filter (\<lambda>e. planned_upload E remote options rs e \<noteq> None) (om_values (li_entries local)))"
proof -
  note d = plannedD [OF assms]
  have one: "length (upload_for E root remote options rs e) = (if planned_upload E remote options rs e \<noteq> None then 1 else 0)"
    if "e \<in> set (om_values (li_entries local))" for e
    using d(10) that by (auto simp: upload_for_def split: option.splits sum.splits)
  have "length (concat (map (upload_for E root remote options rs) es))
      = length (filter (\<lambda>e. planned_upload E remote options rs e \<noteq> None) es)"
    if "set es \<subseteq> set (om_values (li_entries local))" for es
    using that
  proof (induction es)
    case (Cons e es)
    then show ?case using one [of e] by simp
  qed simp
  then show ?thesis
    unfolding d(2) by blast
qed

text \<open>
  C13. A source file is scheduled, as an upload or as the server copy that stands for it, exactly
  when the specification of its entry asks for one, and once: the upload carries that reason and that
  expected remote state, and the upload or the copy goes to the destination of the entry's remote
  spelling. There are as many uploads and copies together as entries that ask for one.
\<close>

theorem uploads_exact:
  assumes "build_plan E root local remote rules options = Inr p"
    and "rs = plan_resolution E root local remote rules options"
  shows "(\<forall>e \<in> set (om_values (li_entries local)). \<forall>reason expected.
      planned_upload E remote options rs e = Some (reason, expected) \<longrightarrow>
        (\<exists>path. destination_of root rs e = Inr path \<and>
          (\<lparr>ua_local = e, ua_remote_path = path, ua_reason = reason, ua_expected = expected\<rparr>
             \<in> set (sp_uploads p) \<or>
           (\<exists>c \<in> set (sp_copies p). cp_local c = e \<and> cp_to_remote_path c = path)))) \<and>
    (\<forall>u \<in> set (sp_uploads p). ua_local u \<in> set (om_values (li_entries local)) \<and>
      planned_upload E remote options rs (ua_local u) = Some (ua_reason u, ua_expected u) \<and>
      destination_of root rs (ua_local u) = Inr (ua_remote_path u)) \<and>
    (\<forall>c \<in> set (sp_copies p). cp_local c \<in> set (om_values (li_entries local)) \<and>
      planned_upload E remote options rs (cp_local c) \<noteq> None \<and>
      cp_to_relative c = l_relative (cp_local c) \<and>
      destination_of root rs (cp_local c) = Inr (cp_to_remote_path c)) \<and>
    length (sp_uploads p) + length (sp_copies p) =
      length (filter (\<lambda>e. planned_upload E remote options rs e \<noteq> None) (om_values (li_entries local)))"
proof -
  obtain ups p4 where pl: "planned E root local remote rules options rs p ups p4"
    using build_plan_planned(1) [OF assms] by blast
  note d = plannedD [OF pl]
  have scheduled: "\<exists>path. destination_of root rs e = Inr path \<and>
      (\<lparr>ua_local = e, ua_remote_path = path, ua_reason = reason, ua_expected = expected\<rparr> \<in> set (sp_uploads p) \<or>
       (\<exists>c \<in> set (sp_copies p). cp_local c = e \<and> cp_to_remote_path c = path))"
    if e: "e \<in> set (om_values (li_entries local))" "planned_upload E remote options rs e = Some (reason, expected)"
    for e reason expected
  proof -
    from planned_upload_scheduled [OF pl e] obtain path where
      path: "destination_of root rs e = Inr path" and
      u: "\<lparr>ua_local = e, ua_remote_path = path, ua_reason = reason, ua_expected = expected\<rparr> \<in> set ups"
      by blast
    then show ?thesis
      using bspec [OF d(5) u] by (auto simp: copies_upload_def)
  qed
  have copied: "cp_local c \<in> set (om_values (li_entries local)) \<and> planned_upload E remote options rs (cp_local c) \<noteq> None \<and>
      cp_to_relative c = l_relative (cp_local c) \<and> destination_of root rs (cp_local c) = Inr (cp_to_remote_path c)"
    if "c \<in> set (sp_copies p)" for c
  proof -
    have "\<exists>u \<in> set ups. copies_upload u c"
      using d(6) that justified_copy_upload by blast
    then obtain u where "u \<in> set ups" "copies_upload u c" by blast
    then show ?thesis
      using ups_planned [OF pl] by (auto simp: copies_upload_def)
  qed
  have "u \<in> set ups" if "u \<in> set (sp_uploads p)" for u
    using d(3) that by blast
  then show ?thesis
    using scheduled copied ups_planned [OF pl] d(4) ups_count [OF pl] by auto
qed

theorem uploads_exact_witness:
  "\<exists>u \<in> set (sp_uploads mirror_result). l_relative (ua_local u) = ''edit'' \<and>
     planned_upload plain_env mirror_remote (demo_options True Metadata)
       (plan_resolution plain_env demo_root mirror_local mirror_remote rules_none
         (demo_options True Metadata)) (ua_local u) = Some (ua_reason u, ua_expected u)"
proof -
  have "''edit'' \<in> set (map (l_relative \<circ> ua_local) (sp_uploads mirror_result))"
    by (simp add: mirror_run(4))
  then obtain u where "u \<in> set (sp_uploads mirror_result)" "l_relative (ua_local u) = ''edit''"
    by auto
  then show ?thesis
    using uploads_exact [OF mirror_run(1) refl] by blast
qed

text \<open>
  C15. Every file of the source that the shield leaves uncovered is counted once: unchanged,
  uploaded or copied.
\<close>

theorem files_accounted:
  assumes "build_plan E root local remote rules options = Inr p"
    and "rs = plan_resolution E root local remote rules options"
  shows "sp_unchanged p + length (sp_uploads p) + length (sp_copies p) =
    length (filter (\<lambda>e. l_kind e = File \<and> \<not> shield_covers E (rs_folds rs) (l_relative e))
      (om_values (li_entries local)))"
proof -
  obtain ups p4 where pl: "planned E root local remote rules options rs p ups p4"
    using build_plan_planned(1) [OF assms] by blast
  have "is_payload_file E rs = (\<lambda>e. l_kind e = File \<and> \<not> shield_covers E (rs_folds rs) (l_relative e))"
    by (rule ext) (simp add: is_payload_file_def)
  then show ?thesis
    using plannedD(4,9) [OF pl] by simp
qed

theorem files_accounted_witness:
  "sp_unchanged mirror_result + length (sp_uploads mirror_result) + length (sp_copies mirror_result) = 3"
proof -
  have "length (filter (\<lambda>e. l_kind e = File \<and> \<not> shield_covers plain_env
      (rs_folds (plan_resolution plain_env demo_root mirror_local mirror_remote rules_none
        (demo_options True Metadata))) (l_relative e)) (om_values (li_entries mirror_local))) = 3"
    by code_simp
  then show ?thesis
    using files_accounted [OF mirror_run(1) refl] by simp
qed

text \<open>
  In a forced run no file counts as unchanged, and an uncovered source file whose path holds a
  remote file is written with the reason \<open>forced\<close>, whatever the two files are.
\<close>

theorem force_overwrites:
  assumes "build_plan E root local remote rules options = Inr p" and "po_compare options = Force"
    and "rs = plan_resolution E root local remote rules options"
  shows "sp_unchanged p = 0 \<and>
    (\<forall>e \<in> set (om_values (li_entries local)). \<forall>r.
       l_kind e = File \<and> \<not> shield_covers E (rs_folds rs) (l_relative e) \<and>
       remote_of (rs_pairs rs) remote (l_relative e) = Some r \<and> r_kind r = File \<longrightarrow>
       (\<exists>u \<in> set (sp_uploads p). ua_local u = e \<and> ua_reason u = Forced))"
proof -
  obtain ups p4 where pl: "planned E root local remote rules options rs p ups p4"
    using build_plan_planned(1) [OF assms(1,3)] by blast
  note d = plannedD [OF pl]
  have same: "set (sp_uploads p) = set ups"
    using d(7) assms(2) by simp
  have forced: "planned_upload E remote options rs e = None \<longleftrightarrow> \<not> is_payload_file E rs e" for e
    using assms(2)
    by (cases "l_kind e")
      (auto simp: planned_upload_def is_payload_file_def compare_files_def split: option.splits)
  have "length ups = length (filter (is_payload_file E rs) (om_values (li_entries local)))"
  proof -
    have "length (upload_for E root remote options rs e) = (if is_payload_file E rs e then 1 else 0)"
      if e: "e \<in> set (om_values (li_entries local))" for e
    proof (cases "planned_upload E remote options rs e")
      case None
      then show ?thesis
        using forced [of e] by (simp add: upload_for_def)
    next
      case (Some re)
      then obtain path where "destination_of root rs e = Inr path"
        using d(10) e by auto
      then show ?thesis
        using Some forced [of e] by (cases re) (simp add: upload_for_def)
    qed
    then have "length (concat (map (upload_for E root remote options rs) es)) =
        length (filter (is_payload_file E rs) es)" if "set es \<subseteq> set (om_values (li_entries local))" for es
      using that by (induction es) auto
    then show ?thesis
      unfolding d(2) by blast
  qed
  then have "sp_unchanged p = 0"
    using d(9) by simp
  moreover have "\<exists>u \<in> set (sp_uploads p). ua_local u = e \<and> ua_reason u = Forced"
    if "e \<in> set (om_values (li_entries local))" "l_kind e = File"
      "\<not> shield_covers E (rs_folds rs) (l_relative e)"
      "remote_of (rs_pairs rs) remote (l_relative e) = Some r" "r_kind r = File" for e r
  proof -
    have "planned_upload E remote options rs e = Some (Forced, Some (overwritten_snapshot r))"
      using that assms(2) by (simp add: planned_upload_def compare_files_def)
    from planned_upload_scheduled [OF pl that(1) this] show ?thesis
      unfolding same by force
  qed
  ultimately show ?thesis by blast
qed

lemma force_run:
  "build_plan plain_env demo_root mirror_local mirror_remote rules_none (demo_options False Force)
     = Inr (projr (build_plan plain_env demo_root mirror_local mirror_remote rules_none
         (demo_options False Force)))"
proof -
  have "map_r (\<lambda>p. sp_unchanged p) (build_plan plain_env demo_root mirror_local mirror_remote
      rules_none (demo_options False Force)) = Inr 0"
    by code_simp
  from map_r_result(1) [OF this] show ?thesis .
qed

theorem force_overwrites_witness:
  "\<exists>u \<in> set (sp_uploads (projr (build_plan plain_env demo_root mirror_local mirror_remote rules_none
     (demo_options False Force)))). l_relative (ua_local u) = ''a/keep'' \<and> ua_reason u = Forced"
proof -
  let ?rs = "plan_resolution plain_env demo_root mirror_local mirror_remote rules_none (demo_options False Force)"
  let ?e = "snd (demo_local ''a/keep'' File 3 5000 None)"
  let ?r = "snd (demo_remote ''a/keep'' File 3 5 None)"
  have "po_compare (demo_options False Force) = Force"
    by (simp add: demo_options_def)
  moreover have "?e \<in> set (om_values (li_entries mirror_local))"
    by (simp add: mirror_local_def om_values_def)
  moreover have "l_kind ?e = File" "r_kind ?r = File" "l_relative ?e = ''a/keep''"
    by (simp_all add: demo_local_def demo_remote_def)
  moreover have "\<not> shield_covers plain_env (rs_folds ?rs) ''a/keep''"
    by code_simp
  moreover have "remote_of (rs_pairs ?rs) mirror_remote ''a/keep'' = Some ?r"
    by code_simp
  ultimately show ?thesis
    using force_overwrites [OF force_run _ refl] by metis
qed

section \<open>Where the writes go\<close>

definition safe_destination :: "remote_root \<Rightarrow> string \<Rightarrow> bool" where
  "safe_destination root path =
     (at_or_beneath (root_str root) path \<and> list_all safe_component (split_on slash (tl path)))"

lemma destination_safe:
  "wf_root root \<Longrightarrow> destination_of root rs e = Inr path \<Longrightarrow> safe_destination root path"
  by (auto simp: destination_of_def safe_destination_def intro: root_join_contained root_join_safe)

lemma root_safe: "wf_root root \<Longrightarrow> safe_destination root (root_str root)"
  by (auto simp: safe_destination_def wf_root_def)

text \<open>
  C16. Every path a plan writes lies at or beneath the destination, and none of its components is
  empty or climbs.
\<close>

theorem writes_contained:
  assumes "wf_root root" and "build_plan E root local remote rules options = Inr p"
  shows "list_all (safe_destination root \<circ> ca_remote_path) (sp_creates p) \<and>
    list_all (safe_destination root \<circ> ua_remote_path) (sp_uploads p) \<and>
    list_all (safe_destination root \<circ> cp_to_remote_path) (sp_copies p)"
proof -
  let ?rs = "plan_resolution E root local remote rules options"
  obtain ups p4 where pl: "planned E root local remote rules options ?rs p ups p4"
    using build_plan_planned(1) [OF assms(2) refl] by blast
  note d = plannedD [OF pl]
  have ups: "safe_destination root (ua_remote_path u)" if "u \<in> set ups" for u
    using ups_planned(3) [OF pl that] destination_safe [OF assms(1)] by blast
  have "safe_destination root (ca_remote_path c)" if "c \<in> set (sp_creates p)" for c
  proof -
    have "c \<in> set (concat (map (create_for E root remote ?rs) (om_values (li_entries local)))) \<or>
        ca_remote_path c = root_str root"
      using that unfolding d(8) by (auto split: if_splits)
    then show ?thesis
      using destination_safe [OF assms(1)] root_safe [OF assms(1)] by (auto simp: create_for_in)
  qed
  moreover have "safe_destination root (cp_to_remote_path c)" if "c \<in> set (sp_copies p)" for c
  proof -
    have "\<exists>u \<in> set ups. copies_upload u c"
      using d(6) that justified_copy_upload by blast
    then show ?thesis
      using ups by (auto simp: copies_upload_def)
  qed
  ultimately show ?thesis
    using ups d(3) by (auto simp: list_all_iff)
qed

lemma demo_root_wf: "wf_root demo_root"
proof -
  have "root_parse ''/s/d'' = Inr demo_root"
    by code_simp
  then show ?thesis
    by (simp add: root_parse_Inr_iff)
qed

theorem writes_contained_witness:
  "list_all (safe_destination demo_root) [''/s/d/a/new'', ''/s/d/edit'']"
proof -
  have "list_all (safe_destination demo_root) (map ua_remote_path (sp_uploads mirror_result))"
    using writes_contained [OF demo_root_wf mirror_run(1)] by (simp only: list.pred_map)
  then show ?thesis
    by (simp only: mirror_run(5))
qed

section \<open>Server copies\<close>

text \<open>
  C14. A server copy is planned only in content mode, and only on full proof: the source is a
  remote file that no local entry claims and nothing keeps, with the size, the time and the full
  fingerprint of the local file it stands for; the copy keeps the name and changes the folder, and
  nothing is at its destination.
\<close>

theorem copies_verified:
  assumes "build_plan E root local remote rules options = Inr p"
    and "rs = plan_resolution E root local remote rules options"
    and "c \<in> set (sp_copies p)"
  shows "po_compare options = Content \<and> po_server_copy options \<and>
    (\<exists>r \<in> set (om_values (ri_entries remote)). \<exists>sp tp name.
       cp_from_relative c = r_relative r \<and> cp_from_remote_path c = r_path r \<and>
       r_kind r = File \<and> 0 < r_size r \<and>
       local_of (rs_pairs rs) local (r_relative r) = None \<and> \<not> kept_entry E rules rs r \<and>
       r_md5 r = Some (cp_md5 c) \<and> l_md5 (cp_local c) = Some (cp_md5 c) \<and> has_full_proof (cp_md5 c) \<and>
       l_size (cp_local c) = r_size r \<and> cp_expected_size c = r_size r \<and>
       local_mtime_seconds (cp_local c) = r_mtime r \<and>
       sn_md5 (cp_source_snapshot c) = Some (cp_md5 c) \<and> sn_require_mtime (cp_source_snapshot c) \<and>
       parent_and_name (cp_from_remote_path c) = Inr (sp, name) \<and>
       parent_and_name (cp_to_remote_path c) = Inr (tp, name) \<and> sp \<noteq> tp) \<and>
    remote_of (rs_pairs rs) remote (cp_to_relative c) = None"
proof -
  obtain ups p4 where pl: "planned E root local remote rules options rs p ups p4"
    using build_plan_planned(1) [OF assms(1,2)] by blast
  let ?pre = "set (map da_relative (sp_pre_deletes p))"
  have mode: "po_compare options = Content" "po_server_copy options"
    and just: "justified_copy E local remote rules rs ?pre ups c"
    using bspec [OF plannedD(6) [OF pl] assms(3)] by blast+
  obtain u r d sp tp name where f:
    "r \<in> set (om_values (ri_entries remote))"
    "is_copy_source E local rules rs ?pre r"
    "remote_of (rs_pairs rs) remote (l_relative (ua_local u)) = None"
    "l_md5 (ua_local u) = Some d" "r_md5 r = Some d" "has_full_proof d"
    "l_size (ua_local u) = r_size r" "local_mtime_seconds (ua_local u) = r_mtime r"
    "parent_and_name (r_path r) = Inr (sp, name)"
    "parent_and_name (ua_remote_path u) = Inr (tp, name)" "sp \<noteq> tp"
    "c = copy_of u r (l_size (ua_local u)) d"
    using just unfolding justified_copy_def by blast
  have "r_kind r = File" "0 < r_size r" "local_of (rs_pairs rs) local (r_relative r) = None"
    "\<not> kept_entry E rules rs r"
    using f(2) by (auto simp: is_copy_source_def kept_entry_def word_neq_0_conv)
  with f mode show ?thesis
    by (intro conjI bexI [of _ r] exI [of _ sp] exI [of _ tp] exI [of _ name])
      (simp_all add: copy_of_def)
qed

theorem copies_verified_witness:
  "\<exists>c \<in> set (sp_copies move_result). cp_from_relative c = ''old/f'' \<and> cp_to_relative c = ''new/f'' \<and>
     has_full_proof (cp_md5 c)"
proof -
  have "(''old/f'', ''new/f'') \<in> set (map (\<lambda>c. (cp_from_relative c, cp_to_relative c)) (sp_copies move_result))"
    by (simp add: move_run(2))
  then obtain c where c: "c \<in> set (sp_copies move_result)" "cp_from_relative c = ''old/f''"
    "cp_to_relative c = ''new/f''"
    by auto
  then show ?thesis
    using copies_verified [OF move_run(1) refl c(1)] by blast
qed

section \<open>The order of the actions\<close>

lemma by_depth_down_order:
  "sorted_wrt (\<lambda>a b. \<not> beneath (f a) (f b)) (by_depth_down f xs)"
proof -
  have "sorted (map (\<lambda>a. (- int (depth (f a)), f a)) (by_depth_down f xs))"
    by (simp add: by_depth_down_def)
  then have "sorted_wrt (\<lambda>a b. (- int (depth (f a)), f a) \<le> (- int (depth (f b)), f b)) (by_depth_down f xs)"
    by (simp add: sorted_wrt_map)
  then show ?thesis
    by (rule sorted_wrt_mono_rel [rotated]) (auto dest: depth_beneath)
qed

lemma by_depth_up_order:
  "sorted_wrt (\<lambda>a b. \<not> beneath (f b) (f a)) (by_depth_up f xs)"
proof -
  have "sorted (map (\<lambda>a. (depth (f a), f a)) (by_depth_up f xs))"
    by (simp add: by_depth_up_def)
  then have "sorted_wrt (\<lambda>a b. (depth (f a), f a) \<le> (depth (f b), f b)) (by_depth_up f xs)"
    by (simp add: sorted_wrt_map)
  then show ?thesis
    by (rule sorted_wrt_mono_rel [rotated]) (auto dest: depth_beneath)
qed

text \<open>
  The order is one the NAS can carry out: a folder is created before anything in it, and
  deleted, before or after the writes, only after everything in it.
\<close>

theorem plan_order:
  assumes "build_plan E root local remote rules options = Inr p"
  shows "sorted_wrt (\<lambda>a b. \<not> beneath (ca_relative b) (ca_relative a)) (sp_creates p) \<and>
    sorted_wrt (\<lambda>a b. \<not> beneath (da_relative a) (da_relative b)) (sp_pre_deletes p) \<and>
    sorted_wrt (\<lambda>a b. \<not> beneath (da_relative a) (da_relative b)) (sp_post_deletes p)"
proof -
  obtain ups p4 where "planned E root local remote rules options
      (plan_resolution E root local remote rules options) p ups p4"
    using build_plan_planned(1) [OF assms refl] by blast
  from plannedD(1) [OF this] show ?thesis
    by (simp add: sort_plan_def by_depth_up_order by_depth_down_order)
qed

theorem plan_order_witness:
  "sorted_wrt (\<lambda>a b. \<not> beneath a b) [''old/gone'', ''old'']"
proof -
  have "sorted_wrt (\<lambda>a b. \<not> beneath a b) (map da_relative (sp_post_deletes mirror_result))"
    using plan_order [OF mirror_run(1)] by (simp only: sorted_wrt_map)
  then show ?thesis
    by (simp only: mirror_run(2))
qed

end
