(* ===== verification/Status.thy ===== *)
theory Status
  imports Planner
begin

text \<open>
  The scoped status query of \<open>src/plan.rs\<close>: a page of rows, one for every path of the merged
  inventories, the totals of the whole scope, and the ticket that confirms a forced re-upload.
\<close>

section \<open>Rows\<close>

definition status_page_size_default :: nat where
  "status_page_size_default = 100"

definition status_page_size_max :: nat where
  "status_page_size_max = 200"

datatype exclusion_cause = IgnoreRule | DsmManaged | MountBoundary

fun cause_str :: "exclusion_cause \<Rightarrow> string" where
  "cause_str IgnoreRule = ''ignore-rule''"
| "cause_str DsmManaged = ''dsm-managed''"
| "cause_str MountBoundary = ''mount-boundary''"

datatype status_state =
    InSyncState
  | DiffersState change_reason
  | MissingRemoteState
  | RemoteOnlyState
  | TypeConflictState entry_kind entry_kind
  | ExcludedState exclusion_cause
  | NotComparedState

datatype state_kind =
    TypeConflictKind
  | MissingRemoteKind
  | DiffersKind
  | RemoteOnlyKind
  | InSyncKind
  | ExcludedKind
  | NotComparedKind

fun kind_of_state :: "status_state \<Rightarrow> state_kind" where
  "kind_of_state InSyncState = InSyncKind"
| "kind_of_state (DiffersState _) = DiffersKind"
| "kind_of_state MissingRemoteState = MissingRemoteKind"
| "kind_of_state RemoteOnlyState = RemoteOnlyKind"
| "kind_of_state (TypeConflictState _ _) = TypeConflictKind"
| "kind_of_state (ExcludedState _) = ExcludedKind"
| "kind_of_state NotComparedState = NotComparedKind"

fun reason_of_state :: "status_state \<Rightarrow> change_reason option" where
  "reason_of_state (DiffersState reason) = Some reason"
| "reason_of_state MissingRemoteState = Some MissingRemote"
| "reason_of_state _ = None"

definition attention :: "state_kind list" where
  "attention = [TypeConflictKind, MissingRemoteKind, DiffersKind, RemoteOnlyKind]"

fun kind_state_str :: "state_kind \<Rightarrow> string" where
  "kind_state_str TypeConflictKind = ''type-conflict''"
| "kind_state_str MissingRemoteKind = ''missing-remote''"
| "kind_state_str DiffersKind = ''differs''"
| "kind_state_str RemoteOnlyKind = ''remote-only''"
| "kind_state_str InSyncKind = ''in-sync''"
| "kind_state_str ExcludedKind = ''excluded''"
| "kind_state_str NotComparedKind = ''not-compared''"

definition needs_attention :: "state_kind \<Rightarrow> bool" where
  "needs_attention k = (k \<in> set attention)"

datatype state_filter = AllStates | OnlyStates "state_kind list"

definition attention_filter :: state_filter where
  "attention_filter = OnlyStates attention"

definition default_filter :: state_filter where
  "default_filter = attention_filter"

fun admits :: "state_filter \<Rightarrow> state_kind \<Rightarrow> bool" where
  "admits AllStates k = True"
| "admits (OnlyStates kinds) k = (k \<in> set kinds)"

record side_info =
  si_size :: u64
  si_mtime :: int

record status_entry =
  se_relative :: string
  se_remote_path :: string
  se_kind :: entry_kind
  se_state :: status_state
  se_local :: "side_info option"
  se_remote :: "side_info option"

section \<open>Totals\<close>

record status_stats =
  st_compare :: compare_mode
  st_in_sync_files :: nat
  st_differing_files :: nat
  st_missing_remote_files :: nat
  st_remote_only_entries :: nat
  st_type_conflicts :: nat
  st_excluded_entries :: nat
  st_not_compared_entries :: nat
  st_directories :: nat
  st_in_sync_bytes :: u64
  st_transfer_bytes :: u64
  st_total_entries :: nat
  st_attention_entries :: nat
  st_complete :: bool

definition stats_new :: "compare_mode \<Rightarrow> status_stats" where
  "stats_new compare =
     \<lparr>st_compare = compare, st_in_sync_files = 0, st_differing_files = 0,
      st_missing_remote_files = 0, st_remote_only_entries = 0, st_type_conflicts = 0,
      st_excluded_entries = 0, st_not_compared_entries = 0, st_directories = 0,
      st_in_sync_bytes = 0, st_transfer_bytes = 0, st_total_entries = 0,
      st_attention_entries = 0, st_complete = True\<rparr>"

definition stats_empty :: "compare_mode \<Rightarrow> status_stats" where
  "stats_empty compare = stats_new compare"

definition row_size :: "status_entry \<Rightarrow> u64" where
  "row_size entry = (case se_local entry of None \<Rightarrow> 0 | Some side \<Rightarrow> si_size side)"

text \<open>The match on the state that ends \<open>accumulate\<close>.\<close>

definition accumulate_state :: "status_entry \<Rightarrow> status_stats \<Rightarrow> status_stats" where
  "accumulate_state entry stats =
     (case se_state entry of
        InSyncState \<Rightarrow>
          if se_kind entry = File then
            stats\<lparr>st_in_sync_files := st_in_sync_files stats + 1,
                  st_in_sync_bytes := u64_sat_add (st_in_sync_bytes stats) (row_size entry)\<rparr>
          else stats
      | DiffersState _ \<Rightarrow>
          stats\<lparr>st_differing_files := st_differing_files stats + 1,
                st_transfer_bytes := u64_sat_add (st_transfer_bytes stats) (row_size entry)\<rparr>
      | MissingRemoteState \<Rightarrow>
          if se_kind entry = File then
            stats\<lparr>st_missing_remote_files := st_missing_remote_files stats + 1,
                  st_transfer_bytes := u64_sat_add (st_transfer_bytes stats) (row_size entry)\<rparr>
          else stats
      | RemoteOnlyState \<Rightarrow> stats\<lparr>st_remote_only_entries := st_remote_only_entries stats + 1\<rparr>
      | TypeConflictState _ _ \<Rightarrow>
          stats\<lparr>st_type_conflicts := st_type_conflicts stats + 1,
                st_transfer_bytes := u64_sat_add (st_transfer_bytes stats) (row_size entry)\<rparr>
      | ExcludedState _ \<Rightarrow> stats\<lparr>st_excluded_entries := st_excluded_entries stats + 1\<rparr>
      | NotComparedState \<Rightarrow>
          stats\<lparr>st_not_compared_entries := st_not_compared_entries stats + 1\<rparr>)"

definition is_excluded_state :: "status_state \<Rightarrow> bool" where
  "is_excluded_state s = (case s of ExcludedState _ \<Rightarrow> True | _ \<Rightarrow> False)"

definition accumulate :: "status_stats \<Rightarrow> status_entry \<Rightarrow> status_stats" where
  "accumulate stats entry =
     (let s1 = stats\<lparr>st_total_entries := st_total_entries stats + 1\<rparr>;
          s2 = (if needs_attention (kind_of_state (se_state entry))
                then s1\<lparr>st_attention_entries := st_attention_entries s1 + 1\<rparr> else s1);
          s3 = (if se_kind entry = Directory \<and> \<not> is_excluded_state (se_state entry)
                then s2\<lparr>st_directories := st_directories s2 + 1\<rparr> else s2) in
      accumulate_state entry s3)"

section \<open>Queries and pages\<close>

datatype status_cursor = StatusCursor (cursor_str: string)

record status_page =
  sg_scope :: string
  sg_entries :: "status_entry list"
  sg_limit :: nat
  sg_next_cursor :: "status_cursor option"
  sg_truncated :: bool
  sg_stats :: status_stats

record status_query =
  sq_scope :: scope
  sq_compare :: compare_mode
  sq_filter :: "string option"
  sq_states :: state_filter
  sq_include_excluded :: bool
  sq_limit :: nat
  sq_cursor :: "status_cursor option"
  sq_local_complete :: bool
  sq_remote_complete :: bool

text \<open>\<open>str::to_lowercase\<close>; the table of \<open>text_env\<close> is asked only for text that is not ASCII.\<close>

definition to_lowercase :: "text_env \<Rightarrow> string \<Rightarrow> string" where
  "to_lowercase E s = (if is_ascii s then ascii_lower s else lower_table E s)"

definition matches_filter :: "text_env \<Rightarrow> string \<Rightarrow> string option \<Rightarrow> bool" where
  "matches_filter E relative pattern =
     (case pattern of
        None \<Rightarrow> True
      | Some f \<Rightarrow>
          let f = trim f in
          if f = [] then True
          else contains_str (to_lowercase E f) (to_lowercase E (snd (parent_name relative))))"

definition is_beneath_any :: "string \<Rightarrow> string list \<Rightarrow> bool" where
  "is_beneath_any relative folders = list_ex (\<lambda>p. p \<in> set folders) (ancestors relative)"

section \<open>Classification\<close>

definition classify_compared ::
  "local_entry option \<Rightarrow> remote_entry option \<Rightarrow> status_query \<Rightarrow> status_state"
where
  "classify_compared local_entry remote_entry query =
     (case (local_entry, remote_entry) of
        (Some l, Some r) \<Rightarrow>
          (case (l_kind l, r_kind r) of
             (Directory, Directory) \<Rightarrow> InSyncState
           | (File, File) \<Rightarrow>
               (case compare_files l r (sq_compare query) of
                  None \<Rightarrow> InSyncState
                | Some reason \<Rightarrow> DiffersState reason)
           | (lk, rk) \<Rightarrow> TypeConflictState lk rk)
      | (Some _, None) \<Rightarrow> if \<not> sq_remote_complete query then NotComparedState else MissingRemoteState
      | (None, Some _) \<Rightarrow> if \<not> sq_local_complete query then NotComparedState else RemoteOnlyState
      | (None, None) \<Rightarrow> ExcludedState IgnoreRule)"

definition classify_state ::
  "text_env \<Rightarrow> local_entry option \<Rightarrow> remote_entry option \<Rightarrow> string list \<Rightarrow> ignore_rules
     \<Rightarrow> correspondence \<Rightarrow> bool \<Rightarrow> status_query \<Rightarrow> string \<Rightarrow> status_state"
where
  "classify_state E local_entry remote_entry excluded rules pairs beneath_mount query relative =
     (let compared = classify_compared local_entry remote_entry query;
          unlisted =
            (if local_entry = None \<and> remote_entry = None \<and> relative \<in> set excluded
             then ExcludedState (if is_dsm_managed relative then DsmManaged else IgnoreRule)
             else compared) in
      if beneath_mount then ExcludedState MountBoundary
      else
        (case remote_entry of
           Some r \<Rightarrow>
             if is_excluded_from_comparison E rules pairs r then
               ExcludedState
                 (if r_mount r \<noteq> None then MountBoundary
                  else if is_dsm_managed (r_relative r) then DsmManaged else IgnoreRule)
             else unlisted
         | None \<Rightarrow> unlisted))"

definition local_side :: "local_entry \<Rightarrow> side_info" where
  "local_side e = \<lparr>si_size = l_size e, si_mtime = local_mtime_seconds e\<rparr>"

definition remote_side :: "remote_entry \<Rightarrow> side_info" where
  "remote_side e = \<lparr>si_size = r_size e, si_mtime = r_mtime e\<rparr>"

definition row_kind :: "local_entry option \<Rightarrow> remote_entry option \<Rightarrow> entry_kind" where
  "row_kind local_entry remote_entry =
     (case local_entry of
        Some e \<Rightarrow> l_kind e
      | None \<Rightarrow> (case remote_entry of Some r \<Rightarrow> r_kind r | None \<Rightarrow> Directory))"

definition classify ::
  "text_env \<Rightarrow> remote_root \<Rightarrow> local_entry option \<Rightarrow> remote_entry option \<Rightarrow> string list
     \<Rightarrow> ignore_rules \<Rightarrow> correspondence \<Rightarrow> bool \<Rightarrow> status_query \<Rightarrow> string \<Rightarrow> status_entry res"
where
  "classify E root local_entry remote_entry excluded rules pairs beneath_mount query relative =
     map_r (\<lambda>remote_path.
       \<lparr>se_relative = relative, se_remote_path = remote_path,
        se_kind = row_kind local_entry remote_entry,
        se_state = classify_state E local_entry remote_entry excluded rules pairs beneath_mount
                     query relative,
        se_local = map_option local_side local_entry,
        se_remote = map_option remote_side remote_entry\<rparr>)
       (case remote_entry of Some r \<Rightarrow> Inr (r_path r) | None \<Rightarrow> root_join root relative)"

section \<open>The page\<close>

definition page_limit :: "status_query \<Rightarrow> nat" where
  "page_limit query = max 1 (min status_page_size_max (sq_limit query))"

text \<open>The paths of the rows: a \<open>BTreeSet\<close> of the keys in scope.\<close>

definition status_keys ::
  "local_inventory \<Rightarrow> remote_inventory \<Rightarrow> string list \<Rightarrow> correspondence \<Rightarrow> status_query \<Rightarrow> string list"
where
  "status_keys local remote excluded pairs query =
     sort (remdups
       (filter (scope_matches (sq_scope query)) (om_keys (li_entries local))
        @ filter (\<lambda>k. scope_matches (sq_scope query) k \<and> \<not> is_paired_remote pairs k)
            (om_keys (ri_entries remote))
        @ (if sq_include_excluded query then filter (scope_matches (sq_scope query)) excluded else [])))"

definition mounts_of :: "remote_inventory \<Rightarrow> string list" where
  "mounts_of remote = map r_relative (filter (\<lambda>e. r_mount e \<noteq> None) (om_values (ri_entries remote)))"

definition status_row ::
  "text_env \<Rightarrow> remote_root \<Rightarrow> local_inventory \<Rightarrow> remote_inventory \<Rightarrow> string list \<Rightarrow> ignore_rules
     \<Rightarrow> correspondence \<Rightarrow> status_query \<Rightarrow> string \<Rightarrow> status_entry res"
where
  "status_row E root local remote excluded rules pairs query relative =
     (let local_entry = om_get (li_entries local) relative;
          remote_entry = (case local_entry of
                            Some _ \<Rightarrow> remote_of pairs remote relative
                          | None \<Rightarrow> om_get (ri_entries remote) relative);
          mounts = mounts_of remote;
          beneath_mount = (mounts \<noteq> [] \<and> is_beneath_any (remote_relative pairs relative) mounts) in
      classify E root local_entry remote_entry excluded rules pairs beneath_mount query relative)"

type_synonym page_state = "status_stats \<times> status_entry list \<times> status_cursor option"

definition past_cursor :: "status_query \<Rightarrow> string \<Rightarrow> bool" where
  "past_cursor query relative =
     (case sq_cursor query of None \<Rightarrow> True | Some c \<Rightarrow> cursor_str c < relative)"

definition visible_row :: "text_env \<Rightarrow> status_query \<Rightarrow> status_entry \<Rightarrow> bool" where
  "visible_row E query entry =
     (admits (sq_states query) (kind_of_state (se_state entry))
      \<and> matches_filter E (se_relative entry) (sq_filter query))"

text \<open>What the loop does with a classified row, after it is counted.\<close>

definition place_row ::
  "text_env \<Rightarrow> status_query \<Rightarrow> nat \<Rightarrow> page_state \<Rightarrow> status_entry \<Rightarrow> page_state"
where
  "place_row E query limit = (\<lambda>(stats, entries, next_cursor) entry.
     let stats = accumulate stats entry in
     if \<not> visible_row E query entry then (stats, entries, next_cursor)
     else if \<not> past_cursor query (se_relative entry) then (stats, entries, next_cursor)
     else if length entries = limit then
       (stats, entries,
        (case next_cursor of
           Some c \<Rightarrow> Some c
         | None \<Rightarrow> if entries = [] then None else Some (StatusCursor (se_relative (last entries)))))
     else (stats, entries @ [entry], next_cursor))"

definition status_step ::
  "text_env \<Rightarrow> remote_root \<Rightarrow> local_inventory \<Rightarrow> remote_inventory \<Rightarrow> string list \<Rightarrow> ignore_rules
     \<Rightarrow> correspondence \<Rightarrow> status_query \<Rightarrow> nat \<Rightarrow> page_state \<Rightarrow> string \<Rightarrow> page_state res"
where
  "status_step E root local remote excluded rules pairs query limit st relative =
     map_r (place_row E query limit st)
       (status_row E root local remote excluded rules pairs query relative)"

definition build_status_page ::
  "text_env \<Rightarrow> remote_root \<Rightarrow> local_inventory \<Rightarrow> remote_inventory \<Rightarrow> string list \<Rightarrow> ignore_rules
     \<Rightarrow> status_query \<Rightarrow> status_page res"
where
  "build_status_page E root local remote excluded rules query =
     (let limit = page_limit query; pairs = co_build E local remote in
      (case fold_r (status_step E root local remote excluded rules pairs query limit)
              (stats_new (sq_compare query), [], None)
              (status_keys local remote excluded pairs query) of
         Inl e \<Rightarrow> Inl e
       | Inr (stats, entries, next_cursor) \<Rightarrow>
           Inr \<lparr>sg_scope = scope_str (sq_scope query), sg_entries = entries, sg_limit = limit,
                sg_next_cursor = next_cursor, sg_truncated = (next_cursor \<noteq> None),
                sg_stats = stats\<rparr>))"

section \<open>The ticket of a forced re-upload\<close>

definition resync_ticket_length :: nat where
  "resync_ticket_length = 16"

record resync_target =
  rt_remote_root :: string
  rt_endpoint :: string

fun compare_str :: "compare_mode \<Rightarrow> string" where
  "compare_str Content = ''content''"
| "compare_str Metadata = ''metadata''"
| "compare_str SizeOnly = ''size-only''"
| "compare_str Force = ''force''"

definition ticket_digest :: "upload_action \<Rightarrow> string" where
  "ticket_digest action =
     (case l_md5 (ua_local action) of
        None \<Rightarrow> ''none''
      | Some digest \<Rightarrow> (case sha256_hex digest of None \<Rightarrow> ''none'' | Some h \<Rightarrow> h))"

definition ticket_line :: "upload_action \<Rightarrow> string" where
  "ticket_line action =
     l_relative (ua_local action) @ nul # show_u64 (l_size (ua_local action))
       @ nul # ticket_digest action @ [newline]"

definition ticket_canonical ::
  "resync_target \<Rightarrow> scope \<Rightarrow> compare_mode \<Rightarrow> sync_plan \<Rightarrow> string"
where
  "ticket_canonical target s compare plan =
     ''sdsync.resync-ticket.v3'' @ [newline]
     @ rt_endpoint target @ [newline]
     @ rt_remote_root target @ [newline]
     @ scope_str s @ [newline]
     @ compare_str compare @ [newline]
     @ show_u64 (sp_upload_bytes plan) @ [newline]
     @ concat (map ticket_line (sp_uploads plan))"

definition str_bytes :: "string \<Rightarrow> u8 list" where
  "str_bytes s = map (\<lambda>c. word_of_nat (byte c)) s"

definition resync_ticket ::
  "('m, 'c, 's) hash_suite \<Rightarrow> resync_target \<Rightarrow> scope \<Rightarrow> compare_mode \<Rightarrow> sync_plan \<Rightarrow> string"
where
  "resync_ticket H target s compare plan =
     take resync_ticket_length
       (case sha256_hex (from_content H (str_bytes (ticket_canonical target s compare plan))) of
          Some h \<Rightarrow> h | None \<Rightarrow> [])"

end
