(* ===== verification/StatusFacts.thy ===== *)
theory StatusFacts
  imports Status PlanWrites
begin

text \<open>
  What a status page promises: an abstract page over the list of all classified rows, which
  \<open>build_status_page\<close> refines; the totals as counts over that list; and paging.
\<close>

section \<open>The abstract page\<close>

text \<open>All rows of a query, in the order of their paths, or the first error.\<close>

definition status_rows ::
  "text_env \<Rightarrow> remote_root \<Rightarrow> local_inventory \<Rightarrow> remote_inventory \<Rightarrow> string list \<Rightarrow> ignore_rules
     \<Rightarrow> status_query \<Rightarrow> status_entry list res"
where
  "status_rows E root local remote excluded rules query =
     collect (status_row E root local remote excluded rules (co_build E local remote) query)
       (status_keys local remote excluded (co_build E local remote) query)"

definition listed_rows :: "text_env \<Rightarrow> status_query \<Rightarrow> status_entry list \<Rightarrow> status_entry list" where
  "listed_rows E query rows =
     filter (\<lambda>e. visible_row E query e \<and> past_cursor query (se_relative e)) rows"

definition next_cursor_of :: "nat \<Rightarrow> status_entry list \<Rightarrow> status_cursor option" where
  "next_cursor_of limit listed =
     (if limit < length listed then Some (StatusCursor (se_relative (listed ! (limit - 1)))) else None)"

definition page_of :: "text_env \<Rightarrow> status_query \<Rightarrow> status_entry list \<Rightarrow> status_page" where
  "page_of E query rows =
     (let limit = page_limit query; listed = listed_rows E query rows in
      \<lparr>sg_scope = scope_str (sq_scope query), sg_entries = take limit listed, sg_limit = limit,
       sg_next_cursor = next_cursor_of limit listed, sg_truncated = (limit < length listed),
       sg_stats = foldl accumulate (stats_new (sq_compare query)) rows\<rparr>)"

lemma page_limit_bounds: "1 \<le> page_limit query" "page_limit query \<le> 200"
  by (simp_all add: page_limit_def status_page_size_max_def)

lemma place_rows:
  assumes "1 \<le> limit"
  shows "foldl (place_row E query limit)
      (s, take limit xs, next_cursor_of limit xs) rows =
    (foldl accumulate s rows, take limit (xs @ listed_rows E query rows),
     next_cursor_of limit (xs @ listed_rows E query rows))"
proof (induction rows arbitrary: s xs)
  case Nil
  then show ?case by (simp add: listed_rows_def)
next
  case (Cons e rows)
  have step: "place_row E query limit (s, take limit xs, next_cursor_of limit xs) e =
      (accumulate s e, take limit (xs @ listed_rows E query [e]),
       next_cursor_of limit (xs @ listed_rows E query [e]))"
  proof (cases "visible_row E query e \<and> past_cursor query (se_relative e)")
    case False
    then show ?thesis by (auto simp: place_row_def listed_rows_def Let_def)
  next
    case True
    then have l: "listed_rows E query [e] = [e]"
      by (simp add: listed_rows_def)
    consider "length xs < limit" | "length xs = limit" | "limit < length xs"
      by linarith
    then show ?thesis
    proof cases
      case 1
      with True show ?thesis
        unfolding l by (simp add: place_row_def Let_def next_cursor_of_def)
    next
      case 2
      then have "xs \<noteq> []" "limit - Suc 0 < limit" using assms by auto
      with True 2 show ?thesis
        unfolding l by (simp add: place_row_def Let_def next_cursor_of_def last_conv_nth nth_append)
    next
      case 3
      then have "limit - Suc 0 < length xs" by simp
      with 3 True assms show ?thesis
        unfolding l by (simp add: place_row_def Let_def next_cursor_of_def nth_append)
    qed
  qed
  have "listed_rows E query (e # rows) = listed_rows E query [e] @ listed_rows E query rows"
    by (simp add: listed_rows_def)
  then show ?case
    using Cons [of "accumulate s e" "xs @ listed_rows E query [e]"] by (simp add: step)
qed

lemma place_rows_start:
  "1 \<le> limit \<Longrightarrow>
   foldl (place_row E query limit) (s, [], None) rows =
    (foldl accumulate s rows, take limit (listed_rows E query rows),
     next_cursor_of limit (listed_rows E query rows))"
  using place_rows [of limit E query s "[]" rows] by (simp add: next_cursor_of_def)

text \<open>
  C18. The page of a query is the abstract page over all classified rows: the totals count every
  row of the scope, the entries are the first rows past the cursor that the filters admit, at most
  the clamped limit of them, and there is a next cursor, the path of the last entry, exactly when
  more rows follow. The query fails exactly when classifying some row fails.
\<close>

theorem status_page_refines:
  "build_status_page E root local remote excluded rules query =
     map_r (page_of E query) (status_rows E root local remote excluded rules query)"
proof -
  let ?pairs = "co_build E local remote"
  let ?limit = "page_limit query"
  have "fold_r (status_step E root local remote excluded rules ?pairs query ?limit)
      (stats_new (sq_compare query), [], None) (status_keys local remote excluded ?pairs query) =
    map_r (foldl (place_row E query ?limit) (stats_new (sq_compare query), [], None))
      (status_rows E root local remote excluded rules query)"
    unfolding status_step_def status_rows_def by (rule fold_r_collect)
  then show ?thesis
    using page_limit_bounds(1) [of query]
    by (cases "status_rows E root local remote excluded rules query")
      (auto simp: build_status_page_def page_of_def Let_def place_rows_start next_cursor_of_def)
qed

section \<open>Paging\<close>

lemma status_row_relative:
  "status_row E root local remote excluded rules pairs query k = Inr e \<Longrightarrow> se_relative e = k"
  by (auto simp: status_row_def classify_def Let_def)

lemma status_rows_sorted:
  assumes "status_rows E root local remote excluded rules query = Inr rows"
  shows "map se_relative rows = status_keys local remote excluded (co_build E local remote) query"
    and "sorted_wrt (<) (map se_relative rows)"
proof -
  let ?keys = "status_keys local remote excluded (co_build E local remote) query"
  have "list_all2 (\<lambda>k e. se_relative e = k) ?keys rows"
    using assms status_row_relative
    by (auto simp: status_rows_def collect_Inr_iff elim!: list_all2_mono)
  then show eq: "map se_relative rows = ?keys"
    by (induction rule: list_all2_induct) auto
  have "sorted ?keys" "distinct ?keys"
    by (simp_all add: status_keys_def)
  then show "sorted_wrt (<) (map se_relative rows)"
    unfolding eq strict_sorted_iff by simp
qed

text \<open>The rows do not depend on where the listing resumes, how long a page is, or the filters.\<close>

lemma status_rows_cong:
  "status_rows E root local remote excluded rules (query\<lparr>sq_cursor := c\<rparr>) =
     status_rows E root local remote excluded rules query"
proof -
  have k: "status_keys local remote excluded pairs (query\<lparr>sq_cursor := c\<rparr>) =
      status_keys local remote excluded pairs query" for pairs
    by (simp add: status_keys_def)
  have compared: "classify_compared l r (query\<lparr>sq_cursor := c\<rparr>) = classify_compared l r query" for l r
  proof -
    have "sq_compare (query\<lparr>sq_cursor := c\<rparr>) = sq_compare query"
      "sq_local_complete (query\<lparr>sq_cursor := c\<rparr>) = sq_local_complete query"
      "sq_remote_complete (query\<lparr>sq_cursor := c\<rparr>) = sq_remote_complete query"
      by simp_all
    then show ?thesis
      by (simp only: classify_compared_def)
  qed
  have "status_row E root local remote excluded rules pairs (query\<lparr>sq_cursor := c\<rparr>) =
      status_row E root local remote excluded rules pairs query" for pairs
    by (rule ext) (simp only: status_row_def classify_def classify_state_def compared)
  then show ?thesis
    by (simp add: status_rows_def k)
qed

text \<open>A client that follows the cursors, with a bound on how many pages it asks for.\<close>

fun follow_pages :: "(status_query \<Rightarrow> status_page res) \<Rightarrow> nat \<Rightarrow> status_query \<Rightarrow> status_entry list res option"
where
  "follow_pages page 0 query = None"
| "follow_pages page (Suc n) query =
     (case page query of
        Inl e \<Rightarrow> Some (Inl e)
      | Inr p \<Rightarrow>
          (case sg_next_cursor p of
             None \<Rightarrow> Some (Inr (sg_entries p))
           | Some c \<Rightarrow>
               map_option (map_r (\<lambda>es. sg_entries p @ es))
                 (follow_pages page n (query\<lparr>sq_cursor := Some c\<rparr>))))"

lemma filter_after_nth:
  assumes "sorted_wrt (<) (map f xs)" and "i < length xs"
  shows "filter (\<lambda>x. (f (xs ! i) :: string) < f x) xs = drop (Suc i) xs"
proof -
  have lt: "f (xs ! a) < f (xs ! b)" if "a < b" "b < length xs" for a b
    using assms(1) that by (simp add: sorted_wrt_iff_nth_less)
  have "filter (\<lambda>x. f (xs ! i) < f x) (take (Suc i) xs) = []"
  proof -
    have "\<not> f (xs ! i) < f x" if "x \<in> set (take (Suc i) xs)" for x
    proof -
      have "\<exists>a. a < Suc i \<and> a < length xs \<and> x = xs ! a"
        using that unfolding in_set_conv_nth by auto
      then obtain a where "a < Suc i" "a < length xs" "x = xs ! a"
        by blast
      then show ?thesis
        using lt [of a i] assms(2) by (cases "a = i") auto
    qed
    then show ?thesis by (simp add: filter_empty_conv)
  qed
  moreover have "filter (\<lambda>x. f (xs ! i) < f x) (drop (Suc i) xs) = drop (Suc i) xs"
  proof -
    have "f (xs ! i) < f x" if "x \<in> set (drop (Suc i) xs)" for x
    proof -
      have "\<exists>a. a < length xs - Suc i \<and> x = xs ! (Suc i + a)"
        using that assms(2) unfolding in_set_conv_nth by auto
      then obtain a where "a < length xs - Suc i" "x = xs ! (Suc i + a)"
        by blast
      then show ?thesis
        using lt [of i "Suc i + a"] by simp
    qed
    then show ?thesis by (simp add: filter_id_conv)
  qed
  ultimately show ?thesis
    by (metis append_Nil append_take_drop_id filter_append)
qed

lemma sorted_rows_filter:
  "sorted_wrt (<) (map f xs) \<Longrightarrow> sorted_wrt (<) (map f (filter P xs))"
  by (induction xs) auto

text \<open>One page, then the listing that resumes at its last row, are the listing.\<close>

lemma listed_rows_resume:
  assumes sorted: "sorted_wrt (<) (map se_relative rows)"
    and lim: "0 < limit" "limit < length (listed_rows E query rows)"
    and c: "c = se_relative (listed_rows E query rows ! (limit - 1))"
  shows "listed_rows E (query\<lparr>sq_cursor := Some (StatusCursor c)\<rparr>) rows =
    drop limit (listed_rows E query rows)"
proof -
  let ?ls = "listed_rows E query rows"
  have sl: "sorted_wrt (<) (map se_relative ?ls)"
    unfolding listed_rows_def by (rule sorted_rows_filter [OF sorted])
  have in_ls: "?ls ! (limit - 1) \<in> set ?ls"
    using lim by (intro nth_mem) simp
  then have past: "past_cursor query c"
    unfolding c listed_rows_def by auto
  have "past_cursor (query\<lparr>sq_cursor := Some (StatusCursor c)\<rparr>) k \<longleftrightarrow> c < k \<and> past_cursor query k" for k
    using past by (auto simp: past_cursor_def split: option.splits)
  moreover have "visible_row E (query\<lparr>sq_cursor := d\<rparr>) = visible_row E query" for d
    by (rule ext) (simp add: visible_row_def)
  ultimately have "listed_rows E (query\<lparr>sq_cursor := Some (StatusCursor c)\<rparr>) rows =
      filter (\<lambda>e. c < se_relative e) ?ls"
    by (auto simp: listed_rows_def intro!: filter_cong)
  also have "\<dots> = drop (Suc (limit - 1)) ?ls"
    unfolding c by (rule filter_after_nth [OF sl]) (use lim in simp)
  finally show ?thesis
    using lim by simp
qed

text \<open>
  C19. Following the cursors ends, after at most one page per row, and yields every row the filters
  admit past the first cursor exactly once and in order; no page holds more than 200 rows.
\<close>

theorem status_paging_complete:
  assumes "status_rows E root local remote excluded rules query = Inr rows"
    and "length (listed_rows E query rows) < n"
  shows "follow_pages (build_status_page E root local remote excluded rules) n query =
    Some (Inr (listed_rows E query rows))"
  using assms
proof (induction n arbitrary: query)
  case 0
  then show ?case by simp
next
  case (Suc n)
  let ?ls = "listed_rows E query rows" and ?limit = "page_limit query"
  let ?page = "build_status_page E root local remote excluded rules"
  have page: "?page query = Inr (page_of E query rows)"
    by (simp add: status_page_refines Suc.prems(1))
  show ?case
  proof (cases "?limit < length ?ls")
    case False
    then show ?thesis
      by (simp add: page page_of_def Let_def next_cursor_of_def)
  next
    case True
    let ?c = "se_relative (?ls ! (?limit - 1))"
    let ?query = "query\<lparr>sq_cursor := Some (StatusCursor ?c)\<rparr>"
    have pos: "0 < ?limit"
      using page_limit_bounds(1) [of query] by simp
    have rest: "listed_rows E ?query rows = drop ?limit ?ls"
      using status_rows_sorted(2) [OF Suc.prems(1)] pos True refl by (rule listed_rows_resume)
    have "follow_pages ?page n ?query = Some (Inr (listed_rows E ?query rows))"
    proof (rule Suc.IH)
      show "status_rows E root local remote excluded rules ?query = Inr rows"
        using Suc.prems(1) by (simp only: status_rows_cong)
      show "length (listed_rows E ?query rows) < n"
        using Suc.prems(2) True pos unfolding rest by simp
    qed
    with True show ?thesis
      by (simp add: page page_of_def Let_def next_cursor_of_def rest [unfolded One_nat_def])
  qed
qed

section \<open>The totals\<close>

definition counted :: "(status_entry \<Rightarrow> bool) \<Rightarrow> status_entry list \<Rightarrow> nat" where
  "counted P rows = length (filter P rows)"

definition sized :: "(status_entry \<Rightarrow> bool) \<Rightarrow> status_entry list \<Rightarrow> nat" where
  "sized P rows = sum_list (map (\<lambda>e. if P e then unat (row_size e) else 0) rows)"

definition row_in_sync :: "status_entry \<Rightarrow> bool" where
  "row_in_sync e = (se_state e = InSyncState \<and> se_kind e = File)"

definition row_missing :: "status_entry \<Rightarrow> bool" where
  "row_missing e = (se_state e = MissingRemoteState \<and> se_kind e = File)"

definition row_transfers :: "status_entry \<Rightarrow> bool" where
  "row_transfers e =
     (row_missing e \<or> kind_of_state (se_state e) = DiffersKind
      \<or> kind_of_state (se_state e) = TypeConflictKind)"

definition row_of_kind :: "state_kind \<Rightarrow> status_entry \<Rightarrow> bool" where
  "row_of_kind k e = (kind_of_state (se_state e) = k)"

definition row_directory :: "status_entry \<Rightarrow> bool" where
  "row_directory e = (se_kind e = Directory \<and> kind_of_state (se_state e) \<noteq> ExcludedKind)"

lemma counted_simps [simp]:
  "counted P [] = 0" "counted P (e # rows) = (if P e then 1 else 0) + counted P rows"
  by (simp_all add: counted_def)

lemma sized_simps [simp]:
  "sized P [] = 0" "sized P (e # rows) = (if P e then unat (row_size e) else 0) + sized P rows"
  by (simp_all add: sized_def)

lemma accumulate_counts:
  "st_total_entries (accumulate s e) = st_total_entries s + 1"
  "st_attention_entries (accumulate s e) =
     st_attention_entries s + (if needs_attention (kind_of_state (se_state e)) then 1 else 0)"
  "st_directories (accumulate s e) = st_directories s + (if row_directory e then 1 else 0)"
  "st_in_sync_files (accumulate s e) = st_in_sync_files s + (if row_in_sync e then 1 else 0)"
  "st_missing_remote_files (accumulate s e) = st_missing_remote_files s + (if row_missing e then 1 else 0)"
  "st_differing_files (accumulate s e) = st_differing_files s + (if row_of_kind DiffersKind e then 1 else 0)"
  "st_remote_only_entries (accumulate s e) =
     st_remote_only_entries s + (if row_of_kind RemoteOnlyKind e then 1 else 0)"
  "st_type_conflicts (accumulate s e) =
     st_type_conflicts s + (if row_of_kind TypeConflictKind e then 1 else 0)"
  "st_excluded_entries (accumulate s e) =
     st_excluded_entries s + (if row_of_kind ExcludedKind e then 1 else 0)"
  "st_not_compared_entries (accumulate s e) =
     st_not_compared_entries s + (if row_of_kind NotComparedKind e then 1 else 0)"
  "st_in_sync_bytes (accumulate s e) =
     (if row_in_sync e then u64_sat_add (st_in_sync_bytes s) (row_size e) else st_in_sync_bytes s)"
  "st_transfer_bytes (accumulate s e) =
     (if row_transfers e then u64_sat_add (st_transfer_bytes s) (row_size e) else st_transfer_bytes s)"
  "st_compare (accumulate s e) = st_compare s"
  "st_complete (accumulate s e) = st_complete s"
  by (cases "se_state e"; simp add: accumulate_def accumulate_state_def Let_def row_directory_def
      row_in_sync_def row_missing_def row_transfers_def row_of_kind_def is_excluded_state_def
      needs_attention_def attention_def)+

text \<open>Saturating sums: the bound is absorbing, so only the whole sum is cut.\<close>

lemma sat_sum_step:
  "min (2 ^ 64 - 1) (unat (u64_sat_add a b) + n) = min (2 ^ 64 - 1) (unat a + unat b + n)"
  by (simp add: unat_u64_sat_add)

lemma accumulated_counts:
  "st_total_entries (foldl accumulate s rows) = st_total_entries s + length rows"
  "st_attention_entries (foldl accumulate s rows) =
     st_attention_entries s + counted (\<lambda>e. needs_attention (kind_of_state (se_state e))) rows"
  "st_directories (foldl accumulate s rows) = st_directories s + counted row_directory rows"
  "st_in_sync_files (foldl accumulate s rows) = st_in_sync_files s + counted row_in_sync rows"
  "st_missing_remote_files (foldl accumulate s rows) = st_missing_remote_files s + counted row_missing rows"
  "st_differing_files (foldl accumulate s rows) =
     st_differing_files s + counted (row_of_kind DiffersKind) rows"
  "st_remote_only_entries (foldl accumulate s rows) =
     st_remote_only_entries s + counted (row_of_kind RemoteOnlyKind) rows"
  "st_type_conflicts (foldl accumulate s rows) =
     st_type_conflicts s + counted (row_of_kind TypeConflictKind) rows"
  "st_excluded_entries (foldl accumulate s rows) =
     st_excluded_entries s + counted (row_of_kind ExcludedKind) rows"
  "st_not_compared_entries (foldl accumulate s rows) =
     st_not_compared_entries s + counted (row_of_kind NotComparedKind) rows"
  by (induction rows arbitrary: s; simp add: accumulate_counts)+

lemma accumulated_bytes:
  "unat (st_in_sync_bytes (foldl accumulate s rows)) =
     min (2 ^ 64 - 1) (unat (st_in_sync_bytes s) + sized row_in_sync rows)"
  "unat (st_transfer_bytes (foldl accumulate s rows)) =
     min (2 ^ 64 - 1) (unat (st_transfer_bytes s) + sized row_transfers rows)"
proof -
  have bound: "min 18446744073709551615 (unat w) = unat w" for w :: u64
  proof -
    have "unat w < 2 ^ LENGTH(64)" by (rule unsigned_less)
    then show ?thesis by simp
  qed
  show "unat (st_in_sync_bytes (foldl accumulate s rows)) =
     min (2 ^ 64 - 1) (unat (st_in_sync_bytes s) + sized row_in_sync rows)"
    by (induction rows arbitrary: s)
      (simp_all add: accumulate_counts bound sat_sum_step [simplified] add.assoc)
  show "unat (st_transfer_bytes (foldl accumulate s rows)) =
     min (2 ^ 64 - 1) (unat (st_transfer_bytes s) + sized row_transfers rows)"
    by (induction rows arbitrary: s)
      (simp_all add: accumulate_counts bound sat_sum_step [simplified] add.assoc)
qed

end
