(* ===== verification/StatusPlan.thy ===== *)
theory StatusPlan
  imports StatusFacts
begin

text \<open>
  The status page and the plan over the same inventories: where they agree, the totals of a page,
  and the two places where a row differs from what a run would do.
\<close>

section \<open>The totals of a page\<close>

text \<open>
  C21. The totals count the rows of the whole scope, whatever page and filters were asked for: every
  path is one row, every row falls in exactly one class, the rows that need attention are the
  differing, missing, remote-only and conflicting ones, and the byte totals are the exact sums up to
  the largest 64-bit number.
\<close>

theorem status_totals:
  assumes "build_status_page E root local remote excluded rules query = Inr page"
  shows "\<exists>rows. status_rows E root local remote excluded rules query = Inr rows \<and>
    st_total_entries (sg_stats page) =
      length (status_keys local remote excluded (co_build E local remote) query) \<and>
    st_total_entries (sg_stats page) =
      st_in_sync_files (sg_stats page) + st_differing_files (sg_stats page)
      + st_missing_remote_files (sg_stats page) + st_remote_only_entries (sg_stats page)
      + st_type_conflicts (sg_stats page) + st_excluded_entries (sg_stats page)
      + st_not_compared_entries (sg_stats page)
      + counted (\<lambda>e. se_kind e = Directory \<and> se_state e \<in> {InSyncState, MissingRemoteState}) rows \<and>
    st_attention_entries (sg_stats page) = counted (\<lambda>e. needs_attention (kind_of_state (se_state e))) rows \<and>
    unat (st_in_sync_bytes (sg_stats page)) = min (2 ^ 64 - 1) (sized row_in_sync rows) \<and>
    unat (st_transfer_bytes (sg_stats page)) = min (2 ^ 64 - 1) (sized row_transfers rows)"
proof -
  obtain rows where rows: "status_rows E root local remote excluded rules query = Inr rows"
    and page: "page = page_of E query rows"
    using assms by (auto simp: status_page_refines)
  have stats: "sg_stats page = foldl accumulate (stats_new (sq_compare query)) rows"
    by (simp add: page page_of_def Let_def)
  have classes: "length rows = counted row_in_sync rows + counted (row_of_kind DiffersKind) rows
      + counted row_missing rows + counted (row_of_kind RemoteOnlyKind) rows
      + counted (row_of_kind TypeConflictKind) rows + counted (row_of_kind ExcludedKind) rows
      + counted (row_of_kind NotComparedKind) rows
      + counted (\<lambda>e. se_kind e = Directory \<and> se_state e \<in> {InSyncState, MissingRemoteState}) rows"
  proof (induction rows)
    case Nil
    then show ?case by simp
  next
    case (Cons e rows)
    then show ?case
      by (cases "se_state e"; cases "se_kind e")
        (simp_all add: row_in_sync_def row_missing_def row_of_kind_def)
  qed
  have keys: "length rows = length (status_keys local remote excluded (co_build E local remote) query)"
    using status_rows_sorted(1) [OF rows] by (metis length_map)
  show ?thesis
    using rows classes keys
    by (intro exI [of _ rows]) (simp add: stats accumulated_counts accumulated_bytes stats_new_def)
qed

definition demo_query :: "compare_mode \<Rightarrow> status_query" where
  "demo_query compare =
     \<lparr>sq_scope = scope_root, sq_compare = compare, sq_filter = None, sq_states = AllStates,
      sq_include_excluded = False, sq_limit = 3, sq_cursor = None, sq_local_complete = True,
      sq_remote_complete = True\<rparr>"

lemma mirror_status:
  "build_status_page plain_env demo_root mirror_local mirror_remote [] rules_none (demo_query Metadata)
     = Inr (projr (build_status_page plain_env demo_root mirror_local mirror_remote [] rules_none
         (demo_query Metadata)))"
  "sg_next_cursor (projr (build_status_page plain_env demo_root mirror_local mirror_remote [] rules_none
     (demo_query Metadata))) = Some (StatusCursor ''a/new'')"
  "st_total_entries (sg_stats (projr (build_status_page plain_env demo_root mirror_local mirror_remote []
     rules_none (demo_query Metadata)))) = 7"
proof -
  have e: "map_r (\<lambda>p. (sg_next_cursor p, st_total_entries (sg_stats p)))
      (build_status_page plain_env demo_root mirror_local mirror_remote [] rules_none (demo_query Metadata))
      = Inr (Some (StatusCursor ''a/new''), 7)"
    by code_simp
  note r = map_r_result [OF e]
  show "build_status_page plain_env demo_root mirror_local mirror_remote [] rules_none (demo_query Metadata)
     = Inr (projr (build_status_page plain_env demo_root mirror_local mirror_remote [] rules_none
         (demo_query Metadata)))"
    by (rule r(1))
  show "sg_next_cursor (projr (build_status_page plain_env demo_root mirror_local mirror_remote [] rules_none
     (demo_query Metadata))) = Some (StatusCursor ''a/new'')"
    "st_total_entries (sg_stats (projr (build_status_page plain_env demo_root mirror_local mirror_remote []
     rules_none (demo_query Metadata)))) = 7"
    using r(2) by (simp_all only: prod.inject)
qed

theorem status_totals_witness:
  "\<exists>rows. status_rows plain_env demo_root mirror_local mirror_remote [] rules_none (demo_query Metadata)
     = Inr rows \<and> length (status_keys mirror_local mirror_remote []
        (co_build plain_env mirror_local mirror_remote) (demo_query Metadata)) = 7"
  using status_totals [OF mirror_status(1)] mirror_status(3) by metis

section \<open>Agreement with the plan\<close>

lemma resolve_pairs_no_delete:
  "rs_pairs (resolve E local remote rules False refused) = co_build E local remote"
  using resolve_no_renames [of E local remote rules refused]
  by (simp add: resolve_def Let_def shield_type_conflicts_frame shield_paired_exclusions_frame)

lemma classify_state_local:
  "classify_state E (Some l) r excluded rules pairs mounted query k = s \<Longrightarrow>
   \<not> is_excluded_state s \<Longrightarrow> s = classify_compared (Some l) r query"
  by (auto simp: classify_state_def Let_def is_excluded_state_def split: if_splits option.splits)

text \<open>The row of a source entry that the plan carries, compared with what the plan asks of it.\<close>

lemma row_state_local:
  assumes "wf_local local" and "e \<in> set (om_values (li_entries local))"
    and "status_row E root local remote excluded rules pairs query (l_relative e) = Inr row"
    and "\<not> is_excluded_state (se_state row)"
  shows "se_state row = classify_compared (Some e) (remote_of pairs remote (l_relative e)) query"
proof -
  have "om_get (li_entries local) (l_relative e) = Some e"
    using wf_local_values [OF assms(1)] assms(2) by blast
  then have "\<exists>mounted. se_state row = classify_state E (Some e) (remote_of pairs remote (l_relative e))
      excluded rules pairs mounted query (l_relative e)"
    using assms(3) by (auto simp: status_row_def classify_def Let_def)
  then show ?thesis
    using classify_state_local assms(4) by metis
qed

lemma compared_form:
  assumes "\<And>r. x = Some r \<Longrightarrow> l_kind e = r_kind r"
  shows "classify_compared (Some e) x query =
    (case x of
       None \<Rightarrow> if sq_remote_complete query then MissingRemoteState else NotComparedState
     | Some r \<Rightarrow>
         if l_kind e = Directory then InSyncState
         else (case compare_files e r (sq_compare query) of
                 None \<Rightarrow> InSyncState | Some reason \<Rightarrow> DiffersState reason))"
proof (cases x)
  case None
  then show ?thesis by (simp add: classify_compared_def)
next
  case (Some r)
  with assms have "r_kind r = l_kind e" by simp
  with Some show ?thesis
    by (cases "l_kind e") (simp_all add: classify_compared_def)
qed

lemma planned_upload_form:
  assumes "\<And>r. remote_of (rs_pairs rs) remote (l_relative e) = Some r \<Longrightarrow> l_kind e = r_kind r"
    and "\<not> shield_covers E (rs_folds rs) (l_relative e)"
  shows "planned_upload E remote options rs e =
      (if l_kind e = Directory then None
       else (case remote_of (rs_pairs rs) remote (l_relative e) of
               None \<Rightarrow> Some (MissingRemote, None)
             | Some r \<Rightarrow> map_option (\<lambda>reason. (reason, Some (overwritten_snapshot r)))
                 (compare_files e r (po_compare options))))"
proof (cases "remote_of (rs_pairs rs) remote (l_relative e)")
  case None
  with assms(2) show ?thesis by (simp add: planned_upload_def)
next
  case (Some r)
  with assms(1) have "r_kind r = l_kind e" by simp
  with Some assms(2) show ?thesis
    by (cases "l_kind e") (simp_all add: planned_upload_def)
qed

lemma compared_planned:
  assumes "e \<in> set (om_values (li_entries local))"
    and "rs = resolve E local remote rules False refused"
    and "\<not> shield_covers E (rs_folds rs) (l_relative e)"
    and "po_compare options = sq_compare query"
    and "s = classify_compared (Some e) (remote_of (rs_pairs rs) remote (l_relative e)) query"
  shows "s = DiffersState reason \<Longrightarrow>
      \<exists>expected. planned_upload E remote options rs e = Some (reason, Some expected)"
    and "s = MissingRemoteState \<Longrightarrow> l_kind e = File \<Longrightarrow>
      planned_upload E remote options rs e = Some (MissingRemote, None)"
    and "s = InSyncState \<Longrightarrow> planned_upload E remote options rs e = None"
    and "s \<noteq> TypeConflictState a b"
proof -
  let ?r = "remote_of (rs_pairs rs) remote (l_relative e)"
  have kinds: "l_kind e = r_kind r" if "?r = Some r" for r
  proof -
    have "conflict_free E remote False rs e"
      unfolding assms(2) by (rule resolve_conflict_free [OF assms(1)])
    then show ?thesis
      using that assms(3) unfolding conflict_free_def remote_of_def by simp
  qed
  have form: "s = (case ?r of
       None \<Rightarrow> if sq_remote_complete query then MissingRemoteState else NotComparedState
     | Some r \<Rightarrow>
         if l_kind e = Directory then InSyncState
         else (case compare_files e r (sq_compare query) of
                 None \<Rightarrow> InSyncState | Some reason \<Rightarrow> DiffersState reason))"
    unfolding assms(5) by (rule compared_form) (rule kinds)
  have up: "planned_upload E remote options rs e =
      (if l_kind e = Directory then None
       else (case ?r of
               None \<Rightarrow> Some (MissingRemote, None)
             | Some r \<Rightarrow> map_option (\<lambda>reason. (reason, Some (overwritten_snapshot r)))
                 (compare_files e r (sq_compare query))))"
    unfolding assms(4) [symmetric] by (rule planned_upload_form [OF kinds assms(3)])
  show "s = DiffersState reason \<Longrightarrow>
      \<exists>expected. planned_upload E remote options rs e = Some (reason, Some expected)"
    unfolding form up by (auto split: option.splits if_splits)
  show "s = MissingRemoteState \<Longrightarrow> l_kind e = File \<Longrightarrow>
      planned_upload E remote options rs e = Some (MissingRemote, None)"
    unfolding form up by (auto split: option.splits if_splits)
  show "s = InSyncState \<Longrightarrow> planned_upload E remote options rs e = None"
    unfolding form up by (auto split: option.splits if_splits)
  show "s \<noteq> TypeConflictState a b"
    unfolding form by (auto split: option.splits if_splits)
qed

lemma plan_carries:
  assumes "planned E root local remote rules options rs p ups p4"
    and "e \<in> set (om_values (li_entries local))"
    and "planned_upload E remote options rs e = Some (reason, expected)"
  shows "(\<exists>u \<in> set (sp_uploads p). ua_local u = e \<and> ua_reason u = reason) \<or>
      (remote_of (rs_pairs rs) remote (l_relative e) = None \<and> (\<exists>c \<in> set (sp_copies p). cp_local c = e))"
proof -
  obtain u where u: "u \<in> set ups" "ua_local u = e" "ua_reason u = reason"
    using planned_upload_scheduled [OF assms] by fastforce
  show ?thesis
  proof (cases "u \<in> set (sp_uploads p)")
    case True
    with u show ?thesis by blast
  next
    case False
    then obtain c where c: "c \<in> set (sp_copies p)" "copies_upload u c"
      using plannedD(5) [OF assms(1)] u(1) by blast
    then have "justified_copy E local remote rules rs (set (map da_relative (sp_pre_deletes p))) ups c"
      using plannedD(6) [OF assms(1)] by blast
    then obtain v r d where v: "remote_of (rs_pairs rs) remote (l_relative (ua_local v)) = None"
      and copy: "c = copy_of v r (l_size (ua_local v)) d"
      unfolding justified_copy_def by blast
    have "ua_local v = e"
      using c(2) u(2) by (simp add: copies_upload_def copy copy_of_def)
    moreover have "cp_local c = e"
      using c(2) u(2) by (simp add: copies_upload_def)
    ultimately show ?thesis
      using c(1) v by blast
  qed
qed

lemma plan_leaves:
  assumes "planned E root local remote rules options rs p ups p4"
    and "planned_upload E remote options rs e = None"
  shows "(\<forall>u \<in> set (sp_uploads p). ua_local u \<noteq> e) \<and> (\<forall>c \<in> set (sp_copies p). cp_local c \<noteq> e)"
proof -
  have ups: "ua_local u \<noteq> e" if "u \<in> set ups" for u
    using ups_planned(2) [OF assms(1) that] assms(2) by auto
  moreover have "cp_local c \<noteq> e" if c: "c \<in> set (sp_copies p)" for c
  proof -
    have "justified_copy E local remote rules rs (set (map da_relative (sp_pre_deletes p))) ups c"
      using plannedD(6) [OF assms(1)] c by blast
    then obtain u where "u \<in> set ups" "copies_upload u c"
      using justified_copy_upload by blast
    then show ?thesis
      using ups by (auto simp: copies_upload_def)
  qed
  ultimately show ?thesis
    using plannedD(3) [OF assms(1)] by blast
qed

text \<open>
  C20. For a source entry the shield leaves in the run, a status row and a plan without --delete
  agree: a row that differs is uploaded with the reason of the row, a missing file is uploaded or
  copied, a row in sync is neither, and the row is never a type conflict.
\<close>

theorem status_agrees_with_plan:
  assumes plan: "build_plan E root local remote rules options = Inr p"
    and "\<not> po_delete options" and "po_compare options = sq_compare query"
    and wf: "wf_local local" and e: "e \<in> set (om_values (li_entries local))"
    and uncovered: "\<not> shield_covers E
      (rs_folds (plan_resolution E root local remote rules options)) (l_relative e)"
    and row: "status_row E root local remote excluded rules (co_build E local remote) query (l_relative e)
      = Inr row"
  shows "(\<forall>reason. se_state row = DiffersState reason \<longrightarrow>
      (\<exists>u \<in> set (sp_uploads p). ua_local u = e \<and> ua_reason u = reason)) \<and>
    (se_state row = MissingRemoteState \<and> l_kind e = File \<longrightarrow>
      (\<exists>u \<in> set (sp_uploads p). ua_local u = e \<and> ua_reason u = MissingRemote) \<or>
      (\<exists>c \<in> set (sp_copies p). cp_local c = e)) \<and>
    (se_state row = InSyncState \<longrightarrow>
      (\<forall>u \<in> set (sp_uploads p). ua_local u \<noteq> e) \<and> (\<forall>c \<in> set (sp_copies p). cp_local c \<noteq> e)) \<and>
    (\<forall>a b. se_state row \<noteq> TypeConflictState a b)"
proof (cases "is_excluded_state (se_state row)")
  case True
  then show ?thesis by (auto simp: is_excluded_state_def split: status_state.splits)
next
  case False
  define rs where "rs = plan_resolution E root local remote rules options"
  have rs: "rs = resolve E local remote rules False (paths_the_destination_refuses E root local)"
    using assms(2) by (simp add: rs_def plan_resolution_def)
  have pairs: "rs_pairs rs = co_build E local remote"
    unfolding rs by (rule resolve_pairs_no_delete)
  obtain ups p4 where pl: "planned E root local remote rules options rs p ups p4"
    using build_plan_planned(1) [OF plan rs_def] by blast
  have s: "se_state row =
      classify_compared (Some e) (remote_of (rs_pairs rs) remote (l_relative e)) query"
    unfolding pairs by (rule row_state_local [OF wf e row False])
  note c = compared_planned [OF e rs uncovered [folded rs_def] assms(3) s]
  show ?thesis
  proof (intro conjI allI impI)
    fix reason
    assume d: "se_state row = DiffersState reason"
    then obtain expected where up: "planned_upload E remote options rs e = Some (reason, Some expected)"
      using c(1) by blast
    have "remote_of (rs_pairs rs) remote (l_relative e) \<noteq> None"
      using up by (cases "remote_of (rs_pairs rs) remote (l_relative e)")
        (auto simp: planned_upload_def split: if_splits)
    with plan_carries [OF pl e up] show "\<exists>u \<in> set (sp_uploads p). ua_local u = e \<and> ua_reason u = reason"
      by blast
  next
    assume "se_state row = MissingRemoteState \<and> l_kind e = File"
    with c(2) plan_carries [OF pl e] show "(\<exists>u \<in> set (sp_uploads p). ua_local u = e \<and>
        ua_reason u = MissingRemote) \<or> (\<exists>c \<in> set (sp_copies p). cp_local c = e)"
      by blast
  next
    assume "se_state row = InSyncState"
    with c(3) plan_leaves [OF pl] show "\<forall>u \<in> set (sp_uploads p). ua_local u \<noteq> e"
      "\<forall>c \<in> set (sp_copies p). cp_local c \<noteq> e"
      by blast+
  next
    fix a b
    show "se_state row \<noteq> TypeConflictState a b"
      by (rule c(4))
  qed
qed

lemma update_run:
  "build_plan plain_env demo_root mirror_local mirror_remote rules_none (demo_options False Metadata)
     = Inr (projr (build_plan plain_env demo_root mirror_local mirror_remote rules_none
         (demo_options False Metadata)))"
proof -
  have "map_r (\<lambda>p. sp_unchanged p) (build_plan plain_env demo_root mirror_local mirror_remote
      rules_none (demo_options False Metadata)) = Inr 1"
    by code_simp
  from map_r_result(1) [OF this] show ?thesis .
qed

lemma mirror_local_wf: "wf_local mirror_local"
proof -
  have "sorted_wrt (<) (map fst (li_entries mirror_local))"
    by code_simp
  then show ?thesis
    by (simp add: wf_local_def om_wf_def mirror_local_def demo_local_def)
qed

theorem status_agrees_with_plan_witness:
  "\<exists>u \<in> set (sp_uploads (projr (build_plan plain_env demo_root mirror_local mirror_remote rules_none
     (demo_options False Metadata)))). l_relative (ua_local u) = ''edit'' \<and> ua_reason u = SizeDiffers"
proof -
  let ?e = "snd (demo_local ''edit'' File 9 6000 None)"
  let ?row = "status_row plain_env demo_root mirror_local mirror_remote [] rules_none
      (co_build plain_env mirror_local mirror_remote) (demo_query Metadata) (l_relative ?e)"
  have e: "?e \<in> set (om_values (li_entries mirror_local))"
    by (simp add: mirror_local_def om_values_def)
  have opts: "\<not> po_delete (demo_options False Metadata)"
    "po_compare (demo_options False Metadata) = sq_compare (demo_query Metadata)"
    by (simp_all add: demo_options_def demo_query_def)
  have uncovered: "\<not> shield_covers plain_env (rs_folds (plan_resolution plain_env demo_root mirror_local
      mirror_remote rules_none (demo_options False Metadata))) (l_relative ?e)"
    by code_simp
  have "map_r se_state ?row = Inr (DiffersState SizeDiffers)"
    by code_simp
  from map_r_result [OF this] have row: "?row = Inr (projr ?row)"
    and state: "se_state (projr ?row) = DiffersState SizeDiffers"
    by blast+
  have "l_relative ?e = ''edit''"
    by (simp add: demo_local_def)
  then show ?thesis
    using status_agrees_with_plan [OF update_run opts mirror_local_wf e uncovered row] state by metis
qed

theorem status_paging_complete_witness:
  "\<exists>rows. status_rows plain_env demo_root mirror_local mirror_remote [] rules_none (demo_query Metadata)
     = Inr rows \<and>
   follow_pages (build_status_page plain_env demo_root mirror_local mirror_remote [] rules_none) 9
     (demo_query Metadata) = Some (Inr (listed_rows plain_env (demo_query Metadata) rows)) \<and>
   length (listed_rows plain_env (demo_query Metadata) rows) = 7"
proof -
  let ?rows = "status_rows plain_env demo_root mirror_local mirror_remote [] rules_none (demo_query Metadata)"
  have "map_r (\<lambda>rows. length (listed_rows plain_env (demo_query Metadata) rows)) ?rows = Inr 7"
    by code_simp
  note r = map_r_result [OF this]
  have "length (listed_rows plain_env (demo_query Metadata) (projr ?rows)) < 9"
    unfolding r(2) by simp
  from status_paging_complete [OF r(1) this] show ?thesis
    using r by metis
qed

section \<open>Where a row differs from a run\<close>

definition respelled_local :: local_inventory where
  "respelled_local =
     \<lparr>li_root = ''/src'', li_entries = [demo_local ''Doc'' File 5 1000 None], li_skipped = []\<rparr>"

definition respelled_remote :: remote_inventory where
  "respelled_remote =
     \<lparr>ri_root_exists = True, ri_entries = [demo_remote ''doc'' File 5 1 None]\<rparr>"

text \<open>
  A row can disagree with the run: for a source file whose name the NAS holds under another
  case, a run without --delete skips it and transfers nothing, while the status page calls it
  missing on the NAS with its bytes to transfer, and calls the NAS file extra.
\<close>

theorem status_ignores_shield:
  "map_r (\<lambda>p. (plan_is_empty p, sp_upload_bytes p, sp_skipped p))
     (build_plan plain_env demo_root respelled_local respelled_remote rules_none
       (demo_options False Metadata))
     = Inr (True, 0, [skipped ''Doc'' (CaseRenameNeedsDelete ''doc'')]) \<and>
   map_r (\<lambda>p. (map (\<lambda>e. (se_relative e, se_state e)) (sg_entries p), st_transfer_bytes (sg_stats p)))
     (build_status_page plain_env demo_root respelled_local respelled_remote [] rules_none
       (demo_query Metadata))
     = Inr ([(''Doc'', MissingRemoteState), (''doc'', RemoteOnlyState)], 5)"
  by (rule conjI; code_simp)

definition long_root :: remote_root where
  "long_root = RemoteRoot (''/s/'' @ replicate 243 (CHR ''n''))"

definition long_local :: local_inventory where
  "long_local =
     \<lparr>li_root = ''/src'', li_entries = [demo_local ''a'' File 5 1000 None, demo_local ''notes'' File 2 1000 None],
      li_skipped = []\<rparr>"

definition empty_remote :: remote_inventory where
  "empty_remote = \<lparr>ri_root_exists = True, ri_entries = []\<rparr>"

lemma refuse_fold_mono:
  "set refused \<subseteq> set (fold (refuse_step E root) ks refused)"
proof (induction ks arbitrary: refused)
  case Nil
  then show ?case by simp
next
  case (Cons k ks)
  have "set refused \<subseteq> set (refuse_step E root k refused)"
    by (auto simp: refuse_step_def split: sum.splits error.splits)
  with Cons [of "refuse_step E root k refused"] show ?case by auto
qed

lemma refuse_step_covers:
  assumes "root_join root k = Inl e"
  shows "\<exists>s \<in> set (refuse_step E root k refused). at_or_beneath (sk_relative s) k"
proof (cases "refused \<noteq> [] \<and> beneath (sk_relative (last refused)) k")
  case True
  then show ?thesis
    by (intro bexI [of _ "last refused"]) (auto simp: refuse_step_def at_or_beneath_def)
next
  case False
  then show ?thesis
    using assms by (auto simp: refuse_step_def skipped_def at_or_beneath_def split: error.splits)
qed

lemma refused_paths_cover:
  assumes "k \<in> set (om_keys (li_entries local))" and "root_join root k = Inl e"
  shows "\<exists>s \<in> set (paths_the_destination_refuses E root local). at_or_beneath (sk_relative s) k"
proof -
  obtain as bs where ks: "om_keys (li_entries local) = as @ k # bs"
    using split_list [OF assms(1)] by blast
  let ?before = "fold (refuse_step E root) as []"
  have "set (refuse_step E root k ?before) \<subseteq> set (paths_the_destination_refuses E root local)"
    unfolding paths_the_destination_refuses_def ks by (simp add: refuse_fold_mono)
  then show ?thesis
    using refuse_step_covers [OF assms(2)] by blast
qed

text \<open>
  One source path the destination cannot hold fails the whole status page, of every scope that
  holds the path and whatever its filters, while the resolution a plan is built from names the path,
  or a folder above it, among those the destination refuses and shields it.
\<close>

lemma status_fails_on_refused_path:
  assumes "om_get (li_entries local) k = Some entry" and "scope_matches (sq_scope query) k"
    and "remote_of (co_build E local remote) remote k = None"
    and "root_join root k = Inl refusal"
  shows "(\<exists>e. build_status_page E root local remote excluded rules query = Inl e) \<and>
    (\<exists>s \<in> set (paths_the_destination_refuses E root local). at_or_beneath (sk_relative s) k \<and>
      shield_covers E (rs_folds (plan_resolution E root local remote rules options)) (sk_relative s))"
proof
  let ?pairs = "co_build E local remote"
  have key: "k \<in> set (om_keys (li_entries local))"
    using om_get_Some_in [OF assms(1)] by (force simp: om_keys_def)
  have "status_row E root local remote excluded rules ?pairs query k = Inl refusal"
    using assms(1,3,4) by (simp add: status_row_def classify_def)
  moreover have "k \<in> set (status_keys local remote excluded ?pairs query)"
    using key assms(2) by (simp add: status_keys_def)
  ultimately have "\<exists>e. status_rows E root local remote excluded rules query = Inl e"
    unfolding status_rows_def collect_Inl_iff by blast
  then show "\<exists>e. build_status_page E root local remote excluded rules query = Inl e"
    by (auto simp: status_page_refines)
next
  obtain s where s: "s \<in> set (paths_the_destination_refuses E root local)"
    "at_or_beneath (sk_relative s) k"
    using refused_paths_cover [OF _ assms(4)] om_get_Some_in [OF assms(1)]
    by (force simp: om_keys_def)
  have "portable_fold E (sk_relative s) \<in>
      rs_folds (resolution_start E local (paths_the_destination_refuses E root local))"
    using s(1) by (auto simp: resolution_start_def)
  then have "shield_covers E (rs_folds (plan_resolution E root local remote rules options)) (sk_relative s)"
    unfolding plan_resolution_def by (intro shield_covers_own subsetD [OF resolve_start_folds])
  with s show "\<exists>s \<in> set (paths_the_destination_refuses E root local). at_or_beneath (sk_relative s) k \<and>
      shield_covers E (rs_folds (plan_resolution E root local remote rules options)) (sk_relative s)"
    by blast
qed

theorem status_fails_on_refused_path_witness:
  "\<exists>e. build_status_page plain_env long_root long_local empty_remote [] rules_none (demo_query Metadata)
     = Inl e"
proof -
  have local: "om_get (li_entries long_local) ''notes'' = Some (snd (demo_local ''notes'' File 2 1000 None))"
    by (simp add: long_local_def demo_local_def om_get_def)
  have scope: "scope_matches (sq_scope (demo_query Metadata)) ''notes''"
    by (simp add: demo_query_def scope_root_def scope_matches_iff)
  have remote: "remote_of (co_build plain_env long_local empty_remote) empty_remote ''notes'' = None"
    by (simp add: remote_of_def empty_remote_def om_get_def)
  have "\<not> is_continuation (CHR ''n'')" "\<not> is_continuation (CHR ''s'')" "\<not> is_continuation slash"
    "\<not> is_continuation (CHR ''o'')"
    by (simp_all add: is_continuation_def byte_def slash_def)
  then have "247 < chars_count (''s/'' @ replicate 243 (CHR ''n'') @ slash # ''notes'')"
    by (simp add: chars_count_def)
  then have "drive_path_issue (''s/'' @ replicate 243 (CHR ''n'') @ slash # ''notes'') \<noteq> None"
    by (simp add: drive_path_issue_def)
  then have "\<nexists>p. root_join long_root ''notes'' = Inr p"
    by (auto simp: root_join_Inr_iff long_root_def)
  then obtain refusal where "root_join long_root ''notes'' = Inl refusal"
    by (cases "root_join long_root ''notes''") auto
  from status_fails_on_refused_path [OF local scope remote this] show ?thesis
    by blast
qed

end
