(* ===== verification/Digests.thy ===== *)
theory Digests
  imports Planner
begin

text \<open>
  Which remote files are hashed before a plan is built (\<open>src/plan.rs\<close>): the files a comparison
  needs a digest of, the files whose digest guards a deletion, and the sources of server copies; and
  the promotion of the fingerprints of the planned uploads.
\<close>

section \<open>Short listings\<close>

definition listing_withholds :: "string \<Rightarrow> string list \<Rightarrow> bool" where
  "listing_withholds relative incomplete =
     (if incomplete = [] then False
      else
        let parent = (case rsplit_once slash relative of None \<Rightarrow> [] | Some (p, _) \<Rightarrow> p) in
        list_ex (\<lambda>directory. parent = directory \<or> relative = directory \<or> beneath relative directory)
          incomplete)"

definition has_local_file_ancestor :: "string \<Rightarrow> local_inventory \<Rightarrow> bool" where
  "has_local_file_ancestor relative local =
     list_ex (\<lambda>parent. case om_get (li_entries local) parent of
                 None \<Rightarrow> False | Some entry \<Rightarrow> l_kind entry = File)
       (ancestors relative)"

section \<open>Deletion guards\<close>

definition is_guard_candidate ::
  "text_env \<Rightarrow> local_inventory \<Rightarrow> ignore_rules \<Rightarrow> resolution \<Rightarrow> string list \<Rightarrow> remote_entry \<Rightarrow> bool"
where
  "is_guard_candidate E local rules rs incomplete entry =
     (if r_kind entry \<noteq> File
         \<or> r_size entry = 0
         \<or> is_protected E rules (rs_pairs rs) entry
         \<or> shield_covers E (rs_folds rs) (r_relative entry)
         \<or> is_leftover rs (r_relative entry)
      then False
      else
        (case local_of (rs_pairs rs) local (r_relative entry) of
           None \<Rightarrow> True | Some local_entry \<Rightarrow> l_kind local_entry \<noteq> File)
        \<and> (\<not> listing_withholds (r_relative entry) incomplete
            \<or> has_local_file_ancestor (r_relative entry) local))"

definition deletion_guard_candidates ::
  "text_env \<Rightarrow> local_inventory \<Rightarrow> remote_inventory \<Rightarrow> ignore_rules \<Rightarrow> resolution \<Rightarrow> string list
     \<Rightarrow> string set"
where
  "deletion_guard_candidates E local remote rules rs incomplete =
     set (map r_relative (filter (is_guard_candidate E local rules rs incomplete)
       (om_values (ri_entries remote))))"

definition select_deletion_guard_hashes_excluding ::
  "text_env \<Rightarrow> local_inventory \<Rightarrow> remote_inventory \<Rightarrow> ignore_rules \<Rightarrow> string list \<Rightarrow> string set"
where
  "select_deletion_guard_hashes_excluding E local remote rules incomplete =
     deletion_guard_candidates E local remote rules (resolve E local remote rules True []) incomplete"

definition select_deletion_guard_hashes ::
  "text_env \<Rightarrow> local_inventory \<Rightarrow> remote_inventory \<Rightarrow> ignore_rules \<Rightarrow> string set"
where
  "select_deletion_guard_hashes E local remote rules =
     select_deletion_guard_hashes_excluding E local remote rules []"

definition deletions_withheld_by_listing ::
  "text_env \<Rightarrow> local_inventory \<Rightarrow> remote_inventory \<Rightarrow> ignore_rules \<Rightarrow> string list \<Rightarrow> string set"
where
  "deletions_withheld_by_listing E local remote rules incomplete =
     (if incomplete = [] then {}
      else
        let rs = resolve E local remote rules True [] in
        deletion_guard_candidates E local remote rules rs []
          - deletion_guard_candidates E local remote rules rs incomplete)"

section \<open>Comparison\<close>

definition comparison_candidate ::
  "text_env \<Rightarrow> remote_inventory \<Rightarrow> ignore_rules \<Rightarrow> resolution \<Rightarrow> local_entry \<Rightarrow> string option"
where
  "comparison_candidate E remote rules rs local_entry =
     (if l_kind local_entry \<noteq> File \<or> l_size local_entry = 0
         \<or> shield_covers E (rs_folds rs) (l_relative local_entry)
      then None
      else
        (case remote_of (rs_pairs rs) remote (l_relative local_entry) of
           None \<Rightarrow> None
         | Some remote_entry \<Rightarrow>
             if r_kind remote_entry = File \<and> r_size remote_entry = l_size local_entry
                \<and> \<not> is_excluded_from_comparison E rules (rs_pairs rs) remote_entry
             then Some (r_relative remote_entry) else None))"

definition comparison_candidates ::
  "text_env \<Rightarrow> local_inventory \<Rightarrow> remote_inventory \<Rightarrow> ignore_rules \<Rightarrow> resolution \<Rightarrow> string set"
where
  "comparison_candidates E local remote rules rs =
     set (List.map_filter (comparison_candidate E remote rules rs) (om_values (li_entries local)))"

definition select_comparison_remote_digests ::
  "text_env \<Rightarrow> local_inventory \<Rightarrow> remote_inventory \<Rightarrow> ignore_rules \<Rightarrow> bool \<Rightarrow> string set"
where
  "select_comparison_remote_digests E local remote rules delete =
     comparison_candidates E local remote rules (resolve E local remote rules delete [])"

section \<open>Mutation guards\<close>

record strong_selection =
  ss_server_copy :: bool
  ss_delete :: bool
  ss_incomplete :: "string list"

type_synonym copy_key = "u64 \<times> string \<times> int"

definition missing_target ::
  "text_env \<Rightarrow> remote_inventory \<Rightarrow> resolution \<Rightarrow> local_entry \<Rightarrow> copy_key option"
where
  "missing_target E remote rs entry =
     (if l_kind entry \<noteq> File \<or> l_size entry = 0
         \<or> remote_of (rs_pairs rs) remote (l_relative entry) \<noteq> None
         \<or> shield_covers E (rs_folds rs) (l_relative entry)
      then None
      else Some (l_size entry, snd (parent_name (l_relative entry)), local_mtime_seconds entry))"

definition missing_by_key ::
  "text_env \<Rightarrow> local_inventory \<Rightarrow> remote_inventory \<Rightarrow> resolution \<Rightarrow> (copy_key, string list) kmap"
where
  "missing_by_key E local remote rs =
     fold (group_push (missing_target E remote rs) (\<lambda>e. fst (parent_name (l_relative e))))
       (om_values (li_entries local)) []"

definition is_copy_candidate ::
  "text_env \<Rightarrow> local_inventory \<Rightarrow> ignore_rules \<Rightarrow> resolution \<Rightarrow> (copy_key, string list) kmap
     \<Rightarrow> remote_entry \<Rightarrow> bool"
where
  "is_copy_candidate E local rules rs missing entry =
     (if r_kind entry \<noteq> File
         \<or> r_size entry = 0
         \<or> local_of (rs_pairs rs) local (r_relative entry) \<noteq> None
         \<or> is_protected E rules (rs_pairs rs) entry
         \<or> shield_covers E (rs_folds rs) (r_relative entry)
         \<or> is_leftover rs (r_relative entry)
         \<or> has_local_file_ancestor (r_relative entry) local
      then False
      else
        let (parent, name) = parent_name (r_relative entry) in
        (case om_get missing (r_size entry, name, r_mtime entry) of
           None \<Rightarrow> False
         | Some target_parents \<Rightarrow> list_ex (\<lambda>target. target \<noteq> parent) target_parents))"

definition strong_candidates ::
  "text_env \<Rightarrow> local_inventory \<Rightarrow> remote_inventory \<Rightarrow> ignore_rules \<Rightarrow> strong_selection \<Rightarrow> resolution
     \<Rightarrow> string set"
where
  "strong_candidates E local remote rules selection rs =
     (if ss_delete selection
      then deletion_guard_candidates E local remote rules rs (ss_incomplete selection) else {})
     \<union> (if \<not> ss_server_copy selection then {}
        else set (map r_relative
               (filter (is_copy_candidate E local rules rs (missing_by_key E local remote rs))
                 (om_values (ri_entries remote)))))"

definition select_strong_remote_digests ::
  "text_env \<Rightarrow> local_inventory \<Rightarrow> remote_inventory \<Rightarrow> ignore_rules \<Rightarrow> bool \<Rightarrow> bool \<Rightarrow> string set"
where
  "select_strong_remote_digests E local remote rules server_copy delete =
     strong_candidates E local remote rules
       \<lparr>ss_server_copy = server_copy, ss_delete = delete, ss_incomplete = []\<rparr>
       (resolve E local remote rules delete [])"

definition select_plan_digests ::
  "text_env \<Rightarrow> local_inventory \<Rightarrow> remote_inventory \<Rightarrow> ignore_rules \<Rightarrow> bool \<Rightarrow> bool \<Rightarrow> string list
     \<Rightarrow> string set \<times> string set"
where
  "select_plan_digests E local remote rules server_copy delete incomplete =
     (let rs = resolve E local remote rules delete [] in
      (comparison_candidates E local remote rules rs,
       strong_candidates E local remote rules
         \<lparr>ss_server_copy = server_copy, ss_delete = delete, ss_incomplete = incomplete\<rparr> rs))"

definition select_remote_content_hashes_for_plan ::
  "text_env \<Rightarrow> local_inventory \<Rightarrow> remote_inventory \<Rightarrow> ignore_rules \<Rightarrow> bool \<Rightarrow> bool \<Rightarrow> string set"
where
  "select_remote_content_hashes_for_plan E local remote rules server_copy delete =
     (let (selected, strong) = select_plan_digests E local remote rules server_copy delete [] in
      selected \<union> strong)"

definition select_remote_content_hashes ::
  "text_env \<Rightarrow> local_inventory \<Rightarrow> remote_inventory \<Rightarrow> ignore_rules \<Rightarrow> bool \<Rightarrow> string set"
where
  "select_remote_content_hashes E local remote rules server_copy =
     select_remote_content_hashes_for_plan E local remote rules server_copy False"

section \<open>Promotion of the uploads\<close>

text \<open>
  \<open>hash_file_snapshot\<close> reads the file; what it answers for an entry is the parameter
  \<open>hash_file\<close>, and whether the run was cancelled before a file is \<open>cancelled\<close>.
\<close>

definition promote_to_full_fingerprint ::
  "(local_entry \<Rightarrow> fingerprint res) \<Rightarrow> local_entry \<Rightarrow> local_entry res"
where
  "promote_to_full_fingerprint hash_file entry =
     (case l_md5 entry of
        Some fingerprint \<Rightarrow>
          if has_full_proof fingerprint then Inr entry
          else map_r (\<lambda>fp. entry\<lparr>l_md5 := Some fp\<rparr>) (hash_file entry)
      | None \<Rightarrow> map_r (\<lambda>fp. entry\<lparr>l_md5 := Some fp\<rparr>) (hash_file entry))"

definition promote_step ::
  "(local_entry \<Rightarrow> fingerprint res) \<Rightarrow> (local_entry \<Rightarrow> bool) \<Rightarrow> upload_action list \<Rightarrow> upload_action
     \<Rightarrow> upload_action list res"
where
  "promote_step hash_file cancelled acc upload =
     (if cancelled (ua_local upload) then Inl Cancelled
      else map_r (\<lambda>entry. acc @ [upload\<lparr>ua_local := entry\<rparr>])
             (promote_to_full_fingerprint hash_file (ua_local upload)))"

definition promote_upload_fingerprints ::
  "(local_entry \<Rightarrow> fingerprint res) \<Rightarrow> (local_entry \<Rightarrow> bool) \<Rightarrow> sync_plan \<Rightarrow> sync_plan res"
where
  "promote_upload_fingerprints hash_file cancelled plan =
     map_r (\<lambda>uploads. plan\<lparr>sp_uploads := uploads\<rparr>)
       (fold_r (promote_step hash_file cancelled) [] (sp_uploads plan))"

end
