(* ===== verification/DigestFacts.thy ===== *)
theory DigestFacts
  imports Digests PlanDeletes
begin

text \<open>
  The files hashed before a plan are the files whose digest the plan asks for: every mirror deletion
  of a file is among the guards, what a short listing withholds is the rest of them, and promotion
  gives every upload a full fingerprint and changes nothing else.
\<close>

section \<open>Guards of deletions\<close>

lemma guard_candidate_withheld:
  "is_guard_candidate E local rules rs incomplete r \<Longrightarrow> is_guard_candidate E local rules rs [] r"
  by (auto simp: is_guard_candidate_def listing_withholds_def split: if_splits)

lemma not_guard_candidate_withheld:
  "is_guard_candidate E local rules rs [] r \<Longrightarrow> \<not> is_guard_candidate E local rules rs incomplete r \<Longrightarrow>
   listing_withholds (r_relative r) incomplete \<and> \<not> has_local_file_ancestor (r_relative r) local"
  by (auto simp: is_guard_candidate_def split: if_splits)

lemma in_guard_candidates:
  "k \<in> deletion_guard_candidates E local remote rules rs incomplete \<longleftrightarrow>
     (\<exists>r \<in> set (om_values (ri_entries remote)). r_relative r = k \<and>
        is_guard_candidate E local rules rs incomplete r)"
  by (auto simp: deletion_guard_candidates_def)

lemma listing_withholds_iff:
  "listing_withholds p incomplete \<longleftrightarrow>
     (\<exists>d \<in> set incomplete. fst (parent_name p) = d \<or> p = d \<or> beneath p d)"
  by (cases "rsplit_once slash p")
    (auto simp: listing_withholds_def parent_name_def list_ex_iff Let_def)

text \<open>What a listing of a tree gives: nothing lies beneath a file, and folders are entries.\<close>

definition files_are_leaves :: "remote_inventory \<Rightarrow> bool" where
  "files_are_leaves remote =
     list_all (\<lambda>r. r_kind r = File \<longrightarrow>
       list_all (\<lambda>k. \<not> beneath (r_relative r) k) (om_keys (ri_entries remote)))
       (om_values (ri_entries remote))"

definition remote_folder :: "remote_inventory \<Rightarrow> string \<Rightarrow> bool" where
  "remote_folder remote d =
     (case om_get (ri_entries remote) d of None \<Rightarrow> False | Some r \<Rightarrow> r_kind r = Directory)"

lemma remote_folder_key: "remote_folder remote d \<Longrightarrow> d \<in> set (om_keys (ri_entries remote))"
proof -
  assume "remote_folder remote d"
  then obtain r where "om_get (ri_entries remote) d = Some r"
    by (auto simp: remote_folder_def split: option.splits)
  then have "(d, r) \<in> set (ri_entries remote)"
    by (rule om_get_Some_in)
  then show ?thesis by (force simp: om_keys_def)
qed

lemma file_not_above:
  assumes "files_are_leaves remote" and "r \<in> set (om_values (ri_entries remote))"
    and "r_kind r = File" and "d \<in> set (om_keys (ri_entries remote))"
  shows "\<not> beneath (r_relative r) d"
  using assms unfolding files_are_leaves_def list_all_iff by blast

text \<open>
  A short listing splits the deletion guards in two, and loses none: each file that could be
  deleted is either hashed, or its deletion is withheld by name, and then it lies directly in a
  folder whose listing came back short.
\<close>

theorem guards_split:
  assumes "wf_remote remote" and "files_are_leaves remote"
    and "list_all (\<lambda>d. d = [] \<or> remote_folder remote d) incomplete"
  shows "select_deletion_guard_hashes_excluding E local remote rules incomplete
      \<union> deletions_withheld_by_listing E local remote rules incomplete
    = select_deletion_guard_hashes E local remote rules \<and>
    select_deletion_guard_hashes_excluding E local remote rules incomplete
      \<inter> deletions_withheld_by_listing E local remote rules incomplete = {} \<and>
    (\<forall>k \<in> deletions_withheld_by_listing E local remote rules incomplete.
       fst (parent_name k) \<in> set incomplete)"
proof -
  let ?rs = "resolve E local remote rules True []"
  let ?all = "deletion_guard_candidates E local remote rules ?rs []"
  let ?some = "deletion_guard_candidates E local remote rules ?rs incomplete"
  have sub: "?some \<subseteq> ?all"
    using guard_candidate_withheld by (fastforce simp: in_guard_candidates)
  have withheld: "deletions_withheld_by_listing E local remote rules incomplete = ?all - ?some"
    by (auto simp: deletions_withheld_by_listing_def Let_def)
  have "fst (parent_name k) \<in> set incomplete" if k: "k \<in> ?all - ?some" for k
  proof -
    obtain r where r: "r \<in> set (om_values (ri_entries remote))" "r_relative r = k"
      and guard: "is_guard_candidate E local rules ?rs [] r"
      using k by (auto simp: in_guard_candidates)
    with k have "\<not> is_guard_candidate E local rules ?rs incomplete r"
      by (auto simp: in_guard_candidates)
    then have "listing_withholds k incomplete"
      using not_guard_candidate_withheld [OF guard] r(2) by blast
    then obtain d where d: "d \<in> set incomplete" "fst (parent_name k) = d \<or> k = d \<or> beneath k d"
      by (auto simp: listing_withholds_iff)
    have is_file: "r_kind r = File"
      using guard by (simp add: is_guard_candidate_def split: if_splits)
    have get: "om_get (ri_entries remote) k = Some r"
      using wf_remote_values [OF assms(1)] r by blast
    have folder: "d = [] \<or> remote_folder remote d"
      using assms(3) d(1) by (simp add: list_all_iff)
    then have "\<not> beneath k d"
      using file_not_above [OF assms(2) r(1) is_file remote_folder_key] r(2)
      by (cases "d = []") (simp_all add: beneath_iff)
    moreover have "k = d \<Longrightarrow> d = []"
      using folder get is_file by (auto simp: remote_folder_def)
    moreover have "fst (parent_name k) = k" if "k = []"
      using that by (simp add: parent_name_def)
    ultimately show ?thesis
      using d by metis
  qed
  then show ?thesis
    using sub unfolding withheld select_deletion_guard_hashes_def
      select_deletion_guard_hashes_excluding_def by blast
qed

definition short_remote :: remote_inventory where
  "short_remote =
     \<lparr>ri_root_exists = True,
      ri_entries =
        [demo_remote ''s'' Directory 0 0 None, demo_remote ''s/f'' File 4 2 None,
         demo_remote ''t'' File 1 1 None]\<rparr>"

lemma short_remote_wf: "wf_remote short_remote"
proof -
  have "sorted_wrt (<) (map fst (ri_entries short_remote))"
    by code_simp
  then show ?thesis
    by (simp add: wf_remote_def om_wf_def short_remote_def demo_remote_def)
qed

theorem guards_split_witness:
  "''s/f'' \<in> select_deletion_guard_hashes plain_env mirror_local short_remote rules_none \<and>
   ''t'' \<in> select_deletion_guard_hashes_excluding plain_env mirror_local short_remote rules_none [''s''] \<and>
   select_deletion_guard_hashes_excluding plain_env mirror_local short_remote rules_none [''s'']
     \<union> deletions_withheld_by_listing plain_env mirror_local short_remote rules_none [''s'']
     = select_deletion_guard_hashes plain_env mirror_local short_remote rules_none"
proof (intro conjI)
  have leaves: "files_are_leaves short_remote"
    by code_simp
  have folders: "list_all (\<lambda>d. d = [] \<or> remote_folder short_remote d) [''s'']"
    by code_simp
  show "select_deletion_guard_hashes_excluding plain_env mirror_local short_remote rules_none [''s'']
     \<union> deletions_withheld_by_listing plain_env mirror_local short_remote rules_none [''s'']
     = select_deletion_guard_hashes plain_env mirror_local short_remote rules_none"
    using guards_split [OF short_remote_wf leaves folders] by blast
  show "''s/f'' \<in> select_deletion_guard_hashes plain_env mirror_local short_remote rules_none"
    by code_simp
  show "''t'' \<in> select_deletion_guard_hashes_excluding plain_env mirror_local short_remote rules_none [''s'']"
    by code_simp
qed

text \<open>
  The files hashed to guard deletions suffice: when the destination refuses no source path,
  every file a plan deletes as extra, unless it is empty, is one of them.
\<close>

theorem mirror_deletions_guarded:
  assumes "build_plan E root local remote rules options = Inr p" and "po_delete options"
    and "paths_the_destination_refuses E root local = []"
    and "d \<in> set (sp_post_deletes p)" and "da_kind d = File" and "sn_size (da_snapshot d) \<noteq> 0"
  shows "da_relative d \<in> select_deletion_guard_hashes E local remote rules"
proof -
  define rs where "rs = plan_resolution E root local remote rules options"
  have rs: "rs = resolve E local remote rules True []"
    using assms(2,3) by (simp add: rs_def plan_resolution_def)
  obtain r where cand: "r \<in> set (mirror_candidates E local remote rules options rs
      (set (map da_relative (sp_pre_deletes p))))" and del: "mirror_deletion E remote options rs r d"
    using post_delete_origin(1) [OF assms(1) rs_def assms(4)] by blast
  have target: "mirror_target E local remote rules options rs p r"
    using cand by (simp only: mirror_candidates_iff [OF assms(2)])
  have r: "r_relative r = da_relative d" "r_kind r = File" "r_size r \<noteq> 0"
    using del assms(5,6) by (simp_all add: mirror_deletion_def deletion_snapshot_Inr)
  have "is_guard_candidate E local rules rs [] r"
    using target r by (simp add: mirror_target_def is_guard_candidate_def listing_withholds_def)
  then show ?thesis
    using target r(1) unfolding select_deletion_guard_hashes_def
      select_deletion_guard_hashes_excluding_def rs [symmetric] in_guard_candidates mirror_target_def
    by blast
qed

theorem mirror_deletions_guarded_witness:
  "''old/gone'' \<in> select_deletion_guard_hashes plain_env mirror_local mirror_remote rules_none"
proof -
  have del: "po_delete (demo_options True Metadata)"
    by (simp add: demo_options_def)
  have refused: "paths_the_destination_refuses plain_env demo_root mirror_local = []"
    by code_simp
  have e: "map_r (\<lambda>p. map (\<lambda>d. (da_relative d, da_kind d, sn_size (da_snapshot d))) (sp_post_deletes p))
      mirror_plan = Inr [(''old/gone'', File, 4), (''old'', Directory, 0)]"
    by code_simp
  have "(''old/gone'', File, 4) \<in> set (map (\<lambda>d. (da_relative d, da_kind d, sn_size (da_snapshot d)))
      (sp_post_deletes mirror_result))"
    unfolding map_r_result(2) [OF e, folded mirror_result_def] by simp
  then obtain d where "d \<in> set (sp_post_deletes mirror_result)" "da_relative d = ''old/gone''"
    "da_kind d = File" "sn_size (da_snapshot d) = 4"
    by auto
  then show ?thesis
    using mirror_deletions_guarded [OF mirror_run(1) del refused, of d] by simp
qed

section \<open>Promotion\<close>

definition promoted ::
  "(local_entry \<Rightarrow> fingerprint res) \<Rightarrow> (local_entry \<Rightarrow> bool) \<Rightarrow> upload_action \<Rightarrow> upload_action \<Rightarrow> bool"
where
  "promoted hash_file cancelled u v =
     (\<not> cancelled (ua_local u) \<and>
      (\<exists>entry. promote_to_full_fingerprint hash_file (ua_local u) = Inr entry \<and> v = u\<lparr>ua_local := entry\<rparr>))"

lemma promote_fold:
  "fold_r (promote_step hash_file cancelled) acc us = Inr vs \<longleftrightarrow>
     (\<exists>ws. vs = acc @ ws \<and> list_all2 (promoted hash_file cancelled) us ws)"
proof (induction us arbitrary: acc)
  case Nil
  then show ?case by auto
next
  case (Cons u us)
  have "fold_r (promote_step hash_file cancelled) acc (u # us) = Inr vs \<longleftrightarrow>
      (\<exists>v. promoted hash_file cancelled u v \<and>
        fold_r (promote_step hash_file cancelled) (acc @ [v]) us = Inr vs)"
    by (auto simp: promote_step_def promoted_def)
  also have "\<dots> \<longleftrightarrow> (\<exists>v ws. promoted hash_file cancelled u v \<and> vs = acc @ v # ws \<and>
      list_all2 (promoted hash_file cancelled) us ws)"
    by (auto simp: Cons)
  also have "\<dots> \<longleftrightarrow> (\<exists>ws. vs = acc @ ws \<and> list_all2 (promoted hash_file cancelled) (u # us) ws)"
    by (auto simp: list_all2_Cons1)
  finally show ?case .
qed

lemma promote_to_full_fields:
  assumes "promote_to_full_fingerprint hash_file e = Inr e'"
  shows "e'\<lparr>l_md5 := None\<rparr> = e\<lparr>l_md5 := None\<rparr>"
    and "\<forall>fp. hash_file e = Inr fp \<longrightarrow> has_full_proof fp \<Longrightarrow> \<exists>fp. l_md5 e' = Some fp \<and> has_full_proof fp"
    and "l_md5 e = Some fp \<Longrightarrow> has_full_proof fp \<Longrightarrow> e' = e"
  using assms
  by (auto simp: promote_to_full_fingerprint_def split: option.splits if_splits)

text \<open>
  A promotion that succeeds leaves the plan as it is but for the fingerprints of its uploads:
  the same uploads in the same order, every one with a full fingerprint, and those that had one
  untouched. It succeeds only when the run was not cancelled before any of its uploads.
\<close>

theorem promotion_strengthens:
  assumes "promote_upload_fingerprints hash_file cancelled plan = Inr plan'"
    and "\<forall>e fp. hash_file e = Inr fp \<longrightarrow> has_full_proof fp"
  shows "plan'\<lparr>sp_uploads := []\<rparr> = plan\<lparr>sp_uploads := []\<rparr> \<and>
    list_all2 (\<lambda>u v.
      \<not> cancelled (ua_local u) \<and>
      v\<lparr>ua_local := (ua_local v)\<lparr>l_md5 := None\<rparr>\<rparr> = u\<lparr>ua_local := (ua_local u)\<lparr>l_md5 := None\<rparr>\<rparr> \<and>
      (\<exists>fp. l_md5 (ua_local v) = Some fp \<and> has_full_proof fp) \<and>
      ((\<exists>fp. l_md5 (ua_local u) = Some fp \<and> has_full_proof fp) \<longrightarrow> v = u))
      (sp_uploads plan) (sp_uploads plan')"
proof -
  obtain us where fold: "fold_r (promote_step hash_file cancelled) [] (sp_uploads plan) = Inr us"
    and plan': "plan' = plan\<lparr>sp_uploads := us\<rparr>"
    using assms(1) by (auto simp: promote_upload_fingerprints_def)
  have all2: "list_all2 (promoted hash_file cancelled) (sp_uploads plan) us"
    using fold by (simp add: promote_fold)
  have step: "\<not> cancelled (ua_local u) \<and>
      v\<lparr>ua_local := (ua_local v)\<lparr>l_md5 := None\<rparr>\<rparr> = u\<lparr>ua_local := (ua_local u)\<lparr>l_md5 := None\<rparr>\<rparr> \<and>
      (\<exists>fp. l_md5 (ua_local v) = Some fp \<and> has_full_proof fp) \<and>
      ((\<exists>fp. l_md5 (ua_local u) = Some fp \<and> has_full_proof fp) \<longrightarrow> v = u)"
    if uv: "promoted hash_file cancelled u v" for u v
  proof -
    obtain e where c: "\<not> cancelled (ua_local u)"
      and e: "promote_to_full_fingerprint hash_file (ua_local u) = Inr e" and v: "v = u\<lparr>ua_local := e\<rparr>"
      using uv unfolding promoted_def by blast
    have "e\<lparr>l_md5 := None\<rparr> = (ua_local u)\<lparr>l_md5 := None\<rparr>"
      by (rule promote_to_full_fields(1) [OF e])
    moreover have "\<exists>fp. l_md5 e = Some fp \<and> has_full_proof fp"
      by (rule promote_to_full_fields(2) [OF e]) (use assms(2) in blast)
    moreover have "(\<exists>fp. l_md5 (ua_local u) = Some fp \<and> has_full_proof fp) \<longrightarrow> e = ua_local u"
      using promote_to_full_fields(3) [OF e] by blast
    ultimately show ?thesis
      using c by (simp add: v)
  qed
  show ?thesis
    using list_all2_mono [OF all2 step] by (simp add: plan')
qed

definition weak_plan :: sync_plan where
  "weak_plan = (initial_plan mirror_local rules_none (demo_options False Content) [])
     \<lparr>sp_uploads := [\<lparr>ua_local = snd (demo_local ''f'' File 4 1000 None), ua_remote_path = ''/s/d/f'',
        ua_reason = MissingRemote, ua_expected = None\<rparr>]\<rparr>"

theorem promotion_strengthens_witness:
  "\<exists>plan'. promote_upload_fingerprints (\<lambda>_. Inr (demo_digest 3)) (\<lambda>_. False) weak_plan = Inr plan' \<and>
     (\<exists>u \<in> set (sp_uploads plan'). \<exists>fp. l_md5 (ua_local u) = Some fp \<and> has_full_proof fp)"
proof -
  let ?h = "\<lambda>_ :: local_entry. Inr (demo_digest 3) :: fingerprint res"
  have proof_of: "\<forall>e fp. ?h e = Inr fp \<longrightarrow> has_full_proof fp"
    by (simp add: demo_digest_def has_full_proof_def)
  have "map_r (\<lambda>p. length (sp_uploads p)) (promote_upload_fingerprints ?h (\<lambda>_. False) weak_plan) = Inr 1"
    by (simp add: promote_upload_fingerprints_def weak_plan_def promote_step_def
        promote_to_full_fingerprint_def demo_local_def)
  then obtain plan' where run: "promote_upload_fingerprints ?h (\<lambda>_. False) weak_plan = Inr plan'"
    and len: "length (sp_uploads plan') = 1"
    by auto
  have "list_all2 (\<lambda>u v. \<exists>fp. l_md5 (ua_local v) = Some fp \<and> has_full_proof fp)
      (sp_uploads weak_plan) (sp_uploads plan')"
    using conjunct2 [OF promotion_strengthens [OF run proof_of]] by (rule list_all2_mono) blast
  then obtain u where "u \<in> set (sp_uploads plan')" "\<exists>fp. l_md5 (ua_local u) = Some fp \<and> has_full_proof fp"
    using len by (cases "sp_uploads plan'") (auto simp: list_all2_Cons2)
  then show ?thesis
    using run by blast
qed

end
