(* ===== verification/Numbers.thy ===== *)
theory Numbers
  imports Fingerprint
begin

text \<open>
  Decimal numbers in text: what \<open>to_string\<close> writes and what \<open>str::parse\<close> reads.
\<close>

definition read_digits :: "string \<Rightarrow> nat" where
  "read_digits s = foldl (\<lambda>n c. 10 * n + (byte c - 48)) 0 s"

lemma byte_digit: "d < 10 \<Longrightarrow> byte (digit_char d) = 48 + d"
  by (simp add: digit_char_def)

lemma read_show_nat: "read_digits (show_nat n) = n"
proof (induction n rule: show_nat.induct)
  case (1 n)
  show ?case
  proof (cases "n < 10")
    case True
    then show ?thesis
      by (subst show_nat.simps) (simp add: read_digits_def byte_digit)
  next
    case False
    then have "read_digits (show_nat (n div 10)) = n div 10"
      by (rule 1)
    then show ?thesis
      using False by (subst show_nat.simps) (simp add: read_digits_def byte_digit)
  qed
qed

lemma show_nat_bytes: "c \<in> set (show_nat n) \<Longrightarrow> 48 \<le> byte c \<and> byte c < 58"
proof (induction n rule: show_nat.induct)
  case (1 n)
  show ?case
  proof (cases "n < 10")
    case True
    then have "c = digit_char n"
      using 1(2) by (subst (asm) show_nat.simps) simp
    with True show ?thesis by (simp add: byte_digit)
  next
    case False
    then have "c \<in> set (show_nat (n div 10)) \<or> c = digit_char (n mod 10)"
      using 1(2) by (subst (asm) show_nat.simps) auto
    then show ?thesis
      using 1(1) [OF False] by (auto simp: byte_digit)
  qed
qed

lemma show_nat_nonempty: "show_nat n \<noteq> []"
  by (subst show_nat.simps) simp

definition is_digit :: "char \<Rightarrow> bool" where
  "is_digit c = (48 \<le> byte c \<and> byte c < 58)"

text \<open>\<open>str::parse::<u64>\<close>: an optional plus sign, digits, and no overflow.\<close>

definition parse_unsigned :: "nat \<Rightarrow> string \<Rightarrow> nat option" where
  "parse_unsigned limit text =
     (let digits = (case text of [] \<Rightarrow> [] | c # rest \<Rightarrow> if c = CHR ''+'' then rest else text) in
      if digits = [] \<or> \<not> list_all is_digit digits \<or> limit \<le> read_digits digits then None
      else Some (read_digits digits))"

definition parse_u64 :: "string \<Rightarrow> nat option" where
  "parse_u64 = parse_unsigned (2 ^ 64)"

lemma show_nat_digits: "list_all is_digit (show_nat n)"
  using show_nat_bytes by (auto simp: list_all_iff is_digit_def)

lemma show_nat_no_plus: "hd (show_nat n) \<noteq> CHR ''+''"
  using show_nat_bytes [of "hd (show_nat n)" n] show_nat_nonempty [of n] by (auto simp: byte_def)

lemma parse_show_nat: "n < limit \<Longrightarrow> parse_unsigned limit (show_nat n) = Some n"
  using show_nat_no_plus [of n] show_nat_digits [of n] read_show_nat [of n]
  by (cases "show_nat n") (auto simp: parse_unsigned_def show_nat_nonempty)

section \<open>Sizes\<close>

text \<open>\<open>usize\<close> is a natural number up to its maximum; \<open>checked_add\<close> fails past it.\<close>

definition usize_max :: nat where
  "usize_max = 2 ^ 64 - 1"

definition checked_add :: "nat \<Rightarrow> nat \<Rightarrow> nat option" where
  "checked_add a b = (if a + b \<le> usize_max then Some (a + b) else None)"

end
