(* ===== verification/Ticket.thy ===== *)
theory Ticket
  imports StatusFacts Numbers
begin

text \<open>
  What is hashed into a resync ticket determines what a forced re-upload writes and where; and the
  round trips of paths beneath a destination and of digests in hexadecimal.
\<close>

section \<open>Text in fields\<close>

text \<open>A field that does not hold its terminator can be read back.\<close>

lemma field_inj:
  "a @ d # x = b @ d # y \<Longrightarrow> d \<notin> set a \<Longrightarrow> d \<notin> set b \<Longrightarrow> a = b \<and> x = y"
proof (induction a arbitrary: b)
  case Nil
  then show ?case by (cases b) auto
next
  case (Cons c a)
  then show ?case by (cases b) auto
qed

lemma show_u64_inj: "show_u64 a = show_u64 b \<Longrightarrow> a = b"
  unfolding show_u64_def by (metis read_show_nat word_unat_eq_iff)

lemma byte_nul: "byte nul = 0" and byte_newline: "byte newline = 10"
  by (simp_all add: byte_def nul_def newline_def)

lemma show_u64_clean: "nul \<notin> set (show_u64 n)" "newline \<notin> set (show_u64 n)"
  unfolding show_u64_def
  using show_nat_bytes [of nul] show_nat_bytes [of newline] by (auto simp: byte_nul byte_newline)

section \<open>The ticket\<close>

text \<open>What a ticket records of an upload.\<close>

definition ticket_record :: "upload_action \<Rightarrow> string \<times> u64 \<times> u8 list option" where
  "ticket_record u =
     (l_relative (ua_local u), l_size (ua_local u), Option.bind (l_md5 (ua_local u)) fp_sha256)"

lemma ticket_digest_eq:
  "ticket_digest u =
     (case Option.bind (l_md5 (ua_local u)) fp_sha256 of None \<Rightarrow> ''none'' | Some h \<Rightarrow> hex_encode h)"
  by (auto simp: ticket_digest_def sha256_hex_def split: option.splits)

lemma hex_encode_newline: "newline \<notin> set (hex_encode h)"
  using hex_encode_chars [of h] by (auto simp: list_all_iff is_hex_char_def byte_newline)

lemma hex_encode_none: "hex_encode h \<noteq> ''none''"
proof
  assume "hex_encode h = ''none''"
  then have "list_all is_hex_char ''none''"
    using hex_encode_chars [of h] by simp
  then show False
    by (simp add: is_hex_char_def byte_def)
qed

lemma ticket_digest_clean: "newline \<notin> set (ticket_digest u)"
proof (cases "Option.bind (l_md5 (ua_local u)) fp_sha256")
  case None
  then show ?thesis by (simp add: ticket_digest_eq newline_def)
next
  case (Some h)
  then show ?thesis by (simp add: ticket_digest_eq hex_encode_newline)
qed

lemma ticket_digest_inj:
  "ticket_digest u = ticket_digest v \<Longrightarrow>
   Option.bind (l_md5 (ua_local u)) fp_sha256 = Option.bind (l_md5 (ua_local v)) fp_sha256"
  using hex_encode_none [THEN not_sym]
  by (auto simp: ticket_digest_eq hex_encode_none split: option.splits dest: hex_encode_inj)

definition clean_upload :: "upload_action \<Rightarrow> bool" where
  "clean_upload u = (nul \<notin> set (l_relative (ua_local u)))"

lemma ticket_line_inj:
  assumes "ticket_line u @ x = ticket_line v @ y" and "clean_upload u" and "clean_upload v"
  shows "ticket_record u = ticket_record v \<and> x = y"
proof -
  have eq: "l_relative (ua_local u) @ nul # (show_u64 (l_size (ua_local u))
        @ nul # (ticket_digest u @ newline # x)) =
      l_relative (ua_local v) @ nul # (show_u64 (l_size (ua_local v))
        @ nul # (ticket_digest v @ newline # y))"
    using assms(1) by (simp add: ticket_line_def)
  note 1 = field_inj [OF eq assms(2,3) [unfolded clean_upload_def]]
  note 2 = field_inj [OF conjunct2 [OF 1] show_u64_clean(1) show_u64_clean(1)]
  note 3 = field_inj [OF conjunct2 [OF 2] ticket_digest_clean ticket_digest_clean]
  show ?thesis
    using conjunct1 [OF 1] show_u64_inj [OF conjunct1 [OF 2]] ticket_digest_inj [OF conjunct1 [OF 3]]
      conjunct2 [OF 3] by (simp add: ticket_record_def)
qed

lemma ticket_lines_inj:
  "concat (map ticket_line us) = concat (map ticket_line vs) \<Longrightarrow>
   list_all clean_upload us \<Longrightarrow> list_all clean_upload vs \<Longrightarrow>
   map ticket_record us = map ticket_record vs"
proof (induction us arbitrary: vs)
  case Nil
  then show ?case by (cases vs) (auto simp: ticket_line_def)
next
  case (Cons u us)
  then obtain v ws where vs: "vs = v # ws"
    by (cases vs) (auto simp: ticket_line_def)
  have eq: "ticket_line u @ concat (map ticket_line us) = ticket_line v @ concat (map ticket_line ws)"
    using Cons.prems(1) by (simp add: vs)
  have "clean_upload u" "clean_upload v"
    using Cons.prems(2,3) by (simp_all add: vs)
  note line = ticket_line_inj [OF eq this]
  then show ?case
    using line Cons.IH [of ws] Cons.prems(2,3) by (simp add: vs)
qed

lemma compare_str_inj: "compare_str a = compare_str b \<Longrightarrow> a = b"
  by (cases a; cases b; simp)

lemma compare_str_clean: "newline \<notin> set (compare_str c)"
  by (cases c) (simp_all add: newline_def)

definition clean_target :: "resync_target \<Rightarrow> scope \<Rightarrow> bool" where
  "clean_target target s =
     (newline \<notin> set (rt_endpoint target) \<and> newline \<notin> set (rt_remote_root target) \<and>
      newline \<notin> set (scope_str s))"

text \<open>
  C22. Two resyncs with the same text to hash are the same resync: the same endpoint, destination,
  scope, comparison and byte total, and the same paths in the same order with the same sizes and
  the same SHA-256. So a ticket confirms another plan only on a collision of the truncated hash.
  The text of the fields holds no line break, and the paths no zero byte.
\<close>

theorem ticket_identifies_resync:
  assumes "ticket_canonical t s c p = ticket_canonical t' s' c' p'"
    and "clean_target t s" and "clean_target t' s'"
    and "list_all clean_upload (sp_uploads p)" and "list_all clean_upload (sp_uploads p')"
  shows "t = t' \<and> s = s' \<and> c = c' \<and> sp_upload_bytes p = sp_upload_bytes p' \<and>
    map ticket_record (sp_uploads p) = map ticket_record (sp_uploads p')"
proof -
  let ?ls = "concat (map ticket_line (sp_uploads p))"
  let ?ls' = "concat (map ticket_line (sp_uploads p'))"
  have eq: "rt_endpoint t @ newline # (rt_remote_root t @ newline # (scope_str s @ newline #
        (compare_str c @ newline # (show_u64 (sp_upload_bytes p) @ newline # ?ls)))) =
      rt_endpoint t' @ newline # (rt_remote_root t' @ newline # (scope_str s' @ newline #
        (compare_str c' @ newline # (show_u64 (sp_upload_bytes p') @ newline # ?ls'))))"
    using assms(1) by (simp add: ticket_canonical_def)
  note clean = assms(2,3) [unfolded clean_target_def]
  note 1 = field_inj [OF eq conjunct1 [OF clean(1)] conjunct1 [OF clean(2)]]
  note 2 = field_inj [OF conjunct2 [OF 1] conjunct1 [OF conjunct2 [OF clean(1)]]
    conjunct1 [OF conjunct2 [OF clean(2)]]]
  note 3 = field_inj [OF conjunct2 [OF 2] conjunct2 [OF conjunct2 [OF clean(1)]]
    conjunct2 [OF conjunct2 [OF clean(2)]]]
  note 4 = field_inj [OF conjunct2 [OF 3] compare_str_clean compare_str_clean]
  note 5 = field_inj [OF conjunct2 [OF 4] show_u64_clean(2) show_u64_clean(2)]
  have "t = t'"
    using conjunct1 [OF 1] conjunct1 [OF 2] by (intro resync_target.equality) simp_all
  moreover have "s = s'"
    using conjunct1 [OF 3] by (intro scope.expand)
  ultimately show ?thesis
    using compare_str_inj [OF conjunct1 [OF 4]] show_u64_inj [OF conjunct1 [OF 5]]
      ticket_lines_inj [OF conjunct2 [OF 5] assms(4,5)] by simp
qed

theorem ticket_identifies_resync_witness:
  "\<exists>t. \<forall>c c'. ticket_canonical t scope_root c mirror_result = ticket_canonical t scope_root c' mirror_result
     \<longrightarrow> c = c'"
proof -
  let ?t = "\<lparr>rt_remote_root = ''/s/d'', rt_endpoint = ''https://nas''\<rparr>"
  have t: "clean_target ?t scope_root"
    by (simp add: clean_target_def scope_root_def newline_def)
  have "list_all (\<lambda>r. nul \<notin> set r) (map (l_relative \<circ> ua_local) (sp_uploads mirror_result))"
    unfolding mirror_run(4) by (simp add: nul_def)
  then have u: "list_all clean_upload (sp_uploads mirror_result)"
    by (simp add: list.pred_map clean_upload_def comp_def list_all_iff)
  show ?thesis
    using ticket_identifies_resync [OF _ t t u u] by blast
qed

section \<open>Round trips\<close>

text \<open>
  A path joined to a destination root is read back from the remote path, and a remote path
  beneath the root that reads back as a path is what that path joins to, unless it is too long or a
  name is refused;
  so the two sides name the same tree.
\<close>

theorem root_join_relative_roundtrip:
  "(root_join r rel = Inr p \<longrightarrow> root_relative r p = Inr rel) \<and>
   (root_relative r p = Inr rel \<and> rel \<noteq> [] \<and> drive_path_issue (tl p) = None \<longrightarrow> root_join r rel = Inr p)"
  by (auto simp: root_relative_join root_relative_Inr_iff root_join_Inr_iff validate_relative_def)

theorem root_join_relative_roundtrip_witness:
  "root_relative demo_root ''/s/d/a/new'' = Inr ''a/new''"
proof -
  have "root_join demo_root ''a/new'' = Inr ''/s/d/a/new''"
    by code_simp
  with root_join_relative_roundtrip [of demo_root "''a/new''" "''/s/d/a/new''"] show ?thesis by blast
qed

text \<open>
  An MD5 written out and read back is the fingerprint of that MD5 alone, and reading never
  makes a proof: a digest from text carries no CRC32 and no SHA-256.
\<close>

theorem digest_text_roundtrip:
  assumes "fp_wf f"
  shows "parse_hex (fp_display f) = Inr (from_bytes (fp_md5 f)) \<and>
    \<not> has_full_proof (from_bytes (fp_md5 f)) \<and> compare_content f (from_bytes (fp_md5 f)) = Md5Only"
  using parse_display [OF assms]
  by (auto simp: from_bytes_def has_full_proof_def compare_content_def split: option.splits)

theorem digest_text_roundtrip_witness:
  "parse_hex (fp_display (Fingerprint (replicate 16 171) None)) = Inr (from_bytes (replicate 16 171))"
proof -
  have "fp_wf (Fingerprint (replicate 16 171) None)"
    by (simp add: fp_wf_def)
  from conjunct1 [OF digest_text_roundtrip [OF this]] show ?thesis by simp
qed

end
