(* ===== verification/Deferrals.thy ===== *)
theory Deferrals
  imports OrdMap Deferral Paths
begin

text \<open>
  \<open>DeferralIndex\<close> of \<open>src/sync.rs\<close>: the paths a run has left for the next one, indexed by their
  bytes and by the fold two clashing spellings share, and the questions execution asks of it.
\<close>

section \<open>The index\<close>

record deferred_path =
  dp_relative :: string
  dp_reason :: defer_reason
  dp_detail :: string

record deferral_index =
  ix_exact :: "defer_reason omap"
  ix_folded :: "(string \<times> defer_reason) omap"

definition ix_empty :: deferral_index where
  "ix_empty = \<lparr>ix_exact = [], ix_folded = []\<rparr>"

text \<open>Whether the path is new, and the index with it; the first reason of a path stays.\<close>

definition ix_insert ::
  "text_env \<Rightarrow> string \<Rightarrow> defer_reason \<Rightarrow> deferral_index \<Rightarrow> bool \<times> deferral_index"
where
  "ix_insert E relative reason ix =
     (if om_has (ix_exact ix) relative then (False, ix)
      else
        (True,
         \<lparr>ix_exact = om_insert relative reason (ix_exact ix),
          ix_folded =
            (let fld = portable_fold E relative in
             if om_has (ix_folded ix) fld then ix_folded ix
             else om_insert fld (relative, reason) (ix_folded ix))\<rparr>))"

definition ix_from_records :: "text_env \<Rightarrow> deferred_path list \<Rightarrow> deferral_index" where
  "ix_from_records E records =
     fold (\<lambda>r ix. snd (ix_insert E (dp_relative r) (dp_reason r) ix)) records ix_empty"

definition ix_is_empty :: "deferral_index \<Rightarrow> bool" where
  "ix_is_empty ix = (ix_exact ix = [])"

text \<open>The first of some keys that a map has: the loops that climb a path with \<open>rfind('/')\<close>.\<close>

fun first_hit :: "'v omap \<Rightarrow> string list \<Rightarrow> 'v option" where
  "first_hit m [] = None"
| "first_hit m (k # ks) = (case om_get m k of Some v \<Rightarrow> Some v | None \<Rightarrow> first_hit m ks)"

definition spelling_related ::
  "text_env \<Rightarrow> deferral_index \<Rightarrow> string \<Rightarrow> (string \<times> defer_reason) option"
where
  "spelling_related E ix relative =
     (let fld = portable_fold E relative in
      case first_hit (ix_folded ix) (fld # ancestors fld) of
        Some hit \<Rightarrow> Some hit
      | None \<Rightarrow>
          let pre = fld @ [slash] in
          (case dropWhile (\<lambda>kv. fst kv < pre) (ix_folded ix) of
             [] \<Rightarrow> None
           | kv # _ \<Rightarrow> if fld = [] \<or> prefix pre (fst kv) then Some (snd kv) else None))"

definition covering :: "deferral_index \<Rightarrow> string \<Rightarrow> defer_reason option" where
  "covering ix relative = first_hit (ix_exact ix) (relative # ancestors relative)"

definition has_descendant :: "deferral_index \<Rightarrow> string \<Rightarrow> bool" where
  "has_descendant ix relative =
     (if relative = [] then ix_exact ix \<noteq> []
      else om_first_prefixed (relative @ [slash]) (ix_exact ix) \<noteq> None)"

definition relates_to :: "deferral_index \<Rightarrow> string \<Rightarrow> bool" where
  "relates_to ix relative = (covering ix relative \<noteq> None \<or> has_descendant ix relative)"

section \<open>What the index answers\<close>

definition deferred_paths :: "deferral_index \<Rightarrow> string set" where
  "deferred_paths ix = set (om_keys (ix_exact ix))"

definition ix_wf :: "text_env \<Rightarrow> deferral_index \<Rightarrow> bool" where
  "ix_wf E ix =
     (om_wf (ix_exact ix) \<and> om_wf (ix_folded ix) \<and>
      set (om_keys (ix_folded ix)) = portable_fold E ` deferred_paths ix \<and>
      (\<forall>(f, p, r) \<in> set (ix_folded ix). om_get (ix_exact ix) p = Some r \<and> f = portable_fold E p))"

lemma om_has_key: "om_has m k \<longleftrightarrow> k \<in> set (om_keys m)"
  by (force simp: om_has_def om_get_def om_keys_def map_of_eq_None_iff)

lemma om_get_key: "om_get m k \<noteq> None \<longleftrightarrow> k \<in> set (om_keys m)"
  by (force simp: om_get_def om_keys_def map_of_eq_None_iff)

lemma om_keys_insert [simp]: "set (om_keys (om_insert k v m)) = insert k (set (om_keys m))"
  using set_keys_om_insert [of k v m] by (simp add: om_keys_def)

lemma om_get_None_key: "om_get m k = None \<longleftrightarrow> k \<notin> set (om_keys m)"
  using om_get_key [of m k] by blast

lemma om_first_prefixed_None_keys:
  "om_wf m \<Longrightarrow> om_first_prefixed p m = None \<longleftrightarrow> (\<forall>k \<in> set (om_keys m). \<not> prefix p k)"
  by (auto simp: om_first_prefixed_None_iff om_keys_def)

lemma ix_empty_wf [simp]: "ix_wf E ix_empty"
  by (simp add: ix_wf_def ix_empty_def deferred_paths_def om_keys_def)

lemma deferred_empty [simp]: "deferred_paths ix_empty = {}"
  by (simp add: deferred_paths_def ix_empty_def om_keys_def)

lemma ix_insert_deferred: "deferred_paths (snd (ix_insert E p r ix)) = insert p (deferred_paths ix)"
  by (auto simp: ix_insert_def deferred_paths_def om_has_key)

lemma set_om_insert_fresh:
  fixes m :: "'v omap"
  shows "om_wf m \<Longrightarrow> \<not> om_has m k \<Longrightarrow> set (om_insert k v m) = insert (k, v) (set m)"
proof -
  assume wf: "om_wf m" and new: "\<not> om_has m k"
  have "(j, w) \<in> set (om_insert k v m) \<longleftrightarrow> (j, w) \<in> insert (k, v) (set m)" for j w
    using om_get_insert [OF wf, of k v j] new om.in_items_iff [OF om_wf_insert [OF wf], of j w k v]
      om.in_items_iff [OF wf, of j w]
    by (auto simp: om_has_def)
  then show ?thesis by auto
qed

lemma ix_insert_wf: "ix_wf E ix \<Longrightarrow> ix_wf E (snd (ix_insert E p r ix))"
proof -
  assume wf: "ix_wf E ix"
  then have e: "om_wf (ix_exact ix)" and f: "om_wf (ix_folded ix)"
    and keys: "set (om_keys (ix_folded ix)) = portable_fold E ` deferred_paths ix"
    and entries: "\<forall>(f, p, r) \<in> set (ix_folded ix). om_get (ix_exact ix) p = Some r \<and> f = portable_fold E p"
    by (simp_all add: ix_wf_def)
  show ?thesis
  proof (cases "om_has (ix_exact ix) p")
    case True
    with wf show ?thesis by (simp add: ix_insert_def)
  next
    case False
    then have new: "om_get (ix_exact ix) p = None"
      by (simp add: om_has_def)
    have kept: "\<forall>(f, q, s) \<in> set (ix_folded ix).
        om_get (om_insert p r (ix_exact ix)) q = Some s \<and> f = portable_fold E q"
      using entries new by (fastforce simp: om_get_insert [OF e])
    show ?thesis
    proof (cases "om_has (ix_folded ix) (portable_fold E p)")
      case True
      then have "portable_fold E p \<in> portable_fold E ` deferred_paths ix"
        using keys om_has_key by metis
      with True False kept e f keys show ?thesis
        by (simp add: ix_insert_def ix_wf_def Let_def om_wf_insert deferred_paths_def insert_absorb)
    next
      case no: False
      with False kept e f keys show ?thesis
        by (simp add: ix_insert_def ix_wf_def Let_def om_wf_insert deferred_paths_def set_om_insert_fresh
            om_get_insert)
    qed
  qed
qed

lemma first_hit_None: "first_hit m ks = None \<longleftrightarrow> (\<forall>k \<in> set ks. k \<notin> set (om_keys m))"
proof (induction ks)
  case Nil
  then show ?case by simp
next
  case (Cons k ks)
  then show ?case
    using om_get_None_key [of m k] by (cases "om_get m k") auto
qed

lemma first_hit_Some: "first_hit m ks = Some v \<Longrightarrow> \<exists>k \<in> set ks. om_get m k = Some v"
  by (induction ks) (auto split: option.splits)

lemma covering_iff:
  "covering ix p \<noteq> None \<longleftrightarrow> (\<exists>d \<in> deferred_paths ix. at_or_beneath d p)"
  using first_hit_None [of "ix_exact ix" "p # ancestors p"]
  by (auto simp: covering_def deferred_paths_def at_or_beneath_def in_ancestors_iff)

lemma has_descendant_iff:
  assumes "om_wf (ix_exact ix)" and "p \<noteq> []"
  shows "has_descendant ix p \<longleftrightarrow> (\<exists>d \<in> deferred_paths ix. beneath p d)"
  using om_first_prefixed_None_keys [OF assms(1), of "p @ [slash]"] assms(2)
  by (auto simp: has_descendant_def deferred_paths_def beneath_prefix)

text \<open>A path is spelling-related to a deferred one when their folds are the same or nested.\<close>

definition folds_related :: "text_env \<Rightarrow> string \<Rightarrow> string \<Rightarrow> bool" where
  "folds_related E p d =
     (let f = portable_fold E p; g = portable_fold E d in g = f \<or> beneath g f \<or> beneath f g)"

lemma spelling_related_form:
  assumes "ix_wf E ix" and "portable_fold E p \<noteq> []"
  shows "spelling_related E ix p =
    (case first_hit (ix_folded ix) (portable_fold E p # ancestors (portable_fold E p)) of
       Some hit \<Rightarrow> Some hit
     | None \<Rightarrow> map_option snd (om_first_prefixed (portable_fold E p @ [slash]) (ix_folded ix)))"
  using assms(2)
  by (auto simp: spelling_related_def Let_def om_first_prefixed_def simp del: dropWhile_eq_Nil_conv
      first_hit.simps split: option.split list.split)

lemma folded_deferred:
  "ix_wf E ix \<Longrightarrow> om_get (ix_folded ix) f = Some (d, r) \<Longrightarrow> d \<in> deferred_paths ix \<and> f = portable_fold E d"
proof -
  assume wf: "ix_wf E ix" and "om_get (ix_folded ix) f = Some (d, r)"
  then have "(f, d, r) \<in> set (ix_folded ix)"
    by (intro om_get_Some_in)
  then have "om_get (ix_exact ix) d = Some r" "f = portable_fold E d"
    using wf by (auto simp: ix_wf_def)
  then show ?thesis
    using om_get_key [of "ix_exact ix" d] by (simp add: deferred_paths_def)
qed

lemma spelling_related_iff:
  assumes wf: "ix_wf E ix" and ne: "portable_fold E p \<noteq> []"
  shows "spelling_related E ix p \<noteq> None \<longleftrightarrow> (\<exists>d \<in> deferred_paths ix. folds_related E p d)"
proof -
  let ?f = "portable_fold E p"
  define D where "D = portable_fold E ` deferred_paths ix"
  have keys: "set (om_keys (ix_folded ix)) = D"
    and fwf: "om_wf (ix_folded ix)"
    using wf by (simp_all add: ix_wf_def D_def)
  have "spelling_related E ix p = None \<longleftrightarrow>
      first_hit (ix_folded ix) (?f # ancestors ?f) = None \<and>
      om_first_prefixed (?f @ [slash]) (ix_folded ix) = None"
    unfolding spelling_related_form [OF wf ne] by (simp split: option.splits)
  also have "\<dots> \<longleftrightarrow> (\<forall>g \<in> D. \<not> (g = ?f \<or> beneath g ?f) \<and> \<not> beneath ?f g)"
    unfolding first_hit_None om_first_prefixed_None_keys [OF fwf] keys
    by (auto simp: in_ancestors_iff beneath_prefix)
  finally have none: "spelling_related E ix p = None \<longleftrightarrow>
      (\<forall>g \<in> D. \<not> (g = ?f \<or> beneath g ?f) \<and> \<not> beneath ?f g)" .
  have "(\<exists>d \<in> deferred_paths ix. folds_related E p d) \<longleftrightarrow> (\<exists>g \<in> D. g = ?f \<or> beneath g ?f \<or> beneath ?f g)"
    unfolding D_def folds_related_def Let_def by simp
  then show ?thesis
    by (subst none) blast
qed

lemma spelling_related_deferred:
  assumes wf: "ix_wf E ix" and ne: "portable_fold E p \<noteq> []"
    and "spelling_related E ix p = Some (d, r)"
  shows "d \<in> deferred_paths ix"
proof (cases "first_hit (ix_folded ix) (portable_fold E p # ancestors (portable_fold E p))")
  case (Some hit)
  then have "hit = (d, r)"
    using assms(3) by (simp add: spelling_related_form [OF wf ne])
  then show ?thesis
    using first_hit_Some [OF Some] folded_deferred [OF wf] by blast
next
  case None
  then obtain k where "om_first_prefixed (portable_fold E p @ [slash]) (ix_folded ix) = Some (k, d, r)"
    using assms(3) by (auto simp: spelling_related_form [OF wf ne])
  then have "(k, d, r) \<in> set (ix_folded ix)"
    by (rule om_first_prefixed_SomeD)
  then have "om_get (ix_exact ix) d = Some r"
    using wf by (auto simp: ix_wf_def)
  then show ?thesis
    using om_get_key [of "ix_exact ix" d] by (simp add: deferred_paths_def)
qed

end
