(* ===== verification/PlanFilters.thy ===== *)
theory PlanFilters
  imports Digests Deferrals
begin

text \<open>
  What happens to a plan between planning and execution (\<open>src/sync.rs\<close>): the operations a
  deferred path takes with it, the folders that hold a remote entry the walk would not carry, the
  paths a comma could turn into another path, the deletions a short listing could have misled, and
  the names of all these in the plan. The remote skips themselves are from \<open>src/api.rs\<close>.
\<close>

section \<open>Remote entries the walk does not carry\<close>

datatype remote_skip_reason =
    UnrepresentableRemoteName
  | LinksOutsideDestination
  | RevisitedFolder
  | UnlistableFolder

fun remote_skip_str :: "remote_skip_reason \<Rightarrow> string" where
  "remote_skip_str UnrepresentableRemoteName = ''unrepresentable-remote-name''"
| "remote_skip_str LinksOutsideDestination = ''remote-link-outside-destination''"
| "remote_skip_str RevisitedFolder = ''remote-folder-revisited''"
| "remote_skip_str UnlistableFolder = ''remote-folder-unlistable''"

fun remote_skip_describe :: "remote_skip_reason \<Rightarrow> string" where
  "remote_skip_describe UnrepresentableRemoteName =
     ''the NAS name cannot be addressed by this tool''"
| "remote_skip_describe LinksOutsideDestination =
     ''the NAS reports that this entry really lives somewhere else (a link)''"
| "remote_skip_describe RevisitedFolder =
     ''the NAS folder was already walked under another name (a link)''"
| "remote_skip_describe UnlistableFolder =
     ''the NAS refuses to list this folder to this account; grant it list permission or exclude ''
     @ ''the folder''"

record skipped_remote_entry =
  sr_parent :: string
  sr_name :: string
  sr_remote_path :: string
  sr_kind :: entry_kind
  sr_reason :: remote_skip_reason
  sr_excluded :: bool
  sr_cause :: string

definition sr_display :: "text_env \<Rightarrow> skipped_remote_entry \<Rightarrow> string" where
  "sr_display E s =
     (let name = escape_str E (sr_name s) in
      if sr_parent s = [] then name else sr_parent s @ slash # name)"

definition sr_detail :: "skipped_remote_entry \<Rightarrow> string" where
  "sr_detail s =
     remote_skip_describe (sr_reason s) @ '': '' @ sr_cause s
     @ ''; never deleted, overwritten or descended into''"

record link_check_counts =
  lk_files_checked :: nat
  lk_folders_checked :: nat
  lk_files_linked :: nat
  lk_folders_linked :: nat

definition link_record ::
  "bool \<Rightarrow> remote_skip_reason option \<Rightarrow> link_check_counts \<Rightarrow> link_check_counts"
where
  "link_record dir verdict c =
     (if verdict = Some RevisitedFolder then c
      else
        let linked = (if verdict = Some LinksOutsideDestination then 1 else 0) in
        if dir then
          c\<lparr>lk_folders_checked := lk_folders_checked c + 1,
            lk_folders_linked := lk_folders_linked c + linked\<rparr>
        else
          c\<lparr>lk_files_checked := lk_files_checked c + 1,
            lk_files_linked := lk_files_linked c + linked\<rparr>)"

text \<open>\<open>split_once(',')\<close>, and the part before it without its trailing slashes.\<close>

fun split_once :: "char \<Rightarrow> string \<Rightarrow> (string \<times> string) option" where
  "split_once d [] = None"
| "split_once d (c # s) =
     (if c = d then Some ([], s)
      else map_option (\<lambda>(a, b). (c # a, b)) (split_once d s))"

definition comma_split_prefix :: "string \<Rightarrow> string option" where
  "comma_split_prefix remote_path =
     (case split_once (CHR '','') remote_path of
        None \<Rightarrow> None
      | Some (pre, _) \<Rightarrow>
          let pre = rev (dropWhile (\<lambda>c. c = slash) (rev pre)) in
          if prefix [slash] pre \<and> 1 < length pre then Some pre else None)"

section \<open>What a deferred path takes with it\<close>

text \<open>The bytes the two filters below recompute: of the uploads and of the copies.\<close>

definition moved_bytes :: "sync_plan \<Rightarrow> u64" where
  "moved_bytes plan =
     fold (\<lambda>n acc. u64_sat_add acc n)
       (map (\<lambda>u. l_size (ua_local u)) (sp_uploads plan) @ map cp_expected_size (sp_copies plan)) 0"

definition withheld_with :: "text_env \<Rightarrow> string \<Rightarrow> string \<Rightarrow> defer_reason \<Rightarrow> deferred_path" where
  "withheld_with E relative other reason =
     \<lparr>dp_relative = relative, dp_reason = reason,
      dp_detail = ''kept because '' @ debug_str E other
        @ '', which it is a spelling of or depends on, was deferred''\<rparr>"

text \<open>The deferred path a mirror deletion depends on: its copy's file, or one it is a spelling of.\<close>

definition related_deferral ::
  "text_env \<Rightarrow> deferral_index \<Rightarrow> delete_action \<Rightarrow> (string \<times> defer_reason) option"
where
  "related_deferral E ix action =
     (let guarded =
            (case da_guard action of
               None \<Rightarrow> None
             | Some guard \<Rightarrow>
                 map_option (\<lambda>reason. (l_relative (dg_local guard), reason))
                   (covering ix (l_relative (dg_local guard)))) in
      case guarded of
        Some related \<Rightarrow> Some related
      | None \<Rightarrow> spelling_related E ix (da_relative action))"

definition remove_deferred_from_plan ::
  "text_env \<Rightarrow> deferral_index \<Rightarrow> sync_plan \<Rightarrow> deferred_path list \<times> sync_plan"
where
  "remove_deferred_from_plan E ix plan =
     (if ix_is_empty ix then ([], plan)
      else
        let open_path = (\<lambda>relative. covering ix relative = None);
            withheld = List.map_filter (\<lambda>action.
              map_option (\<lambda>(other, reason). withheld_with E (da_relative action) other reason)
                (related_deferral E ix action)) (sp_post_deletes plan);
            p = plan\<lparr>sp_uploads := filter (\<lambda>u. open_path (l_relative (ua_local u))) (sp_uploads plan),
                     sp_copies := filter (\<lambda>c. open_path (cp_to_relative c)) (sp_copies plan),
                     sp_pre_deletes := filter (\<lambda>d. open_path (da_relative d)) (sp_pre_deletes plan),
                     sp_post_deletes :=
                       filter (\<lambda>d. related_deferral E ix d = None) (sp_post_deletes plan)\<rparr> in
        (withheld, p\<lparr>sp_upload_bytes := moved_bytes p\<rparr>))"

section \<open>Promotion that defers\<close>

text \<open>
  One upload of \<open>promote_upload_fingerprints_deferring\<close>. The session keep-alive around the loop
  sends requests and changes nothing here.
\<close>

definition promote_deferring_step ::
  "text_env \<Rightarrow> (local_entry \<Rightarrow> fingerprint res) \<Rightarrow> (local_entry \<Rightarrow> bool)
     \<Rightarrow> deferred_path list \<times> upload_action list \<Rightarrow> upload_action
     \<Rightarrow> (deferred_path list \<times> upload_action list) res"
where
  "promote_deferring_step E hash_file cancelled = (\<lambda>(deferred, uploads) upload.
     if cancelled (ua_local upload) then Inl Cancelled
     else
       (case promote_to_full_fingerprint hash_file (ua_local upload) of
          Inr entry \<Rightarrow> Inr (deferred, uploads @ [upload\<lparr>ua_local := entry\<rparr>])
        | Inl e \<Rightarrow>
            (case for_local_error e of
               None \<Rightarrow> Inl e
             | Some reason \<Rightarrow>
                 Inr (deferred @ [\<lparr>dp_relative = l_relative (ua_local upload), dp_reason = reason,
                                   dp_detail = error_display E e\<rparr>],
                      uploads @ [upload]))))"

definition promote_upload_fingerprints_deferring ::
  "text_env \<Rightarrow> (local_entry \<Rightarrow> fingerprint res) \<Rightarrow> (local_entry \<Rightarrow> bool) \<Rightarrow> sync_plan
     \<Rightarrow> (deferred_path list \<times> sync_plan) res"
where
  "promote_upload_fingerprints_deferring E hash_file cancelled plan =
     (case fold_r (promote_deferring_step E hash_file cancelled) ([], []) (sp_uploads plan) of
        Inl e \<Rightarrow> Inl e
      | Inr (deferred, uploads) \<Rightarrow>
          let (withheld, p) =
                remove_deferred_from_plan E (ix_from_records E deferred)
                  (plan\<lparr>sp_uploads := uploads\<rparr>) in
          Inr (deferred @ withheld, p))"

section \<open>Folders that hold an entry the walk does not carry\<close>

text \<open>The folder of an entry and every folder above it, the root last.\<close>

definition folders_up :: "string \<Rightarrow> string list" where
  "folders_up folder = (if folder = [] then [[]] else folder # ancestors folder @ [[]])"

definition kept_folders ::
  "text_env \<Rightarrow> skipped_remote_entry list \<Rightarrow> string \<Rightarrow> string option"
where
  "kept_folders E skips =
     fold (\<lambda>entry m.
        fold (\<lambda>folder m. case m folder of None \<Rightarrow> m(folder \<mapsto> sr_display E entry) | Some _ \<Rightarrow> m)
          (folders_up (sr_parent entry)) m)
       skips Map.empty"

definition unreadable_skips :: "sync_plan \<Rightarrow> string set" where
  "unreadable_skips plan =
     set (map sk_relative (filter (\<lambda>s.
       case sk_reason s of
         Deferred detail \<Rightarrow> prefix ''remote-unreadable:'' detail | _ \<Rightarrow> False) (sp_skipped plan)))"

definition skipped_record ::
  "text_env \<Rightarrow> string set \<Rightarrow> skipped_remote_entry \<Rightarrow> deferred_path option"
where
  "skipped_record E unreadable entry =
     (if \<not> sr_excluded entry
         \<and> \<not> (sr_reason entry = UnlistableFolder \<and> sr_display E entry \<in> unreadable)
      then Some \<lparr>dp_relative = sr_display E entry, dp_reason = RemoteSkipped,
                 dp_detail = sr_detail entry\<rparr>
      else None)"

definition holding_record :: "text_env \<Rightarrow> (string \<Rightarrow> string option) \<Rightarrow> delete_action \<Rightarrow> deferred_path option" where
  "holding_record E kept action =
     map_option (\<lambda>holding.
       \<lparr>dp_relative = da_relative action, dp_reason = RemoteSkipped,
        dp_detail = ''kept because '' @ debug_str E holding
          @ '' beneath it is a NAS entry this tool will not follow''\<rparr>)
       (kept (da_relative action))"

text \<open>Everything at or beneath a withheld type replacement leaves the plan.\<close>

definition replaced_by :: "string list \<Rightarrow> string \<Rightarrow> bool" where
  "replaced_by withheld relative = list_ex (\<lambda>path. relative = path \<or> beneath path relative) withheld"

definition drop_replacements :: "string list \<Rightarrow> sync_plan \<Rightarrow> sync_plan" where
  "drop_replacements withheld plan =
     plan\<lparr>sp_uploads := filter (\<lambda>u. \<not> replaced_by withheld (l_relative (ua_local u))) (sp_uploads plan),
          sp_copies := filter (\<lambda>c. \<not> replaced_by withheld (cp_to_relative c)) (sp_copies plan),
          sp_creates := filter (\<lambda>c. \<not> replaced_by withheld (ca_relative c)) (sp_creates plan),
          sp_pre_deletes := filter (\<lambda>d. \<not> replaced_by withheld (da_relative d)) (sp_pre_deletes plan)\<rparr>"

definition protect_skipped_remote_entries ::
  "text_env \<Rightarrow> skipped_remote_entry list \<Rightarrow> sync_plan \<Rightarrow> deferred_path list \<times> sync_plan"
where
  "protect_skipped_remote_entries E skips plan =
     (if skips = [] then ([], plan)
      else
        let unreadable = unreadable_skips plan;
            kept = kept_folders E skips;
            named = List.map_filter (skipped_record E unreadable) skips;
            withheld_post = List.map_filter (holding_record E kept) (sp_post_deletes plan);
            withheld_pre = List.map_filter (holding_record E kept) (sp_pre_deletes plan);
            withheld = map da_relative
              (filter (\<lambda>d. kept (da_relative d) \<noteq> None) (sp_pre_deletes plan));
            p = plan\<lparr>sp_post_deletes := filter (\<lambda>d. kept (da_relative d) = None) (sp_post_deletes plan),
                     sp_pre_deletes := filter (\<lambda>d. kept (da_relative d) = None) (sp_pre_deletes plan)\<rparr> in
        (named @ withheld_post @ withheld_pre,
         if withheld = [] then p
         else
           let q = drop_replacements withheld p in
           q\<lparr>sp_upload_bytes := moved_bytes q\<rparr>))"

section \<open>Naming the deferrals in the plan\<close>

definition record_step ::
  "deferred_path \<Rightarrow> string set \<times> skipped_entry list \<Rightarrow> string set \<times> skipped_entry list"
where
  "record_step r = (\<lambda>(named, added).
     if dp_relative r \<in> named then (named, added)
     else
       (insert (dp_relative r) named,
        added @ [skipped (dp_relative r)
          (Deferred (defer_str (dp_reason r) @ '': '' @ dp_detail r))]))"

definition record_deferrals_in_plan :: "deferred_path list \<Rightarrow> sync_plan \<Rightarrow> sync_plan" where
  "record_deferrals_in_plan deferred plan =
     (let (_, added) =
            fold record_step deferred (set (map sk_relative (sp_skipped plan)), []) in
      if added = [] then plan
      else plan\<lparr>sp_skipped := sort_key sk_relative (sp_skipped plan @ added)\<rparr>)"

text \<open>
  The reason and the cause that a tagged skip names: the first reason, in their order, whose name
  and a colon begin the detail.
\<close>

fun tagged_reason :: "defer_reason list \<Rightarrow> string \<Rightarrow> (defer_reason \<times> string) option" where
  "tagged_reason [] detail = None"
| "tagged_reason (r # rs) detail =
     (case strip_prefix (defer_str r) detail of
        Some (c # cause) \<Rightarrow>
          if c = CHR '':'' then Some (r, trim_start cause) else tagged_reason rs detail
      | _ \<Rightarrow> tagged_reason rs detail)"

definition deferral_of_skip :: "skipped_entry \<Rightarrow> deferred_path option" where
  "deferral_of_skip s =
     (case sk_reason s of
        Deferred detail \<Rightarrow>
          map_option (\<lambda>(reason, cause).
            \<lparr>dp_relative = sk_relative s, dp_reason = reason, dp_detail = cause\<rparr>)
            (tagged_reason all_reasons detail)
      | _ \<Rightarrow> None)"

definition deferrals_in_plan_skips :: "sync_plan \<Rightarrow> deferred_path list \<Rightarrow> deferred_path list" where
  "deferrals_in_plan_skips plan deferred =
     (let known = set (map dp_relative deferred) in
      List.map_filter deferral_of_skip (filter (\<lambda>s. sk_relative s \<notin> known) (sp_skipped plan)))"

definition skip_is_transient_deferral :: "skipped_entry \<Rightarrow> bool" where
  "skip_is_transient_deferral s =
     (case sk_reason s of
        Deferred detail \<Rightarrow>
          \<not> list_ex (\<lambda>r. is_lasting r \<and>
              (case strip_prefix (defer_str r) detail of
                 Some rest \<Rightarrow> prefix '':'' rest | None \<Rightarrow> False)) all_reasons
      | _ \<Rightarrow> False)"

section \<open>Short listings and vanished folders\<close>

definition listing_incomplete_detail :: string where
  "listing_incomplete_detail =
     ''the listing of its folder returned a different number of entries than the NAS counted''"

definition withhold_deletions_in_incomplete_listings ::
  "string list \<Rightarrow> sync_plan \<Rightarrow> deferred_path list \<times> sync_plan"
where
  "withhold_deletions_in_incomplete_listings incomplete plan =
     (if incomplete = [] then ([], plan)
      else
        (map (\<lambda>d. \<lparr>dp_relative = da_relative d, dp_reason = ListingIncomplete,
                   dp_detail = listing_incomplete_detail\<rparr>)
           (filter (\<lambda>d. listing_withholds (da_relative d) incomplete) (sp_post_deletes plan)),
         plan\<lparr>sp_post_deletes :=
           filter (\<lambda>d. \<not> listing_withholds (da_relative d) incomplete) (sp_post_deletes plan)\<rparr>))"

definition vanished_remote_folder_deferrals :: "string list \<Rightarrow> deferred_path list" where
  "vanished_remote_folder_deferrals vanished =
     map (\<lambda>relative. \<lparr>dp_relative = relative, dp_reason = RemoteChanged,
       dp_detail = ''the NAS folder was deleted while it was being listed; nothing in the folder ''
         @ ''above it was deleted on the strength of that listing''\<rparr>) vanished"

end
