(* ===== verification/RemoteDigests.thy ===== *)
theory RemoteDigests
  imports PlanTypes Paths ErrorText
begin

text \<open>
  The passes of \<open>src/api.rs\<close> that fetch the digests of remote files: one request per file, a
  breaker that takes several failures of one cause for a failure of the NAS, and batches of MD5
  tasks drained by a pool of workers. What the NAS answers for one file is a parameter.
\<close>

section \<open>What a failed digest means\<close>

datatype digest_scope = FileScope | UnreadableScope | RunScope

datatype digest_failure = FailRun | DeferFile

text \<open>A status is its text, \<open>404 Not Found\<close>; its number is what stands before the space.\<close>

definition status_number :: "string \<Rightarrow> string" where
  "status_number status = takeWhile (\<lambda>c. c \<noteq> CHR '' '') status"

fun digest_failure_is_per_file :: "error \<Rightarrow> bool" where
  "digest_failure_is_per_file (Api _ _ code _) =
     (code = 400 \<or> code = 401 \<or> code = 408 \<or> code = 599 \<or> 1000 \<le> code)"
| "digest_failure_is_per_file (HttpStatus _ status _) =
     (status_number status = ''404'' \<or> status_number status = ''410'')"
| "digest_failure_is_per_file (OperationTimedOut _) = True"
| "digest_failure_is_per_file (InvalidResponse _ _) = True"
| "digest_failure_is_per_file InvalidContentHash = True"
| "digest_failure_is_per_file (ContentVerificationFailed _) = True"
| "digest_failure_is_per_file _ = False"

text \<open>The liveness probe that a 105 costs is the flag \<open>alive\<close>.\<close>

definition digest_failure_scope :: "bool \<Rightarrow> error \<Rightarrow> digest_scope" where
  "digest_failure_scope alive e =
     (if api_code e = Some 105 then if alive then UnreadableScope else RunScope
      else if digest_failure_is_per_file e then FileScope else RunScope)"

fun digest_cause_class :: "error \<Rightarrow> string" where
  "digest_cause_class (Api _ _ code _) = ''dsm-'' @ show_int code"
| "digest_cause_class (HttpStatus _ status _) = ''http-'' @ status_number status"
| "digest_cause_class (OperationTimedOut _) = ''timeout''"
| "digest_cause_class (InvalidResponse _ _) = ''invalid-response''"
| "digest_cause_class InvalidContentHash = ''invalid-digest''"
| "digest_cause_class (ContentVerificationFailed _) = ''content-verification''"
| "digest_cause_class _ = ''other''"

fun clone_digest_error :: "text_env \<Rightarrow> error \<Rightarrow> error" where
  "clone_digest_error E (Api api operation code text) = Api api operation code text"
| "clone_digest_error E (HttpStatus operation status message) = HttpStatus operation status message"
| "clone_digest_error E (OperationTimedOut operation) = OperationTimedOut operation"
| "clone_digest_error E (InvalidResponse operation message) = InvalidResponse operation message"
| "clone_digest_error E InvalidContentHash = InvalidContentHash"
| "clone_digest_error E (ContentVerificationFailed path) = ContentVerificationFailed path"
| "clone_digest_error E other = Message (error_display E other)"

fun naming_remote_file :: "text_env \<Rightarrow> error \<Rightarrow> string \<Rightarrow> error" where
  "naming_remote_file E (Api api operation code text) path =
     Api api operation code (text @ '' (file '' @ debug_str E path @ '')'')"
| "naming_remote_file E (InvalidResponse operation message) path =
     InvalidResponse operation (message @ '' (file '' @ debug_str E path @ '')'')"
| "naming_remote_file E (HttpStatus operation status message) path =
     HttpStatus (operation @ '' of '' @ debug_str E path) status message"
| "naming_remote_file E (Http operation source) path =
     Http (operation @ '' of '' @ debug_str E path) source"
| "naming_remote_file E (HttpBody operation source) path =
     HttpBody (operation @ '' of '' @ debug_str E path) source"
| "naming_remote_file E other path = other"

lemma naming_keeps_class:
  "api_code (naming_remote_file E e p) = api_code e"
  "digest_failure_is_per_file (naming_remote_file E e p) = digest_failure_is_per_file e"
  "digest_cause_class (naming_remote_file E e p) = digest_cause_class e"
  by (cases e; simp)+

section \<open>The breaker\<close>

definition digest_breaker_threshold :: nat where
  "digest_breaker_threshold = 3"

record digest_breaker =
  db_successes :: nat
  db_failures :: "string list"
  db_class :: "string option"
  db_consecutive :: "string list"

definition db_new :: digest_breaker where
  "db_new = \<lparr>db_successes = 0, db_failures = [], db_class = None, db_consecutive = []\<rparr>"

definition db_succeeded :: "digest_breaker \<Rightarrow> digest_breaker" where
  "db_succeeded b =
     b\<lparr>db_successes := db_successes b + 1, db_class := None, db_consecutive := []\<rparr>"

definition db_count :: "string \<Rightarrow> error \<Rightarrow> digest_breaker \<Rightarrow> digest_breaker" where
  "db_count relative e b =
     (let run = (if db_class b = Some (digest_cause_class e) then db_consecutive b else []) in
      b\<lparr>db_class := Some (digest_cause_class e), db_consecutive := run @ [relative],
        db_failures := db_failures b @ [relative]\<rparr>)"

definition db_failed :: "text_env \<Rightarrow> string \<Rightarrow> error \<Rightarrow> digest_breaker \<Rightarrow> digest_breaker res" where
  "db_failed E relative e b =
     (if api_code e = Some 105 \<or> api_code e = Some 408 then Inr b
      else
        let b1 = db_count relative e b in
        if digest_breaker_threshold \<le> length (db_consecutive b1) then
          Inl (RemoteDigestsFailing (clone_digest_error E e) (db_consecutive b1))
        else if db_successes b1 = 0 \<and> digest_breaker_threshold \<le> length (db_failures b1) then
          Inl (RemoteDigestsFailing (clone_digest_error E e) (db_failures b1))
        else Inr b1)"

section \<open>One batch of MD5 tasks\<close>

definition remote_md5_concurrency :: nat where
  "remote_md5_concurrency = 4"

definition remote_md5_batch_size :: nat where
  "remote_md5_batch_size = remote_md5_concurrency * 8"

text \<open>
  The NAS as the passes see it: the interface checks, the MD5 it computes of a path, the full
  fingerprint of a download, whether the session answers a liveness probe, and at which paths the
  token was found cancelled; the empty path stands for the check once the selection is exhausted.
\<close>

record digest_nas =
  dn_content_api :: "unit res"
  dn_fingerprint_api :: "unit res"
  dn_md5 :: "string \<Rightarrow> fingerprint res"
  dn_fingerprint :: "string \<Rightarrow> u64 \<Rightarrow> fingerprint res"
  dn_alive :: bool
  dn_cancelled :: "string \<Rightarrow> bool"

definition digest_fatal :: "digest_nas \<Rightarrow> digest_failure \<Rightarrow> fingerprint res \<Rightarrow> bool" where
  "digest_fatal N failure result =
     (case result of
        Inr _ \<Rightarrow> False
      | Inl e \<Rightarrow>
          e = Cancelled \<or> failure = FailRun \<or> digest_failure_scope (dn_alive N) e = RunScope)"

definition named_digest :: "text_env \<Rightarrow> digest_nas \<Rightarrow> string \<Rightarrow> fingerprint res" where
  "named_digest E N path =
     (case dn_md5 N path of Inl e \<Rightarrow> Inl (naming_remote_file E e path) | Inr fp \<Rightarrow> Inr fp)"

text \<open>The drain of one worker that has the batch to itself.\<close>

definition drain_one ::
  "text_env \<Rightarrow> digest_nas \<Rightarrow> digest_failure \<Rightarrow> string \<Rightarrow> fingerprint res res"
where
  "drain_one E N failure path =
     (if digest_fatal N failure (dn_md5 N path)
      then (case named_digest E N path of Inl e \<Rightarrow> Inl e | Inr fp \<Rightarrow> Inr (Inr fp))
      else Inr (named_digest E N path))"

definition remote_content_md5_batch ::
  "text_env \<Rightarrow> digest_nas \<Rightarrow> digest_failure \<Rightarrow> string list \<Rightarrow> fingerprint res list res"
where
  "remote_content_md5_batch E N failure paths = collect (drain_one E N failure) paths"

section \<open>The passes\<close>

fun chunks :: "nat \<Rightarrow> 'a list \<Rightarrow> 'a list list" where
  "chunks n [] = []"
| "chunks n (x # xs) = take (Suc n) (x # xs) # chunks n (drop n xs)"

definition selected_entry ::
  "text_env \<Rightarrow> remote_inventory \<Rightarrow> string \<Rightarrow> remote_entry res"
where
  "selected_entry E remote relative =
     (case om_get (ri_entries remote) relative of
        None \<Rightarrow> Inl (Message (''remote content selection referenced missing inventory path ''
                  @ debug_str E relative))
      | Some entry \<Rightarrow>
          if r_kind entry \<noteq> File
          then Inl (Message (''remote content selection referenced non-file path ''
                  @ debug_str E relative))
          else Inr entry)"

definition set_digest :: "string \<Rightarrow> fingerprint \<Rightarrow> remote_inventory \<Rightarrow> remote_inventory" where
  "set_digest relative fp remote =
     (case om_get (ri_entries remote) relative of
        None \<Rightarrow> remote
      | Some entry \<Rightarrow>
          remote\<lparr>ri_entries := om_insert relative (entry\<lparr>r_md5 := Some fp\<rparr>) (ri_entries remote)\<rparr>)"

record digest_pass =
  dpa_deferred :: "(string \<times> error) list"
  dpa_breaker :: digest_breaker
  dpa_remote :: remote_inventory

definition pass_start :: "remote_inventory \<Rightarrow> digest_pass" where
  "pass_start remote = \<lparr>dpa_deferred = [], dpa_breaker = db_new, dpa_remote = remote\<rparr>"

text \<open>What one digest does to the pass: the entry is filled in, or the file is set aside.\<close>

definition place_digest ::
  "text_env \<Rightarrow> digest_pass \<Rightarrow> string \<times> fingerprint res \<Rightarrow> digest_pass res"
where
  "place_digest E st = (\<lambda>(relative, digest).
     case digest of
       Inr fp \<Rightarrow>
         Inr (st\<lparr>dpa_breaker := db_succeeded (dpa_breaker st),
                 dpa_remote := set_digest relative fp (dpa_remote st)\<rparr>)
     | Inl e \<Rightarrow>
         map_r (\<lambda>b. st\<lparr>dpa_breaker := b, dpa_deferred := dpa_deferred st @ [(relative, e)]\<rparr>)
           (db_failed E relative e (dpa_breaker st)))"

definition md5_batch_step ::
  "text_env \<Rightarrow> digest_nas \<Rightarrow> digest_failure \<Rightarrow> digest_pass \<Rightarrow> string list \<Rightarrow> digest_pass res"
where
  "md5_batch_step E N failure st relatives =
     (if list_ex (dn_cancelled N) relatives then Inl Cancelled
      else
        bind_r (collect (selected_entry E (dpa_remote st)) relatives)
          (\<lambda>entries.
             bind_r (remote_content_md5_batch E N failure (map r_path entries))
               (\<lambda>digests. fold_r (place_digest E) st (zip relatives digests))))"

definition populate_remote_content_md5_with ::
  "text_env \<Rightarrow> digest_nas \<Rightarrow> digest_failure \<Rightarrow> string set \<Rightarrow> remote_inventory
     \<Rightarrow> ((string \<times> error) list \<times> remote_inventory) res"
where
  "populate_remote_content_md5_with E N failure selected remote =
     bind_r (dn_content_api N)
       (\<lambda>_. bind_r (fold_r (md5_batch_step E N failure) (pass_start remote)
             (chunks (remote_md5_batch_size - 1) (sorted_list_of_set selected)))
          (\<lambda>st. if dn_cancelled N [] then Inl Cancelled else Inr (dpa_deferred st, dpa_remote st)))"

definition populate_remote_content_md5 ::
  "text_env \<Rightarrow> digest_nas \<Rightarrow> string set \<Rightarrow> remote_inventory \<Rightarrow> remote_inventory res"
where
  "populate_remote_content_md5 E N selected remote =
     map_r snd (populate_remote_content_md5_with E N FailRun selected remote)"

text \<open>One file of the pass that downloads: a failure confined to the file is set aside.\<close>

definition fingerprint_step ::
  "text_env \<Rightarrow> digest_nas \<Rightarrow> digest_pass \<Rightarrow> string \<Rightarrow> digest_pass res"
where
  "fingerprint_step E N st relative =
     (if dn_cancelled N relative then Inl Cancelled
      else
        bind_r (selected_entry E (dpa_remote st) relative)
          (\<lambda>entry.
             case dn_fingerprint N (r_path entry) (r_size entry) of
               Inr fp \<Rightarrow> place_digest E st (relative, Inr fp)
             | Inl e \<Rightarrow>
                 if e = Cancelled then Inl Cancelled
                 else if digest_failure_scope (dn_alive N) e \<noteq> RunScope then
                   place_digest E st (relative, Inl (naming_remote_file E e (r_path entry)))
                 else Inl (naming_remote_file E e (r_path entry))))"

definition populate_remote_content_fingerprints_deferring ::
  "text_env \<Rightarrow> digest_nas \<Rightarrow> string set \<Rightarrow> remote_inventory
     \<Rightarrow> ((string \<times> error) list \<times> remote_inventory) res"
where
  "populate_remote_content_fingerprints_deferring E N selected remote =
     bind_r (dn_fingerprint_api N)
       (\<lambda>_. map_r (\<lambda>st. (dpa_deferred st, dpa_remote st))
          (fold_r (fingerprint_step E N) (pass_start remote) (sorted_list_of_set selected)))"

definition strict_fingerprint_step ::
  "text_env \<Rightarrow> digest_nas \<Rightarrow> remote_inventory \<Rightarrow> string \<Rightarrow> remote_inventory res"
where
  "strict_fingerprint_step E N remote relative =
     (if dn_cancelled N relative then Inl Cancelled
      else
        bind_r (selected_entry E remote relative)
          (\<lambda>entry. map_r (\<lambda>fp. set_digest relative fp remote)
             (dn_fingerprint N (r_path entry) (r_size entry))))"

definition populate_remote_content_fingerprints ::
  "text_env \<Rightarrow> digest_nas \<Rightarrow> string set \<Rightarrow> remote_inventory \<Rightarrow> remote_inventory res"
where
  "populate_remote_content_fingerprints E N selected remote =
     bind_r (dn_fingerprint_api N)
       (\<lambda>_. fold_r (strict_fingerprint_step E N) remote (sorted_list_of_set selected))"

definition populate_remote_content_digests ::
  "text_env \<Rightarrow> digest_nas \<Rightarrow> string set \<Rightarrow> string set \<Rightarrow> remote_inventory \<Rightarrow> remote_inventory res"
where
  "populate_remote_content_digests E N comparison strong remote =
     bind_r (populate_remote_content_fingerprints E N strong remote)
       (populate_remote_content_md5 E N (comparison - strong))"

definition populate_remote_content_digests_deferring ::
  "text_env \<Rightarrow> digest_nas \<Rightarrow> string set \<Rightarrow> string set \<Rightarrow> remote_inventory
     \<Rightarrow> ((string \<times> error) list \<times> remote_inventory) res"
where
  "populate_remote_content_digests_deferring E N comparison strong remote =
     bind_r (populate_remote_content_fingerprints_deferring E N strong remote)
       (\<lambda>(failed, remote1).
          map_r (\<lambda>(failed_md5, remote2). (failed @ failed_md5, remote2))
            (populate_remote_content_md5_with E N DeferFile (comparison - strong) remote1))"

end
