(* ===== verification/Breaker.thy ===== *)
theory Breaker
  imports OrdMap Errors
begin

text \<open>
  \<open>RefusalBreaker\<close> of \<open>src/sync.rs\<close>: when the NAS refuses paths one by one for one cause, and
  they are most of what a run handles, the run fails instead of deferring them all. Each planned
  write settles once, as accepted, refused or excluded.
\<close>

section \<open>The breaker\<close>

type_synonym refusal = "refusal_class \<times> string"

record refusal_tally =
  rt_refused :: nat
  rt_sample :: "string list"
  rt_codes :: "nat omap"

record refusal_breaker =
  rb_pending :: nat
  rb_adjudicated :: nat
  rb_in_sync :: nat
  rb_by_class :: "refusal_class \<Rightarrow> refusal_tally"

definition tally_empty :: refusal_tally where
  "tally_empty = \<lparr>rt_refused = 0, rt_sample = [], rt_codes = []\<rparr>"

definition refusal_sample :: nat where
  "refusal_sample = 10"

definition refusal_of :: "error \<Rightarrow> refusal option" where
  "refusal_of e =
     map_option (\<lambda>class. (class,
         case refusal_cause_key e of Some code \<Rightarrow> code | None \<Rightarrow> refusal_class_str class))
       (error_refusal_class e)"

definition rb_new :: "nat \<Rightarrow> nat \<Rightarrow> refusal_breaker" where
  "rb_new pending in_sync =
     \<lparr>rb_pending = pending, rb_adjudicated = 0, rb_in_sync = in_sync,
      rb_by_class = (\<lambda>_. tally_empty)\<rparr>"

definition rb_settle :: "refusal_breaker \<Rightarrow> refusal_breaker" where
  "rb_settle b = b\<lparr>rb_pending := rb_pending b - 1\<rparr>"

definition rb_excluded :: "refusal_breaker \<Rightarrow> refusal_breaker" where
  "rb_excluded b = rb_settle b"

definition rb_accepted :: "refusal_breaker \<Rightarrow> refusal_breaker" where
  "rb_accepted b = (let b1 = rb_settle b in b1\<lparr>rb_adjudicated := rb_adjudicated b1 + 1\<rparr>)"

definition tally_add :: "string \<Rightarrow> string \<Rightarrow> refusal_tally \<Rightarrow> refusal_tally" where
  "tally_add code relative t =
     t\<lparr>rt_refused := rt_refused t + 1,
       rt_sample := (if length (rt_sample t) < refusal_sample then rt_sample t @ [relative]
                     else rt_sample t),
       rt_codes := om_insert code
         (case om_get (rt_codes t) code of None \<Rightarrow> 1 | Some n \<Rightarrow> n + 1) (rt_codes t)\<rparr>"

definition rb_settled_as :: "refusal option \<Rightarrow> string \<Rightarrow> refusal_breaker \<Rightarrow> refusal_breaker" where
  "rb_settled_as refused relative b =
     (case refused of
        None \<Rightarrow> rb_excluded b
      | Some (class, code) \<Rightarrow>
          let b1 = rb_settle b in
          b1\<lparr>rb_adjudicated := rb_adjudicated b1 + 1,
             rb_by_class := (rb_by_class b1)
               (class := tally_add code relative (rb_by_class b1 class))\<rparr>)"

definition rb_settled_by :: "error \<Rightarrow> string \<Rightarrow> refusal_breaker \<Rightarrow> refusal_breaker" where
  "rb_settled_by e relative b = rb_settled_as (refusal_of e) relative b"

definition rb_considered :: "refusal_breaker \<Rightarrow> nat" where
  "rb_considered b = rb_adjudicated b + rb_pending b + rb_in_sync b"

definition all_refusal_classes :: "refusal_class list" where
  "all_refusal_classes = [Permission, NameClass, SizeClass, Clash, FolderLimit, CreateFailed]"

definition tally_trips :: "refusal_breaker \<Rightarrow> refusal_class \<Rightarrow> bool" where
  "tally_trips b class =
     (3 \<le> rt_refused (rb_by_class b class) \<and>
      rb_considered b < rt_refused (rb_by_class b class) * 2)"

definition share_wide :: "refusal_breaker \<Rightarrow> refusal_class \<Rightarrow> error" where
  "share_wide b class =
     (let t = rb_by_class b class in
      RemoteRefusalsShareWide class (rt_refused t) (rb_considered b) (rb_in_sync b) (rb_pending b)
        (rt_codes t) (rt_sample t) (rt_refused t - length (rt_sample t)))"

definition rb_check :: "refusal_breaker \<Rightarrow> unit res" where
  "rb_check b =
     (case find (tally_trips b) all_refusal_classes of
        Some class \<Rightarrow> Inl (share_wide b class)
      | None \<Rightarrow> Inr ())"

section \<open>A run of settlements\<close>

text \<open>How one planned write ends: accepted, or not by \<open>settled_as\<close>.\<close>

datatype settlement = Accepted | Unwritten "refusal option" string

fun rb_apply :: "refusal_breaker \<Rightarrow> settlement \<Rightarrow> refusal_breaker" where
  "rb_apply b Accepted = rb_accepted b"
| "rb_apply b (Unwritten refused relative) = rb_settled_as refused relative b"

fun refused_as :: "refusal_class \<Rightarrow> settlement \<Rightarrow> bool" where
  "refused_as class (Unwritten (Some (c, code)) relative) = (c = class)"
| "refused_as class _ = False"

fun adjudicates :: "settlement \<Rightarrow> bool" where
  "adjudicates Accepted = True"
| "adjudicates (Unwritten refused relative) = (refused \<noteq> None)"

definition refusals :: "refusal_class \<Rightarrow> settlement list \<Rightarrow> nat" where
  "refusals class ss = length (filter (refused_as class) ss)"

definition adjudicated :: "settlement list \<Rightarrow> nat" where
  "adjudicated ss = length (filter adjudicates ss)"

lemma rb_run_counts:
  "length ss \<le> rb_pending b \<Longrightarrow>
   rb_pending (foldl rb_apply b ss) = rb_pending b - length ss
   \<and> rb_adjudicated (foldl rb_apply b ss) = rb_adjudicated b + adjudicated ss
   \<and> rb_in_sync (foldl rb_apply b ss) = rb_in_sync b
   \<and> rt_refused (rb_by_class (foldl rb_apply b ss) class)
       = rt_refused (rb_by_class b class) + refusals class ss"
proof (induction ss arbitrary: b)
  case Nil
  then show ?case by (simp add: adjudicated_def refusals_def)
next
  case (Cons s ss)
  have one: "rb_pending (rb_apply b s) = rb_pending b - 1
    \<and> rb_adjudicated (rb_apply b s) = rb_adjudicated b + (if adjudicates s then 1 else 0)
    \<and> rb_in_sync (rb_apply b s) = rb_in_sync b
    \<and> rt_refused (rb_by_class (rb_apply b s) class)
        = rt_refused (rb_by_class b class) + (if refused_as class s then 1 else 0)"
    by (cases "(class, s)" rule: refused_as.cases)
      (auto simp: rb_accepted_def rb_settle_def rb_settled_as_def rb_excluded_def tally_add_def Let_def)
  then have "length ss \<le> rb_pending (rb_apply b s)"
    using Cons.prems by simp
  from Cons.IH [OF this] one Cons.prems show ?case
    by (simp add: adjudicated_def refusals_def)
qed

lemma refused_adjudicates: "refused_as class s \<Longrightarrow> adjudicates s"
  by (cases "(class, s)" rule: refused_as.cases) auto

lemma check_fails_iff: "(\<exists>e. rb_check b = Inl e) \<longleftrightarrow> (\<exists>class. tally_trips b class)"
proof -
  have "\<exists>c \<in> set all_refusal_classes. tally_trips b c" if "tally_trips b k" for k
    using that by (cases k) (auto simp: all_refusal_classes_def)
  then show ?thesis
    by (auto simp: rb_check_def find_None_iff find_Some_iff split: option.splits dest!: sym)
qed

text \<open>
  C24. The breaker judges a run by all of it, and never early: after every settlement it fails
  exactly when one class has at least three refusals that are more than half of what is accepted,
  refused, still open or already in sync; and when it fails in the middle of a run, it fails at
  its end however the open writes settle.
\<close>

theorem breaker_judges_whole_run:
  assumes all: "length (before @ after) = pending"
  shows "((\<exists>e. rb_check (foldl rb_apply (rb_new pending in_sync) before) = Inl e) \<longleftrightarrow>
      (\<exists>class. 3 \<le> refusals class before \<and>
         adjudicated before + length after + in_sync < 2 * refusals class before))
    \<and> ((\<exists>e. rb_check (foldl rb_apply (rb_new pending in_sync) before) = Inl e) \<longrightarrow>
      (\<exists>e. rb_check (foldl rb_apply (rb_new pending in_sync) (before @ after)) = Inl e))"
proof -
  have trips: "tally_trips (foldl rb_apply (rb_new pending in_sync) ss) k \<longleftrightarrow>
      3 \<le> refusals k ss \<and>
      adjudicated ss + (pending - length ss) + in_sync < 2 * refusals k ss"
    if "length ss \<le> pending" for ss k
    using rb_run_counts [of ss "rb_new pending in_sync" k] that
    by (simp add: tally_trips_def rb_considered_def rb_new_def tally_empty_def mult.commute)
  have more: "refusals k (before @ after) = refusals k before + refusals k after"
    "adjudicated (before @ after) = adjudicated before + adjudicated after" for k
    by (simp_all add: refusals_def adjudicated_def)
  have less: "adjudicated after \<le> length after"
    by (simp add: adjudicated_def)
  have "tally_trips (foldl rb_apply (rb_new pending in_sync) (before @ after)) k"
    if "tally_trips (foldl rb_apply (rb_new pending in_sync) before) k" for k
    using that trips [of before k] trips [of "before @ after" k] all more less
    by simp linarith
  then show ?thesis
    unfolding check_fails_iff using trips [of before] all by fastforce
qed

text \<open>A share of five folders of which the first three are refused for one cause.\<close>

theorem breaker_judges_whole_run_witness:
  "\<exists>e. rb_check (foldl rb_apply (rb_new 5 0)
     (replicate 3 (Unwritten (Some (Permission, ''create:407'')) ''a'') @ [Accepted, Accepted])) = Inl e"
proof -
  let ?three = "replicate 3 (Unwritten (Some (Permission, ''create:407'')) ''a'')"
  have "refusals Permission ?three = 3" "adjudicated ?three = 3"
    by (simp_all add: refusals_def adjudicated_def numeral_3_eq_3)
  then have "\<exists>class. 3 \<le> refusals class ?three \<and>
      adjudicated ?three + length [Accepted, Accepted] + 0 < 2 * refusals class ?three"
    by (intro exI [of _ Permission]) simp
  then show ?thesis
    using breaker_judges_whole_run [of ?three "[Accepted, Accepted]" 5 0] by simp
qed

end
