(* ===== verification/Prepare.thy ===== *)
theory Prepare
  imports PlanFilters RemoteDigests Breaker
begin

text \<open>
  What a run asks of the NAS before it executes a plan (\<open>src/sync.rs\<close>): the digests, with the
  files left out whose digest could not be had; the spelling of a scope's own folders; the entries a
  path with a comma could address; and whether the walk found links almost everywhere. What the NAS
  answers is a parameter of each definition.
\<close>

section \<open>Digests\<close>

definition remote_digest_reason :: "error \<Rightarrow> defer_reason" where
  "remote_digest_reason e =
     (if api_code e = Some 105 then RemoteUnreadable else RemoteDigestUnavailableD)"

definition withhold_path ::
  "text_env \<Rightarrow> string \<Rightarrow> defer_reason \<Rightarrow> error \<Rightarrow> local_inventory \<Rightarrow> deferred_path \<times> local_inventory"
where
  "withhold_path E relative reason e local =
     (let detail = error_display E e in
      (\<lparr>dp_relative = relative, dp_reason = reason, dp_detail = detail\<rparr>,
       withhold relative (Deferred (defer_str reason @ '': '' @ detail)) local))"

text \<open>
  The failures of a batch, withheld one after the other: the records in order, and the inventory.
\<close>

definition withhold_failures ::
  "text_env \<Rightarrow> (error \<Rightarrow> defer_reason) \<Rightarrow> (string \<times> error) list
     \<Rightarrow> deferred_path list \<times> local_inventory \<Rightarrow> deferred_path list \<times> local_inventory"
where
  "withhold_failures E reason_of failures st =
     fold (\<lambda>(relative, e) (records, local).
        let (r, local') = withhold_path E relative (reason_of e) e local in (records @ [r], local'))
       failures st"

definition local_failure_reason :: "error \<Rightarrow> defer_reason" where
  "local_failure_reason e =
     (case for_local_error e of Some reason \<Rightarrow> reason | None \<Rightarrow> SourceUnreadable)"

section \<open>Hashing the local files\<close>

text \<open>
  The passes over the files of an inventory. Reading a file is outside the model: \<open>hash_file\<close> is what
  \<open>hash_file_snapshot\<close> answers for an entry, \<open>hash_md5\<close> what \<open>hash_file_md5_snapshot\<close> does, and
  \<open>cancelled\<close> tells at which paths the token was found cancelled.
\<close>

record hash_oracle =
  ho_file :: "local_entry \<Rightarrow> fingerprint res"
  ho_md5 :: "local_entry \<Rightarrow> fingerprint res"
  ho_cancelled :: "string \<Rightarrow> bool"

definition hash_for :: "hash_oracle \<Rightarrow> string set \<Rightarrow> string \<Rightarrow> local_entry \<Rightarrow> fingerprint res" where
  "hash_for H comparison relative entry =
     (if relative \<in> comparison then ho_md5 H entry else ho_file H entry)"

definition populate_content_md5 :: "hash_oracle \<Rightarrow> local_inventory \<Rightarrow> local_inventory res" where
  "populate_content_md5 H local =
     map_r (\<lambda>entries. local\<lparr>li_entries := entries\<rparr>)
       (collect (\<lambda>(relative, entry).
          if ho_cancelled H relative then Inl Cancelled
          else if l_kind entry = File then
            map_r (\<lambda>fp. (relative, entry\<lparr>l_md5 := Some fp\<rparr>)) (ho_file H entry)
          else Inr (relative, entry)) (li_entries local))"

definition populate_content_md5_selective ::
  "hash_oracle \<Rightarrow> string set \<Rightarrow> local_inventory \<Rightarrow> local_inventory res"
where
  "populate_content_md5_selective H comparison local =
     map_r (\<lambda>entries. local\<lparr>li_entries := entries\<rparr>)
       (collect (\<lambda>(relative, entry).
          if ho_cancelled H relative then Inl Cancelled
          else if l_kind entry \<noteq> File then Inr (relative, entry)
          else if l_md5 entry \<noteq> None then Inr (relative, entry)
          else map_r (\<lambda>fp. (relative, entry\<lparr>l_md5 := Some fp\<rparr>)) (hash_for H comparison relative entry))
          (li_entries local))"

text \<open>One file of the pass that sets failures aside: the entry, and its failure if it had one.\<close>

definition hash_deferring ::
  "hash_oracle \<Rightarrow> string set \<Rightarrow> string \<times> local_entry
     \<Rightarrow> ((string \<times> local_entry) \<times> (string \<times> error) option) res"
where
  "hash_deferring H comparison = (\<lambda>(relative, entry).
     if ho_cancelled H relative then Inl Cancelled
     else if l_kind entry \<noteq> File \<or> l_md5 entry \<noteq> None then Inr ((relative, entry), None)
     else
       (case hash_for H comparison relative entry of
          Inr digest \<Rightarrow> Inr ((relative, entry\<lparr>l_md5 := Some digest\<rparr>), None)
        | Inl e \<Rightarrow>
            if e = Cancelled then Inl Cancelled
            else Inr ((relative, entry), Some (relative, e))))"

definition populate_content_md5_selective_deferring ::
  "hash_oracle \<Rightarrow> string set \<Rightarrow> local_inventory
     \<Rightarrow> ((string \<times> error) list \<times> local_inventory) res"
where
  "populate_content_md5_selective_deferring H comparison local =
     map_r (\<lambda>results. (List.map_filter snd results, local\<lparr>li_entries := map fst results\<rparr>))
       (collect (hash_deferring H comparison) (li_entries local))"

section \<open>The digests of a plan\<close>

text \<open>
  Which digests a comparison needs, who answers them, and the files taken out of the run because
  theirs could not be had. The keep-alive requests sent meanwhile change nothing here.
\<close>

type_synonym digest_state = "deferred_path list \<times> local_inventory \<times> remote_inventory"

text \<open>The deletions a short listing withholds, taken out up front.\<close>

definition withhold_listed_short ::
  "text_env \<Rightarrow> ignore_rules \<Rightarrow> compare_mode \<Rightarrow> bool \<Rightarrow> string list
     \<Rightarrow> local_inventory \<Rightarrow> remote_inventory \<Rightarrow> deferred_path list \<times> local_inventory"
where
  "withhold_listed_short E rules compare delete incomplete local remote =
     (if delete \<and> (compare = Content \<or> compare = Force) then
        fold (\<lambda>relative (records, l).
            (records @ [\<lparr>dp_relative = relative, dp_reason = ListingIncomplete,
                        dp_detail = listing_incomplete_detail\<rparr>],
             withhold relative
               (Deferred (defer_str ListingIncomplete @ '': '' @ listing_incomplete_detail)) l))
          (sorted_list_of_set (deletions_withheld_by_listing E local remote rules incomplete)) ([], local)
      else ([], local))"

definition populate_content_digests ::
  "text_env \<Rightarrow> hash_oracle \<Rightarrow> digest_nas \<Rightarrow> ignore_rules \<Rightarrow> bool \<Rightarrow> bool \<Rightarrow> string list
     \<Rightarrow> digest_state \<Rightarrow> digest_state res"
where
  "populate_content_digests E H N rules server_copy delete incomplete = (\<lambda>(records, local, remote).
     case dn_fingerprint_api N of
       Inl e \<Rightarrow> Inl e
     | Inr _ \<Rightarrow>
         let (comparison, strong) =
               select_plan_digests E local remote rules server_copy delete incomplete in
         (case populate_content_md5_selective_deferring H comparison local of
            Inl e \<Rightarrow> Inl e
          | Inr (failed_local, local1) \<Rightarrow>
              let failed = set (map fst failed_local);
                  (records1, local2) =
                    withhold_failures E local_failure_reason failed_local (records, local1) in
              (case populate_remote_content_digests_deferring E N (comparison - failed) (strong - failed)
                      remote of
                 Inl e \<Rightarrow> Inl e
               | Inr (failed_remote, remote1) \<Rightarrow>
                   let (records2, local3) =
                         withhold_failures E remote_digest_reason failed_remote (records1, local2) in
                   Inr (records2, local3, remote1))))"

definition populate_force_digests ::
  "text_env \<Rightarrow> digest_nas \<Rightarrow> ignore_rules \<Rightarrow> string list \<Rightarrow> digest_state \<Rightarrow> digest_state res"
where
  "populate_force_digests E N rules incomplete = (\<lambda>(records, local, remote).
     case dn_fingerprint_api N of
       Inl e \<Rightarrow> Inl e
     | Inr _ \<Rightarrow>
         (case populate_remote_content_fingerprints_deferring E N
                 (select_deletion_guard_hashes_excluding E local remote rules incomplete) remote of
            Inl e \<Rightarrow> Inl e
          | Inr (failed, remote1) \<Rightarrow>
              let (records1, local1) =
                    withhold_failures E remote_digest_reason failed (records, local) in
              Inr (records1, local1, remote1)))"

definition populate_plan_digests_with_listings ::
  "text_env \<Rightarrow> hash_oracle \<Rightarrow> digest_nas \<Rightarrow> ignore_rules \<Rightarrow> compare_mode \<Rightarrow> bool
     \<Rightarrow> bool \<Rightarrow> string list \<Rightarrow> local_inventory \<Rightarrow> remote_inventory \<Rightarrow> digest_state res"
where
  "populate_plan_digests_with_listings E H N rules compare server_copy delete incomplete
      local remote =
     (let (records, l) =
            withhold_listed_short E rules compare delete incomplete local remote in
      case compare of
        Content \<Rightarrow>
          populate_content_digests E H N rules server_copy delete incomplete (records, l, remote)
      | Force \<Rightarrow>
          if delete then populate_force_digests E N rules incomplete (records, l, remote)
          else Inr (records, l, remote)
      | _ \<Rightarrow> Inr (records, l, remote))"

definition populate_plan_digests ::
  "text_env \<Rightarrow> hash_oracle \<Rightarrow> digest_nas \<Rightarrow> ignore_rules \<Rightarrow> compare_mode \<Rightarrow> bool
     \<Rightarrow> bool \<Rightarrow> local_inventory \<Rightarrow> remote_inventory \<Rightarrow> digest_state res"
where
  "populate_plan_digests E H N rules compare server_copy delete local remote =
     populate_plan_digests_with_listings E H N rules compare server_copy delete []
       local remote"

section \<open>The spelling of the scope on the NAS\<close>

definition join_relative :: "string \<Rightarrow> string \<Rightarrow> string" where
  "join_relative parent name = (if parent = [] then name else parent @ slash # name)"

definition scope_listing_detail :: "text_env \<Rightarrow> string \<Rightarrow> string \<Rightarrow> string" where
  "scope_listing_detail E parent name =
     defer_str ListingIncomplete @ '': the NAS listing of ''
     @ debug_str E (if parent = [] then ''.'' else parent)
     @ '' was incomplete, so a differently spelled '' @ debug_str E name
     @ '' there cannot be ruled out; nothing was created''"

text \<open>The loop over the names of the scope; \<open>list_names\<close> lists one folder of the NAS.\<close>

fun check_scope_names ::
  "text_env \<Rightarrow> remote_root \<Rightarrow> remote_inventory \<Rightarrow> (string \<Rightarrow> (string list \<times> bool) res)
     \<Rightarrow> string \<Rightarrow> string list \<Rightarrow> local_inventory \<Rightarrow> local_inventory res"
where
  "check_scope_names E root remote list_names parent [] local = Inr local"
| "check_scope_names E root remote list_names parent (name # names) local =
     (let relative = join_relative parent name in
      if om_has (ri_entries remote) relative then
        check_scope_names E root remote list_names relative names local
      else
        (case root_join root parent of
           Inl e \<Rightarrow> Inl e
         | Inr path \<Rightarrow>
             (case list_names path of
                Inl e \<Rightarrow> Inl e
              | Inr (listed, complete) \<Rightarrow>
                  (case find (\<lambda>c. c \<noteq> name \<and> portable_fold E c = portable_fold E name) listed of
                     Some other \<Rightarrow>
                       Inr (withhold relative (RemoteCaseCollision (join_relative parent other)) local)
                   | None \<Rightarrow>
                       if complete then Inr local
                       else Inr (withhold relative
                              (Deferred (scope_listing_detail E parent name)) local)))))"

definition withhold_scope_spelling_conflicts ::
  "text_env \<Rightarrow> remote_root \<Rightarrow> scope \<Rightarrow> remote_inventory \<Rightarrow> (string \<Rightarrow> (string list \<times> bool) res)
     \<Rightarrow> local_inventory \<Rightarrow> local_inventory res"
where
  "withhold_scope_spelling_conflicts E root s remote list_names local =
     (if scope_is_root s \<or> \<not> ri_root_exists remote then Inr local
      else check_scope_names E root remote list_names [] (split_on slash (scope_str s)) local)"

section \<open>Paths a comma could turn into another path\<close>

text \<open>
  The entry before the first comma, when it exists: among the listed paths, or by asking the NAS,
  which the code does once for each such path.
\<close>

definition addressable ::
  "remote_inventory \<Rightarrow> (string \<Rightarrow> bool res) \<Rightarrow> string \<Rightarrow> string option res"
where
  "addressable remote entry_exists remote_path =
     (case comma_split_prefix remote_path of
        None \<Rightarrow> Inr None
      | Some pre \<Rightarrow>
          if pre \<in> set (map r_path (om_values (ri_entries remote))) then Inr (Some pre)
          else map_r (\<lambda>exists. if exists then Some pre else None) (entry_exists pre))"

definition comma_detail :: "text_env \<Rightarrow> string \<Rightarrow> string \<Rightarrow> string \<Rightarrow> string" where
  "comma_detail E remote_path pre what =
     debug_str E remote_path @ '' is not '' @ what @ '': the part before its first comma, ''
     @ debug_str E pre @ '', is an existing NAS entry, and until it is known how DSM parses a ''
     @ ''comma in a path list the request could address that entry instead''"

record comma_state =
  cm_deferred :: "deferred_path list"
  cm_ambiguous :: "string set"
  cm_above :: "string \<rightharpoonup> string"

definition comma_delete_step ::
  "text_env \<Rightarrow> (string \<Rightarrow> string option res) \<Rightarrow> comma_state \<Rightarrow> delete_action \<Rightarrow> comma_state res"
where
  "comma_delete_step E address st action =
     (case address (da_remote_path action) of
        Inl e \<Rightarrow> Inl e
      | Inr None \<Rightarrow> Inr st
      | Inr (Some pre) \<Rightarrow>
          Inr \<lparr>cm_deferred = cm_deferred st @
                 [\<lparr>dp_relative = da_relative action, dp_reason = RemoteSkipped,
                   dp_detail = comma_detail E (da_remote_path action) pre ''deleted''\<rparr>],
               cm_ambiguous = insert (da_relative action) (cm_ambiguous st),
               cm_above = fold (\<lambda>folder m. case m folder of
                   None \<Rightarrow> m(folder \<mapsto> da_relative action) | Some _ \<Rightarrow> m)
                 (ancestors (da_relative action)) (cm_above st)\<rparr>)"

definition comma_keeps :: "comma_state \<Rightarrow> delete_action \<Rightarrow> bool" where
  "comma_keeps st action =
     (da_relative action \<notin> cm_ambiguous st \<and> cm_above st (da_relative action) = None)"

definition comma_record :: "text_env \<Rightarrow> comma_state \<Rightarrow> delete_action \<Rightarrow> deferred_path option" where
  "comma_record E st action =
     (if da_relative action \<in> cm_ambiguous st then None
      else
        map_option (\<lambda>under.
          \<lparr>dp_relative = da_relative action, dp_reason = RemoteSkipped,
           dp_detail = ''kept because '' @ debug_str E under
             @ '' beneath it is not deleted until it is known how DSM ''
             @ ''parses a comma in a path list''\<rparr>)
          (cm_above st (da_relative action)))"

definition comma_withhold_deletions ::
  "text_env \<Rightarrow> comma_state \<Rightarrow> sync_plan \<Rightarrow> deferred_path list \<times> sync_plan"
where
  "comma_withhold_deletions E st plan =
     (if cm_ambiguous st = {} then (cm_deferred st, plan)
      else
        let named = cm_deferred st
              @ List.map_filter (comma_record E st) (sp_post_deletes plan)
              @ List.map_filter (comma_record E st) (sp_pre_deletes plan);
            withheld = map da_relative (filter (\<lambda>d. \<not> comma_keeps st d) (sp_pre_deletes plan));
            p = plan\<lparr>sp_post_deletes := filter (comma_keeps st) (sp_post_deletes plan),
                     sp_pre_deletes := filter (comma_keeps st) (sp_pre_deletes plan)\<rparr> in
        (named,
         if withheld = [] then p
         else
           (drop_replacements withheld p)\<lparr>sp_upload_bytes :=
              fold (\<lambda>u acc. if replaced_by withheld (l_relative (ua_local u))
                            then u64_sat_sub acc (l_size (ua_local u)) else acc)
                (sp_uploads p) (sp_upload_bytes p)\<rparr>))"

definition comma_rename_step ::
  "text_env \<Rightarrow> (string \<Rightarrow> string option res) \<Rightarrow> deferred_path list \<times> rename_action list
     \<Rightarrow> rename_action \<Rightarrow> (deferred_path list \<times> rename_action list) res"
where
  "comma_rename_step E address = (\<lambda>(records, kept) action.
     map_r (\<lambda>found.
       case found of
         Some pre \<Rightarrow>
           (records @ [\<lparr>dp_relative = ra_relative action, dp_reason = RemoteSkipped,
              dp_detail = comma_detail E (ra_from_remote_path action) pre ''renamed''\<rparr>], kept)
       | None \<Rightarrow> (records, kept @ [action]))
       (address (ra_from_remote_path action)))"

definition upload_of_copy :: "copy_action \<Rightarrow> upload_action" where
  "upload_of_copy c =
     \<lparr>ua_local = cp_local c, ua_remote_path = cp_to_remote_path c, ua_reason = MissingRemote,
      ua_expected = None\<rparr>"

definition comma_copy_step ::
  "(string \<Rightarrow> string option res) \<Rightarrow> sync_plan \<times> copy_action list \<Rightarrow> copy_action
     \<Rightarrow> (sync_plan \<times> copy_action list) res"
where
  "comma_copy_step address = (\<lambda>(plan, kept) action.
     map_r (\<lambda>found.
       if found \<noteq> None then
         (plan\<lparr>sp_upload_bytes := u64_sat_add (sp_upload_bytes plan) (l_size (cp_local action)),
               sp_uploads := sp_uploads plan @ [upload_of_copy action]\<rparr>, kept)
       else (plan, kept @ [action]))
       (address (cp_from_remote_path action)))"

definition withhold_comma_ambiguous_mutations ::
  "text_env \<Rightarrow> (string \<Rightarrow> bool res) \<Rightarrow> remote_inventory \<Rightarrow> sync_plan
     \<Rightarrow> (deferred_path list \<times> sync_plan) res"
where
  "withhold_comma_ambiguous_mutations E entry_exists remote plan =
     (let address = addressable remote entry_exists in
      case fold_r (comma_delete_step E address)
             \<lparr>cm_deferred = [], cm_ambiguous = {}, cm_above = Map.empty\<rparr>
             (sp_pre_deletes plan @ sp_post_deletes plan) of
        Inl e \<Rightarrow> Inl e
      | Inr st \<Rightarrow>
          let (records, p) = comma_withhold_deletions E st plan in
          (case fold_r (comma_rename_step E address) (records, []) (sp_renames p) of
             Inl e \<Rightarrow> Inl e
           | Inr (records1, renames) \<Rightarrow>
               (case fold_r (comma_copy_step address) (p\<lparr>sp_renames := renames\<rparr>, []) (sp_copies p) of
                  Inl e \<Rightarrow> Inl e
                | Inr (q, copies) \<Rightarrow> Inr (records1, q\<lparr>sp_copies := copies\<rparr>))))"

section \<open>Links almost everywhere\<close>

fun join_comma :: "string list \<Rightarrow> string" where
  "join_comma [] = []"
| "join_comma [w] = w"
| "join_comma (w # v # ws) = w @ '', '' @ join_comma (v # ws)"

definition shown_folders :: "string list \<Rightarrow> string" where
  "shown_folders folders =
     (let shown = join_comma (take 10 folders) in
      if 10 < length folders then shown @ '', ...'' else shown)"

definition entries_mounted :: "string \<Rightarrow> entry_kind \<Rightarrow> remote_inventory \<Rightarrow> string list" where
  "entries_mounted mount_type kind remote =
     map r_relative (filter (\<lambda>e. r_mount e = Some mount_type \<and> r_kind e = kind)
       (om_values (ri_entries remote)))"

definition mostly :: "nat \<Rightarrow> nat \<Rightarrow> bool" where
  "mostly found checked = (3 \<le> found \<and> checked < found * 2)"

definition real_path_unusable :: "string \<Rightarrow> nat \<Rightarrow> nat \<Rightarrow> string list \<Rightarrow> error" where
  "real_path_unusable kind linked checked sample =
     (let shown = take refusal_sample sample in
      RemoteRealPathUnusable kind linked checked shown (linked - length shown))"

definition check_link_boundaries :: "remote_inventory \<Rightarrow> link_check_counts \<Rightarrow> unit res" where
  "check_link_boundaries remote links =
     (let folders = length (filter (\<lambda>e. r_kind e = Directory) (om_values (ri_entries remote)));
          unlistable = entries_mounted unlistable_entry_mount_type Directory remote in
      if mostly (length unlistable) folders then
        Inl (Message (''the NAS refuses to list '' @ show_nat (length unlistable) @ '' of the ''
          @ show_nat folders
          @ '' folders found to this account, so its rights on the share rather than these folders ''
          @ ''are the likely problem; nothing was synced. Folders: '' @ shown_folders unlistable))
      else if mostly (lk_folders_linked links) (lk_folders_checked links) then
        Inl (real_path_unusable ''folders'' (lk_folders_linked links) (lk_folders_checked links)
          (entries_mounted linked_entry_mount_type Directory remote))
      else if mostly (lk_files_linked links) (lk_files_checked links) then
        Inl (real_path_unusable ''files'' (lk_files_linked links) (lk_files_checked links)
          (entries_mounted linked_entry_mount_type File remote))
      else Inr ())"

end
