(* ===== verification/DigestPool.thy ===== *)
theory DigestPool
  imports RemoteDigests
begin

text \<open>
  The pool of workers that drains one batch of MD5 tasks (\<open>remote_content_md5_batch\<close> of
  \<open>src/api.rs\<close>), as a machine whose steps are the moves of the workers in any order, and the
  proof that the order does not matter: the pool answers what one worker alone would.
\<close>

section \<open>The machine\<close>

text \<open>
  The state the workers share: how many are at the head of their loop, how many have passed the
  check there and not yet taken an index, the cursor, the indices in flight, the collected slots, the
  first error, whether the batch was stopped, and whether the run's own token was cancelled. The
  calling thread is one of the workers; some of the helpers may not have been spawned.
\<close>

record md5_pool =
  po_idle :: nat
  po_checked :: nat
  po_cursor :: nat
  po_flight :: "nat list"
  po_slots :: "nat \<rightharpoonup> fingerprint res"
  po_error :: "error option"
  po_stopped :: bool
  po_outer :: bool

definition pool_start :: "string list \<Rightarrow> nat \<Rightarrow> md5_pool" where
  "pool_start batch spawned =
     \<lparr>po_idle = Suc (min spawned (min remote_md5_concurrency (length batch) - 1)), po_checked = 0,
      po_cursor = 0, po_flight = [], po_slots = Map.empty, po_error = None, po_stopped = False,
      po_outer = False\<rparr>"

text \<open>
  A worker passes the check at the head of its loop, or leaves because the batch is cancelled; takes
  the next index, which may be past the end; the request of an index answers; a request in flight
  sees the cancellation and gives up; the user cancels the run.
\<close>

datatype pool_event = Check | Leave | Claim | Answer nat | GiveUp nat | CancelRun

definition report_first :: "error \<Rightarrow> md5_pool \<Rightarrow> md5_pool" where
  "report_first e p =
     p\<lparr>po_error := (case po_error p of None \<Rightarrow> Some e | Some first \<Rightarrow> Some first),
       po_stopped := True\<rparr>"

definition batch_cancelled :: "md5_pool \<Rightarrow> bool" where
  "batch_cancelled p = (po_stopped p \<or> po_outer p)"

fun pool_step ::
  "text_env \<Rightarrow> digest_nas \<Rightarrow> digest_failure \<Rightarrow> string list \<Rightarrow> md5_pool \<Rightarrow> pool_event
     \<Rightarrow> unit + md5_pool"
where
  "pool_step E N failure batch p Check =
     (if po_idle p = 0 \<or> batch_cancelled p then Inl ()
      else Inr (p\<lparr>po_idle := po_idle p - 1, po_checked := po_checked p + 1\<rparr>))"
| "pool_step E N failure batch p Leave =
     (if po_idle p = 0 \<or> \<not> batch_cancelled p then Inl ()
      else Inr (p\<lparr>po_idle := po_idle p - 1\<rparr>))"
| "pool_step E N failure batch p Claim =
     (if po_checked p = 0 then Inl ()
      else
        Inr (p\<lparr>po_checked := po_checked p - 1, po_cursor := po_cursor p + 1,
               po_flight := (if po_cursor p < length batch then po_flight p @ [po_cursor p]
                             else po_flight p)\<rparr>))"
| "pool_step E N failure batch p (Answer i) =
     (if i \<notin> set (po_flight p) then Inl ()
      else
        let q = p\<lparr>po_flight := removeAll i (po_flight p)\<rparr> in
        if digest_fatal N failure (dn_md5 N (batch ! i)) then
          (case named_digest E N (batch ! i) of
             Inl e \<Rightarrow> Inr (report_first e q)
           | Inr _ \<Rightarrow> Inr (q\<lparr>po_stopped := True\<rparr>))
        else
          Inr (q\<lparr>po_slots := (po_slots q)(i \<mapsto> named_digest E N (batch ! i)), po_idle := po_idle q + 1\<rparr>))"
| "pool_step E N failure batch p (GiveUp i) =
     (if i \<notin> set (po_flight p) \<or> \<not> batch_cancelled p then Inl ()
      else
        let q = p\<lparr>po_flight := removeAll i (po_flight p)\<rparr> in
        Inr (if po_outer p then report_first Cancelled q else q))"
| "pool_step E N failure batch p CancelRun = Inr (p\<lparr>po_outer := True\<rparr>)"

text \<open>Every worker has returned.\<close>

definition pool_complete :: "md5_pool \<Rightarrow> bool" where
  "pool_complete p = (po_idle p = 0 \<and> po_checked p = 0 \<and> po_flight p = [])"

definition pool_result :: "string list \<Rightarrow> md5_pool \<Rightarrow> fingerprint res list res" where
  "pool_result batch p =
     (case po_error p of
        Some e \<Rightarrow> Inl e
      | None \<Rightarrow>
          if po_outer p then Inl Cancelled
          else
            collect (\<lambda>i. case po_slots p i of
                Some digest \<Rightarrow> Inr digest
              | None \<Rightarrow> Inl (Message
                  ''remote MD5 batch finished without a digest for every selected file''))
              [0..<length batch])"

section \<open>What every reachable state satisfies\<close>

definition fatal_at :: "digest_nas \<Rightarrow> digest_failure \<Rightarrow> string list \<Rightarrow> nat \<Rightarrow> bool" where
  "fatal_at N failure batch i = digest_fatal N failure (dn_md5 N (batch ! i))"

text \<open>
  Unless the run was cancelled: what is in flight was claimed; a slot holds the digest of its own
  file; a reported error is that of a file whose failure ends the batch. Until the batch is stopped
  every claimed index is in flight or has its slot, and the last worker leaves at the end alone.
\<close>

definition pool_inv ::
  "text_env \<Rightarrow> digest_nas \<Rightarrow> digest_failure \<Rightarrow> string list \<Rightarrow> md5_pool \<Rightarrow> bool"
where
  "pool_inv E N failure batch p =
     (po_outer p \<or>
       ((\<forall>i \<in> set (po_flight p). i < po_cursor p \<and> i < length batch) \<and>
        (\<forall>i r. po_slots p i = Some r \<longrightarrow>
           i < length batch \<and> \<not> fatal_at N failure batch i \<and> r = named_digest E N (batch ! i)) \<and>
        (\<forall>e. po_error p = Some e \<longrightarrow>
           (\<exists>i < length batch. fatal_at N failure batch i \<and> named_digest E N (batch ! i) = Inl e)) \<and>
        (po_stopped p \<longleftrightarrow> po_error p \<noteq> None) \<and>
        (\<not> po_stopped p \<longrightarrow>
           (\<forall>i. i < po_cursor p \<longrightarrow> i < length batch \<longrightarrow> i \<in> set (po_flight p) \<or> po_slots p i \<noteq> None)) \<and>
        (\<not> po_stopped p \<longrightarrow> \<not> pool_complete p \<or> length batch \<le> po_cursor p)))"

lemma fatal_named:
  "digest_fatal N failure (dn_md5 N path) \<Longrightarrow> \<exists>e. named_digest E N path = Inl e"
  by (auto simp: digest_fatal_def named_digest_def split: sum.splits)

lemma check_keeps:
  "pool_inv E N failure batch p \<Longrightarrow> pool_step E N failure batch p Check = Inr q \<Longrightarrow> pool_inv E N failure batch q"
  by (auto simp: pool_inv_def pool_complete_def split: if_splits)

lemma leave_keeps:
  "pool_inv E N failure batch p \<Longrightarrow> pool_step E N failure batch p Leave = Inr q \<Longrightarrow> pool_inv E N failure batch q"
  by (auto simp: pool_inv_def pool_complete_def batch_cancelled_def split: if_splits)

lemma claim_keeps:
  assumes I: "pool_inv E N failure batch p"
    and step: "pool_step E N failure batch p Claim = Inr q"
  shows "pool_inv E N failure batch q"
proof (cases "po_cursor p < length batch")
  case True
  with step have "q = p\<lparr>po_checked := po_checked p - 1, po_cursor := po_cursor p + 1,
                 po_flight := po_flight p @ [po_cursor p]\<rparr>"
    by (auto split: if_splits)
  with True I show ?thesis
    by (auto simp: pool_inv_def pool_complete_def less_Suc_eq)
next
  case False
  with step have "q = p\<lparr>po_checked := po_checked p - 1, po_cursor := po_cursor p + 1\<rparr>"
    by (auto split: if_splits)
  moreover have "(i < Suc (po_cursor p) \<longrightarrow> i < length batch \<longrightarrow> P) \<longleftrightarrow> (i < po_cursor p \<longrightarrow> i < length batch \<longrightarrow> P)" for i P
    using False by auto
  ultimately show ?thesis
    using False I by (auto simp: pool_inv_def pool_complete_def simp del: not_None_eq)
qed

lemma answer_keeps:
  assumes I: "pool_inv E N failure batch p"
    and step: "pool_step E N failure batch p (Answer i) = Inr q"
  shows "pool_inv E N failure batch q"
proof (cases "po_outer p")
  case True
  with step show ?thesis
    by (auto simp: pool_inv_def Let_def report_first_def split: if_splits sum.splits)
next
  case False
  have i: "i \<in> set (po_flight p)" "i < length batch"
    using I step False by (auto simp: pool_inv_def split: if_splits)
  show ?thesis
  proof (cases "fatal_at N failure batch i")
    case True
    then obtain e where e: "named_digest E N (batch ! i) = Inl e"
      using fatal_named fatal_at_def by blast
    then have q: "q = report_first e (p\<lparr>po_flight := removeAll i (po_flight p)\<rparr>)"
      using step True i by (simp add: fatal_at_def Let_def)
    have "\<exists>j < length batch. fatal_at N failure batch j \<and> named_digest E N (batch ! j) = Inl e"
      using True i e by blast
    then show ?thesis
      using I False unfolding q pool_inv_def report_first_def by (auto split: option.splits)
  next
    case good: False
    then have "q = p\<lparr>po_flight := removeAll i (po_flight p),
                     po_slots := (po_slots p)(i \<mapsto> named_digest E N (batch ! i)), po_idle := po_idle p + 1\<rparr>"
      using step i by (simp add: fatal_at_def Let_def)
    with I False good i show ?thesis
      by (auto simp: pool_inv_def pool_complete_def)
  qed
qed

lemma give_up_keeps:
  "pool_inv E N failure batch p \<Longrightarrow> pool_step E N failure batch p (GiveUp i) = Inr q \<Longrightarrow>
   pool_inv E N failure batch q"
  by (auto simp: pool_inv_def Let_def report_first_def batch_cancelled_def split: if_splits option.splits)

interpretation pool: loop_body "pool_step E N failure batch" "pool_inv E N failure batch" "\<lambda>_. True"
  for E N failure batch
proof
  fix p q ev
  assume "pool_inv E N failure batch p" "pool_step E N failure batch p ev = Inr q"
  then show "pool_inv E N failure batch q"
  proof (cases ev)
    case CancelRun
    with \<open>pool_step E N failure batch p ev = Inr q\<close> show ?thesis
      by (auto simp: pool_inv_def)
  qed (blast intro: check_keeps leave_keeps claim_keeps answer_keeps give_up_keeps)+
qed

lemma pool_run_inv:
  "fold_r (pool_step E N failure batch) (pool_start batch spawned) events = Inr p \<Longrightarrow> pool_inv E N failure batch p"
  by (rule pool.fold_keeps [of _ _ _ _ "pool_start batch spawned"])
    (auto simp: pool_inv_def pool_start_def pool_complete_def list_all_iff)

section \<open>Every schedule ends\<close>

text \<open>What is left of a batch: every step lowers it but the cancellation of the run, and some step is
  possible as long as a worker is left.\<close>

definition pool_work :: "string list \<Rightarrow> md5_pool \<Rightarrow> nat" where
  "pool_work batch p =
     4 * (length batch - po_cursor p) + 3 * length (po_flight p) + po_checked p + 2 * po_idle p"

lemma removed_shorter: "i \<in> set xs \<Longrightarrow> length (removeAll i xs) < length xs"
  by (induction xs) (auto simp: le_imp_less_Suc less_imp_le)

lemma step_lowers_work:
  assumes "pool_step E N failure batch p ev = Inr q"
  shows "pool_work batch q + (if ev = CancelRun then 0 else 1) \<le> pool_work batch p"
proof (cases ev)
  case (Answer i)
  with assms removed_shorter [of i "po_flight p"] show ?thesis
    by (auto simp: pool_work_def report_first_def Let_def split: if_splits sum.splits)
next
  case (GiveUp i)
  with assms removed_shorter [of i "po_flight p"] show ?thesis
    by (auto simp: pool_work_def report_first_def Let_def split: if_splits)
qed (use assms in \<open>auto simp: pool_work_def split: if_splits\<close>)

lemma schedules_are_bounded:
  "fold_r (pool_step E N failure batch) p events = Inr q \<Longrightarrow>
     length (filter (\<lambda>ev. ev \<noteq> CancelRun) events) \<le> pool_work batch p"
proof (induction events arbitrary: p)
  case (Cons ev events)
  then obtain p1 where "pool_step E N failure batch p ev = Inr p1" "fold_r (pool_step E N failure batch) p1 events = Inr q"
    by auto
  with Cons.IH step_lowers_work [of E N failure batch p ev p1] show ?case by (fastforce split: if_splits)
qed simp

lemma pool_goes_on:
  assumes "\<not> pool_complete p"
  shows "\<exists>ev q. ev \<noteq> CancelRun \<and> pool_step E N failure batch p ev = Inr q"
proof -
  consider "po_idle p \<noteq> 0" | "po_checked p \<noteq> 0" | i where "i \<in> set (po_flight p)"
    using assms by (cases "po_flight p") (auto simp: pool_complete_def)
  then show ?thesis
  proof cases
    case 1
    then have "pool_step E N failure batch p (if batch_cancelled p then Leave else Check) \<noteq> Inl ()"
      by simp
    then show ?thesis
      by (metis (full_types) pool_event.distinct(9,17) old.sum.exhaust old.unit.exhaust)
  next
    case 2
    then have "\<exists>q. pool_step E N failure batch p Claim = Inr q" by simp
    then show ?thesis by blast
  next
    case 3
    then have "\<exists>q. pool_step E N failure batch p (Answer i) = Inr q"
      by (simp add: Let_def split: sum.split)
    then show ?thesis by blast
  qed
qed

section \<open>The order does not matter\<close>

lemma batch_all:
  "(\<forall>path \<in> set paths. \<not> digest_fatal N failure (dn_md5 N path)) \<Longrightarrow>
   remote_content_md5_batch E N failure paths = Inr (map (named_digest E N) paths)"
  unfolding remote_content_md5_batch_def
  by (induction paths) (auto simp: drain_one_def)

lemma batch_fails:
  assumes "path \<in> set paths" and "digest_fatal N failure (dn_md5 N path)"
  shows "\<exists>e. remote_content_md5_batch E N failure paths = Inl e"
proof -
  obtain e where "named_digest E N path = Inl e"
    using fatal_named [OF assms(2)] by blast
  then have "drain_one E N failure path = Inl e"
    using assms(2) by (simp add: drain_one_def)
  with assms(1) show ?thesis
    unfolding remote_content_md5_batch_def collect_Inl_iff by blast
qed

lemma complete_slots:
  assumes "pool_inv E N failure batch p" and "pool_complete p"
    and "po_error p = None" and "\<not> po_outer p"
  shows "\<forall>i < length batch. po_slots p i = Some (named_digest E N (batch ! i))
           \<and> \<not> fatal_at N failure batch i"
proof (intro allI impI)
  fix i assume i: "i < length batch"
  then have "po_slots p i \<noteq> None"
    using assms by (force simp: pool_inv_def pool_complete_def)
  then obtain r where "po_slots p i = Some r"
    by blast
  then show "po_slots p i = Some (named_digest E N (batch ! i)) \<and> \<not> fatal_at N failure batch i"
    using assms(1,4) by (auto simp: pool_inv_def)
qed

text \<open>
  C23. However the workers of a batch interleave and however many helpers were spawned, when all of
  them have returned and the run was not cancelled, either the batch has exactly the digests that one
  worker alone produces, in the order of the batch, or that worker would fail too and the batch fails
  with the named error of a file whose failure ends the pass; which of several such files it names is
  up to the schedule. When the run was cancelled the batch fails.
\<close>

theorem pool_schedule_irrelevant:
  assumes run: "fold_r (pool_step E N failure batch) (pool_start batch spawned) events = Inr p"
    and complete: "pool_complete p"
  shows "if po_outer p then \<exists>e. pool_result batch p = Inl e
     else (\<exists>digests. remote_content_md5_batch E N failure batch = Inr digests
            \<and> pool_result batch p = Inr digests)
       \<or> (\<exists>e path. (\<exists>e'. remote_content_md5_batch E N failure batch = Inl e')
            \<and> path \<in> set batch \<and> digest_fatal N failure (dn_md5 N path)
            \<and> named_digest E N path = Inl e \<and> pool_result batch p = Inl e)"
proof (cases "po_outer p")
  case True
  then show ?thesis by (simp add: pool_result_def split: option.split)
next
  case live: False
  show ?thesis
  proof (cases "po_error p")
    case None
    then have slots: "\<forall>i < length batch. po_slots p i = Some (named_digest E N (batch ! i))
        \<and> \<not> fatal_at N failure batch i"
      using complete_slots [OF pool_run_inv [OF run] complete] live by blast
    then have "remote_content_md5_batch E N failure batch = Inr (map (named_digest E N) batch)"
      by (intro batch_all) (auto simp: in_set_conv_nth fatal_at_def)
    moreover have "pool_result batch p = Inr (map (named_digest E N) batch)"
      using slots None live
      by (auto simp: pool_result_def collect_Inr_iff list_all2_conv_all_nth)
    ultimately show ?thesis using live by simp
  next
    case (Some e)
    then obtain i where i: "i < length batch" "fatal_at N failure batch i"
        "named_digest E N (batch ! i) = Inl e"
      using pool_run_inv [OF run] live by (auto simp: pool_inv_def)
    then have "batch ! i \<in> set batch" "digest_fatal N failure (dn_md5 N (batch ! i))"
      by (simp_all add: fatal_at_def)
    moreover have "pool_result batch p = Inl e"
      using Some by (simp add: pool_result_def)
    moreover have "\<exists>e'. remote_content_md5_batch E N failure batch = Inl e'"
      using batch_fails calculation(1,2) by blast
    ultimately show ?thesis
      using live i(3) by auto
  qed
qed

text \<open>
  Two files answered in the other order, and a worker that takes an index after the other stopped the
  batch: it passed the check before.
\<close>

definition pool_demo_nas :: digest_nas where
  "pool_demo_nas =
     \<lparr>dn_content_api = Inr (), dn_fingerprint_api = Inr (),
      dn_md5 = (\<lambda>path. if path = ''/d/gone'' then Inl (Api ''SYNO.FileStation.MD5'' ''start'' 408 [])
                       else if path = ''/d/lost'' then Inl (Api ''SYNO.FileStation.MD5'' ''start'' 106 [])
                       else Inr (Fingerprint [7] None)),
      dn_fingerprint = (\<lambda>_ _. Inr (Fingerprint [7] None)), dn_alive = True,
      dn_cancelled = (\<lambda>_. False)\<rparr>"

definition pool_demo_run :: "unit + md5_pool" where
  "pool_demo_run =
     fold_r (pool_step plain_env pool_demo_nas DeferFile [''/d/gone'', ''/d/kept''])
       (pool_start [''/d/gone'', ''/d/kept''] 1)
       [Check, Check, Claim, Claim, Answer 1, Answer 0, Check, Claim, Check, Claim]"

definition pool_late_claim :: "unit + md5_pool" where
  "pool_late_claim =
     fold_r (pool_step plain_env pool_demo_nas DeferFile [''/d/lost'', ''/d/kept''])
       (pool_start [''/d/lost'', ''/d/kept''] 1) [Check, Check, Claim, Answer 0, Claim, GiveUp 1]"

theorem late_claim_allowed:
  "map_r (\<lambda>p. (pool_complete p, po_cursor p, pool_result [''/d/lost'', ''/d/kept''] p)) pool_late_claim
     = Inr (True, 2, Inl (naming_remote_file plain_env (Api ''SYNO.FileStation.MD5'' ''start'' 106 []) ''/d/lost''))"
  by code_simp

lemma pool_schedule_irrelevant_witness:
  "pool_demo_run = Inr (projr pool_demo_run) \<and>
   ((\<exists>digests. remote_content_md5_batch plain_env pool_demo_nas DeferFile [''/d/gone'', ''/d/kept'']
        = Inr digests \<and> pool_result [''/d/gone'', ''/d/kept''] (projr pool_demo_run) = Inr digests)
    \<or> (\<exists>e path. (\<exists>e'. remote_content_md5_batch plain_env pool_demo_nas DeferFile
          [''/d/gone'', ''/d/kept''] = Inl e')
        \<and> path \<in> set [''/d/gone'', ''/d/kept'']
        \<and> digest_fatal pool_demo_nas DeferFile (dn_md5 pool_demo_nas path)
        \<and> named_digest plain_env pool_demo_nas path = Inl e
        \<and> pool_result [''/d/gone'', ''/d/kept''] (projr pool_demo_run) = Inl e))"
proof -
  let ?done = "\<lambda>p. (pool_complete p, po_outer p)"
  have e: "map_r ?done pool_demo_run = Inr (True, False)"
    by code_simp
  have run: "pool_demo_run = Inr (projr pool_demo_run)"
    and fin: "?done (projr pool_demo_run) = (True, False)"
    using map_r_result [OF e] by blast+
  have complete: "pool_complete (projr pool_demo_run)"
    and live: "\<not> po_outer (projr pool_demo_run)"
    using fin by simp_all
  have "fold_r (pool_step plain_env pool_demo_nas DeferFile [''/d/gone'', ''/d/kept''])
      (pool_start [''/d/gone'', ''/d/kept''] 1)
      [Check, Check, Claim, Claim, Answer 1, Answer 0, Check, Claim, Check, Claim] = Inr (projr pool_demo_run)"
    by (subst pool_demo_run_def [symmetric]) (rule run)
  from pool_schedule_irrelevant [OF this complete] live run show ?thesis
    by (simp only: if_False)
qed

end
