(* ===== verification/FilterFacts.thy ===== *)
theory FilterFacts
  imports PlanFilters Demo
begin

text \<open>
  What the filters between planning and execution leave of a plan: after a deferral, after the
  remote entries the walk does not carry, and the names the deferrals get.
\<close>

section \<open>What a deferral takes with it\<close>

text \<open>A mirror deletion depends on a deferred path by its copy's file or by its spelling.\<close>

definition depends_on_deferred :: "text_env \<Rightarrow> string set \<Rightarrow> delete_action \<Rightarrow> bool" where
  "depends_on_deferred E paths d =
     ((case da_guard d of
         None \<Rightarrow> False
       | Some g \<Rightarrow> \<exists>p \<in> paths. at_or_beneath p (l_relative (dg_local g)))
      \<or> (\<exists>p \<in> paths. folds_related E (da_relative d) p))"

lemma depends_on_none [simp]: "\<not> depends_on_deferred E {} d"
  by (simp add: depends_on_deferred_def split: option.splits)










section \<open>The bytes of a plan after a deferral\<close>

text \<open>
  A plan counts in its upload bytes the uploads alone, a server copy transfers nothing. The
  filter that takes deferred paths out recomputes them over the uploads and the copies: a deferral
  of an unrelated path leaves every upload and copy of the plan below and raises its bytes from
  3 to 7.
\<close>

theorem deferral_counts_copies_as_uploads:
  "sp_upload_bytes move_result = 3 \<and>
   (let q = snd (remove_deferred_from_plan plain_env
        (snd (ix_insert plain_env ''other'' SourceChanged ix_empty)) move_result) in
    length (sp_uploads q) = length (sp_uploads move_result)
    \<and> length (sp_copies q) = length (sp_copies move_result) \<and> sp_upload_bytes q = 7)"
proof -
  let ?q = "\<lambda>plan. snd (remove_deferred_from_plan plain_env
        (snd (ix_insert plain_env ''other'' SourceChanged ix_empty)) plan)"
  have "map_r (\<lambda>plan. (sp_upload_bytes plan, sp_upload_bytes (?q plan),
      length (sp_uploads (?q plan)) = length (sp_uploads plan),
      length (sp_copies (?q plan)) = length (sp_copies plan))) move_plan = Inr (3, 7, True, True)"
    by code_simp
  note r = map_r_result [OF this, folded move_result_def]
  show ?thesis
    using r(2) by (simp add: Let_def)
qed

end
