(* ===== verification/SkipFacts.thy ===== *)
theory SkipFacts
  imports FilterFacts
begin

text \<open>
  The entries the remote walk does not carry, and the tags by which a plan names its deferrals:
  what the filters of \<open>src/sync.rs\<close> guarantee about them.
\<close>

section \<open>Folders above an entry that is not carried\<close>











section \<open>Tags\<close>

lemma tagged_reason_str:
  "tagged_reason all_reasons (defer_str r @ CHR '':'' # cause) = Some (r, trim_start cause)"
  by (cases r) (simp_all add: all_reasons_def)

lemma trim_start_space: "trim_start (CHR '' '' # s) = trim_start s"
proof -
  have "find (\<lambda>w. prefix w (CHR '' '' # s)) whitespace = Some [CHR '' '']"
    by (simp add: whitespace_def char_of_def bit_0)
  then show ?thesis
    by (simp add: trim_start_def ws_ahead_def)
qed

lemma transient_tag:
  "skip_is_transient_deferral (skipped p (Deferred (defer_str r @ CHR '':'' # cause))) \<longleftrightarrow> \<not> is_lasting r"
  by (cases r) (simp_all add: skip_is_transient_deferral_def skipped_def all_reasons_def)

definition skip_of_record :: "deferred_path \<Rightarrow> skipped_entry" where
  "skip_of_record r =
     skipped (dp_relative r) (Deferred (defer_str (dp_reason r) @ '': '' @ dp_detail r))"

lemma deferral_of_record:
  "trim_start (dp_detail r) = dp_detail r \<Longrightarrow> deferral_of_skip (skip_of_record r) = Some r"
  using tagged_reason_str [of "dp_reason r" "CHR '' '' # dp_detail r"]
  by (simp add: deferral_of_skip_def skip_of_record_def skipped_def trim_start_space)

lemma record_fold:
  "distinct (map dp_relative ds) \<Longrightarrow> named \<inter> set (map dp_relative ds) = {} \<Longrightarrow>
   snd (fold record_step ds (named, added)) = added @ map skip_of_record ds"
proof (induction ds arbitrary: named added)
  case Nil
  then show ?case by simp
next
  case (Cons r ds)
  then show ?case
    using Cons.IH [of "insert (dp_relative r) named" "added @ [skip_of_record r]"]
    by (simp add: record_step_def skip_of_record_def)
qed

lemma record_skips:
  assumes "distinct (map dp_relative ds)"
    and "set (map sk_relative (sp_skipped plan)) \<inter> set (map dp_relative ds) = {}"
  shows "set (sp_skipped (record_deferrals_in_plan ds plan))
    = set (sp_skipped plan) \<union> skip_of_record ` set ds"
  using record_fold [OF assms, of "[]"]
  by (auto simp: record_deferrals_in_plan_def Let_def split: prod.splits)

lemma read_back_set:
  "set (deferrals_in_plan_skips plan []) = {r. \<exists>s \<in> set (sp_skipped plan). deferral_of_skip s = Some r}"
  by (force simp: deferrals_in_plan_skips_def List.map_filter_def)

text \<open>
  The deferrals a plan records read back from it: a plan that had no entry for their paths
  names afterwards exactly the deferrals it named before and these, each with its reason and its
  cause, and the tag alone tells whether a deferral is lasting.
\<close>

theorem recorded_deferrals_read_back:
  assumes distinct: "distinct (map dp_relative ds)"
    and fresh: "set (map sk_relative (sp_skipped plan)) \<inter> set (map dp_relative ds) = {}"
    and trimmed: "\<forall>r \<in> set ds. trim_start (dp_detail r) = dp_detail r"
  shows "set (deferrals_in_plan_skips (record_deferrals_in_plan ds plan) [])
      = set (deferrals_in_plan_skips plan []) \<union> set ds
    \<and> (\<forall>r \<in> set ds. \<exists>s \<in> set (sp_skipped (record_deferrals_in_plan ds plan)).
         sk_relative s = dp_relative r \<and> skip_is_transient_deferral s = (\<not> is_lasting (dp_reason r)))"
proof -
  have skips: "set (sp_skipped (record_deferrals_in_plan ds plan))
      = set (sp_skipped plan) \<union> skip_of_record ` set ds"
    by (rule record_skips [OF distinct fresh])
  have "\<forall>r \<in> set ds. deferral_of_skip (skip_of_record r) = Some r"
    using trimmed deferral_of_record by blast
  then have one: "set (deferrals_in_plan_skips (record_deferrals_in_plan ds plan) [])
      = set (deferrals_in_plan_skips plan []) \<union> set ds"
    unfolding read_back_set skips by force
  have "sk_relative (skip_of_record r) = dp_relative r \<and>
      skip_is_transient_deferral (skip_of_record r) = (\<not> is_lasting (dp_reason r))" for r
    using transient_tag [of "dp_relative r" "dp_reason r" "CHR '' '' # dp_detail r"]
    by (simp add: skip_of_record_def) (simp add: skipped_def)
  with one skips show ?thesis by blast
qed

theorem recorded_deferrals_read_back_witness:
  "set (deferrals_in_plan_skips (record_deferrals_in_plan
     [\<lparr>dp_relative = ''new/f'', dp_reason = SourceChanged, dp_detail = ''changed''\<rparr>] move_result) [])
   = set (deferrals_in_plan_skips move_result [])
     \<union> {\<lparr>dp_relative = ''new/f'', dp_reason = SourceChanged, dp_detail = ''changed''\<rparr>}"
proof -
  have "map_r (\<lambda>plan. (sp_skipped plan, trim_start ''changed'')) move_plan = Inr ([], ''changed'')"
    by code_simp
  note r = map_r_result [OF this, folded move_result_def]
  show ?thesis
    using r(2) recorded_deferrals_read_back
      [of "[\<lparr>dp_relative = ''new/f'', dp_reason = SourceChanged, dp_detail = ''changed''\<rparr>]" move_result]
    by simp
qed

end
