(* ===== verification/Snapshots.thy ===== *)
theory Snapshots
  imports Planner Deferrals
begin

text \<open>
  The snapshot checks of \<open>src/sync.rs\<close>: what an entry of the NAS has to be before it is deleted,
  copied from or taken as proof, how one re-read of the destination judges a batch of them, and the
  precondition of an upload.
\<close>

section \<open>Checks\<close>

datatype content_evidence = UploadedContent | ServerProduced

record snapshot_check =
  sc_remote_path :: string
  sc_expected :: remote_snapshot
  sc_deleting :: bool
  sc_evidence :: content_evidence
  sc_local_mtime_ms :: "int option"

datatype snapshot_verdict = Matches | MtimeNotKept | ChangedSnapshot

definition file_snapshot :: "u64 \<Rightarrow> int \<Rightarrow> fingerprint option \<Rightarrow> remote_snapshot" where
  "file_snapshot sz mtime md5 =
     \<lparr>sn_kind = File, sn_size = sz, sn_mtime = mtime, sn_md5 = md5, sn_require_mtime = True\<rparr>"

definition delete_snapshot_check :: "delete_action \<Rightarrow> snapshot_check" where
  "delete_snapshot_check action =
     \<lparr>sc_remote_path = da_remote_path action, sc_expected = da_snapshot action, sc_deleting = True,
      sc_evidence = ServerProduced, sc_local_mtime_ms = None\<rparr>"

definition source_snapshot_check :: "copy_action \<Rightarrow> snapshot_check" where
  "source_snapshot_check action =
     \<lparr>sc_remote_path = cp_from_remote_path action, sc_expected = cp_source_snapshot action,
      sc_deleting = False, sc_evidence = ServerProduced, sc_local_mtime_ms = None\<rparr>"

definition destination_snapshot_check :: "copy_action \<Rightarrow> snapshot_check" where
  "destination_snapshot_check action =
     \<lparr>sc_remote_path = cp_to_remote_path action,
      sc_expected = file_snapshot (cp_expected_size action) (l_mtime_ms (cp_local action) div 1000)
        (Some (cp_md5 action)),
      sc_deleting = False, sc_evidence = ServerProduced,
      sc_local_mtime_ms = Some (l_mtime_ms (cp_local action))\<rparr>"

definition guard_snapshot_check :: "destination_guard \<Rightarrow> snapshot_check" where
  "guard_snapshot_check guard =
     \<lparr>sc_remote_path = dg_remote_path guard,
      sc_expected = file_snapshot (dg_expected_size guard) (dg_expected_mtime guard)
        (Some (dg_md5 guard)),
      sc_deleting = False, sc_evidence = ServerProduced,
      sc_local_mtime_ms = Some (l_mtime_ms (dg_local guard))\<rparr>"

definition upload_destination_snapshot_check :: "upload_action \<Rightarrow> snapshot_check" where
  "upload_destination_snapshot_check action =
     \<lparr>sc_remote_path = ua_remote_path action,
      sc_expected = file_snapshot (l_size (ua_local action)) (l_mtime_ms (ua_local action) div 1000)
        (l_md5 (ua_local action)),
      sc_deleting = False, sc_evidence = UploadedContent,
      sc_local_mtime_ms = Some (l_mtime_ms (ua_local action))\<rparr>"

section \<open>One re-read of the destination\<close>

text \<open>The entries beneath a folder that is to be deleted: all of them must be deleted too.\<close>

definition holds_kept_entry :: "string \<Rightarrow> remote_inventory \<Rightarrow> string set \<Rightarrow> bool" where
  "holds_kept_entry key current deleting =
     list_ex (\<lambda>candidate. candidate \<notin> deleting)
       (takeWhile (\<lambda>candidate. prefix (key @ [slash]) candidate)
         (dropWhile (\<lambda>candidate. candidate \<le> key) (om_keys (ri_entries current))))"

definition verdict_of :: "snapshot_check \<Rightarrow> string \<Rightarrow> remote_inventory \<Rightarrow> string set \<Rightarrow> snapshot_verdict" where
  "verdict_of check key current deleting =
     (case om_get (ri_entries current) key of
        None \<Rightarrow> ChangedSnapshot
      | Some entry \<Rightarrow>
          if r_path entry \<noteq> sc_remote_path check \<or> r_kind entry \<noteq> sn_kind (sc_expected check)
              \<or> r_size entry \<noteq> sn_size (sc_expected check) then ChangedSnapshot
          else if sc_deleting check \<and> sn_kind (sc_expected check) = Directory
              \<and> holds_kept_entry key current deleting then ChangedSnapshot
          else if sn_require_mtime (sc_expected check)
              \<and> r_mtime entry \<noteq> sn_mtime (sc_expected check) then
            (case sc_local_mtime_ms check of
               None \<Rightarrow> ChangedSnapshot
             | Some ms \<Rightarrow> if mtimes_agree ms (r_mtime entry) then Matches else MtimeNotKept)
          else Matches)"

definition check_key :: "remote_root \<Rightarrow> snapshot_check \<Rightarrow> string option" where
  "check_key root check =
     (case root_relative root (sc_remote_path check) of Inl _ \<Rightarrow> None | Inr key \<Rightarrow> Some key)"

text \<open>The batch, given the destination as it is now.\<close>

definition judge_batch ::
  "remote_root \<Rightarrow> snapshot_check list \<Rightarrow> remote_inventory \<Rightarrow> snapshot_verdict list"
where
  "judge_batch root checks current =
     (let deleting = set (List.map_filter (check_key root) (filter sc_deleting checks)) in
      map (\<lambda>check. case check_key root check of
             Some key \<Rightarrow> verdict_of check key current deleting
           | None \<Rightarrow> ChangedSnapshot) checks)"

definition verify_api_remote_snapshot_batch ::
  "remote_root \<Rightarrow> remote_inventory res \<Rightarrow> snapshot_check list \<Rightarrow> snapshot_verdict list res"
where
  "verify_api_remote_snapshot_batch root inventory checks =
     (if checks = [] then Inr [] else map_r (judge_batch root checks) inventory)"

section \<open>Upload preconditions and worker errors\<close>

datatype remote_path_state = AbsentPath | FolderPath | FilePath u64 "int option"

definition precondition_holds :: "remote_path_state \<Rightarrow> remote_snapshot option \<Rightarrow> bool" where
  "precondition_holds state expected =
     (case state of
        AbsentPath \<Rightarrow> True
      | FolderPath \<Rightarrow> False
      | FilePath sz mtime \<Rightarrow>
          (case expected of
             None \<Rightarrow> False
           | Some sn \<Rightarrow>
               sn_kind sn = File \<and> sz = sn_size sn
               \<and> (case mtime of None \<Rightarrow> True | Some m \<Rightarrow> m = sn_mtime sn)))"

definition record_worker_error :: "error option \<Rightarrow> error \<Rightarrow> error option" where
  "record_worker_error first_error e =
     (case first_error of
        None \<Rightarrow> Some e
      | Some first \<Rightarrow> if first = Cancelled \<and> e \<noteq> Cancelled then Some e else Some first)"

text \<open>The error of a run is cancellation only when every worker reported cancellation.\<close>

lemma worker_errors:
  "es \<noteq> [] \<Longrightarrow> \<exists>e \<in> set es. foldl record_worker_error None es = Some e \<and>
     (e = Cancelled \<longrightarrow> (\<forall>x \<in> set es. x = Cancelled))"
proof (induction es rule: rev_induct)
  case Nil
  then show ?case by simp
next
  case (snoc e es)
  then show ?case
    by (cases "es = []") (auto simp: record_worker_error_def)
qed

section \<open>What a verdict means\<close>

lemma dropWhile_le_sorted:
  "sorted_wrt (<) xs \<Longrightarrow> dropWhile (\<lambda>q. q \<le> (b :: 'a :: linorder)) xs = filter (\<lambda>q. b < q) xs"
proof (induction xs)
  case Nil
  then show ?case by simp
next
  case (Cons x xs)
  show ?case
  proof (cases "x \<le> b")
    case True
    with Cons show ?thesis by simp
  next
    case False
    then have "\<forall>y \<in> set xs. b < y"
      using Cons.prems by force
    then have "filter (\<lambda>q. b < q) xs = xs"
      by (simp add: filter_id_conv)
    with False show ?thesis by simp
  qed
qed

lemma holds_kept_entry_exact:
  assumes wf: "om_wf (ri_entries current)"
    and gap: "\<forall>q \<in> set (om_keys (ri_entries current)). key < q \<longrightarrow> key @ [slash] \<le> q"
  shows "holds_kept_entry key current deleting \<longleftrightarrow>
    (\<exists>p \<in> set (om_keys (ri_entries current)). beneath key p \<and> p \<notin> deleting)"
proof -
  let ?keys = "om_keys (ri_entries current)" and ?pre = "key @ [slash]"
  have sorted: "sorted_wrt (<) ?keys"
    using wf by (simp add: om_wf_def om_keys_def)
  have up: "key < p" if "prefix ?pre p" for p
    using prefix_ge [OF that] prefix_ge [of key ?pre] that
    by (metis append_self_conv list.distinct(1) order.trans order_le_imp_less_or_eq prefixI
        prefix_order.antisym)
  have "dropWhile (\<lambda>q. q \<le> key) ?keys = filter (\<lambda>q. key < q) ?keys"
    using sorted by (rule dropWhile_le_sorted)
  moreover have "takeWhile (prefix ?pre) (filter (\<lambda>q. key < q) ?keys)
      = filter (prefix ?pre) (filter (\<lambda>q. key < q) ?keys)"
    using takeWhile_prefix_sorted [of "\<lambda>q. q" "filter (\<lambda>q. key < q) ?keys" ?pre] sorted gap
    by (auto simp: sorted_wrt_filter list_all_iff)
  ultimately show ?thesis
    using up by (auto simp: holds_kept_entry_def list_ex_iff beneath_prefix)
qed

text \<open>
  C27. In a batch that re-reads the destination, a folder that is to be deleted passes only when it
  is still the folder that was planned and every entry now beneath it is to be deleted in the batch
  too, so nothing that appeared since planning goes with it; unless the NAS holds a name that
  sorts between the folder and what is beneath it.
\<close>

theorem deleted_folder_holds_only_deleted:
  assumes wf: "om_wf (ri_entries current)"
    and check: "check \<in> set checks" and del: "sc_deleting check"
    and dir: "sn_kind (sc_expected check) = Directory"
    and key: "check_key root check = Some key"
    and verdict: "verdict_of check key current
        (set (List.map_filter (check_key root) (filter sc_deleting checks))) \<noteq> ChangedSnapshot"
  shows "(\<exists>entry. om_get (ri_entries current) key = Some entry \<and> r_kind entry = Directory
            \<and> r_path entry = sc_remote_path check) \<and>
    ((\<forall>p \<in> set (om_keys (ri_entries current)). beneath key p \<longrightarrow>
        (\<exists>other \<in> set checks. sc_deleting other \<and> check_key root other = Some p))
     \<or> (\<exists>q \<in> set (om_keys (ri_entries current)). key < q \<and> q < key @ [slash]))"
proof -
  let ?del = "set (List.map_filter (check_key root) (filter sc_deleting checks))"
  obtain entry where entry: "om_get (ri_entries current) key = Some entry"
    "r_path entry = sc_remote_path check" "r_kind entry = Directory"
    and none: "\<not> holds_kept_entry key current ?del"
    using verdict del dir
    by (auto simp: verdict_of_def split: option.splits if_splits)
  have dels: "?del = {p. \<exists>other \<in> set checks. sc_deleting other \<and> check_key root other = Some p}"
    by (force simp: List.map_filter_def)
  have "(\<forall>p \<in> set (om_keys (ri_entries current)). beneath key p \<longrightarrow> p \<in> ?del)
      \<or> (\<exists>q \<in> set (om_keys (ri_entries current)). key < q \<and> q < key @ [slash])"
    using holds_kept_entry_exact [OF wf, of key ?del] none not_less by blast
  then show ?thesis
    using entry unfolding dels by blast
qed

section \<open>A sibling hides what is beneath a folder\<close>

definition sibling_entry :: "string \<Rightarrow> entry_kind \<Rightarrow> string \<times> remote_entry" where
  "sibling_entry p kind =
     (p, \<lparr>r_relative = p, r_path = ''/s/d/'' @ p, r_kind = kind, r_size = 0, r_mtime = 0,
          r_mount = None, r_md5 = None\<rparr>)"

definition sibling_now :: remote_inventory where
  "sibling_now =
     \<lparr>ri_root_exists = True,
      ri_entries = [sibling_entry ''q'' Directory, sibling_entry ''q-2'' Directory,
                    sibling_entry ''q/new'' File]\<rparr>"

definition sibling_check :: snapshot_check where
  "sibling_check =
     \<lparr>sc_remote_path = ''/s/d/q'',
      sc_expected = \<lparr>sn_kind = Directory, sn_size = 0, sn_mtime = 0, sn_md5 = None,
                     sn_require_mtime = False\<rparr>,
      sc_deleting = True, sc_evidence = ServerProduced, sc_local_mtime_ms = None\<rparr>"

text \<open>
  The guard against entries that appeared beneath a folder stops at the first name after it,
  so a sibling that sorts before the slash hides them: \<open>q/new\<close> appeared beneath \<open>q\<close>, which
  is to be deleted, and beside \<open>q-2\<close> the folder still passes; without \<open>q-2\<close> it does not.
\<close>

lemma sibling_hides_new_entry:
  "judge_batch (RemoteRoot ''/s/d'') [sibling_check] sibling_now = [Matches] \<and>
   judge_batch (RemoteRoot ''/s/d'') [sibling_check]
     (sibling_now\<lparr>ri_entries := om_remove ''q-2'' (ri_entries sibling_now)\<rparr>) = [ChangedSnapshot]"
  by code_simp

lemma deleted_folder_holds_only_deleted_witness:
  "\<exists>q \<in> set (om_keys (ri_entries sibling_now)). ''q'' < q \<and> q < ''q'' @ [slash]"
proof -
  have wf: "om_wf (ri_entries sibling_now)"
    by code_simp
  have key: "check_key (RemoteRoot ''/s/d'') sibling_check = Some ''q''"
    by code_simp
  have verdict: "verdict_of sibling_check ''q'' sibling_now (set (List.map_filter
      (check_key (RemoteRoot ''/s/d'')) (filter sc_deleting [sibling_check]))) \<noteq> ChangedSnapshot"
    by code_simp
  have "beneath ''q'' ''q/new''" "''q/new'' \<in> set (om_keys (ri_entries sibling_now))"
    by code_simp+
  moreover have "sc_deleting sibling_check" "sn_kind (sc_expected sibling_check) = Directory"
    by (simp_all add: sibling_check_def)
  ultimately show ?thesis
    using deleted_folder_holds_only_deleted [OF wf _ _ _ key verdict] key by auto
qed

end
