(* ===== verification/LocalFiles.thy ===== *)
theory LocalFiles
  imports Local
begin

text \<open>
  Questions asked of the local file system after the walk (\<open>src/sync.rs\<close>, \<open>src/local.rs\<close>):
  whether a path that was absent is there again, under which spelling, and what entry it is. What
  the system calls answer is a parameter.
\<close>

section \<open>The file system\<close>

text \<open>A name as the system returns it: UTF-8 or not.\<close>

datatype os_name = Utf8 string | NotUtf8 string

datatype file_kind = RegularFile | FolderFile | SpecialFile

record fs_meta =
  fm_kind :: file_kind
  fm_link :: bool
  fm_unsupported :: bool
  fm_modified_ns :: "io_error + int"
  fm_len :: u64
  fm_identity :: file_identity

record local_fs =
  fs_stat :: "string \<Rightarrow> io_error + fs_meta"
  fs_list :: "string \<Rightarrow> io_error + (io_error + os_name) list"

definition path_join :: "string \<Rightarrow> string \<Rightarrow> string" where
  "path_join root relative = root @ slash # relative"

section \<open>Whether a path is there again\<close>

datatype local_presence =
    Absent
  | Present string
  | Ambiguous string
  | Unrepresentable

text \<open>\<open>representable_on_this_host\<close> answers \<open>true\<close> on every platform but Windows.\<close>

definition representable_on_this_host :: "string \<Rightarrow> bool" where
  "representable_on_this_host relative = True"

definition has_a_single_normal_form :: "string \<Rightarrow> bool" where
  "has_a_single_normal_form relative =
     list_all (\<lambda>c. byte c < 128 \<and> c \<notin> {CHR ''K'', CHR '';'', CHR 0x60}) relative"

definition extend_spelling :: "string \<Rightarrow> string \<Rightarrow> string" where
  "extend_spelling spelling part = (if spelling = [] then part else spelling @ slash # part)"

text \<open>One folder's names: whether one is the wanted bytes, and the others with its normal form.\<close>

definition same_normal_form :: "text_env \<Rightarrow> string \<Rightarrow> os_name list \<Rightarrow> string list" where
  "same_normal_form E component names =
     List.map_filter (\<lambda>name. case name of
         Utf8 text \<Rightarrow> if text \<noteq> component \<and> nfc E text = nfc E component then Some text else None
       | NotUtf8 _ \<Rightarrow> None) names"

definition find_component ::
  "text_env \<Rightarrow> string \<Rightarrow> string \<Rightarrow> os_name list \<Rightarrow> local_presence + string"
where
  "find_component E spelling component names =
     (let exact = (Utf8 component \<in> set names);
          equivalent = same_normal_form E component names in
      if exact \<and> equivalent = [] then Inr component
      else if \<not> exact \<and> length equivalent = 1 then Inr (hd equivalent)
      else if \<not> exact \<and> equivalent = [] then Inl Absent
      else Inl (Ambiguous (extend_spelling spelling component)))"

fun find_from ::
  "text_env \<Rightarrow> local_fs \<Rightarrow> string \<Rightarrow> string \<Rightarrow> string list \<Rightarrow> local_presence res"
where
  "find_from E fs parent spelling [] = Inr (Present spelling)"
| "find_from E fs parent spelling (component # components) =
     (case fs_list fs parent of
        Inl e \<Rightarrow> if io_kind_of e = NotFound then Inr Absent else Inl (FileIo parent e)
      | Inr entries \<Rightarrow>
          (case collect (\<lambda>entry. entry) entries of
             Inl e \<Rightarrow> Inl (FileIo parent e)
           | Inr names \<Rightarrow>
               (case find_component E spelling component names of
                  Inl answer \<Rightarrow> Inr answer
                | Inr found \<Rightarrow>
                    find_from E fs (path_join parent found) (extend_spelling spelling found)
                      components)))"

definition find_local_spelling :: "text_env \<Rightarrow> local_fs \<Rightarrow> string \<Rightarrow> string \<Rightarrow> local_presence res" where
  "find_local_spelling E fs root relative = find_from E fs root [] (split_on slash relative)"

definition local_presence_of :: "text_env \<Rightarrow> local_fs \<Rightarrow> string \<Rightarrow> string \<Rightarrow> local_presence res" where
  "local_presence_of E fs root relative =
     (if \<not> representable_on_this_host relative then Inr Unrepresentable
      else
        (case fs_stat fs (path_join root relative) of
           Inr _ \<Rightarrow> find_local_spelling E fs root relative
         | Inl e \<Rightarrow>
             if io_kind_of e = NotFound then
               if has_a_single_normal_form relative then Inr Absent
               else find_local_spelling E fs root relative
             else if io_kind_of e = InvalidFilename then Inr Unrepresentable
             else Inl (FileIo (path_join root relative) e)))"

section \<open>One path read after the walk\<close>

definition millis_since_epoch :: "int \<Rightarrow> int option" where
  "millis_since_epoch ns =
     (if ns < 0 then None
      else let ms = ns div 1000000 in if ms \<le> i64_max then Some ms else None)"

definition entry_of_file :: "string \<Rightarrow> string \<Rightarrow> fs_meta \<Rightarrow> local_entry res" where
  "entry_of_file full_path relative meta =
     (case fm_modified_ns meta of
        Inl e \<Rightarrow> Inl (FileIo full_path e)
      | Inr ns \<Rightarrow>
          if ns < 0 then
            Inl (UnsupportedLocalEntryError full_path ''modification time is before the Unix epoch'')
          else
            (case millis_since_epoch ns of
               None \<Rightarrow> Inl (UnsupportedLocalEntryError full_path
                        ''modification time is outside DSM's supported range'')
             | Some ms \<Rightarrow>
                 Inr \<lparr>l_relative = relative, l_full_path = full_path, l_kind = File,
                      l_size = fm_len meta, l_mtime_ms = ms, l_identity = fm_identity meta,
                      l_md5 = None\<rparr>))"

definition entry_of_folder :: "string \<Rightarrow> string \<Rightarrow> local_entry" where
  "entry_of_folder full_path relative =
     \<lparr>l_relative = relative, l_full_path = full_path, l_kind = Directory, l_size = 0,
      l_mtime_ms = 0, l_identity = default_identity, l_md5 = None\<rparr>"

definition entry_at :: "local_fs \<Rightarrow> string \<Rightarrow> string \<Rightarrow> local_entry option res" where
  "entry_at fs root relative =
     (if relative = [] \<or> is_dsm_managed relative then Inr None
      else
        let full_path = path_join root relative in
        (case fs_stat fs full_path of
           Inl e \<Rightarrow> if io_kind_of e = NotFound then Inr None else Inl (FileIo full_path e)
         | Inr meta \<Rightarrow>
             (case validate_relative relative of
                Inl e \<Rightarrow> Inl e
              | Inr _ \<Rightarrow>
                  (case drive_path_issue relative of
                     Some reason \<Rightarrow> Inl (UnsupportedLocalEntryError full_path reason)
                   | None \<Rightarrow>
                       if fm_link meta \<or> fm_unsupported meta then Inr None
                       else
                         (case fm_kind meta of
                            FolderFile \<Rightarrow> Inr (Some (entry_of_folder full_path relative))
                          | SpecialFile \<Rightarrow> Inl (UnsupportedLocalEntryError full_path
                              ''only regular files and directories can be synchronized'')
                          | RegularFile \<Rightarrow>
                              map_r Some (entry_of_file full_path relative meta))))))"

section \<open>A read under snapshot checks\<close>

text \<open>
  \<open>hash_file_with\<close>: what the system calls of one read answered, in their order. A token found
  cancelled before a block is \<open>Inl Cancelled\<close> in the place of that block.
\<close>

record file_read =
  fr_stat_before :: "io_error + fs_meta"
  fr_open :: "io_error + unit"
  fr_meta_before :: "io_error + fs_meta"
  fr_blocks :: "(error + u8 list) list"
  fr_meta_after :: "io_error + fs_meta"
  fr_stat_after :: "io_error + fs_meta"

definition verify_metadata_snapshot :: "local_entry \<Rightarrow> fs_meta \<Rightarrow> unit res" where
  "verify_metadata_snapshot entry meta =
     (case fm_modified_ns meta of
        Inl e \<Rightarrow> Inl (FileIo (l_full_path entry) e)
      | Inr ns \<Rightarrow>
          if fm_kind meta \<noteq> RegularFile \<or> fm_len meta \<noteq> l_size entry
              \<or> millis_since_epoch ns \<noteq> Some (l_mtime_ms entry)
          then Inl (SourceChangedError (l_full_path entry)) else Inr ())"

definition verify_entry_snapshot :: "local_entry \<Rightarrow> io_error + fs_meta \<Rightarrow> unit res" where
  "verify_entry_snapshot entry stat =
     (case stat of
        Inl e \<Rightarrow> Inl (FileIo (l_full_path entry) e)
      | Inr meta \<Rightarrow>
          if fm_link meta then Inl (SourceChangedError (l_full_path entry))
          else verify_metadata_snapshot entry meta)"

definition verify_open_snapshot :: "local_entry \<Rightarrow> io_error + fs_meta \<Rightarrow> unit res" where
  "verify_open_snapshot entry stat =
     (case stat of
        Inl e \<Rightarrow> Inl (FileIo (l_full_path entry) e)
      | Inr meta \<Rightarrow> verify_metadata_snapshot entry meta)"

definition hash_file_with ::
  "(u8 list \<Rightarrow> fingerprint) \<Rightarrow> local_entry \<Rightarrow> file_read \<Rightarrow> fingerprint res"
where
  "hash_file_with finish entry fr =
     bind_r (verify_entry_snapshot entry (fr_stat_before fr)) (\<lambda>_.
     bind_r (case fr_open fr of Inl e \<Rightarrow> Inl (FileIo (l_full_path entry) e) | Inr _ \<Rightarrow> Inr ()) (\<lambda>_.
     bind_r (verify_open_snapshot entry (fr_meta_before fr)) (\<lambda>_.
     bind_r (collect (\<lambda>block. block) (fr_blocks fr)) (\<lambda>blocks.
     bind_r (verify_open_snapshot entry (fr_meta_after fr)) (\<lambda>_.
     bind_r (verify_entry_snapshot entry (fr_stat_after fr)) (\<lambda>_.
       Inr (finish (concat blocks))))))))"

lemma verified_metadata:
  "verify_metadata_snapshot entry meta = Inr () \<longleftrightarrow>
     (\<exists>ns. fm_modified_ns meta = Inr ns \<and> fm_kind meta = RegularFile \<and> fm_len meta = l_size entry
        \<and> millis_since_epoch ns = Some (l_mtime_ms entry))"
  by (auto simp: verify_metadata_snapshot_def split: sum.splits)

text \<open>A fingerprint is of the blocks read between two checks that found the entry as scanned.\<close>

lemma collect_id: "collect (\<lambda>x. x) xs = Inr ys \<longleftrightarrow> xs = map Inr ys"
proof (induction xs arbitrary: ys)
  case Nil
  then show ?case by auto
next
  case (Cons x xs)
  then show ?case by (cases x; cases ys) auto
qed

lemma hash_file_checked:
  "hash_file_with finish entry fr = Inr fp \<Longrightarrow>
   \<exists>blocks. fr_blocks fr = map Inr blocks \<and> fp = finish (concat blocks)
     \<and> verify_open_snapshot entry (fr_meta_before fr) = Inr ()
     \<and> verify_open_snapshot entry (fr_meta_after fr) = Inr ()
     \<and> verify_entry_snapshot entry (fr_stat_after fr) = Inr ()"
  by (auto simp: hash_file_with_def collect_id)

end
