(* ===== verification/ExecState.thy ===== *)
theory ExecState
  imports Snapshots PlanFilters LocalFiles Breaker
begin

text \<open>
  The state of one execution (\<open>src/sync.rs\<close>): the report, the deferrals, the events shown to the
  caller and the refusal breaker; the operations of the \<open>SyncOperations\<close> trait as functions over an
  abstract world, which is the NAS, the local disk and the cancellation token at one moment; and
  the requests sent so far, which the code does not keep and the properties are about.
\<close>

section \<open>Report and events\<close>

datatype delete_kept_reason = LocalPathExists | KeptDescendant

datatype execution_event =
    TypeConflictDeleted string
  | DirectoryCreated string
  | RemoteContentCopied string string u64
  | CopyFallbackUploaded string u64
  | UploadedEvent string u64
  | RemoteExtraDeleted string
  | RemoteExtraDeleteSkipped string string delete_kept_reason
  | KeptDeleteUploaded string u64
  | PathDeferred string defer_reason
  | Renamed string string

fun describe_reason :: "defer_reason \<Rightarrow> string" where
  "describe_reason SourceChanged = ''changed during the run; retried next run''"
| "describe_reason SourceVanished = ''deleted locally during the run; retried next run''"
| "describe_reason SourceUnreadable =
     ''could not be read (locked or not permitted); retried next run''"
| "describe_reason UnsupportedLocalEntry =
     ''is not a regular file or directory the sync carries''"
| "describe_reason RemoteDigestUnavailableD =
     ''the NAS could not compute its checksum; compared again next run''"
| "describe_reason RemoteUnreadable =
     ''the NAS does not let this account read it; never compared or deleted until its ''
     @ ''permissions change''"
| "describe_reason RemoteChanged = ''changed on the NAS after planning; left as found''"
| "describe_reason UnrepresentableName =
     ''has a NAS name this computer cannot hold; never deleted on that account''"
| "describe_reason ListingIncomplete =
     ''is in a NAS folder whose listing was incomplete; no deletion was made there''"
| "describe_reason ServerCopyFailed =
     ''the NAS-side copy failed and left an entry at the destination; the next run replaces it ''
     @ ''with an upload''"
| "describe_reason DeleteFailed = ''the NAS refused the deletion; retried next run''"
| "describe_reason RemoteRefused =
     ''the NAS refuses this name or this account's access to it; named on every run until it is ''
     @ ''renamed or its permissions change''"
| "describe_reason LocalPermissionDenied =
     ''this account may not read it (permission denied); left out of every run until its ''
     @ ''permissions change''"
| "describe_reason CaseRenamePending =
     ''a case-only rename on the NAS is not finished; nothing was deleted on its account; named ''
     @ ''on every run until it is renamed or removed in File Station''"
| "describe_reason RemoteSkipped =
     ''has a NAS name or link this tool will not follow; never deleted, overwritten or ''
     @ ''descended; named every run until it is renamed or removed on the NAS''"
| "describe_reason UnsupportedEntry =
     ''has a name, path or file type Synology Drive cannot hold; named every run until it is ''
     @ ''renamed or excluded''"
| "describe_reason DeleteNotPermitted =
     ''the NAS does not let this account delete it; kept until its permissions change''"

fun event_display :: "execution_event \<Rightarrow> string" where
  "event_display (TypeConflictDeleted path) = ''deleted type conflict: '' @ path"
| "event_display (DirectoryCreated path) = ''created directory: '' @ path"
| "event_display (RemoteContentCopied from_path to_path _) =
     ''copied remote content: '' @ from_path @ '' -> '' @ to_path"
| "event_display (CopyFallbackUploaded relative _) =
     ''server copy unavailable; uploaded: '' @ relative"
| "event_display (UploadedEvent relative _) = ''uploaded: '' @ relative"
| "event_display (RemoteExtraDeleted path) = ''deleted remote extra: '' @ path"
| "event_display (RemoteExtraDeleteSkipped path relative LocalPathExists) =
     ''kept remote extra; local path exists again ('' @ relative @ ''): '' @ path"
| "event_display (RemoteExtraDeleteSkipped path relative KeptDescendant) =
     ''kept remote extra; a kept deletion beneath it leaves it non-empty ('' @ relative @ ''): ''
     @ path"
| "event_display (KeptDeleteUploaded relative _) =
     ''uploaded a kept deletion's local file: '' @ relative"
| "event_display (PathDeferred relative reason) =
     ''deferred ('' @ defer_str reason @ ''): '' @ relative @ '' '' @ describe_reason reason"
| "event_display (Renamed from_path to_path) = ''renamed: '' @ from_path @ '' -> '' @ to_path"

record execution_report =
  er_deleted :: nat
  er_created :: nat
  er_copied :: nat
  er_uploaded :: nat
  er_uploaded_bytes :: u64
  er_deletes_skipped :: nat
  er_kept_deletes_uploaded :: nat
  er_deferred :: "deferred_path list"
  er_mtime_not_kept :: nat
  er_copy_fallbacks :: nat
  er_renamed :: nat

definition report_start :: execution_report where
  "report_start =
     \<lparr>er_deleted = 0, er_created = 0, er_copied = 0, er_uploaded = 0, er_uploaded_bytes = 0,
      er_deletes_skipped = 0, er_kept_deletes_uploaded = 0, er_deferred = [],
      er_mtime_not_kept = 0, er_copy_fallbacks = 0, er_renamed = 0\<rparr>"

section \<open>The client\<close>

text \<open>
  The trait's operations on the NAS, what is asked of the local disk, and the token. The progress
  observer of an upload is left out: it cancels a transfer at most, which is an answer of
  \<open>cl_upload\<close>. The root, the scope and the rules of a batch are the run's own.
\<close>

record 'w client =
  cl_preflight_readable :: "local_entry \<Rightarrow> 'w \<Rightarrow> unit res \<times> 'w"
  cl_preflight_source :: "local_entry \<Rightarrow> 'w \<Rightarrow> unit res \<times> 'w"
  cl_delete :: "string \<Rightarrow> 'w \<Rightarrow> unit res \<times> 'w"
  cl_create :: "string \<Rightarrow> 'w \<Rightarrow> unit res \<times> 'w"
  cl_supports_rename :: bool
  cl_rename :: "string \<Rightarrow> string \<Rightarrow> 'w \<Rightarrow> string res \<times> 'w"
  cl_copy :: "copy_action \<Rightarrow> 'w \<Rightarrow> unit res \<times> 'w"
  cl_verify_batch :: "snapshot_check list \<Rightarrow> 'w \<Rightarrow> snapshot_verdict list res \<times> 'w"
  cl_verify_metadata :: "string \<Rightarrow> remote_snapshot \<Rightarrow> 'w \<Rightarrow> unit res \<times> 'w"
  cl_verify_content :: "string \<Rightarrow> u64 \<Rightarrow> fingerprint \<Rightarrow> 'w \<Rightarrow> unit res \<times> 'w"
  cl_verify_uploaded :: "string \<Rightarrow> u64 \<Rightarrow> fingerprint \<Rightarrow> 'w \<Rightarrow> unit res \<times> 'w"
  cl_path_state :: "string \<Rightarrow> 'w \<Rightarrow> remote_path_state res \<times> 'w"
  cl_upload :: "local_entry \<Rightarrow> string \<Rightarrow> 'w \<Rightarrow> unit res \<times> 'w"
  cl_fs :: "'w \<Rightarrow> local_fs"
  cl_hash :: "'w \<Rightarrow> local_entry \<Rightarrow> fingerprint res"
  cl_cancelled :: "'w \<Rightarrow> bool \<times> 'w"

text \<open>The requests that change the NAS and the live checks, each with whether it succeeded.\<close>

datatype request =
    LiveMetadata string remote_snapshot bool
  | LiveContent string u64 fingerprint bool
  | LiveUploaded string u64 fingerprint bool
  | DeleteSent string bool
  | CreateSent string bool
  | CopySent copy_action bool
  | UploadSent local_entry string bool
  | RenameSent string string bool

record 'w exec_state =
  es_world :: 'w
  es_report :: execution_report
  es_index :: deferral_index
  es_events :: "execution_event list"
  es_breaker :: refusal_breaker
  es_requests :: "request list"

definition exec_start :: "'w \<Rightarrow> execution_report \<Rightarrow> 'w exec_state" where
  "exec_start w report =
     \<lparr>es_world = w, es_report = report, es_index = ix_empty, es_events = [],
      es_breaker = rb_new 0 0, es_requests = []\<rparr>"

section \<open>Steps that may fail\<close>

text \<open>
  An operation of the executor answers a value or the error the run ends with; the state goes on
  either way, since the report survives a failed run.
\<close>

type_synonym ('w, 'a) exec = "'w exec_state \<Rightarrow> 'a res \<times> 'w exec_state"

definition ret_x :: "'a \<Rightarrow> ('w, 'a) exec" where
  "ret_x a = (\<lambda>s. (Inr a, s))"

definition fail_x :: "error \<Rightarrow> ('w, 'a) exec" where
  "fail_x e = (\<lambda>s. (Inl e, s))"

definition bind_x :: "('w, 'a) exec \<Rightarrow> ('a \<Rightarrow> ('w, 'b) exec) \<Rightarrow> ('w, 'b) exec" where
  "bind_x m f = (\<lambda>s. case m s of (r, s') \<Rightarrow> (case r of Inl e \<Rightarrow> (Inl e, s') | Inr a \<Rightarrow> f a s'))"

definition then_x :: "('w, 'a) exec \<Rightarrow> ('w, 'b) exec \<Rightarrow> ('w, 'b) exec" where
  "then_x m k = bind_x m (\<lambda>_. k)"

text \<open>The result of a step as a value, for a \<open>match\<close> on it.\<close>

definition attempt_x :: "('w, 'a) exec \<Rightarrow> ('w, 'a res) exec" where
  "attempt_x m = (\<lambda>s. case m s of (r, s') \<Rightarrow> (Inr r, s'))"

definition lift_x :: "'a res \<Rightarrow> ('w, 'a) exec" where
  "lift_x r = (\<lambda>s. (r, s))"

definition modify_x :: "('w exec_state \<Rightarrow> 'w exec_state) \<Rightarrow> ('w, unit) exec" where
  "modify_x f = (\<lambda>s. (Inr (), f s))"

definition gets_x :: "('w exec_state \<Rightarrow> 'a) \<Rightarrow> ('w, 'a) exec" where
  "gets_x f = (\<lambda>s. (Inr (f s), s))"

text \<open>A question to the world, and a request that is remembered.\<close>

definition ask_x :: "('w \<Rightarrow> 'a res \<times> 'w) \<Rightarrow> ('w, 'a) exec" where
  "ask_x op = (\<lambda>s. case op (es_world s) of (r, w) \<Rightarrow> (r, s\<lparr>es_world := w\<rparr>))"

definition send_x :: "('w \<Rightarrow> 'a res \<times> 'w) \<Rightarrow> (bool \<Rightarrow> request) \<Rightarrow> ('w, 'a) exec" where
  "send_x op log =
     (\<lambda>s. case op (es_world s) of (r, w) \<Rightarrow>
        (r, s\<lparr>es_world := w, es_requests := es_requests s @ [log (\<not> isl r)]\<rparr>))"

primrec each_x :: "('a \<Rightarrow> ('w, unit) exec) \<Rightarrow> 'a list \<Rightarrow> ('w, unit) exec" where
  "each_x f [] = ret_x ()"
| "each_x f (x # xs) = then_x (f x) (each_x f xs)"

primrec fold_x :: "('c \<Rightarrow> 'a \<Rightarrow> ('w, 'c) exec) \<Rightarrow> 'c \<Rightarrow> 'a list \<Rightarrow> ('w, 'c) exec" where
  "fold_x f c [] = ret_x c"
| "fold_x f c (x # xs) = bind_x (f c x) (\<lambda>d. fold_x f d xs)"

section \<open>What every phase does\<close>

definition check_x :: "'w client \<Rightarrow> ('w, unit) exec" where
  "check_x C =
     ask_x (\<lambda>w. case cl_cancelled C w of (c, w') \<Rightarrow> (if c then Inl Cancelled else Inr (), w'))"

definition event_x :: "execution_event \<Rightarrow> ('w, unit) exec" where
  "event_x ev = modify_x (\<lambda>s. s\<lparr>es_events := es_events s @ [ev]\<rparr>)"

definition report_x :: "(execution_report \<Rightarrow> execution_report) \<Rightarrow> ('w, unit) exec" where
  "report_x f = modify_x (\<lambda>s. s\<lparr>es_report := f (es_report s)\<rparr>)"

definition defer_x :: "text_env \<Rightarrow> string \<Rightarrow> defer_reason \<Rightarrow> string \<Rightarrow> ('w, unit) exec" where
  "defer_x E relative reason detail =
     modify_x (\<lambda>s. case ix_insert E relative reason (es_index s) of (fresh, ix) \<Rightarrow>
        if fresh then
          s\<lparr>es_index := ix,
            es_report := (es_report s)\<lparr>er_deferred := er_deferred (es_report s)
              @ [\<lparr>dp_relative = relative, dp_reason = reason, dp_detail = detail\<rparr>]\<rparr>,
            es_events := es_events s @ [PathDeferred relative reason]\<rparr>
        else s)"

definition defer_local_x :: "text_env \<Rightarrow> string \<Rightarrow> error \<Rightarrow> ('w, unit) exec" where
  "defer_local_x E relative e =
     (case for_path_error e of
        Some reason \<Rightarrow> defer_x E relative reason (error_display E e)
      | None \<Rightarrow> fail_x e)"

definition settle_x :: "(refusal_breaker \<Rightarrow> refusal_breaker) \<Rightarrow> ('w, unit) exec" where
  "settle_x f = modify_x (\<lambda>s. s\<lparr>es_breaker := f (es_breaker s)\<rparr>)"

definition judge_x :: "('w, unit) exec" where
  "judge_x = (\<lambda>s. (rb_check (es_breaker s), s))"

text \<open>Whether a deferral is at or above a path.\<close>

definition covered_x :: "string \<Rightarrow> ('w, bool) exec" where
  "covered_x relative = gets_x (\<lambda>s. covering (es_index s) relative \<noteq> None)"

definition remote_changed_detail :: "string \<Rightarrow> string" where
  "remote_changed_detail path =
     path @ '' is no longer the entry the plan was derived from; it was left as found''"

section \<open>Live checks\<close>

definition verify_live_x :: "'w client \<Rightarrow> snapshot_check \<Rightarrow> ('w, unit) exec" where
  "verify_live_x C check =
     (let expected =
            (if sc_local_mtime_ms check \<noteq> None
             then (sc_expected check)\<lparr>sn_require_mtime := False\<rparr> else sc_expected check);
          path = sc_remote_path check; sz = sn_size (sc_expected check) in
      then_x (send_x (cl_verify_metadata C path expected) (LiveMetadata path expected))
        (case sn_md5 (sc_expected check) of
           None \<Rightarrow> ret_x ()
         | Some fp \<Rightarrow>
             (case sc_evidence check of
                UploadedContent \<Rightarrow>
                  send_x (cl_verify_uploaded C path sz fp) (LiveUploaded path sz fp)
              | ServerProduced \<Rightarrow>
                  send_x (cl_verify_content C path sz fp) (LiveContent path sz fp))))"

definition upload_precondition_x ::
  "'w client \<Rightarrow> string \<Rightarrow> remote_snapshot option \<Rightarrow> ('w, bool) exec"
where
  "upload_precondition_x C path expected =
     bind_x (ask_x (cl_path_state C path)) (\<lambda>state. ret_x (precondition_holds state expected))"

definition upload_x :: "'w client \<Rightarrow> local_entry \<Rightarrow> string \<Rightarrow> ('w, unit) exec" where
  "upload_x C local path = send_x (cl_upload C local path) (UploadSent local path)"

text \<open>True when a kept deletion lies beneath the path.\<close>

definition kept_descendant :: "string set \<Rightarrow> string \<Rightarrow> bool" where
  "kept_descendant kept relative = (\<exists>c \<in> kept. prefix (relative @ [slash]) c)"

text \<open>Settle, as excluded, every open planned write that a deferral now covers.\<close>

primrec exclude_covered :: "bool list \<Rightarrow> string list \<Rightarrow> 'w exec_state \<Rightarrow> bool list \<times> 'w exec_state"
where
  "exclude_covered [] relatives s = ([], s)"
| "exclude_covered (open_w # rest) relatives s =
     (case relatives of
        [] \<Rightarrow> (open_w # rest, s)
      | relative # others \<Rightarrow>
          if open_w \<and> covering (es_index s) relative \<noteq> None then
            (case exclude_covered rest others (s\<lparr>es_breaker := rb_excluded (es_breaker s)\<rparr>) of
               (opens, s') \<Rightarrow> (False # opens, s'))
          else
            (case exclude_covered rest others s of (opens, s') \<Rightarrow> (open_w # opens, s')))"

definition exclude_covered_x :: "bool list \<Rightarrow> string list \<Rightarrow> ('w, bool list) exec" where
  "exclude_covered_x opens relatives = (\<lambda>s. case exclude_covered opens relatives s of
     (opens', s') \<Rightarrow> (Inr opens', s'))"

end
