(* ===== verification/UploadPool.thy ===== *)
theory UploadPool
  imports ExecState
begin

text \<open>
  The upload workers of \<open>execute_with_observer\<close> (\<open>src/sync.rs\<close>): a queue, a stop flag, the
  refusal breaker behind its lock and a channel, moved by workers whose steps interleave in any
  order. A schedule names the worker of each step; the scheduler's choice is a parameter.
\<close>

section \<open>Workers\<close>

datatype upload_outcome =
    UploadDone
  | UploadDeferred defer_reason string "refusal option"
  | UploadFailed error

text \<open>Where a worker stands in its loop.\<close>

datatype worker =
    Looking
  | Popping
  | Probing upload_action
  | Ready upload_action
  | Sending upload_action
  | Judging upload_action upload_outcome
  | Posting upload_action upload_outcome
  | Ended

type_synonym upload_message = "string \<times> u64 \<times> upload_outcome"

record 'w upload_pool =
  up_queue :: "upload_action list"
  up_workers :: "worker list"
  up_stop :: bool
  up_tripped :: "error option"
  up_posted :: "upload_message list"
  up_exec :: "'w exec_state"

text \<open>\<open>stop.load() || cancellation.is_cancelled()\<close>.\<close>

definition stop_seen :: "'w client \<Rightarrow> 'w upload_pool \<Rightarrow> bool \<times> 'w upload_pool" where
  "stop_seen C p =
     (if up_stop p then (True, p)
      else
        (case cl_cancelled C (es_world (up_exec p)) of
           (c, w) \<Rightarrow> (c, p\<lparr>up_exec := (up_exec p)\<lparr>es_world := w\<rparr>\<rparr>)))"

definition probe_outcome :: "upload_action \<Rightarrow> bool res \<Rightarrow> worker" where
  "probe_outcome a r =
     (case r of
        Inl e \<Rightarrow> Judging a (UploadFailed e)
      | Inr holds \<Rightarrow>
          if holds then Ready a
          else Judging a (UploadDeferred RemoteChanged (remote_changed_detail (ua_remote_path a)) None))"

definition upload_outcome_of :: "text_env \<Rightarrow> unit res \<Rightarrow> upload_outcome" where
  "upload_outcome_of E r =
     (case r of
        Inr _ \<Rightarrow> UploadDone
      | Inl e \<Rightarrow>
          (case for_path_error e of
             Some reason \<Rightarrow> UploadDeferred reason (error_display E e) (refusal_of e)
           | None \<Rightarrow> UploadFailed e))"

text \<open>The judgement of one outcome, under the breaker's lock.\<close>

definition judge_outcome ::
  "upload_action \<Rightarrow> upload_outcome \<Rightarrow> 'w upload_pool \<Rightarrow> 'w upload_pool"
where
  "judge_outcome a outcome p =
     (case outcome of
        UploadFailed _ \<Rightarrow> p\<lparr>up_stop := True\<rparr>
      | _ \<Rightarrow>
          let b = (case outcome of
                     UploadDeferred _ _ refused \<Rightarrow>
                       rb_settled_as refused (l_relative (ua_local a)) (es_breaker (up_exec p))
                   | _ \<Rightarrow> rb_accepted (es_breaker (up_exec p)));
              q = p\<lparr>up_exec := (up_exec p)\<lparr>es_breaker := b\<rparr>\<rparr> in
          (case rb_check b of
             Inr _ \<Rightarrow> q
           | Inl e \<Rightarrow>
               q\<lparr>up_stop := True,
                 up_tripped := (case up_tripped q of None \<Rightarrow> Some e | Some first \<Rightarrow> Some first)\<rparr>))"

fun worker_step ::
  "text_env \<Rightarrow> 'w client \<Rightarrow> worker \<Rightarrow> 'w upload_pool \<Rightarrow> worker \<times> 'w upload_pool"
where
  "worker_step E C Looking p =
     (case stop_seen C p of (stopped, q) \<Rightarrow> (if stopped then Ended else Popping, q))"
| "worker_step E C Popping p =
     (case up_queue p of
        [] \<Rightarrow> (Ended, p)
      | a # rest \<Rightarrow> (Probing a, p\<lparr>up_queue := rest\<rparr>))"
| "worker_step E C (Probing a) p =
     (case upload_precondition_x C (ua_remote_path a) (ua_expected a) (up_exec p) of
        (r, s) \<Rightarrow> (probe_outcome a r, p\<lparr>up_exec := s\<rparr>))"
| "worker_step E C (Ready a) p =
     (case stop_seen C p of (stopped, q) \<Rightarrow> (if stopped then Ended else Sending a, q))"
| "worker_step E C (Sending a) p =
     (case upload_x C (ua_local a) (ua_remote_path a) (up_exec p) of
        (r, s) \<Rightarrow> (Judging a (upload_outcome_of E r), p\<lparr>up_exec := s\<rparr>))"
| "worker_step E C (Judging a outcome) p = (Posting a outcome, judge_outcome a outcome p)"
| "worker_step E C (Posting a outcome) p =
     (Looking, p\<lparr>up_posted := up_posted p
        @ [(l_relative (ua_local a), l_size (ua_local a), outcome)]\<rparr>)"
| "worker_step E C Ended p = (Ended, p)"

definition pool_move :: "text_env \<Rightarrow> 'w client \<Rightarrow> 'w upload_pool \<Rightarrow> nat \<Rightarrow> 'w upload_pool" where
  "pool_move E C p i =
     (if i < length (up_workers p) then
        (case worker_step E C (up_workers p ! i) p of
           (w, q) \<Rightarrow> q\<lparr>up_workers := (up_workers q)[i := w]\<rparr>)
      else p)"

definition pool_run :: "text_env \<Rightarrow> 'w client \<Rightarrow> 'w upload_pool \<Rightarrow> nat list \<Rightarrow> 'w upload_pool" where
  "pool_run E C p schedule = foldl (pool_move E C) p schedule"

definition pool_open :: "nat \<Rightarrow> upload_action list \<Rightarrow> 'w exec_state \<Rightarrow> 'w upload_pool" where
  "pool_open workers uploads s =
     \<lparr>up_queue = uploads, up_workers = replicate workers Looking, up_stop = False,
      up_tripped = None, up_posted = [], up_exec = s\<rparr>"

definition worker_count :: "nat \<Rightarrow> upload_action list \<Rightarrow> nat" where
  "worker_count jobs uploads = min (max 1 (min 16 jobs)) (length uploads)"

text \<open>
  The scope of the threads ends when every worker has: after any schedule, each worker in turn is
  given the steps it needs at most to empty the queue.
\<close>

definition closing_schedule :: "nat \<Rightarrow> nat \<Rightarrow> nat list" where
  "closing_schedule workers queued =
     concat (map (\<lambda>i. replicate (7 * Suc queued) i) [0..<workers])"

section \<open>The collector\<close>

definition collect_message ::
  "text_env \<Rightarrow> error option \<Rightarrow> upload_message \<Rightarrow> ('w, error option) exec"
where
  "collect_message E first_error = (\<lambda>(relative, sz, outcome).
     case outcome of
       UploadDone \<Rightarrow>
         then_x (report_x (\<lambda>r. r\<lparr>er_uploaded := er_uploaded r + 1,
                   er_uploaded_bytes := u64_sat_add (er_uploaded_bytes r) sz\<rparr>))
           (then_x (event_x (UploadedEvent relative sz)) (ret_x first_error))
     | UploadDeferred reason detail _ \<Rightarrow>
         then_x (defer_x E relative reason detail) (ret_x first_error)
     | UploadFailed e \<Rightarrow> ret_x (record_worker_error first_error e))"

definition with_tripped :: "error option \<Rightarrow> error option \<Rightarrow> error option" where
  "with_tripped tripped first_error =
     (case tripped of None \<Rightarrow> first_error | Some e \<Rightarrow> record_worker_error first_error e)"

definition drained_pool ::
  "text_env \<Rightarrow> 'w client \<Rightarrow> nat \<Rightarrow> nat list \<Rightarrow> upload_action list \<Rightarrow> 'w exec_state
     \<Rightarrow> 'w upload_pool"
where
  "drained_pool E C jobs schedule uploads s =
     pool_run E C (pool_open (worker_count jobs uploads) uploads s)
       (schedule @ closing_schedule (worker_count jobs uploads) (length uploads))"

definition settle_uploads ::
  "text_env \<Rightarrow> 'w upload_pool \<Rightarrow> unit res \<times> 'w exec_state"
where
  "settle_uploads E p =
     bind_x (fold_x (collect_message E) None (up_posted p))
       (\<lambda>first_error.
          case with_tripped (up_tripped p) first_error of
            Some e \<Rightarrow> fail_x e
          | None \<Rightarrow> ret_x ())
       (up_exec p)"

definition uploads_x ::
  "text_env \<Rightarrow> 'w client \<Rightarrow> nat \<Rightarrow> nat list \<Rightarrow> upload_action list \<Rightarrow> ('w, unit) exec"
where
  "uploads_x E C jobs schedule uploads =
     (\<lambda>s. if uploads = [] then (Inr (), s)
          else settle_uploads E (drained_pool E C jobs schedule uploads s))"

end
