(* ===== verification/Execute.thy ===== *)
theory Execute
  imports UploadPool Digests
begin

text \<open>
  \<open>execute_with_observer\<close> and \<open>execute_renames\<close> of \<open>src/sync.rs\<close>, one definition per phase, in
  the order of the code: the local sources are opened, the entries of another kind deleted, folders
  created, files copied on the NAS, files uploaded, the extra entries deleted, the files that came
  back uploaded, and the case-only renames carried out.
\<close>

section \<open>Sources\<close>

definition preflight_step ::
  "text_env \<Rightarrow> 'w client \<Rightarrow> string \<times> local_entry \<Rightarrow> ('w, unit) exec"
where
  "preflight_step E C = (\<lambda>(relative, entry).
     then_x (check_x C)
       (bind_x (attempt_x (ask_x (cl_preflight_readable C entry)))
          (\<lambda>r. case r of Inr _ \<Rightarrow> ret_x () | Inl e \<Rightarrow> defer_local_x E relative e)))"

definition preflight_x :: "text_env \<Rightarrow> 'w client \<Rightarrow> sync_plan \<Rightarrow> ('w, unit) exec" where
  "preflight_x E C plan =
     each_x (preflight_step E C)
       (map (\<lambda>u. (l_relative (ua_local u), ua_local u)) (sp_uploads plan)
        @ map (\<lambda>c. (cp_to_relative c, cp_local c)) (sp_copies plan))"

section \<open>Type replacements\<close>

definition is_snapshot_changed :: "error \<Rightarrow> bool" where
  "is_snapshot_changed e = (case e of RemoteSnapshotChanged _ \<Rightarrow> True | _ \<Rightarrow> False)"

text \<open>Whether a live check found the entry changed; any other error stands.\<close>

definition live_changed_x :: "'w client \<Rightarrow> snapshot_check \<Rightarrow> ('w, bool) exec" where
  "live_changed_x C check =
     bind_x (attempt_x (verify_live_x C check))
       (\<lambda>r. case r of
          Inr _ \<Rightarrow> ret_x False
        | Inl e \<Rightarrow> if is_snapshot_changed e then ret_x True else fail_x e)"

definition delete_x :: "'w client \<Rightarrow> string \<Rightarrow> ('w, unit) exec" where
  "delete_x C path = send_x (cl_delete C path) (DeleteSent path)"

definition pre_delete_step ::
  "text_env \<Rightarrow> 'w client \<Rightarrow> string set \<Rightarrow> delete_action \<times> snapshot_verdict
     \<Rightarrow> ('w, string set) exec"
where
  "pre_delete_step E C kept = (\<lambda>(action, verdict).
     then_x (check_x C)
       (bind_x
          (if verdict = ChangedSnapshot \<or> kept_descendant kept (da_relative action) then ret_x True
           else live_changed_x C (delete_snapshot_check action))
          (\<lambda>changed.
             if changed then
               then_x (defer_x E (da_relative action) RemoteChanged
                         (remote_changed_detail (da_remote_path action)))
                 (ret_x (insert (da_relative action) kept))
             else
               then_x (delete_x C (da_remote_path action))
                 (then_x (report_x (\<lambda>r. r\<lparr>er_deleted := er_deleted r + 1\<rparr>))
                    (then_x (event_x (TypeConflictDeleted (da_remote_path action)))
                       (ret_x kept))))))"

text \<open>The planned operations no deferral covers at this moment.\<close>

definition uncovered_x :: "('a \<Rightarrow> string) \<Rightarrow> 'a list \<Rightarrow> ('w, 'a list) exec" where
  "uncovered_x relative_of xs =
     gets_x (\<lambda>s. filter (\<lambda>x. covering (es_index s) (relative_of x) = None) xs)"

definition pre_deletes_x :: "text_env \<Rightarrow> 'w client \<Rightarrow> sync_plan \<Rightarrow> ('w, unit) exec" where
  "pre_deletes_x E C plan =
     bind_x (uncovered_x da_relative (sp_pre_deletes plan)) (\<lambda>actions.
     bind_x (ask_x (cl_verify_batch C (map delete_snapshot_check actions))) (\<lambda>verdicts.
     then_x (fold_x (pre_delete_step E C) {} (zip actions verdicts)) (ret_x ())))"

section \<open>Folders\<close>

definition create_refused_x ::
  "text_env \<Rightarrow> create_action \<Rightarrow> error \<Rightarrow> ('w, unit) exec"
where
  "create_refused_x E action e =
     (case e of
        RemoteRefusedError _ _ _ _ \<Rightarrow>
          then_x (settle_x (rb_settled_by e (ca_relative action)))
            (then_x (defer_x E (ca_relative action) RemoteRefused (error_display E e)) judge_x)
      | _ \<Rightarrow> fail_x e)"

definition create_step ::
  "text_env \<Rightarrow> 'w client \<Rightarrow> create_action \<times> bool \<Rightarrow> ('w, unit) exec"
where
  "create_step E C = (\<lambda>(action, open_w).
     then_x (check_x C)
       (if \<not> open_w then ret_x ()
        else
          bind_x (covered_x (ca_relative action)) (\<lambda>covered.
            if covered then then_x (settle_x rb_excluded) judge_x
            else
              bind_x (attempt_x (send_x (cl_create C (ca_remote_path action))
                  (CreateSent (ca_remote_path action)))) (\<lambda>r.
                case r of
                  Inr _ \<Rightarrow>
                    then_x (settle_x rb_accepted)
                      (then_x (report_x (\<lambda>r. r\<lparr>er_created := er_created r + 1\<rparr>))
                         (event_x (DirectoryCreated (ca_remote_path action))))
                | Inl e \<Rightarrow> create_refused_x E action e))))"

section \<open>Server copies\<close>

definition exclude_and_defer_x ::
  "text_env \<Rightarrow> string \<Rightarrow> defer_reason \<Rightarrow> string \<Rightarrow> ('w, unit) exec"
where
  "exclude_and_defer_x E relative reason detail =
     then_x (settle_x rb_excluded) (then_x (defer_x E relative reason detail) judge_x)"

text \<open>A copy that did not start, or that DSM says failed, is uploaded while its destination is absent.\<close>

definition copy_fallback_x ::
  "text_env \<Rightarrow> 'w client \<Rightarrow> copy_action list \<Rightarrow> copy_action \<Rightarrow> error
     \<Rightarrow> ('w, copy_action list) exec"
where
  "copy_fallback_x E C copied action copy_error =
     bind_x (upload_precondition_x C (cp_to_remote_path action) None) (\<lambda>holds.
       if \<not> holds then
         then_x
           (case copy_error of
              ServerCopyFailedError _ _ \<Rightarrow>
                exclude_and_defer_x E (cp_to_relative action) ServerCopyFailed
                  (error_display E copy_error @ ''; the destination now holds an entry, which the ''
                   @ ''next run replaces with an upload'')
            | _ \<Rightarrow>
                exclude_and_defer_x E (cp_to_relative action) RemoteChanged
                  (remote_changed_detail (cp_to_remote_path action)))
           (ret_x copied)
       else
         bind_x (attempt_x (upload_x C (cp_local action) (cp_to_remote_path action))) (\<lambda>r.
           case r of
             Inl e \<Rightarrow>
               then_x (settle_x (rb_settled_by e (cp_to_relative action)))
                 (then_x (defer_local_x E (cp_to_relative action) e)
                    (then_x judge_x (ret_x copied)))
           | Inr _ \<Rightarrow>
               then_x (settle_x rb_accepted)
                 (then_x (report_x (\<lambda>r. r\<lparr>er_uploaded := er_uploaded r + 1,
                      er_uploaded_bytes := u64_sat_add (er_uploaded_bytes r) (cp_expected_size action),
                      er_copy_fallbacks := er_copy_fallbacks r + 1\<rparr>))
                    (then_x (event_x (CopyFallbackUploaded (l_relative (cp_local action))
                               (cp_expected_size action)))
                       (ret_x (copied @ [action]))))))"

definition copy_attempt_x ::
  "text_env \<Rightarrow> 'w client \<Rightarrow> copy_action list \<Rightarrow> copy_action \<Rightarrow> ('w, copy_action list) exec"
where
  "copy_attempt_x E C copied action =
     bind_x (attempt_x (send_x (cl_copy C action) (CopySent action))) (\<lambda>r.
       case r of
         Inr _ \<Rightarrow>
           then_x (settle_x rb_accepted)
             (then_x (report_x (\<lambda>r. r\<lparr>er_copied := er_copied r + 1\<rparr>))
                (then_x (event_x (RemoteContentCopied (cp_from_remote_path action)
                           (cp_to_remote_path action) (cp_expected_size action)))
                   (bind_x (attempt_x (ask_x (cl_preflight_source C (cp_local action)))) (\<lambda>r.
                      then_x (case r of Inr _ \<Rightarrow> ret_x ()
                              | Inl e \<Rightarrow> defer_local_x E (cp_to_relative action) e)
                        (ret_x (copied @ [action]))))))
       | Inl e \<Rightarrow>
           (case e of
              ServerCopyNotStarted \<Rightarrow> copy_fallback_x E C copied action e
            | ServerCopyFailedError _ _ \<Rightarrow> copy_fallback_x E C copied action e
            | _ \<Rightarrow> fail_x e))"

definition copy_step ::
  "text_env \<Rightarrow> 'w client \<Rightarrow> copy_action list \<Rightarrow> copy_action \<times> snapshot_verdict
     \<Rightarrow> ('w, copy_action list) exec"
where
  "copy_step E C copied = (\<lambda>(action, verdict).
     then_x (check_x C)
       (let changed = exclude_and_defer_x E (cp_to_relative action) RemoteChanged
              (remote_changed_detail (cp_from_remote_path action)) in
        if verdict = ChangedSnapshot then then_x changed (ret_x copied)
        else
          bind_x (attempt_x (ask_x (cl_preflight_source C (cp_local action)))) (\<lambda>r.
            case r of
              Inl e \<Rightarrow>
                then_x (settle_x rb_excluded)
                  (then_x (defer_local_x E (cp_to_relative action) e)
                     (then_x judge_x (ret_x copied)))
            | Inr _ \<Rightarrow>
                bind_x (live_changed_x C (source_snapshot_check action)) (\<lambda>live_changed.
                  if live_changed then then_x changed (ret_x copied)
                  else copy_attempt_x E C copied action))))"

definition copy_destination_step ::
  "'w client \<Rightarrow> copy_action \<times> snapshot_verdict \<Rightarrow> ('w, unit) exec"
where
  "copy_destination_step C = (\<lambda>(action, verdict).
     let check = destination_snapshot_check action in
     then_x
       (case verdict of
          ChangedSnapshot \<Rightarrow> fail_x (RemoteSnapshotChanged (sc_remote_path check))
        | MtimeNotKept \<Rightarrow> report_x (\<lambda>r. r\<lparr>er_mtime_not_kept := er_mtime_not_kept r + 1\<rparr>)
        | Matches \<Rightarrow> ret_x ())
       (verify_live_x C check))"

definition copies_x :: "text_env \<Rightarrow> 'w client \<Rightarrow> copy_action list \<Rightarrow> ('w, unit) exec" where
  "copies_x E C copies =
     bind_x (ask_x (cl_verify_batch C (map source_snapshot_check copies))) (\<lambda>verdicts.
     bind_x (fold_x (copy_step E C) [] (zip copies verdicts)) (\<lambda>copied.
     bind_x (ask_x (cl_verify_batch C (map destination_snapshot_check copied))) (\<lambda>verdicts.
       each_x (copy_destination_step C) (zip copied verdicts))))"

section \<open>Every planned write\<close>

definition open_writes :: "deferral_index \<Rightarrow> ('a \<Rightarrow> string) \<Rightarrow> 'a list \<Rightarrow> bool list" where
  "open_writes ix relative_of xs = map (\<lambda>x. covering ix (relative_of x) = None) xs"

definition still_open :: "'a list \<Rightarrow> bool list \<Rightarrow> 'a list" where
  "still_open xs opens = map fst (filter snd (zip xs opens))"

definition upload_relative :: "upload_action \<Rightarrow> string" where
  "upload_relative u = l_relative (ua_local u)"

definition start_breaker_x ::
  "sync_plan \<Rightarrow> ('w, bool list \<times> bool list \<times> bool list) exec"
where
  "start_breaker_x plan =
     bind_x (gets_x (\<lambda>s.
         (open_writes (es_index s) ca_relative (sp_creates plan),
          open_writes (es_index s) cp_to_relative (sp_copies plan),
          open_writes (es_index s) upload_relative (sp_uploads plan))))
       (\<lambda>(creates, copies, uploads).
          then_x (settle_x (\<lambda>_. rb_new
              (length (filter id creates) + length (filter id copies) + length (filter id uploads))
              (sp_unchanged plan)))
            (ret_x (creates, copies, uploads)))"

definition copies_phase_x ::
  "text_env \<Rightarrow> 'w client \<Rightarrow> sync_plan \<Rightarrow> bool list \<Rightarrow> bool list \<Rightarrow> ('w, bool list) exec"
where
  "copies_phase_x E C plan open_copies open_uploads =
     bind_x (exclude_covered_x open_copies (map cp_to_relative (sp_copies plan))) (\<lambda>copies.
     bind_x (exclude_covered_x open_uploads (map upload_relative (sp_uploads plan))) (\<lambda>uploads.
     then_x judge_x
       (then_x (copies_x E C (still_open (sp_copies plan) copies)) (ret_x uploads))))"

definition uploads_phase_x ::
  "text_env \<Rightarrow> 'w client \<Rightarrow> nat \<Rightarrow> nat list \<Rightarrow> sync_plan \<Rightarrow> bool list \<Rightarrow> ('w, unit) exec"
where
  "uploads_phase_x E C jobs schedule plan open_uploads =
     bind_x (exclude_covered_x open_uploads (map upload_relative (sp_uploads plan))) (\<lambda>uploads.
     then_x judge_x
       (then_x (uploads_x E C jobs schedule (still_open (sp_uploads plan) uploads)) judge_x))"

definition execute_writes_x ::
  "text_env \<Rightarrow> 'w client \<Rightarrow> nat \<Rightarrow> nat list \<Rightarrow> sync_plan \<Rightarrow> ('w, unit) exec"
where
  "execute_writes_x E C jobs schedule plan =
     then_x (preflight_x E C plan)
       (then_x (pre_deletes_x E C plan)
         (bind_x (start_breaker_x plan) (\<lambda>(creates, copies, uploads).
            then_x (each_x (create_step E C) (zip (sp_creates plan) creates))
              (bind_x (copies_phase_x E C plan copies uploads)
                 (uploads_phase_x E C jobs schedule plan)))))"

section \<open>Extra entries\<close>

definition landed_check_step :: "'w client \<Rightarrow> upload_action \<Rightarrow> ('w, unit) exec" where
  "landed_check_step C u =
     then_x (check_x C)
       (bind_x (attempt_x (ask_x (cl_preflight_readable C (ua_local u)))) (\<lambda>r.
          case r of
            Inr _ \<Rightarrow> ret_x ()
          | Inl e \<Rightarrow> if for_local_error e = None then fail_x e else ret_x ()))"

definition upload_checks_x ::
  "'w client \<Rightarrow> sync_plan \<Rightarrow> ('w, snapshot_check list) exec"
where
  "upload_checks_x C plan =
     bind_x (uncovered_x upload_relative (sp_uploads plan)) (\<lambda>landed.
       if sp_post_deletes plan = [] then ret_x []
       else
         then_x (each_x (landed_check_step C) landed)
           (ret_x (map upload_destination_snapshot_check landed)))"

text \<open>The deletions whose own verdict, or whose guard's, is of a changed entry.\<close>

definition guard_owners :: "delete_action list \<Rightarrow> (nat \<times> destination_guard) list" where
  "guard_owners actions =
     List.map_filter (\<lambda>(i, action). map_option (\<lambda>guard. (i, guard)) (da_guard action))
       (enumerate 0 actions)"

definition post_delete_checks :: "sync_plan \<Rightarrow> snapshot_check list \<Rightarrow> snapshot_check list" where
  "post_delete_checks plan upload_checks =
     map delete_snapshot_check (sp_post_deletes plan)
     @ map (guard_snapshot_check \<circ> snd) (guard_owners (sp_post_deletes plan))
     @ upload_checks"

definition post_verdict_step ::
  "sync_plan \<Rightarrow> snapshot_check list \<Rightarrow> bool list \<Rightarrow> nat \<times> snapshot_verdict \<Rightarrow> ('w, bool list) exec"
where
  "post_verdict_step plan checks changed = (\<lambda>(i, verdict).
     let deletes = length (sp_post_deletes plan); owners = guard_owners (sp_post_deletes plan) in
     if i < deletes then ret_x (changed[i := verdict = ChangedSnapshot])
     else if i - deletes < length owners then
       (case verdict of
          ChangedSnapshot \<Rightarrow> ret_x (changed[fst (owners ! (i - deletes)) := True])
        | MtimeNotKept \<Rightarrow>
            then_x (report_x (\<lambda>r. r\<lparr>er_mtime_not_kept := er_mtime_not_kept r + 1\<rparr>)) (ret_x changed)
        | Matches \<Rightarrow> ret_x changed)
     else if verdict = ChangedSnapshot then fail_x (RemoteSnapshotChanged (sc_remote_path (checks ! i)))
     else ret_x changed)"

definition judge_deletions_x :: "'w client \<Rightarrow> sync_plan \<Rightarrow> ('w, bool list) exec" where
  "judge_deletions_x C plan =
     bind_x (upload_checks_x C plan) (\<lambda>upload_checks.
     let checks = post_delete_checks plan upload_checks in
     bind_x (ask_x (cl_verify_batch C checks)) (\<lambda>verdicts.
     bind_x (fold_x (post_verdict_step plan checks)
         (replicate (length (sp_post_deletes plan)) False) (enumerate 0 verdicts)) (\<lambda>changed.
     then_x (each_x (verify_live_x C) upload_checks) (ret_x changed))))"

section \<open>One extra entry\<close>

type_synonym kept_state = "string set \<times> string omap"

definition presence_deferral ::
  "text_env \<Rightarrow> delete_action \<Rightarrow> local_presence res \<Rightarrow> (defer_reason \<times> string) option"
where
  "presence_deferral E action presence =
     (case presence of
        Inl e \<Rightarrow> Some (SourceUnreadable, error_display E e)
      | Inr (Ambiguous path) \<Rightarrow>
          Some (SourceChanged, debug_str E path
            @ '' is spelled more than one way locally, differing only by Unicode ''
            @ ''normalisation, so whether '' @ debug_str E (da_relative action)
            @ '' is back cannot be told; the NAS copy is kept and nothing is uploaded'')
      | Inr Unrepresentable \<Rightarrow>
          Some (UnrepresentableName,
            debug_str E (da_relative action) @ '' cannot be spelled on this host's filesystem'')
      | Inr _ \<Rightarrow> None)"

definition proof_deferral :: "error \<Rightarrow> (defer_reason \<times> string) option" where
  "proof_deferral e =
     (case e of
        RemoteSnapshotChanged path \<Rightarrow> Some (RemoteChanged, remote_changed_detail path)
      | ContentVerificationFailed path \<Rightarrow> Some (RemoteChanged, remote_changed_detail path)
      | _ \<Rightarrow> None)"

definition guard_deferral_x ::
  "text_env \<Rightarrow> 'w client \<Rightarrow> destination_guard \<Rightarrow> ('w, (defer_reason \<times> string) option) exec"
where
  "guard_deferral_x E C guard =
     bind_x (gets_x (\<lambda>s. covering (es_index s) (l_relative (dg_local guard)))) (\<lambda>covered.
       case covered of
         Some reason \<Rightarrow>
           ret_x (Some (reason, ''its content was to be proven by ''
             @ debug_str E (l_relative (dg_local guard)) @ '', which was deferred''))
       | None \<Rightarrow>
           bind_x (attempt_x (then_x (ask_x (cl_preflight_source C (dg_local guard)))
               (verify_live_x C (guard_snapshot_check guard)))) (\<lambda>r.
             case r of
               Inr _ \<Rightarrow> ret_x None
             | Inl e \<Rightarrow>
                 (case proof_deferral e of
                    Some deferral \<Rightarrow> ret_x (Some deferral)
                  | None \<Rightarrow>
                      (case for_local_error e of
                         Some reason \<Rightarrow> ret_x (Some (reason, error_display E e))
                       | None \<Rightarrow> fail_x e))))"

definition live_deferral_x ::
  "'w client \<Rightarrow> delete_action \<Rightarrow> ('w, (defer_reason \<times> string) option) exec"
where
  "live_deferral_x C action =
     bind_x (attempt_x (verify_live_x C (delete_snapshot_check action))) (\<lambda>r.
       case r of
         Inr _ \<Rightarrow> ret_x None
       | Inl e \<Rightarrow>
           (case proof_deferral e of Some deferral \<Rightarrow> ret_x (Some deferral) | None \<Rightarrow> fail_x e))"

text \<open>Why a deletion is not carried out, asked in the order of the code; \<open>None\<close> authorises it.\<close>

definition deletion_deferral_x ::
  "text_env \<Rightarrow> 'w client \<Rightarrow> delete_action \<Rightarrow> bool \<Rightarrow> local_presence res
     \<Rightarrow> ('w, (defer_reason \<times> string) option) exec"
where
  "deletion_deferral_x E C action changed presence =
     (let found = (case presence_deferral E action presence of
            Some deferral \<Rightarrow> Some deferral
          | None \<Rightarrow>
              if changed then Some (RemoteChanged, remote_changed_detail (da_remote_path action))
              else None) in
      bind_x
        (case found of
           Some deferral \<Rightarrow> ret_x (Some deferral)
         | None \<Rightarrow>
             (case da_guard action of None \<Rightarrow> ret_x None | Some guard \<Rightarrow> guard_deferral_x E C guard))
        (\<lambda>guarded. case guarded of
           Some deferral \<Rightarrow> ret_x (Some deferral)
         | None \<Rightarrow> live_deferral_x C action))"

text \<open>A failure that concerns every deletion after it.\<close>

definition concerns_run :: "error \<Rightarrow> bool" where
  "concerns_run e =
     ((case e of Api _ _ _ _ \<Rightarrow> False | RemoteRefusedError _ _ _ _ \<Rightarrow> False | _ \<Rightarrow> True)
      \<or> is_session_failure e)"

definition keep_deletion_x ::
  "delete_action \<Rightarrow> delete_kept_reason \<Rightarrow> ('w, unit) exec"
where
  "keep_deletion_x action reason =
     then_x (report_x (\<lambda>r. r\<lparr>er_deletes_skipped := er_deletes_skipped r + 1\<rparr>))
       (event_x (RemoteExtraDeleteSkipped (da_remote_path action) (da_relative action) reason))"

definition delete_extra_x ::
  "text_env \<Rightarrow> 'w client \<Rightarrow> kept_state \<Rightarrow> delete_action \<Rightarrow> ('w, kept_state) exec"
where
  "delete_extra_x E C = (\<lambda>(kept, back) action.
     bind_x (attempt_x (delete_x C (da_remote_path action))) (\<lambda>r.
       case r of
         Inr _ \<Rightarrow>
           then_x (report_x (\<lambda>r. r\<lparr>er_deleted := er_deleted r + 1\<rparr>))
             (then_x (event_x (RemoteExtraDeleted (da_remote_path action))) (ret_x (kept, back)))
       | Inl e \<Rightarrow>
           then_x (defer_x E (da_relative action)
               (if concerns_run e then DeleteFailed else delete_refusal_reason e)
               (error_display E e))
             (if concerns_run e then fail_x e
              else ret_x (insert (da_relative action) kept, back))))"

definition post_delete_step ::
  "text_env \<Rightarrow> 'w client \<Rightarrow> string \<Rightarrow> kept_state \<Rightarrow> delete_action \<times> bool \<Rightarrow> ('w, kept_state) exec"
where
  "post_delete_step E C source_root = (\<lambda>(kept, back) (action, changed).
     then_x (check_x C)
       (if kept_descendant kept (da_relative action) then
          then_x (keep_deletion_x action KeptDescendant)
            (ret_x (insert (da_relative action) kept, back))
        else
          bind_x (gets_x (\<lambda>s. spelling_related E (es_index s) (da_relative action))) (\<lambda>related.
            case related of
              Some (other, reason) \<Rightarrow>
                (let r = withheld_with E (da_relative action) other reason in
                 then_x (defer_x E (dp_relative r) (dp_reason r) (dp_detail r))
                   (ret_x (insert (da_relative action) kept, back)))
            | None \<Rightarrow>
                bind_x (gets_x (\<lambda>s. local_presence_of E (cl_fs C (es_world s)) source_root
                    (da_local_relative action))) (\<lambda>presence.
                  case presence of
                    Inr (Present spelling) \<Rightarrow>
                      then_x (keep_deletion_x action LocalPathExists)
                        (ret_x (insert (da_relative action) kept,
                                om_insert (da_relative action) spelling back))
                  | _ \<Rightarrow>
                      bind_x (deletion_deferral_x E C action changed presence) (\<lambda>deferral.
                        case deferral of
                          Some (reason, detail) \<Rightarrow>
                            then_x (defer_x E (da_relative action) reason detail)
                              (ret_x (insert (da_relative action) kept, back))
                        | None \<Rightarrow> delete_extra_x E C (kept, back) action)))))"

section \<open>Files that came back\<close>

definition kept_upload_target :: "sync_plan \<Rightarrow> string \<Rightarrow> delete_action option" where
  "kept_upload_target plan relative =
     find (\<lambda>action. da_relative action = relative \<and> da_kind action = File) (sp_post_deletes plan)"

definition gone_again_x ::
  "text_env \<Rightarrow> 'w client \<Rightarrow> string \<Rightarrow> string \<Rightarrow> string \<Rightarrow> ('w, unit) exec"
where
  "gone_again_x E C source_root relative spelling =
     bind_x (gets_x (\<lambda>s. fs_stat (cl_fs C (es_world s)) (path_join source_root spelling))) (\<lambda>stat.
       case stat of
         Inl e \<Rightarrow>
           if io_kind_of e = NotFound then
             defer_x E relative SourceVanished
               (debug_str E spelling @ '' was back when the deletion of '' @ debug_str E relative
                @ '' was checked and is gone again; the NAS copy is kept'')
           else defer_local_x E relative (FileIo (path_join source_root spelling) e)
       | Inr _ \<Rightarrow>
           defer_x E relative UnsupportedLocalEntry
             (debug_str E spelling @ '' came back as an entry the sync does not carry (a link, ''
              @ ''a reparse point or a system file); the NAS copy of '' @ debug_str E relative
              @ '' is kept''))"

definition reupload_x ::
  "text_env \<Rightarrow> 'w client \<Rightarrow> string \<Rightarrow> delete_action \<Rightarrow> local_entry \<Rightarrow> ('w, unit) exec"
where
  "reupload_x E C relative target entry =
     bind_x (attempt_x (bind_x (gets_x (\<lambda>s.
         promote_to_full_fingerprint (cl_hash C (es_world s)) entry)) (\<lambda>promoted.
         bind_x (lift_x promoted) (\<lambda>local.
         then_x (ask_x (cl_preflight_readable C local)) (ret_x local))))) (\<lambda>r.
       case r of
         Inl e \<Rightarrow> defer_local_x E relative e
       | Inr local \<Rightarrow>
           bind_x (upload_precondition_x C (da_remote_path target) (Some (da_snapshot target)))
             (\<lambda>holds.
               if \<not> holds then
                 defer_x E relative RemoteChanged (remote_changed_detail (da_remote_path target))
               else
                 bind_x (attempt_x (upload_x C local (da_remote_path target))) (\<lambda>r.
                   case r of
                     Inl e \<Rightarrow> defer_local_x E relative e
                   | Inr _ \<Rightarrow>
                       then_x (report_x (\<lambda>r. r\<lparr>er_uploaded := er_uploaded r + 1,
                            er_kept_deletes_uploaded := er_kept_deletes_uploaded r + 1,
                            er_uploaded_bytes := u64_sat_add (er_uploaded_bytes r) (l_size local)\<rparr>))
                         (event_x (KeptDeleteUploaded relative (l_size local))))))"

definition reappeared_step ::
  "text_env \<Rightarrow> 'w client \<Rightarrow> sync_plan \<Rightarrow> string \<times> string \<Rightarrow> ('w, unit) exec"
where
  "reappeared_step E C plan = (\<lambda>(relative, spelling).
     then_x (check_x C)
       (bind_x (gets_x (\<lambda>s. entry_at (cl_fs C (es_world s)) (sp_source_root plan) spelling)) (\<lambda>found.
          case found of
            Inl e \<Rightarrow> defer_local_x E relative e
          | Inr None \<Rightarrow> gone_again_x E C (sp_source_root plan) relative spelling
          | Inr (Some entry) \<Rightarrow>
              if l_kind entry \<noteq> File then ret_x ()
              else if is_ignored E (sp_rules plan) spelling False then
                defer_x E relative SourceChanged
                  (debug_str E spelling @ '' is excluded, so it is not uploaded in place of ''
                   @ debug_str E relative @ ''; the NAS copy is kept'')
              else
                (case kept_upload_target plan relative of
                   None \<Rightarrow> ret_x ()
                 | Some target \<Rightarrow> reupload_x E C relative target entry))))"

section \<open>Renames\<close>

definition rename_unsupported_x :: "text_env \<Rightarrow> rename_action \<Rightarrow> ('w, unit) exec" where
  "rename_unsupported_x E action =
     defer_x E (ra_relative action) CaseRenamePending
       (''this DSM does not offer SYNO.FileStation.Rename, so ''
        @ debug_str E (ra_from_remote_path action) @ '' cannot be renamed to ''
        @ debug_str E (ra_new_name action) @ ''; rename it in File Station'')"

definition rename_concerns_run :: "error \<Rightarrow> bool" where
  "rename_concerns_run e =
     ((case e of
         Api _ _ _ _ \<Rightarrow> False
       | RemoteRefusedError _ _ _ _ \<Rightarrow> False
       | ContentVerificationFailed _ \<Rightarrow> False
       | _ \<Rightarrow> True)
      \<or> is_session_failure e)"

definition rename_step :: "text_env \<Rightarrow> 'w client \<Rightarrow> rename_action \<Rightarrow> ('w, unit) exec" where
  "rename_step E C action =
     then_x (check_x C)
       (bind_x (gets_x (\<lambda>s. spelling_related E (es_index s) (ra_relative action))) (\<lambda>related.
          case related of
            Some (other, _) \<Rightarrow>
              defer_x E (ra_relative action) CaseRenamePending
                (debug_str E (ra_from_remote_path action) @ '' was not renamed to ''
                 @ debug_str E (ra_new_name action) @ '' because '' @ debug_str E other
                 @ '' beneath it was left for the next run'')
          | None \<Rightarrow>
              bind_x (attempt_x (send_x (cl_rename C (ra_from_remote_path action) (ra_new_name action))
                  (RenameSent (ra_from_remote_path action) (ra_new_name action)))) (\<lambda>r.
                case r of
                  Inr renamed \<Rightarrow>
                    then_x (report_x (\<lambda>r. r\<lparr>er_renamed := er_renamed r + 1\<rparr>))
                      (event_x (Renamed (ra_from_remote_path action) renamed))
                | Inl e \<Rightarrow>
                    if rename_concerns_run e then fail_x e
                    else
                      defer_x E (ra_relative action) CaseRenamePending
                        (''renaming '' @ debug_str E (ra_from_remote_path action) @ '' to ''
                         @ debug_str E (ra_new_name action) @ '' failed: '' @ error_display E e))))"

definition execute_renames_x :: "text_env \<Rightarrow> 'w client \<Rightarrow> sync_plan \<Rightarrow> ('w, unit) exec" where
  "execute_renames_x E C plan =
     (if sp_renames plan = [] then ret_x ()
      else if \<not> cl_supports_rename C then each_x (rename_unsupported_x E) (sp_renames plan)
      else each_x (rename_step E C) (sp_renames plan))"

section \<open>One run\<close>

definition execute_deletions_x :: "text_env \<Rightarrow> 'w client \<Rightarrow> sync_plan \<Rightarrow> ('w, unit) exec" where
  "execute_deletions_x E C plan =
     then_x (check_x C)
       (bind_x (judge_deletions_x C plan) (\<lambda>changed.
        bind_x (fold_x (post_delete_step E C (sp_source_root plan)) ({}, [])
            (zip (sp_post_deletes plan) changed)) (\<lambda>(kept, back).
          each_x (reappeared_step E C plan) back)))"

record execute_options =
  xo_jobs :: nat
  xo_dry_run :: bool

definition execute_plan_x ::
  "text_env \<Rightarrow> 'w client \<Rightarrow> execute_options \<Rightarrow> nat list \<Rightarrow> sync_plan \<Rightarrow> ('w, unit) exec"
where
  "execute_plan_x E C options schedule plan =
     (if xo_dry_run options then ret_x ()
      else
        then_x (execute_writes_x E C (xo_jobs options) schedule plan)
          (then_x (execute_deletions_x E C plan) (execute_renames_x E C plan)))"

definition execute ::
  "text_env \<Rightarrow> 'w client \<Rightarrow> execute_options \<Rightarrow> nat list \<Rightarrow> sync_plan \<Rightarrow> 'w
     \<Rightarrow> unit res \<times> 'w exec_state"
where
  "execute E C options schedule plan w =
     execute_plan_x E C options schedule plan (exec_start w report_start)"

end
