(* ===== verification/ExecRules.thy ===== *)
theory ExecRules
  imports Execute
begin

text \<open>
  Rules for the steps of the executor: what a step keeps is kept by every way of composing steps.
  A contract of steps is a locale over a relation between the state before and after; the phases
  are then checked against it by introduction rules.
\<close>

named_theorems exec_defs "the primitive steps of the executor"

lemmas primitive_defs [exec_defs] =
  ret_x_def fail_x_def lift_x_def modify_x_def gets_x_def check_x_def ask_x_def event_x_def
  report_x_def settle_x_def judge_x_def covered_x_def uncovered_x_def

section \<open>A contract between the states before and after\<close>

definition obeys :: "('w exec_state \<Rightarrow> 'w exec_state \<Rightarrow> bool) \<Rightarrow> ('w, 'a) exec \<Rightarrow> bool" where
  "obeys R m = (\<forall>s r s'. m s = (r, s') \<longrightarrow> R s s')"

lemma obeysI: "(\<And>s r s'. m s = (r, s') \<Longrightarrow> R s s') \<Longrightarrow> obeys R m"
  by (simp add: obeys_def)

lemma obeysD: "obeys R m \<Longrightarrow> m s = (r, s') \<Longrightarrow> R s s'"
  by (simp add: obeys_def)

locale step_contract =
  fixes R :: "'w exec_state \<Rightarrow> 'w exec_state \<Rightarrow> bool"
  assumes same: "R s s"
    and chain: "R s t \<Longrightarrow> R t u \<Longrightarrow> R s u"
begin

lemma ret: "obeys R (ret_x a)"
  by (auto intro!: obeysI simp: ret_x_def same)

lemma fail: "obeys R (fail_x e)"
  by (auto intro!: obeysI simp: fail_x_def same)

lemma lift: "obeys R (lift_x r)"
  by (auto intro!: obeysI simp: lift_x_def same)

lemma gets: "obeys R (gets_x f)"
  by (auto intro!: obeysI simp: gets_x_def same)

lemma judge: "obeys R judge_x"
  by (auto intro!: obeysI simp: judge_x_def same)

lemma covered: "obeys R (covered_x p)"
  by (simp add: covered_x_def gets)

lemma uncovered: "obeys R (uncovered_x f xs)"
  by (simp add: uncovered_x_def gets)

lemma bind_from:
  assumes "obeys R m" and "\<And>a s t. m s = (Inr a, t) \<Longrightarrow> obeys R (f a)"
  shows "obeys R (bind_x m f)"
proof (rule obeysI)
  fix s r s' assume step: "bind_x m f s = (r, s')"
  obtain q t where m: "m s = (q, t)"
    by fastforce
  show "R s s'"
  proof (cases q)
    case (Inl e)
    with step m have "s' = t" by (simp add: bind_x_def)
    with assms(1) m show ?thesis by (auto dest: obeysD)
  next
    case (Inr a)
    with step m have "f a t = (r, s')" by (simp add: bind_x_def)
    with assms m Inr show ?thesis by (blast dest: obeysD intro: chain)
  qed
qed

lemma bind: "obeys R m \<Longrightarrow> (\<And>a. obeys R (f a)) \<Longrightarrow> obeys R (bind_x m f)"
  by (rule bind_from)

lemma seq: "obeys R m \<Longrightarrow> obeys R k \<Longrightarrow> obeys R (then_x m k)"
  unfolding then_x_def by (rule bind)

lemma attempt: "obeys R m \<Longrightarrow> obeys R (attempt_x m)"
  by (auto intro!: obeysI dest: obeysD simp: attempt_x_def split: prod.splits)

lemma each: "(\<And>x. obeys R (f x)) \<Longrightarrow> obeys R (each_x f xs)"
  by (induction xs) (simp_all add: ret seq)

lemma fold_in: "(\<And>c x. x \<in> set xs \<Longrightarrow> obeys R (f c x)) \<Longrightarrow> obeys R (fold_x f c xs)"
  by (induction xs arbitrary: c) (simp_all add: ret bind)

lemma fold: "(\<And>c x. obeys R (f c x)) \<Longrightarrow> obeys R (fold_x f c xs)"
  by (induction xs arbitrary: c) (simp_all add: ret bind)

lemma option: "obeys R (f None) \<Longrightarrow> (\<And>a. obeys R (f (Some a))) \<Longrightarrow> obeys R (f opt)"
  by (cases opt) simp_all

lemma sum: "(\<And>e. obeys R (f (Inl e))) \<Longrightarrow> (\<And>a. obeys R (f (Inr a))) \<Longrightarrow> obeys R (f r)"
  by (cases r) simp_all

lemmas rules = ret fail lift gets judge covered uncovered bind seq attempt each fold

end

lemma deferred_state:
  "fst (defer_x E p r d s) = Inr ()"
  "es_requests (snd (defer_x E p r d s)) = es_requests s"
  "es_world (snd (defer_x E p r d s)) = es_world s"
  "es_breaker (snd (defer_x E p r d s)) = es_breaker s"
  "deferred_paths (es_index (snd (defer_x E p r d s))) = insert p (deferred_paths (es_index s))"
proof -
  have "snd (ix_insert E p r ix) = ix \<and> p \<in> deferred_paths ix" if "\<not> fst (ix_insert E p r ix)" for ix
    using that by (auto simp: ix_insert_def deferred_paths_def om_has_key split: if_splits)
  then show "deferred_paths (es_index (snd (defer_x E p r d s)))
      = insert p (deferred_paths (es_index s))"
    using ix_insert_deferred [of E p r "es_index s"]
    by (auto simp: defer_x_def modify_x_def case_prod_beta)
qed (simp_all add: defer_x_def modify_x_def case_prod_beta)

lemma excluded_state:
  "es_requests (snd (exclude_covered opens ps s)) = es_requests s
   \<and> es_index (snd (exclude_covered opens ps s)) = es_index s
   \<and> es_world (snd (exclude_covered opens ps s)) = es_world s
   \<and> es_report (snd (exclude_covered opens ps s)) = es_report s
   \<and> es_events (snd (exclude_covered opens ps s)) = es_events s"
  by (induction opens arbitrary: ps s) (auto simp: case_prod_beta split: list.splits)

section \<open>A contract on the requests\<close>

fun is_delete :: "request \<Rightarrow> bool" where
  "is_delete (DeleteSent path ok) = True"
| "is_delete _ = False"

text \<open>
  What a contract on the requests has to allow: everything that sends nothing and forgets no
  deferral, every request that is no deletion, and a deletion from the set \<open>A\<close> right after its own
  live check.
\<close>

locale request_contract = step_contract R for R :: "'w exec_state \<Rightarrow> 'w exec_state \<Rightarrow> bool" +
  fixes C :: "'w client" and A :: "delete_action set"
  assumes silent: "es_requests s' = es_requests s \<Longrightarrow>
      deferred_paths (es_index s) \<subseteq> deferred_paths (es_index s') \<Longrightarrow> R s s'"
    and sends: "\<not> is_delete q \<Longrightarrow> es_requests s' = es_requests s @ [q] \<Longrightarrow>
      es_index s' = es_index s \<Longrightarrow> R s s'"
    and guarded: "a \<in> A \<Longrightarrow> verify_live_x C (delete_snapshot_check a) s = (Inr (), t) \<Longrightarrow>
      es_requests u = es_requests t @ [DeleteSent (da_remote_path a) ok] \<Longrightarrow>
      es_index u = es_index t \<Longrightarrow> R s u"
begin

lemma modify: "(\<And>s. es_requests (f s) = es_requests s) \<Longrightarrow>
    (\<And>s. deferred_paths (es_index s) \<subseteq> deferred_paths (es_index (f s))) \<Longrightarrow>
    obeys R (modify_x f)"
  by (auto intro!: obeysI silent simp: modify_x_def)

lemma ask: "obeys R (ask_x op)"
  by (rule obeysI) (auto intro!: silent simp: ask_x_def split: prod.splits)

lemma send: "(\<And>ok. \<not> is_delete (log ok)) \<Longrightarrow> obeys R (send_x op log)"
  by (rule obeysI) (auto intro!: sends simp: send_x_def split: prod.splits)

lemma check: "obeys R (check_x D)"
  by (simp add: check_x_def ask)

lemma event: "obeys R (event_x ev)"
  by (simp add: event_x_def modify)

lemma report: "obeys R (report_x f)"
  by (simp add: report_x_def modify)

lemma settle: "obeys R (settle_x f)"
  by (simp add: settle_x_def modify)

lemma deferring: "obeys R (defer_x E p r d)"
proof (rule obeysI)
  fix s :: "'w exec_state" and q s' assume "defer_x E p r d s = (q, s')"
  then show "R s s'"
    using deferred_state [of E p r d s] by (intro silent) auto
qed

lemma deferring_local: "obeys R (defer_local_x E p e)"
  by (auto simp: defer_local_x_def intro: deferring fail split: option.split)

lemma verify_live: "obeys R (verify_live_x D check)"
  by (auto simp: verify_live_x_def Let_def intro!: seq send ret
      split: option.split content_evidence.split)

lemma precondition: "obeys R (upload_precondition_x D p expected)"
  by (simp add: upload_precondition_x_def bind ask ret)

lemma upload: "obeys R (upload_x D local p)"
  by (simp add: upload_x_def send)

lemma exclude: "obeys R (exclude_covered_x opens ps)"
proof (rule obeysI)
  fix s :: "'w exec_state" and q s' assume "exclude_covered_x opens ps s = (q, s')"
  then show "R s s'"
    using excluded_state [of opens ps s]
    by (intro silent) (auto simp: exclude_covered_x_def case_prod_beta)
qed

lemmas steps = rules ask check event report settle deferring deferring_local verify_live precondition upload
  exclude

end

text \<open>The index and the log only grow.\<close>

definition grows :: "'w exec_state \<Rightarrow> 'w exec_state \<Rightarrow> bool" where
  "grows s s' =
     (deferred_paths (es_index s) \<subseteq> deferred_paths (es_index s')
      \<and> prefix (es_requests s) (es_requests s'))"

lemma verify_live_grows: "verify_live_x C check s = (r, t) \<Longrightarrow> grows s t"
  by (auto simp: verify_live_x_def Let_def then_x_def bind_x_def send_x_def ret_x_def grows_def
      split: prod.splits sum.splits option.splits content_evidence.splits)

interpretation grow: request_contract grows C UNIV for C
  by unfold_locales
    (auto simp: grows_def dest!: verify_live_grows intro: prefix_order.trans)

end
