(* ===== verification/ExecContract.thy ===== *)
theory ExecContract
  imports ExecRules
begin

text \<open>
  Every phase of an execution keeps every contract on the requests: the deletions are the planned
  ones, each right after its own live check, and nothing else of it is a deletion.
\<close>

context request_contract
begin

section \<open>Writes\<close>

lemma preflight: "obeys R (preflight_x E D plan)"
  unfolding preflight_x_def preflight_step_def
  by (auto intro!: steps simp: split_beta split: sum.split)

lemma live_changed: "obeys R (live_changed_x D check)"
  unfolding live_changed_x_def
  by (auto intro!: steps split: sum.split)

lemma live_changed_no:
  "live_changed_x D check s = (Inr False, t) \<Longrightarrow> verify_live_x D check s = (Inr (), t)"
  by (auto simp: live_changed_x_def bind_x_def attempt_x_def ret_x_def fail_x_def
      split: prod.splits sum.splits if_splits)

lemma delete_after_live:
  assumes "a \<in> A" and "verify_live_x C (delete_snapshot_check a) s = (Inr (), t)"
    and "delete_x C (da_remote_path a) t = (r, u)"
  shows "R s u"
  using assms(3)
  by (intro guarded [OF assms(1,2), of u "\<not> isl r"])
    (auto simp: delete_x_def send_x_def split: prod.splits)

lemma pre_delete:
  assumes "fst x \<in> A"
  shows "obeys R (pre_delete_step E C kept x)"
proof -
  obtain a v where x: "x = (a, v)" and a: "a \<in> A"
    using assms by (cases x) auto
  let ?defer = "then_x (defer_x E (da_relative a) RemoteChanged
      (remote_changed_detail (da_remote_path a))) (ret_x (insert (da_relative a) kept))"
  let ?after = "then_x (report_x (\<lambda>r. r\<lparr>er_deleted := er_deleted r + 1\<rparr>))
      (then_x (event_x (TypeConflictDeleted (da_remote_path a))) (ret_x kept))"
  let ?body = "\<lambda>changed. if changed then ?defer else then_x (delete_x C (da_remote_path a)) ?after"
  have d: "obeys R ?defer" and n: "obeys R ?after"
    by (intro steps)+
  have "obeys R (bind_x (live_changed_x C (delete_snapshot_check a)) ?body)"
  proof (rule obeysI)
    fix s :: "'w exec_state" and q u
    assume step: "bind_x (live_changed_x C (delete_snapshot_check a)) ?body s = (q, u)"
    obtain c t where m: "live_changed_x C (delete_snapshot_check a) s = (c, t)"
      by fastforce
    have st: "R s t"
      using live_changed m by (rule obeysD)
    show "R s u"
    proof (cases "c = Inr False")
      case False
      with step m st d show ?thesis
        by (auto simp: bind_x_def dest: obeysD intro: chain split: sum.splits if_splits)
    next
      case True
      obtain r v where del: "delete_x C (da_remote_path a) t = (r, v)"
        by fastforce
      have "R s v"
        using delete_after_live [OF a live_changed_no del] m True by blast
      with step m True del n show ?thesis
        by (auto simp: bind_x_def then_x_def dest: obeysD intro: chain split: sum.splits)
    qed
  qed
  then show ?thesis
    unfolding pre_delete_step_def x using d
    by (auto intro!: steps simp: bind_x_def ret_x_def)
qed

lemma pre_deletes:
  assumes "set (sp_pre_deletes plan) \<subseteq> A"
  shows "obeys R (pre_deletes_x E C plan)"
proof -
  have "obeys R (fold_x (pre_delete_step E C) {} (zip actions verdicts))"
    if "set actions \<subseteq> set (sp_pre_deletes plan)" for actions verdicts
    using that assms by (intro fold_in pre_delete) (auto dest!: set_zip_leftD)
  then show ?thesis
    unfolding pre_deletes_x_def
    by (intro bind_from [OF uncovered] bind_from [OF ask] seq ret)
      (auto simp: uncovered_x_def gets_x_def)
qed

lemma create: "obeys R (create_step E D x)"
  unfolding create_step_def create_refused_x_def
  by (auto intro!: steps send simp: split_beta split: sum.split error.split)

lemma exclude_and_defer: "obeys R (exclude_and_defer_x E p r d)"
  unfolding exclude_and_defer_x_def by (intro steps)

lemma copy_fallback: "obeys R (copy_fallback_x E D copied action e)"
  unfolding copy_fallback_x_def
  by (auto intro!: steps exclude_and_defer split: sum.split error.split)

lemma copy_attempt: "obeys R (copy_attempt_x E D copied action)"
  unfolding copy_attempt_x_def
  by (auto intro!: steps send copy_fallback split: sum.split error.split)

lemma copy: "obeys R (copy_step E D copied x)"
  unfolding copy_step_def Let_def
  by (auto intro!: steps exclude_and_defer live_changed copy_attempt simp: split_beta split: sum.split)

lemma copies: "obeys R (copies_x E D cs)"
  unfolding copies_x_def copy_destination_step_def Let_def
  by (auto intro!: steps copy simp: split_beta split: snapshot_verdict.split)

lemma start_breaker: "obeys R (start_breaker_x plan)"
  unfolding start_breaker_x_def by (auto intro!: steps simp: split_beta)

section \<open>Upload workers\<close>

lemma stop_seen_obeys: "stop_seen D p = (b, q) \<Longrightarrow> R (up_exec p) (up_exec q)"
  by (auto intro!: silent simp: stop_seen_def split: if_splits prod.splits)

lemma judge_outcome_obeys: "R (up_exec p) (up_exec (judge_outcome a outcome p))"
  by (auto intro!: silent simp: judge_outcome_def Let_def split: upload_outcome.splits sum.splits)

lemma worker_obeys: "worker_step E D w p = (w', q) \<Longrightarrow> R (up_exec p) (up_exec q)"
proof (cases w)
  case (Probing a)
  then show "worker_step E D w p = (w', q) \<Longrightarrow> ?thesis"
    by (auto intro: obeysD [OF precondition] split: prod.splits)
next
  case (Sending a)
  then show "worker_step E D w p = (w', q) \<Longrightarrow> ?thesis"
    by (auto intro: obeysD [OF upload] split: prod.splits)
qed (auto intro: same judge_outcome_obeys dest: stop_seen_obeys split: prod.splits list.splits)

lemma pool_move_obeys: "R (up_exec p) (up_exec (pool_move E D p i))"
  by (auto simp: pool_move_def same split: prod.splits dest: worker_obeys)

lemma pool_run_obeys: "R (up_exec p) (up_exec (pool_run E D p schedule))"
  unfolding pool_run_def
  by (induction schedule arbitrary: p) (auto intro: same chain pool_move_obeys)

lemma collect: "obeys R (collect_message E first_error m)"
  unfolding collect_message_def by (auto intro!: steps simp: split_beta split: upload_outcome.split)

lemma settle_uploads_obeys: "settle_uploads E p = (r, t) \<Longrightarrow> R (up_exec p) t"
proof -
  have "obeys R (bind_x (fold_x (collect_message E) None (up_posted p))
      (\<lambda>first_error. case with_tripped (up_tripped p) first_error of
          Some e \<Rightarrow> fail_x e | None \<Rightarrow> ret_x ()))"
    by (auto intro!: steps collect split: option.split)
  then show "settle_uploads E p = (r, t) \<Longrightarrow> R (up_exec p) t"
    unfolding settle_uploads_def by (rule obeysD)
qed

lemma drained_pool_obeys: "R s (up_exec (drained_pool E D jobs schedule us s))"
  using pool_run_obeys [of "pool_open (worker_count jobs us) us s"]
  by (simp add: drained_pool_def pool_open_def)

lemma uploads: "obeys R (uploads_x E D jobs schedule us)"
proof (rule obeysI)
  fix s :: "'w exec_state" and r t
  assume "uploads_x E D jobs schedule us s = (r, t)"
  then show "R s t"
    using drained_pool_obeys [of s E D jobs schedule us] settle_uploads_obeys same [of s]
    by (auto simp: uploads_x_def split: if_splits intro: chain)
qed

lemma copies_phase: "obeys R (copies_phase_x E D plan a b)"
  unfolding copies_phase_x_def by (intro steps copies)

lemma uploads_phase: "obeys R (uploads_phase_x E D jobs schedule plan opens)"
  unfolding uploads_phase_x_def by (intro steps uploads)

lemma execute_writes:
  "set (sp_pre_deletes plan) \<subseteq> A \<Longrightarrow> obeys R (execute_writes_x E C jobs schedule plan)"
  unfolding execute_writes_x_def
  by (auto intro!: steps preflight pre_deletes start_breaker create copies_phase uploads_phase)

section \<open>Deletions\<close>

lemma guard_deferral: "obeys R (guard_deferral_x E D g)"
  unfolding guard_deferral_x_def by (auto intro!: steps split: option.split sum.split)

lemma live_deferral: "obeys R (live_deferral_x D a)"
  unfolding live_deferral_x_def by (auto intro!: steps split: option.split sum.split)

lemma deletion_deferral: "obeys R (deletion_deferral_x E D a changed presence)"
  unfolding deletion_deferral_x_def Let_def
  by (auto intro!: steps guard_deferral live_deferral split: option.split)

lemma live_deferral_none:
  "live_deferral_x D a s = (Inr None, t) \<Longrightarrow> verify_live_x D (delete_snapshot_check a) s = (Inr (), t)"
  by (auto simp: live_deferral_x_def bind_x_def attempt_x_def ret_x_def fail_x_def
      split: prod.splits sum.splits option.splits)

lemma deletion_authorised:
  assumes "deletion_deferral_x E D a changed presence s = (Inr None, t)"
  shows "\<exists>u. R s u \<and> verify_live_x D (delete_snapshot_check a) u = (Inr (), t)"
proof -
  let ?first = "case (case presence_deferral E a presence of Some deferral \<Rightarrow> Some deferral
      | None \<Rightarrow> if changed then Some (RemoteChanged, remote_changed_detail (da_remote_path a)) else None)
    of Some deferral \<Rightarrow> ret_x (Some deferral)
     | None \<Rightarrow> (case da_guard a of None \<Rightarrow> ret_x None | Some guard \<Rightarrow> guard_deferral_x E D guard)"
  have first: "obeys R ?first"
    by (auto intro!: steps guard_deferral split: option.split)
  obtain q u where m: "?first s = (q, u)"
    by fastforce
  have "live_deferral_x D a u = (Inr None, t)"
    using assms m
    by (auto simp: deletion_deferral_x_def Let_def bind_x_def ret_x_def split: sum.splits option.splits)
  then show ?thesis
    using obeysD [OF first m] live_deferral_none by blast
qed

lemma keep_deletion: "obeys R (keep_deletion_x a reason)"
  unfolding keep_deletion_x_def by (intro steps)

lemma delete_extra_after:
  assumes a: "a \<in> A" and live: "verify_live_x C (delete_snapshot_check a) s = (Inr (), t)"
    and run: "delete_extra_x E C kb a t = (r, u)"
  shows "R s u"
proof -
  obtain kept found where kb: "kb = (kept, found)"
    by fastforce
  let ?gone = "then_x (report_x (\<lambda>r. r\<lparr>er_deleted := er_deleted r + 1\<rparr>))
             (then_x (event_x (RemoteExtraDeleted (da_remote_path a))) (ret_x (kept, found)))"
  let ?failed = "\<lambda>e. then_x (defer_x E (da_relative a)
               (if concerns_run e then DeleteFailed else delete_refusal_reason e) (error_display E e))
             (if concerns_run e then fail_x e else ret_x (insert (da_relative a) kept, found))"
  have gone: "obeys R ?gone" and failed: "obeys R (?failed e)" for e
    by (auto intro!: steps)
  obtain q v where del: "delete_x C (da_remote_path a) t = (q, v)"
    by fastforce
  have sv: "R s v"
    using delete_after_live [OF a live del] .
  show ?thesis
  proof (cases q)
    case (Inl e)
    with run del have "?failed e v = (r, u)"
      by (simp add: delete_extra_x_def kb bind_x_def attempt_x_def)
    with sv show ?thesis by (blast intro: chain obeysD [OF failed])
  next
    case (Inr x)
    with run del have "?gone v = (r, u)"
      by (simp add: delete_extra_x_def kb bind_x_def attempt_x_def)
    with sv show ?thesis by (blast intro: chain obeysD [OF gone])
  qed
qed

lemma post_delete:
  assumes a: "fst x \<in> A"
  shows "obeys R (post_delete_step E C root kb x)"
proof -
  obtain kept found where kb: "kb = (kept, found)"
    by fastforce
  obtain d c where x: "x = (d, c)"
    by fastforce
  have authorise: "obeys R (bind_x (deletion_deferral_x E C d c presence) (\<lambda>deferral.
      case deferral of
        Some (reason, detail) \<Rightarrow> then_x (defer_x E (da_relative d) reason detail)
            (ret_x (insert (da_relative d) kept, found))
      | None \<Rightarrow> delete_extra_x E C (kept, found) d))" (is "obeys R (bind_x ?m ?f)") for presence
  proof (rule obeysI)
    fix s :: "'w exec_state" and r u
    assume step: "bind_x ?m ?f s = (r, u)"
    obtain q t where m: "?m s = (q, t)"
      by fastforce
    have st: "R s t"
      using deletion_deferral m by (rule obeysD)
    have some: "obeys R (then_x (defer_x E (da_relative d) reason detail)
            (ret_x (insert (da_relative d) kept, found)))" for reason detail
      by (intro steps)
    show "R s u"
    proof (cases "q = Inr None")
      case True
      then obtain v where v: "R s v" "verify_live_x C (delete_snapshot_check d) v = (Inr (), t)"
        using deletion_authorised m by blast
      moreover have "delete_extra_x E C (kept, found) d t = (r, u)"
        using step m True by (simp add: bind_x_def)
      ultimately show ?thesis
        using delete_extra_after a x by (auto intro: chain)
    next
      case False
      with step m st some show ?thesis
        by (auto simp: bind_x_def dest: obeysD intro: chain split: sum.splits option.splits)
    qed
  qed
  show ?thesis
    unfolding post_delete_step_def kb x
    by (auto intro!: steps keep_deletion authorise simp: Let_def
        split: option.split sum.split local_presence.split)
qed

lemma judge_deletions: "obeys R (judge_deletions_x D plan)"
  unfolding judge_deletions_x_def upload_checks_x_def landed_check_step_def post_verdict_step_def Let_def
  by (auto intro!: steps simp: split_beta split: sum.split snapshot_verdict.split)

lemma gone_again: "obeys R (gone_again_x E D root p q)"
  unfolding gone_again_x_def by (auto intro!: steps split: sum.split)

lemma reupload: "obeys R (reupload_x E D p target entry)"
  unfolding reupload_x_def by (auto intro!: steps split: sum.split)

lemma reappeared: "obeys R (reappeared_step E D plan x)"
  unfolding reappeared_step_def
  by (auto intro!: steps gone_again reupload simp: split_beta split: sum.split option.split)

lemma renames: "obeys R (execute_renames_x E D plan)"
  unfolding execute_renames_x_def rename_unsupported_x_def rename_step_def
  by (auto intro!: steps send simp: split_beta split: sum.split option.split)

lemma execute_deletions:
  assumes "set (sp_post_deletes plan) \<subseteq> A"
  shows "obeys R (execute_deletions_x E C plan)"
  unfolding execute_deletions_x_def
  using assms
  by (auto intro!: steps judge_deletions fold_in post_delete reappeared simp: split_beta
      dest!: set_zip_leftD)

lemma execute_plan:
  assumes "set (sp_pre_deletes plan) \<union> set (sp_post_deletes plan) \<subseteq> A"
  shows "obeys R (execute_plan_x E C options schedule plan)"
  unfolding execute_plan_x_def
  using assms by (auto intro!: steps execute_writes execute_deletions renames)

end

end
