(* ===== verification/ExecEval.thy ===== *)
theory ExecEval
  imports Execute
begin

text \<open>
  Evaluation of the executor's definitions: each step is unfolded only at a state, so that the
  kernel computes one branch at a time.
\<close>

lemma primitive_code [code]:
  "ret_x a s = (Inr a, s)"
  "fail_x e s = (Inl e, s)"
  "lift_x r s = (r, s)"
  "bind_x m f s = (case m s of (r, s') \<Rightarrow> (case r of Inl e \<Rightarrow> (Inl e, s') | Inr a \<Rightarrow> f a s'))"
  "then_x m k s = bind_x m (\<lambda>_. k) s"
  "attempt_x m s = (case m s of (r, s') \<Rightarrow> (Inr r, s'))"
  "modify_x g s = (Inr (), g s)"
  "gets_x h s = (Inr (h s), s)"
  "ask_x op s = (case op (es_world s) of (r, w) \<Rightarrow> (r, s\<lparr>es_world := w\<rparr>))"
  "send_x op log s = (case op (es_world s) of (r, w) \<Rightarrow>
     (r, s\<lparr>es_world := w, es_requests := es_requests s @ [log (\<not> isl r)]\<rparr>))"
  "judge_x s = (rb_check (es_breaker s), s)"
  by (simp_all add: ret_x_def fail_x_def lift_x_def bind_x_def then_x_def attempt_x_def modify_x_def
      gets_x_def ask_x_def send_x_def judge_x_def)

lemma loop_code [code]:
  "each_x g [] s = (Inr (), s)"
  "each_x g (x # xs) s = then_x (g x) (each_x g xs) s"
  "fold_x h c [] s = (Inr c, s)"
  "fold_x h c (x # xs) s = bind_x (h c x) (\<lambda>d. fold_x h d xs) s"
  by (simp_all add: ret_x_def)

lemmas step_code [code] =
  check_x_def [THEN fun_cong] event_x_def [THEN fun_cong] report_x_def [THEN fun_cong]
  defer_x_def [THEN fun_cong] defer_local_x_def [THEN fun_cong] settle_x_def [THEN fun_cong]
  covered_x_def [THEN fun_cong] verify_live_x_def [THEN fun_cong]
  upload_precondition_x_def [THEN fun_cong] upload_x_def [THEN fun_cong]
  exclude_covered_x_def [THEN fun_cong] uploads_x_def [THEN fun_cong]
  preflight_x_def [THEN fun_cong] live_changed_x_def [THEN fun_cong] delete_x_def [THEN fun_cong]
  uncovered_x_def [THEN fun_cong] pre_deletes_x_def [THEN fun_cong]
  create_refused_x_def [THEN fun_cong] exclude_and_defer_x_def [THEN fun_cong]
  copy_fallback_x_def [THEN fun_cong] copy_attempt_x_def [THEN fun_cong] copies_x_def [THEN fun_cong]
  start_breaker_x_def [THEN fun_cong] copies_phase_x_def [THEN fun_cong]
  uploads_phase_x_def [THEN fun_cong] execute_writes_x_def [THEN fun_cong]
  landed_check_step_def [THEN fun_cong] upload_checks_x_def [THEN fun_cong]
  judge_deletions_x_def [THEN fun_cong] guard_deferral_x_def [THEN fun_cong]
  live_deferral_x_def [THEN fun_cong] deletion_deferral_x_def [THEN fun_cong]
  keep_deletion_x_def [THEN fun_cong] gone_again_x_def [THEN fun_cong] reupload_x_def [THEN fun_cong]
  rename_unsupported_x_def [THEN fun_cong] rename_step_def [THEN fun_cong]
  execute_renames_x_def [THEN fun_cong] execute_deletions_x_def [THEN fun_cong]
  execute_plan_x_def [THEN fun_cong]

lemmas loop_step_code [code] =
  preflight_step_def [THEN fun_cong, THEN fun_cong] create_step_def [THEN fun_cong, THEN fun_cong]
  pre_delete_step_def [THEN fun_cong, THEN fun_cong] copy_step_def [THEN fun_cong, THEN fun_cong]
  copy_destination_step_def [THEN fun_cong, THEN fun_cong]
  collect_message_def [THEN fun_cong, THEN fun_cong]
  post_verdict_step_def [THEN fun_cong, THEN fun_cong]
  reappeared_step_def [THEN fun_cong, THEN fun_cong]

lemmas paired_step_code [code] =
  delete_extra_x_def [THEN fun_cong, THEN fun_cong, THEN fun_cong]
  post_delete_step_def [THEN fun_cong, THEN fun_cong, THEN fun_cong]

end
