(* ===== verification/ExecSafety.thy ===== *)
theory ExecSafety
  imports ExecContract ExecEval Demo
begin

text \<open>
  Safety of an execution: every deletion is a planned one and follows its own successful live
  check; and a concrete execution of a mirror plan, the input of the witnesses.
\<close>

section \<open>Deletions follow their checks\<close>

definition live_log :: "snapshot_check \<Rightarrow> request list" where
  "live_log check =
     (let path = sc_remote_path check; sz = sn_size (sc_expected check) in
      LiveMetadata path
        (if sc_local_mtime_ms check \<noteq> None then (sc_expected check)\<lparr>sn_require_mtime := False\<rparr>
         else sc_expected check) True
      # (case sn_md5 (sc_expected check) of
           None \<Rightarrow> []
         | Some fp \<Rightarrow>
             (case sc_evidence check of
                UploadedContent \<Rightarrow> [LiveUploaded path sz fp True]
              | ServerProduced \<Rightarrow> [LiveContent path sz fp True])))"

lemma verify_live_log:
  "verify_live_x C check s = (Inr (), t) \<Longrightarrow>
   es_requests t = es_requests s @ live_log check \<and> es_index t = es_index s"
  by (auto simp: verify_live_x_def live_log_def Let_def then_x_def bind_x_def send_x_def ret_x_def
      split: prod.splits sum.splits option.splits content_evidence.splits)

lemma live_log_quiet: "q \<in> set (live_log check) \<Longrightarrow> \<not> is_delete q"
  by (cases "sc_evidence check") (auto simp: live_log_def Let_def split: option.splits if_splits)

definition authorised :: "delete_action set \<Rightarrow> request list \<Rightarrow> bool" where
  "authorised A log =
     (\<forall>pre post path ok. log = pre @ DeleteSent path ok # post \<longrightarrow>
        (\<exists>a \<in> A. da_remote_path a = path \<and> suffix (live_log (delete_snapshot_check a)) pre))"

lemma authorised_quiet: "(\<forall>q \<in> set log. \<not> is_delete q) \<Longrightarrow> authorised A log"
  by (auto simp: authorised_def)

lemma authorised_append: "authorised A xs \<Longrightarrow> authorised A ys \<Longrightarrow> authorised A (xs @ ys)"
  unfolding authorised_def
proof (intro allI impI)
  fix pre post path ok
  assume xs: "\<forall>pre post path ok. xs = pre @ DeleteSent path ok # post \<longrightarrow>
        (\<exists>a \<in> A. da_remote_path a = path \<and> suffix (live_log (delete_snapshot_check a)) pre)"
    and ys: "\<forall>pre post path ok. ys = pre @ DeleteSent path ok # post \<longrightarrow>
        (\<exists>a \<in> A. da_remote_path a = path \<and> suffix (live_log (delete_snapshot_check a)) pre)"
    and split: "xs @ ys = pre @ DeleteSent path ok # post"
  then consider us where "xs = pre @ DeleteSent path ok # us" "us @ ys = post"
    | us where "pre = xs @ us" "ys = us @ DeleteSent path ok # post"
    by (auto simp: append_eq_append_conv2 append_eq_Cons_conv)
  then show "\<exists>a \<in> A. da_remote_path a = path \<and> suffix (live_log (delete_snapshot_check a)) pre"
  proof cases
    case 1
    with xs show ?thesis by blast
  next
    case 2
    with ys show ?thesis by (blast intro: suffix_appendI)
  qed
qed

lemma authorised_delete:
  "a \<in> A \<Longrightarrow> authorised A (live_log (delete_snapshot_check a) @ [DeleteSent (da_remote_path a) ok])"
  unfolding authorised_def
proof (intro allI impI)
  fix pre post path ok'
  assume a: "a \<in> A" and split: "live_log (delete_snapshot_check a) @ [DeleteSent (da_remote_path a) ok]
      = pre @ DeleteSent path ok' # post"
  have "post = []"
  proof (rule ccontr)
    assume "post \<noteq> []"
    with split have "DeleteSent path ok' \<in> set (live_log (delete_snapshot_check a))"
      by (cases post rule: rev_cases) (auto simp flip: append_assoc dest: arg_cong [where f = set])
    then show False using live_log_quiet by fastforce
  qed
  with split a show "\<exists>a \<in> A. da_remote_path a = path \<and> suffix (live_log (delete_snapshot_check a)) pre"
    by auto
qed

definition clean :: "delete_action set \<Rightarrow> 'w exec_state \<Rightarrow> 'w exec_state \<Rightarrow> bool" where
  "clean A s s' = (\<exists>new. es_requests s' = es_requests s @ new \<and> authorised A new)"

interpretation clean: request_contract "clean A" C A for A C
proof
  fix s t u :: "'w exec_state"
  show "clean A s s"
    by (auto simp: clean_def intro: authorised_quiet)
  show "clean A s t \<Longrightarrow> clean A t u \<Longrightarrow> clean A s u"
    by (auto simp: clean_def intro: authorised_append)
next
  fix s s' :: "'w exec_state"
  show "es_requests s' = es_requests s \<Longrightarrow>
      deferred_paths (es_index s) \<subseteq> deferred_paths (es_index s') \<Longrightarrow> clean A s s'"
    by (auto simp: clean_def intro: authorised_quiet)
  show "\<not> is_delete q \<Longrightarrow> es_requests s' = es_requests s @ [q] \<Longrightarrow> es_index s' = es_index s \<Longrightarrow>
      clean A s s'" for q
    by (auto simp: clean_def intro: authorised_quiet)
next
  fix a and C :: "'w client" and s t u :: "'w exec_state" and ok
  assume "a \<in> A" "verify_live_x C (delete_snapshot_check a) s = (Inr (), t)"
    "es_requests u = es_requests t @ [DeleteSent (da_remote_path a) ok]"
  then show "clean A s u"
    using authorised_delete [of a A ok] verify_live_log by (fastforce simp: clean_def)
qed

text \<open>
  C1. Whatever the NAS and the disk answer, whichever way the workers interleave and however the run
  ends, every deletion it sends is of an entry the plan deletes, and the requests right before it
  are the live checks of that entry: its metadata, and its content where the plan has a digest for
  it, both answered as planned.
\<close>

theorem deletions_verified_live:
  assumes "execute E C options schedule plan w = (r, s)"
    and "es_requests s = pre @ DeleteSent path ok # post"
  shows "\<exists>a \<in> set (sp_pre_deletes plan) \<union> set (sp_post_deletes plan).
    da_remote_path a = path \<and> suffix (live_log (delete_snapshot_check a)) pre"
proof -
  let ?A = "set (sp_pre_deletes plan) \<union> set (sp_post_deletes plan)"
  have "clean ?A (exec_start w report_start) s"
    using clean.execute_plan [of plan ?A E C options schedule] assms(1)
    by (auto simp: execute_def dest: obeysD)
  then show ?thesis
    using assms(2) by (auto simp: clean_def exec_start_def authorised_def)
qed

section \<open>A mirror run carried out\<close>

definition calm_fs :: local_fs where
  "calm_fs = \<lparr>fs_stat = (\<lambda>_. Inl \<lparr>io_kind_of = NotFound, io_text = ''absent''\<rparr>), fs_list = (\<lambda>_. Inr [])\<rparr>"

text \<open>A NAS that accepts everything, and holds what was planned.\<close>

definition calm_client :: "unit client" where
  "calm_client =
     \<lparr>cl_preflight_readable = (\<lambda>_ w. (Inr (), w)), cl_preflight_source = (\<lambda>_ w. (Inr (), w)),
      cl_delete = (\<lambda>_ w. (Inr (), w)), cl_create = (\<lambda>_ w. (Inr (), w)),
      cl_supports_rename = True, cl_rename = (\<lambda>_ to w. (Inr to, w)),
      cl_copy = (\<lambda>_ w. (Inr (), w)),
      cl_verify_batch = (\<lambda>checks w. (Inr (map (\<lambda>_. Matches) checks), w)),
      cl_verify_metadata = (\<lambda>_ _ w. (Inr (), w)), cl_verify_content = (\<lambda>_ _ _ w. (Inr (), w)),
      cl_verify_uploaded = (\<lambda>_ _ _ w. (Inr (), w)), cl_path_state = (\<lambda>_ w. (Inr AbsentPath, w)),
      cl_upload = (\<lambda>_ _ w. (Inr (), w)), cl_fs = (\<lambda>_. calm_fs),
      cl_hash = (\<lambda>_ _. Inr (Fingerprint [] None)), cl_cancelled = (\<lambda>w. (False, w))\<rparr>"

definition run_options :: execute_options where
  "run_options = \<lparr>xo_jobs = 2, xo_dry_run = False\<rparr>"

definition mirror_execution :: "unit res \<times> unit exec_state" where
  "mirror_execution =
     execute plain_env calm_client run_options [0, 1, 1, 0, 0, 1] mirror_result ()"

definition run_log :: "sync_plan \<Rightarrow> unit res \<times> unit exec_state" where
  "run_log plan = execute plain_env calm_client run_options [0, 1, 1, 0, 0, 1] plan ()"

definition deletes_sent :: "request list \<Rightarrow> string list" where
  "deletes_sent log = List.map_filter (\<lambda>q. case q of DeleteSent p ok \<Rightarrow> Some p | _ \<Rightarrow> None) log"

definition uploads_sent :: "request list \<Rightarrow> string list" where
  "uploads_sent log = List.map_filter (\<lambda>q. case q of UploadSent l p ok \<Rightarrow> Some p | _ \<Rightarrow> None) log"

definition changes_of :: "unit res \<times> unit exec_state \<Rightarrow> bool \<times> string list \<times> string list" where
  "changes_of run =
     (isl (fst run), uploads_sent (es_requests (snd run)), deletes_sent (es_requests (snd run)))"

lemma mirror_execution_run:
  "changes_of mirror_execution = (False, [''/s/d/edit'', ''/s/d/a/new''], [''/s/d/old/gone'', ''/s/d/old''])"
proof -
  have "map_r (\<lambda>plan. changes_of (run_log plan)) mirror_plan
      = Inr (False, [''/s/d/edit'', ''/s/d/a/new''], [''/s/d/old/gone'', ''/s/d/old''])"
    by code_simp
  from map_r_result(2) [OF this, folded mirror_result_def] show ?thesis
    by (simp add: mirror_execution_def run_log_def)
qed

lemma deletes_sent_iff: "path \<in> set (deletes_sent log) \<longleftrightarrow> (\<exists>ok. DeleteSent path ok \<in> set log)"
proof (induction log)
  case Nil
  then show ?case by (simp add: deletes_sent_def List.map_filter_simps)
next
  case (Cons q log)
  then show ?case by (cases q) (auto simp: deletes_sent_def List.map_filter_simps)
qed

theorem deletions_verified_live_witness:
  "\<exists>pre post ok. es_requests (snd mirror_execution) = pre @ DeleteSent ''/s/d/old'' ok # post
   \<and> (\<exists>a \<in> set (sp_pre_deletes mirror_result) \<union> set (sp_post_deletes mirror_result).
        da_remote_path a = ''/s/d/old'' \<and> suffix (live_log (delete_snapshot_check a)) pre)"
proof -
  have "''/s/d/old'' \<in> set (deletes_sent (es_requests (snd mirror_execution)))"
    using mirror_execution_run by (simp add: changes_of_def)
  then obtain ok where "DeleteSent ''/s/d/old'' ok \<in> set (es_requests (snd mirror_execution))"
    using deletes_sent_iff by blast
  then obtain pre post where split:
    "es_requests (snd mirror_execution) = pre @ DeleteSent ''/s/d/old'' ok # post"
    by (meson split_list)
  have "execute plain_env calm_client run_options [0, 1, 1, 0, 0, 1] mirror_result ()
      = (fst mirror_execution, snd mirror_execution)"
    by (simp add: mirror_execution_def)
  from deletions_verified_live [OF this split] split show ?thesis
    by blast
qed

end
