(* ===== verification/PoolFacts.thy ===== *)
theory PoolFacts
  imports ExecContract
begin

text \<open>
  The upload workers under every schedule: they end, each planned upload is taken at most once, and
  when the phase reports no failure every upload was sent or is deferred, unless the run was
  cancelled.
\<close>

section \<open>The workers end\<close>

text \<open>How many of its own steps a worker is from its end, the queue aside.\<close>

fun rank :: "worker \<Rightarrow> nat" where
  "rank Ended = 0"
| "rank Popping = 1"
| "rank Looking = 2"
| "rank (Posting a outcome) = 3"
| "rank (Judging a outcome) = 4"
| "rank (Sending a) = 5"
| "rank (Ready a) = 6"
| "rank (Probing a) = 7"

lemma judge_outcome_frame [simp]:
  "up_workers (judge_outcome a outcome p) = up_workers p"
  "up_queue (judge_outcome a outcome p) = up_queue p"
  "up_posted (judge_outcome a outcome p) = up_posted p"
  "es_world (up_exec (judge_outcome a outcome p)) = es_world (up_exec p)"
  "es_requests (up_exec (judge_outcome a outcome p)) = es_requests (up_exec p)"
  by (simp_all add: judge_outcome_def Let_def split: upload_outcome.split sum.split)

lemma stop_seen_frame:
  "stop_seen C p = (b, q) \<Longrightarrow> up_workers q = up_workers p \<and> up_queue q = up_queue p
     \<and> up_posted q = up_posted p \<and> up_stop q = up_stop p \<and> up_tripped q = up_tripped p
     \<and> es_requests (up_exec q) = es_requests (up_exec p)"
  by (auto simp: stop_seen_def split: if_splits prod.splits)

lemma worker_step_workers: "worker_step E C w p = (w', q) \<Longrightarrow> up_workers q = up_workers p"
  by (cases w) (auto split: prod.splits list.splits dest: stop_seen_frame)

lemma worker_step_rank:
  assumes "worker_step E C w p = (w', q)"
  shows "length (up_queue q) \<le> length (up_queue p)"
    and "w \<noteq> Ended \<Longrightarrow> 7 * length (up_queue q) + rank w' < 7 * length (up_queue p) + rank w"
    and "w = Ended \<Longrightarrow> w' = Ended"
  using assms
  by (cases w; auto simp: probe_outcome_def split: prod.splits list.splits sum.splits if_splits
      dest!: stop_seen_frame)+

lemma pool_move_frame:
  "length (up_workers (pool_move E C p i)) = length (up_workers p)"
  "length (up_queue (pool_move E C p i)) \<le> length (up_queue p)"
  "j \<noteq> i \<Longrightarrow> up_workers (pool_move E C p i) ! j = up_workers p ! j"
  by (auto simp: pool_move_def split: prod.splits dest: worker_step_workers worker_step_rank)

lemma pool_move_ended:
  "j < length (up_workers p) \<Longrightarrow> up_workers p ! j = Ended \<Longrightarrow> up_workers (pool_move E C p i) ! j = Ended"
  by (cases "j = i") (simp add: pool_move_def, simp add: pool_move_frame)

lemma pool_run_frame:
  "length (up_workers (pool_run E C p schedule)) = length (up_workers p)"
  "length (up_queue (pool_run E C p schedule)) \<le> length (up_queue p)"
  "j < length (up_workers p) \<Longrightarrow> up_workers p ! j = Ended \<Longrightarrow>
     up_workers (pool_run E C p schedule) ! j = Ended"
proof (induction schedule arbitrary: p)
  case Nil
  { case 1 then show ?case by (simp add: pool_run_def) }
  { case 2 then show ?case by (simp add: pool_run_def) }
  { case 3 then show ?case by (simp add: pool_run_def) }
next
  case (Cons i schedule)
  have run: "pool_run E C p (i # schedule) = pool_run E C (pool_move E C p i) schedule" for p
    by (simp add: pool_run_def)
  { case 1 then show ?case using Cons.IH(1) by (simp add: run pool_move_frame) }
  { case 2
    then show ?case
      unfolding run using Cons.IH(2) [of "pool_move E C p i"] pool_move_frame(2) [of E C p i]
      by linarith }
  { case 3
    then show ?case
      unfolding run using Cons.IH(3) [of "pool_move E C p i"] pool_move_ended [of j p E C i]
      by (simp add: pool_move_frame) }
qed

lemma run_one_ends:
  "i < length (up_workers p) \<Longrightarrow> 7 * length (up_queue p) + rank (up_workers p ! i) \<le> n \<Longrightarrow>
   up_workers (pool_run E C p (replicate n i)) ! i = Ended"
proof (induction n arbitrary: p)
  case 0
  then show ?case
    by (cases "up_workers p ! i") (simp_all add: pool_run_def)
next
  case (Suc n)
  show ?case
  proof (cases "up_workers p ! i = Ended")
    case True
    then show ?thesis using Suc.prems(1) by (rule pool_run_frame(3) [rotated])
  next
    case False
    obtain w q where step: "worker_step E C (up_workers p ! i) p = (w, q)"
      by fastforce
    have "7 * length (up_queue q) + rank w < 7 * length (up_queue p) + rank (up_workers p ! i)"
      using worker_step_rank(2) [OF step False] .
    then have "up_workers (pool_run E C (pool_move E C p i) (replicate n i)) ! i = Ended"
      using Suc.prems step worker_step_workers [OF step]
      by (intro Suc.IH) (simp_all add: pool_move_def)
    then show ?thesis
      by (simp add: pool_run_def)
  qed
qed

lemma pool_run_append: "pool_run E C p (xs @ ys) = pool_run E C (pool_run E C p xs) ys"
  by (simp add: pool_run_def)

lemma rank_le: "rank w \<le> 7"
  by (cases w) simp_all

lemma closing_ends:
  "m \<le> length (up_workers p) \<Longrightarrow> length (up_queue p) \<le> n \<Longrightarrow> i < m \<Longrightarrow>
   up_workers (pool_run E C p (closing_schedule m n)) ! i = Ended"
proof (induction m)
  case 0
  then show ?case by simp
next
  case (Suc m)
  let ?q = "pool_run E C p (closing_schedule m n)"
  have run: "pool_run E C p (closing_schedule (Suc m) n) = pool_run E C ?q (replicate (7 * Suc n) m)"
    by (simp add: closing_schedule_def pool_run_append)
  have len: "length (up_workers ?q) = length (up_workers p)"
    and queue: "length (up_queue ?q) \<le> length (up_queue p)"
    by (rule pool_run_frame)+
  show ?case
  proof (cases "i = m")
    case True
    have "length (up_queue ?q) \<le> n"
      using queue Suc.prems(2) by (rule order_trans)
    then have "7 * length (up_queue ?q) + rank (up_workers ?q ! m) \<le> 7 * Suc n"
      using rank_le [of "up_workers ?q ! m"] by simp
    then show ?thesis
      unfolding run True using Suc.prems len by (intro run_one_ends) simp_all
  next
    case False
    then have "up_workers ?q ! i = Ended"
      using Suc by simp
    moreover have "i < length (up_workers ?q)"
      using Suc.prems len by simp
    ultimately show ?thesis
      unfolding run by (rule pool_run_frame(3) [rotated])
  qed
qed

lemma drained_pool_ends:
  "w \<in> set (up_workers (drained_pool E C jobs schedule us s)) \<Longrightarrow> w = Ended"
proof -
  let ?k = "worker_count jobs us"
  let ?p = "pool_run E C (pool_open ?k us s) schedule"
  have len: "length (up_workers ?p) = ?k" and queue: "length (up_queue ?p) \<le> length us"
    using pool_run_frame(1,2) [of E C "pool_open ?k us s" schedule] by (simp_all add: pool_open_def)
  have run: "drained_pool E C jobs schedule us s = pool_run E C ?p (closing_schedule ?k (length us))"
    by (simp add: drained_pool_def pool_run_append)
  assume "w \<in> set (up_workers (drained_pool E C jobs schedule us s))"
  then show "w = Ended"
    unfolding run using closing_ends [of ?k ?p "length us"] len queue pool_run_frame(1)
    by (metis in_set_conv_nth order_refl)
qed

section \<open>Every upload is accounted for\<close>

definition landed :: "upload_action \<Rightarrow> 'w exec_state \<Rightarrow> bool" where
  "landed a s = (UploadSent (ua_local a) (ua_remote_path a) True \<in> set (es_requests s))"

fun holds :: "worker \<Rightarrow> upload_action option" where
  "holds (Probing a) = Some a"
| "holds (Ready a) = Some a"
| "holds (Sending a) = Some a"
| "holds (Judging a outcome) = Some a"
| "holds (Posting a outcome) = Some a"
| "holds _ = None"

fun outcome_of :: "worker \<Rightarrow> (upload_action \<times> upload_outcome) option" where
  "outcome_of (Judging a outcome) = Some (a, outcome)"
| "outcome_of (Posting a outcome) = Some (a, outcome)"
| "outcome_of _ = None"

text \<open>
  The token: once it is found cancelled it stays so through the requests of the workers. \<open>P\<close> is
  the worlds in which it is.
\<close>

definition cancel_sticks :: "'w client \<Rightarrow> ('w \<Rightarrow> bool) \<Rightarrow> bool" where
  "cancel_sticks C P =
     (\<forall>w. (fst (cl_cancelled C w) \<longrightarrow> P (snd (cl_cancelled C w)))
        \<and> (P w \<longrightarrow> fst (cl_cancelled C w) \<and> P (snd (cl_cancelled C w)))
        \<and> (\<forall>path. P w \<longrightarrow> P (snd (cl_path_state C path w)))
        \<and> (\<forall>l path. P w \<longrightarrow> P (snd (cl_upload C l path w))))"

definition halted :: "('w \<Rightarrow> bool) \<Rightarrow> 'w upload_pool \<Rightarrow> bool" where
  "halted P p = (up_stop p \<or> P (es_world (up_exec p)))"

definition posted_for :: "upload_action \<Rightarrow> 'w upload_pool \<Rightarrow> bool" where
  "posted_for a p =
     (\<exists>outcome. (l_relative (ua_local a), l_size (ua_local a), outcome) \<in> set (up_posted p)
        \<and> (outcome = UploadDone \<longrightarrow> landed a (up_exec p)))"

definition accounted :: "('w \<Rightarrow> bool) \<Rightarrow> upload_action \<Rightarrow> 'w upload_pool \<Rightarrow> bool" where
  "accounted P a p =
     (a \<in> set (up_queue p) \<or> (\<exists>w \<in> set (up_workers p). holds w = Some a) \<or> posted_for a p \<or> halted P p)"

definition done_landed :: "'w upload_pool \<Rightarrow> bool" where
  "done_landed p =
     (\<forall>w \<in> set (up_workers p). \<forall>a. outcome_of w = Some (a, UploadDone) \<longrightarrow> landed a (up_exec p))"

text \<open>A stop has a cause that the collector will find.\<close>

definition stop_has_cause :: "'w upload_pool \<Rightarrow> bool" where
  "stop_has_cause p =
     (up_stop p \<longrightarrow> up_tripped p \<noteq> None
        \<or> (\<exists>m \<in> set (up_posted p). \<exists>e. snd (snd m) = UploadFailed e)
        \<or> (\<exists>w \<in> set (up_workers p). \<exists>a e. w = Posting a (UploadFailed e)))"

definition ends_empty :: "('w \<Rightarrow> bool) \<Rightarrow> 'w upload_pool \<Rightarrow> bool" where
  "ends_empty P p =
     ((\<exists>w \<in> set (up_workers p). w = Ended) \<longrightarrow> halted P p \<or> up_queue p = [])"

lemma ex_update:
  "i < length ws \<Longrightarrow> \<exists>w \<in> set ws. Q w \<Longrightarrow> (Q (ws ! i) \<Longrightarrow> Q v) \<Longrightarrow> \<exists>w \<in> set (ws[i := v]). Q w"
  by (metis in_set_conv_nth length_list_update nth_list_update)

lemma all_update: "\<forall>w \<in> set ws. Q w \<Longrightarrow> Q v \<Longrightarrow> \<forall>w \<in> set (ws[i := v]). Q w"
  using set_update_subset_insert by fastforce

lemma landed_step: "worker_step E C w p = (w', q) \<Longrightarrow> landed a (up_exec p) \<Longrightarrow> landed a (up_exec q)"
  using grow.worker_obeys [of E C w p w' q] by (auto simp: landed_def grows_def prefix_def)

lemma stop_seen_world:
  assumes "cancel_sticks C P" and "stop_seen C p = (b, q)"
  shows "halted P p \<Longrightarrow> halted P q" and "b \<Longrightarrow> halted P q"
  using assms by (auto simp: stop_seen_def halted_def cancel_sticks_def split: if_splits prod.splits)
    (metis fst_conv snd_conv)+

lemma upload_x_landed:
  "upload_x C (ua_local a) (ua_remote_path a) s = (Inr (), t) \<Longrightarrow> landed a t"
  by (auto simp: upload_x_def send_x_def landed_def split: prod.splits)

lemma halted_step:
  assumes stick: "cancel_sticks C P" and step: "worker_step E C w p = (w', q)" and h: "halted P p"
  shows "halted P q"
proof (cases w)
  case Looking
  with step h show ?thesis
    by (auto split: prod.splits intro: stop_seen_world [OF stick])
next
  case (Ready a)
  with step h show ?thesis
    by (auto split: prod.splits intro: stop_seen_world [OF stick])
next
  case (Probing a)
  then obtain r s where p: "upload_precondition_x C (ua_remote_path a) (ua_expected a) (up_exec p) = (r, s)"
    "q = p\<lparr>up_exec := s\<rparr>"
    using step by (auto split: prod.splits)
  then have "es_world s = snd (cl_path_state C (ua_remote_path a) (es_world (up_exec p)))"
    by (auto simp: upload_precondition_x_def bind_x_def ask_x_def ret_x_def split: prod.splits sum.splits)
  with h stick p show ?thesis
    by (auto simp: halted_def cancel_sticks_def)
next
  case (Sending a)
  then obtain r s where p: "upload_x C (ua_local a) (ua_remote_path a) (up_exec p) = (r, s)"
    "q = p\<lparr>up_exec := s\<rparr>"
    using step by (auto split: prod.splits)
  then have "es_world s = snd (cl_upload C (ua_local a) (ua_remote_path a) (es_world (up_exec p)))"
    by (auto simp: upload_x_def send_x_def split: prod.splits)
  with h stick p show ?thesis
    by (auto simp: halted_def cancel_sticks_def)
next
  case (Judging a outcome)
  with step h show ?thesis
    by (auto simp: halted_def judge_outcome_def Let_def split: upload_outcome.splits sum.splits)
qed (use step h in \<open>auto simp: halted_def split: list.splits\<close>)

text \<open>What one step does to the worker itself, its action and the lists.\<close>

lemma holds_probe [simp]: "holds (probe_outcome a r) = Some a"
  by (simp add: probe_outcome_def split: sum.split)

lemma step_action:
  assumes step: "worker_step E C w p = (w', q)" and a: "holds w = Some a"
    and fin: "\<And>b. outcome_of w = Some (b, UploadDone) \<Longrightarrow> landed b (up_exec p)"
    and stick: "cancel_sticks C P"
  shows "holds w' = Some a \<or> posted_for a q \<or> halted P q"
proof (cases w)
  case (Ready b)
  with step a stick show ?thesis
    by (auto split: prod.splits if_splits dest: stop_seen_world)
next
  case (Posting b outcome)
  then have q: "q = p\<lparr>up_posted := up_posted p
        @ [(l_relative (ua_local b), l_size (ua_local b), outcome)]\<rparr>" "b = a"
    using step a by auto
  have "posted_for a q"
    unfolding q posted_for_def using fin Posting by (auto simp: q intro!: exI [of _ outcome])
  then show ?thesis by blast
qed (use step a in \<open>auto split: prod.splits\<close>)

lemma step_lists:
  assumes "worker_step E C w p = (w', q)"
  shows "set (up_posted p) \<subseteq> set (up_posted q)"
    and "a \<in> set (up_queue p) \<Longrightarrow> a \<in> set (up_queue q) \<or> holds w' = Some a"
    and "posted_for a p \<Longrightarrow> posted_for a q"
proof -
  show lists: "set (up_posted p) \<subseteq> set (up_posted q)"
    using assms by (cases w) (auto split: prod.splits list.splits dest!: stop_seen_frame)
  show "a \<in> set (up_queue p) \<Longrightarrow> a \<in> set (up_queue q) \<or> holds w' = Some a"
    using assms by (cases w) (auto split: prod.splits list.splits dest!: stop_seen_frame)
  show "posted_for a p \<Longrightarrow> posted_for a q"
    using lists landed_step [OF assms] by (auto simp: posted_for_def)
qed

lemma posted_workers [simp]:
  "posted_for a (p\<lparr>up_workers := ws\<rparr>) = posted_for a p"
  "halted P (p\<lparr>up_workers := ws\<rparr>) = halted P p"
  by (simp_all add: posted_for_def halted_def)

lemma accounted_move:
  assumes acc: "accounted P a p" and fin: "done_landed p" and stick: "cancel_sticks C P"
  shows "accounted P a (pool_move E C p i)"
proof (cases "i < length (up_workers p)")
  case False
  with acc show ?thesis by (simp add: pool_move_def)
next
  case True
  obtain w' q where step: "worker_step E C (up_workers p ! i) p = (w', q)"
    by fastforce
  have move: "pool_move E C p i = q\<lparr>up_workers := (up_workers p)[i := w']\<rparr>"
    using True step worker_step_workers [OF step] by (simp add: pool_move_def)
  have own: "outcome_of (up_workers p ! i) = Some (b, UploadDone) \<Longrightarrow> landed b (up_exec p)" for b
    using fin nth_mem [OF True] by (auto simp: done_landed_def)
  have w': "w' \<in> set ((up_workers p)[i := w'])"
    using True by (simp add: set_update_memI)
  from acc consider "a \<in> set (up_queue p)" | "\<exists>w \<in> set (up_workers p). holds w = Some a"
    | "posted_for a p" | "halted P p"
    by (auto simp: accounted_def)
  then show ?thesis
  proof cases
    case 1
    with step_lists(2) [OF step] w' show ?thesis by (auto simp: accounted_def move)
  next
    case 2
    have "holds w' = Some a \<or> posted_for a q \<or> halted P q" if "holds (up_workers p ! i) = Some a"
      using step_action [OF step that own stick] .
    then show ?thesis
      using ex_update [OF True 2] by (auto simp: accounted_def move)
  next
    case 3
    with step_lists(3) [OF step] show ?thesis by (simp add: accounted_def move)
  next
    case 4
    with halted_step [OF stick step] show ?thesis by (simp add: accounted_def move)
  qed
qed

lemma done_landed_move:
  assumes "done_landed p"
  shows "done_landed (pool_move E C p i)"
proof (cases "i < length (up_workers p)")
  case False
  with assms show ?thesis by (simp add: pool_move_def)
next
  case True
  obtain w' q where step: "worker_step E C (up_workers p ! i) p = (w', q)"
    by fastforce
  have move: "pool_move E C p i = q\<lparr>up_workers := (up_workers p)[i := w']\<rparr>"
    using True step worker_step_workers [OF step] by (simp add: pool_move_def)
  have own: "outcome_of w' = Some (a, UploadDone) \<Longrightarrow> landed a (up_exec q)" for a
  proof (cases "up_workers p ! i")
    case (Sending b)
    then show "outcome_of w' = Some (a, UploadDone) \<Longrightarrow> ?thesis"
      using step upload_x_landed
      by (auto simp: upload_outcome_of_def split: prod.splits sum.splits option.splits)
  next
    case (Judging b outcome)
    then show "outcome_of w' = Some (a, UploadDone) \<Longrightarrow> ?thesis"
      using step assms True nth_mem [OF True] by (auto simp: done_landed_def landed_def)
  qed (use step in \<open>auto simp: probe_outcome_def split: prod.splits list.splits sum.splits if_splits\<close>)
  have "\<forall>w \<in> set (up_workers p). \<forall>a. outcome_of w = Some (a, UploadDone) \<longrightarrow> landed a (up_exec q)"
    using assms landed_step [OF step] by (auto simp: done_landed_def)
  moreover have "\<forall>a. outcome_of w' = Some (a, UploadDone) \<longrightarrow> landed a (up_exec q)"
    using own by blast
  ultimately have "\<forall>w \<in> set ((up_workers p)[i := w']). \<forall>a. outcome_of w = Some (a, UploadDone)
      \<longrightarrow> landed a (up_exec q)"
    by (rule all_update)
  then show ?thesis
    by (simp add: done_landed_def move)
qed

lemma stop_cause_move:
  assumes "stop_has_cause p"
  shows "stop_has_cause (pool_move E C p i)"
proof (cases "i < length (up_workers p)")
  case False
  with assms show ?thesis by (simp add: pool_move_def)
next
  case True
  obtain w' q where step: "worker_step E C (up_workers p ! i) p = (w', q)"
    by fastforce
  have move: "pool_move E C p i = q\<lparr>up_workers := (up_workers p)[i := w']\<rparr>"
    using True step worker_step_workers [OF step] by (simp add: pool_move_def)
  have w': "w' \<in> set ((up_workers p)[i := w'])"
    using True by (simp add: set_update_memI)
  let ?failed = "\<lambda>w. \<exists>a e. w = Posting a (UploadFailed e)"
  have own: "up_stop q \<Longrightarrow> (up_stop p \<and> (up_tripped p \<noteq> None \<longrightarrow> up_tripped q \<noteq> None)
        \<and> (?failed (up_workers p ! i) \<longrightarrow> (\<exists>m \<in> set (up_posted q). \<exists>e. snd (snd m) = UploadFailed e)))
      \<or> up_tripped q \<noteq> None \<or> ?failed w'"
  proof (cases "up_workers p ! i")
    case (Judging b outcome)
    then show "up_stop q \<Longrightarrow> ?thesis"
      using step by (cases outcome) (auto simp: judge_outcome_def Let_def split: sum.splits option.splits)
  qed (use step in \<open>auto split: prod.splits list.splits dest!: stop_seen_frame\<close>)
  have cause: "up_tripped q \<noteq> None \<or> (\<exists>m \<in> set (up_posted q). \<exists>e. snd (snd m) = UploadFailed e)
      \<or> (\<exists>w \<in> set ((up_workers p)[i := w']). ?failed w)" if stop: "up_stop q"
  proof -
    from own [OF stop] consider "up_tripped q \<noteq> None" | "?failed w'"
      | "up_stop p" "up_tripped p \<noteq> None \<longrightarrow> up_tripped q \<noteq> None"
        "?failed (up_workers p ! i) \<longrightarrow> (\<exists>m \<in> set (up_posted q). \<exists>e. snd (snd m) = UploadFailed e)"
      by blast
    then show ?thesis
    proof cases
      case 2
      with w' show ?thesis by blast
    next
      case 3
      with assms consider "up_tripped q \<noteq> None"
        | "\<exists>m \<in> set (up_posted p). \<exists>e. snd (snd m) = UploadFailed e"
        | "\<exists>w \<in> set (up_workers p). ?failed w"
        unfolding stop_has_cause_def by blast
      then show ?thesis
      proof cases
        case 3
        then show ?thesis
          using ex_update [OF True, of ?failed w'] own [OF stop] by blast
      qed (use step_lists(1) [OF step] in blast)+
    qed blast
  qed
  then show ?thesis
    by (simp add: stop_has_cause_def move)
qed

lemma ends_empty_move:
  assumes "ends_empty P p" and stick: "cancel_sticks C P"
  shows "ends_empty P (pool_move E C p i)"
proof (cases "i < length (up_workers p)")
  case False
  with assms show ?thesis by (simp add: pool_move_def)
next
  case True
  obtain w' q where step: "worker_step E C (up_workers p ! i) p = (w', q)"
    by fastforce
  have move: "pool_move E C p i = q\<lparr>up_workers := (up_workers p)[i := w']\<rparr>"
    using True step worker_step_workers [OF step] by (simp add: pool_move_def)
  have keep: "halted P q \<or> up_queue q = []" if "halted P p \<or> up_queue p = []"
    using that halted_step [OF stick step] worker_step_rank(1) [OF step] by auto
  have own: "halted P q \<or> up_queue q = []" if "w' = Ended" "up_workers p ! i \<noteq> Ended"
    using step that stop_seen_world(2) [OF stick]
    by (cases "up_workers p ! i")
      (auto simp: probe_outcome_def split: prod.splits list.splits sum.splits if_splits)
  show ?thesis
    unfolding ends_empty_def
  proof
    assume "\<exists>w \<in> set (up_workers (pool_move E C p i)). w = Ended"
    then have "Ended \<in> set ((up_workers p)[i := w'])"
      by (simp add: move)
    then have "Ended \<in> set (up_workers p) \<or> (w' = Ended \<and> up_workers p ! i \<noteq> Ended)"
      using set_update_subset_insert [of "up_workers p" i w'] nth_mem [OF True] by fastforce
    then show "halted P (pool_move E C p i) \<or> up_queue (pool_move E C p i) = []"
      using keep own assms(1) by (auto simp: ends_empty_def move)
  qed
qed

lemma pool_run_keeps:
  "(\<And>p i. I p \<Longrightarrow> I (pool_move E C p i)) \<Longrightarrow> I p \<Longrightarrow> I (pool_run E C p schedule)"
  unfolding pool_run_def by (induction schedule arbitrary: p) simp_all

lemma drained_pool_state:
  assumes stick: "cancel_sticks C P" and a: "a \<in> set us"
  shows "accounted P a (drained_pool E C jobs schedule us s)"
    and "stop_has_cause (drained_pool E C jobs schedule us s)"
    and "ends_empty P (drained_pool E C jobs schedule us s)"
proof -
  let ?p = "pool_open (worker_count jobs us) us s"
  have start: "accounted P a ?p" "done_landed ?p" "stop_has_cause ?p" "ends_empty P ?p"
    using a by (auto simp: accounted_def done_landed_def stop_has_cause_def ends_empty_def pool_open_def)
  show "accounted P a (drained_pool E C jobs schedule us s)"
    unfolding drained_pool_def
    by (rule conjunct1, rule pool_run_keeps [of "\<lambda>p. accounted P a p \<and> done_landed p"])
      (use start in \<open>auto intro: accounted_move done_landed_move stick\<close>)
  show "stop_has_cause (drained_pool E C jobs schedule us s)"
    unfolding drained_pool_def by (rule pool_run_keeps) (auto intro: stop_cause_move start)
  show "ends_empty P (drained_pool E C jobs schedule us s)"
    unfolding drained_pool_def by (rule pool_run_keeps) (auto intro: ends_empty_move start stick)
qed

section \<open>What the collector makes of the messages\<close>

fun failure_of :: "upload_message \<Rightarrow> error option" where
  "failure_of (relative, sz, UploadFailed e) = Some e"
| "failure_of _ = None"

fun deferral_of :: "upload_message \<Rightarrow> string option" where
  "deferral_of (relative, sz, UploadDeferred reason detail refused) = Some relative"
| "deferral_of _ = None"

lemma bind_run: "m s = (Inr a, t) \<Longrightarrow> bind_x m f s = f a t"
  by (simp add: bind_x_def)

lemma defer_run: "defer_x E p r d s = (Inr (), snd (defer_x E p r d s))"
  by (simp add: prod_eq_iff deferred_state)

lemma collect_message_result:
  "fst (collect_message E fe m s) = Inr (case failure_of m of
       Some e \<Rightarrow> record_worker_error fe e | None \<Rightarrow> fe)
   \<and> es_world (snd (collect_message E fe m s)) = es_world s
   \<and> (\<forall>p. deferral_of m = Some p \<longrightarrow> p \<in> deferred_paths (es_index (snd (collect_message E fe m s))))"
proof -
  obtain p sz outcome where m: "m = (p, sz, outcome)"
    by (metis surj_pair)
  show ?thesis
  proof (cases outcome)
    case (UploadDeferred reason detail refused)
    have "collect_message E fe m s = (Inr fe, snd (defer_x E p reason detail s))"
      using bind_run [of "defer_x E p reason detail" s, OF defer_run]
      by (simp add: m UploadDeferred collect_message_def then_x_def ret_x_def)
    then show ?thesis
      by (simp add: m UploadDeferred deferred_state)
  qed (simp_all add: m collect_message_def then_x_def bind_x_def report_x_def event_x_def modify_x_def
      ret_x_def)
qed

lemma collect_all:
  "fold_x (collect_message E) fe ms s = (r, t) \<Longrightarrow>
   r = Inr (foldl record_worker_error fe (List.map_filter failure_of ms))
   \<and> es_world t = es_world s
   \<and> (\<forall>m \<in> set ms. \<forall>p. deferral_of m = Some p \<longrightarrow> p \<in> deferred_paths (es_index t))"
proof (induction ms arbitrary: fe s)
  case Nil
  then show ?case by (auto simp: ret_x_def List.map_filter_simps)
next
  case (Cons m ms)
  let ?s = "snd (collect_message E fe m s)"
  let ?fe = "case failure_of m of Some e \<Rightarrow> record_worker_error fe e | None \<Rightarrow> fe"
  note one = collect_message_result [of E fe m s]
  have "collect_message E fe m s = (Inr ?fe, ?s)"
    using one by (metis prod.collapse)
  note step = bind_run [of "collect_message E fe m" s, OF this]
  have "bind_x (collect_message E fe m) (\<lambda>d. fold_x (collect_message E) d ms) s = (r, t)"
    using Cons.prems by simp
  then have rest: "fold_x (collect_message E) ?fe ms ?s = (r, t)"
    unfolding step .
  have "grows ?s t"
    using grow.fold [of "collect_message E" ?fe ms, OF grow.collect] rest by (rule obeysD)
  then have "deferred_paths (es_index ?s) \<subseteq> deferred_paths (es_index t)"
    by (simp add: grows_def)
  with Cons.IH [OF rest] one show ?case
    by (auto simp: List.map_filter_simps split: option.splits)
qed

lemma worker_error_Some: "foldl record_worker_error (Some e) es \<noteq> None"
  by (induction es arbitrary: e) (auto simp: record_worker_error_def)

lemma worker_errors_None: "foldl record_worker_error None es = None \<longleftrightarrow> es = []"
  using worker_error_Some by (cases es) (auto simp: record_worker_error_def)

lemma settled_uploads:
  assumes run: "settle_uploads E p = (Inr (), t)"
  shows "up_tripped p = None" and "\<forall>m \<in> set (up_posted p). failure_of m = None"
    and "\<forall>m \<in> set (up_posted p). \<forall>q. deferral_of m = Some q \<longrightarrow> q \<in> deferred_paths (es_index t)"
    and "es_world t = es_world (up_exec p)" and "grows (up_exec p) t"
proof -
  obtain r u where fold: "fold_x (collect_message E) None (up_posted p) (up_exec p) = (r, u)"
    by fastforce
  let ?fe = "foldl record_worker_error None (List.map_filter failure_of (up_posted p))"
  note all = collect_all [OF fold]
  have "(case with_tripped (up_tripped p) ?fe of Some e \<Rightarrow> fail_x e | None \<Rightarrow> ret_x ()) u = (Inr (), t)"
    using run fold all by (simp add: settle_uploads_def bind_x_def)
  then have none: "with_tripped (up_tripped p) ?fe = None" and t: "t = u"
    by (auto simp: fail_x_def ret_x_def split: option.splits)
  from none show "up_tripped p = None"
    using worker_error_Some by (auto simp: with_tripped_def record_worker_error_def split: option.splits if_splits)
  then have "?fe = None"
    using none by (simp add: with_tripped_def)
  then have empty: "List.map_filter failure_of (up_posted p) = []"
    by (simp only: worker_errors_None)
  have "List.map_filter failure_of ms = [] \<Longrightarrow> \<forall>m \<in> set ms. failure_of m = None" for ms
    by (induction ms) (auto simp: List.map_filter_simps split: option.splits)
  with empty show "\<forall>m \<in> set (up_posted p). failure_of m = None"
    by blast
  show "\<forall>m \<in> set (up_posted p). \<forall>q. deferral_of m = Some q \<longrightarrow> q \<in> deferred_paths (es_index t)"
    "es_world t = es_world (up_exec p)"
    using all t by auto
  show "grows (up_exec p) t"
    using run by (rule grow.settle_uploads_obeys)
qed

text \<open>
  When the upload phase ends without an error, under any schedule, every upload of it was sent and
  accepted or is deferred, unless the token is cancelled now.
\<close>

lemma uploads_settle:
  assumes stick: "cancel_sticks C P" and run: "uploads_x E C jobs schedule us s = (Inr (), t)"
    and live: "\<not> P (es_world t)" and a: "a \<in> set us"
  shows "landed a t \<or> l_relative (ua_local a) \<in> deferred_paths (es_index t)"
proof -
  let ?p = "drained_pool E C jobs schedule us s"
  have us: "us \<noteq> []"
    using a by auto
  then have settle: "settle_uploads E ?p = (Inr (), t)"
    using run by (simp add: uploads_x_def)
  note collected = settled_uploads [OF settle]
  note inv = drained_pool_state [OF stick a, where E = E and jobs = jobs and schedule = schedule and s = s]
  have ended: "\<forall>w \<in> set (up_workers ?p). w = Ended"
    using drained_pool_ends by blast
  have "length (up_workers ?p) = worker_count jobs us"
    using pool_run_frame(1) [of E C "pool_open (worker_count jobs us) us s"]
    by (simp add: drained_pool_def pool_open_def)
  then have "up_workers ?p \<noteq> []"
    using us by (cases us) (auto simp: worker_count_def)
  then have some: "\<exists>w \<in> set (up_workers ?p). w = Ended"
    using ended by (cases "up_workers ?p") auto
  have nofail: "\<not> (\<exists>m \<in> set (up_posted ?p). \<exists>e. snd (snd m) = UploadFailed e)"
  proof
    assume "\<exists>m \<in> set (up_posted ?p). \<exists>e. snd (snd m) = UploadFailed e"
    then obtain q sz e where "(q, sz, UploadFailed e) \<in> set (up_posted ?p)"
      by auto
    with collected(2) show False by fastforce
  qed
  have "\<not> up_stop ?p"
    using inv(2) collected(1) nofail ended unfolding stop_has_cause_def by blast
  then have "\<not> halted P ?p"
    using live collected(4) by (simp add: halted_def)
  moreover from this have "up_queue ?p = []"
    using inv(3) some unfolding ends_empty_def by blast
  moreover have "\<not> (\<exists>w \<in> set (up_workers ?p). holds w = Some a)"
    using ended by auto
  ultimately have "posted_for a ?p"
    using inv(1) by (auto simp: accounted_def)
  then obtain outcome where m: "(l_relative (ua_local a), l_size (ua_local a), outcome) \<in> set (up_posted ?p)"
    and sent: "outcome = UploadDone \<longrightarrow> landed a (up_exec ?p)"
    unfolding posted_for_def by blast
  show ?thesis
  proof (cases outcome)
    case UploadDone
    with sent collected(5) show ?thesis
      by (auto simp: landed_def grows_def prefix_def)
  next
    case (UploadDeferred reason detail refused)
    with m collected(3) show ?thesis by fastforce
  next
    case (UploadFailed e)
    with m nofail show ?thesis by fastforce
  qed
qed

end
