(* ===== verification/ExecSettle.thy ===== *)
theory ExecSettle
  imports PoolFacts ExecSafety
begin

text \<open>
  Every planned write is settled before the first extra entry is deleted: it was accepted by the
  NAS, or its path is covered by a deferral. The deletions of a mirror run are last.
\<close>

section \<open>Successful runs of composed steps\<close>

lemma bind_ends:
  assumes "bind_x m f s = (Inr b, u)"
  obtains a t where "m s = (Inr a, t)" and "f a t = (Inr b, u)"
  using assms by (auto simp: bind_x_def split: prod.splits sum.splits)

lemma then_ends:
  assumes "then_x m k s = (Inr b, u)"
  obtains a t where "m s = (Inr a, t)" and "k t = (Inr b, u)"
  using assms unfolding then_x_def by (rule bind_ends)

lemma attempt_ends:
  assumes "attempt_x m s = (Inr r, t)"
  shows "m s = (r, t)"
  using assms by (auto simp: attempt_x_def split: prod.splits)

lemma attempt_bind_ends:
  assumes "bind_x (attempt_x m) f s = (Inr b, t)"
  obtains r u where "m s = (r, u)" and "f r u = (Inr b, t)"
  using assms by (auto elim!: bind_ends dest!: attempt_ends)

section \<open>A settled write\<close>

text \<open>A path at or above it is deferred.\<close>

definition set_aside :: "'w exec_state \<Rightarrow> string \<Rightarrow> bool" where
  "set_aside s p = (\<exists>d \<in> deferred_paths (es_index s). at_or_beneath d p)"

definition create_settled :: "create_action \<Rightarrow> 'w exec_state \<Rightarrow> bool" where
  "create_settled a s = (CreateSent (ca_remote_path a) True \<in> set (es_requests s) \<or> set_aside s (ca_relative a))"

definition copy_settled :: "copy_action \<Rightarrow> 'w exec_state \<Rightarrow> bool" where
  "copy_settled a s =
     (CopySent a True \<in> set (es_requests s)
      \<or> UploadSent (cp_local a) (cp_to_remote_path a) True \<in> set (es_requests s)
      \<or> set_aside s (cp_to_relative a))"

definition upload_settled :: "upload_action \<Rightarrow> 'w exec_state \<Rightarrow> bool" where
  "upload_settled a s = (landed a s \<or> set_aside s (upload_relative a))"

definition writes_settled :: "sync_plan \<Rightarrow> 'w exec_state \<Rightarrow> bool" where
  "writes_settled plan s =
     ((\<forall>a \<in> set (sp_creates plan). create_settled a s)
      \<and> (\<forall>a \<in> set (sp_copies plan). copy_settled a s)
      \<and> (\<forall>a \<in> set (sp_uploads plan). upload_settled a s))"

lemmas settled_defs = create_settled_def copy_settled_def upload_settled_def landed_def set_aside_def

lemma set_aside_covered: "set_aside s p \<longleftrightarrow> covering (es_index s) p \<noteq> None"
  by (simp add: set_aside_def covering_iff del: not_None_eq)

lemma set_aside_self: "p \<in> deferred_paths (es_index s) \<Longrightarrow> set_aside s p"
  by (auto simp: set_aside_def at_or_beneath_def)

lemma settled_grows:
  assumes "grows s t"
  shows "set_aside s p \<Longrightarrow> set_aside t p" and "create_settled a s \<Longrightarrow> create_settled a t"
    and "copy_settled c s \<Longrightarrow> copy_settled c t" and "upload_settled u s \<Longrightarrow> upload_settled u t"
  using assms by (auto simp: settled_defs grows_def prefix_def)

lemma defer_sets_aside: "defer_x E p r d s = (q, t) \<Longrightarrow> set_aside t p"
  using deferred_state(5) [of E p r d s] by (auto intro: set_aside_self)

lemma defer_local_sets_aside: "defer_local_x E p e s = (Inr (), t) \<Longrightarrow> set_aside t p"
  by (auto simp: defer_local_x_def fail_x_def dest: defer_sets_aside split: option.splits)

section \<open>What a successful run establishes\<close>

definition lasting :: "('w exec_state \<Rightarrow> bool) \<Rightarrow> bool" where
  "lasting Q = (\<forall>s t. grows s t \<longrightarrow> Q s \<longrightarrow> Q t)"

definition ends :: "('w, 'a) exec \<Rightarrow> ('w exec_state \<Rightarrow> bool) \<Rightarrow> bool" where
  "ends m Q = (\<forall>s b t. m s = (Inr b, t) \<longrightarrow> Q t)"

named_theorems ends_rules "what composed steps establish"

lemma lasting_settled [ends_rules]:
  "lasting (\<lambda>s. set_aside s p)" "lasting (create_settled a)" "lasting (copy_settled c)"
  "lasting (upload_settled u)"
  using settled_grows by (auto simp: lasting_def)

lemma endsD: "ends m Q \<Longrightarrow> m s = (Inr b, t) \<Longrightarrow> Q t"
  by (simp add: ends_def)

lemma ends_mono: "ends m P \<Longrightarrow> (\<And>t. P t \<Longrightarrow> Q t) \<Longrightarrow> ends m Q"
  by (auto simp: ends_def)

lemma ends_fail [ends_rules]: "ends (fail_x e) Q"
  by (simp add: ends_def fail_x_def)

lemma ends_bind_last: "(\<And>a. ends (f a) Q) \<Longrightarrow> ends (bind_x m f) Q"
  by (auto simp: ends_def elim!: bind_ends)

lemma ends_then_last: "ends k Q \<Longrightarrow> ends (then_x m k) Q"
  unfolding then_x_def by (rule ends_bind_last)

lemma ends_bind_first: "ends m Q \<Longrightarrow> (\<And>a. obeys grows (f a)) \<Longrightarrow> lasting Q \<Longrightarrow> ends (bind_x m f) Q"
  by (fastforce simp: ends_def lasting_def elim!: bind_ends dest: obeysD)

lemma ends_then_first: "ends m Q \<Longrightarrow> obeys grows k \<Longrightarrow> lasting Q \<Longrightarrow> ends (then_x m k) Q"
  unfolding then_x_def by (rule ends_bind_first)

lemma ends_if: "ends m Q \<Longrightarrow> ends k Q \<Longrightarrow> ends (if b then m else k) Q"
  by simp

lemma ends_defer: "ends (defer_x E p r d) (\<lambda>s. set_aside s p)"
  by (auto simp: ends_def intro: defer_sets_aside)

lemma ends_defer_local: "ends (defer_local_x E p e) (\<lambda>s. set_aside s p)"
  by (auto simp: ends_def intro: defer_local_sets_aside)

lemma ends_set_aside:
  assumes "ends m (\<lambda>s. set_aside s p)" and "\<And>t. set_aside t p \<Longrightarrow> Q t" and "lasting Q" and "obeys grows k"
  shows "ends (then_x m k) Q"
  using assms by (auto intro: ends_then_first ends_mono)

lemmas ends_deferred = ends_set_aside [OF ends_defer] ends_set_aside [OF ends_defer_local]

lemma send_ends: "send_x op log s = (r, t) \<Longrightarrow> log (\<not> isl r) \<in> set (es_requests t)"
  by (auto simp: send_x_def split: prod.splits)

lemma ends_sent:
  assumes "\<And>t. log True \<in> set (es_requests t) \<Longrightarrow> Q t" and "lasting Q"
    and "\<And>a. obeys grows (f (Inr a))" and "\<And>e. ends (f (Inl e)) Q"
  shows "ends (bind_x (attempt_x (send_x op log)) f) Q"
  unfolding ends_def
proof (intro allI impI)
  fix s b t assume "bind_x (attempt_x (send_x op log)) f s = (Inr b, t)"
  then obtain r u where r: "send_x op log s = (r, u)" and f: "f r u = (Inr b, t)"
    by (rule attempt_bind_ends)
  show "Q t"
  proof (cases r)
    case (Inl e)
    with f assms(4) show ?thesis by (auto dest: endsD)
  next
    case (Inr a)
    have "Q u"
      using send_ends [OF r] Inr by (intro assms(1)) simp
    moreover have "grows u t"
      using f Inr assms(3) by (auto dest: obeysD)
    ultimately show ?thesis
      using assms(2) by (auto simp: lasting_def)
  qed
qed

lemma ends_covered:
  assumes "\<And>t. set_aside t p \<Longrightarrow> Q t" and "lasting Q" and "obeys grows m" and "ends k Q"
  shows "ends (bind_x (covered_x p) (\<lambda>covered. if covered then m else k)) Q"
  unfolding ends_def
proof (intro allI impI)
  fix s b t assume "bind_x (covered_x p) (\<lambda>covered. if covered then m else k) s = (Inr b, t)"
  then have run: "(if covering (es_index s) p \<noteq> None then m else k) s = (Inr b, t)"
    by (simp add: bind_x_def covered_x_def gets_x_def)
  show "Q t"
  proof (cases "set_aside s p")
    case True
    with run assms(1-3) show ?thesis
      by (auto simp: set_aside_covered lasting_def dest: obeysD)
  next
    case False
    with run assms(4) show ?thesis
      by (auto simp: set_aside_covered dest: endsD)
  qed
qed

section \<open>Folders and copies\<close>

lemma settledI [intro]:
  "CreateSent (ca_remote_path a) True \<in> set (es_requests s) \<Longrightarrow> create_settled a s"
  "set_aside s (ca_relative a) \<Longrightarrow> create_settled a s"
  "CopySent c True \<in> set (es_requests s) \<Longrightarrow> copy_settled c s"
  "UploadSent (cp_local c) (cp_to_remote_path c) True \<in> set (es_requests s) \<Longrightarrow> copy_settled c s"
  "set_aside s (cp_to_relative c) \<Longrightarrow> copy_settled c s"
  by (simp_all add: create_settled_def copy_settled_def)

lemma create_refused_settles: "ends (create_refused_x E a e) (create_settled a)"
proof -
  have "ends (then_x (settle_x f) (then_x (defer_x E (ca_relative a) r d) judge_x)) (create_settled a)"
    for f r d
    by (intro ends_then_last ends_deferred lasting_settled grow.steps) auto
  then show ?thesis
    by (cases e) (simp_all add: create_refused_x_def ends_fail)
qed

lemma create_step_settles: "ends (create_step E C (a, True)) (create_settled a)"
  unfolding create_step_def split_conv not_True_eq_False if_False
  by (intro ends_then_last ends_covered ends_sent lasting_settled)
    (auto intro: create_refused_settles grow.steps)

lemma exclude_and_defer_settles: "ends (exclude_and_defer_x E p r d) (\<lambda>s. set_aside s p)"
  unfolding exclude_and_defer_x_def
  by (intro ends_then_last ends_deferred lasting_settled grow.steps)

lemma left_out_settles:
  "ends (then_x (exclude_and_defer_x E (cp_to_relative c) r d) (ret_x copied)) (copy_settled c)"
  "ends (then_x (settle_x f) (then_x (defer_local_x E (cp_to_relative c) e)
      (then_x judge_x (ret_x copied)))) (copy_settled c)"
  by (intro ends_set_aside [OF exclude_and_defer_settles] ends_then_last [where k = "then_x _ _"]
      ends_deferred lasting_settled grow.steps; auto)+

lemma copy_fallback_settles: "ends (copy_fallback_x E C copied c e) (copy_settled c)"
  unfolding copy_fallback_x_def upload_x_def
  by (intro ends_bind_last ends_if ends_sent lasting_settled)
    (auto intro: left_out_settles grow.steps split: error.split)

lemma copy_attempt_settles: "ends (copy_attempt_x E C copied c) (copy_settled c)"
  unfolding copy_attempt_x_def
  by (intro ends_sent lasting_settled)
    (auto intro!: grow.steps intro: copy_fallback_settles ends_fail split: error.split sum.split)

lemma copy_step_settles: "ends (copy_step E C copied (c, v)) (copy_settled c)"
  unfolding copy_step_def split_conv Let_def
  by (rule ends_then_last)
    (auto intro!: ends_bind_last left_out_settles copy_attempt_settles split: sum.split)

lemma ends_each:
  assumes "ends (f x) Q" and "lasting Q" and "\<And>y. obeys grows (f y)"
  shows "x \<in> set xs \<Longrightarrow> ends (each_x f xs) Q"
proof (induction xs)
  case (Cons y ys)
  then show ?case
    using assms grow.each [of f ys, OF assms(3)]
    by (auto intro: ends_then_first ends_then_last)
qed simp

lemma ends_fold:
  assumes "\<And>c. ends (f c x) Q" and "lasting Q" and "\<And>c y. obeys grows (f c y)"
  shows "x \<in> set xs \<Longrightarrow> ends (fold_x f c xs) Q"
proof (induction xs arbitrary: c)
  case (Cons y ys)
  then show ?case
    using assms grow.fold [of f _ ys, OF assms(3)]
    by (auto intro: ends_bind_first ends_bind_last)
qed simp

text \<open>The batch answers every check it was asked, as \<open>judge_batch\<close> does.\<close>

definition answers_all :: "'w client \<Rightarrow> bool" where
  "answers_all C = (\<forall>checks w vs w'. cl_verify_batch C checks w = (Inr vs, w') \<longrightarrow> length vs = length checks)"

lemma answers_allD:
  assumes "answers_all C" and "ask_x (cl_verify_batch C checks) s = (Inr vs, u)"
  shows "length vs = length checks"
proof -
  obtain w where "cl_verify_batch C checks (es_world s) = (Inr vs, w)"
    using assms(2) by (auto simp: ask_x_def split: prod.splits)
  with assms(1) show ?thesis unfolding answers_all_def by blast
qed

lemma copies_settle:
  assumes "answers_all C" and "c \<in> set cs"
  shows "ends (copies_x E C cs) (copy_settled c)"
  unfolding ends_def
proof (intro allI impI)
  fix s b t assume "copies_x E C cs s = (Inr b, t)"
  then obtain vs u where vs: "ask_x (cl_verify_batch C (map source_snapshot_check cs)) s = (Inr vs, u)"
    and rest: "bind_x (fold_x (copy_step E C) [] (zip cs vs)) (\<lambda>copied.
     bind_x (ask_x (cl_verify_batch C (map destination_snapshot_check copied))) (\<lambda>verdicts.
       each_x (copy_destination_step C) (zip copied verdicts))) u = (Inr b, t)"
    unfolding copies_x_def by (rule bind_ends)
  have "length vs = length cs"
    using answers_allD [OF assms(1) vs] by simp
  with assms(2) obtain v where "(c, v) \<in> set (zip cs vs)"
    by (metis in_set_impl_in_set_zip1)
  then have "ends (fold_x (copy_step E C) [] (zip cs vs)) (copy_settled c)"
    by (intro ends_fold [of _ "(c, v)"] copy_step_settles lasting_settled grow.copy)
  then have "ends (bind_x (fold_x (copy_step E C) [] (zip cs vs)) (\<lambda>copied.
     bind_x (ask_x (cl_verify_batch C (map destination_snapshot_check copied))) (\<lambda>verdicts.
       each_x (copy_destination_step C) (zip copied verdicts)))) (copy_settled c)"
    by (intro ends_bind_first lasting_settled grow.bind grow.ask grow.each)
      (auto simp: copy_destination_step_def Let_def intro!: grow.steps split: prod.split snapshot_verdict.split)
  with rest show "copy_settled c t"
    by (rule endsD [rotated])
qed

section \<open>Writes that are still open\<close>

text \<open>A planned write that is no longer open is covered.\<close>

definition shut_covered :: "bool list \<Rightarrow> string list \<Rightarrow> 'w exec_state \<Rightarrow> bool" where
  "shut_covered opens ps s = list_all2 (\<lambda>open_w p. open_w \<or> set_aside s p) opens ps"

lemma shut_covered_grows: "grows s t \<Longrightarrow> shut_covered opens ps s \<Longrightarrow> shut_covered opens ps t"
  unfolding shut_covered_def by (erule list_all2_mono) (auto dest: settled_grows)

lemma open_writes_covered: "shut_covered (open_writes (es_index s) f xs) (map f xs) s"
  by (auto simp: shut_covered_def open_writes_def list_all2_map1 list_all2_map2 set_aside_covered
      intro!: list_all2_refl)

lemma exclude_covered_covers:
  "exclude_covered opens ps s = (opens', t) \<Longrightarrow> shut_covered opens ps s \<Longrightarrow> shut_covered opens' ps t"
proof (induction opens arbitrary: ps s opens' t)
  case (Cons o_w os)
  then obtain p ps' where ps: "ps = p # ps'"
    by (auto simp: shut_covered_def list_all2_Cons1)
  let ?s = "if o_w \<and> set_aside s p then s\<lparr>es_breaker := rb_excluded (es_breaker s)\<rparr> else s"
  obtain os' u where rec: "exclude_covered os ps' ?s = (os', u)"
    by fastforce
  have t: "t = u" "opens' = (if o_w \<and> set_aside s p then False else o_w) # os'"
    using Cons.prems(1) rec unfolding ps by (auto simp: set_aside_covered split: if_splits)
  have "shut_covered os' ps' u"
    using Cons.IH [OF rec] Cons.prems(2) unfolding ps by (auto simp: shut_covered_def set_aside_def)
  moreover have "es_index u = es_index s"
    using excluded_state [of os ps' ?s] rec by (auto split: if_splits)
  ultimately show ?case
    using Cons.prems(2) unfolding ps t by (auto simp: shut_covered_def set_aside_def)
qed (simp add: shut_covered_def)

lemma exclude_covered_x_covers:
  "exclude_covered_x opens ps s = (Inr opens', t) \<Longrightarrow> shut_covered opens ps s \<Longrightarrow> shut_covered opens' ps t"
  by (auto simp: exclude_covered_x_def split: prod.splits dest: exclude_covered_covers)

lemma open_or_covered:
  assumes "shut_covered opens (map f xs) s" and "x \<in> set xs"
  shows "(x, True) \<in> set (zip xs opens) \<or> set_aside s (f x)"
proof -
  obtain i where i: "i < length xs" "x = xs ! i"
    using assms(2) by (auto simp: in_set_conv_nth)
  have len: "length opens = length xs"
    using assms(1) by (auto simp: shut_covered_def dest: list_all2_lengthD)
  then have "(x, opens ! i) \<in> set (zip xs opens)"
    using i by (auto simp: in_set_conv_nth)
  moreover have "opens ! i \<or> set_aside s (f x)"
    using assms(1) i len by (auto simp: shut_covered_def list_all2_conv_all_nth)
  ultimately show ?thesis by auto
qed

lemma still_open_iff: "x \<in> set (still_open xs opens) \<longleftrightarrow> (x, True) \<in> set (zip xs opens)"
  by (force simp: still_open_def)

section \<open>Every planned write\<close>

lemma start_breaker_opens:
  "start_breaker_x plan s = (Inr (oc, op, ou), t) \<Longrightarrow>
   oc = open_writes (es_index s) ca_relative (sp_creates plan)
   \<and> op = open_writes (es_index s) cp_to_relative (sp_copies plan)
   \<and> ou = open_writes (es_index s) upload_relative (sp_uploads plan) \<and> grows s t"
  by (auto simp: start_breaker_x_def bind_x_def then_x_def settle_x_def modify_x_def gets_x_def ret_x_def grows_def)

lemma creates_settle:
  assumes "shut_covered opens (map ca_relative (sp_creates plan)) s"
    and "each_x (create_step E C) (zip (sp_creates plan) opens) s = (Inr b, t)"
    and "a \<in> set (sp_creates plan)"
  shows "create_settled a t"
proof -
  have "grows s t"
    using assms(2) by (rule obeysD [OF grow.each [OF grow.create]])
  moreover from open_or_covered [OF assms(1,3)] have "(a, True) \<in> set (zip (sp_creates plan) opens) \<or> create_settled a s"
    by auto
  moreover have "ends (each_x (create_step E C) (zip (sp_creates plan) opens)) (create_settled a)"
    if "(a, True) \<in> set (zip (sp_creates plan) opens)"
    using that by (intro ends_each [of _ "(a, True)"] create_step_settles lasting_settled grow.create)
  ultimately show ?thesis
    using assms(2) by (auto dest: endsD intro: settled_grows)
qed

lemma copies_phase_settles:
  assumes answers: "answers_all C" and run: "copies_phase_x E C plan op ou s = (Inr ou', t)"
    and shut: "shut_covered op (map cp_to_relative (sp_copies plan)) s"
      "shut_covered ou (map upload_relative (sp_uploads plan)) s"
  shows "shut_covered ou' (map upload_relative (sp_uploads plan)) t"
    and "c \<in> set (sp_copies plan) \<Longrightarrow> copy_settled c t"
proof -
  from run obtain op' s1 ou1 s2 s3 b where
    e1: "exclude_covered_x op (map cp_to_relative (sp_copies plan)) s = (Inr op', s1)" and
    e2: "exclude_covered_x ou (map upload_relative (sp_uploads plan)) s1 = (Inr ou1, s2)" and
    j: "judge_x s2 = (Inr (), s3)" and
    c: "copies_x E C (still_open (sp_copies plan) op') s3 = (Inr b, t)" and ou: "ou' = ou1"
    unfolding copies_phase_x_def by (auto simp: ret_x_def elim!: bind_ends then_ends)
  have g: "grows s s1" "grows s1 s2" "grows s2 s3" "grows s3 t"
    using e1 e2 j c by (auto dest: obeysD [OF grow.exclude] obeysD [OF grow.judge] obeysD [OF grow.copies])
  have "shut_covered ou1 (map upload_relative (sp_uploads plan)) s2"
    using e2 shut(2) g(1) by (auto intro: exclude_covered_x_covers shut_covered_grows)
  then show "shut_covered ou' (map upload_relative (sp_uploads plan)) t"
    unfolding ou using g by (auto intro: shut_covered_grows)
  assume c_in: "c \<in> set (sp_copies plan)"
  have "shut_covered op' (map cp_to_relative (sp_copies plan)) s1"
    using e1 shut(1) by (rule exclude_covered_x_covers)
  from open_or_covered [OF this c_in] show "copy_settled c t"
  proof
    assume "(c, True) \<in> set (zip (sp_copies plan) op')"
    then have "c \<in> set (still_open (sp_copies plan) op')"
      by (simp add: still_open_iff)
    from endsD [OF copies_settle [OF answers this] c] show ?thesis .
  next
    assume "set_aside s1 (cp_to_relative c)"
    then have "set_aside t (cp_to_relative c)"
      by (rule settled_grows(1) [OF grow.chain [OF g(2) grow.chain [OF g(3,4)]]])
    then show ?thesis by (rule settledI)
  qed
qed

lemma uploads_phase_settles:
  assumes stick: "cancel_sticks C P" and run: "uploads_phase_x E C jobs schedule plan ou s = (Inr b, t)"
    and live: "\<not> P (es_world t)" and shut: "shut_covered ou (map upload_relative (sp_uploads plan)) s"
    and u_in: "u \<in> set (sp_uploads plan)"
  shows "upload_settled u t"
proof -
  from run obtain ou' s1 s2 s3 where
    e: "exclude_covered_x ou (map upload_relative (sp_uploads plan)) s = (Inr ou', s1)" and
    j: "judge_x s1 = (Inr (), s2)" and
    ups: "uploads_x E C jobs schedule (still_open (sp_uploads plan) ou') s2 = (Inr (), s3)" and
    j3: "judge_x s3 = (Inr b, t)"
    unfolding uploads_phase_x_def by (auto elim!: bind_ends then_ends)
  have st: "s2 = s1" "t = s3"
    using j j3 by (auto simp: judge_x_def)
  have "shut_covered ou' (map upload_relative (sp_uploads plan)) s1"
    using e shut by (rule exclude_covered_x_covers)
  from open_or_covered [OF this u_in] show ?thesis
  proof
    assume "(u, True) \<in> set (zip (sp_uploads plan) ou')"
    then have "u \<in> set (still_open (sp_uploads plan) ou')"
      by (simp add: still_open_iff)
    with uploads_settle [OF stick ups] live st show ?thesis
      by (auto simp: upload_settled_def upload_relative_def intro: set_aside_self)
  next
    assume "set_aside s1 (upload_relative u)"
    moreover have "grows s1 t"
      using obeysD [OF grow.uploads ups] st by simp
    ultimately show ?thesis
      by (auto simp: upload_settled_def dest: settled_grows(1))
  qed
qed

lemma writes_settle:
  assumes stick: "cancel_sticks C P" and answers: "answers_all C"
    and run: "execute_writes_x E C jobs schedule plan s = (Inr b, t)" and live: "\<not> P (es_world t)"
  shows "writes_settled plan t"
proof -
  from run obtain s1 s2 oc op ou s3 s4 ou' s5 where
    sb: "start_breaker_x plan s2 = (Inr (oc, op, ou), s3)" and
    cr: "each_x (create_step E C) (zip (sp_creates plan) oc) s3 = (Inr (), s4)" and
    cp: "copies_phase_x E C plan op ou s4 = (Inr ou', s5)" and
    up: "uploads_phase_x E C jobs schedule plan ou' s5 = (Inr b, t)"
    unfolding execute_writes_x_def by (auto elim!: bind_ends then_ends)
  note opens = start_breaker_opens [OF sb]
  have g: "grows s2 s3" "grows s3 s4" "grows s4 s5" "grows s5 t"
    using opens cr cp up
    by (auto dest: obeysD [OF grow.each [OF grow.create]] obeysD [OF grow.copies_phase] obeysD [OF grow.uploads_phase])
  have shut: "shut_covered oc (map ca_relative (sp_creates plan)) s3"
    "shut_covered op (map cp_to_relative (sp_copies plan)) s4"
    "shut_covered ou (map upload_relative (sp_uploads plan)) s4"
    using opens g(1,2) open_writes_covered shut_covered_grows by blast+
  note copies = copies_phase_settles [OF answers cp shut(2,3)]
  have late: "create_settled a s4 \<Longrightarrow> create_settled a t" "copy_settled c s5 \<Longrightarrow> copy_settled c t" for a c
    using settled_grows(2) [OF grow.chain [OF g(3,4)]] settled_grows(3) [OF g(4)] by blast+
  show ?thesis
    unfolding writes_settled_def
    using creates_settle [OF shut(1) cr] copies(2) uploads_phase_settles [OF stick up live copies(1)]
    by (auto intro: late)
qed

section \<open>Deletions come last\<close>

lemma log_split:
  assumes "prefix xs (pre @ q # post)" and "q \<notin> set xs"
  shows "prefix xs pre"
proof -
  obtain ys where "pre @ q # post = xs @ ys"
    using assms(1) by (auto simp: prefix_def)
  with assms(2) show ?thesis
    by (auto simp: append_eq_append_conv2 Cons_eq_append_conv prefix_def)
qed

lemma writes_settled_prefix:
  assumes "writes_settled plan t" and "prefix (es_requests t) log"
    and "deferred_paths (es_index t) \<subseteq> deferred_paths ix"
  shows "writes_settled plan (t\<lparr>es_requests := log, es_index := ix\<rparr>)"
proof -
  have "grows t (t\<lparr>es_requests := log, es_index := ix\<rparr>)"
    using assms(2,3) by (simp add: grows_def)
  with assms(1) show ?thesis
    unfolding writes_settled_def by (blast intro: settled_grows)
qed

lemma clean_paths:
  "clean A s t \<Longrightarrow> DeleteSent path ok \<in> set (es_requests t) \<Longrightarrow>
   DeleteSent path ok \<in> set (es_requests s) \<or> path \<in> da_remote_path ` A"
proof -
  assume "clean A s t" and sent: "DeleteSent path ok \<in> set (es_requests t)"
  then obtain new where new: "es_requests t = es_requests s @ new" "authorised A new"
    by (auto simp: clean_def)
  show ?thesis
  proof (cases "DeleteSent path ok \<in> set new")
    case True
    then obtain ys zs where "new = ys @ DeleteSent path ok # zs"
      by (meson split_list)
    with new(2) show ?thesis unfolding authorised_def by blast
  qed (use sent new in auto)
qed

text \<open>
  C2. The extra entries of the NAS are deleted last: whenever a run sends a deletion of a path that is
  no type replacement, the writes of the plan had ended before it, and when they ended every folder,
  copy and upload of the plan had been accepted, or a path at or above it was already among the
  deferrals. This holds for every answer of the NAS, every schedule of the upload workers and every
  end of the run, provided the batch check answers as many verdicts as it is asked and a cancelled
  token stays cancelled.
\<close>

theorem deletions_come_last:
  assumes stick: "cancel_sticks C P" and answers: "answers_all C"
    and run: "execute E C options schedule plan w = (r, s)"
    and log: "es_requests s = pre @ DeleteSent path ok # post"
    and extra: "path \<notin> da_remote_path ` set (sp_pre_deletes plan)"
  shows "\<exists>u t. execute_writes_x E C (xo_jobs options) schedule plan (exec_start w report_start) = (Inr u, t)
    \<and> writes_settled plan t \<and> prefix (es_requests t) pre"
proof -
  let ?s = "exec_start w report_start"
  let ?del = "then_x (execute_deletions_x E C plan) (execute_renames_x E C plan)"
  obtain q t where writes: "execute_writes_x E C (xo_jobs options) schedule plan ?s = (q, t)"
    by fastforce
  have "clean (set (sp_pre_deletes plan)) ?s t"
    by (rule obeysD [OF clean.execute_writes [OF subset_refl] writes])
  with extra have none: "DeleteSent path ok \<notin> set (es_requests t)"
    by (auto simp: exec_start_def dest!: clean_paths)
  have sent: "DeleteSent path ok \<in> set (es_requests s)"
    by (simp add: log)
  have live: "\<not> xo_dry_run options"
    using run sent by (auto simp: execute_def execute_plan_x_def ret_x_def exec_start_def split: if_splits)
  have done_run: "then_x (execute_writes_x E C (xo_jobs options) schedule plan) ?del ?s = (r, s)"
    using run live by (simp add: execute_def execute_plan_x_def)
  obtain u where q: "q = Inr u"
    using done_run writes sent none by (cases q) (auto simp: then_x_def bind_x_def)
  have rest: "?del t = (r, s)"
    using done_run writes q by (simp add: then_x_def bind_x_def)
  have grows: "grows t s"
    by (rule obeysD [OF grow.seq [OF grow.execute_deletions grow.renames] rest]) simp
  have "\<not> P (es_world t)"
  proof
    assume "P (es_world t)"
    then have "check_x C t = (Inl Cancelled, t\<lparr>es_world := snd (cl_cancelled C (es_world t))\<rparr>)"
      using stick by (auto simp: check_x_def ask_x_def cancel_sticks_def split: prod.split)
    then have "es_requests s = es_requests t"
      using rest by (auto simp: then_x_def bind_x_def execute_deletions_x_def)
    with sent none show False by simp
  qed
  then have "writes_settled plan t"
    using writes_settle [OF stick answers] writes q by blast
  moreover have "prefix (es_requests t) pre"
    using grows none unfolding grows_def log by (blast intro: log_split)
  ultimately show ?thesis
    using writes q by blast
qed

lemma calm_laws: "cancel_sticks calm_client (\<lambda>_. False)" "answers_all calm_client"
  by (auto simp: cancel_sticks_def answers_all_def calm_client_def)

theorem deletions_come_last_witness:
  "\<exists>pre ok post u t. es_requests (snd mirror_execution) = pre @ DeleteSent ''/s/d/old'' ok # post
   \<and> execute_writes_x plain_env calm_client (xo_jobs run_options) [0, 1, 1, 0, 0, 1] mirror_result
        (exec_start () report_start) = (Inr u, t)
   \<and> writes_settled mirror_result t \<and> prefix (es_requests t) pre"
proof -
  have "''/s/d/old'' \<in> set (deletes_sent (es_requests (snd mirror_execution)))"
    using mirror_execution_run by (simp add: changes_of_def)
  then obtain ok pre post where split:
    "es_requests (snd mirror_execution) = pre @ DeleteSent ''/s/d/old'' ok # post"
    by (auto simp: deletes_sent_iff dest!: split_list)
  have "execute plain_env calm_client run_options [0, 1, 1, 0, 0, 1] mirror_result ()
      = (fst mirror_execution, snd mirror_execution)"
    by (simp add: mirror_execution_def)
  from deletions_come_last [OF calm_laws this split] mirror_run(3) split show ?thesis
    by fastforce
qed

end
