(* ===== verification/ExecReport.thy ===== *)
theory ExecReport
  imports PoolFacts
begin

text \<open>
  What a run reports is what it did: the counters of the report are the changes the NAS accepted,
  and the deferrals reported are those of the index, each shown once; also when the run fails.
\<close>

section \<open>Changes and what is owed\<close>

datatype change = Deletion | Creation | Copying | Uploading | Renaming

text \<open>The change a request made; none when it was refused, or changes nothing.\<close>

fun change_of :: "request \<Rightarrow> change option" where
  "change_of (DeleteSent path ok) = (if ok then Some Deletion else None)"
| "change_of (CreateSent path ok) = (if ok then Some Creation else None)"
| "change_of (CopySent action ok) = (if ok then Some Copying else None)"
| "change_of (UploadSent entry path ok) = (if ok then Some Uploading else None)"
| "change_of (RenameSent path new ok) = (if ok then Some Renaming else None)"
| "change_of _ = None"

definition performed :: "change \<Rightarrow> request list \<Rightarrow> nat" where
  "performed k log = length (filter (\<lambda>q. change_of q = Some k) log)"

fun reported :: "change \<Rightarrow> execution_report \<Rightarrow> nat" where
  "reported Deletion report = er_deleted report"
| "reported Creation report = er_created report"
| "reported Copying report = er_copied report"
| "reported Uploading report = er_uploaded report"
| "reported Renaming report = er_renamed report"

definition shown_deferrals :: "execution_event list \<Rightarrow> (string \<times> defer_reason) list" where
  "shown_deferrals events =
     List.map_filter (\<lambda>ev. case ev of PathDeferred p r \<Rightarrow> Some (p, r) | _ \<Rightarrow> None) events"

text \<open>The deferrals of the report, of the index and of the events shown agree.\<close>

definition deferrals_told :: "'w exec_state \<Rightarrow> bool" where
  "deferrals_told s =
     (let ds = er_deferred (es_report s) in
      distinct (map dp_relative ds) \<and> set (map dp_relative ds) = deferred_paths (es_index s)
      \<and> shown_deferrals (es_events s) = map (\<lambda>d. (dp_relative d, dp_reason d)) ds)"

text \<open>Changes that were made and are still to be counted.\<close>

definition owes :: "(change \<Rightarrow> nat) \<Rightarrow> 'w exec_state \<Rightarrow> bool" where
  "owes due s =
     (deferrals_told s
      \<and> (\<forall>k. reported k (es_report s) + due k = performed k (es_requests s)))"

definition truthful :: "'w exec_state \<Rightarrow> bool" where
  "truthful s =
     (deferrals_told s \<and> (\<forall>k. reported k (es_report s) = performed k (es_requests s)))"

definition keeps_account :: "'w exec_state \<Rightarrow> 'w exec_state \<Rightarrow> bool" where
  "keeps_account s s' = (\<forall>due. owes due s \<longrightarrow> owes due s')"

interpretation account: step_contract keeps_account
  by unfold_locales (simp_all add: keeps_account_def)

lemma truthful_owes: "truthful s \<longleftrightarrow> owes (\<lambda>_. 0) s"
  by (simp add: truthful_def owes_def)

lemma performed_append: "performed k (xs @ ys) = performed k xs + performed k ys"
  by (simp add: performed_def)

lemma performed_Cons:
  "performed k (q # log) = (if change_of q = Some k then 1 else 0) + performed k log"
  by (simp add: performed_def)

lemma performed_Nil [simp]: "performed k [] = 0"
  by (simp add: performed_def)

lemma owes_cong:
  assumes "es_report s' = es_report s" "es_index s' = es_index s"
    "shown_deferrals (es_events s') = shown_deferrals (es_events s)"
    "\<And>k. performed k (es_requests s') = performed k (es_requests s)"
  shows "owes due s' = owes due s"
  using assms by (simp add: owes_def deferrals_told_def)

section \<open>Primitive steps\<close>

lemma account_ask: "obeys keeps_account (ask_x op)"
  by (rule obeysI) (auto simp: ask_x_def keeps_account_def owes_def deferrals_told_def split: prod.splits)

lemma account_check: "obeys keeps_account (check_x C)"
  by (simp add: check_x_def account_ask)

lemma account_send: "(\<And>ok. change_of (log ok) = None) \<Longrightarrow> obeys keeps_account (send_x op log)"
  by (rule obeysI) (auto simp: send_x_def keeps_account_def owes_def deferrals_told_def performed_append
      performed_Cons split: prod.splits)

lemma account_settle: "obeys keeps_account (settle_x f)"
  by (rule obeysI) (auto simp: settle_x_def modify_x_def keeps_account_def owes_def deferrals_told_def)

lemma account_event: "(\<And>p r. ev \<noteq> PathDeferred p r) \<Longrightarrow> obeys keeps_account (event_x ev)"
  by (rule obeysI)
    (cases ev; auto simp: event_x_def modify_x_def keeps_account_def owes_def deferrals_told_def shown_deferrals_def
      List.map_filter_def)

lemma account_report:
  "(\<And>k report. reported k (f report) = reported k report) \<Longrightarrow>
   (\<And>report. er_deferred (f report) = er_deferred report) \<Longrightarrow> obeys keeps_account (report_x f)"
  by (rule obeysI) (auto simp: report_x_def modify_x_def keeps_account_def owes_def deferrals_told_def)

lemma ix_insert_fresh: "fst (ix_insert E p r ix) \<longleftrightarrow> p \<notin> deferred_paths ix"
  by (auto simp: ix_insert_def deferred_paths_def om_has_key)

lemma account_defer: "obeys keeps_account (defer_x E p r d)"
proof (rule obeysI)
  fix s :: "'w exec_state" and q s' assume run: "defer_x E p r d s = (q, s')"
  obtain new ix where ins: "ix_insert E p r (es_index s) = (new, ix)"
    by fastforce
  have new: "new \<longleftrightarrow> p \<notin> deferred_paths (es_index s)" "deferred_paths ix = insert p (deferred_paths (es_index s))"
    using ix_insert_fresh [of E p r "es_index s"] ix_insert_deferred [of E p r "es_index s"] ins by auto
  have "deferrals_told s' \<and> (\<forall>k. reported k (es_report s') = reported k (es_report s))
      \<and> es_requests s' = es_requests s" if "deferrals_told s"
  proof (cases new)
    case False
    with run ins that show ?thesis by (simp add: defer_x_def modify_x_def)
  next
    case True
    have same: "reported k (rep\<lparr>er_deferred := ds\<rparr>) = reported k rep" for k rep ds
      by (cases k) simp_all
    have "\<forall>x \<in> set (er_deferred (es_report s)). dp_relative x \<in> deferred_paths (es_index s)"
      using that by (auto simp: deferrals_told_def Let_def)
    then show ?thesis
      using run ins that True new
      by (auto simp: defer_x_def modify_x_def deferrals_told_def Let_def same shown_deferrals_def List.map_filter_def)
  qed
  then show "keeps_account s s'"
    by (simp add: keeps_account_def owes_def)
qed

lemma account_defer_local: "obeys keeps_account (defer_local_x E p e)"
  by (auto simp: defer_local_x_def intro: account_defer account.fail split: option.split)

lemma account_verify_live: "obeys keeps_account (verify_live_x C check)"
  by (auto simp: verify_live_x_def Let_def intro!: account.seq account_send account.ret
      split: option.split content_evidence.split)

lemma account_precondition: "obeys keeps_account (upload_precondition_x C p expected)"
  by (simp add: upload_precondition_x_def account.bind account_ask account.ret)

lemma account_exclude: "obeys keeps_account (exclude_covered_x opens ps)"
proof (rule obeysI)
  fix s :: "'w exec_state" and q s' assume "exclude_covered_x opens ps s = (q, s')"
  then show "keeps_account s s'"
    using excluded_state [of opens ps s]
    by (auto simp: exclude_covered_x_def keeps_account_def owes_def deferrals_told_def case_prod_beta)
qed

lemma account_change_report [simp]:
  "reported k (r\<lparr>er_deleted := n\<rparr>) = (if k = Deletion then n else reported k r)"
  "reported k (r\<lparr>er_created := n\<rparr>) = (if k = Creation then n else reported k r)"
  "reported k (r\<lparr>er_copied := n\<rparr>) = (if k = Copying then n else reported k r)"
  "reported k (r\<lparr>er_uploaded := n\<rparr>) = (if k = Uploading then n else reported k r)"
  "reported k (r\<lparr>er_renamed := n\<rparr>) = (if k = Renaming then n else reported k r)"
  "reported k (r\<lparr>er_uploaded_bytes := b\<rparr>) = reported k r"
  "reported k (r\<lparr>er_deletes_skipped := n\<rparr>) = reported k r"
  "reported k (r\<lparr>er_kept_deletes_uploaded := n\<rparr>) = reported k r"
  "reported k (r\<lparr>er_mtime_not_kept := n\<rparr>) = reported k r"
  "reported k (r\<lparr>er_copy_fallbacks := n\<rparr>) = reported k r"
  by (cases k; simp)+

lemmas account_steps = account.rules account_ask account_check account_settle account_event
  account_defer account_defer_local account_verify_live account_precondition account_exclude

section \<open>A change that is counted next\<close>

definition pays :: "change \<Rightarrow> ('w, 'a) exec \<Rightarrow> bool" where
  "pays k m = (\<forall>s r s' due. m s = (r, s') \<longrightarrow> owes (due(k := Suc (due k))) s \<longrightarrow> owes due s')"

lemma paysD: "pays k m \<Longrightarrow> m s = (r, s') \<Longrightarrow> owes (due(k := Suc (due k))) s \<Longrightarrow> owes due s'"
  unfolding pays_def by blast

lemma pays_settle: "pays k m \<Longrightarrow> pays k (then_x (settle_x f) m)"
  unfolding pays_def
proof (intro allI impI)
  fix s r s' due
  assume m: "\<forall>s r s' due. m s = (r, s') \<longrightarrow> owes (due(k := Suc (due k))) s \<longrightarrow> owes due s'"
    and run: "then_x (settle_x f) m s = (r, s')" and owe: "owes (due(k := Suc (due k))) s"
  have "m (s\<lparr>es_breaker := f (es_breaker s)\<rparr>) = (r, s')"
    using run by (simp add: then_x_def bind_x_def settle_x_def modify_x_def)
  moreover have "owes (due(k := Suc (due k))) (s\<lparr>es_breaker := f (es_breaker s)\<rparr>)"
    using owe by (simp add: owes_def deferrals_told_def)
  ultimately show "owes due s'"
    using m by blast
qed

lemma pays_report:
  assumes count: "\<And>report j. reported j (f report) = reported j report + (if j = k then 1 else 0)"
    and same: "\<And>report. er_deferred (f report) = er_deferred report" and rest: "obeys keeps_account m"
  shows "pays k (then_x (report_x f) m)"
  unfolding pays_def
proof (intro allI impI)
  fix s r s' due
  assume run: "then_x (report_x f) m s = (r, s')" and owe: "owes (due(k := Suc (due k))) s"
  let ?t = "s\<lparr>es_report := f (es_report s)\<rparr>"
  have "owes due ?t"
    unfolding owes_def
  proof (intro conjI allI)
    show "deferrals_told ?t"
      using owe same by (simp add: owes_def deferrals_told_def)
    fix j
    have "reported j (es_report s) + (due(k := Suc (due k))) j = performed j (es_requests s)"
      using owe by (simp add: owes_def)
    then show "reported j (es_report ?t) + due j = performed j (es_requests ?t)"
      by (simp add: count split: if_splits)
  qed
  moreover have "m ?t = (r, s')"
    using run by (simp add: then_x_def bind_x_def report_x_def modify_x_def)
  ultimately show "owes due s'"
    using rest by (auto dest: obeysD simp: keeps_account_def)
qed

lemma sent_owes:
  assumes "send_x op log s = (r, t)" and "owes due s" and "change_of (log True) = Some k"
    and "change_of (log False) = None"
  shows "if isl r then owes due t else owes (due(k := Suc (due k))) t"
  using assms
  by (auto simp: send_x_def owes_def deferrals_told_def performed_append performed_Cons split: prod.splits)

lemma account_sent:
  assumes "change_of (log True) = Some k" and "change_of (log False) = None"
    and "\<And>a. pays k (f (Inr a))" and "\<And>e. obeys keeps_account (f (Inl e))"
  shows "obeys keeps_account (bind_x (attempt_x (send_x op log)) f)"
proof (rule obeysI)
  fix s q s'
  assume run: "bind_x (attempt_x (send_x op log)) f s = (q, s')"
  obtain r t where sent: "send_x op log s = (r, t)"
    by fastforce
  have rest: "f r t = (q, s')"
    using run sent by (simp add: bind_x_def attempt_x_def)
  show "keeps_account s s'"
    unfolding keeps_account_def
  proof (intro allI impI)
    fix due assume "owes due s"
    from sent_owes [OF sent this assms(1,2)] rest show "owes due s'"
      by (cases r) (auto dest: paysD [OF assms(3)] obeysD [OF assms(4)] simp: keeps_account_def)
  qed
qed

lemma account_sent_then:
  assumes "change_of (log True) = Some k" and "change_of (log False) = None" and "pays k m"
  shows "obeys keeps_account (then_x (send_x op log) m)"
proof (rule obeysI)
  fix s q s'
  assume run: "then_x (send_x op log) m s = (q, s')"
  obtain r t where sent: "send_x op log s = (r, t)"
    by fastforce
  show "keeps_account s s'"
    unfolding keeps_account_def
  proof (intro allI impI)
    fix due assume "owes due s"
    from sent_owes [OF sent this assms(1,2)] show "owes due s'"
      using run sent by (cases r) (auto simp: then_x_def bind_x_def dest: paysD [OF assms(3)])
  qed
qed

section \<open>The phases\<close>

lemma account_preflight: "obeys keeps_account (preflight_x E C plan)"
  unfolding preflight_x_def preflight_step_def
  by (auto intro!: account_steps simp: split_beta split: sum.split)

lemma account_live_changed: "obeys keeps_account (live_changed_x C check)"
  unfolding live_changed_x_def by (auto intro!: account_steps split: sum.split)

lemma account_pre_deletes: "obeys keeps_account (pre_deletes_x E C plan)"
proof -
  have "obeys keeps_account (then_x (delete_x C p) (then_x (report_x (\<lambda>r. r\<lparr>er_deleted := er_deleted r + 1\<rparr>))
      (then_x (event_x (TypeConflictDeleted p)) (ret_x kept))))" for p and kept :: "string set"
    unfolding delete_x_def
    by (rule account_sent_then [where k = Deletion])
      (auto intro!: pays_report account.seq account_event account.ret)
  then show ?thesis
    unfolding pre_deletes_x_def pre_delete_step_def
    by (auto intro!: account_steps account_live_changed simp: split_beta)
qed

lemma account_create: "obeys keeps_account (create_step E C x)"
proof -
  have refused: "obeys keeps_account (create_refused_x E a e)" for a e
    unfolding create_refused_x_def by (auto intro!: account_steps split: error.split)
  have sent: "obeys keeps_account (bind_x (attempt_x (send_x (cl_create C (ca_remote_path a))
          (CreateSent (ca_remote_path a))))
      (case_sum (create_refused_x E a) (\<lambda>u. then_x (settle_x rb_accepted)
          (then_x (report_x (\<lambda>r. r\<lparr>er_created := Suc (er_created r)\<rparr>))
            (event_x (DirectoryCreated (ca_remote_path a)))))))" for a
    by (rule account_sent [where k = Creation])
      (auto intro!: pays_settle pays_report refused account_event)
  show ?thesis
    unfolding create_step_def by (auto intro!: account_steps sent simp: split_beta)
qed

lemma account_excluded: "obeys keeps_account (exclude_and_defer_x E p r d)"
  unfolding exclude_and_defer_x_def by (intro account_steps)

lemma account_fallback: "obeys keeps_account (copy_fallback_x E C copied a e)"
proof -
  have sent: "obeys keeps_account (bind_x (attempt_x (upload_x C (cp_local a) (cp_to_remote_path a)))
      (case_sum (\<lambda>e. then_x (settle_x (rb_settled_by e (cp_to_relative a)))
             (then_x (defer_local_x E (cp_to_relative a) e) (then_x judge_x (ret_x copied))))
         (\<lambda>u. then_x (settle_x rb_accepted)
             (then_x (report_x (\<lambda>r. r\<lparr>er_uploaded := Suc (er_uploaded r),
                  er_uploaded_bytes := u64_sat_add (er_uploaded_bytes r) (cp_expected_size a),
                  er_copy_fallbacks := Suc (er_copy_fallbacks r)\<rparr>))
                (then_x (event_x (CopyFallbackUploaded (l_relative (cp_local a)) (cp_expected_size a)))
                   (ret_x (copied @ [a])))))))"
    unfolding upload_x_def
    by (rule account_sent [where k = Uploading])
      (auto intro!: pays_settle pays_report account_steps)
  show ?thesis
    unfolding copy_fallback_x_def
    by (auto intro!: account_steps account_excluded sent split: error.split)
qed

lemma account_attempt: "obeys keeps_account (copy_attempt_x E C copied a)"
  unfolding copy_attempt_x_def
  by (rule account_sent [where k = Copying])
    (auto intro!: account_steps account_fallback pays_settle pays_report split: error.split sum.split)

lemma account_copy: "obeys keeps_account (copy_step E C copied x)"
  unfolding copy_step_def Let_def
  by (auto intro!: account_steps account_excluded account_live_changed account_attempt
      simp: split_beta split: sum.split)

lemma account_copies: "obeys keeps_account (copies_x E C cs)"
  unfolding copies_x_def copy_destination_step_def Let_def
  by (auto intro!: account_steps account_copy account_report simp: split_beta split: snapshot_verdict.split)

lemma account_start: "obeys keeps_account (start_breaker_x plan)"
  unfolding start_breaker_x_def by (auto intro!: account_steps simp: split_beta)

section \<open>The upload workers\<close>

text \<open>
  The workers touch neither report nor deferrals: an upload accepted is owed from the answer until
  the collector has read its message.
\<close>

definition upload_done :: "upload_outcome \<Rightarrow> nat" where
  "upload_done outcome = (case outcome of UploadDone \<Rightarrow> 1 | _ \<Rightarrow> 0)"

fun held_done :: "worker \<Rightarrow> nat" where
  "held_done (Judging a outcome) = upload_done outcome"
| "held_done (Posting a outcome) = upload_done outcome"
| "held_done _ = 0"

definition unread :: "upload_message list \<Rightarrow> nat" where
  "unread ms = sum_list (map (\<lambda>m. upload_done (snd (snd m))) ms)"

definition pool_owes :: "(change \<Rightarrow> nat) \<Rightarrow> 'w upload_pool \<Rightarrow> bool" where
  "pool_owes due p =
     owes (due(Uploading := due Uploading + unread (up_posted p) + sum_list (map held_done (up_workers p))))
       (up_exec p)"

lemma owes_same:
  "keeps_account s s' \<Longrightarrow> owes due s \<Longrightarrow> owes due s'"
  by (simp add: keeps_account_def)

lemma judge_keeps: "keeps_account (up_exec p) (up_exec (judge_outcome a outcome p))"
  by (auto simp: judge_outcome_def Let_def keeps_account_def owes_def deferrals_told_def
      split: upload_outcome.split sum.split)

lemma stop_seen_keeps: "stop_seen C p = (b, q) \<Longrightarrow> keeps_account (up_exec p) (up_exec q)"
  by (auto simp: stop_seen_def keeps_account_def owes_def deferrals_told_def split: if_splits prod.splits)

lemma worker_owes:
  assumes step: "worker_step E C w p = (w', q)"
    and owe: "owes (due(Uploading := n + held_done w + unread (up_posted p))) (up_exec p)"
  shows "owes (due(Uploading := n + held_done w' + unread (up_posted q))) (up_exec q)"
proof (cases w)
  case Looking
  with step have "keeps_account (up_exec p) (up_exec q)" "up_posted q = up_posted p" "held_done w' = 0"
    by (auto split: prod.splits dest: stop_seen_keeps stop_seen_frame)
  with owe Looking show ?thesis by (auto dest: owes_same)
next
  case (Ready a)
  with step have "keeps_account (up_exec p) (up_exec q)" "up_posted q = up_posted p" "held_done w' = 0"
    by (auto split: prod.splits dest: stop_seen_keeps stop_seen_frame)
  with owe Ready show ?thesis by (auto dest: owes_same)
next
  case (Probing a)
  obtain r s where pre: "upload_precondition_x C (ua_remote_path a) (ua_expected a) (up_exec p) = (r, s)"
    by fastforce
  have "keeps_account (up_exec p) s"
    using account_precondition pre by (rule obeysD)
  moreover have "held_done (probe_outcome a r) = 0"
    by (simp add: probe_outcome_def upload_done_def split: sum.split)
  ultimately show ?thesis
    using step pre owe Probing by (auto dest: owes_same)
next
  case (Sending a)
  obtain r s where up: "upload_x C (ua_local a) (ua_remote_path a) (up_exec p) = (r, s)"
    by fastforce
  have "held_done (Judging a (upload_outcome_of E r)) = (if isl r then 0 else 1)"
    by (simp add: upload_outcome_of_def upload_done_def split: sum.split option.split)
  with sent_owes [OF up [unfolded upload_x_def], of "due(Uploading := n + unread (up_posted p))" Uploading]
    step up owe Sending show ?thesis
    by (auto split: if_splits)
next
  case (Judging a outcome)
  with step owe owes_same [OF judge_keeps [of p a outcome]] show ?thesis by auto
next
  case (Posting a outcome)
  with step owe show ?thesis by (auto simp: unread_def ac_simps)
qed (use step owe in \<open>auto split: list.splits\<close>)

lemma pool_owes_move: "pool_owes due p \<Longrightarrow> pool_owes due (pool_move E C p i)"
proof (cases "i < length (up_workers p)")
  case True
  assume owe: "pool_owes due p"
  obtain w' q where step: "worker_step E C (up_workers p ! i) p = (w', q)"
    by fastforce
  have move: "pool_move E C p i = q\<lparr>up_workers := (up_workers p)[i := w']\<rparr>"
    using True step worker_step_workers [OF step] by (simp add: pool_move_def)
  have sum: "sum_list (map held_done ((up_workers p)[i := w'])) + held_done (up_workers p ! i)
      = sum_list (map held_done (up_workers p)) + held_done w'"
    using True elem_le_sum_list [of i "map held_done (up_workers p)"]
    by (simp add: map_update sum_list_update)
  obtain m where m: "sum_list (map held_done (up_workers p)) = m + held_done (up_workers p ! i)"
    using True elem_le_sum_list [of i "map held_done (up_workers p)"]
    by (metis le_iff_add add.commute length_map nth_map)
  have "owes (due(Uploading := (due Uploading + m) + held_done w' + unread (up_posted q))) (up_exec q)"
    using owe m by (intro worker_owes [OF step]) (simp add: pool_owes_def ac_simps)
  moreover have "sum_list (map held_done ((up_workers p)[i := w'])) = m + held_done w'"
    using sum m by simp
  ultimately show ?thesis
    by (simp add: move pool_owes_def ac_simps)
qed (simp add: pool_move_def)

lemma pool_owes_drained:
  assumes "owes due s"
  shows "owes (due(Uploading := due Uploading + unread (up_posted (drained_pool E C jobs schedule us s))))
    (up_exec (drained_pool E C jobs schedule us s))"
proof -
  let ?p = "drained_pool E C jobs schedule us s"
  have start: "pool_owes due (pool_open (worker_count jobs us) us s)"
    using assms by (simp add: pool_owes_def pool_open_def unread_def sum_list_replicate)
  have "pool_owes due ?p"
    unfolding drained_pool_def by (rule pool_run_keeps) (rule pool_owes_move, assumption, rule start)
  moreover have "sum_list (map held_done (up_workers ?p)) = 0"
    using drained_pool_ends [of _ E C jobs schedule us s] by (fastforce simp: sum_list_eq_0_iff)
  ultimately show ?thesis by (simp add: pool_owes_def)
qed

lemma collect_pays:
  assumes "collect_message E fe m s = (q, t)"
    and "owes (due(Uploading := due Uploading + upload_done (snd (snd m)))) s"
  shows "owes due t"
proof -
  obtain p sz outcome where m: "m = (p, sz, outcome)"
    by (metis surj_pair)
  show ?thesis
  proof (cases outcome)
    case UploadDone
    have "pays Uploading (collect_message E fe m)"
      unfolding m UploadDone collect_message_def split_conv upload_outcome.case
      by (auto intro!: pays_report account_steps)
    from paysD [OF this assms(1)] assms(2) show ?thesis
      by (simp add: m UploadDone upload_done_def)
  next
    case (UploadDeferred reason detail refused)
    have "obeys keeps_account (collect_message E fe m)"
      unfolding m UploadDeferred collect_message_def by (auto intro!: account_steps)
    from obeysD [OF this assms(1)] assms(2) show ?thesis
      by (auto simp: m UploadDeferred upload_done_def dest: owes_same)
  next
    case (UploadFailed e)
    with assms m show ?thesis
      by (simp add: collect_message_def ret_x_def upload_done_def)
  qed
qed

lemma collect_all_pays:
  "fold_x (collect_message E) fe ms s = (q, t) \<Longrightarrow>
   owes (due(Uploading := due Uploading + unread ms)) s \<Longrightarrow> owes due t"
proof (induction ms arbitrary: fe s)
  case Nil
  then show ?case by (simp add: ret_x_def unread_def)
next
  case (Cons m ms)
  obtain r u where one: "collect_message E fe m s = (r, u)"
    by fastforce
  have due: "(due(Uploading := due Uploading + unread ms))
      (Uploading := (due(Uploading := due Uploading + unread ms)) Uploading + upload_done (snd (snd m)))
    = due(Uploading := due Uploading + unread (m # ms))"
    by (rule ext) (simp add: unread_def)
  have "owes ((due(Uploading := due Uploading + unread ms))
      (Uploading := (due(Uploading := due Uploading + unread ms)) Uploading + upload_done (snd (snd m)))) s"
    unfolding due by (rule Cons.prems(2))
  from collect_pays [OF one this] have owe: "owes (due(Uploading := due Uploading + unread ms)) u" .
  obtain fe' where r: "r = Inr fe'"
    using collect_message_result [of E fe m s] one by auto
  have "fold_x (collect_message E) fe' ms u = (q, t)"
    using Cons.prems(1) one r by (simp add: bind_x_def)
  with owe show ?case
    by (rule Cons.IH [rotated])
qed

lemma account_uploads: "obeys keeps_account (uploads_x E C jobs schedule us)"
proof (rule obeysI)
  fix s q t assume run: "uploads_x E C jobs schedule us s = (q, t)"
  let ?p = "drained_pool E C jobs schedule us s"
  show "keeps_account s t"
    unfolding keeps_account_def
  proof (intro allI impI)
    fix due assume owe: "owes due s"
    show "owes due t"
    proof (cases "us = []")
      case True
      with run owe show ?thesis by (simp add: uploads_x_def)
    next
      case False
      obtain r u where fold: "fold_x (collect_message E) None (up_posted ?p) (up_exec ?p) = (r, u)"
        by fastforce
      have "owes due u"
        using fold pool_owes_drained [OF owe] by (rule collect_all_pays)
      moreover have "t = u"
        using run False fold
        by (auto simp: uploads_x_def settle_uploads_def bind_x_def fail_x_def ret_x_def split: sum.splits option.splits)
      ultimately show ?thesis by simp
    qed
  qed
qed

lemma account_writes: "obeys keeps_account (execute_writes_x E C jobs schedule plan)"
proof -
  have "obeys keeps_account (copies_phase_x E C plan op ou)" for op ou
    unfolding copies_phase_x_def by (intro account_steps account_copies)
  moreover have "obeys keeps_account (uploads_phase_x E C jobs schedule plan ou)" for ou
    unfolding uploads_phase_x_def by (intro account_steps account_uploads)
  ultimately show ?thesis
    unfolding execute_writes_x_def
    by (auto intro!: account_steps account_preflight account_pre_deletes account_start account_create
        simp: split_beta)
qed

section \<open>Deletions, files that came back, renames\<close>

lemma account_deferral: "obeys keeps_account (deletion_deferral_x E C a changed presence)"
  unfolding deletion_deferral_x_def guard_deferral_x_def live_deferral_x_def Let_def
  by (auto intro!: account_steps split: option.split sum.split)

lemma account_delete_extra: "obeys keeps_account (delete_extra_x E C kb a)"
  unfolding delete_extra_x_def delete_x_def split_beta
  by (rule account_sent [where k = Deletion]) (auto intro!: account_steps pays_report)

lemma account_keep: "obeys keeps_account (keep_deletion_x a reason)"
  unfolding keep_deletion_x_def by (auto intro!: account_steps account_report)

lemma account_post_delete: "obeys keeps_account (post_delete_step E C root kb x)"
  unfolding post_delete_step_def Let_def
  by (auto intro!: account_steps account_deferral account_delete_extra account_keep
      simp: split_beta split: option.split sum.split local_presence.split)

lemma account_judge: "obeys keeps_account (judge_deletions_x C plan)"
  unfolding judge_deletions_x_def upload_checks_x_def landed_check_step_def post_verdict_step_def Let_def
  by (auto intro!: account_steps account_report simp: split_beta split: sum.split snapshot_verdict.split)

lemma account_reupload: "obeys keeps_account (reupload_x E C p target entry)"
proof -
  have sent: "obeys keeps_account (bind_x (attempt_x (upload_x C l (da_remote_path target)))
      (case_sum (defer_local_x E p) (\<lambda>u. then_x (report_x (\<lambda>r. r\<lparr>er_uploaded := Suc (er_uploaded r),
             er_kept_deletes_uploaded := Suc (er_kept_deletes_uploaded r),
             er_uploaded_bytes := u64_sat_add (er_uploaded_bytes r) (l_size l)\<rparr>))
           (event_x (KeptDeleteUploaded p (l_size l))))))" for l
    unfolding upload_x_def
    by (rule account_sent [where k = Uploading]) (auto intro!: account_steps pays_report)
  show ?thesis
    unfolding reupload_x_def by (auto intro!: account_steps sent split: sum.split)
qed

lemma account_reappeared: "obeys keeps_account (reappeared_step E C plan x)"
  unfolding reappeared_step_def gone_again_x_def
  by (auto intro!: account_steps account_reupload simp: split_beta split: sum.split option.split)

lemma account_rename: "obeys keeps_account (rename_step E C a)"
proof -
  have sent: "obeys keeps_account (bind_x (attempt_x (send_x (cl_rename C (ra_from_remote_path a) (ra_new_name a))
        (RenameSent (ra_from_remote_path a) (ra_new_name a)))) (case_sum
      (\<lambda>e. if rename_concerns_run e then fail_x e
           else defer_x E (ra_relative a) CaseRenamePending (d e))
      (\<lambda>renamed. then_x (report_x (\<lambda>r. r\<lparr>er_renamed := Suc (er_renamed r)\<rparr>))
                      (event_x (Renamed (ra_from_remote_path a) renamed)))))" for d
    by (rule account_sent [where k = Renaming]) (auto intro!: account_steps pays_report)
  show ?thesis
    unfolding rename_step_def by (auto intro!: account_steps sent split: option.split)
qed

lemma account_execute: "obeys keeps_account (execute_plan_x E C options schedule plan)"
proof -
  have "obeys keeps_account (execute_renames_x E C plan)"
    unfolding execute_renames_x_def rename_unsupported_x_def
    by (auto intro!: account_steps account_rename)
  moreover have "obeys keeps_account (execute_deletions_x E C plan)"
    unfolding execute_deletions_x_def
    by (auto intro!: account_steps account_judge account_post_delete account_reappeared simp: split_beta)
  ultimately show ?thesis
    unfolding execute_plan_x_def by (auto intro!: account_steps account_writes)
qed

text \<open>
  C3. However a run ends, on success or on any error, under every schedule and every answer: the counters of
  its report (deletions, folders, copies, uploads, renames) are the requests of that kind the NAS
  accepted, every deferred path is in the report exactly once, and the deferrals shown are those
  reported, in order.
\<close>

theorem report_is_truthful:
  "truthful (snd (execute E C options schedule plan w))"
proof -
  have "deferrals_told (exec_start w report_start)"
    by (simp add: deferrals_told_def exec_start_def report_start_def shown_deferrals_def Let_def List.map_filter_def)
  moreover have "reported k report_start = 0" for k
    by (cases k) (simp_all add: report_start_def)
  ultimately have "owes (\<lambda>_. 0) (exec_start w report_start)"
    by (simp add: owes_def exec_start_def)
  with obeysD [OF account_execute] show ?thesis
    unfolding execute_def truthful_owes keeps_account_def by (metis prod.collapse)
qed

end
