(* ===== verification/Reconcile.thy ===== *)
theory Reconcile
  imports Demo Deferrals LocalFiles Numbers
begin

text \<open>
  Reconciliation (\<open>src/sync.rs\<close>): after a run the plan is built once more, and what it still holds
  is either explained by the tree changing meanwhile, or known to be left, or fails the run.
  A \<open>SystemTime\<close> is its nanoseconds since the epoch, negative before it.
\<close>

section \<open>The questions asked of the run\<close>

definition reconciliation_options :: "plan_options \<Rightarrow> compare_mode \<Rightarrow> plan_options" where
  "reconciliation_options run compare =
     \<lparr>po_delete = po_delete run, po_allow_empty_source = True, po_max_delete = usize_max,
      po_compare = compare, po_server_copy = po_server_copy run, po_scope = po_scope run\<rparr>"

definition reconciliation_pending :: "sync_plan \<Rightarrow> error" where
  "reconciliation_pending plan =
     ReconciliationPending (length (sp_pre_deletes plan) + length (sp_creates plan)
       + length (sp_copies plan) + length (sp_uploads plan) + length (sp_post_deletes plan)
       + length (sp_renames plan))"

definition modified_after :: "int \<Rightarrow> int \<Rightarrow> bool" where
  "modified_after mtime_ms started_ns =
     (case millis_since_epoch started_ns of None \<Rightarrow> False | Some started_ms \<Rightarrow> started_ms < mtime_ms)"

definition seconds_since_epoch :: "int \<Rightarrow> int option" where
  "seconds_since_epoch ns =
     (if ns < 0 then None
      else let s = ns div 1000000000 in if s \<le> i64_max then Some s else None)"

section \<open>What the run wrote\<close>

record executed_writes =
  ew_exact :: "string set"
  ew_at_or_above :: "string set"
  ew_deleted :: "string set"

text \<open>A written path and the folders above it, up to the first that is already present.\<close>

function climb :: "string set \<Rightarrow> string \<Rightarrow> string set" where
  "climb seen current =
     (if current \<in> seen then seen
      else
        (case rsplit_once slash current of
           None \<Rightarrow> insert current seen
         | Some (folder, _) \<Rightarrow> climb (insert current seen) folder))"
  by pat_completeness auto
termination
  by (relation "measure (\<lambda>(seen, current). length current)") (auto simp: rsplit_once_Some_iff)

declare climb.simps [simp del]

definition written_files :: "sync_plan \<Rightarrow> string list" where
  "written_files plan =
     map (\<lambda>u. l_relative (ua_local u)) (sp_uploads plan) @ map cp_to_relative (sp_copies plan)"

definition ew_index :: "sync_plan \<Rightarrow> executed_writes" where
  "ew_index executed =
     \<lparr>ew_exact = set (written_files executed),
      ew_at_or_above = foldl climb {} (written_files executed @ map ca_relative (sp_creates executed)),
      ew_deleted = set (map da_relative (sp_post_deletes executed @ sp_pre_deletes executed))\<rparr>"

definition ew_exactly :: "executed_writes \<Rightarrow> string \<Rightarrow> bool" where
  "ew_exactly w relative = (relative \<in> ew_exact w)"

definition ew_at_or_beneath :: "executed_writes \<Rightarrow> string \<Rightarrow> bool" where
  "ew_at_or_beneath w relative = (relative \<in> ew_at_or_above w)"

definition ew_was_deleted :: "executed_writes \<Rightarrow> string \<Rightarrow> bool" where
  "ew_was_deleted w relative = (relative \<in> ew_deleted w)"

section \<open>The verdict\<close>

text \<open>Each loop of the code: one leftover operation, and the count of changes made meanwhile.\<close>

definition leftover_named :: "error \<Rightarrow> deferral_index \<Rightarrow> nat \<Rightarrow> string \<Rightarrow> nat res" where
  "leftover_named pending ix n relative = (if relates_to ix relative then Inr n else Inl pending)"

definition leftover_upload ::
  "error \<Rightarrow> deferral_index \<Rightarrow> executed_writes \<Rightarrow> int \<Rightarrow> nat \<Rightarrow> upload_action \<Rightarrow> nat res"
where
  "leftover_upload pending ix written started n a =
     (if relates_to ix (l_relative (ua_local a)) then Inr n
      else if ua_reason a = MtimeDiffers \<and> ew_exactly written (l_relative (ua_local a)) then Inr n
      else if \<not> modified_after (l_mtime_ms (ua_local a)) started then Inl pending
      else Inr (n + 1))"

definition leftover_copy ::
  "error \<Rightarrow> deferral_index \<Rightarrow> int \<Rightarrow> nat \<Rightarrow> copy_action \<Rightarrow> nat res"
where
  "leftover_copy pending ix started n a =
     (if relates_to ix (cp_to_relative a) then Inr n
      else if \<not> modified_after (l_mtime_ms (cp_local a)) started then Inl pending
      else Inr (n + 1))"

definition leftover_create ::
  "error \<Rightarrow> deferral_index \<Rightarrow> local_fs \<Rightarrow> string \<Rightarrow> int \<Rightarrow> nat \<Rightarrow> create_action \<Rightarrow> nat res"
where
  "leftover_create pending ix fs source_root started n a =
     (if relates_to ix (ca_relative a) then Inr n
      else if ca_relative a = [] then Inl pending
      else
        (case fs_stat fs (path_join source_root (ca_relative a)) of
           Inl _ \<Rightarrow> Inl pending
         | Inr meta \<Rightarrow>
             (case fm_modified_ns meta of
                Inl _ \<Rightarrow> Inl pending
              | Inr modified \<Rightarrow> if modified \<le> started then Inl pending else Inr (n + 1))))"

definition leftover_delete ::
  "error \<Rightarrow> deferral_index \<Rightarrow> executed_writes \<Rightarrow> int option \<Rightarrow> nat \<Rightarrow> delete_action \<Rightarrow> nat res"
where
  "leftover_delete pending ix written started_seconds n a =
     (if relates_to ix (da_relative a) then Inr n
      else if ew_was_deleted written (da_relative a) then Inl pending
      else
        let predates_run = (case started_seconds of
               None \<Rightarrow> False | Some started \<Rightarrow> sn_mtime (da_snapshot a) \<le> started) in
        if \<not> ew_at_or_beneath written (da_relative a) \<and> \<not> predates_run then Inl pending
        else Inr (n + 1))"

text \<open>The answer is \<open>changed_during_run\<close>.\<close>

definition ensure_reconciled ::
  "local_fs \<Rightarrow> string \<Rightarrow> sync_plan \<Rightarrow> sync_plan \<Rightarrow> int \<Rightarrow> deferral_index \<Rightarrow> nat res"
where
  "ensure_reconciled fs source_root executed rebuilt started ix =
     (if plan_is_empty rebuilt then Inr 0
      else
        let pending = reconciliation_pending rebuilt; written = ew_index executed in
        bind_r (fold_r (leftover_named pending ix) 0 (map ra_relative (sp_renames rebuilt))) (\<lambda>n.
        bind_r (fold_r (leftover_named pending ix) n (map da_relative (sp_pre_deletes rebuilt))) (\<lambda>n.
        bind_r (fold_r (leftover_upload pending ix written started) n (sp_uploads rebuilt)) (\<lambda>n.
        bind_r (fold_r (leftover_copy pending ix started) n (sp_copies rebuilt)) (\<lambda>n.
        bind_r (fold_r (leftover_create pending ix fs source_root started) n (sp_creates rebuilt)) (\<lambda>n.
        fold_r (leftover_delete pending ix written (seconds_since_epoch started)) n
          (sp_post_deletes rebuilt)))))))"

section \<open>The index is the relation it stands for\<close>

definition upward_closed :: "string set \<Rightarrow> bool" where
  "upward_closed A = (\<forall>p \<in> A. \<forall>q. beneath q p \<longrightarrow> q \<in> A)"

lemma climb_from:
  "upward_closed base \<Longrightarrow> (\<And>p. p \<in> extra \<Longrightarrow> length current < length p) \<Longrightarrow>
   climb (base \<union> extra) current = base \<union> extra \<union> {q. at_or_beneath q current}"
proof (induction "length current" arbitrary: extra current rule: less_induct)
  case less
  have above: "at_or_beneath q current \<longleftrightarrow> q = current \<or> q \<in> set (ancestors current)" for q
    by (auto simp: at_or_beneath_def in_ancestors_iff)
  show ?case
  proof (cases "current \<in> base \<union> extra")
    case True
    with less.prems(2) have "current \<in> base" by fastforce
    then have "{q. at_or_beneath q current} \<subseteq> base"
      using less.prems(1) by (auto simp: upward_closed_def at_or_beneath_def)
    with True show ?thesis by (auto simp: climb.simps [of _ current])
  next
    case False
    show ?thesis
    proof (cases "rsplit_once slash current")
      case None
      then have "ancestors current = []"
        by (simp add: ancestors.simps)
      with False None show ?thesis
        by (auto simp: climb.simps [of _ current] above)
    next
      case (Some fb)
      then obtain folder b where split: "rsplit_once slash current = Some (folder, b)"
        by (cases fb) auto
      then have len: "length folder < length current"
        by (auto simp: rsplit_once_Some_iff)
      have "climb (base \<union> insert current extra) folder
          = base \<union> insert current extra \<union> {q. at_or_beneath q folder}"
        using less.prems len by (intro less.hyps) (auto dest: order.strict_trans)
      moreover have "at_or_beneath q current \<longleftrightarrow> q = current \<or> at_or_beneath q folder" for q
        using split by (simp add: above ancestors.simps [of current])
          (auto simp: at_or_beneath_def in_ancestors_iff)
      ultimately show ?thesis
        using False split by (simp add: climb.simps [of _ current]) blast
    qed
  qed
qed

lemma climb_all:
  "upward_closed base \<Longrightarrow>
   foldl climb base ps = base \<union> {q. \<exists>p \<in> set ps. at_or_beneath q p}
   \<and> upward_closed (foldl climb base ps)"
proof (induction ps arbitrary: base)
  case (Cons p ps)
  have one: "climb base p = base \<union> {q. at_or_beneath q p}"
    using climb_from [OF Cons.prems, of "{}" p] by simp
  have "upward_closed (climb base p)"
    using Cons.prems unfolding one
    by (auto simp: upward_closed_def at_or_beneath_def dest: beneath_trans)
  from Cons.IH [OF this] show ?case
    by (auto simp: one)
qed simp

definition touched_by :: "sync_plan \<Rightarrow> string \<Rightarrow> bool" where
  "touched_by plan relative =
     (\<exists>p \<in> set (written_files plan) \<union> ca_relative ` set (sp_creates plan). at_or_beneath relative p)"

lemma ew_index_answers:
  "ew_exactly (ew_index plan) p \<longleftrightarrow> p \<in> set (written_files plan)"
  "ew_at_or_beneath (ew_index plan) p \<longleftrightarrow> touched_by plan p"
  "ew_was_deleted (ew_index plan) p \<longleftrightarrow>
     p \<in> da_relative ` (set (sp_pre_deletes plan) \<union> set (sp_post_deletes plan))"
  using climb_all [of "{}" "written_files plan @ map ca_relative (sp_creates plan)"]
  by (auto simp: ew_index_def ew_exactly_def ew_at_or_beneath_def ew_was_deleted_def touched_by_def
      upward_closed_def)

section \<open>What reconciliation decides\<close>

text \<open>A deferral is at, above or beneath the path; everything is beneath the root.\<close>

definition known_left :: "deferral_index \<Rightarrow> string \<Rightarrow> bool" where
  "known_left ix p = (\<exists>d \<in> deferred_paths ix. p = [] \<or> at_or_beneath d p \<or> at_or_beneath p d)"

definition time_not_kept :: "sync_plan \<Rightarrow> upload_action \<Rightarrow> bool" where
  "time_not_kept executed a =
     (ua_reason a = MtimeDiffers \<and> l_relative (ua_local a) \<in> set (written_files executed))"

definition folder_touched_since :: "local_fs \<Rightarrow> string \<Rightarrow> int \<Rightarrow> string \<Rightarrow> bool" where
  "folder_touched_since fs root started p =
     (p \<noteq> [] \<and> (\<exists>meta modified. fs_stat fs (path_join root p) = Inr meta
        \<and> fm_modified_ns meta = Inr modified \<and> started < modified))"

definition deleted_locally_since :: "sync_plan \<Rightarrow> int \<Rightarrow> delete_action \<Rightarrow> bool" where
  "deleted_locally_since executed started a =
     (da_relative a \<notin> da_relative ` (set (sp_pre_deletes executed) \<union> set (sp_post_deletes executed))
      \<and> (touched_by executed (da_relative a)
         \<or> (\<exists>s. seconds_since_epoch started = Some s \<and> sn_mtime (da_snapshot a) \<le> s)))"

definition explained ::
  "local_fs \<Rightarrow> string \<Rightarrow> sync_plan \<Rightarrow> sync_plan \<Rightarrow> int \<Rightarrow> deferral_index \<Rightarrow> bool"
where
  "explained fs root executed rebuilt started ix =
     ((\<forall>a \<in> set (sp_renames rebuilt). known_left ix (ra_relative a))
      \<and> (\<forall>a \<in> set (sp_pre_deletes rebuilt). known_left ix (da_relative a))
      \<and> (\<forall>a \<in> set (sp_uploads rebuilt). known_left ix (l_relative (ua_local a))
           \<or> time_not_kept executed a \<or> modified_after (l_mtime_ms (ua_local a)) started)
      \<and> (\<forall>a \<in> set (sp_copies rebuilt). known_left ix (cp_to_relative a)
           \<or> modified_after (l_mtime_ms (cp_local a)) started)
      \<and> (\<forall>a \<in> set (sp_creates rebuilt). known_left ix (ca_relative a)
           \<or> folder_touched_since fs root started (ca_relative a))
      \<and> (\<forall>a \<in> set (sp_post_deletes rebuilt). known_left ix (da_relative a)
           \<or> deleted_locally_since executed started a))"

definition changed_meanwhile :: "sync_plan \<Rightarrow> sync_plan \<Rightarrow> deferral_index \<Rightarrow> nat" where
  "changed_meanwhile executed rebuilt ix =
     length (filter (\<lambda>a. \<not> known_left ix (l_relative (ua_local a)) \<and> \<not> time_not_kept executed a)
       (sp_uploads rebuilt))
     + length (filter (\<lambda>a. \<not> known_left ix (cp_to_relative a)) (sp_copies rebuilt))
     + length (filter (\<lambda>a. \<not> known_left ix (ca_relative a)) (sp_creates rebuilt))
     + length (filter (\<lambda>a. \<not> known_left ix (da_relative a)) (sp_post_deletes rebuilt))"

text \<open>One loop that counts, or stops with the one error.\<close>

lemma leftover_loop:
  assumes "\<And>n x. step n x = (if P x then Inr n else if Q x then Inr (n + 1) else Inl e)"
  shows "fold_r step n xs = (if \<forall>x \<in> set xs. P x \<or> Q x
    then Inr (n + length (filter (\<lambda>x. \<not> P x) xs)) else Inl e)"
  by (induction xs arbitrary: n) (auto simp: assms)

lemma relates_known:
  assumes "om_wf (ix_exact ix)"
  shows "relates_to ix p \<longleftrightarrow> known_left ix p"
proof (cases "p = []")
  case True
  then show ?thesis
    using covering_iff [of ix p]
    by (cases "ix_exact ix") (auto simp: relates_to_def known_left_def has_descendant_def deferred_paths_def om_keys_def)
next
  case False
  then show ?thesis
    using has_descendant_iff [OF assms False] covering_iff [of ix p]
    by (auto simp: relates_to_def known_left_def at_or_beneath_def)
qed

lemma related: "ix_wf E ix \<Longrightarrow> relates_to ix p \<longleftrightarrow> known_left ix p"
  by (intro relates_known) (simp add: ix_wf_def)

lemma named_loop:
  assumes "ix_wf E ix"
  shows "fold_r (leftover_named e ix) n ps = (if \<forall>p \<in> set ps. known_left ix p then Inr n else Inl e)"
  by (induction ps) (auto simp: leftover_named_def related [OF assms])

lemma upload_loop:
  assumes "ix_wf E ix"
  shows "fold_r (leftover_upload e ix (ew_index executed) started) n us =
    (if \<forall>a \<in> set us. (known_left ix (l_relative (ua_local a)) \<or> time_not_kept executed a)
          \<or> modified_after (l_mtime_ms (ua_local a)) started
     then Inr (n + length (filter (\<lambda>a. \<not> (known_left ix (l_relative (ua_local a)) \<or> time_not_kept executed a)) us))
     else Inl e)"
  by (rule leftover_loop) (auto simp: leftover_upload_def related [OF assms] ew_index_answers time_not_kept_def)

lemma copy_loop:
  assumes "ix_wf E ix"
  shows "fold_r (leftover_copy e ix started) n cs =
    (if \<forall>a \<in> set cs. known_left ix (cp_to_relative a) \<or> modified_after (l_mtime_ms (cp_local a)) started
     then Inr (n + length (filter (\<lambda>a. \<not> known_left ix (cp_to_relative a)) cs)) else Inl e)"
  by (rule leftover_loop) (auto simp: leftover_copy_def related [OF assms])

lemma create_loop:
  assumes "ix_wf E ix"
  shows "fold_r (leftover_create e ix fs root started) n cs =
    (if \<forall>a \<in> set cs. known_left ix (ca_relative a) \<or> folder_touched_since fs root started (ca_relative a)
     then Inr (n + length (filter (\<lambda>a. \<not> known_left ix (ca_relative a)) cs)) else Inl e)"
  by (rule leftover_loop)
    (auto simp: leftover_create_def related [OF assms] folder_touched_since_def split: sum.split)

lemma delete_loop:
  assumes "ix_wf E ix"
  shows "fold_r (leftover_delete e ix (ew_index executed) (seconds_since_epoch started)) n ds =
    (if \<forall>a \<in> set ds. known_left ix (da_relative a) \<or> deleted_locally_since executed started a
     then Inr (n + length (filter (\<lambda>a. \<not> known_left ix (da_relative a)) ds)) else Inl e)"
  by (rule leftover_loop)
    (auto simp: leftover_delete_def Let_def related [OF assms] ew_index_answers deleted_locally_since_def split: option.split)

text \<open>
  C4. Reconciliation succeeds exactly when every operation of the rebuilt plan is explained: its path is,
  holds or lies beneath a deferred path; or the run itself wrote the file and only its time was not
  kept; or the local file or folder was modified after the run began; or a deletion names an entry the
  run did not delete and either wrote into or found already there. It then counts the changes made
  meanwhile, and otherwise fails with the number of pending operations.
\<close>

theorem reconciliation_verdict:
  assumes "ix_wf E ix"
  shows "ensure_reconciled fs root executed rebuilt started ix =
    (if explained fs root executed rebuilt started ix
     then Inr (changed_meanwhile executed rebuilt ix)
     else Inl (reconciliation_pending rebuilt))"
proof (cases "plan_is_empty rebuilt")
  case True
  then show ?thesis
    by (simp add: ensure_reconciled_def plan_is_empty_def explained_def changed_meanwhile_def)
next
  case False
  then show ?thesis
    by (simp add: ensure_reconciled_def Let_def named_loop [OF assms] upload_loop [OF assms]
        copy_loop [OF assms] create_loop [OF assms] delete_loop [OF assms] explained_def changed_meanwhile_def
        disj_assoc)
qed

definition bare_plan :: "upload_action list \<Rightarrow> sync_plan" where
  "bare_plan uploads =
     \<lparr>sp_source_root = ''/src'', sp_scope = scope_root, sp_rules = rules_none, sp_pre_deletes = [],
      sp_creates = [], sp_copies = [], sp_uploads = uploads, sp_post_deletes = [], sp_renames = [],
      sp_unchanged = 0, sp_protected = 0, sp_upload_bytes = 9, sp_skipped = [], sp_link_unchecked = 0\<rparr>"

definition edited :: "change_reason \<Rightarrow> upload_action" where
  "edited reason =
     \<lparr>ua_local = snd (demo_local ''edit'' File 9 6000 None), ua_remote_path = ''/s/d/edit'',
      ua_reason = reason, ua_expected = None\<rparr>"

definition no_files :: local_fs where
  "no_files = \<lparr>fs_stat = (\<lambda>_. Inl \<lparr>io_kind_of = NotFound, io_text = ''absent''\<rparr>), fs_list = (\<lambda>_. Inr [])\<rparr>"

text \<open>A file written five seconds into a run is explained; one written before it began is not.\<close>

theorem reconciliation_verdict_witness:
  "ensure_reconciled no_files ''/src'' (bare_plan []) (bare_plan [edited SizeDiffers]) 5000000000 ix_empty = Inr 1
   \<and> ensure_reconciled no_files ''/src'' (bare_plan []) (bare_plan [edited SizeDiffers]) 7000000000 ix_empty
     = Inl (ReconciliationPending 1)
   \<and> ensure_reconciled no_files ''/src'' (bare_plan [edited SizeDiffers]) (bare_plan [edited MtimeDiffers]) 7000000000 ix_empty
     = Inr 0"
  unfolding reconciliation_verdict [of plain_env, OF ix_empty_wf]
  by (simp_all add: explained_def changed_meanwhile_def bare_plan_def edited_def demo_local_def known_left_def
      time_not_kept_def written_files_def modified_after_def millis_since_epoch_def i64_max_def
      reconciliation_pending_def)

end
