(* ===== verification/Watch.thy ===== *)
theory Watch
  imports LocalFiles ErrorText Numbers
begin

text \<open>
  The portable part of watch mode (\<open>src/watch/mod.rs\<close>): why a tree cannot be watched and the line
  that says so, what may be watched, the watch budget, which events make a line, and the coalescer
  that writes at most one line per interval. Times are nanoseconds.
\<close>

section \<open>Changes and errors\<close>

datatype change = ChangedPath string string string | Overflow

record limit_exceeded =
  le_dirs :: nat
  le_budget :: "nat option"
  le_limit :: "nat option"
  le_held :: nat
  le_refused_at :: "string option"

datatype watch_error =
    UsageError string
  | Unavailable string
  | SourceMissing string string
  | SourceGone string
  | RulesError string
  | LimitError limit_exceeded
  | DeadlineError string nat
  | SetupError string string
  | OutputError string

type_synonym 'a watch_res = "watch_error + 'a"

fun watch_reason :: "watch_error \<Rightarrow> string" where
  "watch_reason (LimitError _) = ''watch_limit''"
| "watch_reason (Unavailable _) = ''watch_unavailable''"
| "watch_reason (SourceMissing _ _) = ''source_missing''"
| "watch_reason (SourceGone _) = ''source_missing''"
| "watch_reason (UsageError _) = ''watch_setup_failed''"
| "watch_reason (RulesError _) = ''watch_setup_failed''"
| "watch_reason (DeadlineError _ _) = ''watch_setup_failed''"
| "watch_reason (SetupError _ _) = ''watch_setup_failed''"
| "watch_reason (OutputError _) = ''watch_setup_failed''"

fun exit_code :: "watch_error \<Rightarrow> nat" where
  "exit_code (UsageError _) = 64"
| "exit_code (SourceMissing _ _) = 66"
| "exit_code (SourceGone _) = 66"
| "exit_code (Unavailable _) = 69"
| "exit_code (SetupError _ _) = 71"
| "exit_code (DeadlineError _ _) = 72"
| "exit_code (LimitError _) = 73"
| "exit_code (OutputError _) = 74"
| "exit_code (RulesError _) = 78"

definition show_limit :: "limit_exceeded \<Rightarrow> string" where
  "show_limit l =
     '' dirs='' @ show_nat (le_dirs l)
     @ (case le_budget l of None \<Rightarrow> [] | Some b \<Rightarrow> '' budget='' @ show_nat b)
     @ (case le_limit l of None \<Rightarrow> '' limit=unread'' | Some v \<Rightarrow> '' limit='' @ show_nat v)
     @ '' held='' @ show_nat (le_held l)
     @ (case le_refused_at l of
          Some path \<Rightarrow> '' at='' @ path @ '': the kernel refused another watch (ENOSPC)''
        | None \<Rightarrow> '': more directories than 80% of the per-user inotify limit leaves'')
     @ ''; raise fs.inotify.max_user_watches (root sysctl) or narrow the source''"

fun watch_error_display :: "watch_error \<Rightarrow> string" where
  "watch_error_display (UsageError detail) = watch_reason (UsageError detail) @ '' usage: '' @ detail"
| "watch_error_display (Unavailable detail) = watch_reason (Unavailable detail) @ '': '' @ detail"
| "watch_error_display (SourceMissing path detail) =
     watch_reason (SourceMissing path detail) @ '': '' @ detail @ ''; path='' @ path"
| "watch_error_display (SourceGone path) =
     watch_reason (SourceGone path)
     @ '': the source was deleted, moved or unmounted while watched; path='' @ path"
| "watch_error_display (RulesError detail) = watch_reason (RulesError detail) @ '' rules: '' @ detail"
| "watch_error_display (LimitError l) = watch_reason (LimitError l) @ show_limit l"
| "watch_error_display (DeadlineError path deadline) =
     watch_reason (DeadlineError path deadline) @ '' deadline=''
     @ show_nat (deadline div 1000000000) @ ''s: the directory walk did not finish in time; path='' @ path"
| "watch_error_display (SetupError path detail) =
     watch_reason (SetupError path detail) @ '': '' @ detail @ ''; path='' @ path"
| "watch_error_display (OutputError detail) = watch_reason (OutputError detail) @ '' output: '' @ detail"

section \<open>What may be watched\<close>

record watch_filter =
  wf_source :: string
  wf_extra :: "string list"
  wf_rules :: ignore_rules

text \<open>The rules are read by \<open>IgnoreRules::build\<close>, whose answer is given.\<close>

definition filter_error :: "text_env \<Rightarrow> string \<Rightarrow> error \<Rightarrow> watch_error" where
  "filter_error E source e =
     (case e of
        FileIo path io \<Rightarrow>
          if io_kind_of io = NotFound then SourceMissing source ''the source does not exist''
          else RulesError (error_display E e)
      | UnsupportedLocalEntryError path reason \<Rightarrow>
          if path = source then SourceMissing path reason else RulesError (error_display E e)
      | _ \<Rightarrow> RulesError (error_display E e))"

definition filter_build ::
  "text_env \<Rightarrow> (string \<Rightarrow> string list \<Rightarrow> ignore_rules res) \<Rightarrow> string \<Rightarrow> string list \<Rightarrow> watch_filter watch_res"
where
  "filter_build E read_rules source extra =
     (case read_rules source extra of
        Inl e \<Rightarrow> Inl (filter_error E source e)
      | Inr rules \<Rightarrow> Inr \<lparr>wf_source = source, wf_extra = extra, wf_rules = rules\<rparr>)"

definition filter_rebuilt ::
  "text_env \<Rightarrow> (string \<Rightarrow> string list \<Rightarrow> ignore_rules res) \<Rightarrow> watch_filter \<Rightarrow> watch_filter watch_res"
where
  "filter_rebuilt E read_rules f = filter_build E read_rules (wf_source f) (wf_extra f)"

definition filter_excludes :: "text_env \<Rightarrow> watch_filter \<Rightarrow> string \<Rightarrow> bool \<Rightarrow> bool" where
  "filter_excludes E f relative is_dir =
     (relative \<noteq> [] \<and> (is_dsm_managed relative \<or> is_ignored E (wf_rules f) relative is_dir))"

definition is_rules_file :: "string \<Rightarrow> bool" where
  "is_rules_file relative = (relative = default_ignore_file)"

section \<open>The profile's patterns\<close>

text \<open>A TOML document as its parser returns it; other values than these are one constructor.\<close>

datatype toml =
    TomlString string
  | TomlArray "toml list"
  | TomlTable "(string \<times> toml) list"
  | TomlOther

type_synonym toml_table = "(string \<times> toml) list"

definition fragment_limit :: nat where
  "fragment_limit = 256 * 1024"

definition profile_section :: "toml_table \<Rightarrow> string + toml_table" where
  "profile_section table =
     (case map_of table ''profiles'' of
        None \<Rightarrow> Inr table
      | Some (TomlTable profiles) \<Rightarrow>
          (case map snd profiles of
             [] \<Rightarrow> Inl ''the profiles table is empty''
           | [TomlTable section] \<Rightarrow> Inr section
           | [_] \<Rightarrow> Inl ''the profile entry is not a table''
           | _ \<Rightarrow> Inl (''it holds '' @ show_nat (length profiles) @ '' profiles, not one''))
      | Some _ \<Rightarrow> Inl ''profiles is not a table'')"

definition pattern_of :: "toml \<Rightarrow> string + string" where
  "pattern_of item =
     (case item of
        TomlString pattern \<Rightarrow> Inr pattern
      | _ \<Rightarrow> Inl ''excludes holds a value that is not a string'')"

definition table_excludes :: "toml_table \<Rightarrow> string + string list" where
  "table_excludes table =
     (case map_of table ''excludes'' of
        None \<Rightarrow> Inr []
      | Some (TomlArray items) \<Rightarrow> collect pattern_of items
      | Some _ \<Rightarrow> Inl ''excludes is not an array'')"

text \<open>The text is what reading the file answered, up to one byte past the limit.\<close>

definition profile_excludes ::
  "(string \<Rightarrow> string + toml_table) \<Rightarrow> string \<Rightarrow> string + string \<Rightarrow> string list watch_res"
where
  "profile_excludes parse_toml fragment content =
     (let failure = (\<lambda>detail. RulesError (''profile fragment '' @ fragment @ '': '' @ detail)) in
      case content of
        Inl cause \<Rightarrow> Inl (failure cause)
      | Inr text \<Rightarrow>
          if fragment_limit < length text then
            Inl (failure (''larger than '' @ show_nat fragment_limit @ '' bytes''))
          else
            (case bind_r (bind_r (parse_toml text) profile_section) table_excludes of
               Inl cause \<Rightarrow> Inl (failure cause)
             | Inr patterns \<Rightarrow> Inr patterns))"

section \<open>The budget\<close>

definition watch_budget :: "u64 \<Rightarrow> u64 \<Rightarrow> u64" where
  "watch_budget limit held = u64_sat_sub (limit div 10 * 8) held"

text \<open>A limit as a file of procfs holds it; the answer of reading the file is given.\<close>

definition read_watch_limit :: "text_env \<Rightarrow> string + string \<Rightarrow> string + u64" where
  "read_watch_limit E content =
     (case content of
        Inl cause \<Rightarrow> Inl cause
      | Inr text \<Rightarrow>
          let value = trim text in
          if value = [] \<or> \<not> list_all is_digit value then Inl (debug_str E value @ '' is not a count'')
          else
            (case parse_u64 value of
               None \<Rightarrow> Inr (- 1)
             | Some n \<Rightarrow> if n = 0 then Inl ''the limit is zero'' else Inr (of_nat n)))"

definition effective_watch_limit :: "text_env \<Rightarrow> string + string \<Rightarrow> string + string \<Rightarrow> string + u64" where
  "effective_watch_limit E user_file namespace_file =
     (case read_watch_limit E user_file of
        Inl cause \<Rightarrow> Inl (''/proc/sys/fs/inotify/max_user_watches: '' @ cause)
      | Inr limit \<Rightarrow>
          Inr (case read_watch_limit E namespace_file of
                 Inr namespace \<Rightarrow> min limit namespace
               | Inl _ \<Rightarrow> limit))"

datatype limit_policy = SystemLimit | FixedLimit u64 u64 | UncheckedLimit

section \<open>Events\<close>

record event_set =
  ev_close_write :: bool
  ev_create :: bool
  ev_delete :: bool
  ev_moved_from :: bool
  ev_moved_to :: bool
  ev_attrib :: bool
  ev_modify :: bool

definition events_none :: event_set where
  "events_none =
     \<lparr>ev_close_write = False, ev_create = False, ev_delete = False, ev_moved_from = False,
      ev_moved_to = False, ev_attrib = False, ev_modify = False\<rparr>"

definition events_all :: event_set where
  "events_all =
     \<lparr>ev_close_write = True, ev_create = True, ev_delete = True, ev_moved_from = True,
      ev_moved_to = True, ev_attrib = True, ev_modify = True\<rparr>"

definition events_add :: "text_env \<Rightarrow> event_set \<Rightarrow> string \<Rightarrow> event_set watch_res" where
  "events_add E events name =
     (if name = ''close_write'' then Inr (events\<lparr>ev_close_write := True\<rparr>)
      else if name = ''create'' then Inr (events\<lparr>ev_create := True\<rparr>)
      else if name = ''delete'' then Inr (events\<lparr>ev_delete := True\<rparr>)
      else if name = ''move'' then Inr (events\<lparr>ev_moved_from := True, ev_moved_to := True\<rparr>)
      else if name = ''moved_from'' then Inr (events\<lparr>ev_moved_from := True\<rparr>)
      else if name = ''moved_to'' then Inr (events\<lparr>ev_moved_to := True\<rparr>)
      else if name = ''attrib'' then Inr (events\<lparr>ev_attrib := True\<rparr>)
      else if name = ''modify'' then Inr (events\<lparr>ev_modify := True\<rparr>)
      else Inl (UsageError (''event '' @ debug_str E name
        @ '' is not supported (close_write, create, delete, move, moved_from, moved_to, attrib, modify)'')))"

definition events_reports :: "event_set \<Rightarrow> string \<Rightarrow> bool" where
  "events_reports events kind =
     (if kind = ''close_write'' then ev_close_write events
      else if kind = ''create'' then ev_create events
      else if kind = ''delete'' then ev_delete events
      else if kind = ''moved_from'' then ev_moved_from events
      else if kind = ''moved_to'' then ev_moved_to events
      else if kind = ''attrib'' then ev_attrib events
      else if kind = ''modify'' then ev_modify events
      else kind = ''new_dir'')"

definition events_empty :: "event_set \<Rightarrow> bool" where
  "events_empty events = (events = events_none)"

section \<open>The coalescer\<close>

record coalescer =
  co_interval :: nat
  co_last :: "nat option"
  co_pending :: "bool option"

definition co_new :: "nat \<Rightarrow> coalescer" where
  "co_new interval = \<lparr>co_interval = interval, co_last = None, co_pending = None\<rparr>"

definition co_note :: "bool \<Rightarrow> coalescer \<Rightarrow> coalescer" where
  "co_note overflow c =
     c\<lparr>co_pending := Some ((case co_pending c of None \<Rightarrow> False | Some b \<Rightarrow> b) \<or> overflow)\<rparr>"

text \<open>\<open>saturating_duration_since\<close> is truncated subtraction.\<close>

definition co_wait_hint :: "nat \<Rightarrow> coalescer \<Rightarrow> nat option" where
  "co_wait_hint now c =
     (case co_pending c of
        None \<Rightarrow> None
      | Some _ \<Rightarrow>
          Some (case co_last c of Some before \<Rightarrow> before + co_interval c - now | None \<Rightarrow> 0))"

definition co_take :: "nat \<Rightarrow> coalescer \<Rightarrow> bool option \<times> coalescer" where
  "co_take now c =
     (case co_wait_hint now c of
        None \<Rightarrow> (None, c)
      | Some wait \<Rightarrow>
          if 0 < wait then (None, c)
          else (co_pending c, c\<lparr>co_last := Some now, co_pending := None\<rparr>))"

definition co_take_now :: "coalescer \<Rightarrow> bool option \<times> coalescer" where
  "co_take_now c = (co_pending c, c\<lparr>co_pending := None\<rparr>)"

definition join_relative :: "string \<Rightarrow> string \<Rightarrow> string" where
  "join_relative dir entry = (if dir = [] then entry else dir @ slash # entry)"

end
