(* ===== verification/WatchCommand.thy ===== *)
theory WatchCommand
  imports Watch
begin

text \<open>
  The command line of the watcher and its loop (\<open>src/watch/cli.rs\<close>): the arguments of \<open>--watch\<close> and
  \<open>--watch-probe\<close>, and what is written to the event marker while the tree is watched.
\<close>

section \<open>Arguments\<close>

text \<open>An argument is a name of the system; what is not UTF-8 is shown by the lossy conversion \<open>L\<close>.\<close>

definition lossy :: "(string \<Rightarrow> string) \<Rightarrow> os_name \<Rightarrow> string" where
  "lossy L name = (case name of Utf8 text \<Rightarrow> text | NotUtf8 bytes \<Rightarrow> L bytes)"

definition default_setup_deadline :: nat where
  "default_setup_deadline = 120 * 1000000000"

definition coalesce_interval :: nat where
  "coalesce_interval = 100 * 1000000"

record watch_args =
  wa_source :: os_name
  wa_format :: string
  wa_events :: event_set
  wa_fragment :: "os_name option"
  wa_deadline :: nat

record probe_args =
  pa_source :: os_name
  pa_seconds :: nat
  pa_fragment :: "os_name option"
  pa_deadline :: nat

definition seconds_of :: "os_name \<Rightarrow> string \<Rightarrow> nat \<Rightarrow> nat watch_res" where
  "seconds_of value option maximum =
     (let refused = UsageError (option @ '' takes whole seconds from 1 to '' @ show_nat maximum) in
      case value of
        NotUtf8 _ \<Rightarrow> Inl refused
      | Utf8 text \<Rightarrow>
          (case parse_u64 text of
             None \<Rightarrow> Inl refused
           | Some n \<Rightarrow> if 1 \<le> n \<and> n \<le> maximum then Inr n else Inl refused))"

definition needs_value :: "string \<Rightarrow> watch_error" where
  "needs_value option = UsageError (option @ '' needs a value'')"

text \<open>What the loop over the arguments has gathered.\<close>

record gathered =
  ga_monitor :: bool
  ga_recursive :: bool
  ga_format :: "string option"
  ga_events :: event_set
  ga_fragment :: "os_name option"
  ga_deadline :: nat
  ga_source :: "os_name option"
  ga_ended :: bool

definition gathered_start :: gathered where
  "gathered_start =
     \<lparr>ga_monitor = False, ga_recursive = False, ga_format = None, ga_events = events_none,
      ga_fragment = None, ga_deadline = default_setup_deadline, ga_source = None, ga_ended = False\<rparr>"

definition take_source :: "string \<Rightarrow> os_name \<Rightarrow> gathered \<Rightarrow> gathered watch_res" where
  "take_source refusal argument g =
     (if ga_source g \<noteq> None then Inl (UsageError refusal) else Inr (g\<lparr>ga_source := Some argument\<rparr>))"

definition format_of :: "os_name \<Rightarrow> string watch_res" where
  "format_of value =
     (case value of
        NotUtf8 _ \<Rightarrow> Inl (UsageError ''--format must be text'')
      | Utf8 text \<Rightarrow>
          if text = [] \<or> CHR ''%'' \<in> set text \<or> has_control text then
            Inl (UsageError ''--format must be a non-empty literal without % directives'')
          else Inr text)"

text \<open>One option and its value, when it takes one.\<close>

definition flag_option :: "string \<Rightarrow> gathered \<Rightarrow> gathered option" where
  "flag_option text g =
     (if text = ''--'' then Some (g\<lparr>ga_ended := True\<rparr>)
      else if text = ''-m'' \<or> text = ''--monitor'' then Some (g\<lparr>ga_monitor := True\<rparr>)
      else if text = ''-r'' \<or> text = ''--recursive'' then Some (g\<lparr>ga_recursive := True\<rparr>)
      else if text = ''-q'' \<or> text = ''-qq'' \<or> text = ''--quiet'' then Some g
      else None)"

definition value_option ::
  "text_env \<Rightarrow> (string \<Rightarrow> string) \<Rightarrow> string \<Rightarrow> (string \<times> (os_name \<Rightarrow> gathered \<Rightarrow> gathered watch_res)) option"
where
  "value_option E L text =
     (if text = ''--format'' then
        Some (''--format'', \<lambda>v g. map_r (\<lambda>f. g\<lparr>ga_format := Some f\<rparr>) (format_of v))
      else if text = ''-e'' \<or> text = ''--event'' then
        Some (''-e'', \<lambda>v g. map_r (\<lambda>events. g\<lparr>ga_events := events\<rparr>)
          (fold_r (\<lambda>events name. events_add E events (trim name)) (ga_events g)
             (split_on (CHR '','') (lossy L v))))
      else if text = ''--profile-fragment'' then
        Some (''--profile-fragment'', \<lambda>v g. Inr (g\<lparr>ga_fragment := Some v\<rparr>))
      else if text = ''--setup-deadline'' then
        Some (''--setup-deadline'', \<lambda>v g. map_r (\<lambda>s. g\<lparr>ga_deadline := s * 1000000000\<rparr>)
          (seconds_of v ''--setup-deadline'' 3600))
      else None)"

fun gather :: "text_env \<Rightarrow> (string \<Rightarrow> string) \<Rightarrow> gathered \<Rightarrow> os_name list \<Rightarrow> gathered watch_res" where
  "gather E L g [] = Inr g"
| "gather E L g (argument # arguments) =
     (let text = lossy L argument in
      if ga_ended g \<or> \<not> prefix ''-'' text \<or> text = ''-'' then
        bind_r (take_source ''exactly one source directory is watched'' argument g)
          (\<lambda>g'. gather E L g' arguments)
      else
        (case flag_option text g of
           Some g' \<Rightarrow> gather E L g' arguments
         | None \<Rightarrow>
             (case value_option E L text of
                None \<Rightarrow> Inl (UsageError (''unsupported argument '' @ debug_str E text))
              | Some (name, apply_value) \<Rightarrow>
                  (case arguments of
                     [] \<Rightarrow> Inl (needs_value name)
                   | v # rest \<Rightarrow> bind_r (apply_value v g) (\<lambda>g'. gather E L g' rest)))))"

definition parse_watch_args ::
  "text_env \<Rightarrow> (string \<Rightarrow> string) \<Rightarrow> os_name list \<Rightarrow> watch_args watch_res"
where
  "parse_watch_args E L arguments =
     bind_r (gather E L gathered_start arguments) (\<lambda>g.
       if \<not> ga_monitor g \<or> \<not> ga_recursive g then
         Inl (UsageError ''only monitor (-m) recursive (-r) watching is supported'')
       else
         (case ga_source g of
            None \<Rightarrow> Inl (UsageError ''a source directory is required'')
          | Some source \<Rightarrow>
              Inr \<lparr>wa_source = source,
                   wa_format = (case ga_format g of None \<Rightarrow> ''x'' | Some f \<Rightarrow> f),
                   wa_events = (if events_empty (ga_events g) then events_all else ga_events g),
                   wa_fragment = ga_fragment g, wa_deadline = ga_deadline g\<rparr>))"

record probe_gathered =
  pg_seconds :: nat
  pg_fragment :: "os_name option"
  pg_deadline :: nat
  pg_source :: "os_name option"

definition probe_option ::
  "string \<Rightarrow> (os_name \<Rightarrow> probe_gathered \<Rightarrow> probe_gathered watch_res) option"
where
  "probe_option text =
     (if text = ''--seconds'' then
        Some (\<lambda>v g. map_r (\<lambda>s. g\<lparr>pg_seconds := s\<rparr>) (seconds_of v ''--seconds'' 3600))
      else if text = ''--profile-fragment'' then Some (\<lambda>v g. Inr (g\<lparr>pg_fragment := Some v\<rparr>))
      else if text = ''--setup-deadline'' then
        Some (\<lambda>v g. map_r (\<lambda>s. g\<lparr>pg_deadline := s * 1000000000\<rparr>)
          (seconds_of v ''--setup-deadline'' 3600))
      else None)"

fun probe_gather ::
  "text_env \<Rightarrow> (string \<Rightarrow> string) \<Rightarrow> probe_gathered \<Rightarrow> os_name list \<Rightarrow> probe_gathered watch_res"
where
  "probe_gather E L g [] = Inr g"
| "probe_gather E L g (argument # arguments) =
     (let text = lossy L argument in
      case probe_option text of
        Some apply_value \<Rightarrow>
          (case arguments of
             [] \<Rightarrow> Inl (needs_value text)
           | v # rest \<Rightarrow> bind_r (apply_value v g) (\<lambda>g'. probe_gather E L g' rest))
      | None \<Rightarrow>
          if prefix ''-'' text \<and> text \<noteq> ''-'' then
            Inl (UsageError (''unsupported argument '' @ debug_str E text))
          else if pg_source g \<noteq> None then
            Inl (UsageError ''exactly one source directory is probed'')
          else probe_gather E L (g\<lparr>pg_source := Some argument\<rparr>) arguments)"

definition parse_probe_args ::
  "text_env \<Rightarrow> (string \<Rightarrow> string) \<Rightarrow> os_name list \<Rightarrow> probe_args watch_res"
where
  "parse_probe_args E L arguments =
     bind_r (probe_gather E L
         \<lparr>pg_seconds = 60, pg_fragment = None, pg_deadline = default_setup_deadline, pg_source = None\<rparr>
         arguments) (\<lambda>g.
       case pg_source g of
         None \<Rightarrow> Inl (UsageError
           ''usage: --watch-probe [--seconds N] [--profile-fragment <toml>] <source>'')
       | Some source \<Rightarrow>
           Inr \<lparr>pa_source = source, pa_seconds = pg_seconds g, pa_fragment = pg_fragment g,
                pa_deadline = pg_deadline g\<rparr>)"

section \<open>The loop\<close>

text \<open>
  One turn of the loop: what waiting for the tree answered, the clock when the pending line is asked
  for, and whether a line could be written in it.
\<close>

record turn =
  tn_changes :: "change list watch_res"
  tn_now :: nat
  tn_written :: "string + unit"

definition marker_text :: "string \<Rightarrow> bool \<Rightarrow> string" where
  "marker_text format overflow = (if overflow then format @ '' overflow'' else format)"

definition note_all :: "change list \<Rightarrow> coalescer \<Rightarrow> coalescer" where
  "note_all changes c = foldl (\<lambda>c change. co_note (change = Overflow) c) c changes"

text \<open>A line that is written, with the clock at that moment; the last line has none.\<close>

type_synonym marker = "nat option \<times> string"

definition source_is_gone :: "watch_error \<Rightarrow> bool" where
  "source_is_gone e = (case e of SourceGone _ \<Rightarrow> True | _ \<Rightarrow> False)"

text \<open>The last line is attempted, and a failure to write it is ignored.\<close>

definition last_lines :: "string \<Rightarrow> watch_error \<Rightarrow> bool option \<Rightarrow> string + unit \<Rightarrow> marker list" where
  "last_lines format e pending written =
     (if pending \<noteq> None \<or> source_is_gone e then
        (case written of
           Inl _ \<Rightarrow> []
         | Inr _ \<Rightarrow> [(None, marker_text format (case pending of None \<Rightarrow> False | Some overflow \<Rightarrow> overflow))])
      else [])"

text \<open>The answer: the lines, and the error the loop ended with or the coalescer it goes on with.\<close>

fun watch_turns ::
  "string \<Rightarrow> coalescer \<Rightarrow> turn list \<Rightarrow> marker list \<times> (watch_error + coalescer)"
where
  "watch_turns format c [] = ([], Inr c)"
| "watch_turns format c (t # ts) =
     (case tn_changes t of
        Inl e \<Rightarrow> (last_lines format e (fst (co_take_now c)) (tn_written t), Inl e)
      | Inr changes \<Rightarrow>
          (case co_take (tn_now t) (note_all changes c) of
             (None, c') \<Rightarrow> watch_turns format c' ts
           | (Some overflow, c') \<Rightarrow>
               (case tn_written t of
                  Inl cause \<Rightarrow>
                    ([], Inl (OutputError (''cannot write the event marker: '' @ cause)))
                | Inr _ \<Rightarrow>
                    (case watch_turns format c' ts of (lines, r) \<Rightarrow>
                       ((Some (tn_now t), marker_text format overflow) # lines, r)))))"

end
