(* ===== verification/WatchTree.thy ===== *)
theory WatchTree
  imports WatchCommand "HOL-Library.AList"
begin

text \<open>
  The tree of watched directories (\<open>src/watch/tree.rs\<close>): the arena of nodes, the walk that arms a
  watch before it lists a directory, and the processing of a batch of kernel events. The kernel and
  the file system are an abstract world; paths and names are bytes.
\<close>

section \<open>The kernel\<close>

type_synonym wd = nat

datatype errno = ENOENT | ENOTDIR | ENOSPC | OtherErrno string

text \<open>
  Adding a watch, removing one, listing the subdirectories of a directory, whether the deadline of
  the walk has passed, and reading the rules again.
\<close>

record 'w kernel =
  kn_add_watch :: "string \<Rightarrow> 'w \<Rightarrow> (errno + wd) \<times> 'w"
  kn_rm_watch :: "wd \<Rightarrow> 'w \<Rightarrow> 'w"
  kn_subdirs :: "string \<Rightarrow> 'w \<Rightarrow> (io_error + os_name list) \<times> 'w"
  kn_cancelled :: "'w \<Rightarrow> bool \<times> 'w"
  kn_rules :: "'w \<Rightarrow> string \<Rightarrow> string list \<Rightarrow> ignore_rules res"

datatype mask_flag =
    InCloseWrite | InCreate | InDelete | InMovedFrom | InMovedTo | InAttrib | InModify
  | InDeleteSelf | InMoveSelf | InUnmount | InIgnored | InQueueOverflow | InIsDir

record inotify_event =
  ie_wd :: wd
  ie_mask :: "mask_flag list"
  ie_cookie :: nat
  ie_name :: "os_name option"

definition kind_of :: "mask_flag list \<Rightarrow> string" where
  "kind_of flags =
     (if InCloseWrite \<in> set flags then ''close_write''
      else if InCreate \<in> set flags then ''create''
      else if InDelete \<in> set flags then ''delete''
      else if InMovedFrom \<in> set flags then ''moved_from''
      else if InMovedTo \<in> set flags then ''moved_to''
      else if InAttrib \<in> set flags then ''attrib''
      else if InModify \<in> set flags then ''modify''
      else ''other'')"

section \<open>The arena\<close>

record watch_node =
  nd_parent :: "wd option"
  nd_name :: os_name
  nd_children :: "wd list"

type_synonym arena = "(wd \<times> watch_node) list"

definition has_node :: "arena \<Rightarrow> wd \<Rightarrow> bool" where
  "has_node ns w = (map_of ns w \<noteq> None)"

definition arena_child :: "arena \<Rightarrow> wd \<Rightarrow> os_name \<Rightarrow> wd option" where
  "arena_child ns parent name =
     (case map_of ns parent of
        None \<Rightarrow> None
      | Some node \<Rightarrow>
          find (\<lambda>c. case map_of ns c of None \<Rightarrow> False | Some n \<Rightarrow> nd_name n = name) (nd_children node))"

definition set_children :: "(wd list \<Rightarrow> wd list) \<Rightarrow> wd \<Rightarrow> arena \<Rightarrow> arena" where
  "set_children f w ns =
     (case map_of ns w of
        None \<Rightarrow> ns
      | Some node \<Rightarrow> AList.update w (node\<lparr>nd_children := f (nd_children node)\<rparr>) ns)"

definition detach :: "wd \<Rightarrow> arena \<Rightarrow> arena" where
  "detach w ns =
     (case map_of ns w of
        None \<Rightarrow> ns
      | Some node \<Rightarrow>
          (case nd_parent node of
             None \<Rightarrow> ns
           | Some parent \<Rightarrow> set_children (filter (\<lambda>c. c \<noteq> w)) parent ns))"

text \<open>The loop of \<open>forget\<close>: what is left, and the watches taken back, in order.\<close>

function forget_loop :: "(wd \<times> bool) list \<Rightarrow> arena \<Rightarrow> arena \<times> wd list" where
  "forget_loop [] ns = (ns, [])"
| "forget_loop ((current, remove) # stack) ns =
     (let (stack', ns') =
            (case map_of ns current of
               None \<Rightarrow> (stack, ns)
             | Some node \<Rightarrow>
                 (rev (map (\<lambda>c. (c, True)) (nd_children node)) @ stack, AList.delete current ns)) in
      case forget_loop stack' ns' of
        (left, gone) \<Rightarrow> (left, if remove then current # gone else gone))"
  by pat_completeness auto
termination
proof (relation "measures [\<lambda>(stack, ns). length ns, \<lambda>(stack, ns). length stack]")
  fix current remove stack and ns :: arena and p stack' ns'
  assume p: "p = (case map_of ns current of
      None \<Rightarrow> (stack, ns)
    | Some node \<Rightarrow> (rev (map (\<lambda>c. (c, True)) (nd_children node)) @ stack, AList.delete current ns))"
    and split: "(stack', ns') = p"
  have "length (AList.delete current ns) < length ns" if "map_of ns current = Some node" for node
  proof -
    have "(current, node) \<in> set ns"
      using that by (rule map_of_SomeD)
    then show ?thesis
      unfolding AList.delete_eq by (intro length_filter_less) auto
  qed
  with p split show "((stack', ns'), (current, remove) # stack, ns)
      \<in> measures [\<lambda>(stack, ns). length ns, \<lambda>(stack, ns). length stack]"
    by (auto split: option.splits)
qed simp

definition forget :: "wd \<Rightarrow> bool \<Rightarrow> arena \<Rightarrow> arena \<times> wd list" where
  "forget w remove_self ns =
     (if \<not> has_node ns w then (ns, if remove_self then [w] else [])
      else forget_loop [(w, remove_self)] (detach w ns))"

definition attach :: "wd \<Rightarrow> wd option \<Rightarrow> os_name \<Rightarrow> arena \<Rightarrow> arena \<times> wd list" where
  "attach w parent name ns =
     (if (case parent of None \<Rightarrow> False | Some p \<Rightarrow> \<not> has_node ns p) then forget w True ns
      else if (case map_of ns w of
                 None \<Rightarrow> False | Some n \<Rightarrow> nd_parent n = parent \<and> nd_name n = name)
      then (ns, [])
      else
        let ns1 = detach w ns;
            children = (case map_of ns1 w of None \<Rightarrow> [] | Some n \<Rightarrow> nd_children n);
            ns2 = AList.delete w ns1;
            ns3 = (case parent of
                     None \<Rightarrow> ns2
                   | Some p \<Rightarrow>
                       let ns' = (case arena_child ns2 p name of None \<Rightarrow> ns2 | Some stale \<Rightarrow> detach stale ns2) in
                       set_children (\<lambda>cs. cs @ [w]) p ns') in
        (AList.update w \<lparr>nd_parent = parent, nd_name = name, nd_children = children\<rparr> ns3, []))"

text \<open>The names up to the root; a chain longer than the arena is none.\<close>

fun names_up :: "(string \<Rightarrow> string) \<Rightarrow> nat \<Rightarrow> arena \<Rightarrow> wd \<Rightarrow> string list option" where
  "names_up L 0 ns current = None"
| "names_up L (Suc fuel) ns current =
     (case map_of ns current of
        None \<Rightarrow> None
      | Some node \<Rightarrow>
          (case nd_parent node of
             None \<Rightarrow> Some []
           | Some parent \<Rightarrow>
               map_option (\<lambda>names. names @ [lossy L (nd_name node)]) (names_up L fuel ns parent)))"

definition arena_relative :: "(string \<Rightarrow> string) \<Rightarrow> arena \<Rightarrow> wd \<Rightarrow> string option" where
  "arena_relative L ns w =
     map_option (join_with slash) (names_up L (Suc (length ns)) ns w)"

section \<open>The walk\<close>

record budget =
  bg_budget :: "nat option"
  bg_limit :: "nat option"
  bg_held :: nat

definition budget_exceeded :: "budget \<Rightarrow> nat \<Rightarrow> string option \<Rightarrow> watch_error" where
  "budget_exceeded b dirs refused_at =
     LimitError \<lparr>le_dirs = dirs, le_budget = bg_budget b, le_limit = bg_limit b, le_held = bg_held b,
                 le_refused_at = refused_at\<rparr>"

record walk_start =
  ws_path :: string
  ws_relative :: string
  ws_parent :: "wd option"
  ws_name :: os_name

record walked =
  wk_wd :: wd
  wk_parent :: "wd option"
  wk_name :: os_name

definition os_bytes :: "os_name \<Rightarrow> string" where
  "os_bytes name = (case name of Utf8 text \<Rightarrow> text | NotUtf8 bytes \<Rightarrow> bytes)"

text \<open>The directories found in one directory that are not excluded.\<close>

definition starts_beneath ::
  "text_env \<Rightarrow> (string \<Rightarrow> string) \<Rightarrow> watch_filter \<Rightarrow> walk_start \<Rightarrow> wd \<Rightarrow> os_name list \<Rightarrow> walk_start list"
where
  "starts_beneath E L f s w names =
     map (\<lambda>name. \<lparr>ws_path = path_join (ws_path s) (os_bytes name),
                  ws_relative = join_relative (ws_relative s) (lossy L name),
                  ws_parent = Some w, ws_name = name\<rparr>)
       (filter (\<lambda>name. \<not> filter_excludes E f (join_relative (ws_relative s) (lossy L name)) True) names)"

text \<open>What adding the watch makes of a directory: skipped, refused, or watched.\<close>

definition watch_refusal :: "budget \<Rightarrow> nat \<Rightarrow> walk_start \<Rightarrow> errno \<Rightarrow> watch_error option" where
  "watch_refusal b dirs s e =
     (if e = ENOENT \<or> e = ENOTDIR then
        if ws_parent s \<noteq> None then None
        else Some (SourceMissing (ws_path s) ''the source is not an existing directory'')
      else
        (case e of
           OtherErrno desc \<Rightarrow> Some (SetupError (ws_path s) (''cannot watch the directory: '' @ desc))
         | _ \<Rightarrow> Some (budget_exceeded b dirs (Some (ws_path s)))))"

definition listing_of :: "walk_start \<Rightarrow> io_error + os_name list \<Rightarrow> os_name list watch_res" where
  "listing_of s listing =
     (case listing of
        Inr names \<Rightarrow> Inr names
      | Inl e \<Rightarrow>
          if ws_parent s \<noteq> None \<and> (io_kind_of e = NotFound \<or> io_kind_of e = NotADirectory) then Inr []
          else Inl (SetupError (ws_path s) (''cannot list the directory: '' @ io_text e)))"

text \<open>
  The stack is popped at its end in the code and at its head here. The answer is the result, whether
  the walk saw its deadline pass, the directory it was at, and the world; the walk of a tree that
  keeps growing need not end.
\<close>

partial_function (option) walk ::
  "text_env \<Rightarrow> (string \<Rightarrow> string) \<Rightarrow> 'w kernel \<Rightarrow> watch_filter \<Rightarrow> budget \<Rightarrow> nat \<Rightarrow> walk_start list
     \<Rightarrow> walked list \<Rightarrow> string \<Rightarrow> 'w \<Rightarrow> ((walked list watch_res \<times> bool \<times> string) \<times> 'w) option"
where
  "walk E L K f b already stack done_dirs at_path w =
     (case stack of
        [] \<Rightarrow> Some ((Inr done_dirs, False, at_path), w)
      | s # rest \<Rightarrow>
          (case kn_cancelled K w of (cancelled, w1) \<Rightarrow>
           if cancelled then Some ((Inr done_dirs, True, at_path), w1)
           else
             (case kn_add_watch K (ws_path s) w1 of (added, w2) \<Rightarrow>
              (case added of
                 Inl e \<Rightarrow>
                   (case watch_refusal b (already + length done_dirs) s e of
                      None \<Rightarrow> walk E L K f b already rest done_dirs (ws_path s) w2
                    | Some refusal \<Rightarrow> Some ((Inl refusal, False, ws_path s), w2))
               | Inr d \<Rightarrow>
                   (case kn_cancelled K w2 of (cancelled, w3) \<Rightarrow>
                    if cancelled then Some ((Inr done_dirs, True, ws_path s), kn_rm_watch K d w3)
                    else if (case bg_budget b of
                               None \<Rightarrow> False | Some limit \<Rightarrow> limit < already + length done_dirs + 1)
                    then Some ((Inl (budget_exceeded b (already + length done_dirs + 1) None), False, ws_path s), w3)
                    else
                      (case kn_subdirs K (ws_path s) w3 of (listing, w4) \<Rightarrow>
                       (case listing_of s listing of
                          Inl e \<Rightarrow> Some ((Inl e, False, ws_path s), w4)
                        | Inr names \<Rightarrow>
                            walk E L K f b already (rev (starts_beneath E L f s d names) @ rest)
                              (done_dirs @ [\<lparr>wk_wd = d, wk_parent = ws_parent s, wk_name = ws_name s\<rparr>])
                              (ws_path s) w4)))))))"

lemmas walk_step [code] =
  walk.simps [where stack = "[]", unfolded list.case] walk.simps [where stack = "s # rest" for s rest, unfolded list.case]

section \<open>The tree\<close>

record tree_watch =
  tw_root :: string
  tw_root_wd :: "wd option"
  tw_nodes :: arena
  tw_filter :: watch_filter
  tw_events :: event_set
  tw_budget :: budget
  tw_limit_note :: "string option"
  tw_deadline :: nat

definition rm_watches :: "'w kernel \<Rightarrow> wd list \<Rightarrow> 'w \<Rightarrow> 'w" where
  "rm_watches K ds w = foldl (\<lambda>w d. kn_rm_watch K d w) w ds"

text \<open>A walk on its own thread: past the deadline its watches are taken back and it is given up.\<close>

definition walk_bounded ::
  "text_env \<Rightarrow> (string \<Rightarrow> string) \<Rightarrow> 'w kernel \<Rightarrow> tree_watch \<Rightarrow> walk_start list \<Rightarrow> nat \<Rightarrow> 'w
     \<Rightarrow> (walked list watch_res \<times> 'w) option"
where
  "walk_bounded E L K t starts already w =
     (case walk E L K (tw_filter t) (tw_budget t) already (rev starts) []
             (case starts of [] \<Rightarrow> tw_root t | s # _ \<Rightarrow> ws_path s) w of
        None \<Rightarrow> None
      | Some ((r, saw_deadline, at_path), w1) \<Rightarrow>
          (case (if saw_deadline then (True, w1) else kn_cancelled K w1) of (late, w2) \<Rightarrow>
           Some (if late then
                   (Inl (DeadlineError at_path (tw_deadline t)),
                    (case r of Inl _ \<Rightarrow> w2 | Inr ds \<Rightarrow> rm_watches K (map wk_wd ds) w2))
                 else (r, w2))))"

text \<open>Walked directories put into the arena: the root's descriptor, the arena, watches taken back.\<close>

definition attach_walked ::
  "wd option \<times> arena \<times> wd list \<Rightarrow> walked \<Rightarrow> wd option \<times> arena \<times> wd list"
where
  "attach_walked acc d =
     (case acc of (root_wd, ns, gone) \<Rightarrow>
      case attach (wk_wd d) (wk_parent d) (wk_name d) ns of (ns', gone') \<Rightarrow>
        (if wk_parent d = None then Some (wk_wd d) else root_wd, ns', gone @ gone'))"

definition rewalk ::
  "text_env \<Rightarrow> (string \<Rightarrow> string) \<Rightarrow> 'w kernel \<Rightarrow> tree_watch \<Rightarrow> 'w \<Rightarrow> (tree_watch watch_res \<times> 'w) option"
where
  "rewalk E L K t w =
     (case walk_bounded E L K t
             [\<lparr>ws_path = tw_root t, ws_relative = [], ws_parent = None, ws_name = Utf8 []\<rparr>] 0 w of
        None \<Rightarrow> None
      | Some (Inl e, w1) \<Rightarrow> Some (Inl e, w1)
      | Some (Inr ds, w1) \<Rightarrow>
          (case foldl attach_walked (tw_root_wd t, [], []) ds of (root_wd, ns, gone) \<Rightarrow>
           let stale = filter (\<lambda>d. \<not> has_node ns d) (map fst (tw_nodes t)) in
           Some (Inr (t\<lparr>tw_root_wd := root_wd, tw_nodes := ns\<rparr>), rm_watches K (gone @ stale) w1)))"

text \<open>The budget: what \<open>/proc\<close> answered is given.\<close>

definition arm_budget ::
  "limit_policy \<Rightarrow> string + nat \<Rightarrow> string + u64 \<Rightarrow> budget \<times> string option"
where
  "arm_budget policy held_answer limit_answer =
     (case policy of
        UncheckedLimit \<Rightarrow>
          (\<lparr>bg_budget = None, bg_limit = None, bg_held = 0\<rparr>, Some ''the watch budget is not checked'')
      | FixedLimit limit held \<Rightarrow>
          (\<lparr>bg_budget = Some (unat (watch_budget limit held)), bg_limit = Some (unat limit),
            bg_held = unat held\<rparr>, None)
      | SystemLimit \<Rightarrow>
          (let held = (case held_answer of Inl _ \<Rightarrow> 0 | Inr n \<Rightarrow> n);
               held_note = (case held_answer of
                  Inl cause \<Rightarrow> Some (''watches already held unknown: '' @ cause) | Inr _ \<Rightarrow> None) in
           case limit_answer of
             Inr limit \<Rightarrow>
               (\<lparr>bg_budget = Some (unat (watch_budget limit (of_nat held))), bg_limit = Some (unat limit),
                 bg_held = held\<rparr>, held_note)
           | Inl cause \<Rightarrow>
               (\<lparr>bg_budget = None, bg_limit = None, bg_held = held\<rparr>,
                Some (''the watch limit is unreadable ('' @ cause @ ''); budget unchecked''))))"

datatype init_answer = InitDone | InitTooMany | InitFailed string

definition arm ::
  "text_env \<Rightarrow> (string \<Rightarrow> string) \<Rightarrow> 'w kernel \<Rightarrow> string \<Rightarrow> watch_filter \<Rightarrow> event_set \<Rightarrow> nat
     \<Rightarrow> budget \<times> string option \<Rightarrow> init_answer \<Rightarrow> 'w \<Rightarrow> (tree_watch watch_res \<times> 'w) option"
where
  "arm E L K root f events deadline limits init w =
     (case init of
        InitTooMany \<Rightarrow> Some (Inl (budget_exceeded (fst limits) 0 (Some root)), w)
      | InitFailed desc \<Rightarrow> Some (Inl (Unavailable (''inotify_init1 failed: '' @ desc)), w)
      | InitDone \<Rightarrow>
          rewalk E L K
            \<lparr>tw_root = root, tw_root_wd = None, tw_nodes = [], tw_filter = f, tw_events = events,
             tw_budget = fst limits, tw_limit_note = snd limits, tw_deadline = deadline\<rparr> w)"

definition is_watched :: "(string \<Rightarrow> string) \<Rightarrow> tree_watch \<Rightarrow> string \<Rightarrow> bool" where
  "is_watched L t relative =
     list_ex (\<lambda>(w, _). arena_relative L (tw_nodes t) w = Some relative) (tw_nodes t)"

section \<open>A batch of events\<close>

record batch_state =
  bs_changes :: "change list"
  bs_new_dirs :: "walk_start list"
  bs_moves :: "(nat \<times> wd) list"
  bs_overflow :: bool
  bs_rules_changed :: bool
  bs_nodes :: arena
  bs_gone :: "wd list"

definition forget_in :: "wd \<Rightarrow> bool \<Rightarrow> batch_state \<Rightarrow> batch_state" where
  "forget_in d remove_self s =
     (case forget d remove_self (bs_nodes s) of
        (ns, gone) \<Rightarrow> s\<lparr>bs_nodes := ns, bs_gone := bs_gone s @ gone\<rparr>)"

text \<open>An event on a watched directory itself.\<close>

definition own_event :: "event_set \<Rightarrow> string \<Rightarrow> inotify_event \<Rightarrow> batch_state \<Rightarrow> batch_state" where
  "own_event events dir ev s =
     (if InAttrib \<in> set (ie_mask ev) \<and> ev_attrib events \<and> dir \<noteq> [] then
        s\<lparr>bs_changes := bs_changes s
          @ [ChangedPath (case rsplit_once slash dir of None \<Rightarrow> [] | Some (parent, _) \<Rightarrow> parent) dir ''attrib'']\<rparr>
      else s)"

text \<open>The bookkeeping of an event about a directory.\<close>

definition directory_event ::
  "string \<Rightarrow> inotify_event \<Rightarrow> os_name \<Rightarrow> string \<Rightarrow> batch_state \<Rightarrow> batch_state"
where
  "directory_event root ev name entry s =
     (let start = \<lparr>ws_path = path_join root entry, ws_relative = entry, ws_parent = Some (ie_wd ev), ws_name = name\<rparr>;
          known = (arena_child (bs_nodes s) (ie_wd ev) name \<noteq> None) in
      if InCreate \<in> set (ie_mask ev) \<and> \<not> known then
        s\<lparr>bs_new_dirs := bs_new_dirs s @ [start]\<rparr>
      else if InMovedFrom \<in> set (ie_mask ev) then
        (case arena_child (bs_nodes s) (ie_wd ev) name of
           None \<Rightarrow> s
         | Some c \<Rightarrow> s\<lparr>bs_moves := AList.update (ie_cookie ev) c (bs_moves s)\<rparr>)
      else if InMovedTo \<in> set (ie_mask ev) then
        (case map_of (bs_moves s) (ie_cookie ev) of
           Some c \<Rightarrow>
             (case attach c (Some (ie_wd ev)) name (bs_nodes s) of
                (ns, gone) \<Rightarrow>
                  s\<lparr>bs_moves := AList.delete (ie_cookie ev) (bs_moves s), bs_nodes := ns,
                    bs_gone := bs_gone s @ gone\<rparr>)
         | None \<Rightarrow> if known then s else s\<lparr>bs_new_dirs := bs_new_dirs s @ [start]\<rparr>)
      else s)"

definition named_event ::
  "text_env \<Rightarrow> (string \<Rightarrow> string) \<Rightarrow> tree_watch \<Rightarrow> string \<Rightarrow> inotify_event \<Rightarrow> os_name \<Rightarrow> batch_state \<Rightarrow> batch_state"
where
  "named_event E L t dir ev name s =
     (let entry = join_relative dir (lossy L name); kind = kind_of (ie_mask ev);
          dir_event = (InIsDir \<in> set (ie_mask ev)) in
      if dir = [] \<and> is_rules_file entry then
        s\<lparr>bs_rules_changed := True, bs_changes := bs_changes s @ [ChangedPath dir entry kind]\<rparr>
      else if filter_excludes E (tw_filter t) entry dir_event then s
      else
        let s' = (if dir_event then directory_event (tw_root t) ev name entry s else s) in
        if events_reports (tw_events t) kind
        then s'\<lparr>bs_changes := bs_changes s' @ [ChangedPath dir entry kind]\<rparr> else s')"

definition root_lost :: "tree_watch \<Rightarrow> inotify_event \<Rightarrow> bool" where
  "root_lost t ev =
     (Some (ie_wd ev) = tw_root_wd t
      \<and> list_ex (\<lambda>m. m \<in> {InDeleteSelf, InMoveSelf, InUnmount, InIgnored}) (ie_mask ev))"

definition batch_event ::
  "text_env \<Rightarrow> (string \<Rightarrow> string) \<Rightarrow> tree_watch \<Rightarrow> batch_state \<Rightarrow> inotify_event \<Rightarrow> batch_state watch_res"
where
  "batch_event E L t s ev =
     (if InQueueOverflow \<in> set (ie_mask ev) then Inr (s\<lparr>bs_overflow := True\<rparr>)
      else if root_lost t ev then Inl (SourceGone (tw_root t))
      else if list_ex (\<lambda>m. m \<in> {InIgnored, InUnmount}) (ie_mask ev) then
        Inr (forget_in (ie_wd ev) False s)
      else
        (case arena_relative L (bs_nodes s) (ie_wd ev) of
           None \<Rightarrow> Inr s
         | Some dir \<Rightarrow>
             Inr (case ie_name ev of
                    None \<Rightarrow> own_event (tw_events t) dir ev s
                  | Some name \<Rightarrow> named_event E L t dir ev name s)))"

text \<open>New directories put into the arena, each one a change.\<close>

definition attach_new ::
  "(string \<Rightarrow> string) \<Rightarrow> change list \<times> arena \<times> wd list \<Rightarrow> walked \<Rightarrow> change list \<times> arena \<times> wd list"
where
  "attach_new L acc d =
     (case acc of (changes, ns, gone) \<Rightarrow>
      case attach (wk_wd d) (wk_parent d) (wk_name d) ns of (ns', gone') \<Rightarrow>
        (case arena_relative L ns' (wk_wd d) of
           None \<Rightarrow> changes
         | Some dir \<Rightarrow> changes @ [ChangedPath dir dir ''new_dir''],
         ns', gone @ gone'))"

definition batch_end ::
  "text_env \<Rightarrow> (string \<Rightarrow> string) \<Rightarrow> 'w kernel \<Rightarrow> tree_watch \<Rightarrow> batch_state \<Rightarrow> 'w
     \<Rightarrow> (change list watch_res \<times> tree_watch \<times> 'w) option"
where
  "batch_end E L K t0 s0 w0 =
     (let s = foldl (\<lambda>s (cookie, c). forget_in c True s) s0 (bs_moves s0);
          w = rm_watches K (bs_gone s) w0;
          f = (if bs_rules_changed s then
                 (case filter_rebuilt E (kn_rules K w) (tw_filter t0) of Inr f \<Rightarrow> f | Inl _ \<Rightarrow> tw_filter t0)
               else tw_filter t0);
          t = t0\<lparr>tw_nodes := bs_nodes s, tw_filter := f\<rparr> in
      if bs_overflow s \<or> bs_rules_changed s then
        (case rewalk E L K t w of
           None \<Rightarrow> None
         | Some (Inl e, w1) \<Rightarrow> Some (Inl e, t, w1)
         | Some (Inr t1, w1) \<Rightarrow>
             Some (Inr (bs_changes s @ (if bs_overflow s then [Overflow] else [])), t1, w1))
      else if bs_new_dirs s \<noteq> [] then
        (case walk_bounded E L K t (bs_new_dirs s) (length (tw_nodes t)) w of
           None \<Rightarrow> None
         | Some (Inl e, w1) \<Rightarrow> Some (Inl e, t, w1)
         | Some (Inr ds, w1) \<Rightarrow>
             (case foldl (attach_new L) (bs_changes s, tw_nodes t, []) ds of
                (changes, ns, gone) \<Rightarrow>
                  Some (Inr changes, t\<lparr>tw_nodes := ns\<rparr>, rm_watches K gone w1)))
      else Some (Inr (bs_changes s), t, w))"

text \<open>
  A whole batch. The caller drops a tree whose batch failed; the answer then holds the tree as the
  last completed step left it. The watches moved away are forgotten in the order they were noted,
  where the code takes the order of its hash map; the arena that is left is the same.
\<close>

definition process ::
  "text_env \<Rightarrow> (string \<Rightarrow> string) \<Rightarrow> 'w kernel \<Rightarrow> tree_watch \<Rightarrow> inotify_event list \<Rightarrow> 'w
     \<Rightarrow> (change list watch_res \<times> tree_watch \<times> 'w) option"
where
  "process E L K t events w =
     (case fold_r (batch_event E L t)
             \<lparr>bs_changes = [], bs_new_dirs = [], bs_moves = [], bs_overflow = False,
              bs_rules_changed = False, bs_nodes = tw_nodes t, bs_gone = []\<rparr> events of
        Inl e \<Rightarrow> Some (Inl e, t, w)
      | Inr s \<Rightarrow> batch_end E L K t s w)"

end
