(* ===== verification/WatchFacts.thy ===== *)
theory WatchFacts
  imports WatchTree
begin

text \<open>
  What the watcher keeps: the arena stays linked, every change is followed by a line, lines are at
  least one interval apart, and a walk watches what it should within its budget.
\<close>

section \<open>The arena stays linked\<close>

text \<open>
  Every child in a list of children is a node with that parent, in no list twice, and names a
  directory of its parent alone.
\<close>

definition linked :: "(wd \<rightharpoonup> watch_node) \<Rightarrow> bool" where
  "linked m =
     (\<forall>p n. m p = Some n \<longrightarrow> distinct (nd_children n)
        \<and> (\<forall>c \<in> set (nd_children n). \<exists>k. m c = Some k \<and> nd_parent k = Some p)
        \<and> (\<forall>c \<in> set (nd_children n). \<forall>d \<in> set (nd_children n).
             map_option nd_name (m c) = map_option nd_name (m d) \<longrightarrow> c = d))"

definition arena_ok :: "arena \<Rightarrow> bool" where
  "arena_ok ns = (distinct (map fst ns) \<and> linked (map_of ns))"

definition unlisted :: "wd \<Rightarrow> (wd \<rightharpoonup> watch_node) \<Rightarrow> bool" where
  "unlisted w m = (\<forall>p n. m p = Some n \<longrightarrow> w \<notin> set (nd_children n))"

lemma linkedD:
  assumes "linked m" and "m p = Some n"
  shows "distinct (nd_children n)"
    and "c \<in> set (nd_children n) \<Longrightarrow> \<exists>k. m c = Some k \<and> nd_parent k = Some p"
    and "c \<in> set (nd_children n) \<Longrightarrow> d \<in> set (nd_children n) \<Longrightarrow>
      map_option nd_name (m c) = map_option nd_name (m d) \<Longrightarrow> c = d"
  using assms unfolding linked_def by blast+

lemma linkedI:
  assumes "\<And>p n. m p = Some n \<Longrightarrow> distinct (nd_children n)"
    and "\<And>p n c. m p = Some n \<Longrightarrow> c \<in> set (nd_children n) \<Longrightarrow> \<exists>k. m c = Some k \<and> nd_parent k = Some p"
    and "\<And>p n c d. m p = Some n \<Longrightarrow> c \<in> set (nd_children n) \<Longrightarrow> d \<in> set (nd_children n) \<Longrightarrow>
      map_option nd_name (m c) = map_option nd_name (m d) \<Longrightarrow> c = d"
  shows "linked m"
  using assms unfolding linked_def by blast

lemma listed_once:
  "linked m \<Longrightarrow> m p = Some n \<Longrightarrow> c \<in> set (nd_children n) \<Longrightarrow> m q = Some k \<Longrightarrow> c \<in> set (nd_children k) \<Longrightarrow> p = q"
  using linkedD(2) [of m p n c] linkedD(2) [of m q k c] by auto

lemma map_of_set_children:
  "map_of (set_children f p ns) = (case map_of ns p of None \<Rightarrow> map_of ns
     | Some n \<Rightarrow> (map_of ns)(p \<mapsto> n\<lparr>nd_children := f (nd_children n)\<rparr>))"
  by (simp add: set_children_def update_conv' split: option.split)

lemma keys_set_children: "distinct (map fst ns) \<Longrightarrow> distinct (map fst (set_children f p ns))"
  by (simp add: set_children_def distinct_update split: option.split)

lemma fewer_children:
  assumes "linked m" and "m p = Some n"
  shows "linked (m(p \<mapsto> n\<lparr>nd_children := filter P (nd_children n)\<rparr>))"
proof (rule linkedI)
  let ?m = "m(p \<mapsto> n\<lparr>nd_children := filter P (nd_children n)\<rparr>)"
  have names: "map_option nd_name (?m c) = map_option nd_name (m c)" for c
    using assms(2) by simp
  have sub: "\<exists>k. m q = Some k \<and> set (nd_children j) \<subseteq> set (nd_children k)
      \<and> (distinct (nd_children k) \<longrightarrow> distinct (nd_children j))" if "?m q = Some j" for q j
    using that assms(2) by (auto split: if_splits)
  fix q j assume j: "?m q = Some j"
  from sub [OF this] obtain k where k: "m q = Some k" "set (nd_children j) \<subseteq> set (nd_children k)"
    "distinct (nd_children k) \<longrightarrow> distinct (nd_children j)" by blast
  show "distinct (nd_children j)"
    using k linkedD(1) [OF assms(1) k(1)] by simp
  fix c assume c: "c \<in> set (nd_children j)"
  with k(2) linkedD(2) [OF assms(1) k(1), of c] obtain i where "m c = Some i" "nd_parent i = Some q"
    by blast
  then show "\<exists>i. ?m c = Some i \<and> nd_parent i = Some q"
    using assms(2) by auto
  fix d assume "d \<in> set (nd_children j)" "map_option nd_name (?m c) = map_option nd_name (?m d)"
  then show "c = d"
    using c k(2) linkedD(3) [OF assms(1) k(1), of c d] by (auto simp only: names)
qed

lemma detach_ok:
  assumes "arena_ok ns"
  shows "arena_ok (detach w ns)" and "unlisted w (map_of (detach w ns))"
    and "map_option nd_parent (map_of (detach w ns) c) = map_option nd_parent (map_of ns c)"
    and "map_option nd_name (map_of (detach w ns) c) = map_option nd_name (map_of ns c)"
proof -
  have l: "linked (map_of ns)" and d: "distinct (map fst ns)"
    using assms by (simp_all add: arena_ok_def)
  show "arena_ok (detach w ns)"
    using d fewer_children [OF l]
    by (auto simp: arena_ok_def detach_def map_of_set_children keys_set_children assms [unfolded arena_ok_def]
        split: option.split)
  show "unlisted w (map_of (detach w ns))"
    unfolding unlisted_def
  proof (intro allI impI notI)
    fix p n assume n: "map_of (detach w ns) p = Some n" "w \<in> set (nd_children n)"
    obtain k where k: "map_of ns p = Some k" "w \<in> set (nd_children k)"
      using n by (auto simp: detach_def map_of_set_children split: option.splits if_splits)
    then obtain j where "map_of ns w = Some j" "nd_parent j = Some p"
      using linkedD(2) [OF l k] by blast
    with n k show False
      by (simp add: detach_def map_of_set_children) auto
  qed
  show "map_option nd_parent (map_of (detach w ns) c) = map_option nd_parent (map_of ns c)"
    "map_option nd_name (map_of (detach w ns) c) = map_option nd_name (map_of ns c)"
    by (auto simp: detach_def map_of_set_children split: option.split)
qed

lemma delete_unlisted:
  assumes "linked m" and "unlisted w m"
  shows "linked (m(w := None))"
proof (rule linkedI)
  fix p n assume "(m(w := None)) p = Some n"
  then have n: "m p = Some n" by (simp split: if_splits)
  show "distinct (nd_children n)"
    using linkedD(1) [OF assms(1) n] .
  have not_w: "c \<noteq> w" if "c \<in> set (nd_children n)" for c
    using that assms(2) n by (auto simp: unlisted_def)
  fix c assume c: "c \<in> set (nd_children n)"
  then show "\<exists>k. (m(w := None)) c = Some k \<and> nd_parent k = Some p"
    using linkedD(2) [OF assms(1) n] not_w by auto
  fix d assume "d \<in> set (nd_children n)"
    "map_option nd_name ((m(w := None)) c) = map_option nd_name ((m(w := None)) d)"
  then show "c = d"
    using c linkedD(3) [OF assms(1) n] not_w by auto
qed

lemma arena_ok_delete: "arena_ok ns \<Longrightarrow> unlisted w (map_of ns) \<Longrightarrow> arena_ok (AList.delete w ns)"
  by (simp add: arena_ok_def delete_conv' delete_unlisted distinct_delete)

lemma unlisted_delete: "unlisted w m \<Longrightarrow> unlisted w (m(v := None))"
  by (auto simp: unlisted_def)

lemma forget_loop_ok:
  "arena_ok ns \<Longrightarrow> \<forall>(w, r) \<in> set stack. unlisted w (map_of ns) \<Longrightarrow> arena_ok (fst (forget_loop stack ns))"
proof (induction stack ns rule: forget_loop.induct)
  case (2 current remove stack ns)
  show ?case
  proof (cases "map_of ns current")
    case None
    with 2 show ?thesis by (simp add: case_prod_beta)
  next
    case (Some node)
    let ?stack = "rev (map (\<lambda>c. (c, True)) (nd_children node)) @ stack"
    let ?ns = "AList.delete current ns"
    have ok: "arena_ok ?ns"
      using 2(2,3) by (intro arena_ok_delete) auto
    have "unlisted c (map_of ?ns)" if "c \<in> set (nd_children node)" for c
      unfolding unlisted_def delete_conv'
    proof (intro allI impI notI)
      fix p n assume n: "((map_of ns)(current := None)) p = Some n" and "c \<in> set (nd_children n)"
      then show False
        using listed_once [of "map_of ns" current node c p n] 2(2) Some that
        by (auto simp: arena_ok_def split: if_splits)
    qed
    then have "\<forall>(w, r) \<in> set ?stack. unlisted w (map_of ?ns)"
      using 2(3) by (auto simp: delete_conv' intro: unlisted_delete)
    with 2(1) [of "(?stack, ?ns)"] ok Some show ?thesis
      by (simp add: case_prod_beta)
  qed
qed simp

lemma forget_ok: "arena_ok ns \<Longrightarrow> arena_ok (fst (forget w r ns))"
  using detach_ok(1,2) [of ns w]
  by (auto simp: forget_def simp del: forget_loop.simps intro!: forget_loop_ok)

lemma child_named:
  assumes "arena_child ns p name = Some c"
  shows "\<exists>n. map_of ns p = Some n \<and> c \<in> set (nd_children n) \<and> map_option nd_name (map_of ns c) = Some name"
  using assms by (auto simp: arena_child_def find_Some_iff in_set_conv_nth split: option.splits)

lemma no_child_named:
  assumes "arena_child ns p name = None" and "map_of ns p = Some n" and "c \<in> set (nd_children n)"
  shows "map_option nd_name (map_of ns c) \<noteq> Some name"
  using assms by (auto simp: arena_child_def find_None_iff split: option.splits)

text \<open>A directory added as the last child of a node that has none of its name.\<close>

lemma add_child:
  assumes l: "linked m" and n: "m p = Some n" and free: "unlisted w m" and p: "p \<noteq> w" and new: "m w = None"
    and name: "\<And>c. c \<in> set (nd_children n) \<Longrightarrow> map_option nd_name (m c) \<noteq> Some name"
    and children: "distinct children"
      "\<And>c. c \<in> set children \<Longrightarrow> \<exists>k. m c = Some k \<and> nd_parent k = Some w"
      "\<And>c d. c \<in> set children \<Longrightarrow> d \<in> set children \<Longrightarrow> map_option nd_name (m c) = map_option nd_name (m d) \<Longrightarrow> c = d"
  shows "linked (m(p \<mapsto> n\<lparr>nd_children := nd_children n @ [w]\<rparr>,
    w \<mapsto> \<lparr>nd_parent = Some p, nd_name = name, nd_children = children\<rparr>))"
    (is "linked ?m")
proof (rule linkedI)
  have names: "map_option nd_name (?m c) = (if c = w then Some name else map_option nd_name (m c))" for c
    using n p by auto
  have parents: "\<exists>k. ?m c = Some k \<and> nd_parent k = Some q" if "\<exists>k. m c = Some k \<and> nd_parent k = Some q" for c q
    using that n p new by (cases "c = p") auto
  fix q j assume j: "?m q = Some j"
  consider "q = w" "nd_children j = children" | "q = p" "nd_children j = nd_children n @ [w]"
    | "q \<noteq> w" "q \<noteq> p" "m q = Some j"
    using j p by (auto split: if_splits)
  note cases = this
  have wfree: "w \<notin> set (nd_children k)" if "m q = Some k" for q k
    using free that by (auto simp: unlisted_def)
  have wc: "w \<notin> set children"
    using children(2) [of w] new by auto
  show "distinct (nd_children j)"
    using cases by cases (use children(1) linkedD(1) [OF l] n wfree in auto)
  fix c assume c: "c \<in> set (nd_children j)"
  show "\<exists>k. ?m c = Some k \<and> nd_parent k = Some q"
    using cases
  proof cases
    case 1
    with c children(2) parents show ?thesis by auto
  next
    case 2
    show ?thesis
    proof (cases "c = w")
      case True
      with 2 show ?thesis by simp
    next
      case False
      with c 2 have "\<exists>k. m c = Some k \<and> nd_parent k = Some p"
        using linkedD(2) [OF l n, of c] by simp
      from parents [OF this] 2 show ?thesis by blast
    qed
  next
    case 3
    then show ?thesis
      using c linkedD(2) [OF l 3(3)] parents by blast
  qed
  fix d assume d: "d \<in> set (nd_children j)" "map_option nd_name (?m c) = map_option nd_name (?m d)"
  show "c = d"
    using cases
  proof cases
    case 1
    with c d wc children(3) show ?thesis unfolding names by (metis)
  next
    case 2
    with c d name name [THEN not_sym] linkedD(3) [OF l n] wfree [OF n] show ?thesis
      unfolding names by (auto split: if_splits)
  next
    case 3
    with c d linkedD(3) [OF l 3(3)] wfree [OF 3(3)] show ?thesis
      unfolding names by metis
  qed
qed

lemma detach_shrinks:
  "map_of (detach v ns) p = Some n \<Longrightarrow> \<exists>k. map_of ns p = Some k \<and> set (nd_children n) \<subseteq> set (nd_children k)"
  by (auto simp: detach_def map_of_set_children split: option.splits if_splits)

lemma stale_detached:
  fixes ns :: arena and name :: os_name
  assumes ok: "arena_ok ns" and n: "map_of ns p = Some n"
  defines "ns' \<equiv> case arena_child ns p name of None \<Rightarrow> ns | Some stale \<Rightarrow> detach stale ns"
  shows "arena_ok ns'" and "\<exists>k. map_of ns' p = Some k \<and> set (nd_children k) \<subseteq> set (nd_children n)
      \<and> (\<forall>c \<in> set (nd_children k). map_option nd_name (map_of ns' c) \<noteq> Some name)"
    and "map_option nd_parent (map_of ns' c) = map_option nd_parent (map_of ns c)"
    and "map_option nd_name (map_of ns' c) = map_option nd_name (map_of ns c)"
    and "unlisted w (map_of ns) \<Longrightarrow> unlisted w (map_of ns')"
proof -
  show ok': "arena_ok ns'"
    using ok detach_ok(1) by (auto simp: ns'_def split: option.split)
  show same: "map_option nd_parent (map_of ns' c) = map_option nd_parent (map_of ns c)"
    "map_option nd_name (map_of ns' c) = map_option nd_name (map_of ns c)" for c
    using detach_ok(3,4) [OF ok] by (auto simp: ns'_def split: option.split)
  show "unlisted w (map_of ns) \<Longrightarrow> unlisted w (map_of ns')"
    unfolding unlisted_def ns'_def using detach_shrinks [of _ ns] by (fastforce split: option.splits)
  have "map_of ns' p \<noteq> None"
    using same(1) [of p] n by auto
  then obtain k where k: "map_of ns' p = Some k" by blast
  have sub: "set (nd_children k) \<subseteq> set (nd_children n)"
    using k n detach_shrinks [of _ ns p k] by (auto simp: ns'_def split: option.splits)
  have "map_option nd_name (map_of ns' c) \<noteq> Some name" if c: "c \<in> set (nd_children k)" for c
  proof (cases "arena_child ns p name")
    case None
    with c k n show ?thesis
      using no_child_named [OF None n, of c] by (auto simp: ns'_def)
  next
    case (Some stale)
    then have where_stale: "stale \<in> set (nd_children n)" "map_option nd_name (map_of ns stale) = Some name"
      using child_named [OF Some] n by auto
    have "c \<noteq> stale"
      using detach_ok(2) [OF ok, of stale] k c Some by (auto simp: ns'_def unlisted_def)
    then show ?thesis
      using linkedD(3) [of "map_of ns" p n c stale] ok n where_stale c sub same(2) [of c]
      by (auto simp: arena_ok_def)
  qed
  with k sub show "\<exists>k. map_of ns' p = Some k \<and> set (nd_children k) \<subseteq> set (nd_children n)
      \<and> (\<forall>c \<in> set (nd_children k). map_option nd_name (map_of ns' c) \<noteq> Some name)"
    by blast
qed

text \<open>A directory put where no list of children names it.\<close>

lemma add_root:
  assumes l: "linked m" and free: "unlisted w m" and new: "m w = None"
    and children: "distinct children"
      "\<And>c. c \<in> set children \<Longrightarrow> \<exists>k. m c = Some k \<and> nd_parent k = Some w"
      "\<And>c d. c \<in> set children \<Longrightarrow> d \<in> set children \<Longrightarrow> map_option nd_name (m c) = map_option nd_name (m d) \<Longrightarrow> c = d"
  shows "linked (m(w \<mapsto> \<lparr>nd_parent = q, nd_name = name, nd_children = children\<rparr>))"
    (is "linked ?m")
proof (rule linkedI)
  have old: "?m c = m c" if "c \<in> set children" for c
    using that children(2) new by fastforce
  have wfree: "w \<notin> set (nd_children k)" if "m p = Some k" for p k
    using free that by (auto simp: unlisted_def)
  fix p n assume n: "?m p = Some n"
  show "distinct (nd_children n)"
    using n children(1) linkedD(1) [OF l] by (auto split: if_splits)
  fix c assume c: "c \<in> set (nd_children n)"
  show "\<exists>k. ?m c = Some k \<and> nd_parent k = Some p"
  proof (cases "p = w")
    case True
    with n c children(2) [of c] old [of c] new show ?thesis by auto
  next
    case False
    with n have m: "m p = Some n" by simp
    with c wfree have "c \<noteq> w" by blast
    with linkedD(2) [OF l m c] show ?thesis by simp
  qed
  fix d assume d: "d \<in> set (nd_children n)" "map_option nd_name (?m c) = map_option nd_name (?m d)"
  show "c = d"
  proof (cases "p = w")
    case True
    with n have "nd_children n = children" by auto
    with c d children(3) [of c d] show ?thesis by (simp only: old)
  next
    case False
    with n have m: "m p = Some n" by simp
    with c d(1) wfree have "c \<noteq> w" "d \<noteq> w" by blast+
    with linkedD(3) [OF l m c d(1)] d(2) show ?thesis by simp
  qed
qed

lemma attach_ok:
  assumes ok: "arena_ok ns"
  shows "arena_ok (fst (attach w parent name ns))"
proof (cases "\<exists>p. parent = Some p \<and> \<not> has_node ns p")
  case True
  then show ?thesis
    using forget_ok [OF ok, of w True] by (auto simp: attach_def)
next
  case False
  show ?thesis
  proof (cases "\<exists>n. map_of ns w = Some n \<and> nd_parent n = parent \<and> nd_name n = name")
    case True
    with False ok show ?thesis by (auto simp: attach_def split: option.splits)
  next
    case moved: False
    define ns1 where "ns1 = detach w ns"
    define children where "children = (case map_of ns1 w of None \<Rightarrow> [] | Some n \<Rightarrow> nd_children n)"
    define ns2 where "ns2 = AList.delete w ns1"
    have ok1: "arena_ok ns1" and free: "unlisted w (map_of ns1)"
      unfolding ns1_def using detach_ok [OF ok] by auto
    have ok2: "arena_ok ns2"
      unfolding ns2_def by (rule arena_ok_delete [OF ok1 free])
    have m2: "map_of ns2 = (map_of ns1)(w := None)"
      by (simp add: ns2_def delete_conv')
    have free2: "unlisted w (map_of ns2)" and new: "map_of ns2 w = None"
      using free by (simp_all add: m2 unlisted_delete)
    have l1: "linked (map_of ns1)"
      using ok1 by (simp add: arena_ok_def)
    have kids: "distinct children"
      "\<And>c. c \<in> set children \<Longrightarrow> \<exists>k. map_of ns2 c = Some k \<and> nd_parent k = Some w"
      "\<And>c d. c \<in> set children \<Longrightarrow> d \<in> set children \<Longrightarrow>
         map_option nd_name (map_of ns2 c) = map_option nd_name (map_of ns2 d) \<Longrightarrow> c = d"
    proof -
      have notw: "w \<notin> set children"
        using free by (auto simp: children_def unlisted_def split: option.splits)
      show "distinct children"
        using linkedD(1) [OF l1] by (auto simp: children_def split: option.split)
      show "\<exists>k. map_of ns2 c = Some k \<and> nd_parent k = Some w" if "c \<in> set children" for c
        using that notw linkedD(2) [OF l1, of w _ c] by (cases "map_of ns1 w") (auto simp: children_def m2)
      show "c = d" if "c \<in> set children" "d \<in> set children"
        "map_option nd_name (map_of ns2 c) = map_option nd_name (map_of ns2 d)" for c d
        using that notw linkedD(3) [OF l1, of w _ c d]
        by (cases "map_of ns1 w") (auto simp: children_def m2 split: if_splits)
    qed
    show ?thesis
    proof (cases parent)
      case None
      have "attach w parent name ns
          = (AList.update w \<lparr>nd_parent = parent, nd_name = name, nd_children = children\<rparr> ns2, [])"
        using moved None by (auto simp: attach_def Let_def ns2_def ns1_def children_def split: option.split)
      moreover have "linked ((map_of ns2)(w \<mapsto> \<lparr>nd_parent = None, nd_name = name, nd_children = children\<rparr>))"
        by (rule add_root) (use ok2 free2 new kids in \<open>auto simp: arena_ok_def\<close>)
      ultimately show ?thesis
        using ok2 None by (simp add: arena_ok_def update_conv' distinct_update)
    next
      case (Some p)
      define ns' where "ns' = (case arena_child ns2 p name of None \<Rightarrow> ns2 | Some stale \<Rightarrow> detach stale ns2)"
      have result: "attach w parent name ns = (AList.update w
          \<lparr>nd_parent = parent, nd_name = name, nd_children = children\<rparr> (set_children (\<lambda>cs. cs @ [w]) p ns'), [])"
        using moved False Some
        by (auto simp: attach_def Let_def ns2_def ns1_def ns'_def children_def split: option.split)
      show ?thesis
      proof (cases "p = w")
        case True
        then have "arena_child ns2 p name = None" "set_children (\<lambda>cs. cs @ [w]) p ns2 = ns2"
          using new by (simp_all add: arena_child_def set_children_def)
        moreover have "linked ((map_of ns2)(w \<mapsto> \<lparr>nd_parent = Some p, nd_name = name, nd_children = children\<rparr>))"
          by (rule add_root) (use ok2 free2 new kids in \<open>auto simp: arena_ok_def\<close>)
        ultimately show ?thesis
          using ok2 Some unfolding result by (simp add: ns'_def arena_ok_def update_conv' distinct_update)
      next
        case pw: False
        have "map_of ns p \<noteq> None"
          using False Some by (auto simp: has_node_def)
        then have "map_of ns1 p \<noteq> None"
          using detach_ok(3) [OF ok, of w p] by (auto simp: ns1_def)
        then obtain n where n: "map_of ns2 p = Some n"
          using pw by (auto simp: m2)
        note st = stale_detached [OF ok2 n, where name = name, folded ns'_def]
        obtain k where k: "map_of ns' p = Some k"
          "\<forall>c \<in> set (nd_children k). map_option nd_name (map_of ns' c) \<noteq> Some name"
          using st(2) by blast
        have "map_of ns' w = None"
          using st(3) [of w] new by simp
        moreover have "\<exists>j. map_of ns' c = Some j \<and> nd_parent j = Some w" if "c \<in> set children" for c
          using kids(2) [OF that] st(3) [of c] by auto
        ultimately have "linked ((map_of ns')(p \<mapsto> k\<lparr>nd_children := nd_children k @ [w]\<rparr>,
            w \<mapsto> \<lparr>nd_parent = Some p, nd_name = name, nd_children = children\<rparr>))"
          using st(1) k st(5) [OF free2] pw kids(1,3)
          by (intro add_child) (auto simp: arena_ok_def st(4))
        then show ?thesis
          using st(1) k Some unfolding result
          by (simp add: arena_ok_def update_conv' distinct_update map_of_set_children keys_set_children)
      qed
    qed
  qed
qed

lemma attach_walked_ok:
  "arena_ok ns \<Longrightarrow> foldl attach_walked (r, ns, gone) ds = (r', ns', gone') \<Longrightarrow> arena_ok ns'"
proof (induction ds arbitrary: r ns gone)
  case (Cons d ds)
  show ?case
    by (rule Cons.IH [OF attach_ok [OF Cons.prems(1), of "wk_wd d" "wk_parent d" "wk_name d"]])
      (use Cons.prems(2) in \<open>simp add: attach_walked_def case_prod_beta\<close>)
qed simp

lemma attach_new_ok:
  "arena_ok ns \<Longrightarrow> foldl (attach_new L) (cs, ns, gone) ds = (cs', ns', gone') \<Longrightarrow> arena_ok ns'"
proof (induction ds arbitrary: cs ns gone)
  case (Cons d ds)
  show ?case
    by (rule Cons.IH [OF attach_ok [OF Cons.prems(1), of "wk_wd d" "wk_parent d" "wk_name d"]])
      (use Cons.prems(2) in \<open>simp add: attach_new_def case_prod_beta\<close>)
qed simp

lemma arena_ok_Nil: "arena_ok []"
  by (simp add: arena_ok_def linked_def)

lemma rewalk_ok: "rewalk E L K t w = Some (Inr t', w') \<Longrightarrow> arena_ok (tw_nodes t')"
  by (auto simp: rewalk_def Let_def split: option.splits sum.splits prod.splits
      elim: attach_walked_ok [OF arena_ok_Nil])

lemma forget_in_ok: "arena_ok (bs_nodes s) \<Longrightarrow> arena_ok (bs_nodes (forget_in d r s))"
  using forget_ok [of "bs_nodes s" d r] by (simp add: forget_in_def case_prod_beta)

lemma directory_event_ok:
  assumes "arena_ok (bs_nodes s)"
  shows "arena_ok (bs_nodes (directory_event root ev name entry s))"
proof -
  have "arena_ok ns" if "attach c (Some (ie_wd ev)) name (bs_nodes s) = (ns, gone)" for c ns gone
    using attach_ok [OF assms, of c "Some (ie_wd ev)" name] that by simp
  with assms show ?thesis
    by (auto simp: directory_event_def Let_def split: option.split prod.split)
qed

lemma named_event_ok:
  "arena_ok (bs_nodes s) \<Longrightarrow> arena_ok (bs_nodes (named_event E L t dir ev name s))"
  by (simp add: named_event_def Let_def directory_event_ok)

lemma batch_event_ok:
  "arena_ok (bs_nodes s) \<Longrightarrow> batch_event E L t s ev = Inr s' \<Longrightarrow> arena_ok (bs_nodes s')"
  by (auto simp: batch_event_def own_event_def named_event_ok forget_in_ok split: if_splits option.splits)

lemma batch_ok:
  "arena_ok (bs_nodes s) \<Longrightarrow> fold_r (batch_event E L t) s evs = Inr s' \<Longrightarrow> arena_ok (bs_nodes s')"
  by (induction evs arbitrary: s) (auto split: sum.splits dest: batch_event_ok)

lemma forget_moves_ok:
  "arena_ok (bs_nodes s) \<Longrightarrow> arena_ok (bs_nodes (foldl (\<lambda>s (cookie, c). forget_in c True s) s moves))"
  by (induction moves arbitrary: s) (auto simp: forget_in_ok)

lemma batch_end_ok:
  assumes "arena_ok (bs_nodes s)" and "batch_end E L K t s w = Some (r, t', w')"
  shows "arena_ok (tw_nodes t')"
  using assms(2) forget_moves_ok [OF assms(1), of "bs_moves s"]
  by (auto simp: batch_end_def Let_def split: if_splits option.splits sum.splits prod.splits
      elim: rewalk_ok attach_new_ok)

section \<open>The states of a watched tree\<close>

text \<open>A tree is armed once and processes batches after that, whatever each of them answers.\<close>

inductive watching :: "text_env \<Rightarrow> (string \<Rightarrow> string) \<Rightarrow> 'w kernel \<Rightarrow> tree_watch \<Rightarrow> bool"
  for E :: text_env and L :: "string \<Rightarrow> string" and K :: "'w kernel"
where
  armed: "arm E L K root f events deadline limits init w = Some (Inr t, w') \<Longrightarrow> watching E L K t"
| batched: "watching E L K t \<Longrightarrow> process E L K t evs w = Some (r, t', w') \<Longrightarrow> watching E L K t'"

lemma arm_ok: "arm E L K root f events deadline limits init w = Some (Inr t, w') \<Longrightarrow> arena_ok (tw_nodes t)"
  by (auto simp: arm_def split: init_answer.splits elim: rewalk_ok)

lemma process_ok:
  assumes "arena_ok (tw_nodes t)" and "process E L K t evs w = Some (r, t', w')"
  shows "arena_ok (tw_nodes t')"
  using assms by (auto simp: process_def split: sum.splits elim!: batch_end_ok [rotated] batch_ok [rotated])

text \<open>
  In every state a watcher reaches, from arming its tree through any batches of kernel events,
  the arena of watched directories is linked: a listed child is a node whose parent lists it, no
  other node lists it, and two children of one directory never share a name.
\<close>

theorem watched_tree_linked:
  assumes "watching E L K t"
  shows "arena_ok (tw_nodes t)"
  using assms by induction (auto intro: arm_ok process_ok)

definition demo_kernel :: "nat kernel" where
  "demo_kernel =
     \<lparr>kn_add_watch = (\<lambda>path w. (Inr w, Suc w)), kn_rm_watch = (\<lambda>d w. w),
      kn_subdirs = (\<lambda>path w. (Inr (if path = ''/s'' then [Utf8 ''a'', Utf8 ''b''] else []), w)),
      kn_cancelled = (\<lambda>w. (False, w)), kn_rules = (\<lambda>w source extra. Inr rules_none)\<rparr>"

definition demo_filter :: watch_filter where
  "demo_filter = \<lparr>wf_source = ''/s'', wf_extra = [], wf_rules = rules_none\<rparr>"

definition demo_limits :: "budget \<times> string option" where
  "demo_limits = (\<lparr>bg_budget = Some 9, bg_limit = Some 12, bg_held = 0\<rparr>, None)"

text \<open>A move of \<open>a\<close> to \<open>c\<close>, and a directory \<open>d\<close> made beneath it.\<close>

definition demo_events :: "inotify_event list" where
  "demo_events =
     [\<lparr>ie_wd = 1, ie_mask = [InMovedFrom, InIsDir], ie_cookie = 7, ie_name = Some (Utf8 ''a'')\<rparr>,
      \<lparr>ie_wd = 1, ie_mask = [InMovedTo, InIsDir], ie_cookie = 7, ie_name = Some (Utf8 ''c'')\<rparr>,
      \<lparr>ie_wd = 3, ie_mask = [InCreate, InIsDir], ie_cookie = 0, ie_name = Some (Utf8 ''d'')\<rparr>]"

definition demo_armed :: "(tree_watch watch_res \<times> nat) option" where
  "demo_armed =
     arm plain_env id demo_kernel ''/s'' demo_filter events_all 20 demo_limits InitDone 1"

definition demo_batch :: "(change list watch_res \<times> tree_watch \<times> nat) option" where
  "demo_batch = process plain_env id demo_kernel (projr (fst (the demo_armed))) demo_events 9"

definition demo_tree :: tree_watch where
  "demo_tree = projr (fst (the demo_armed))"

definition demo_after :: tree_watch where
  "demo_after = fst (snd (the demo_batch))"

lemma demo_run:
  "arm plain_env id demo_kernel ''/s'' demo_filter events_all 20 demo_limits InitDone 1 = Some (Inr demo_tree, 4)"
  "process plain_env id demo_kernel demo_tree demo_events 9
     = Some (Inr (projr (fst (the demo_batch))), demo_after, 10)"
proof -
  have "case demo_armed of None \<Rightarrow> False | Some (r, w) \<Rightarrow> \<not> isl r \<and> w = 4"
    by code_simp
  then show "arm plain_env id demo_kernel ''/s'' demo_filter events_all 20 demo_limits InitDone 1 = Some (Inr demo_tree, 4)"
    unfolding demo_tree_def demo_armed_def by (auto split: option.splits prod.splits)
  have "case demo_batch of None \<Rightarrow> False | Some (r, t, w) \<Rightarrow> \<not> isl r \<and> w = 10"
    by code_simp
  then show "process plain_env id demo_kernel demo_tree demo_events 9
      = Some (Inr (projr (fst (the demo_batch))), demo_after, 10)"
    unfolding demo_after_def demo_batch_def demo_tree_def [symmetric] by (auto split: option.splits prod.splits)
qed

lemma demo_watching: "watching plain_env id demo_kernel demo_after"
  by (rule batched [OF armed [OF demo_run(1)] demo_run(2)])

theorem watched_tree_linked_witness:
  "arena_ok (tw_nodes demo_after)
   \<and> map (\<lambda>(d, n). (d, nd_children n)) (tw_nodes demo_after) = [(1, [2, 3]), (2, []), (3, [9]), (9, [])]"
proof
  show "arena_ok (tw_nodes demo_after)"
    by (rule watched_tree_linked [OF demo_watching])
  show "map (\<lambda>(d, n). (d, nd_children n)) (tw_nodes demo_after) = [(1, [2, 3]), (2, []), (3, [9]), (9, [])]"
    by code_simp
qed

end
