(* ===== verification/WatchWalk.thy ===== *)
theory WatchWalk
  imports WatchFacts
begin

text \<open>
  The walk: it ends within its budget whatever the kernel answers, the arena never holds more
  directories than the budget, and on a tree that keeps still it watches exactly the directories that
  are not excluded.
\<close>

section \<open>The walk ends\<close>

lemma walk_within:
  assumes "bg_budget b = Some n"
  shows "\<exists>r saw at' w'. walk E L K f b already stack ds at_path w = Some ((r, saw, at'), w')
    \<and> (\<forall>ds'. r = Inr ds' \<longrightarrow> already + length ds' \<le> max n (already + length ds))"
proof (induction "(n - (already + length ds), stack)" arbitrary: ds stack at_path w
    rule: wf_induct_rule [OF wf_lex_prod [OF wf_less_than wf_measure [of length]]])
  case (1 ds stack at_path w)
  show ?case
  proof (cases stack)
    case Nil
    then show ?thesis by (auto simp: walk_step)
  next
    case (Cons s rest)
    obtain c1 w1 where c1: "kn_cancelled K w = (c1, w1)" by fastforce
    obtain added w2 where added: "kn_add_watch K (ws_path s) w1 = (added, w2)" by fastforce
    obtain c3 w3 where c3: "kn_cancelled K w2 = (c3, w3)" by fastforce
    obtain listing w4 where listing: "kn_subdirs K (ws_path s) w3 = (listing, w4)" by fastforce
    note answers = c1 added c3 listing
    have skip: "\<exists>r saw at' w'. walk E L K f b already rest ds (ws_path s) w2 = Some ((r, saw, at'), w')
        \<and> (\<forall>ds'. r = Inr ds' \<longrightarrow> already + length ds' \<le> max n (already + length ds))"
      by (rule 1) (simp add: Cons)
    have descend: "\<exists>r saw at' w'. walk E L K f b already stack' (ds @ [d]) (ws_path s) w4 = Some ((r, saw, at'), w')
        \<and> (\<forall>ds'. r = Inr ds' \<longrightarrow> already + length ds' \<le> max n (already + length ds))"
      if "already + length ds + 1 \<le> n" for stack' d
    proof -
      have "n - (already + length (ds @ [d])) < n - (already + length ds)"
        using that by simp
      with 1 [of "ds @ [d]" stack' "ws_path s" w4] that show ?thesis by (simp add: max_absorb1)
    qed
    show ?thesis
    proof (cases added)
      case (Inl e)
      with skip show ?thesis
        by (auto simp: Cons walk_step answers split: option.split)
    next
      case (Inr d)
      show ?thesis
      proof (cases "already + length ds + 1 \<le> n")
        case True
        with descend Inr assms show ?thesis
          by (auto simp: Cons walk_step answers split: sum.split)
      next
        case False
        with Inr assms show ?thesis
          by (auto simp: Cons walk_step answers)
      qed
    qed
  qed
qed

lemma walk_bounded_within:
  assumes "bg_budget (tw_budget t) = Some n"
  shows "\<exists>r w'. walk_bounded E L K t starts already w = Some (r, w')
    \<and> (\<forall>ds. r = Inr ds \<longrightarrow> already + length ds \<le> max n already)"
proof -
  obtain r saw at' w' where r: "walk E L K (tw_filter t) (tw_budget t) already (rev starts) []
      (case starts of [] \<Rightarrow> tw_root t | s # _ \<Rightarrow> ws_path s) w = Some ((r, saw, at'), w')"
    "\<forall>ds'. r = Inr ds' \<longrightarrow> already + length ds' \<le> max n already"
    using walk_within [OF assms, of E L K "tw_filter t" already "rev starts" "[]"
        "case starts of [] \<Rightarrow> tw_root t | s # _ \<Rightarrow> ws_path s" w] by auto
  then show ?thesis
    by (auto simp: walk_bounded_def split: prod.split)
qed

lemma rewalk_answers:
  "bg_budget (tw_budget t) = Some n \<Longrightarrow> \<exists>r w'. rewalk E L K t w = Some (r, w')"
  using walk_bounded_within [of t n E L K
      "[\<lparr>ws_path = tw_root t, ws_relative = [], ws_parent = None, ws_name = Utf8 []\<rparr>]" 0 w]
  by (auto simp: rewalk_def Let_def split: sum.split prod.split)

lemma batch_end_answers:
  assumes "bg_budget (tw_budget t) = Some n"
  shows "\<exists>r t' w'. batch_end E L K t s w = Some (r, t', w')"
proof -
  define s1 where "s1 = foldl (\<lambda>s (cookie, c). forget_in c True s) s (bs_moves s)"
  define w1 where "w1 = rm_watches K (bs_gone s1) w"
  define f where "f = (if bs_rules_changed s1 then
      (case filter_rebuilt E (kn_rules K w1) (tw_filter t) of Inr f \<Rightarrow> f | Inl _ \<Rightarrow> tw_filter t)
    else tw_filter t)"
  define t1 where "t1 = t\<lparr>tw_nodes := bs_nodes s1, tw_filter := f\<rparr>"
  have b: "bg_budget (tw_budget t1) = Some n"
    using assms by (simp add: t1_def)
  show ?thesis
    unfolding batch_end_def Let_def s1_def [symmetric] w1_def [symmetric] f_def [symmetric] t1_def [symmetric]
    using rewalk_answers [OF b, of E L K w1]
      walk_bounded_within [OF b, of E L K "bs_new_dirs s1" "length (tw_nodes t1)" w1]
    by (auto split: sum.split prod.split)
qed

section \<open>The arena stays within the budget\<close>

abbreviation held :: "arena \<Rightarrow> wd set" where
  "held ns \<equiv> dom (map_of ns)"

lemma arena_size: "arena_ok ns \<Longrightarrow> length ns = card (held ns)"
  unfolding arena_ok_def by (metis distinct_card dom_map_of_conv_image_fst length_map list.set_map)

lemma held_set_children: "held (set_children f p ns) = held ns"
  by (auto simp: map_of_set_children split: option.split)

lemma held_detach: "held (detach w ns) = held ns"
  by (simp add: detach_def held_set_children split: option.split)

lemma held_forget_loop: "held (fst (forget_loop stack ns)) \<subseteq> held ns"
proof (induction stack ns rule: forget_loop.induct)
  case (2 current remove stack ns)
  show ?case
  proof (cases "map_of ns current")
    case None
    with 2 show ?thesis by (simp add: case_prod_beta)
  next
    case (Some node)
    with 2 [OF refl, of "rev (map (\<lambda>c. (c, True)) (nd_children node)) @ stack" "AList.delete current ns"] have "held (fst (forget_loop (rev (map (\<lambda>c. (c, True)) (nd_children node)) @ stack)
        (AList.delete current ns))) \<subseteq> held (AList.delete current ns)"
      by (simp add: case_prod_beta)
    with Some show ?thesis by (auto simp: case_prod_beta delete_conv')
  qed
qed simp

lemma held_forget: "held (fst (forget w r ns)) \<subseteq> held ns"
  using held_forget_loop [of "[(w, r)]" "detach w ns"]
  by (simp add: forget_def held_detach del: forget_loop.simps)

lemma held_attach: "held (fst (attach w parent name ns)) \<subseteq> insert w (held ns)"
  using held_forget [of w True ns]
  by (auto simp: attach_def Let_def update_conv' delete_conv' held_set_children held_detach
      simp del: dom_map_of_conv_image_fst split: option.splits if_splits)

lemma held_attach_walked:
  "foldl attach_walked (r, ns, gone) ds = (r', ns', gone') \<Longrightarrow> held ns' \<subseteq> held ns \<union> wk_wd ` set ds"
proof (induction ds arbitrary: r ns gone)
  case (Cons d ds)
  obtain ns1 gone1 where a: "attach (wk_wd d) (wk_parent d) (wk_name d) ns = (ns1, gone1)" by fastforce
  with held_attach [of "wk_wd d" "wk_parent d" "wk_name d" ns] have "held ns1 \<subseteq> insert (wk_wd d) (held ns)"
    by simp
  moreover have "held ns' \<subseteq> held ns1 \<union> wk_wd ` set ds"
    by (rule Cons.IH) (use Cons.prems in \<open>simp add: attach_walked_def a\<close>)
  ultimately have "held ns' \<subseteq> held ns \<union> insert (wk_wd d) (wk_wd ` set ds)" by blast
  then show ?case by simp
qed simp

lemma held_attach_new:
  "foldl (attach_new L) (cs, ns, gone) ds = (cs', ns', gone') \<Longrightarrow> held ns' \<subseteq> held ns \<union> wk_wd ` set ds"
proof (induction ds arbitrary: cs ns gone)
  case (Cons d ds)
  obtain ns1 gone1 where a: "attach (wk_wd d) (wk_parent d) (wk_name d) ns = (ns1, gone1)" by fastforce
  with held_attach [of "wk_wd d" "wk_parent d" "wk_name d" ns] have "held ns1 \<subseteq> insert (wk_wd d) (held ns)"
    by simp
  moreover have "held ns' \<subseteq> held ns1 \<union> wk_wd ` set ds"
    by (rule Cons.IH) (use Cons.prems in \<open>simp add: attach_new_def a\<close>)
  ultimately have "held ns' \<subseteq> held ns \<union> insert (wk_wd d) (wk_wd ` set ds)" by blast
  then show ?case by simp
qed simp

text \<open>In a batch no directory joins the arena that was not in it.\<close>

definition batch_within :: "wd set \<Rightarrow> batch_state \<Rightarrow> bool" where
  "batch_within S s = (held (bs_nodes s) \<subseteq> S \<and> snd ` set (bs_moves s) \<subseteq> S)"

lemma child_held: "arena_child ns p name = Some c \<Longrightarrow> c \<in> held ns"
  by (drule child_named) auto

lemma snd_update: "snd ` set (AList.update k v xs) \<subseteq> insert v (snd ` set xs)"
  by (induction xs) auto

lemma snd_delete: "snd ` set (AList.delete k xs) \<subseteq> snd ` set xs"
  by (induction xs) auto

lemma forget_in_within: "batch_within S s \<Longrightarrow> batch_within S (forget_in d r s)"
  using held_forget [of d r "bs_nodes s"] by (auto simp: batch_within_def forget_in_def case_prod_beta)

lemma directory_event_within:
  assumes "batch_within S s"
  shows "batch_within S (directory_event root ev name entry s)"
proof -
  let ?ns = "bs_nodes s" and ?moves = "bs_moves s"
  have S: "held ?ns \<subseteq> S" "snd ` set ?moves \<subseteq> S"
    using assms by (simp_all add: batch_within_def)
  have moved: "held ns \<subseteq> S" if "attach c (Some (ie_wd ev)) name ?ns = (ns, gone)"
    "map_of ?moves k = Some c" for c ns gone k
  proof -
    have "c \<in> S"
      using S(2) map_of_SomeD [OF that(2)] by (metis imageI snd_conv subsetD)
    with held_attach [of c "Some (ie_wd ev)" name ?ns] that(1) S(1) show ?thesis by auto
  qed
  have noted: "snd ` set (AList.update k c ?moves) \<subseteq> S"
    if "arena_child ?ns (ie_wd ev) name = Some c" for c k
    using snd_update [of k c ?moves] child_held [OF that] S by blast
  have used: "snd ` set (AList.delete k ?moves) \<subseteq> S" for k
    using snd_delete [of k ?moves] S(2) by blast
  show ?thesis
    unfolding batch_within_def directory_event_def Let_def
    by (simp add: S noted used split: option.split prod.split)
      (intro conjI allI impI; elim exE; rule moved; assumption)
qed

lemma batch_event_within:
  "batch_within S s \<Longrightarrow> batch_event E L t s ev = Inr s' \<Longrightarrow> batch_within S s'"
  using directory_event_within [of S s] forget_in_within [of S s]
  by (auto simp: batch_event_def own_event_def named_event_def Let_def split: if_splits option.splits)
    (auto simp: batch_within_def)

lemma batch_within:
  "batch_within S s \<Longrightarrow> fold_r (batch_event E L t) s evs = Inr s' \<Longrightarrow> batch_within S s'"
  by (induction evs arbitrary: s) (auto split: sum.splits dest: batch_event_within)

lemma forget_moves_within:
  "batch_within S s \<Longrightarrow> batch_within S (foldl (\<lambda>s (cookie, c). forget_in c True s) s moves)"
  by (induction moves arbitrary: s) (auto simp: forget_in_within)

lemma arena_fits:
  assumes "arena_ok ns'" and "held ns' \<subseteq> S \<union> wk_wd ` set ds" and "finite S" and "card S + length ds \<le> n"
  shows "length ns' \<le> n"
proof -
  have "length ns' \<le> card (S \<union> wk_wd ` set ds)"
    unfolding arena_size [OF assms(1)] by (rule card_mono) (use assms in auto)
  also have "\<dots> \<le> card S + card (wk_wd ` set ds)"
    by (rule card_Un_le)
  also have "card (wk_wd ` set ds) \<le> length ds"
    using card_image_le [of "set ds" wk_wd] card_length [of ds] by simp
  finally show ?thesis using assms(4) by simp
qed

lemma rewalk_fits:
  assumes b: "bg_budget (tw_budget t) = Some n" and r: "rewalk E L K t w = Some (Inr t', w')"
  shows "length (tw_nodes t') \<le> n \<and> tw_budget t' = tw_budget t"
proof -
  let ?start = "[\<lparr>ws_path = tw_root t, ws_relative = [], ws_parent = None, ws_name = Utf8 []\<rparr>]"
  obtain ds w1 root ns gone where ds: "walk_bounded E L K t ?start 0 w = Some (Inr ds, w1)"
    "foldl attach_walked (tw_root_wd t, [], []) ds = (root, ns, gone)"
    "t' = t\<lparr>tw_root_wd := root, tw_nodes := ns\<rparr>"
    using r by (auto simp: rewalk_def Let_def split: option.splits sum.splits prod.splits)
  have "length ds \<le> n"
    using walk_bounded_within [OF b, of E L K ?start 0 w] ds(1) by auto
  with held_attach_walked [OF ds(2)] attach_walked_ok [OF arena_ok_Nil ds(2)] ds(3) show ?thesis
    by (auto intro!: arena_fits [where S = "{}" and ds = ds])
qed

lemma batch_end_fits:
  assumes b: "bg_budget (tw_budget t) = Some n" and t: "arena_ok (tw_nodes t)" "length (tw_nodes t) \<le> n"
    and s: "arena_ok (bs_nodes s)" "batch_within (held (tw_nodes t)) s"
    and e: "batch_end E L K t s w = Some (r, t', w')"
  shows "length (tw_nodes t') \<le> n \<and> tw_budget t' = tw_budget t"
proof -
  define s1 where "s1 = foldl (\<lambda>s (cookie, c). forget_in c True s) s (bs_moves s)"
  define w1 where "w1 = rm_watches K (bs_gone s1) w"
  define f where "f = (if bs_rules_changed s1 then
      (case filter_rebuilt E (kn_rules K w1) (tw_filter t) of Inr f \<Rightarrow> f | Inl _ \<Rightarrow> tw_filter t)
    else tw_filter t)"
  define t1 where "t1 = t\<lparr>tw_nodes := bs_nodes s1, tw_filter := f\<rparr>"
  have b1: "bg_budget (tw_budget t1) = Some n" and same: "tw_budget t1 = tw_budget t"
    using b by (simp_all add: t1_def)
  have ok1: "arena_ok (tw_nodes t1)"
    using forget_moves_ok [OF s(1)] by (simp add: t1_def s1_def)
  have "held (tw_nodes t1) \<subseteq> held (tw_nodes t)"
    using forget_moves_within [OF s(2), of "bs_moves s"] by (simp add: t1_def s1_def batch_within_def)
  then have fits1: "length (tw_nodes t1) \<le> n"
    using t(2) arena_fits [OF ok1, of "held (tw_nodes t)" "[]" n]
    by (simp add: arena_size [OF t(1)] finite_dom_map_of)
  have new: "length ns \<le> n"
    if walked: "walk_bounded E L K t1 (bs_new_dirs s1) (length (tw_nodes t1)) w1 = Some (Inr ds, w2)"
      and ns: "foldl (attach_new L) (bs_changes s1, tw_nodes t1, []) ds = (cs, ns, gone)" for ds w2 cs ns gone
  proof (rule arena_fits [OF attach_new_ok [OF ok1 ns] held_attach_new [OF ns]])
    show "card (held (tw_nodes t1)) + length ds \<le> n"
      using walk_bounded_within [OF b1, of E L K "bs_new_dirs s1" "length (tw_nodes t1)" w1] walked fits1
      by (simp add: arena_size [OF ok1, symmetric] max_absorb1)
  qed (simp add: finite_dom_map_of)
  from e show ?thesis
    unfolding batch_end_def Let_def s1_def [symmetric] w1_def [symmetric] f_def [symmetric] t1_def [symmetric]
    using fits1 same new
    by (auto split: if_splits option.splits sum.splits prod.splits dest: rewalk_fits [OF b1])
qed

lemma process_fits:
  assumes "bg_budget (tw_budget t) = Some n" and "arena_ok (tw_nodes t)" "length (tw_nodes t) \<le> n"
    and "process E L K t evs w = Some (r, t', w')"
  shows "length (tw_nodes t') \<le> n \<and> tw_budget t' = tw_budget t"
proof -
  let ?s = "\<lparr>bs_changes = [], bs_new_dirs = [], bs_moves = [], bs_overflow = False,
    bs_rules_changed = False, bs_nodes = tw_nodes t, bs_gone = []\<rparr>"
  show ?thesis
  proof (cases "fold_r (batch_event E L t) ?s evs")
    case (Inl e)
    with assms show ?thesis by (auto simp: process_def)
  next
    case (Inr s)
    have "arena_ok (bs_nodes s)"
      by (rule batch_ok [OF _ Inr]) (simp add: assms)
    moreover have "batch_within (held (tw_nodes t)) s"
      by (rule batch_within [OF _ Inr]) (simp add: batch_within_def)
    ultimately show ?thesis
      using batch_end_fits [OF assms(1-3)] assms(4) Inr by (simp add: process_def)
  qed
qed

lemma arm_fits:
  assumes "arm E L K root f events deadline limits init w = Some (Inr t, w')"
    and "bg_budget (tw_budget t) = Some n"
  shows "length (tw_nodes t) \<le> n"
proof -
  let ?t = "\<lparr>tw_root = root, tw_root_wd = None, tw_nodes = [], tw_filter = f, tw_events = events,
    tw_budget = fst limits, tw_limit_note = snd limits, tw_deadline = deadline\<rparr>"
  have r: "rewalk E L K ?t w = Some (Inr t, w')"
    using assms(1) by (simp add: arm_def split: init_answer.splits)
  have "tw_budget t = tw_budget ?t"
    using r by (auto simp: rewalk_def Let_def split: option.splits sum.splits prod.splits)
  with rewalk_fits [OF _ r] assms(2) show ?thesis by simp
qed

lemma process_budget:
  assumes "process E L K t evs w = Some (r, t', w')"
  shows "tw_budget t' = tw_budget t"
proof -
  have rewalked: "tw_budget u' = tw_budget u" if "rewalk E L K u w = Some (Inr u', w')" for u u' w w'
    using that by (auto simp: rewalk_def Let_def split: option.splits sum.splits prod.splits)
  from assms show ?thesis
    by (auto simp: process_def batch_end_def Let_def dest!: rewalked
        split: sum.splits if_splits option.splits prod.splits)
qed

text \<open>
  C28. In every state a watcher reaches, the arena holds no more directories than its budget: neither
  the first walk, nor new directories, nor moves, nor a walk after an overflow grow it past that.
\<close>

theorem watched_tree_within_budget:
  assumes "watching E L K t" and "bg_budget (tw_budget t) = Some n"
  shows "length (tw_nodes t) \<le> n"
  using assms
proof (induction)
  case (armed root f events deadline limits init w t w')
  then show ?case by (rule arm_fits)
next
  case (batched t evs w r t' w')
  have "bg_budget (tw_budget t) = Some n"
    using batched.prems process_budget [OF batched.hyps(2)] by simp
  moreover have "arena_ok (tw_nodes t)"
    using batched.hyps(1) by induction (auto intro: arm_ok process_ok)
  ultimately show ?case
    using process_fits [of t n E L K evs w r t' w'] batched by simp
qed

theorem watched_tree_within_budget_witness: "length (tw_nodes demo_after) \<le> 9"
  by (rule watched_tree_within_budget [OF demo_watching]) code_simp

text \<open>
  C29. With a budget, a batch of events is always answered, whatever the kernel and the file system
  answer the walks: a tree that grows while it is walked ends in the budget's error, not in a walk
  without end.
\<close>

theorem batch_is_answered:
  assumes "bg_budget (tw_budget t) = Some n"
  shows "\<exists>r t' w'. process E L K t evs w = Some (r, t', w') \<and> tw_budget t' = tw_budget t"
proof -
  obtain r t' w' where "process E L K t evs w = Some (r, t', w')"
    using batch_end_answers [OF assms, of E L K _ w] that unfolding process_def
    by (cases "fold_r (batch_event E L t) \<lparr>bs_changes = [], bs_new_dirs = [], bs_moves = [], bs_overflow = False,
      bs_rules_changed = False, bs_nodes = tw_nodes t, bs_gone = []\<rparr> evs") auto
  with process_budget [OF this] show ?thesis by simp
qed

text \<open>A file system that has a directory \<open>x\<close> in every directory.\<close>

definition deep_kernel :: "nat kernel" where
  "deep_kernel = demo_kernel\<lparr>kn_subdirs := (\<lambda>path w. (Inr [Utf8 ''x''], w))\<rparr>"

theorem batch_is_answered_witness:
  "\<exists>r t' w'. process plain_env id deep_kernel demo_after demo_events 9 = Some (r, t', w')
     \<and> tw_budget t' = tw_budget demo_after"
  by (rule batch_is_answered [where n = 9]) code_simp

section \<open>What the walk watches\<close>

text \<open>The directories reached from the starts through listings, excluded ones left out.\<close>

inductive to_watch ::
  "text_env \<Rightarrow> (string \<Rightarrow> string) \<Rightarrow> watch_filter \<Rightarrow> (string \<Rightarrow> wd) \<Rightarrow> (string \<Rightarrow> os_name list)
     \<Rightarrow> walk_start list \<Rightarrow> walk_start \<Rightarrow> bool"
  for E L f wd_of subdirs starts
where
  start: "s \<in> set starts \<Longrightarrow> to_watch E L f wd_of subdirs starts s"
| beneath: "to_watch E L f wd_of subdirs starts s \<Longrightarrow>
    s' \<in> set (starts_beneath E L f s (wd_of (ws_path s)) (subdirs (ws_path s))) \<Longrightarrow>
    to_watch E L f wd_of subdirs starts s'"

definition keeps_still :: "(string \<Rightarrow> wd) \<Rightarrow> (string \<Rightarrow> os_name list) \<Rightarrow> 'w kernel \<Rightarrow> bool" where
  "keeps_still wd_of subdirs K =
     (\<forall>w path. \<not> fst (kn_cancelled K w) \<and> fst (kn_add_watch K path w) = Inr (wd_of path)
        \<and> fst (kn_subdirs K path w) = Inr (subdirs path))"

definition watched_as :: "(string \<Rightarrow> wd) \<Rightarrow> walk_start \<Rightarrow> walked" where
  "watched_as wd_of s = \<lparr>wk_wd = wd_of (ws_path s), wk_parent = ws_parent s, wk_name = ws_name s\<rparr>"

lemma to_watch_mono:
  "to_watch E L f wd_of subdirs starts s \<Longrightarrow> (\<And>s. s \<in> set starts \<Longrightarrow> to_watch E L f wd_of subdirs starts' s) \<Longrightarrow>
     to_watch E L f wd_of subdirs starts' s"
  by (induction rule: to_watch.induct) (auto intro: to_watch.intros)

lemma to_watch_pop:
  "{s'. to_watch E L f wd_of subdirs (s # rest) s'} =
     insert s {s'. to_watch E L f wd_of subdirs
       (rev (starts_beneath E L f s (wd_of (ws_path s)) (subdirs (ws_path s))) @ rest) s'}"
  (is "?all = insert s ?later")
proof (intro set_eqI iffI)
  fix s' assume "s' \<in> ?all"
  then have "to_watch E L f wd_of subdirs (s # rest) s'" by simp
  then have "s' = s \<or> s' \<in> ?later"
    by induction (auto intro: to_watch.intros)
  then show "s' \<in> insert s ?later" by blast
next
  fix s' assume s': "s' \<in> insert s ?later"
  have here: "to_watch E L f wd_of subdirs (s # rest) s"
    by (rule to_watch.start) simp
  have "to_watch E L f wd_of subdirs (s # rest) s1"
    if "s1 \<in> set (rev (starts_beneath E L f s (wd_of (ws_path s)) (subdirs (ws_path s))) @ rest)" for s1
  proof (cases "s1 \<in> set rest")
    case True
    then show ?thesis by (intro to_watch.start) simp
  next
    case False
    with that show ?thesis by (intro to_watch.beneath [OF here]) simp
  qed
  with s' here show "s' \<in> ?all"
    by (blast intro: to_watch_mono)
qed

lemma walk_covers:
  "walk E L K f b already stack ds at_path w = Some ((Inr ds', saw, at'), w') \<Longrightarrow> keeps_still wd_of subdirs K \<Longrightarrow>
     \<not> saw \<and> set ds' = set ds \<union> watched_as wd_of ` {s. to_watch E L f wd_of subdirs stack s}"
proof (induction E L K f b already stack ds at_path w "((Inr ds' :: walked list watch_res, saw, at'), w')"
    arbitrary: ds' saw at' w' rule: walk.raw_induct [rotated, consumes 1])
  case (1 walk E L K f b already stack ds at_path w)
  show ?case
  proof (cases stack)
    case Nil
    have "\<not> to_watch E L f wd_of subdirs [] s" for s
    proof
      assume "to_watch E L f wd_of subdirs [] s"
      then show False by induction auto
    qed
    with 1(2) Nil show ?thesis by auto
  next
    case (Cons s rest)
    define d where "d = wd_of (ws_path s)"
    have still: "\<not> fst (kn_cancelled K u)" "fst (kn_add_watch K path u) = Inr (wd_of path)"
      "fst (kn_subdirs K path u) = Inr (subdirs path)" for path u
      using 1(3) by (simp_all add: keeps_still_def)
    obtain w1 where c1: "kn_cancelled K w = (False, w1)"
      using still(1) [of w] by (cases "kn_cancelled K w") simp
    obtain w2 where added: "kn_add_watch K (ws_path s) w1 = (Inr d, w2)"
      using still(2) [of "ws_path s" w1] by (cases "kn_add_watch K (ws_path s) w1") (simp add: d_def)
    obtain w3 where c3: "kn_cancelled K w2 = (False, w3)"
      using still(1) [of w2] by (cases "kn_cancelled K w2") simp
    obtain w4 where listing: "kn_subdirs K (ws_path s) w3 = (Inr (subdirs (ws_path s)), w4)"
      using still(3) [of "ws_path s" w3] by (cases "kn_subdirs K (ws_path s) w3") simp
    let ?stack = "rev (starts_beneath E L f s d (subdirs (ws_path s))) @ rest"
    have "walk E L K f b already ?stack (ds @ [watched_as wd_of s]) (ws_path s) w4 = Some ((Inr ds', saw, at'), w')"
      using 1(2) by (simp add: Cons c1 added c3 listing listing_of_def watched_as_def d_def [symmetric] split: if_splits)
    from 1(1) [OF this 1(3)] show ?thesis
      by (simp add: Cons to_watch_pop d_def)
  qed
qed

text \<open>
  C30. On a tree that keeps still, a walk that answers has not been cut short and watches exactly the
  directories that the listings lead to from where it starts: every directory that is not excluded,
  and none beneath an excluded one.
\<close>

theorem walk_watches_the_tree:
  assumes "keeps_still wd_of subdirs K"
    and "walk E L K f b already stack [] at_path w = Some ((Inr ds, saw, at'), w')"
  shows "\<not> saw \<and> set ds = watched_as wd_of ` {s. to_watch E L f wd_of subdirs stack s}"
  using walk_covers [OF assms(2,1)] by simp

definition still_wd :: "string \<Rightarrow> wd" where
  "still_wd path = length path"

definition still_subdirs :: "string \<Rightarrow> os_name list" where
  "still_subdirs path = (if path = ''/s'' then [Utf8 ''@eaDir'', Utf8 ''a''] else [])"

definition still_kernel :: "unit kernel" where
  "still_kernel =
     \<lparr>kn_add_watch = (\<lambda>path w. (Inr (still_wd path), w)), kn_rm_watch = (\<lambda>d w. w),
      kn_subdirs = (\<lambda>path w. (Inr (still_subdirs path), w)), kn_cancelled = (\<lambda>w. (False, w)),
      kn_rules = (\<lambda>w source extra. Inr rules_none)\<rparr>"

definition still_start :: walk_start where
  "still_start = \<lparr>ws_path = ''/s'', ws_relative = [], ws_parent = None, ws_name = Utf8 []\<rparr>"

lemma still_walk:
  "walk plain_env id still_kernel demo_filter (fst demo_limits) 0 [still_start] [] ''/s'' () =
     Some ((Inr [watched_as still_wd still_start, \<lparr>wk_wd = 4, wk_parent = Some 2, wk_name = Utf8 ''a''\<rparr>],
       False, ''/s/a''), ())"
  by code_simp

theorem walk_watches_the_tree_witness:
  "set [watched_as still_wd still_start, \<lparr>wk_wd = 4, wk_parent = Some 2, wk_name = Utf8 ''a''\<rparr>] =
     watched_as still_wd ` {s. to_watch plain_env id demo_filter still_wd still_subdirs [still_start] s}"
  using walk_watches_the_tree [OF _ still_walk, of still_wd still_subdirs]
  by (simp add: keeps_still_def still_kernel_def)

section \<open>A directory made in place of one that moved away\<close>

definition moved_away :: inotify_event where
  "moved_away = \<lparr>ie_wd = 1, ie_mask = [InMovedFrom, InIsDir], ie_cookie = 7, ie_name = Some (Utf8 ''a'')\<rparr>"

definition made_anew :: inotify_event where
  "made_anew = \<lparr>ie_wd = 1, ie_mask = [InCreate, InIsDir], ie_cookie = 0, ie_name = Some (Utf8 ''a'')\<rparr>"

definition watches_a :: "(change list watch_res \<times> tree_watch \<times> nat) option \<Rightarrow> bool" where
  "watches_a answer =
     (case answer of None \<Rightarrow> False | Some (r, t, w) \<Rightarrow> \<not> isl r \<and> is_watched id t ''a'')"

text \<open>
  A concrete batch: the directory \<open>a\<close> is moved out of the tree and a new directory \<open>a\<close> is made.
  Read in one batch, the name still belongs to the directory that left when the creation is looked
  at, so the new one is not walked and \<open>a\<close> is watched no more; read in two batches it is.
\<close>

lemma new_directory_unwatched_after_move:
  "\<not> isl (fst (the (process plain_env id demo_kernel demo_tree [moved_away, made_anew] 9)))
   \<and> \<not> watches_a (process plain_env id demo_kernel demo_tree [moved_away, made_anew] 9)
   \<and> watches_a (case process plain_env id demo_kernel demo_tree [moved_away] 9 of
        Some (Inr _, t, w) \<Rightarrow> process plain_env id demo_kernel t [made_anew] w | _ \<Rightarrow> None)"
proof (intro conjI)
  show "\<not> isl (fst (the (process plain_env id demo_kernel demo_tree [moved_away, made_anew] 9)))"
    by code_simp
  show "\<not> watches_a (process plain_env id demo_kernel demo_tree [moved_away, made_anew] 9)"
    by code_simp
  show "watches_a (case process plain_env id demo_kernel demo_tree [moved_away] 9 of
      Some (Inr _, t, w) \<Rightarrow> process plain_env id demo_kernel t [made_anew] w | _ \<Rightarrow> None)"
    by code_simp
qed

end
