(* ===== verification/WatchLines.thy ===== *)
theory WatchLines
  imports WatchCommand
begin

text \<open>
  What \<open>watch\<close> writes: at most one line per interval, and a line for every change it has seen.
\<close>

section \<open>Lines are at least one interval apart\<close>

definition spaced :: "nat \<Rightarrow> marker list \<Rightarrow> bool" where
  "spaced interval lines =
     sorted_wrt (\<lambda>(t, _) (u, _). case t of
          None \<Rightarrow> False
        | Some before \<Rightarrow> (case u of None \<Rightarrow> True | Some after \<Rightarrow> before + interval \<le> after)) lines"

definition not_before :: "nat \<Rightarrow> nat option \<Rightarrow> marker list \<Rightarrow> bool" where
  "not_before interval before lines =
     (\<forall>(t, _) \<in> set lines. case t of
        None \<Rightarrow> True
      | Some u \<Rightarrow> (case before of None \<Rightarrow> True | Some b \<Rightarrow> b + interval \<le> u))"

lemma note_all_kept:
  "co_interval (note_all changes c) = co_interval c" "co_last (note_all changes c) = co_last c"
  by (induction changes arbitrary: c) (simp_all add: note_all_def co_note_def)

lemma note_all_pending:
  "co_pending (note_all changes c) =
     (if changes = [] then co_pending c
      else Some (co_pending c = Some True \<or> Overflow \<in> set changes))"
proof (induction changes arbitrary: c)
  case (Cons change changes)
  then show ?case
    by (cases "co_pending c") (auto simp: note_all_def co_note_def)
qed (simp add: note_all_def)

lemma co_take_line:
  assumes "co_take now c = (line, c')"
  shows "line = None \<Longrightarrow> c' = c"
    and "line = Some over \<Longrightarrow> co_pending c = Some over \<and> c' = c\<lparr>co_last := Some now, co_pending := None\<rparr>
      \<and> (case co_last c of None \<Rightarrow> True | Some b \<Rightarrow> b + co_interval c \<le> now)"
  using assms by (auto simp: co_take_def co_wait_hint_def split: option.splits if_splits)

lemma last_lines_form:
  "last_lines format e pending written = [] \<or> (\<exists>text. last_lines format e pending written = [(None, text)])"
  by (cases written) (simp_all add: last_lines_def)

lemma last_lines_untimed: "(t, text) \<in> set (last_lines format e pending written) \<Longrightarrow> t = None"
  using last_lines_form [of format e pending written] by auto

lemma last_lines_one: "length (last_lines format e pending written) \<le> 1"
  using last_lines_form [of format e pending written] by auto

lemma watch_turns_spaced:
  "watch_turns format c ts = (lines, r) \<Longrightarrow>
     spaced (co_interval c) lines \<and> not_before (co_interval c) (co_last c) lines"
proof (induction format c ts arbitrary: lines r rule: watch_turns.induct)
  case (1 format c)
  then show ?case by (simp add: spaced_def not_before_def)
next
  case (2 format c t ts)
  show ?case
  proof (cases "tn_changes t")
    case (Inl e)
    have "length lines \<le> 1" "\<forall>(t, _) \<in> set lines. t = None"
      using 2(3) Inl last_lines_one last_lines_untimed by auto
    then show ?thesis
      by (cases lines) (auto simp: spaced_def not_before_def)
  next
    case (Inr changes)
    obtain line c' where taken: "co_take (tn_now t) (note_all changes c) = (line, c')"
      by (cases "co_take (tn_now t) (note_all changes c)")
    show ?thesis
    proof (cases line)
      case None
      then have "c' = note_all changes c"
        using co_take_line(1) [OF taken] by blast
      with 2(1) [OF Inr taken [symmetric, unfolded None] refl, of lines r] 2(3) Inr taken None show ?thesis
        by (simp add: note_all_kept)
    next
      case (Some overflow)
      from co_take_line(2) [OF taken this]
      have c': "c' = (note_all changes c)\<lparr>co_last := Some (tn_now t), co_pending := None\<rparr>"
        and due: "case co_last c of None \<Rightarrow> True | Some b \<Rightarrow> b + co_interval c \<le> tn_now t"
        by (simp_all only: note_all_kept)
      show ?thesis
      proof (cases "tn_written t")
        case (Inl cause)
        then show ?thesis
          using 2(3) Inr taken Some by (auto simp: spaced_def not_before_def)
      next
        case (Inr u)
        obtain rest r' where rest: "watch_turns format c' ts = (rest, r')"
          by (cases "watch_turns format c' ts")
        have lines: "lines = (Some (tn_now t), marker_text format overflow) # rest"
          using 2(3) \<open>tn_changes t = Inr changes\<close> taken Some Inr rest by simp
        have "spaced (co_interval c) rest" "not_before (co_interval c) (Some (tn_now t)) rest"
          using 2(2) [OF \<open>tn_changes t = Inr changes\<close> taken [symmetric, unfolded Some] refl Inr rest]
          by (simp_all add: c' note_all_kept)
        with due show ?thesis
          by (auto simp: lines spaced_def not_before_def split: option.splits)
      qed
    qed
  qed
qed

section \<open>No line without a cause\<close>

definition eventful :: "turn \<Rightarrow> bool" where
  "eventful t = (case tn_changes t of Inl _ \<Rightarrow> True | Inr changes \<Rightarrow> changes \<noteq> [])"

lemma watch_turns_bounded:
  "length (fst (watch_turns format c ts)) \<le> length (filter eventful ts) + (if co_pending c = None then 0 else 1)"
proof (induction format c ts rule: watch_turns.induct)
  case (2 format c t ts)
  show ?case
  proof (cases "tn_changes t")
    case (Inl e)
    with last_lines_one [of format e "fst (co_take_now c)" "tn_written t"] show ?thesis
      by (simp add: eventful_def)
  next
    case (Inr changes)
    have ev: "eventful t = (changes \<noteq> [])"
      by (simp add: eventful_def Inr)
    obtain line c' where taken: "co_take (tn_now t) (note_all changes c) = (line, c')"
      by (cases "co_take (tn_now t) (note_all changes c)")
    show ?thesis
    proof (cases line)
      case None
      with co_take_line(1) [OF taken] have "c' = note_all changes c" by blast
      with 2(1) [OF Inr taken [symmetric, unfolded None] refl] Inr taken None show ?thesis
        by (auto simp: note_all_pending ev split: if_splits)
    next
      case (Some overflow)
      have "changes = [] \<Longrightarrow> co_pending c \<noteq> None" "co_pending c' = None"
        using co_take_line(2) [OF taken Some] by (auto simp: note_all_pending split: if_splits)
      with 2(2) [OF Inr taken [symmetric, unfolded Some] refl] Inr taken Some show ?thesis
        by (cases "tn_written t") (auto simp: ev case_prod_beta)
    qed
  qed
qed simp

text \<open>
  However the batches of events and the clock come, two timed lines of \<open>watch\<close> are at least one
  interval apart, at most one more line follows them at the end, and there are no more lines than
  turns of the loop that saw a change or the end of the tree.
\<close>

theorem lines_are_coalesced:
  "spaced interval (fst (watch_turns format (co_new interval) ts))
   \<and> length (fst (watch_turns format (co_new interval) ts)) \<le> length (filter eventful ts)"
proof
  show "spaced interval (fst (watch_turns format (co_new interval) ts))"
    using watch_turns_spaced [of format "co_new interval" ts]
    by (cases "watch_turns format (co_new interval) ts") (simp add: co_new_def)
  show "length (fst (watch_turns format (co_new interval) ts)) \<le> length (filter eventful ts)"
    using watch_turns_bounded [of format "co_new interval" ts] by (simp add: co_new_def)
qed

section \<open>No change without a line\<close>

lemma watch_turns_append:
  "watch_turns format c (ts @ us) =
     (case watch_turns format c ts of (lines, r) \<Rightarrow>
      case r of
        Inl e \<Rightarrow> (lines, Inl e)
      | Inr c' \<Rightarrow> (case watch_turns format c' us of (more_lines, r') \<Rightarrow> (lines @ more_lines, r')))"
  by (induction format c ts rule: watch_turns.induct)
    (auto split: sum.split option.split prod.split)

lemma pending_written:
  "watch_turns format c ts = (lines, Inl e) \<Longrightarrow> co_pending c = Some overflow \<Longrightarrow> \<forall>t \<in> set ts. tn_written t = Inr () \<Longrightarrow>
     lines \<noteq> [] \<and> (overflow \<longrightarrow> snd (hd lines) = marker_text format True)"
proof (induction format c ts arbitrary: lines overflow rule: watch_turns.induct)
  case (2 format c t ts)
  show ?case
  proof (cases "tn_changes t")
    case (Inl e)
    with 2(3-5) show ?thesis
      by (auto simp: last_lines_def co_take_now_def)
  next
    case (Inr changes)
    obtain line c' where taken: "co_take (tn_now t) (note_all changes c) = (line, c')"
      by (cases "co_take (tn_now t) (note_all changes c)")
    obtain over where over: "co_pending (note_all changes c) = Some over" "overflow \<longrightarrow> over"
      using 2(4) by (cases "changes = []") (auto simp: note_all_pending)
    show ?thesis
    proof (cases line)
      case None
      with co_take_line(1) [OF taken] have "c' = note_all changes c" by blast
      with 2(1) [OF Inr taken [symmetric, unfolded None] refl, of lines over] 2(3,5) Inr taken None over
      show ?thesis by simp
    next
      case (Some o')
      with co_take_line(2) [OF taken Some] over have "o' = over" by simp
      with 2(3,5) Inr taken Some over show ?thesis
        by (cases "tn_written t") (auto split: prod.splits)
    qed
  qed
qed simp

text \<open>
  C31. A change is never lost as long as the output can be written: once a turn of the loop has seen
  changes, a line follows before the watch ends, whatever ends it, and the next line says that the
  queue overflowed when the changes held an overflow.
\<close>

theorem every_change_is_written:
  assumes "watch_turns format (co_new interval) ts = (before, Inr c)"
    and "tn_changes t = Inr changes" and "changes \<noteq> []"
    and "watch_turns format (co_new interval) (ts @ t # us) = (lines, Inl e)"
    and "\<forall>u \<in> set (t # us). tn_written u = Inr ()"
  shows "\<exists>after. lines = before @ after \<and> after \<noteq> []
    \<and> (Overflow \<in> set changes \<longrightarrow> snd (hd after) = marker_text format True)"
proof -
  define p where "p = note_all changes c"
  have p: "co_pending p = Some (co_pending c = Some True \<or> Overflow \<in> set changes)"
    using assms(3) by (simp add: p_def note_all_pending)
  obtain after where after: "watch_turns format c (t # us) = (after, Inl e)" "lines = before @ after"
    using assms(1,4) by (auto simp: watch_turns_append simp del: watch_turns.simps split: prod.splits)
  have "watch_turns format p (t\<lparr>tn_changes := Inr []\<rparr> # us) = (after, Inl e)"
    using after(1) assms(2)
    by (cases t) (auto simp: p_def note_all_def split: option.splits sum.splits prod.splits)
  from pending_written [OF this p] assms(5) after(2) show ?thesis by simp
qed

definition demo_turns :: "turn list" where
  "demo_turns =
     [\<lparr>tn_changes = Inr [ChangedPath [] ''a'' ''modify''], tn_now = 5, tn_written = Inr ()\<rparr>,
      \<lparr>tn_changes = Inr [Overflow], tn_now = 7, tn_written = Inr ()\<rparr>,
      \<lparr>tn_changes = Inr [], tn_now = 25, tn_written = Inr ()\<rparr>,
      \<lparr>tn_changes = Inl (SourceGone ''/s''), tn_now = 26, tn_written = Inr ()\<rparr>]"

theorem every_change_is_written_witness:
  "\<exists>after. [(Some 5, ''x''), (Some 25, ''x overflow''), (None, ''x'')] = [(Some (5::nat), ''x'')] @ after \<and> after \<noteq> []
    \<and> (Overflow \<in> set [Overflow] \<longrightarrow> snd (hd after) = marker_text ''x'' True)"
  by (rule every_change_is_written [where interval = 10 and c = "\<lparr>co_interval = 10, co_last = Some 5, co_pending = None\<rparr>"
        and ts = "take 1 demo_turns" and t = "demo_turns ! 1" and us = "drop 2 demo_turns" and e = "SourceGone ''/s''"])
    (simp_all add: demo_turns_def co_new_def co_take_def co_take_now_def co_wait_hint_def note_all_def
      co_note_def marker_text_def last_lines_def source_is_gone_def)

end
