(* ===== verification/Batch.thy ===== *)
theory Batch
  imports Paths ErrorText Numbers "HOL-Library.Product_Lexorder"
begin

text \<open>
  Validation of several jobs before any of them runs (\<open>src/batch.rs\<close>): jobs, the catalog, the batch
  whose remote roots do not overlap, and the check of all planned deletions. A parsed URL is its
  parts and its text, as the \<open>url\<close> crate gives them.
\<close>

section \<open>Errors\<close>

datatype batch_error =
    EmptyBatch
  | EmptySelection
  | InvalidJobName string string
  | InvalidUsername string string
  | InvalidEndpoint string string
  | InvalidRemote string string string
  | DuplicateJobName string
  | DuplicateSelection string
  | UnknownSelection string
  | OverlappingRemoteRoots string string string string string
  | DuplicateDeletionPlan string
  | UnknownDeletionPlan string
  | MissingDeletionPlan string
  | DeletionDisabled string nat
  | JobDeletionLimit string nat nat
  | AggregateDeletionLimit nat nat
  | DeletionCountOverflow

type_synonym 'a batch_res = "batch_error + 'a"

section \<open>Jobs\<close>

record url =
  url_scheme :: string
  url_host :: "string option"
  url_username :: string
  url_password :: "string option"
  url_query :: "string option"
  url_fragment :: "string option"
  url_text :: string

record batch_job =
  bj_name :: string
  bj_endpoint :: string
  bj_username :: string
  bj_remote :: remote_root
  bj_delete :: bool
  bj_max_delete :: nat

definition normalize_endpoint :: "string \<Rightarrow> url \<Rightarrow> string batch_res" where
  "normalize_endpoint job_name u =
     (if url_scheme u \<noteq> ''http'' \<and> url_scheme u \<noteq> ''https'' then
        Inl (InvalidEndpoint job_name ''the endpoint scheme must be HTTP or HTTPS'')
      else if url_host u = None then
        Inl (InvalidEndpoint job_name ''the endpoint must have a host'')
      else if url_username u \<noteq> [] \<or> url_password u \<noteq> None then
        Inl (InvalidEndpoint job_name ''the endpoint must not contain credentials'')
      else if url_query u \<noteq> None \<or> url_fragment u \<noteq> None then
        Inl (InvalidEndpoint job_name ''the endpoint must not contain a query string or fragment'')
      else Inr (if suffix [slash] (url_text u) then url_text u else url_text u @ [slash]))"

definition validate_job_name :: "string \<Rightarrow> unit batch_res" where
  "validate_job_name name =
     (if name = [] \<or> trim name \<noteq> name then
        Inl (InvalidJobName name ''the name must be non-empty and have no surrounding whitespace'')
      else if has_control name then
        Inl (InvalidJobName name ''control characters are not allowed'')
      else Inr ())"

definition validate_username :: "string \<Rightarrow> string \<Rightarrow> unit batch_res" where
  "validate_username job_name username =
     (if username = [] \<or> trim username \<noteq> username then
        Inl (InvalidUsername job_name
          ''the username must be non-empty and have no surrounding whitespace'')
      else if has_control username then
        Inl (InvalidUsername job_name ''control characters are not allowed'')
      else Inr ())"

definition job_new ::
  "string \<Rightarrow> url \<Rightarrow> string \<Rightarrow> remote_root \<Rightarrow> bool \<Rightarrow> nat \<Rightarrow> batch_job batch_res"
where
  "job_new name endpoint username remote delete max_delete =
     bind_r (validate_job_name name) (\<lambda>_.
     bind_r (validate_username name username) (\<lambda>_.
     map_r (\<lambda>text.
       \<lparr>bj_name = name, bj_endpoint = text, bj_username = username, bj_remote = remote,
        bj_delete = delete, bj_max_delete = max_delete\<rparr>)
       (normalize_endpoint name endpoint)))"

text \<open>The parser of URLs is given.\<close>

definition job_parse ::
  "text_env \<Rightarrow> (string \<Rightarrow> url option) \<Rightarrow> string \<Rightarrow> string \<Rightarrow> string \<Rightarrow> string \<Rightarrow> bool \<Rightarrow> nat
     \<Rightarrow> batch_job batch_res"
where
  "job_parse E parse_url name endpoint username remote delete max_delete =
     bind_r (validate_job_name name) (\<lambda>_.
       case parse_url (trim endpoint) of
         None \<Rightarrow> Inl (InvalidEndpoint name ''the endpoint is not a valid URL'')
       | Some u \<Rightarrow>
           (case root_parse remote of
              Inl e \<Rightarrow> Inl (InvalidRemote name remote (error_display E e))
            | Inr root \<Rightarrow> job_new name u username root delete max_delete))"

section \<open>The catalog and the batch\<close>

definition job_key :: "batch_job \<Rightarrow> string \<times> string \<times> string \<times> string" where
  "job_key j = (bj_name j, bj_endpoint j, root_str (bj_remote j), bj_username j)"

definition sort_jobs :: "batch_job list \<Rightarrow> batch_job list" where
  "sort_jobs jobs = sort_key job_key jobs"

text \<open>The first of two equal neighbours.\<close>

fun equal_neighbours :: "'a list \<Rightarrow> 'a option" where
  "equal_neighbours (x # y # zs) = (if x = y then Some x else equal_neighbours (y # zs))"
| "equal_neighbours _ = None"

definition catalog_new :: "batch_job list \<Rightarrow> batch_job list batch_res" where
  "catalog_new jobs =
     (if jobs = [] then Inl EmptyBatch
      else
        let sorted_jobs = sort_jobs jobs in
        case equal_neighbours (map bj_name sorted_jobs) of
          Some name \<Rightarrow> Inl (DuplicateJobName name)
        | None \<Rightarrow> Inr sorted_jobs)"

definition roots_overlap :: "remote_root \<Rightarrow> remote_root \<Rightarrow> bool" where
  "roots_overlap left right =
     (root_str left = root_str right
      \<or> contains_child left (root_str right) \<or> contains_child right (root_str left))"

fun first_overlap :: "batch_job list \<Rightarrow> (batch_job \<times> batch_job) option" where
  "first_overlap [] = None"
| "first_overlap (left # jobs) =
     (case find (\<lambda>right. bj_endpoint left = bj_endpoint right
              \<and> roots_overlap (bj_remote left) (bj_remote right)) jobs of
        Some right \<Rightarrow> Some (left, right)
      | None \<Rightarrow> first_overlap jobs)"

definition from_selected :: "batch_job list \<Rightarrow> batch_job list batch_res" where
  "from_selected jobs =
     (if jobs = [] then Inl EmptyBatch
      else
        let sorted_jobs = sort_jobs jobs in
        case first_overlap sorted_jobs of
          Some (left, right) \<Rightarrow>
            Inl (OverlappingRemoteRoots (bj_endpoint left) (bj_name left) (root_str (bj_remote left))
                   (bj_name right) (root_str (bj_remote right)))
        | None \<Rightarrow> Inr sorted_jobs)"

definition batch_new :: "batch_job list \<Rightarrow> batch_job list batch_res" where
  "batch_new jobs = bind_r (catalog_new jobs) from_selected"

text \<open>The search by bisection finds the one job of a name.\<close>

definition catalog_select :: "batch_job list \<Rightarrow> string list \<Rightarrow> batch_job list batch_res" where
  "catalog_select catalog names =
     (if names = [] then Inl EmptySelection
      else
        let sorted_names = sort names in
        case equal_neighbours sorted_names of
          Some name \<Rightarrow> Inl (DuplicateSelection name)
        | None \<Rightarrow>
            bind_r (collect (\<lambda>name. case find (\<lambda>j. bj_name j = name) catalog of
                 None \<Rightarrow> Inl (UnknownSelection name) | Some j \<Rightarrow> Inr j) sorted_names)
              from_selected)"

section \<open>Planned deletions\<close>

record job_preflight =
  jp_name :: string
  jp_planned :: nat
  jp_maximum :: nat

record deletion_preflight =
  dp_per_job :: "job_preflight list"
  dp_total :: nat
  dp_configured :: nat
  dp_requested :: "nat option"
  dp_effective :: nat
  dp_remaining :: nat

definition configured_deletion_limit :: "batch_job list \<Rightarrow> nat batch_res" where
  "configured_deletion_limit jobs =
     fold_r (\<lambda>tally j. case checked_add tally (bj_max_delete j) of
         None \<Rightarrow> Inl DeletionCountOverflow | Some t \<Rightarrow> Inr t) 0 (filter bj_delete jobs)"

definition preflight_job ::
  "(string \<times> nat) list \<Rightarrow> nat \<times> job_preflight list \<Rightarrow> batch_job \<Rightarrow> (nat \<times> job_preflight list) batch_res"
where
  "preflight_job planned acc j =
     (case acc of (tally, per_job) \<Rightarrow>
      case map_of planned (bj_name j) of
        None \<Rightarrow> Inl (MissingDeletionPlan (bj_name j))
      | Some count \<Rightarrow>
          if \<not> bj_delete j \<and> count \<noteq> 0 then Inl (DeletionDisabled (bj_name j) count)
          else
            let job_limit = (if bj_delete j then bj_max_delete j else 0) in
            if job_limit < count then Inl (JobDeletionLimit (bj_name j) count job_limit)
            else
              (case checked_add tally count of
                 None \<Rightarrow> Inl DeletionCountOverflow
               | Some tally' \<Rightarrow>
                   Inr (tally', per_job @ [\<lparr>jp_name = bj_name j, jp_planned = count, jp_maximum = job_limit\<rparr>])))"

definition preflight_deletions ::
  "batch_job list \<Rightarrow> (string \<times> nat) list \<Rightarrow> nat option \<Rightarrow> deletion_preflight batch_res"
where
  "preflight_deletions jobs planned aggregate =
     (let planned = sort_key fst planned in
      case equal_neighbours (map fst planned) of
        Some name \<Rightarrow> Inl (DuplicateDeletionPlan name)
      | None \<Rightarrow>
          (case find (\<lambda>(name, _). name \<notin> bj_name ` set jobs) planned of
             Some (name, _) \<Rightarrow> Inl (UnknownDeletionPlan name)
           | None \<Rightarrow>
               bind_r (configured_deletion_limit jobs) (\<lambda>configured.
               bind_r (fold_r (preflight_job planned) (0, []) jobs) (\<lambda>(tally, per_job).
                 case aggregate of
                   Some maximum \<Rightarrow>
                     if maximum < tally then Inl (AggregateDeletionLimit tally maximum)
                     else Inr \<lparr>dp_per_job = per_job, dp_total = tally, dp_configured = configured,
                               dp_requested = aggregate, dp_effective = min maximum configured,
                               dp_remaining = min maximum configured - tally\<rparr>
                 | None \<Rightarrow>
                     Inr \<lparr>dp_per_job = per_job, dp_total = tally, dp_configured = configured,
                          dp_requested = aggregate, dp_effective = configured,
                          dp_remaining = configured - tally\<rparr>))))"

end
