(* ===== verification/BatchFacts.thy ===== *)
theory BatchFacts
  imports Batch "HOL-Library.Multiset"
begin

text \<open>
  What the validation of a batch shows: two jobs of a batch never share a path of one NAS, the order
  in which jobs are given is irrelevant, and planned deletions pass exactly when each job and the sum
  stay within their limits.
\<close>

section \<open>Sorted names\<close>

lemma equal_neighbours_None: "sorted xs \<Longrightarrow> equal_neighbours xs = None \<longleftrightarrow> distinct xs"
  by (induction xs rule: equal_neighbours.induct) auto

lemma sorted_names: "sorted (map bj_name (sort_jobs jobs))"
proof -
  have "sorted (map job_key (sort_jobs jobs))"
    by (simp add: sort_jobs_def)
  then show ?thesis
    unfolding sorted_map by (rule sorted_wrt_mono_rel [rotated]) (auto simp: job_key_def)
qed

lemma mset_sort_jobs [simp]: "mset (sort_jobs jobs) = mset jobs"
  and set_sort_jobs [simp]: "set (sort_jobs jobs) = set jobs"
  by (simp_all add: sort_jobs_def)

lemma distinct_sort_jobs: "distinct (map bj_name (sort_jobs jobs)) \<longleftrightarrow> distinct (map bj_name jobs)"
  by (metis mset_map mset_sort_jobs mset_eq_imp_distinct_iff)

lemma sort_jobs_idem: "sort_jobs (sort_jobs jobs) = sort_jobs jobs"
  by (simp add: sort_jobs_def sort_key_id_if_sorted)

lemma catalog_new_Inr:
  "catalog_new jobs = Inr c \<longleftrightarrow> jobs \<noteq> [] \<and> distinct (map bj_name jobs) \<and> c = sort_jobs jobs"
  using equal_neighbours_None [OF sorted_names [of jobs]] distinct_sort_jobs [of jobs]
  by (auto simp: catalog_new_def split: option.split)

section \<open>Overlapping roots\<close>

lemma roots_overlap_iff:
  "roots_overlap l r \<longleftrightarrow> (\<exists>p. at_or_beneath (root_str l) p \<and> at_or_beneath (root_str r) p)"
proof
  assume "roots_overlap l r"
  then consider "root_str l = root_str r" | "beneath (root_str l) (root_str r)"
    | "beneath (root_str r) (root_str l)"
    by (auto simp: roots_overlap_def contains_child_def beneath_prefix)
  then show "\<exists>p. at_or_beneath (root_str l) p \<and> at_or_beneath (root_str r) p"
    by cases (auto simp: at_or_beneath_def)
next
  assume "\<exists>p. at_or_beneath (root_str l) p \<and> at_or_beneath (root_str r) p"
  then obtain p where "at_or_beneath (root_str l) p" "at_or_beneath (root_str r) p" by blast
  then show "roots_overlap l r"
    using beneath_linear [of "root_str l" p "root_str r"]
    by (auto simp: roots_overlap_def contains_child_def beneath_prefix [symmetric] at_or_beneath_def)
qed

definition shares_path :: "batch_job \<Rightarrow> batch_job \<Rightarrow> bool" where
  "shares_path j k =
     (bj_endpoint j = bj_endpoint k
      \<and> (\<exists>p. at_or_beneath (root_str (bj_remote j)) p \<and> at_or_beneath (root_str (bj_remote k)) p))"

lemma shares_path_sym: "shares_path j k \<Longrightarrow> shares_path k j"
  by (auto simp: shares_path_def)

lemma first_overlap_None:
  "first_overlap jobs = None \<longleftrightarrow> sorted_wrt (\<lambda>j k. \<not> shares_path j k) jobs"
proof (induction jobs)
  case (Cons j jobs)
  have P: "(bj_endpoint j = bj_endpoint k \<and> roots_overlap (bj_remote j) (bj_remote k)) = shares_path j k" for k
    by (simp add: shares_path_def roots_overlap_iff)
  show ?case
  proof (cases "find (shares_path j) jobs")
    case None
    then have "\<forall>k \<in> set jobs. \<not> shares_path j k"
      by (auto simp: find_None_iff)
    with None Cons show ?thesis by (simp add: P)
  next
    case (Some k)
    then have "k \<in> set jobs" "shares_path j k"
      by (auto simp: find_Some_iff)
    with Some show ?thesis by (auto simp: P)
  qed
qed simp

lemma pairwise_jobs:
  "distinct jobs \<Longrightarrow> sorted_wrt (\<lambda>j k. \<not> shares_path j k) jobs
     \<longleftrightarrow> (\<forall>j \<in> set jobs. \<forall>k \<in> set jobs. j \<noteq> k \<longrightarrow> \<not> shares_path j k)"
  by (induction jobs) (auto dest: shares_path_sym)

lemma from_selected_Inr:
  "distinct jobs \<Longrightarrow> from_selected jobs = Inr b \<longleftrightarrow>
     jobs \<noteq> [] \<and> b = sort_jobs jobs
     \<and> (\<forall>j \<in> set jobs. \<forall>k \<in> set jobs. j \<noteq> k \<longrightarrow> \<not> shares_path j k)"
  using pairwise_jobs [of "sort_jobs jobs"] first_overlap_None [of "sort_jobs jobs"]
    mset_eq_imp_distinct_iff [OF mset_sort_jobs [of jobs]]
  by (auto simp: from_selected_def split: option.split)

text \<open>
  C32. A collection of jobs becomes a batch exactly when it is not empty, no name is used twice and no
  two of its jobs could touch a common path of one endpoint, whatever their accounts; the batch then
  holds all of them in the order of their names.
\<close>

theorem batch_accepts_disjoint_jobs:
  "batch_new jobs = Inr batch \<longleftrightarrow>
     jobs \<noteq> [] \<and> distinct (map bj_name jobs) \<and> batch = sort_jobs jobs
     \<and> (\<forall>j \<in> set jobs. \<forall>k \<in> set jobs. j \<noteq> k \<longrightarrow> \<not> shares_path j k)"
proof (cases "jobs \<noteq> [] \<and> distinct (map bj_name jobs)")
  case True
  then have c: "catalog_new jobs = Inr (sort_jobs jobs)"
    by (simp add: catalog_new_Inr)
  have "distinct (sort_jobs jobs)"
    using True by (metis distinct_map distinct_sort_jobs)
  from from_selected_Inr [OF this, of batch] True c show ?thesis
    by (auto simp: batch_new_def sort_jobs_idem simp flip: set_empty)
next
  case False
  then have "isl (catalog_new jobs)"
    using catalog_new_Inr [of jobs] by (cases "catalog_new jobs") auto
  with False show ?thesis
    by (cases "catalog_new jobs") (auto simp: batch_new_def)
qed

theorem batch_accepts_disjoint_jobs_witness:
  "\<not> isl (batch_new [\<lparr>bj_name = ''b'', bj_endpoint = ''e'', bj_username = ''u'', bj_remote = RemoteRoot ''/s/d'',
      bj_delete = True, bj_max_delete = 3\<rparr>, \<lparr>bj_name = ''a'', bj_endpoint = ''e'', bj_username = ''v'',
      bj_remote = RemoteRoot ''/s/d2'', bj_delete = False, bj_max_delete = 0\<rparr>])"
  (is "\<not> isl (batch_new ?jobs)")
proof -
  have "batch_new ?jobs = Inr (sort_jobs ?jobs)"
    by (subst batch_accepts_disjoint_jobs)
      (auto simp: shares_path_def simp flip: roots_overlap_iff, auto simp: roots_overlap_def contains_child_def slash_def)
  then show ?thesis by simp
qed

section \<open>The order of the jobs\<close>

text \<open>
  The batch, or the refusal, does not depend on the order in which the jobs are given.
\<close>

theorem batch_order_irrelevant:
  assumes "mset jobs = mset jobs'"
  shows "batch_new jobs = batch_new jobs'"
proof -
  have names: "map bj_name (sort_jobs jobs) = map bj_name (sort_jobs jobs')"
    using properties_for_sort [of "map bj_name (sort_jobs jobs)" "map bj_name jobs"]
      properties_for_sort [of "map bj_name (sort_jobs jobs')" "map bj_name jobs"]
    by (simp add: sorted_names assms)
  have catalog: "catalog_new jobs = catalog_new jobs'"
  proof (cases "distinct (map bj_name jobs)")
    case True
    then have "inj_on job_key (set jobs)"
      by (auto simp: inj_on_def distinct_map job_key_def)
    then have "sort_jobs jobs = sort_jobs jobs'"
      unfolding sort_jobs_def by (intro sort_key_inj_key_eq) (simp_all add: assms)
    moreover have "jobs = [] \<longleftrightarrow> jobs' = []"
      using assms by (metis mset_zero_iff)
    ultimately show ?thesis
      by (simp add: catalog_new_def)
  next
    case False
    then have nonempty: "jobs \<noteq> []" "jobs' \<noteq> []"
      using assms by auto
    obtain n where n: "equal_neighbours (map bj_name (sort_jobs jobs)) = Some n"
      using False equal_neighbours_None [OF sorted_names [of jobs]] distinct_sort_jobs [of jobs] by blast
    then have "equal_neighbours (map bj_name (sort_jobs jobs')) = Some n"
      by (simp only: names)
    with n nonempty show ?thesis
      by (simp add: catalog_new_def)
  qed
  then show ?thesis
    by (simp add: batch_new_def)
qed

theorem batch_order_irrelevant_witness:
  "batch_new [\<lparr>bj_name = ''b'', bj_endpoint = ''e'', bj_username = ''u'', bj_remote = RemoteRoot ''/s/d'',
      bj_delete = True, bj_max_delete = 3\<rparr>, \<lparr>bj_name = ''a'', bj_endpoint = ''e'', bj_username = ''v'',
      bj_remote = RemoteRoot ''/s/d/f'', bj_delete = False, bj_max_delete = 0\<rparr>]
   = batch_new [\<lparr>bj_name = ''a'', bj_endpoint = ''e'', bj_username = ''v'', bj_remote = RemoteRoot ''/s/d/f'',
      bj_delete = False, bj_max_delete = 0\<rparr>, \<lparr>bj_name = ''b'', bj_endpoint = ''e'', bj_username = ''u'',
      bj_remote = RemoteRoot ''/s/d'', bj_delete = True, bj_max_delete = 3\<rparr>]"
  by (rule batch_order_irrelevant) simp

section \<open>Planned deletions\<close>

definition allowed_deletions :: "batch_job \<Rightarrow> nat" where
  "allowed_deletions j = (if bj_delete j then bj_max_delete j else 0)"

definition planned_for :: "(string \<times> nat) list \<Rightarrow> batch_job \<Rightarrow> nat" where
  "planned_for planned j = the (map_of planned (bj_name j))"

definition within_limits :: "(string \<times> nat) list \<Rightarrow> batch_job \<Rightarrow> bool" where
  "within_limits planned j = (\<exists>c. map_of planned (bj_name j) = Some c \<and> c \<le> allowed_deletions j)"

lemma checked_sum:
  "fold_r (\<lambda>acc j. case checked_add acc (f j) of None \<Rightarrow> Inl e | Some t \<Rightarrow> Inr t) n xs = Inr c \<longleftrightarrow>
     n + sum_list (map f xs) \<le> usize_max \<and> c = n + sum_list (map f xs)"
  if "n \<le> usize_max"
  using that
proof (induction xs arbitrary: n)
  case (Cons x xs)
  show ?case
  proof (cases "n + f x \<le> usize_max")
    case True
    with Cons.IH [OF True] show ?thesis
      by (simp add: checked_add_def add.assoc)
  next
    case False
    then show ?thesis by (simp add: checked_add_def)
  qed
qed auto

lemma sum_allowed: "sum_list (map bj_max_delete (filter bj_delete jobs)) = sum_list (map allowed_deletions jobs)"
  by (induction jobs) (auto simp: allowed_deletions_def)

lemma configured_limit_Inr:
  "configured_deletion_limit jobs = Inr c \<longleftrightarrow>
     sum_list (map allowed_deletions jobs) \<le> usize_max \<and> c = sum_list (map allowed_deletions jobs)"
  by (simp add: configured_deletion_limit_def checked_sum sum_allowed)

lemma within_planned: "within_limits planned j \<Longrightarrow> planned_for planned j \<le> allowed_deletions j"
  by (auto simp: within_limits_def planned_for_def)

lemma sum_planned:
  "\<forall>j \<in> set jobs. within_limits planned j \<Longrightarrow>
     sum_list (map (planned_for planned) jobs) \<le> sum_list (map allowed_deletions jobs)"
  by (intro sum_list_mono) (auto intro: within_planned)

definition job_row :: "(string \<times> nat) list \<Rightarrow> batch_job \<Rightarrow> job_preflight" where
  "job_row planned j =
     \<lparr>jp_name = bj_name j, jp_planned = planned_for planned j, jp_maximum = allowed_deletions j\<rparr>"

lemma preflight_job_Inr:
  "preflight_job planned (n, rows) j = Inr acc \<longleftrightarrow>
     within_limits planned j \<and> n + planned_for planned j \<le> usize_max
     \<and> acc = (n + planned_for planned j, rows @ [job_row planned j])"
  by (auto simp: preflight_job_def within_limits_def planned_for_def allowed_deletions_def job_row_def
      checked_add_def Let_def split: option.splits if_splits)

lemma preflight_jobs_Inr:
  "n \<le> usize_max \<Longrightarrow> fold_r (preflight_job planned) (n, rows) jobs = Inr acc \<longleftrightarrow>
     (\<forall>j \<in> set jobs. within_limits planned j)
     \<and> n + sum_list (map (planned_for planned) jobs) \<le> usize_max
     \<and> acc = (n + sum_list (map (planned_for planned) jobs), rows @ map (job_row planned) jobs)"
proof (induction jobs arbitrary: n rows)
  case (Cons j jobs)
  show ?case
  proof (cases "within_limits planned j \<and> n + planned_for planned j \<le> usize_max")
    case True
    then have "preflight_job planned (n, rows) j
        = Inr (n + planned_for planned j, rows @ [job_row planned j])"
      by (simp add: preflight_job_Inr)
    with True Cons.IH [of "n + planned_for planned j"] show ?thesis
      by (simp add: add.assoc)
  next
    case False
    then have "isl (preflight_job planned (n, rows) j)"
      using preflight_job_Inr [of planned n rows j] by (cases "preflight_job planned (n, rows) j") auto
    with False show ?thesis
      by (cases "preflight_job planned (n, rows) j") auto
  qed
qed auto

lemma map_of_sort_key: "distinct (map fst kvs) \<Longrightarrow> map_of (sort_key fst kvs) = map_of kvs"
  by (rule map_of_inject_set [THEN iffD2]) (simp_all add: distinct_map inj_on_def)

text \<open>
  The planned deletions of a batch pass exactly when every job has one plan and no other is
  given, every job stays within its own limit (none at all without deletion), the limits can be
  added, and the sum stays within the limit on the whole; what is left over is then exact.
\<close>

theorem preflight_is_exact:
  "preflight_deletions jobs planned aggregate = Inr r \<longleftrightarrow>
     distinct (map fst planned) \<and> fst ` set planned \<subseteq> bj_name ` set jobs
     \<and> (\<forall>j \<in> set jobs. within_limits planned j)
     \<and> sum_list (map allowed_deletions jobs) \<le> usize_max
     \<and> dp_per_job r = map (job_row planned) jobs
     \<and> dp_total r = sum_list (map (planned_for planned) jobs)
     \<and> dp_configured r = sum_list (map allowed_deletions jobs) \<and> dp_requested r = aggregate
     \<and> dp_effective r = (case aggregate of None \<Rightarrow> dp_configured r | Some maximum \<Rightarrow> min maximum (dp_configured r))
     \<and> dp_total r + dp_remaining r = dp_effective r"
proof -
  let ?sorted = "sort_key fst planned"
  have names: "equal_neighbours (map fst ?sorted) = None \<longleftrightarrow> distinct (map fst planned)"
    by (simp add: equal_neighbours_None distinct_map inj_on_def distinct_sort)
  have unknown: "find (\<lambda>(name, _). name \<notin> bj_name ` set jobs) ?sorted = None
      \<longleftrightarrow> fst ` set planned \<subseteq> bj_name ` set jobs"
    by (auto simp: find_None_iff)
  show ?thesis
  proof (cases "distinct (map fst planned) \<and> fst ` set planned \<subseteq> bj_name ` set jobs")
    case False
    with names unknown show ?thesis
      by (auto simp: preflight_deletions_def Let_def split: option.split)
  next
    case True
    then have m: "map_of ?sorted = map_of planned"
      by (simp add: map_of_sort_key)
    have same: "within_limits ?sorted = within_limits planned" "planned_for ?sorted = planned_for planned"
      "job_row ?sorted = job_row planned"
      by (simp_all add: fun_eq_iff within_limits_def planned_for_def job_row_def m)
    have "\<forall>j \<in> set jobs. within_limits planned j \<Longrightarrow> sum_list (map allowed_deletions jobs) \<le> usize_max \<Longrightarrow>
        sum_list (map (planned_for planned) jobs) \<le> usize_max"
      using sum_planned [of jobs planned] by linarith
    with True names unknown show ?thesis
      using sum_planned [of jobs planned]
      by (cases r; cases aggregate)
        (auto simp: preflight_deletions_def configured_limit_Inr preflight_jobs_Inr same
          split: if_splits)
  qed
qed

theorem preflight_is_exact_witness:
  "preflight_deletions [\<lparr>bj_name = ''a'', bj_endpoint = ''e'', bj_username = ''u'', bj_remote = RemoteRoot ''/s/d'',
      bj_delete = True, bj_max_delete = 3\<rparr>] [(''a'', 2)] (Some 5)
   = Inr \<lparr>dp_per_job = [\<lparr>jp_name = ''a'', jp_planned = 2, jp_maximum = 3\<rparr>], dp_total = 2, dp_configured = 3,
          dp_requested = Some 5, dp_effective = 3, dp_remaining = 1\<rparr>"
  by (subst preflight_is_exact)
    (simp add: within_limits_def allowed_deletions_def job_row_def planned_for_def usize_max_def)

end
