(* ===== verification/StatusCache.thy ===== *)
theory StatusCache
  imports PlanTypes ErrorText Numbers
begin

text \<open>
  The digest cache of the status query (\<open>src/status_cache.rs\<close>): when stored evidence is served, the
  canary, and the merge that rewrites the file. What \<open>serde_json\<close> makes of a line is given: a file
  is its header and its lines as parsed, or as failed to parse. Times are \<open>i64\<close> seconds.
\<close>

section \<open>Conditions\<close>

record cache_issue =
  ci_code :: string
  ci_severity :: string
  ci_path :: string
  ci_cause :: string

definition issue_warning :: "string \<Rightarrow> string \<Rightarrow> string \<Rightarrow> cache_issue" where
  "issue_warning code path cause =
     \<lparr>ci_code = code, ci_severity = ''warning'', ci_path = path, ci_cause = cause\<rparr>"

definition issue_info :: "string \<Rightarrow> string \<Rightarrow> string \<Rightarrow> cache_issue" where
  "issue_info code path cause =
     \<lparr>ci_code = code, ci_severity = ''info'', ci_path = path, ci_cause = cause\<rparr>"

definition note_issue :: "cache_issue \<Rightarrow> cache_issue list \<Rightarrow> cache_issue list" where
  "note_issue issue issues =
     (if list_ex (\<lambda>known. ci_code known = ci_code issue \<and> ci_path known = ci_path issue) issues
      then issues else issues @ [issue])"

section \<open>Records and files\<close>

record cache_options =
  co_directory :: string
  co_profile :: string
  co_source :: string
  co_remote :: string
  co_compare :: string
  co_refresh :: bool
  co_max_age :: int
  co_canary :: nat

record cache_record =
  cr_p :: string
  cr_s :: u64
  cr_m :: int
  cr_n :: string
  cr_lmd5 :: string
  cr_rm :: int
  cr_rmd5 :: string
  cr_t :: int

record cache_header =
  hd_schema :: string
  hd_strength :: string
  hd_binary :: string
  hd_platform :: string
  hd_profile :: string
  hd_source :: string
  hd_remote :: string
  hd_compare :: string
  hd_generated_at :: int
  hd_entries :: nat
  hd_canary_at :: int

datatype header_line = NoHeader | HeaderUnread string | HeaderInvalid string | HeaderRead cache_header

datatype cache_line = LineUnread string | LineInvalid string | LineRead cache_record | LineEnd

record cache_file =
  cf_header :: header_line
  cf_lines :: "cache_line list"

record cache_meta =
  cm_is_file :: bool
  cm_len :: nat
  cm_nlink :: nat
  cm_mode :: u32

text \<open>What the file system answers about the cache file.\<close>

record cache_disk =
  cd_meta :: "io_error + cache_meta"
  cd_open :: "io_error + cache_file"

text \<open>The build the code belongs to.\<close>

record cache_build =
  cb_version :: string
  cb_platform :: string

record status_cache =
  sc_options :: cache_options
  sc_path :: string
  sc_now :: int
  sc_canary_at :: int
  sc_issues :: "cache_issue list"

definition i64_clamp :: "int \<Rightarrow> int" where
  "i64_clamp x = max i64_min (min i64_max x)"

definition i64_sat_sub :: "int \<Rightarrow> int \<Rightarrow> int" where
  "i64_sat_sub a b = i64_clamp (a - b)"

definition i64_sat_mul :: "int \<Rightarrow> int \<Rightarrow> int" where
  "i64_sat_mul a b = i64_clamp (a * b)"

definition cache_schema :: string where
  "cache_schema = ''sdsync.status-cache.v1''"

definition digest_strength :: string where
  "digest_strength = ''md5-only''"

definition entry_limit :: nat where
  "entry_limit = 20000"

definition file_limit_bytes :: nat where
  "file_limit_bytes = 64 * 1024 * 1024"

definition canary_interval :: int where
  "canary_interval = 24 * 60 * 60"

definition racy_window :: int where
  "racy_window = 1"

definition encode_identity :: "file_identity \<Rightarrow> string" where
  "encode_identity i = show_nat (unat (fi_device i)) @ CHR '':'' # show_nat (unat (fi_inode i))"

definition decode_identity :: "string \<Rightarrow> file_identity" where
  "decode_identity value =
     (let device = takeWhile (\<lambda>c. c \<noteq> CHR '':'') value; rest = dropWhile (\<lambda>c. c \<noteq> CHR '':'') value in
      case parse_u64 device of
        None \<Rightarrow> default_identity
      | Some d \<Rightarrow>
          (case rest of
             [] \<Rightarrow> default_identity
           | _ # inode \<Rightarrow>
               (case parse_u64 inode of
                  None \<Rightarrow> default_identity
                | Some i \<Rightarrow> \<lparr>fi_device = of_nat d, fi_inode = of_nat i\<rparr>)))"

definition parse_md5 :: "string \<Rightarrow> u8 list option" where
  "parse_md5 value = (if length value \<noteq> 32 then None else hex_bytes value)"

definition canary_stride :: "nat \<Rightarrow> nat \<Rightarrow> nat" where
  "canary_stride entries canary =
     (if canary = 0 then 0
      else let n = max entries 1 in max (n div canary + (if n mod canary = 0 then 0 else 1)) 1)"

section \<open>Opening the file\<close>

definition open_validated :: "string \<Rightarrow> cache_disk \<Rightarrow> cache_issue + cache_file option" where
  "open_validated path disk =
     (let unsafe_file = issue_warning ''cache-file-unsafe'' path;
          unreadable = (\<lambda>e. issue_warning ''cache-file-unreadable'' path (io_text e)) in
      case cd_meta disk of
        Inl e \<Rightarrow> if io_kind_of e = NotFound then Inr None else Inl (unreadable e)
      | Inr meta \<Rightarrow>
          if \<not> cm_is_file meta then
            Inl (unsafe_file ''not a regular file (a link, directory or device)'')
          else if file_limit_bytes < cm_len meta then
            Inl (unsafe_file (show_nat (cm_len meta) @ '' bytes exceeds the ''
              @ show_nat file_limit_bytes @ ''-byte ceiling''))
          else if cm_nlink meta \<noteq> 1 then Inl (unsafe_file ''has more than one hard link'')
          else if and (cm_mode meta) 63 \<noteq> 0 then
            Inl (unsafe_file ''is readable or writable by group or other'')
          else
            (case cd_open disk of
               Inl e \<Rightarrow> Inl (unreadable e)
             | Inr file \<Rightarrow> Inr (Some file)))"

definition read_header :: "header_line \<Rightarrow> string + cache_header" where
  "read_header h =
     (case h of
        NoHeader \<Rightarrow> Inl ''file is empty''
      | HeaderUnread e \<Rightarrow> Inl (''header could not be read: '' @ e)
      | HeaderInvalid e \<Rightarrow> Inl (''header is not valid: '' @ e)
      | HeaderRead header \<Rightarrow> Inr header)"

definition header_mismatch :: "cache_build \<Rightarrow> cache_options \<Rightarrow> int \<Rightarrow> cache_header \<Rightarrow> string option" where
  "header_mismatch B opts now h =
     (if hd_schema h \<noteq> cache_schema then Some ''schema''
      else if hd_strength h \<noteq> digest_strength then Some ''digest strength''
      else if hd_binary h \<noteq> cb_version B then Some ''package version''
      else if hd_platform h \<noteq> cb_platform B then Some ''platform''
      else if hd_profile h \<noteq> co_profile opts then Some ''profile''
      else if hd_source h \<noteq> co_source opts then Some ''source''
      else if hd_remote h \<noteq> co_remote opts then Some ''destination''
      else if hd_compare h \<noteq> co_compare opts then Some ''compare mode''
      else if now < hd_generated_at h then Some ''write time (in the future)''
      else None)"

definition header_matches :: "cache_build \<Rightarrow> cache_options \<Rightarrow> int \<Rightarrow> cache_header \<Rightarrow> string + unit" where
  "header_matches B opts now h =
     (case header_mismatch B opts now h of
        None \<Rightarrow> Inr ()
      | Some mismatch \<Rightarrow>
          Inl (''written for a different '' @ mismatch @ ''; recomputed live and rewritten''))"

section \<open>Serving stored evidence\<close>

record canary_probe =
  pb_relative :: string
  pb_local :: "u8 list"
  pb_remote :: "u8 list"

record served =
  sv_supplied :: nat
  sv_probes :: "canary_probe list"
  sv_oldest :: "int option"

definition served_none :: served where
  "served_none = \<lparr>sv_supplied = 0, sv_probes = [], sv_oldest = None\<rparr>"

record reading =
  rd_served :: served
  rd_local :: local_inventory
  rd_remote :: remote_inventory
  rd_previous :: "string option"
  rd_eligible :: nat

text \<open>How one file is read: the age limit, and which eligible records are withheld.\<close>

record read_plan =
  rp_expiry :: int
  rp_generated_at :: int
  rp_stride :: nat
  rp_offset :: nat

definition read_plan_of :: "cache_options \<Rightarrow> int \<Rightarrow> cache_header \<Rightarrow> bool \<times> read_plan" where
  "read_plan_of opts now h =
     (let audit_due = (canary_interval \<le> i64_sat_sub now (hd_canary_at h));
          stride = (if audit_due then canary_stride (hd_entries h) (co_canary opts) else 0) in
      (audit_due,
       \<lparr>rp_expiry = i64_sat_sub now (co_max_age opts), rp_generated_at = hd_generated_at h,
        rp_stride = stride,
        rp_offset = (if stride = 0 then 0 else nat (hd_generated_at h mod int stride))\<rparr>))"

definition out_of_order :: "string option \<Rightarrow> string \<Rightarrow> bool" where
  "out_of_order previous p = (case previous of None \<Rightarrow> False | Some before \<Rightarrow> p \<le> before)"

definition racy_floor :: "read_plan \<Rightarrow> cache_record \<Rightarrow> int" where
  "racy_floor R r = i64_sat_mul (i64_sat_sub (min (cr_t r) (rp_generated_at R)) racy_window) 1000"

text \<open>Whether the live entries are the ones the record was observed under.\<close>

definition local_agrees :: "cache_record \<Rightarrow> local_entry \<Rightarrow> bool" where
  "local_agrees r e =
     (l_kind e = File \<and> l_size e = cr_s r \<and> l_mtime_ms e = cr_m r
      \<and> encode_identity (l_identity e) = cr_n r)"

definition remote_agrees :: "cache_record \<Rightarrow> remote_entry \<Rightarrow> bool" where
  "remote_agrees r e = (r_kind e = File \<and> r_size e = cr_s r \<and> r_mtime e = cr_rm r)"

definition fill_local :: "string \<Rightarrow> u8 list \<Rightarrow> local_inventory \<Rightarrow> local_inventory" where
  "fill_local p md5 inventory =
     inventory\<lparr>li_entries := map (\<lambda>(k, e). (k, if k = p then e\<lparr>l_md5 := Some (from_bytes md5)\<rparr> else e))
       (li_entries inventory)\<rparr>"

definition fill_remote :: "string \<Rightarrow> u8 list \<Rightarrow> remote_inventory \<Rightarrow> remote_inventory" where
  "fill_remote p md5 inventory =
     inventory\<lparr>ri_entries := map (\<lambda>(k, e). (k, if k = p then e\<lparr>r_md5 := Some (from_bytes md5)\<rparr> else e))
       (ri_entries inventory)\<rparr>"

text \<open>An eligible record: withheld for the canary, or its digests filled in.\<close>

definition take_evidence :: "cache_options \<Rightarrow> read_plan \<Rightarrow> cache_record \<Rightarrow> u8 list \<Rightarrow> u8 list \<Rightarrow> reading \<Rightarrow> reading" where
  "take_evidence opts R r lmd5 rmd5 rd =
     (let sv = rd_served rd in
      if 0 < rp_stride R \<and> rd_eligible rd mod rp_stride R = rp_offset R
          \<and> length (sv_probes sv) < co_canary opts then
        rd\<lparr>rd_served := sv\<lparr>sv_probes := sv_probes sv
              @ [\<lparr>pb_relative = cr_p r, pb_local = lmd5, pb_remote = rmd5\<rparr>]\<rparr>,
           rd_eligible := rd_eligible rd + 1\<rparr>
      else
        rd\<lparr>rd_local := fill_local (cr_p r) lmd5 (rd_local rd),
           rd_remote := fill_remote (cr_p r) rmd5 (rd_remote rd),
           rd_served := sv\<lparr>sv_oldest := Some (case sv_oldest sv of
                              None \<Rightarrow> cr_t r | Some oldest \<Rightarrow> min oldest (cr_t r)),
                            sv_supplied := sv_supplied sv + 1\<rparr>,
           rd_eligible := rd_eligible rd + 1\<rparr>)"

definition read_record ::
  "text_env \<Rightarrow> status_cache \<Rightarrow> read_plan \<Rightarrow> string set \<Rightarrow> reading \<Rightarrow> cache_record \<Rightarrow> cache_issue + reading"
where
  "read_record E C R comparison rd r =
     (if out_of_order (rd_previous rd) (cr_p r) then
        Inl (issue_warning ''cache-file-corrupt'' (sc_path C)
          (''record '' @ debug_str E (cr_p r) @ '' is out of order''))
      else
        let rd = rd\<lparr>rd_previous := Some (cr_p r)\<rparr> in
        if sc_now C < cr_t r \<or> cr_t r < rp_expiry R then Inr rd
        else if racy_floor R r \<le> cr_m r then Inr rd
        else
          (case (parse_md5 (cr_lmd5 r), parse_md5 (cr_rmd5 r)) of
             (Some lmd5, Some rmd5) \<Rightarrow>
               if cr_p r \<notin> comparison then Inr rd
               else
                 (case om_get (li_entries (rd_local rd)) (cr_p r) of
                    None \<Rightarrow> Inr rd
                  | Some le \<Rightarrow>
                      if \<not> local_agrees r le then Inr rd
                      else
                        (case om_get (ri_entries (rd_remote rd)) (cr_p r) of
                           None \<Rightarrow> Inr rd
                         | Some re \<Rightarrow>
                             if \<not> remote_agrees r re then Inr rd
                             else Inr (take_evidence (sc_options C) R r lmd5 rmd5 rd)))
           | _ \<Rightarrow> Inl (issue_warning ''cache-file-corrupt'' (sc_path C)
                    (''record '' @ debug_str E (cr_p r) @ '' carries a malformed digest''))))"

fun read_lines ::
  "text_env \<Rightarrow> status_cache \<Rightarrow> read_plan \<Rightarrow> string set \<Rightarrow> reading \<Rightarrow> cache_line list \<Rightarrow> cache_issue + reading"
where
  "read_lines E C R comparison rd [] =
     Inl (issue_warning ''cache-file-corrupt'' (sc_path C)
       ''file ends without its end marker (truncated)'')"
| "read_lines E C R comparison rd (l # ls) =
     (case l of
        LineUnread e \<Rightarrow> Inl (issue_warning ''cache-file-unreadable'' (sc_path C) e)
      | LineInvalid e \<Rightarrow>
          Inl (issue_warning ''cache-file-corrupt'' (sc_path C) (''unparseable record: '' @ e))
      | LineEnd \<Rightarrow> Inr rd
      | LineRead r \<Rightarrow>
          bind_r (read_record E C R comparison rd r) (\<lambda>rd'. read_lines E C R comparison rd' ls))"

definition clear_local :: "local_inventory \<Rightarrow> local_inventory" where
  "clear_local inventory = inventory\<lparr>li_entries := map (\<lambda>(k, e). (k, e\<lparr>l_md5 := None\<rparr>)) (li_entries inventory)\<rparr>"

definition clear_remote :: "remote_inventory \<Rightarrow> remote_inventory" where
  "clear_remote inventory = inventory\<lparr>ri_entries := map (\<lambda>(k, e). (k, e\<lparr>r_md5 := None\<rparr>)) (ri_entries inventory)\<rparr>"

type_synonym serving = "served \<times> local_inventory \<times> remote_inventory \<times> status_cache"

text \<open>
  \<open>serve\<close> and \<open>read_into\<close>: a file that is not trusted leaves the inventories without digests, an
  absent or foreign one as they were.
\<close>

definition serve ::
  "text_env \<Rightarrow> cache_build \<Rightarrow> status_cache \<Rightarrow> cache_disk \<Rightarrow> local_inventory \<Rightarrow> remote_inventory
     \<Rightarrow> string set \<Rightarrow> serving"
where
  "serve E B C disk local_inv remote comparison =
     (let untouched = (\<lambda>C. (served_none, local_inv, remote, C));
          rejected = (\<lambda>issue. (served_none, clear_local local_inv, clear_remote remote,
                        C\<lparr>sc_issues := note_issue issue (sc_issues C)\<rparr>)) in
      if co_refresh (sc_options C) \<or> comparison = {} then untouched C
      else
        (case open_validated (sc_path C) disk of
           Inl issue \<Rightarrow> untouched (C\<lparr>sc_issues := note_issue issue (sc_issues C)\<rparr>)
         | Inr None \<Rightarrow> untouched C
         | Inr (Some file) \<Rightarrow>
             (case read_header (cf_header file) of
                Inl cause \<Rightarrow> rejected (issue_warning ''cache-file-corrupt'' (sc_path C) cause)
              | Inr h \<Rightarrow>
                  (case header_matches B (sc_options C) (sc_now C) h of
                     Inl cause \<Rightarrow>
                       untouched (C\<lparr>sc_issues := note_issue
                         (issue_info ''cache-file-retired'' (sc_path C) cause) (sc_issues C)\<rparr>)
                   | Inr _ \<Rightarrow>
                       (case read_plan_of (sc_options C) (sc_now C) h of (audit_due, R) \<Rightarrow>
                        (case read_lines E C R comparison
                                \<lparr>rd_served = served_none, rd_local = local_inv, rd_remote = remote,
                                 rd_previous = None, rd_eligible = 0\<rparr> (cf_lines file) of
                           Inl issue \<Rightarrow> rejected issue
                         | Inr rd \<Rightarrow>
                             (rd_served rd, rd_local rd, rd_remote rd,
                              C\<lparr>sc_canary_at := (if audit_due then sc_now C else hd_canary_at h)\<rparr>)))))))"

section \<open>The canary\<close>

definition contradicted :: "fingerprint option \<Rightarrow> u8 list \<Rightarrow> bool" where
  "contradicted live cached = (case live of None \<Rightarrow> False | Some f \<Rightarrow> fp_md5 f \<noteq> cached)"

definition verify_canary :: "canary_probe list \<Rightarrow> local_inventory \<Rightarrow> remote_inventory \<Rightarrow> string option" where
  "verify_canary probes local_inv remote =
     map_option pb_relative (find (\<lambda>p.
       contradicted (Option.bind (om_get (li_entries local_inv) (pb_relative p)) l_md5) (pb_local p)
       \<or> contradicted (Option.bind (om_get (ri_entries remote) (pb_relative p)) r_md5) (pb_remote p)) probes)"

section \<open>Rewriting the file\<close>

record stored_entry =
  te_size :: u64
  te_mtime_ms :: int
  te_identity :: file_identity
  te_local_md5 :: "u8 list"
  te_remote_mtime :: int
  te_remote_md5 :: "u8 list"
  te_observed_at :: int

definition same_evidence :: "stored_entry \<Rightarrow> stored_entry \<Rightarrow> bool" where
  "same_evidence a b =
     (te_size a = te_size b \<and> te_mtime_ms a = te_mtime_ms b \<and> te_identity a = te_identity b
      \<and> te_local_md5 a = te_local_md5 b \<and> te_remote_mtime a = te_remote_mtime b
      \<and> te_remote_md5 a = te_remote_md5 b)"

text \<open>The agreeing pairs of this pass, in the order of their paths.\<close>

definition observation ::
  "int \<Rightarrow> local_inventory \<Rightarrow> remote_inventory \<Rightarrow> string \<Rightarrow> (string \<times> stored_entry) option"
where
  "observation now local_inv remote p =
     (case om_get (li_entries local_inv) p of
        None \<Rightarrow> None
      | Some le \<Rightarrow>
          (case om_get (ri_entries remote) p of
             None \<Rightarrow> None
           | Some re \<Rightarrow>
               if l_kind le \<noteq> File \<or> r_kind re \<noteq> File then None
               else
                 (case (l_md5 le, r_md5 re) of
                    (Some lf, Some rf) \<Rightarrow>
                      if fp_md5 lf \<noteq> fp_md5 rf \<or> l_size le \<noteq> r_size re then None
                      else Some (p, \<lparr>te_size = l_size le, te_mtime_ms = l_mtime_ms le,
                                     te_identity = l_identity le, te_local_md5 = fp_md5 lf,
                                     te_remote_mtime = r_mtime re, te_remote_md5 = fp_md5 rf,
                                     te_observed_at = now\<rparr>)
                  | _ \<Rightarrow> None)))"

definition observation_stream ::
  "int \<Rightarrow> local_inventory \<Rightarrow> remote_inventory \<Rightarrow> string set \<Rightarrow> (string \<times> stored_entry) list"
where
  "observation_stream now local_inv remote comparison =
     List.map_filter (observation now local_inv remote) (sorted_list_of_set comparison)"

text \<open>
  The stored records as \<open>fill\<close> makes them available one by one; \<open>None\<close> is the point at which the
  file turns out not to be trustworthy.
\<close>

definition stored_of :: "cache_record \<Rightarrow> u8 list \<Rightarrow> u8 list \<Rightarrow> stored_entry" where
  "stored_of r lmd5 rmd5 =
     \<lparr>te_size = cr_s r, te_mtime_ms = cr_m r, te_identity = decode_identity (cr_n r),
      te_local_md5 = lmd5, te_remote_mtime = cr_rm r, te_remote_md5 = rmd5, te_observed_at = cr_t r\<rparr>"

fun carried_records ::
  "int \<Rightarrow> int \<Rightarrow> bool \<Rightarrow> local_inventory \<Rightarrow> string option \<Rightarrow> cache_line list \<Rightarrow> (string \<times> stored_entry) option list"
where
  "carried_records now expiry scoped local_inv previous [] = []"
| "carried_records now expiry scoped local_inv previous (l # ls) =
     (case l of
        LineUnread _ \<Rightarrow> [None]
      | LineInvalid _ \<Rightarrow> [None]
      | LineEnd \<Rightarrow> []
      | LineRead r \<Rightarrow>
          if out_of_order previous (cr_p r) then [None]
          else
            let rest = carried_records now expiry scoped local_inv (Some (cr_p r)) ls in
            if now < cr_t r \<or> cr_t r < expiry then rest
            else if \<not> scoped \<and> \<not> om_has (li_entries local_inv) (cr_p r) then rest
            else
              (case (parse_md5 (cr_lmd5 r), parse_md5 (cr_rmd5 r)) of
                 (Some lmd5, Some rmd5) \<Rightarrow> Some (cr_p r, stored_of r lmd5 rmd5) # rest
               | _ \<Rightarrow> [None]))"

definition carried_open ::
  "cache_build \<Rightarrow> status_cache \<Rightarrow> cache_disk \<Rightarrow> local_inventory \<Rightarrow> bool
     \<Rightarrow> (string \<times> stored_entry) option list \<times> status_cache"
where
  "carried_open B C disk local_inv scoped =
     (case open_validated (sc_path C) disk of
        Inl issue \<Rightarrow> ([], C\<lparr>sc_issues := note_issue issue (sc_issues C)\<rparr>)
      | Inr None \<Rightarrow> ([], C)
      | Inr (Some file) \<Rightarrow>
          (case read_header (cf_header file) of
             Inl cause \<Rightarrow>
               ([], C\<lparr>sc_issues := note_issue (issue_warning ''cache-file-corrupt'' (sc_path C) cause) (sc_issues C)\<rparr>)
           | Inr h \<Rightarrow>
               (case header_matches B (sc_options C) (sc_now C) h of
                  Inl cause \<Rightarrow>
                    ([], C\<lparr>sc_issues := note_issue (issue_info ''cache-file-retired'' (sc_path C) cause) (sc_issues C)\<rparr>)
                | Inr _ \<Rightarrow>
                    (carried_records (sc_now C) (i64_sat_sub (sc_now C) (co_max_age (sc_options C))) scoped
                       local_inv None (cf_lines file), C))))"

text \<open>The two-way merge; \<open>None\<close> when the stored file is rejected on the way.\<close>

fun merge_evidence ::
  "nat \<Rightarrow> (string \<times> stored_entry) list \<Rightarrow> (string \<times> stored_entry) option list
     \<Rightarrow> (string \<times> stored_entry) list option"
where
  "merge_evidence n fresh (None # cs) = None"
| "merge_evidence n [] [] = Some []"
| "merge_evidence n ((p, e) # fs) [] =
     (if entry_limit \<le> n then Some [] else map_option ((#) (p, e)) (merge_evidence (Suc n) fs []))"
| "merge_evidence n [] (Some (q, c) # cs) =
     (if entry_limit \<le> n then merge_evidence n [] cs
      else map_option ((#) (q, c)) (merge_evidence (Suc n) [] cs))"
| "merge_evidence n ((p, e) # fs) (Some (q, c) # cs) =
     (if p = q then
        if entry_limit \<le> n then Some []
        else map_option ((#) (p, if same_evidence c e then e\<lparr>te_observed_at := te_observed_at c\<rparr> else e))
          (merge_evidence (Suc n) fs cs)
      else if p < q then
        if entry_limit \<le> n then Some []
        else map_option ((#) (p, e)) (merge_evidence (Suc n) fs (Some (q, c) # cs))
      else if entry_limit \<le> n then merge_evidence n ((p, e) # fs) cs
      else map_option ((#) (q, c)) (merge_evidence (Suc n) ((p, e) # fs) cs))"

definition record_of :: "string \<times> stored_entry \<Rightarrow> cache_record" where
  "record_of = (\<lambda>(p, e).
     \<lparr>cr_p = p, cr_s = te_size e, cr_m = te_mtime_ms e, cr_n = encode_identity (te_identity e),
      cr_lmd5 = hex_encode (te_local_md5 e), cr_rm = te_remote_mtime e,
      cr_rmd5 = hex_encode (te_remote_md5 e), cr_t = te_observed_at e\<rparr>)"

definition cache_header_of :: "cache_build \<Rightarrow> status_cache \<Rightarrow> nat \<Rightarrow> cache_header" where
  "cache_header_of B C entries =
     \<lparr>hd_schema = cache_schema, hd_strength = digest_strength, hd_binary = cb_version B,
      hd_platform = cb_platform B, hd_profile = co_profile (sc_options C),
      hd_source = co_source (sc_options C), hd_remote = co_remote (sc_options C),
      hd_compare = co_compare (sc_options C), hd_generated_at = sc_now C, hd_entries = entries,
      hd_canary_at = sc_canary_at C\<rparr>"

definition written_file :: "cache_build \<Rightarrow> status_cache \<Rightarrow> (string \<times> stored_entry) list \<Rightarrow> cache_file" where
  "written_file B C kept =
     \<lparr>cf_header = HeaderRead (cache_header_of B C (length kept)),
      cf_lines = map (\<lambda>x. LineRead (record_of x)) kept @ [LineEnd]\<rparr>"

text \<open>
  The whole of \<open>store\<close>: the result, the file now in place when it was replaced, and the cache with
  the conditions met. \<open>fault\<close> says which attempt at writing the temporary file and renaming it
  fails, how, and whether it fails before the stored file is opened.
\<close>

definition store ::
  "cache_build \<Rightarrow> (nat \<Rightarrow> (bool \<times> io_error) option) \<Rightarrow> status_cache \<Rightarrow> cache_disk \<Rightarrow> local_inventory
     \<Rightarrow> remote_inventory \<Rightarrow> string set \<Rightarrow> bool \<Rightarrow> (cache_issue + cache_file) \<times> status_cache"
where
  "store B fault C disk local_inv remote comparison scoped =
     (let fresh = observation_stream (sc_now C) local_inv remote comparison;
          failed = (\<lambda>C e. let issue = issue_warning ''cache-store-failed'' (sc_path C) (io_text e) in
                          (Inl issue, C\<lparr>sc_issues := note_issue issue (sc_issues C)\<rparr>)) in
      case carried_open B C disk local_inv scoped of (carried, C1) \<Rightarrow>
      (case fault 0 of
         Some (early, e) \<Rightarrow> failed (if early then C else C1) e
       | None \<Rightarrow>
           (case merge_evidence 0 fresh carried of
              Some kept \<Rightarrow> (Inr (written_file B C1 kept), C1)
            | None \<Rightarrow>
                let C2 = C1\<lparr>sc_issues := note_issue (issue_warning ''cache-records-rejected'' (sc_path C1)
                      ''stored records could not be carried forward; rewritten from this pass alone'')
                      (sc_issues C1)\<rparr> in
                (case fault 1 of
                   Some (_, e) \<Rightarrow> failed C2 e
                 | None \<Rightarrow> (Inr (written_file B C2 (take entry_limit fresh)), C2)))))"

end
