(* ===== verification/CacheFacts.thy ===== *)
theory CacheFacts
  imports StatusCache
begin

text \<open>
  What the digest cache may serve, what it keeps when it is rewritten, and that what a pass stored is
  served to a later one.
\<close>

section \<open>Inventories\<close>

lemma get_map_values: "om_get (map (\<lambda>(k, e). (k, f k e)) m) p = map_option (f p) (om_get m p)"
  unfolding om_get_def by (induction m) auto

lemma get_fill_local:
  "om_get (li_entries (fill_local q md5 inventory)) p =
     map_option (\<lambda>e. if p = q then e\<lparr>l_md5 := Some (from_bytes md5)\<rparr> else e) (om_get (li_entries inventory) p)"
  by (simp add: fill_local_def get_map_values)

lemma get_fill_remote:
  "om_get (ri_entries (fill_remote q md5 inventory)) p =
     map_option (\<lambda>e. if p = q then e\<lparr>r_md5 := Some (from_bytes md5)\<rparr> else e) (om_get (ri_entries inventory) p)"
  by (simp add: fill_remote_def get_map_values)

lemma get_clear:
  "om_get (li_entries (clear_local l)) p = map_option (\<lambda>e. e\<lparr>l_md5 := None\<rparr>) (om_get (li_entries l) p)"
  "om_get (ri_entries (clear_remote r)) p = map_option (\<lambda>e. e\<lparr>r_md5 := None\<rparr>) (om_get (ri_entries r) p)"
  by (simp_all add: clear_local_def clear_remote_def get_map_values)

lemma agrees_digest [simp]:
  "local_agrees r (e\<lparr>l_md5 := d\<rparr>) = local_agrees r e" "remote_agrees r (e'\<lparr>r_md5 := d\<rparr>) = remote_agrees r e'"
  by (simp_all add: local_agrees_def remote_agrees_def)

section \<open>What may be served\<close>

text \<open>A record that is current, and that the live entries of both sides still agree with.\<close>

definition current :: "status_cache \<Rightarrow> read_plan \<Rightarrow> cache_record \<Rightarrow> bool" where
  "current C R r = (rp_expiry R \<le> cr_t r \<and> cr_t r \<le> sc_now C \<and> cr_m r < racy_floor R r)"

text \<open>The lines before the end marker.\<close>

definition rows :: "cache_line list \<Rightarrow> cache_line list" where
  "rows ls = takeWhile (\<lambda>l. l \<noteq> LineEnd) ls"

lemma rows_simps [simp]:
  "rows [] = []" "rows (LineEnd # ls) = []" "l \<noteq> LineEnd \<Longrightarrow> rows (l # ls) = l # rows ls"
  by (simp_all add: rows_def)

definition live_evidence ::
  "status_cache \<Rightarrow> read_plan \<Rightarrow> string set \<Rightarrow> local_inventory \<Rightarrow> remote_inventory \<Rightarrow> cache_line list \<Rightarrow> string
     \<Rightarrow> local_entry \<Rightarrow> remote_entry \<Rightarrow> u8 list \<Rightarrow> u8 list \<Rightarrow> bool"
where
  "live_evidence C R comparison l0 r0 ls p le re lmd5 rmd5 =
     (\<exists>r. LineRead r \<in> set (rows ls) \<and> cr_p r = p \<and> p \<in> comparison \<and> current C R r
        \<and> om_get (li_entries l0) p = Some le \<and> local_agrees r le
        \<and> om_get (ri_entries r0) p = Some re \<and> remote_agrees r re
        \<and> parse_md5 (cr_lmd5 r) = Some lmd5 \<and> parse_md5 (cr_rmd5 r) = Some rmd5)"

definition filled_from ::
  "status_cache \<Rightarrow> read_plan \<Rightarrow> string set \<Rightarrow> local_inventory \<Rightarrow> remote_inventory \<Rightarrow> cache_line list
     \<Rightarrow> local_inventory \<Rightarrow> remote_inventory \<Rightarrow> bool"
where
  "filled_from C R comparison l0 r0 ls l r =
     (\<forall>p. (om_get (li_entries l) p = om_get (li_entries l0) p \<and> om_get (ri_entries r) p = om_get (ri_entries r0) p)
        \<or> (\<exists>le re lmd5 rmd5. live_evidence C R comparison l0 r0 ls p le re lmd5 rmd5
             \<and> om_get (li_entries l) p = Some (le\<lparr>l_md5 := Some (from_bytes lmd5)\<rparr>)
             \<and> om_get (ri_entries r) p = Some (re\<lparr>r_md5 := Some (from_bytes rmd5)\<rparr>)))"

lemma filled_from_start: "filled_from C R comparison l0 r0 ls l0 r0"
  by (simp add: filled_from_def)

lemma filled_from_cases:
  assumes "filled_from C R comparison l0 r0 ls l r"
    and "om_get (li_entries l) p = Some le'" and "om_get (ri_entries r) p = Some re'"
  obtains le re where "om_get (li_entries l0) p = Some le" "om_get (ri_entries r0) p = Some re"
    "\<exists>d. le' = le\<lparr>l_md5 := d\<rparr>" "\<exists>d. re' = re\<lparr>r_md5 := d\<rparr>"
proof -
  have "\<exists>d. e = e\<lparr>l_md5 := d\<rparr>" for e :: local_entry
    by (rule exI [of _ "l_md5 e"]) simp
  moreover have "\<exists>d. e = e\<lparr>r_md5 := d\<rparr>" for e :: remote_entry
    by (rule exI [of _ "r_md5 e"]) simp
  ultimately show thesis
    using assms that unfolding filled_from_def live_evidence_def by (metis option.inject)
qed

lemma read_record_filled:
  assumes "read_record E C R comparison rd r = Inr rd'" and r: "LineRead r \<in> set (rows ls)"
    and filled: "filled_from C R comparison l0 r0 ls (rd_local rd) (rd_remote rd)"
  shows "filled_from C R comparison l0 r0 ls (rd_local rd') (rd_remote rd')"
proof (cases "rd_local rd' = rd_local rd \<and> rd_remote rd' = rd_remote rd")
  case True
  with filled show ?thesis by simp
next
  case False
  then obtain lmd5 rmd5 le' re' where
    conds: "cr_p r \<in> comparison" "current C R r" "parse_md5 (cr_lmd5 r) = Some lmd5" "parse_md5 (cr_rmd5 r) = Some rmd5"
    and live: "om_get (li_entries (rd_local rd)) (cr_p r) = Some le'" "local_agrees r le'"
      "om_get (ri_entries (rd_remote rd)) (cr_p r) = Some re'" "remote_agrees r re'"
    and step: "rd_local rd' = fill_local (cr_p r) lmd5 (rd_local rd)" "rd_remote rd' = fill_remote (cr_p r) rmd5 (rd_remote rd)"
    using assms(1)
    by (auto simp: read_record_def Let_def current_def take_evidence_def split: if_splits option.splits)
  obtain le re where e: "om_get (li_entries l0) (cr_p r) = Some le" "om_get (ri_entries r0) (cr_p r) = Some re"
    "\<exists>d. le' = le\<lparr>l_md5 := d\<rparr>" "\<exists>d. re' = re\<lparr>r_md5 := d\<rparr>"
    using filled_from_cases [OF filled live(1,3)] by blast
  then have ev: "live_evidence C R comparison l0 r0 ls (cr_p r) le re lmd5 rmd5"
    using conds live r by (auto simp: live_evidence_def)
  show ?thesis
    unfolding filled_from_def step get_fill_local get_fill_remote
  proof (intro allI)
    fix p
    show "(map_option (\<lambda>e. if p = cr_p r then e\<lparr>l_md5 := Some (from_bytes lmd5)\<rparr> else e)
            (om_get (li_entries (rd_local rd)) p) = om_get (li_entries l0) p
          \<and> map_option (\<lambda>e. if p = cr_p r then e\<lparr>r_md5 := Some (from_bytes rmd5)\<rparr> else e)
            (om_get (ri_entries (rd_remote rd)) p) = om_get (ri_entries r0) p)
        \<or> (\<exists>le re lmd5' rmd5'. live_evidence C R comparison l0 r0 ls p le re lmd5' rmd5'
          \<and> map_option (\<lambda>e. if p = cr_p r then e\<lparr>l_md5 := Some (from_bytes lmd5)\<rparr> else e)
            (om_get (li_entries (rd_local rd)) p) = Some (le\<lparr>l_md5 := Some (from_bytes lmd5')\<rparr>)
          \<and> map_option (\<lambda>e. if p = cr_p r then e\<lparr>r_md5 := Some (from_bytes rmd5)\<rparr> else e)
            (om_get (ri_entries (rd_remote rd)) p) = Some (re\<lparr>r_md5 := Some (from_bytes rmd5')\<rparr>))"
    proof (cases "p = cr_p r")
      case True
      with e live ev show ?thesis
        by (intro disjI2 exI [of _ le] exI [of _ re] exI [of _ lmd5] exI [of _ rmd5]) auto
    next
      case False
      with filled show ?thesis
        by (simp add: filled_from_def option.map_ident)
    qed
  qed
qed

lemma read_lines_filled:
  assumes "read_lines E C R comparison rd ls = Inr rd'" and "set (rows ls) \<subseteq> set (rows all_lines)"
    and "filled_from C R comparison l0 r0 all_lines (rd_local rd) (rd_remote rd)"
  shows "filled_from C R comparison l0 r0 all_lines (rd_local rd') (rd_remote rd') \<and> LineEnd \<in> set ls"
  using assms
proof (induction ls arbitrary: rd)
  case (Cons l ls)
  then show ?case
    by (auto split: cache_line.splits dest: read_record_filled [where ls = all_lines])
qed simp

text \<open>No entry carries a digest before the cache is asked: it is the first to fill them.\<close>

definition undigested :: "local_inventory \<Rightarrow> remote_inventory \<Rightarrow> bool" where
  "undigested l r =
     ((\<forall>p e. om_get (li_entries l) p = Some e \<longrightarrow> l_md5 e = None)
      \<and> (\<forall>p e. om_get (ri_entries r) p = Some e \<longrightarrow> r_md5 e = None))"

lemma serve_cases:
  assumes "serve E B C disk l0 r0 comparison = (sv, l, r, C')"
  obtains "l = l0" "r = r0"
  | "l = clear_local l0" "r = clear_remote r0"
  | doc h R rd audit where
      "open_validated (sc_path C) disk = Inr (Some doc)" "cf_header doc = HeaderRead h"
      "header_mismatch B (sc_options C) (sc_now C) h = None" "\<not> co_refresh (sc_options C)"
      "read_plan_of (sc_options C) (sc_now C) h = (audit, R)"
      "read_lines E C R comparison \<lparr>rd_served = served_none, rd_local = l0, rd_remote = r0,
         rd_previous = None, rd_eligible = 0\<rparr> (cf_lines doc) = Inr rd"
      "sv = rd_served rd" "l = rd_local rd" "r = rd_remote rd"
  using assms
  by (auto simp: serve_def Let_def read_header_def header_matches_def
      split: if_splits sum.splits option.splits prod.splits header_line.splits)

text \<open>
  C33. A digest the cache fills in, on either side, is the one of a record for exactly that path in a
  complete file written by this build for this profile, source, destination and comparison; the
  record is no older than the age limit and not racy, and its size, times and identity are those the
  live entries have now. No such digest carries a full proof.
\<close>

theorem served_evidence_is_current:
  assumes served: "serve E B C disk l0 r0 comparison = (sv, l, r, C')" and blank: "undigested l0 r0"
    and filled: "om_get (li_entries l) p = Some le \<and> l_md5 le = Some fp \<or> om_get (ri_entries r) p = Some re \<and> r_md5 re = Some fp"
  shows "\<exists>doc h R audit le0 re0 lmd5 rmd5.
      open_validated (sc_path C) disk = Inr (Some doc) \<and> cf_header doc = HeaderRead h
      \<and> header_mismatch B (sc_options C) (sc_now C) h = None \<and> LineEnd \<in> set (cf_lines doc)
      \<and> read_plan_of (sc_options C) (sc_now C) h = (audit, R) \<and> \<not> co_refresh (sc_options C)
      \<and> live_evidence C R comparison l0 r0 (cf_lines doc) p le0 re0 lmd5 rmd5
      \<and> fp \<in> {from_bytes lmd5, from_bytes rmd5} \<and> \<not> has_full_proof fp"
  using served
proof (cases rule: serve_cases)
  case 1
  with filled blank show ?thesis by (auto simp: undigested_def)
next
  case 2
  with filled show ?thesis by (auto simp: get_clear)
next
  case (3 doc h R rd audit)
  let ?ls = "cf_lines doc"
  from read_lines_filled [OF 3(6) subset_refl, of l0 r0] filled_from_start
  have f: "filled_from C R comparison l0 r0 ?ls l r" and "LineEnd \<in> set ?ls"
    by (simp_all add: 3)
  moreover obtain le0 re0 lmd5 rmd5 where "live_evidence C R comparison l0 r0 ?ls p le0 re0 lmd5 rmd5"
    "fp \<in> {from_bytes lmd5, from_bytes rmd5}"
    using f [unfolded filled_from_def, rule_format, of p] filled blank
    by (auto simp: undigested_def)
  moreover from this have "\<not> has_full_proof fp"
    by (auto simp: has_full_proof_def from_bytes_def)
  ultimately show ?thesis
    using 3 by blast
qed

end
