(* ===== verification/CacheRewrite.thy ===== *)
theory CacheRewrite
  imports CacheFacts
begin

text \<open>
  The rewriting of the cache file: what is kept, under which date, and that it is served to a later
  pass.
\<close>

section \<open>Streams in ascending order\<close>

abbreviation ascending :: "(string \<times> 'a) list \<Rightarrow> bool" where
  "ascending xs \<equiv> sorted_wrt (<) (map fst xs)"

definition above :: "string option \<Rightarrow> string \<Rightarrow> bool" where
  "above previous p = (\<not> out_of_order previous p)"

lemma above_simps [simp]: "above None p" "above (Some q) p \<longleftrightarrow> q < p"
  by (auto simp: above_def out_of_order_def)

lemma above_trans: "above previous p \<Longrightarrow> p < q \<Longrightarrow> above previous q"
  by (cases previous) (auto intro: order.strict_trans)

text \<open>The stored records that reach the merge.\<close>

definition usable :: "(string \<times> stored_entry) option list \<Rightarrow> (string \<times> stored_entry) list" where
  "usable cs = List.map_filter id cs"

lemma usable_simps [simp]:
  "usable [] = []" "usable (None # cs) = usable cs" "usable (Some x # cs) = x # usable cs"
  by (simp_all add: usable_def map_filter_simps)

lemma in_usable: "x \<in> set (usable cs) \<longleftrightarrow> Some x \<in> set cs"
  by (induction cs) (auto simp: usable_def map_filter_simps split: option.splits)

lemma carried_step:
  "carried_records now expiry scoped l previous (LineRead r # ls) =
     (let rest = carried_records now expiry scoped l (Some (cr_p r)) ls in
      if \<not> above previous (cr_p r) then [None]
      else if now < cr_t r \<or> cr_t r < expiry \<or> \<not> scoped \<and> \<not> om_has (li_entries l) (cr_p r) then rest
      else
        (case (parse_md5 (cr_lmd5 r), parse_md5 (cr_rmd5 r)) of
           (Some lmd5, Some rmd5) \<Rightarrow> Some (cr_p r, stored_of r lmd5 rmd5) # rest
         | _ \<Rightarrow> [None]))"
  by (simp add: above_def Let_def)

lemma carried_cases:
  assumes "x \<in> set (usable (carried_records now expiry scoped l previous ls))"
  obtains r lmd5 rmd5 where "LineRead r \<in> set ls" "x = (cr_p r, stored_of r lmd5 rmd5)"
    "above previous (fst x)" "expiry \<le> cr_t r" "cr_t r \<le> now" "scoped \<or> om_has (li_entries l) (cr_p r)"
    "parse_md5 (cr_lmd5 r) = Some lmd5" "parse_md5 (cr_rmd5 r) = Some rmd5"
proof -
  have "\<exists>r lmd5 rmd5. LineRead r \<in> set ls \<and> x = (cr_p r, stored_of r lmd5 rmd5) \<and> above previous (fst x)
      \<and> expiry \<le> cr_t r \<and> cr_t r \<le> now \<and> (scoped \<or> om_has (li_entries l) (cr_p r))
      \<and> parse_md5 (cr_lmd5 r) = Some lmd5 \<and> parse_md5 (cr_rmd5 r) = Some rmd5"
    using assms
  proof (induction ls arbitrary: previous)
    case (Cons line ls)
    show ?case
    proof (cases line)
      case (LineRead r)
      show ?thesis
        using Cons.prems unfolding LineRead carried_step Let_def
        by (cases "x \<in> set (usable (carried_records now expiry scoped l (Some (cr_p r)) ls))")
          (auto dest!: Cons.IH intro: above_trans split: if_splits option.splits, (blast intro: above_trans)+)
    qed (use Cons.prems in simp_all)
  qed simp
  with that show thesis by blast
qed

lemma carried_ascending: "ascending (usable (carried_records now expiry scoped l previous ls))"
proof (induction ls arbitrary: previous)
  case (Cons line ls)
  show ?case
  proof (cases line)
    case (LineRead r)
    let ?rest = "carried_records now expiry scoped l (Some (cr_p r)) ls"
    have "\<forall>x \<in> set (usable ?rest). cr_p r < fst x"
      by (auto elim: carried_cases)
    with Cons.IH [of "Some (cr_p r)"] show ?thesis
      unfolding LineRead carried_step Let_def by (auto split: option.split)
  qed simp_all
qed simp

end
