(* ===== verification/CacheMerge.thy ===== *)
theory CacheMerge
  imports CacheRewrite
begin

section \<open>The merge of fresh and stored evidence\<close>

text \<open>Fresh evidence under the date it keeps, given what is stored for its path.\<close>

definition dated :: "(string \<times> stored_entry) list \<Rightarrow> string \<Rightarrow> stored_entry \<Rightarrow> stored_entry" where
  "dated stored p e =
     (case om_get stored p of
        Some c \<Rightarrow> if same_evidence c e then e\<lparr>te_observed_at := te_observed_at c\<rparr> else e
      | None \<Rightarrow> e)"

lemma om_get_simps [simp]:
  "om_get [] p = None" "om_get ((q, v) # m) p = (if p = q then Some v else om_get m p)"
  by (simp_all add: om_get_def)

text \<open>What the merge has to hold of a path.\<close>

definition merged :: "(string \<times> stored_entry) list \<Rightarrow> (string \<times> stored_entry) list \<Rightarrow> string \<times> stored_entry \<Rightarrow> bool" where
  "merged fresh stored = (\<lambda>(p, e).
     case om_get fresh p of Some f \<Rightarrow> e = dated stored p f | None \<Rightarrow> om_get stored p = Some e)"

lemma merged_key: "merged fresh stored x \<Longrightarrow> fst x \<in> fst ` set fresh \<union> fst ` set stored"
  by (cases x) (auto simp: merged_def om_get_def dest!: map_of_SomeD split: option.splits intro: rev_image_eqI)

definition merge_ok ::
  "nat \<Rightarrow> (string \<times> stored_entry) list \<Rightarrow> (string \<times> stored_entry) list \<Rightarrow> (string \<times> stored_entry) list \<Rightarrow> bool"
where
  "merge_ok n fresh stored kept =
     (ascending kept \<and> n + length kept \<le> max n entry_limit \<and> (\<forall>x \<in> set kept. merged fresh stored x))"

lemma merge_ok_Nil [simp]: "merge_ok n fresh stored []"
  by (simp add: merge_ok_def)

text \<open>A step that writes the record of the least path.\<close>

lemma merge_ok_Cons:
  assumes ok: "merge_ok (Suc n) fs cs kept" and room: "n < entry_limit"
    and least: "\<And>x. x \<in> fst ` set fs \<union> fst ` set cs \<Longrightarrow> p < x"
    and same: "\<And>q. q \<noteq> p \<Longrightarrow> om_get fs' q = om_get fs q \<and> om_get cs' q = om_get cs q"
    and head: "merged fs' cs' (p, e)"
  shows "merge_ok n fs' cs' ((p, e) # kept)"
proof -
  have kept: "merged fs cs x" "p < fst x" if "x \<in> set kept" for x
    using ok that merged_key least by (auto simp: merge_ok_def)
  have "merged fs' cs' x" if "x \<in> set kept" for x
  proof -
    have "fst x \<noteq> p" using kept(2) [OF that] by simp
    with kept(1) [OF that] same [of "fst x"] show ?thesis
      by (auto simp: merged_def dated_def split_beta split: option.splits)
  qed
  with kept head ok room show ?thesis
    by (simp add: merge_ok_def)
qed

lemma absent:
  fixes m :: "(string \<times> 'a) list"
  assumes "\<forall>x \<in> set m. p < fst x"
  shows "om_get m p = None"
  using assms by (induction m) auto

lemma merge_ok_both:
  assumes "merge_ok (Suc n) fs cs kept" and "n < entry_limit"
    and "ascending ((p, e) # fs)" and "ascending ((p, c) # cs)"
  shows "merge_ok n ((p, e) # fs) ((p, c) # cs)
    ((p, if same_evidence c e then e\<lparr>te_observed_at := te_observed_at c\<rparr> else e) # kept)"
  by (rule merge_ok_Cons [OF assms(1,2)]) (use assms(3,4) in \<open>auto simp: merged_def dated_def\<close>)

lemma merge_ok_fresh:
  assumes "merge_ok (Suc n) fs cs kept" and "n < entry_limit"
    and "ascending ((p, e) # fs)" and "\<forall>x \<in> set cs. p < fst x"
  shows "merge_ok n ((p, e) # fs) cs ((p, e) # kept)"
  by (rule merge_ok_Cons [OF assms(1,2)])
    (use assms(3,4) in \<open>auto simp: merged_def dated_def absent [OF assms(4)]\<close>)

lemma merge_ok_stored:
  assumes "merge_ok (Suc n) fs cs kept" and "n < entry_limit"
    and "ascending ((q, c) # cs)" and "\<forall>x \<in> set fs. q < fst x"
  shows "merge_ok n fs ((q, c) # cs) ((q, c) # kept)"
  by (rule merge_ok_Cons [OF assms(1,2)])
    (use assms(3,4) in \<open>auto simp: merged_def dated_def absent [OF assms(4)]\<close>)

lemma merge_ok_full:
  assumes "merge_ok n fresh cs kept" and "entry_limit \<le> n"
  shows "merge_ok n fresh ((q, c) # cs) kept"
  using assms by (simp add: merge_ok_def max_def)

theorem merge_evidence_ok:
  assumes "merge_evidence n fresh cs = Some kept" and "ascending fresh" and "ascending (usable cs)"
  shows "merge_ok n fresh (usable cs) kept"
  using assms
proof (induction n fresh cs arbitrary: kept rule: merge_evidence.induct)
  case (3 n p e fs)
  show ?case
  proof (cases "entry_limit \<le> n")
    case False
    with 3 show ?thesis by (auto intro!: merge_ok_fresh)
  qed (use 3 in simp)
next
  case (4 n q c cs)
  show ?case
  proof (cases "entry_limit \<le> n")
    case False
    with 4 show ?thesis by (auto intro!: merge_ok_stored)
  qed (use 4 in \<open>simp add: merge_ok_full\<close>)
next
  case (5 n p e fs q c cs)
  consider (full) "p \<le> q" "entry_limit \<le> n" | (both) "p = q" "n < entry_limit"
    | (fresh) "p < q" "n < entry_limit" | (drop) "q < p" "entry_limit \<le> n" | (stored) "q < p" "n < entry_limit"
    by fastforce
  then show ?case
  proof cases
    case full
    with 5 show ?thesis by (auto split: if_splits)
  next
    case both
    with 5 obtain rest where rest: "merge_evidence (Suc n) fs cs = Some rest"
      "kept = (p, if same_evidence c e then e\<lparr>te_observed_at := te_observed_at c\<rparr> else e) # rest"
      by (auto split: if_splits)
    have "merge_ok (Suc n) fs (usable cs) rest"
      using both rest(1) 5 by simp
    from merge_ok_both [OF this both(2), of p e c] rest(2) both 5(6,7) show ?thesis
      by simp
  next
    case fresh
    with 5(5) obtain rest where "merge_evidence (Suc n) fs (Some (q, c) # cs) = Some rest" "kept = (p, e) # rest"
      by (auto split: if_splits)
    moreover have "\<forall>x \<in> set (usable (Some (q, c) # cs)). p < fst x"
      using fresh 5(7) by (auto intro: order.strict_trans)
    moreover have "merge_ok (Suc n) fs (usable (Some (q, c) # cs)) rest"
      using calculation(1) fresh 5 by simp
    ultimately show ?thesis
      using merge_ok_fresh fresh(2) 5(6) by blast
  next
    case drop
    with 5(5) have "p \<noteq> q" "\<not> p < q" "merge_evidence n ((p, e) # fs) cs = Some kept"
      by (auto split: if_splits)
    with drop 5 show ?thesis by (auto intro!: merge_ok_full)
  next
    case stored
    with 5(5) obtain rest where "merge_evidence (Suc n) ((p, e) # fs) cs = Some rest" "kept = (q, c) # rest"
      by (auto split: if_splits)
    moreover have "\<forall>x \<in> set ((p, e) # fs). q < fst x"
      using stored 5(6) by (auto intro: order.strict_trans)
    moreover have "merge_ok (Suc n) ((p, e) # fs) (usable cs) rest"
      using calculation(1) stored 5 by simp
    ultimately show ?thesis
      using merge_ok_stored [of n "(p, e) # fs" "usable cs" rest q c] stored(2) 5(7) by simp
  qed
qed simp_all

section \<open>What a pass observed\<close>

lemma observation_path: "observation now l r p = Some (q, e) \<Longrightarrow> q = p"
  by (auto simp: observation_def split: option.splits if_splits)

lemma observations_ascending: "ascending (observation_stream now l r comparison)"
proof -
  have "ascending (List.map_filter (observation now l r) ps)" if "sorted_wrt (<) ps" for ps
    using that
  proof (induction ps)
    case (Cons p ps)
    have "fst x \<in> set ps" if "x \<in> set (List.map_filter (observation now l r) ps)" for x
      using that by (auto simp: List.map_filter_def dest: observation_path)
    with Cons show ?case
      by (auto simp: map_filter_simps dest!: observation_path split: option.split)
  qed (simp add: map_filter_simps)
  then show ?thesis
    by (simp add: observation_stream_def)
qed

lemma observed:
  assumes "finite comparison"
  shows "om_get (observation_stream now l r comparison) p =
    (if p \<in> comparison then map_option snd (observation now l r p) else None)"
proof -
  have "om_get (List.map_filter (observation now l r) ps) p =
      (if p \<in> set ps then map_option snd (observation now l r p) else None)" for ps
    by (induction ps) (auto simp: map_filter_simps dest: observation_path split: option.split)
  with assms show ?thesis
    by (simp add: observation_stream_def)
qed

text \<open>The records the stored file offers to the merge.\<close>

definition offered :: "cache_build \<Rightarrow> status_cache \<Rightarrow> cache_disk \<Rightarrow> local_inventory \<Rightarrow> bool \<Rightarrow> (string \<times> stored_entry) list" where
  "offered B C disk l scoped = usable (fst (carried_open B C disk l scoped))"

lemma offered_ascending: "ascending (offered B C disk l scoped)"
  by (simp add: offered_def carried_open_def carried_ascending split: sum.split option.split)

lemma store_cases:
  assumes "store B fault C disk l r comparison scoped = (Inr doc, C')"
  obtains (merged) kept where "doc = written_file B C' kept"
      "merge_evidence 0 (observation_stream (sc_now C) l r comparison) (fst (carried_open B C disk l scoped)) = Some kept"
  | (rejected) "doc = written_file B C' (take entry_limit (observation_stream (sc_now C) l r comparison))"
      "merge_evidence 0 (observation_stream (sc_now C) l r comparison) (fst (carried_open B C disk l scoped)) = None"
      "\<exists>issue \<in> set (sc_issues C'). ci_code issue = ''cache-records-rejected''"
  using assms
  by (auto simp: store_def Let_def note_issue_def list_ex_iff issue_warning_def split: prod.splits option.splits if_splits)

section \<open>Served evidence keeps its date\<close>

lemma decode_encode_identity [simp]: "decode_identity (encode_identity i) = i"
proof -
  have digits: "\<forall>c \<in> set (show_nat n). c \<noteq> CHR '':''" for n
    by (auto dest: show_nat_bytes simp: byte_def)
  have "takeWhile (\<lambda>c. c \<noteq> CHR '':'') (show_nat n @ CHR '':'' # t) = show_nat n"
    "dropWhile (\<lambda>c. c \<noteq> CHR '':'') (show_nat n @ CHR '':'' # t) = CHR '':'' # t" for n t
    using digits [of n] by (simp_all add: takeWhile_tail)
  moreover have "unat w < 2 ^ 64" for w :: u64
    using unsigned_less [of w] by simp
  ultimately show ?thesis
    by (simp add: decode_identity_def encode_identity_def Let_def parse_u64_def parse_show_nat)
qed

lemma carried_accepts:
  assumes "None \<notin> set (carried_records now expiry scoped l previous ls)"
    and "LineRead r \<in> set (rows ls)" and "expiry \<le> cr_t r" "cr_t r \<le> now" "scoped \<or> om_has (li_entries l) (cr_p r)"
  shows "\<exists>lmd5 rmd5. parse_md5 (cr_lmd5 r) = Some lmd5 \<and> parse_md5 (cr_rmd5 r) = Some rmd5
    \<and> (cr_p r, stored_of r lmd5 rmd5) \<in> set (usable (carried_records now expiry scoped l previous ls))"
  using assms
proof (induction ls arbitrary: previous)
  case (Cons line ls)
  show ?case
  proof (cases line)
    case (LineRead r')
    let ?rest = "carried_records now expiry scoped l (Some (cr_p r')) ls"
    from Cons.prems(1) have "None \<notin> set ?rest" and above: "above previous (cr_p r')"
      unfolding LineRead carried_step Let_def by (auto split: if_splits option.splits)
    show ?thesis
    proof (cases "r' = r")
      case True
      with Cons.prems above show ?thesis
        unfolding LineRead carried_step Let_def by (auto split: if_splits option.splits)
    next
      case False
      with Cons.prems(2) LineRead have "LineRead r \<in> set (rows ls)"
        by simp
      with Cons.IH [OF \<open>None \<notin> set ?rest\<close>] Cons.prems(3-) obtain lmd5 rmd5 where
        "parse_md5 (cr_lmd5 r) = Some lmd5" "parse_md5 (cr_rmd5 r) = Some rmd5"
        "(cr_p r, stored_of r lmd5 rmd5) \<in> set (usable ?rest)"
        by blast
      with above Cons.prems(1) show ?thesis
        unfolding LineRead carried_step Let_def by (auto split: option.split)
    qed
  qed (use Cons.prems in auto)
qed simp

text \<open>The merge carries the date of every record it was offered.\<close>

lemma kept_date:
  assumes stored: "store B fault C disk l r comparison scoped = (Inr doc, C')"
    and fin: "finite comparison" and trusted: "None \<notin> set (fst (carried_open B C disk l scoped))"
    and offer: "om_get (offered B C disk l scoped) p = Some c"
    and agrees: "\<And>f. observation (sc_now C) l r p = Some (p, f) \<Longrightarrow> same_evidence c f"
    and entry: "LineRead x \<in> set (cf_lines doc)" "cr_p x = p"
  shows "cr_t x = te_observed_at c"
  using stored
proof (cases rule: store_cases)
  case (merged kept)
  let ?fresh = "observation_stream (sc_now C) l r comparison"
  from entry merged obtain e where e: "(p, e) \<in> set kept" "cr_t x = te_observed_at e"
    by (auto simp: written_file_def record_of_def)
  have "merge_ok 0 ?fresh (offered B C disk l scoped) kept"
    using merge_evidence_ok [OF merged(2) observations_ascending] offered_ascending
    by (simp add: offered_def)
  with e have m: "CacheMerge.merged ?fresh (offered B C disk l scoped) (p, e)"
    by (auto simp: merge_ok_def)
  show ?thesis
  proof (cases "om_get ?fresh p")
    case None
    with m offer e show ?thesis by (auto simp: merged_def)
  next
    case (Some f)
    then obtain q where "observation (sc_now C) l r p = Some (q, f)"
      using fin by (auto simp: observed split: if_splits)
    with observation_path agrees have "same_evidence c f" by blast
    with m Some offer e show ?thesis by (auto simp: merged_def dated_def)
  qed
next
  case rejected
  have "merge_evidence n fs cs \<noteq> None" if "None \<notin> set cs" for n fs cs
    using that by (induction n fs cs rule: merge_evidence.induct) auto
  with rejected trusted show ?thesis by blast
qed

lemma serve_keeps_identity:
  "serve E B C disk l0 r0 comparison = (sv, l, r, C') \<Longrightarrow>
     sc_options C' = sc_options C \<and> sc_path C' = sc_path C \<and> sc_now C' = sc_now C"
  by (auto simp: serve_def Let_def split: if_splits sum.splits option.splits prod.splits)

lemma carried_open_trusted:
  assumes "open_validated (sc_path C) disk = Inr (Some cfile)" "cf_header cfile = HeaderRead h"
    and "header_mismatch B (sc_options C) (sc_now C) h = None"
  shows "fst (carried_open B C disk l scoped) =
    carried_records (sc_now C) (i64_sat_sub (sc_now C) (co_max_age (sc_options C))) scoped l None (cf_lines cfile)"
  using assms by (simp add: carried_open_def read_header_def header_matches_def)

lemma ascending_get: "ascending xs \<Longrightarrow> (p, e) \<in> set xs \<Longrightarrow> om_get xs p = Some e"
  by (simp add: om_get_def strict_sorted_iff)

text \<open>
  C34. A digest the cache served is not new evidence: when the pass that was served writes its file
  again, with the entries and digests it was served, the record of that path keeps the time of the
  only observation there was, so the age limit counts from it. (Unless the stored file turns out to
  be damaged on the way, when the file is written from this pass alone.)
\<close>

theorem served_evidence_keeps_its_date:
  assumes served: "serve E B C disk l0 r0 comparison = (sv, l, r, C1)" and blank: "undigested l0 r0"
    and filled: "om_get (li_entries l) p = Some le" "l_md5 le = Some fp"
    and later: "om_get (li_entries l') p = Some le" "om_get (ri_entries r') p = om_get (ri_entries r) p"
    and stored: "store B fault C1 disk l' r' comparison' scoped = (Inr doc, C2)" and fin: "finite comparison'"
    and trusted: "None \<notin> set (fst (carried_open B C1 disk l' scoped))"
    and entry: "LineRead x \<in> set (cf_lines doc)" "cr_p x = p"
  shows "\<exists>cfile old. open_validated (sc_path C) disk = Inr (Some cfile) \<and> LineRead old \<in> set (cf_lines cfile)
    \<and> cr_p old = p \<and> cr_t x = cr_t old"
  using served
proof (cases rule: serve_cases)
  case 1
  with filled blank show ?thesis by (auto simp: undigested_def)
next
  case 2
  with filled show ?thesis by (auto simp: get_clear)
next
  case (3 cfile h R rd audit)
  let ?ls = "cf_lines cfile"
  note same = serve_keeps_identity [OF served]
  have "filled_from C R comparison l0 r0 ?ls l r"
    using read_lines_filled [OF 3(6) subset_refl, of l0 r0] filled_from_start 3 by simp
  then obtain re lmd5 rmd5 le0 where
    ev: "live_evidence C R comparison l0 r0 ?ls p le0 re lmd5 rmd5"
    and le: "le = le0\<lparr>l_md5 := Some (from_bytes lmd5)\<rparr>"
    and re: "om_get (ri_entries r) p = Some (re\<lparr>r_md5 := Some (from_bytes rmd5)\<rparr>)"
    using filled blank unfolding filled_from_def undigested_def by (metis option.discI option.inject)
  then obtain old where old: "LineRead old \<in> set (rows ?ls)" "cr_p old = p" "current C R old"
      "local_agrees old le0" "remote_agrees old re"
      "parse_md5 (cr_lmd5 old) = Some lmd5" "parse_md5 (cr_rmd5 old) = Some rmd5"
    by (auto simp: live_evidence_def)
  let ?c = "stored_of old lmd5 rmd5"
  have expiry: "rp_expiry R = i64_sat_sub (sc_now C1) (co_max_age (sc_options C1))"
    using 3(5) same by (auto simp: read_plan_of_def Let_def)
  have carried: "fst (carried_open B C1 disk l' scoped) =
      carried_records (sc_now C1) (rp_expiry R) scoped l' None ?ls"
    using carried_open_trusted [of C1 disk cfile h B l' scoped] 3(1-3) same expiry by simp
  have "om_has (li_entries l') p"
    using later by (simp add: om_has_def)
  then have "(p, ?c) \<in> set (offered B C1 disk l' scoped)"
    using carried_accepts [of "sc_now C1" "rp_expiry R" scoped l' None ?ls old] trusted old same
    by (auto simp: carried offered_def current_def)
  then have offer: "om_get (offered B C1 disk l' scoped) p = Some ?c"
    by (rule ascending_get [OF offered_ascending])
  have agrees: "same_evidence ?c f" if "observation (sc_now C1) l' r' p = Some (p, f)" for f
  proof -
    have "l_identity le0 = decode_identity (cr_n old)"
      using old(4) unfolding local_agrees_def by (metis decode_encode_identity)
    with that later re le old(4,5) show ?thesis
      by (auto simp: observation_def same_evidence_def stored_of_def local_agrees_def remote_agrees_def from_bytes_def
          split: if_splits)
  qed
  have "cr_t x = cr_t old"
    using kept_date [OF stored fin trusted offer agrees entry] by (simp add: stored_of_def)
  moreover have "LineRead old \<in> set ?ls"
    using old(1) by (auto simp: rows_def dest: set_takeWhileD)
  ultimately show ?thesis
    using 3(1) old(2) by blast
qed

end
