(* ===== verification/CacheServe.thy ===== *)
theory CacheServe
  imports CacheMerge
begin

text \<open>What one pass stored is served to a later one; and a refresh does not discard it.\<close>

section \<open>A written file is read\<close>

definition digests_sized :: "stored_entry \<Rightarrow> bool" where
  "digests_sized e = (length (te_local_md5 e) = 16 \<and> length (te_remote_md5 e) = 16)"

lemma parse_hex_encode: "length bs = 16 \<Longrightarrow> parse_md5 (hex_encode bs) = Some bs"
  by (simp add: parse_md5_def)

lemma parse_md5_length: "parse_md5 s = Some bs \<Longrightarrow> length bs = 16"
  by (auto simp: parse_md5_def dest: hex_bytes_length split: if_splits)

text \<open>The live entries are those the evidence was found under, and it is neither too old nor racy.\<close>

definition servable ::
  "status_cache \<Rightarrow> read_plan \<Rightarrow> string set \<Rightarrow> local_inventory \<Rightarrow> remote_inventory \<Rightarrow> string \<times> stored_entry \<Rightarrow> bool"
where
  "servable C R comparison l r = (\<lambda>(p, e).
     p \<in> comparison \<and> current C R (record_of (p, e))
     \<and> (\<exists>le. om_get (li_entries l) p = Some le \<and> local_agrees (record_of (p, e)) le)
     \<and> (\<exists>re. om_get (ri_entries r) p = Some re \<and> remote_agrees (record_of (p, e)) re))"

definition served_at :: "local_inventory \<Rightarrow> remote_inventory \<Rightarrow> string \<times> stored_entry \<Rightarrow> bool" where
  "served_at l r = (\<lambda>(p, e).
     (\<exists>le. om_get (li_entries l) p = Some le \<and> l_md5 le = Some (from_bytes (te_local_md5 e)))
     \<and> (\<exists>re. om_get (ri_entries r) p = Some re \<and> r_md5 re = Some (from_bytes (te_remote_md5 e))))"

lemma record_of_simps [simp]:
  "cr_p (record_of x) = fst x" "cr_t (record_of x) = te_observed_at (snd x)" "cr_m (record_of x) = te_mtime_ms (snd x)"
  "cr_lmd5 (record_of x) = hex_encode (te_local_md5 (snd x))"
  "cr_rmd5 (record_of x) = hex_encode (te_remote_md5 (snd x))"
  by (simp_all add: record_of_def split_beta)

lemma read_written_record:
  assumes above: "above (rd_previous rd) p" and sized: "digests_sized e"
  obtains rd' where "read_record E C R comparison rd (record_of (p, e)) = Inr rd'" "rd_previous rd' = Some p"
    "\<And>q. q \<noteq> p \<Longrightarrow> om_get (li_entries (rd_local rd')) q = om_get (li_entries (rd_local rd)) q
       \<and> om_get (ri_entries (rd_remote rd')) q = om_get (ri_entries (rd_remote rd)) q"
    "rp_stride R = 0 \<Longrightarrow> servable C R comparison (rd_local rd) (rd_remote rd) (p, e) \<Longrightarrow>
       served_at (rd_local rd') (rd_remote rd') (p, e)"
proof -
  let ?x = "record_of (p, e)" and ?rd = "rd\<lparr>rd_previous := Some p\<rparr>"
  let ?take = "take_evidence (sc_options C) R ?x (te_local_md5 e) (te_remote_md5 e) ?rd"
  have "\<exists>rd' \<in> {?rd, ?take}. read_record E C R comparison rd ?x = Inr rd'
      \<and> (servable C R comparison (rd_local rd) (rd_remote rd) (p, e) \<longrightarrow> rd' = ?take)"
    using above sized
    by (auto simp: read_record_def Let_def above_def digests_sized_def parse_hex_encode servable_def current_def
        split: option.split)
  moreover have "rd_previous ?take = Some p"
    by (simp add: take_evidence_def Let_def)
  moreover have "om_get (li_entries (rd_local ?take)) q = om_get (li_entries (rd_local rd)) q
       \<and> om_get (ri_entries (rd_remote ?take)) q = om_get (ri_entries (rd_remote rd)) q" if "q \<noteq> p" for q
    using that by (simp add: take_evidence_def Let_def get_fill_local get_fill_remote option.map_ident)
  moreover have "served_at (rd_local ?take) (rd_remote ?take) (p, e)"
    if "rp_stride R = 0" "servable C R comparison (rd_local rd) (rd_remote rd) (p, e)"
    using that by (auto simp: take_evidence_def Let_def get_fill_local get_fill_remote served_at_def servable_def)
  ultimately show thesis
    using that [of ?rd] that [of ?take] by (auto split: if_splits)
qed

lemma servable_cong:
  assumes "om_get (li_entries l) p = om_get (li_entries l') p" "om_get (ri_entries r) p = om_get (ri_entries r') p"
  shows "servable C R comparison l r (p, e) = servable C R comparison l' r' (p, e)"
    "served_at l r (p, e) = served_at l' r' (p, e)"
  using assms by (simp_all add: servable_def served_at_def)

lemma read_written_lines:
  assumes "ascending kept" and "\<forall>x \<in> set kept. above (rd_previous rd) (fst x) \<and> digests_sized (snd x)"
    and "rp_stride R = 0"
  shows "\<exists>rd'. read_lines E C R comparison rd (map (\<lambda>x. LineRead (record_of x)) kept @ [LineEnd]) = Inr rd'
    \<and> (\<forall>x \<in> set kept. servable C R comparison (rd_local rd) (rd_remote rd) x \<longrightarrow> served_at (rd_local rd') (rd_remote rd') x)
    \<and> (\<forall>q. q \<notin> fst ` set kept \<longrightarrow> om_get (li_entries (rd_local rd')) q = om_get (li_entries (rd_local rd)) q
         \<and> om_get (ri_entries (rd_remote rd')) q = om_get (ri_entries (rd_remote rd)) q)"
  using assms(1,2)
proof (induction kept arbitrary: rd)
  case (Cons x kept)
  obtain p e where x: "x = (p, e)" by (cases x)
  obtain rd1 where rd1: "read_record E C R comparison rd (record_of x) = Inr rd1" "rd_previous rd1 = Some p"
    "\<And>q. q \<noteq> p \<Longrightarrow> om_get (li_entries (rd_local rd1)) q = om_get (li_entries (rd_local rd)) q
       \<and> om_get (ri_entries (rd_remote rd1)) q = om_get (ri_entries (rd_remote rd)) q"
    "servable C R comparison (rd_local rd) (rd_remote rd) x \<Longrightarrow> served_at (rd_local rd1) (rd_remote rd1) x"
    using read_written_record [of rd p e E C R comparison] Cons.prems(2) assms(3) x by auto
  have later: "p < fst y" if "y \<in> set kept" for y
    using Cons.prems(1) that x by auto
  have "ascending kept" "\<forall>y \<in> set kept. above (rd_previous rd1) (fst y) \<and> digests_sized (snd y)"
    using Cons.prems later rd1(2) by auto
  from Cons.IH [OF this] obtain rd' where rd':
    "read_lines E C R comparison rd1 (map (\<lambda>x. LineRead (record_of x)) kept @ [LineEnd]) = Inr rd'"
    "\<forall>y \<in> set kept. servable C R comparison (rd_local rd1) (rd_remote rd1) y \<longrightarrow> served_at (rd_local rd') (rd_remote rd') y"
    "\<forall>q. q \<notin> fst ` set kept \<longrightarrow> om_get (li_entries (rd_local rd')) q = om_get (li_entries (rd_local rd1)) q
       \<and> om_get (ri_entries (rd_remote rd')) q = om_get (ri_entries (rd_remote rd1)) q"
    by blast
  have "served_at (rd_local rd') (rd_remote rd') x" if "servable C R comparison (rd_local rd) (rd_remote rd) x"
  proof -
    have "p \<notin> fst ` set kept" using later by auto
    with rd'(3) rd1(4) [OF that] show ?thesis by (simp add: x served_at_def)
  qed
  moreover have "served_at (rd_local rd') (rd_remote rd') y"
    if "y \<in> set kept" "servable C R comparison (rd_local rd) (rd_remote rd) y" for y
  proof -
    have "fst y \<noteq> p" using later [OF that(1)] by auto
    with rd1(3) rd'(2) that show ?thesis
      by (cases y) (metis fst_conv servable_cong(1))
  qed
  ultimately show ?case
    using rd1(1,3) rd'(1,3) by (intro exI [of _ rd']) (auto simp: x)
qed simp

section \<open>From one pass to the next\<close>

definition md5_sized :: "local_inventory \<Rightarrow> remote_inventory \<Rightarrow> bool" where
  "md5_sized l r =
     ((\<forall>p e f. om_get (li_entries l) p = Some e \<longrightarrow> l_md5 e = Some f \<longrightarrow> length (fp_md5 f) = 16)
      \<and> (\<forall>p e f. om_get (ri_entries r) p = Some e \<longrightarrow> r_md5 e = Some f \<longrightarrow> length (fp_md5 f) = 16))"

lemma observation_sized: "md5_sized l r \<Longrightarrow> observation now l r p = Some x \<Longrightarrow> digests_sized (snd x)"
  by (auto simp: md5_sized_def observation_def digests_sized_def split: option.splits if_splits)

lemma stream_sized:
  "md5_sized l r \<Longrightarrow> x \<in> set (observation_stream now l r comparison) \<Longrightarrow> digests_sized (snd x)"
  by (auto simp: observation_stream_def List.map_filter_def dest: observation_sized)

lemma offered_sized: "x \<in> set (offered B C disk l scoped) \<Longrightarrow> digests_sized (snd x)"
  by (auto simp: offered_def carried_open_def digests_sized_def stored_of_def dest: parse_md5_length
      elim!: carried_cases split: sum.splits option.splits)

lemma merged_sized:
  assumes "merged fresh stored x" and "\<forall>y \<in> set fresh. digests_sized (snd y)" "\<forall>y \<in> set stored. digests_sized (snd y)"
  shows "digests_sized (snd x)"
proof (cases "om_get fresh (fst x)")
  case None
  with assms om_get_Some_in [of stored "fst x" "snd x"] show ?thesis
    by (auto simp: merged_def split_beta)
next
  case (Some f)
  have "digests_sized (dated stored (fst x) f) = digests_sized f"
    by (simp add: dated_def digests_sized_def split: option.split)
  with assms Some om_get_Some_in [OF Some] show ?thesis
    by (auto simp: merged_def split_beta)
qed

lemma store_keeps:
  assumes "store B fault C disk l r comparison scoped = (Inr doc, C')"
  obtains kept where "doc = written_file B C' kept" "ascending kept" "length kept \<le> entry_limit"
    "md5_sized l r \<Longrightarrow> \<forall>x \<in> set kept. digests_sized (snd x)"
  using assms
proof (cases rule: store_cases)
  case (merged kept)
  let ?fresh = "observation_stream (sc_now C) l r comparison"
  have ok: "merge_ok 0 ?fresh (offered B C disk l scoped) kept"
    using merge_evidence_ok [OF merged(2) observations_ascending] offered_ascending
    by (simp add: offered_def)
  moreover have "digests_sized (snd x)" if "md5_sized l r" "x \<in> set kept" for x
  proof (rule merged_sized)
    show "CacheMerge.merged ?fresh (offered B C disk l scoped) x"
      using ok that by (simp add: merge_ok_def)
  qed (use stream_sized [OF that(1)] offered_sized in blast)+
  ultimately show thesis
    using that [of kept] merged(1) by (simp add: merge_ok_def)
next
  case rejected
  let ?kept = "take entry_limit (observation_stream (sc_now C) l r comparison)"
  have "ascending ?kept"
    using observations_ascending by (simp add: take_map sorted_wrt_take flip: take_map)
  moreover have "md5_sized l r \<Longrightarrow> \<forall>x \<in> set ?kept. digests_sized (snd x)"
    using stream_sized by (blast dest: in_set_takeD)
  ultimately show thesis
    using that [of ?kept] rejected(1) by simp
qed

text \<open>
  C35. What a pass stored is served to a later pass over the same profile: every record of the file
  it wrote fills the digests of its path on both sides with the stored ones, when the entries of that
  path have not changed since, the record is neither too old nor racy, and no canary sample is due.
\<close>

theorem stored_evidence_is_served:
  assumes stored: "store B fault C disk l r comparison scoped = (Inr doc, C')" and sized: "md5_sized l r"
    and entry: "LineRead x \<in> set (cf_lines doc)"
    and later: "sc_options C2 = sc_options C" "\<not> co_refresh (sc_options C)" "sc_now C \<le> sc_now C2"
      "co_canary (sc_options C) = 0 \<or> i64_sat_sub (sc_now C2) (sc_canary_at C') < canary_interval"
    and found: "open_validated (sc_path C2) disk2 = Inr (Some doc)"
    and fresh: "i64_sat_sub (sc_now C2) (co_max_age (sc_options C)) \<le> cr_t x" "cr_t x \<le> sc_now C2"
      "cr_m x < i64_sat_mul (i64_sat_sub (min (cr_t x) (sc_now C)) racy_window) 1000"
    and live: "cr_p x \<in> comparison2" "om_get (li_entries l2) (cr_p x) = Some le" "local_agrees x le"
      "om_get (ri_entries r2) (cr_p x) = Some re" "remote_agrees x re"
  shows "\<exists>sv l3 r3 C3 le' re' lmd5 rmd5. serve E B C2 disk2 l2 r2 comparison2 = (sv, l3, r3, C3)
    \<and> parse_md5 (cr_lmd5 x) = Some lmd5 \<and> parse_md5 (cr_rmd5 x) = Some rmd5
    \<and> om_get (li_entries l3) (cr_p x) = Some le' \<and> l_md5 le' = Some (from_bytes lmd5)
    \<and> om_get (ri_entries r3) (cr_p x) = Some re' \<and> r_md5 re' = Some (from_bytes rmd5)"
proof -
  obtain kept where kept: "doc = written_file B C' kept" "ascending kept" "\<forall>x \<in> set kept. digests_sized (snd x)"
    using store_keeps [OF stored] sized by metis
  have same: "sc_options C' = sc_options C" "sc_now C' = sc_now C"
    using stored by (auto simp: store_def carried_open_def Let_def split: prod.splits option.splits sum.splits if_splits)
  let ?h = "cache_header_of B C' (length kept)"
  obtain audit R where plan: "read_plan_of (sc_options C2) (sc_now C2) ?h = (audit, R)"
    by fastforce
  then have R: "rp_stride R = 0" "rp_expiry R = i64_sat_sub (sc_now C2) (co_max_age (sc_options C))"
    "rp_generated_at R = sc_now C"
    using later same by (auto simp: read_plan_of_def Let_def cache_header_of_def canary_stride_def)
  obtain p e where e: "(p, e) \<in> set kept" "x = record_of (p, e)"
    using entry kept(1) by (auto simp: written_file_def)
  let ?rd = "\<lparr>rd_served = served_none, rd_local = l2, rd_remote = r2, rd_previous = None, rd_eligible = 0\<rparr>"
  obtain rd' where rd': "read_lines E C2 R comparison2 ?rd (cf_lines doc) = Inr rd'"
    "servable C2 R comparison2 l2 r2 (p, e) \<Longrightarrow> served_at (rd_local rd') (rd_remote rd') (p, e)"
    using read_written_lines [OF kept(2) _ R(1), of ?rd E C2 comparison2] kept(1,3) e(1)
    by (auto simp: written_file_def)
  have "servable C2 R comparison2 l2 r2 (p, e)"
    using live fresh e(2) R by (auto simp: servable_def current_def racy_floor_def)
  from rd'(2) [OF this] have "served_at (rd_local rd') (rd_remote rd') (p, e)" .
  moreover have "\<exists>sv C3. serve E B C2 disk2 l2 r2 comparison2 = (sv, rd_local rd', rd_remote rd', C3)"
    using found later same live(1) plan rd'(1) kept(1)
    by (auto simp: serve_def Let_def read_header_def header_matches_def header_mismatch_def written_file_def
        cache_header_of_def)
  ultimately show ?thesis
    using e kept(3) by (auto simp: served_at_def digests_sized_def parse_hex_encode dest!: bspec)
qed

end
