(* ===== verification/CacheDemo.thy ===== *)
theory CacheDemo
  imports CacheServe Demo
begin

text \<open>
  Concrete passes over one file: the properties of the cache applied, and a pass that was asked to
  refresh but leaves the evidence it contradicted.
\<close>

section \<open>Two passes over one file\<close>

lemma limit_code [code_unfold]: "file_limit_bytes < n \<longleftrightarrow> 67108864 < int n"
  by (simp add: file_limit_bytes_def)

lemma parse_code [code]:
  "parse_u64 text =
     (let digits = (case text of [] \<Rightarrow> [] | c # rest \<Rightarrow> if c = CHR ''+'' then rest else text) in
      if digits = [] \<or> \<not> list_all is_digit digits \<or> 18446744073709551616 \<le> int (read_digits digits) then None
      else Some (read_digits digits))"
  by (simp add: parse_u64_def parse_unsigned_def Let_def)

definition demo_cache_options :: "bool \<Rightarrow> cache_options" where
  "demo_cache_options refresh =
     \<lparr>co_directory = ''/c'', co_profile = ''p'', co_source = ''/src'', co_remote = ''/s/d'',
      co_compare = ''content'', co_refresh = refresh, co_max_age = 1000, co_canary = 0\<rparr>"

definition cache_demo :: "bool \<Rightarrow> int \<Rightarrow> status_cache" where
  "cache_demo refresh now =
     \<lparr>sc_options = demo_cache_options refresh, sc_path = ''/c/p.ndjson'', sc_now = now, sc_canary_at = 0, sc_issues = []\<rparr>"

lemma cache_demo_simps:
  "sc_options (cache_demo b t) = demo_cache_options b" "sc_path (cache_demo b t) = ''/c/p.ndjson''"
  "sc_now (cache_demo b t) = t" "sc_canary_at (cache_demo b t) = 0" "co_refresh (demo_cache_options b) = b"
  "co_canary (demo_cache_options b) = 0" "co_max_age (demo_cache_options b) = 1000"
  by (simp_all add: cache_demo_def demo_cache_options_def)

definition demo_build :: cache_build where
  "demo_build = \<lparr>cb_version = ''1'', cb_platform = ''linux''\<rparr>"

definition demo_disk :: "cache_file \<Rightarrow> cache_disk" where
  "demo_disk cfile =
     \<lparr>cd_meta = Inr \<lparr>cm_is_file = True, cm_len = 9, cm_nlink = 1, cm_mode = 384\<rparr>, cd_open = Inr cfile\<rparr>"

definition bare_disk :: cache_disk where
  "bare_disk = \<lparr>cd_meta = Inl \<lparr>io_kind_of = NotFound, io_text = ''''\<rparr>, cd_open = Inl \<lparr>io_kind_of = NotFound, io_text = ''''\<rparr>\<rparr>"

definition sum_of :: "u8 \<Rightarrow> fingerprint option" where
  "sum_of b = Some (from_bytes (replicate 16 b))"

definition one_local :: "fingerprint option \<Rightarrow> local_inventory" where
  "one_local d = \<lparr>li_root = ''/src'', li_entries = [demo_local ''a'' File 3 5000 d], li_skipped = []\<rparr>"

definition one_remote :: "fingerprint option \<Rightarrow> remote_inventory" where
  "one_remote d = \<lparr>ri_root_exists = True, ri_entries = [demo_remote ''a'' File 3 5 d]\<rparr>"

text \<open>The file a first pass leaves when both digests agree.\<close>

definition first_record :: cache_record where
  "first_record =
     \<lparr>cr_p = ''a'', cr_s = 3, cr_m = 5000, cr_n = ''0:0'', cr_lmd5 = concat (replicate 16 ''07''), cr_rm = 5,
      cr_rmd5 = concat (replicate 16 ''07''), cr_t = 100\<rparr>"

lemma first_record_path: "cr_p first_record = ''a''"
  by (simp add: first_record_def)

definition first_file :: cache_file where
  "first_file =
     \<lparr>cf_header = HeaderRead (cache_header_of demo_build (cache_demo False 100) 1),
      cf_lines = [LineRead first_record, LineEnd]\<rparr>"

definition first_evidence :: "string \<times> stored_entry" where
  "first_evidence =
     (''a'', \<lparr>te_size = 3, te_mtime_ms = 5000, te_identity = default_identity, te_local_md5 = replicate 16 7,
            te_remote_mtime = 5, te_remote_md5 = replicate 16 7, te_observed_at = 100\<rparr>)"

lemma one_record: "merge_evidence 0 [] [Some x] = Some [x]" "merge_evidence 0 [x] [] = Some [x]"
  by (cases x; simp add: entry_limit_def)+

lemma one_observation:
  "observation_stream now l r {p} = (case observation now l r p of None \<Rightarrow> [] | Some x \<Rightarrow> [x])"
  by (simp add: observation_stream_def map_filter_simps split: option.split)

lemma first_pass:
  "store demo_build (\<lambda>_. None) (cache_demo False 100) bare_disk (one_local (sum_of 7)) (one_remote (sum_of 7)) {''a''} False
     = (Inr first_file, cache_demo False 100)"
proof -
  have "observation (sc_now (cache_demo False 100)) (one_local (sum_of 7)) (one_remote (sum_of 7)) ''a'' = Some first_evidence"
    "carried_open demo_build (cache_demo False 100) bare_disk (one_local (sum_of 7)) False = ([], cache_demo False 100)"
    "written_file demo_build (cache_demo False 100) [first_evidence] = first_file"
    by code_simp+
  then show ?thesis
    by (simp add: store_def one_record one_observation)
qed

text \<open>Two files with the same record, read by an ordinary pass.\<close>

definition demo_reading :: "fingerprint option \<Rightarrow> reading" where
  "demo_reading d =
     (if d = None then
        \<lparr>rd_served = served_none, rd_local = one_local d, rd_remote = one_remote d, rd_previous = None, rd_eligible = 0\<rparr>
      else
        \<lparr>rd_served = \<lparr>sv_supplied = 1, sv_probes = [], sv_oldest = Some 100\<rparr>, rd_local = one_local d,
         rd_remote = one_remote d, rd_previous = Some ''a'', rd_eligible = 1\<rparr>)"

lemma serve_demo:
  assumes "open_validated (sc_path C) disk = Inr (Some cfile)" and "cf_header cfile = HeaderRead h"
    and "header_mismatch demo_build (sc_options C) (sc_now C) h = None" and "\<not> co_refresh (sc_options C)"
    and "read_plan_of (sc_options C) (sc_now C) h = (False, R)" and "hd_canary_at h = sc_canary_at C"
    and "read_lines plain_env C R {''a''} (demo_reading None) (cf_lines cfile) = Inr (demo_reading (sum_of 7))"
  shows "serve plain_env demo_build C disk (one_local None) (one_remote None) {''a''}
     = (\<lparr>sv_supplied = 1, sv_probes = [], sv_oldest = Some 100\<rparr>, one_local (sum_of 7), one_remote (sum_of 7), C)"
  using assms
  by (simp add: serve_def Let_def read_header_def header_matches_def demo_reading_def sum_of_def)

definition demo_read_plan :: "int \<Rightarrow> int \<Rightarrow> read_plan" where
  "demo_read_plan expiry written = \<lparr>rp_expiry = expiry, rp_generated_at = written, rp_stride = 0, rp_offset = 0\<rparr>"

lemma served_pass:
  "serve plain_env demo_build (cache_demo False 200) (demo_disk first_file) (one_local None) (one_remote None) {''a''}
     = (\<lparr>sv_supplied = 1, sv_probes = [], sv_oldest = Some 100\<rparr>, one_local (sum_of 7), one_remote (sum_of 7),
        cache_demo False 200)"
  by (rule serve_demo [where cfile = first_file and h = "cache_header_of demo_build (cache_demo False 100) 1"
        and R = "demo_read_plan (-800) 100"]) code_simp+

text \<open>The pass that was served writes the file again.\<close>

lemma second_pass:
  "store demo_build (\<lambda>_. None) (cache_demo False 200) (demo_disk first_file) (one_local (sum_of 7)) (one_remote (sum_of 7))
      {''a''} False =
     (Inr (written_file demo_build (cache_demo False 200) [first_evidence]), cache_demo False 200)"
proof -
  let ?now = "(''a'', (snd first_evidence)\<lparr>te_observed_at := 200\<rparr>)"
  have "observation (sc_now (cache_demo False 200)) (one_local (sum_of 7)) (one_remote (sum_of 7)) ''a'' = Some ?now"
    and c: "carried_open demo_build (cache_demo False 200) (demo_disk first_file) (one_local (sum_of 7)) False
      = ([Some first_evidence], cache_demo False 200)"
    by code_simp+
  moreover have "merge_evidence 0 [?now] [Some first_evidence] = Some [first_evidence]"
    by (simp add: first_evidence_def entry_limit_def same_evidence_def)
  ultimately show ?thesis
    by (simp add: store_def one_observation)
qed

theorem served_evidence_is_current_witness:
  "\<exists>doc h R audit le0 re0 lmd5 rmd5.
      open_validated ''/c/p.ndjson'' (demo_disk first_file) = Inr (Some doc) \<and> cf_header doc = HeaderRead h
      \<and> header_mismatch demo_build (sc_options (cache_demo False 200)) 200 h = None \<and> LineEnd \<in> set (cf_lines doc)
      \<and> read_plan_of (sc_options (cache_demo False 200)) 200 h = (audit, R)
      \<and> \<not> co_refresh (sc_options (cache_demo False 200))
      \<and> live_evidence (cache_demo False 200) R {''a''} (one_local None) (one_remote None) (cf_lines doc) ''a'' le0 re0 lmd5 rmd5
      \<and> from_bytes (replicate 16 7) \<in> {from_bytes lmd5, from_bytes rmd5} \<and> \<not> has_full_proof (from_bytes (replicate 16 7))"
proof -
  have "undigested (one_local None) (one_remote None)"
    by (auto simp: undigested_def one_local_def one_remote_def demo_local_def demo_remote_def om_get_def)
  moreover have "om_get (li_entries (one_local (sum_of 7))) ''a'' =
      Some (snd (demo_local ''a'' File 3 5000 (sum_of 7)))
      \<and> l_md5 (snd (demo_local ''a'' File 3 5000 (sum_of 7))) = Some (from_bytes (replicate 16 7))"
    by (simp add: one_local_def demo_local_def om_get_def sum_of_def)
  ultimately show ?thesis
    using served_evidence_is_current [OF served_pass] by (simp add: cache_demo_simps) blast
qed

theorem served_evidence_keeps_its_date_witness:
  "\<exists>cfile old. open_validated ''/c/p.ndjson'' (demo_disk first_file) = Inr (Some cfile)
     \<and> LineRead old \<in> set (cf_lines cfile) \<and> cr_p old = ''a'' \<and> 100 = cr_t old"
proof -
  have "undigested (one_local None) (one_remote None)"
    by (auto simp: undigested_def one_local_def one_remote_def demo_local_def demo_remote_def om_get_def)
  moreover have "om_get (li_entries (one_local (sum_of 7))) ''a'' =
      Some (snd (demo_local ''a'' File 3 5000 (sum_of 7)))"
    "l_md5 (snd (demo_local ''a'' File 3 5000 (sum_of 7))) = Some (from_bytes (replicate 16 7))"
    by (simp_all add: one_local_def demo_local_def om_get_def sum_of_def)
  moreover have "None \<notin> set (fst (carried_open demo_build (cache_demo False 200) (demo_disk first_file) (one_local (sum_of 7)) False))"
    by code_simp
  moreover have "LineRead (record_of first_evidence)
      \<in> set (cf_lines (written_file demo_build (cache_demo False 200) [first_evidence]))"
    "cr_p (record_of first_evidence) = ''a''" "cr_t (record_of first_evidence) = 100"
    by (simp_all add: written_file_def first_evidence_def)
  ultimately show ?thesis
    using served_evidence_keeps_its_date [OF served_pass _ _ _ _ refl second_pass,
        of "''a''" "snd (demo_local ''a'' File 3 5000 (sum_of 7))" "from_bytes (replicate 16 7)"
          "record_of first_evidence"]
    by (simp add: cache_demo_simps)
qed

theorem stored_evidence_is_served_witness:
  "\<exists>sv l3 r3 C3 le' re' lmd5 rmd5.
     serve plain_env demo_build (cache_demo False 200) (demo_disk first_file) (one_local None) (one_remote None) {''a''}
       = (sv, l3, r3, C3)
     \<and> parse_md5 (cr_lmd5 first_record) = Some lmd5 \<and> parse_md5 (cr_rmd5 first_record) = Some rmd5
     \<and> om_get (li_entries l3) ''a'' = Some le' \<and> l_md5 le' = Some (from_bytes lmd5)
     \<and> om_get (ri_entries r3) ''a'' = Some re' \<and> r_md5 re' = Some (from_bytes rmd5)"
proof -
  have "md5_sized (one_local (sum_of 7)) (one_remote (sum_of 7))"
    by (auto simp: md5_sized_def one_local_def one_remote_def demo_local_def demo_remote_def om_get_def sum_of_def
        from_bytes_def split: if_splits)
  moreover have "LineRead first_record \<in> set (cf_lines first_file)"
    by (simp add: first_file_def)
  moreover have "open_validated ''/c/p.ndjson'' (demo_disk first_file) = Inr (Some first_file)"
    by code_simp
  moreover have "i64_sat_sub 200 1000 \<le> cr_t first_record" "cr_t first_record \<le> 200"
    "cr_m first_record < i64_sat_mul (i64_sat_sub (min (cr_t first_record) 100) racy_window) 1000"
    "local_agrees first_record (snd (demo_local ''a'' File 3 5000 None))"
    "remote_agrees first_record (snd (demo_remote ''a'' File 3 5 None))"
    by code_simp+
  moreover have "om_get (li_entries (one_local None)) ''a'' = Some (snd (demo_local ''a'' File 3 5000 None))"
    "om_get (ri_entries (one_remote None)) ''a'' = Some (snd (demo_remote ''a'' File 3 5 None))"
    by (simp_all add: one_local_def one_remote_def demo_local_def demo_remote_def om_get_def)
  ultimately show ?thesis
    using stored_evidence_is_served [OF first_pass, of first_record "cache_demo False 200" "demo_disk first_file" "{''a''}"
        "one_local None" "snd (demo_local ''a'' File 3 5000 None)" "one_remote None" "snd (demo_remote ''a'' File 3 5 None)"]
    by (simp add: cache_demo_simps first_record_path)
qed

section \<open>A refresh does not discard what it contradicts\<close>

text \<open>
  A concrete sequence: a pair was stored as equal; its remote content changed while size and
  time stayed; a pass asked to refresh reads both sides and finds that the digests differ; it writes
  the contradicted record back, and the next ordinary pass is served the old digest of both sides.
\<close>

lemma refresh_keeps_contradicted_evidence:
  "store demo_build (\<lambda>_. None) (cache_demo True 200) (demo_disk first_file) (one_local (sum_of 7)) (one_remote (sum_of 9)) {''a''} False
     = (Inr (written_file demo_build (cache_demo True 200) [first_evidence]), cache_demo True 200)
   \<and> serve plain_env demo_build (cache_demo False 300)
       (demo_disk (written_file demo_build (cache_demo True 200) [first_evidence])) (one_local None) (one_remote None) {''a''}
     = (\<lparr>sv_supplied = 1, sv_probes = [], sv_oldest = Some 100\<rparr>, one_local (sum_of 7), one_remote (sum_of 7),
        cache_demo False 300)"
proof (rule conjI)
  have "observation (sc_now (cache_demo True 200)) (one_local (sum_of 7)) (one_remote (sum_of 9)) ''a'' = None"
    "carried_open demo_build (cache_demo True 200) (demo_disk first_file) (one_local (sum_of 7)) False
      = ([Some first_evidence], cache_demo True 200)"
    by code_simp+
  then show "store demo_build (\<lambda>_. None) (cache_demo True 200) (demo_disk first_file) (one_local (sum_of 7)) (one_remote (sum_of 9))
      {''a''} False
     = (Inr (written_file demo_build (cache_demo True 200) [first_evidence]), cache_demo True 200)"
    by (simp add: store_def one_record one_observation)
qed (rule serve_demo [where cfile = "written_file demo_build (cache_demo True 200) [first_evidence]"
      and h = "cache_header_of demo_build (cache_demo True 200) 1" and R = "demo_read_plan (-700) 200"], code_simp+)

end
