(* ===== verification/RemoteItems.thy ===== *)
theory RemoteItems
  imports PlanFilters ErrorText Numbers
begin

text \<open>
  What File Station answers about entries (\<open>src/api.rs\<close>): the shape of an entry, its checks, the
  pages of a listing and the one entry of a \<open>getinfo\<close>. The requests themselves are questions to the
  NAS, numbered in the order they are asked, so that two answers to one question may differ.
\<close>

section \<open>Entries\<close>

record permission_wire =
  pw_adv_right :: "bool option"
  pw_acl :: "(bool option \<times> bool option) option"

record additional_wire =
  aw_size :: "u64 option"
  aw_time :: "int option option"
  aw_mount :: "string option"
  aw_real :: "string option"
  aw_perm :: "permission_wire option"

definition no_additional :: additional_wire where
  "no_additional = \<lparr>aw_size = None, aw_time = None, aw_mount = None, aw_real = None, aw_perm = None\<rparr>"

definition permission_disables_listing :: "additional_wire option \<Rightarrow> bool" where
  "permission_disables_listing additional =
     (case Option.bind additional aw_perm of
        None \<Rightarrow> False
      | Some p \<Rightarrow>
          (case pw_adv_right p of None \<Rightarrow> False | Some disabled \<Rightarrow> disabled)
          \<or> (case pw_acl p of None \<Rightarrow> False
             | Some (may_read, may_exec) \<Rightarrow> may_read = Some False \<or> may_exec = Some False))"

record item_wire =
  iw_path :: string
  iw_name :: "string option"
  iw_isdir :: "bool option"
  iw_code :: "int option"
  iw_disable_list :: bool
  iw_additional :: "additional_wire option"

record remote_item =
  it_path :: string
  it_name :: string
  it_isdir :: bool
  it_disable_list :: bool
  it_additional :: "additional_wire option"

definition auth_errors :: "(int \<times> string) list" where
  "auth_errors =
     [(400, ''account does not exist or password is incorrect''), (401, ''account is disabled''),
      (402, ''account is not permitted to sign in''), (403, ''two-factor OTP is required''),
      (404, ''two-factor OTP is invalid or expired''), (406, ''two-factor OTP is enforced''),
      (407, ''source IP is blocked''), (408, ''password has expired''), (409, ''password has expired''),
      (410, ''password must be changed'')]"

definition file_errors :: "(int \<times> string) list" where
  "file_errors =
     [(100, ''unknown error''), (101, ''missing API, method, or version parameter''),
      (102, ''requested API does not exist''), (103, ''requested method does not exist''),
      (104, ''requested API version is unsupported''), (105, ''session does not have permission''),
      (106, ''session timed out; rerun to authenticate again''),
      (107, ''session was interrupted by a duplicate login''),
      (119, ''session is invalid; rerun to authenticate again''),
      (150, ''request source IP differs from login IP; fix reverse-proxy routing''),
      (400, ''invalid file-operation parameter''), (402, ''file subsystem is busy''),
      (407, ''operation is not permitted''), (408, ''remote file or directory does not exist''),
      (411, ''remote filesystem is read-only''), (414, ''remote item already exists''),
      (415, ''disk quota exceeded''), (416, ''no space left on the device''),
      (417, ''remote input/output error''), (418, ''illegal remote name or path''),
      (421, ''remote resource is busy''), (900, ''delete failed''), (599, ''no such background task''),
      (1000, ''server-side copy failed''), (1001, ''server-side move failed''),
      (1002, ''server-side copy failed at the destination''),
      (1003, ''server-side copy destination already exists''),
      (1004, ''server-side copy cannot replace a file with a folder or a folder with a file''),
      (1006, ''a name with special characters cannot be copied to a FAT32 volume''),
      (1007, ''a file over 4 GB cannot be copied to a FAT32 volume''),
      (1100, ''folder creation failed''), (1101, ''parent folder item-count limit exceeded''),
      (1800, ''upload Content-Length is missing or mismatched''), (1801, ''upload receive timeout''),
      (1802, ''upload file part has no filename''), (1803, ''upload was cancelled''),
      (1804, ''file is too large for the destination filesystem''),
      (1805, ''upload overwrite/skip policy is missing'')]"

definition api_error_description :: "string \<Rightarrow> int \<Rightarrow> string option" where
  "api_error_description api code =
     map_of (if api = ''SYNO.API.Auth'' then auth_errors else file_errors) code"

definition into_item :: "string \<Rightarrow> string \<Rightarrow> item_wire \<Rightarrow> remote_item res" where
  "into_item api method w =
     (case (case iw_code w of None \<Rightarrow> None | Some code \<Rightarrow> if code = 0 then None else Some code) of
        Some code \<Rightarrow>
          Inl (Api api method code
            (case api_error_description api code of None \<Rightarrow> '''' | Some d \<Rightarrow> '': '' @ d))
      | None \<Rightarrow>
          let lacks = (\<lambda>missing. Inl (InvalidResponse (api @ ''.'' @ method) (''entry described no '' @ missing))) in
          (case iw_name w of
             Some name \<Rightarrow>
               (case iw_isdir w of
                  Some dir \<Rightarrow>
                    Inr \<lparr>it_path = iw_path w, it_name = name, it_isdir = dir,
                         it_disable_list = iw_disable_list w, it_additional = iw_additional w\<rparr>
                | None \<Rightarrow> lacks ''isdir'')
           | None \<Rightarrow>
               (case iw_isdir w of Some _ \<Rightarrow> lacks ''name'' | None \<Rightarrow> lacks ''name or isdir'')))"

definition item_kind :: "remote_item \<Rightarrow> entry_kind" where
  "item_kind i = (if it_isdir i then Directory else File)"

definition item_extra :: "remote_item \<Rightarrow> additional_wire" where
  "item_extra i = (case it_additional i of None \<Rightarrow> no_additional | Some a \<Rightarrow> a)"

definition file_metadata :: "string \<Rightarrow> entry_kind \<Rightarrow> additional_wire \<Rightarrow> (u64 \<times> int) res" where
  "file_metadata operation kind a =
     (let mtime = Option.bind (aw_time a) (\<lambda>t. t);
          lacks = (\<lambda>missing. Inl (InvalidResponse operation (''file information contained no '' @ missing))) in
      if kind = Directory then
        Inr (case aw_size a of None \<Rightarrow> 0 | Some s \<Rightarrow> s, case mtime of None \<Rightarrow> 0 | Some t \<Rightarrow> t)
      else
        (case aw_size a of
           Some s \<Rightarrow> (case mtime of Some t \<Rightarrow> Inr (s, t) | None \<Rightarrow> lacks ''modified time'')
         | None \<Rightarrow> (case mtime of Some _ \<Rightarrow> lacks ''byte size'' | None \<Rightarrow> lacks ''byte size or modified time'')))"

section \<open>Real paths and links\<close>

definition trim_end_slashes :: "string \<Rightarrow> string" where
  "trim_end_slashes s = rev (dropWhile (\<lambda>c. c = slash) (rev s))"

definition walked_real_path_key :: "text_env \<Rightarrow> string \<Rightarrow> string" where
  "walked_real_path_key E path =
     (let trimmed = trim_end_slashes path in nfc E (if trimmed = [] then [slash] else trimmed))"

definition reported_real_path :: "additional_wire \<Rightarrow> string option" where
  "reported_real_path a =
     (case aw_real a of
        None \<Rightarrow> None
      | Some value \<Rightarrow> if trim value = [] then None else Some (trim value))"

definition linked_entry_cause ::
  "text_env \<Rightarrow> string \<Rightarrow> string \<Rightarrow> string option \<Rightarrow> (remote_skip_reason \<times> string) option"
where
  "linked_entry_cause E parent_real name real =
     (let expected = trim_end_slashes parent_real @ slash # name;
          key = walked_real_path_key E in
      case real of
        Some real \<Rightarrow>
          if key real = key expected then None
          else if lower_table E (key real) = lower_table E (key expected) then
            Some (LinksOutsideDestination,
              ''its real path '' @ debug_str E real @ '' differs from its listing '' @ debug_str E expected
              @ '' only in letter case, which on a case-sensitive volume is another folder'')
          else if \<not> prefix [slash] real then
            Some (LinksOutsideDestination,
              ''its real path '' @ debug_str E real @ '' cannot be resolved against '' @ debug_str E expected)
          else
            Some (LinksOutsideDestination,
              ''listed under the destination, but its real path is '' @ debug_str E real)
      | None \<Rightarrow>
          Some (LinksOutsideDestination,
            ''the NAS reported no real path for it, though it did for its folder '' @ debug_str E parent_real))"

definition link_verdict ::
  "text_env \<Rightarrow> string option \<Rightarrow> string \<Rightarrow> string option \<Rightarrow> bool \<Rightarrow> string set
     \<Rightarrow> (remote_skip_reason \<times> string) option"
where
  "link_verdict E parent_real name real dir visited =
     (case (case real of
              Some r \<Rightarrow> if dir \<and> walked_real_path_key E r \<in> visited then Some r else None
            | None \<Rightarrow> None) of
        Some r \<Rightarrow> Some (RevisitedFolder, ''its real path '' @ debug_str E r @ '' was already walked'')
      | None \<Rightarrow> Option.bind parent_real (\<lambda>p. linked_entry_cause E p name real))"

section \<open>Questions to the NAS\<close>

record list_data =
  ld_total :: nat
  ld_files :: "item_wire list"

text \<open>
  The answers: to the \<open>n\<close>-th question, after the retries and the session recovery of the client.
  \<open>None\<close> is a response that succeeded and carries no data. \<open>nr_session\<close> says whether a request every
  account may make succeeds, \<open>nr_cancelled\<close> whether the run has been cancelled by then.
\<close>

record nas_reads =
  nr_info :: "nat \<Rightarrow> string \<Rightarrow> item_wire list option res"
  nr_page :: "nat \<Rightarrow> string \<Rightarrow> nat \<Rightarrow> list_data option res"
  nr_session :: "nat \<Rightarrow> bool"
  nr_cancelled :: "nat \<Rightarrow> bool"

type_synonym 'a answered = "'a res \<times> nat"

definition list_operation :: string where
  "list_operation = ''SYNO.FileStation.List.list''"

definition info_operation :: string where
  "info_operation = ''SYNO.FileStation.List.getinfo''"

definition get_info :: "text_env \<Rightarrow> nas_reads \<Rightarrow> string \<Rightarrow> nat \<Rightarrow> remote_item answered" where
  "get_info E N path n =
     ((case nr_info N n path of
         Inl e \<Rightarrow> Inl e
       | Inr None \<Rightarrow> Inl (InvalidResponse info_operation ''successful response contained no path information'')
       | Inr (Some files) \<Rightarrow>
           if length files \<noteq> 1 then
             Inl (InvalidResponse info_operation
               (''expected exactly one result for '' @ debug_str E path @ '', received '' @ show_nat (length files)))
           else if iw_path (last files) \<noteq> path then
             Inl (InvalidResponse info_operation
               (''server returned path '' @ debug_str E (iw_path (last files)) @ '' while inspecting '' @ debug_str E path))
           else into_item ''SYNO.FileStation.List'' ''getinfo'' (last files)),
      Suc n)"

definition naming_listed_folder :: "text_env \<Rightarrow> error \<Rightarrow> string \<Rightarrow> error" where
  "naming_listed_folder E e folder =
     (let suffixed = (\<lambda>text. text @ '' (listing '' @ debug_str E folder @ '')'') in
      case e of
        Api api operation code description \<Rightarrow> Api api operation code (suffixed description)
      | InvalidResponse operation message \<Rightarrow> InvalidResponse operation (suffixed message)
      | other \<Rightarrow> other)"

record directory_listing =
  dl_items :: "remote_item list"
  dl_declared :: nat
  dl_changed_to :: "nat option"

definition is_whole :: "directory_listing \<Rightarrow> bool" where
  "is_whole l = (dl_changed_to l = None \<and> length (dl_items l) = dl_declared l)"

text \<open>The pages from an offset on.\<close>

function list_pages ::
  "text_env \<Rightarrow> nas_reads \<Rightarrow> string \<Rightarrow> nat \<Rightarrow> nat \<Rightarrow> remote_item list \<Rightarrow> nat \<Rightarrow> directory_listing answered"
where
  "list_pages E N folder offset declared acc n =
     (if nr_cancelled N n then (Inl Cancelled, n)
      else
        (case nr_page N n folder offset of
           Inl e \<Rightarrow> (Inl (naming_listed_folder E e folder), Suc n)
         | Inr None \<Rightarrow>
             (Inl (InvalidResponse list_operation
                (''successful response contained no directory data for '' @ debug_str E folder)), Suc n)
         | Inr (Some page) \<Rightarrow>
             if offset \<noteq> 0 \<and> ld_total page \<noteq> declared then
               (Inr \<lparr>dl_items = acc, dl_declared = declared, dl_changed_to = Some (ld_total page)\<rparr>, Suc n)
             else
               (case collect (into_item ''SYNO.FileStation.List'' ''list'') (ld_files page) of
                  Inl e \<Rightarrow> (Inl e, Suc n)
                | Inr items \<Rightarrow>
                    let seen = length (ld_files page); out = acc @ items in
                    if ld_total page \<le> offset + seen \<or> seen = 0 then
                      (Inr \<lparr>dl_items = out, dl_declared = ld_total page, dl_changed_to = None\<rparr>, Suc n)
                    else list_pages E N folder (offset + seen) (ld_total page) out (Suc n))))"
  by pat_completeness auto

termination
  by (relation "measures [\<lambda>(E, N, folder, offset, declared, acc, n). if offset = 0 then 1 else 0,
                          \<lambda>(E, N, folder, offset, declared, acc, n). declared - offset]")
    (auto simp flip: length_greater_0_conv)

declare list_pages.simps [simp del]

definition list_directory_pass :: "text_env \<Rightarrow> nas_reads \<Rightarrow> string \<Rightarrow> nat \<Rightarrow> directory_listing answered" where
  "list_directory_pass E N folder n = list_pages E N folder 0 0 [] n"

text \<open>The entries, and whether they are the whole folder.\<close>

definition list_directory :: "text_env \<Rightarrow> nas_reads \<Rightarrow> string \<Rightarrow> nat \<Rightarrow> (remote_item list \<times> bool) answered" where
  "list_directory E N folder n =
     (case list_directory_pass E N folder n of
        (Inl e, n1) \<Rightarrow> (Inl e, n1)
      | (Inr l, n1) \<Rightarrow>
          if is_whole l then (Inr (dl_items l, True), n1)
          else
            (case list_directory_pass E N folder n1 of
               (Inl e, n2) \<Rightarrow> (Inl e, n2)
             | (Inr l2, n2) \<Rightarrow> (Inr (dl_items l2, is_whole l2), n2)))"

end
