(* ===== verification/RemoteWalk.thy ===== *)
theory RemoteWalk
  imports RemoteItems
begin

text \<open>
  The walk over the destination (\<open>remote_inventory_scoped\<close> in \<open>src/api.rs\<close>): the folders on the way
  to the scope, then every folder beneath it, links and mounts as boundaries, within a budget.
\<close>

record scoped_inventory =
  sw_inventory :: remote_inventory
  sw_complete :: bool
  sw_incomplete :: "string list"
  sw_skipped :: "skipped_remote_entry list"
  sw_unchecked :: nat
  sw_checks :: link_check_counts
  sw_vanished :: "string list"

definition no_link_checks :: link_check_counts where
  "no_link_checks =
     \<lparr>lk_files_checked = 0, lk_folders_checked = 0, lk_files_linked = 0, lk_folders_linked = 0\<rparr>"

section \<open>The folders on the way to the scope\<close>

fun prefixes_from :: "string \<Rightarrow> string list \<Rightarrow> string list" where
  "prefixes_from current [] = []"
| "prefixes_from current (c # cs) = (current @ slash # c) # prefixes_from (current @ slash # c) cs"

definition absolute_prefixes :: "string \<Rightarrow> string list" where
  "absolute_prefixes path = prefixes_from [] (split_on slash (dropWhile (\<lambda>c. c = slash) path))"

record way_state =
  wy_entries :: "remote_entry omap"
  wy_scope_real :: "string option"
  wy_unchecked :: nat
  wy_parent_real :: "string option"
  wy_reals :: "string set"
  wy_file :: bool

definition way_start :: way_state where
  "way_start = \<lparr>wy_entries = [], wy_scope_real = None, wy_unchecked = 0, wy_parent_real = None,
     wy_reals = {}, wy_file = False\<rparr>"

definition entry_of :: "string \<Rightarrow> string \<Rightarrow> entry_kind \<Rightarrow> u64 \<Rightarrow> int \<Rightarrow> string option \<Rightarrow> remote_entry" where
  "entry_of relative path kind sz mtime mount =
     \<lparr>r_relative = relative, r_path = path, r_kind = kind, r_size = sz, r_mtime = mtime,
      r_mount = mount, r_md5 = None\<rparr>"

text \<open>A mount type DSM reports, unless it is blank.\<close>

definition named_mount :: "additional_wire \<Rightarrow> string option" where
  "named_mount a =
     (case aw_mount a of None \<Rightarrow> None | Some m \<Rightarrow> if trim m = [] then None else Some m)"

text \<open>What one element of the way adds, once it is known not to be a mount.\<close>

definition way_entry ::
  "text_env \<Rightarrow> remote_root \<Rightarrow> string \<Rightarrow> remote_item \<Rightarrow> string option \<Rightarrow> way_state \<Rightarrow> way_state res"
where
  "way_entry E root path info real w =
     (if \<not> contains_child root path then Inr w
      else
        bind_r (root_relative root path) (\<lambda>relative.
        bind_r (file_metadata ''SYNO.FileStation.Getinfo.getinfo'' (item_kind info) (item_extra info)) (\<lambda>(sz, mtime).
          let w = w\<lparr>wy_unchecked := wy_unchecked w + (if wy_parent_real w = None then 1 else 0)\<rparr> in
          case link_verdict E (wy_parent_real w) (it_name info) real (it_isdir info) (wy_reals w) of
            Some (_, cause) \<Rightarrow> Inl (RemoteLinkInScope path cause)
          | None \<Rightarrow>
              Inr (w\<lparr>wy_entries := om_insert relative
                       (entry_of relative path (item_kind info) sz mtime None) (wy_entries w)\<rparr>))))"

text \<open>From the root down, what the next element is checked against.\<close>

definition way_mark :: "text_env \<Rightarrow> remote_root \<Rightarrow> string \<Rightarrow> string option \<Rightarrow> bool \<Rightarrow> way_state \<Rightarrow> way_state" where
  "way_mark E root path real names_file w =
     (let w = (if path = root_str root \<or> contains_child root path then
                 w\<lparr>wy_reals := (case real of None \<Rightarrow> wy_reals w
                      | Some r \<Rightarrow> insert (walked_real_path_key E r) (wy_reals w)),
                   wy_parent_real := real\<rparr>
               else w) in
      w\<lparr>wy_file := (wy_file w \<or> names_file)\<rparr>)"

definition way_step ::
  "text_env \<Rightarrow> remote_root \<Rightarrow> scope \<Rightarrow> string \<Rightarrow> string \<Rightarrow> remote_item \<Rightarrow> way_state \<Rightarrow> way_state res"
where
  "way_step E root scope scope_path path info w =
     (let names_file = (path = scope_path \<and> \<not> scope_is_root scope \<and> \<not> it_isdir info);
          extra = item_extra info; real = reported_real_path extra in
      if \<not> it_isdir info \<and> \<not> names_file then
        Inl (Message (''remote destination ancestor '' @ path @ '' exists but is not a directory''))
      else
        (case named_mount extra of
           Some mount \<Rightarrow> Inl (RemoteMountRoot path mount)
         | None \<Rightarrow>
             let w = (if path = scope_path then w\<lparr>wy_scope_real := real\<rparr> else w) in
             map_r (way_mark E root path real names_file) (way_entry E root path info real w)))"

text \<open>Every folder of the way; \<open>None\<close> when one is absent, with whether the root exists.\<close>

fun walk_way ::
  "text_env \<Rightarrow> nas_reads \<Rightarrow> remote_root \<Rightarrow> scope \<Rightarrow> string \<Rightarrow> string list \<Rightarrow> way_state \<Rightarrow> nat
     \<Rightarrow> (bool \<times> bool \<times> way_state) answered"
where
  "walk_way E N root scope scope_path [] w n = (Inr (True, True, w), n)"
| "walk_way E N root scope scope_path (path # paths) w n =
     (if nr_cancelled N n then (Inl Cancelled, n)
      else
        (case get_info E N path n of
           (Inl e, n1) \<Rightarrow>
             if api_code e = Some 408 then
               (Inr (False, length (root_str root) < length path, w), n1)
             else (Inl e, n1)
         | (Inr info, n1) \<Rightarrow>
             (case way_step E root scope scope_path path info w of
                Inl e \<Rightarrow> (Inl e, n1)
              | Inr w' \<Rightarrow> walk_way E N root scope scope_path paths w' n1)))"

section \<open>One entry of a listing\<close>

record walk_state =
  wk_entries :: "remote_entry omap"
  wk_pending :: "(string \<times> string option) list"
  wk_root_exists :: bool
  wk_complete :: bool
  wk_incomplete :: "string list"
  wk_skipped :: "skipped_remote_entry list"
  wk_unchecked :: nat
  wk_checks :: link_check_counts
  wk_vanished :: "string list"
  wk_visited :: "string set"

definition walk_excluded :: "text_env \<Rightarrow> ignore_rules \<Rightarrow> string \<Rightarrow> bool \<Rightarrow> bool" where
  "walk_excluded E rules relative dir = (is_dsm_managed relative \<or> is_ignored E rules relative dir)"

definition skipped_item ::
  "string \<Rightarrow> remote_item \<Rightarrow> remote_skip_reason \<Rightarrow> bool \<Rightarrow> string \<Rightarrow> skipped_remote_entry"
where
  "skipped_item parent item reason excluded cause =
     \<lparr>sr_parent = parent, sr_name = it_name item, sr_remote_path = it_path item, sr_kind = item_kind item,
      sr_reason = reason, sr_excluded = excluded, sr_cause = cause\<rparr>"

text \<open>The folder of a listing: its path, its path below the root, and its real path.\<close>

record walk_folder =
  wf_path :: string
  wf_relative :: string
  wf_real :: "string option"

text \<open>The verdict on an entry, counted and named.\<close>

definition note_link ::
  "walk_folder \<Rightarrow> remote_item \<Rightarrow> bool \<Rightarrow> (remote_skip_reason \<times> string) option \<Rightarrow> walk_state \<Rightarrow> walk_state"
where
  "note_link F item excluded link st =
     (let st = (if wf_real F \<noteq> None \<and> \<not> excluded
                then st\<lparr>wk_checks := link_record (it_isdir item) (map_option fst link) (wk_checks st)\<rparr> else st) in
      case link of
        Some (reason, cause) \<Rightarrow>
          st\<lparr>wk_skipped := wk_skipped st @ [skipped_item (wf_relative F) item reason excluded cause]\<rparr>
      | None \<Rightarrow> st)"

text \<open>An entry with a path this tool can name: the flag says that the budget is spent.\<close>

definition walk_entry ::
  "text_env \<Rightarrow> ignore_rules \<Rightarrow> nat \<Rightarrow> walk_folder \<Rightarrow> remote_item \<Rightarrow> string \<Rightarrow> walk_state \<Rightarrow> (bool \<times> walk_state) res"
where
  "walk_entry E rules budget F item relative st =
     bind_r (file_metadata list_operation (item_kind item) (item_extra item)) (\<lambda>(sz, mtime).
       let real = reported_real_path (item_extra item);
           link = link_verdict E (wf_real F) (it_name item) real (it_isdir item) (wk_visited st);
           excluded = walk_excluded E rules relative (it_isdir item);
           mount = (case link of Some _ \<Rightarrow> Some linked_entry_mount_type | None \<Rightarrow> named_mount (item_extra item));
           st = note_link F item excluded link st in
       if budget \<le> length (wk_entries st) then Inr (True, st\<lparr>wk_complete := False\<rparr>)
       else if om_has (wk_entries st) relative then
         Inl (InvalidResponse list_operation (''server returned duplicate path '' @ debug_str E relative))
       else
         let st = st\<lparr>wk_entries := om_insert relative
                (entry_of relative (it_path item) (item_kind item) sz mtime mount) (wk_entries st)\<rparr> in
         if it_isdir item \<and> mount = None \<and> \<not> excluded then
           Inr (False, st\<lparr>wk_visited := (case real of None \<Rightarrow> wk_visited st
                            | Some r \<Rightarrow> insert (walked_real_path_key E r) (wk_visited st)),
                          wk_pending := (it_path item, real) # wk_pending st\<rparr>)
         else Inr (False, st))"

definition walk_item ::
  "text_env \<Rightarrow> remote_root \<Rightarrow> ignore_rules \<Rightarrow> nat \<Rightarrow> walk_folder \<Rightarrow> remote_item \<Rightarrow> walk_state \<Rightarrow> (bool \<times> walk_state) res"
where
  "walk_item E root rules budget F item st =
     bind_r (parent_and_name (it_path item)) (\<lambda>(parent, name).
       if parent \<noteq> wf_path F \<or> name \<noteq> it_name item then
         Inl (InvalidResponse list_operation
           (''server returned inconsistent child path '' @ debug_str E (it_path item)
             @ '' while listing '' @ debug_str E (wf_path F)))
       else
         (case root_relative root (it_path item) of
            Inl (UnsafeRemotePath _ reason) \<Rightarrow>
              let raw = (if wf_relative F = [] then it_name item else wf_relative F @ slash # it_name item) in
              Inr (False, st\<lparr>wk_skipped := wk_skipped st
                @ [skipped_item (wf_relative F) item UnrepresentableRemoteName
                     (walk_excluded E rules raw (it_isdir item)) reason]\<rparr>)
          | Inl e \<Rightarrow> Inl e
          | Inr relative \<Rightarrow>
              if relative = [] then
                Inl (InvalidResponse list_operation ''directory listing unexpectedly included its own root'')
              else walk_entry E rules budget F item relative st))"

fun walk_items ::
  "text_env \<Rightarrow> remote_root \<Rightarrow> ignore_rules \<Rightarrow> nat \<Rightarrow> walk_folder \<Rightarrow> remote_item list \<Rightarrow> walk_state
     \<Rightarrow> (bool \<times> walk_state) res"
where
  "walk_items E root rules budget F [] st = Inr (False, st)"
| "walk_items E root rules budget F (item # rest) st =
     bind_r (walk_item E root rules budget F item st) (\<lambda>(spent, st).
       if spent then Inr (True, st) else walk_items E root rules budget F rest st)"

section \<open>One folder, and the walk\<close>

definition parent_relative :: "string \<Rightarrow> string" where
  "parent_relative relative = (case rsplit_once slash relative of None \<Rightarrow> [] | Some (parent, _) \<Rightarrow> parent)"

text \<open>A refusal of this account is one only while the session lives.\<close>

definition refuses_listing :: "nas_reads \<Rightarrow> error \<Rightarrow> nat \<Rightarrow> bool \<times> nat" where
  "refuses_listing N e n =
     (if api_code e = Some 407 then (True, n)
      else if api_code e = Some 105 then (nr_session N n, Suc n)
      else (False, n))"

definition vanished_folder :: "remote_root \<Rightarrow> string \<Rightarrow> walk_state \<Rightarrow> walk_state res" where
  "vanished_folder root folder st =
     map_r (\<lambda>relative.
       st\<lparr>wk_entries := om_remove relative (wk_entries st),
          wk_incomplete := wk_incomplete st @ [parent_relative relative],
          wk_vanished := wk_vanished st @ [relative]\<rparr>) (root_relative root folder)"

definition mark_unlistable :: "remote_entry \<Rightarrow> remote_entry" where
  "mark_unlistable e = e\<lparr>r_mount := Some unlistable_entry_mount_type\<rparr>"

definition unlistable_folder ::
  "text_env \<Rightarrow> remote_root \<Rightarrow> ignore_rules \<Rightarrow> error \<Rightarrow> string \<Rightarrow> walk_state \<Rightarrow> walk_state res"
where
  "unlistable_folder E root rules e folder st =
     bind_r (root_relative root folder) (\<lambda>relative.
     map_r (\<lambda>(_, name).
       st\<lparr>wk_entries := map (\<lambda>(k, v). (k, if k = relative then mark_unlistable v else v)) (wk_entries st),
          wk_skipped := wk_skipped st
            @ [\<lparr>sr_parent = parent_relative relative, sr_name = name, sr_remote_path = folder,
                sr_kind = Directory, sr_reason = UnlistableFolder,
                sr_excluded = walk_excluded E rules relative True,
                sr_cause = ''File Station refused to list it with code ''
                  @ show_int (case api_code e of None \<Rightarrow> 0 | Some c \<Rightarrow> c)\<rparr>],
          wk_incomplete := wk_incomplete st @ [relative]\<rparr>) (parent_and_name folder))"

definition listed_folder ::
  "text_env \<Rightarrow> remote_root \<Rightarrow> ignore_rules \<Rightarrow> nat \<Rightarrow> string \<Rightarrow> string option \<Rightarrow> remote_item list \<times> bool
     \<Rightarrow> walk_state \<Rightarrow> (bool \<times> walk_state) res"
where
  "listed_folder E root rules budget folder real listing st =
     bind_r (root_relative root folder) (\<lambda>relative.
       walk_items E root rules budget \<lparr>wf_path = folder, wf_relative = relative, wf_real = real\<rparr> (fst listing)
         (st\<lparr>wk_incomplete := wk_incomplete st @ (if snd listing then [] else [relative]),
             wk_unchecked := wk_unchecked st + (if real = None then 1 else 0)\<rparr>))"

text \<open>The answer to listing one folder; the flag says that the walk is over.\<close>

definition failed_listing ::
  "text_env \<Rightarrow> nas_reads \<Rightarrow> remote_root \<Rightarrow> ignore_rules \<Rightarrow> string \<Rightarrow> string \<Rightarrow> error \<Rightarrow> walk_state \<Rightarrow> nat
     \<Rightarrow> (bool \<times> walk_state) answered"
where
  "failed_listing E N root rules scope_path folder e st n =
     (let go_on = map_r (\<lambda>st. (False, st)) in
      if folder = root_str root \<and> api_code e = Some 408 then (Inr (True, st\<lparr>wk_root_exists := False\<rparr>), n)
      else if folder = scope_path \<and> api_code e = Some 408 then (Inr (True, st), n)
      else if folder \<noteq> scope_path \<and> api_code e = Some 408 then (go_on (vanished_folder root folder st), n)
      else if folder = scope_path then (Inl e, n)
      else
        (case refuses_listing N e n of (refused, n1) \<Rightarrow>
           if refused then (go_on (unlistable_folder E root rules e folder st), n1) else (Inl e, n1)))"

definition visit_folder ::
  "text_env \<Rightarrow> nas_reads \<Rightarrow> remote_root \<Rightarrow> ignore_rules \<Rightarrow> nat \<Rightarrow> string \<Rightarrow> string \<Rightarrow> string option
     \<Rightarrow> walk_state \<Rightarrow> nat \<Rightarrow> (bool \<times> walk_state) answered"
where
  "visit_folder E N root rules budget scope_path folder real st n =
     (case list_directory E N folder n of
        (Inr listing, n1) \<Rightarrow> (listed_folder E root rules budget folder real listing st, n1)
      | (Inl e, n1) \<Rightarrow> failed_listing E N root rules scope_path folder e st n1)"

partial_function (option) remote_walk ::
  "text_env \<Rightarrow> nas_reads \<Rightarrow> remote_root \<Rightarrow> ignore_rules \<Rightarrow> nat \<Rightarrow> string \<Rightarrow> walk_state \<Rightarrow> nat
     \<Rightarrow> walk_state answered option"
where
  "remote_walk E N root rules budget scope_path st n =
     (case wk_pending st of
        [] \<Rightarrow> Some (Inr st, n)
      | (folder, real) # rest \<Rightarrow>
          if nr_cancelled N n then Some (Inl Cancelled, n)
          else
            (case visit_folder E N root rules budget scope_path folder real (st\<lparr>wk_pending := rest\<rparr>) n of
               (Inl e, n1) \<Rightarrow> Some (Inl e, n1)
             | (Inr (over, st1), n1) \<Rightarrow>
                 if over then Some (Inr st1, n1) else remote_walk E N root rules budget scope_path st1 n1))"

definition scoped_of :: "walk_state \<Rightarrow> scoped_inventory" where
  "scoped_of st =
     \<lparr>sw_inventory = \<lparr>ri_root_exists = wk_root_exists st, ri_entries = wk_entries st\<rparr>,
      sw_complete = wk_complete st, sw_incomplete = wk_incomplete st, sw_skipped = wk_skipped st,
      sw_unchecked = wk_unchecked st, sw_checks = wk_checks st, sw_vanished = wk_vanished st\<rparr>"

definition walk_start :: "bool \<Rightarrow> string \<Rightarrow> way_state \<Rightarrow> walk_state" where
  "walk_start root_exists scope_path w =
     \<lparr>wk_entries = wy_entries w,
      wk_pending = (if wy_file w then [] else [(scope_path, wy_scope_real w)]),
      wk_root_exists = root_exists, wk_complete = True, wk_incomplete = [], wk_skipped = [],
      wk_unchecked = wy_unchecked w, wk_checks = no_link_checks, wk_vanished = [],
      wk_visited = wy_reals w\<rparr>"

definition remote_inventory_scoped ::
  "text_env \<Rightarrow> nas_reads \<Rightarrow> remote_root \<Rightarrow> scope \<Rightarrow> ignore_rules \<Rightarrow> nat \<Rightarrow> nat \<Rightarrow> scoped_inventory answered option"
where
  "remote_inventory_scoped E N root scope rules budget n =
     (case root_join root (scope_str scope) of
        Inl e \<Rightarrow> Some (Inl e, n)
      | Inr scope_path \<Rightarrow>
          (case walk_way E N root scope scope_path (absolute_prefixes scope_path) way_start n of
             (Inl e, n1) \<Rightarrow> Some (Inl e, n1)
           | (Inr (present, root_exists, w), n1) \<Rightarrow>
               if \<not> present then
                 Some (Inr (scoped_of ((walk_start root_exists scope_path w)\<lparr>wk_pending := []\<rparr>)), n1)
               else
                 map_option (\<lambda>(r, n2). (map_r scoped_of r, n2))
                   (remote_walk E N root rules budget scope_path (walk_start root_exists scope_path w) n1)))"

end
