(* ===== verification/WalkShape.thy ===== *)
theory WalkShape
  imports RemoteWalk
begin

text \<open>
  The shape every state of the remote walk has: which folders have been listed, and where the
  entries come from.
\<close>

section \<open>The invariant\<close>

definition open_entry :: "text_env \<Rightarrow> ignore_rules \<Rightarrow> string \<Rightarrow> remote_entry \<Rightarrow> bool" where
  "open_entry E rules relative e =
     (r_kind e = Directory \<and> r_mount e = None \<and> \<not> walk_excluded E rules relative True)"

text \<open>The scope's folder, or one beneath it that its parent listed as a plain folder.\<close>

definition known_folder ::
  "text_env \<Rightarrow> remote_root \<Rightarrow> ignore_rules \<Rightarrow> string \<Rightarrow> remote_entry omap \<Rightarrow> string \<Rightarrow> bool"
where
  "known_folder E root rules scope m folder =
     (folder = scope \<or> beneath scope folder \<and> (\<exists>rel e. rel \<noteq> [] \<and> root_relative root folder = Inr rel
        \<and> om_get m rel = Some e \<and> open_entry E rules rel e))"

text \<open>An entry of the way to the scope, or one of a folder that was listed.\<close>

definition child_of :: "string \<Rightarrow> string \<Rightarrow> bool" where
  "child_of folder path = (\<exists>name. path = folder @ slash # name \<and> slash \<notin> set name)"

definition placed_entry ::
  "text_env \<Rightarrow> ignore_rules \<Rightarrow> string \<Rightarrow> string set \<Rightarrow> string set \<Rightarrow> string \<Rightarrow> remote_entry \<Rightarrow> bool"
where
  "placed_entry E rules scope listed waiting rel e =
     (at_or_beneath (r_path e) scope \<and> r_mount e = None
      \<or> beneath scope (r_path e) \<and> (\<exists>folder \<in> listed. child_of folder (r_path e))
        \<and> (open_entry E rules rel e \<longrightarrow> r_path e \<in> listed \<union> waiting))"

definition walk_shape ::
  "text_env \<Rightarrow> remote_root \<Rightarrow> ignore_rules \<Rightarrow> string \<Rightarrow> string set \<Rightarrow> string set \<Rightarrow> walk_state \<Rightarrow> bool"
where
  "walk_shape E root rules scope current listed st =
     (om_wf (wk_entries st)
      \<and> distinct (map fst (wk_pending st)) \<and> set (map fst (wk_pending st)) \<inter> (listed \<union> current) = {} \<and> listed \<inter> current = {}
      \<and> (\<forall>folder \<in> set (map fst (wk_pending st)) \<union> listed \<union> current. known_folder E root rules scope (wk_entries st) folder)
      \<and> (\<forall>rel e. om_get (wk_entries st) rel = Some e \<longrightarrow> rel \<noteq> [] \<and> root_relative root (r_path e) = Inr rel
           \<and> placed_entry E rules scope listed (set (map fst (wk_pending st)) \<union> current) rel e))"

lemma root_relative_inj:
  "root_relative root p = Inr rel \<Longrightarrow> root_relative root q = Inr rel \<Longrightarrow> rel \<noteq> [] \<Longrightarrow> p = q"
  by (auto simp: root_relative_Inr_iff)

lemma known_folder_mono:
  assumes "known_folder E root rules scope m folder"
    and "\<And>rel e. root_relative root folder = Inr rel \<Longrightarrow> om_get m rel = Some e \<Longrightarrow> om_get m' rel = Some e"
  shows "known_folder E root rules scope m' folder"
  using assms unfolding known_folder_def by blast

lemma known_folder_within: "known_folder E root rules scope m folder \<Longrightarrow> at_or_beneath scope folder"
  by (auto simp: known_folder_def at_or_beneath_def)

text \<open>Two states of one walk: entries are only added, unless they are named as vanished.\<close>

definition walk_grows :: "walk_state \<Rightarrow> walk_state \<Rightarrow> bool" where
  "walk_grows st st' =
     ((\<forall>rel e. om_get (wk_entries st) rel = Some e \<longrightarrow> rel \<in> set (wk_vanished st')
         \<or> (\<exists>mount. om_get (wk_entries st') rel = Some (e\<lparr>r_mount := mount\<rparr>) \<and> (r_mount e = None \<or> mount \<noteq> None)))
      \<and> set (wk_vanished st) \<subseteq> set (wk_vanished st') \<and> set (wk_skipped st) \<subseteq> set (wk_skipped st')
      \<and> set (wk_incomplete st) \<subseteq> set (wk_incomplete st'))"

lemma same_mount: "e = e\<lparr>r_mount := r_mount e\<rparr>" for e :: remote_entry
  by simp

lemma walk_growsI:
  assumes "\<And>rel e. om_get (wk_entries st) rel = Some e \<Longrightarrow> om_get (wk_entries st') rel = Some e"
    and "set (wk_vanished st) \<subseteq> set (wk_vanished st')" "set (wk_skipped st) \<subseteq> set (wk_skipped st')"
    and "set (wk_incomplete st) \<subseteq> set (wk_incomplete st')"
  shows "walk_grows st st'"
  using assms same_mount unfolding walk_grows_def by metis

lemma walk_grows_refl: "walk_grows st st"
  by (rule walk_growsI) auto

lemma walk_grows_trans:
  assumes "walk_grows a b" and "walk_grows b c"
  shows "walk_grows a c"
proof -
  have "rel \<in> set (wk_vanished c)
      \<or> (\<exists>mount. om_get (wk_entries c) rel = Some (e\<lparr>r_mount := mount\<rparr>) \<and> (r_mount e = None \<or> mount \<noteq> None))"
    if "om_get (wk_entries a) rel = Some e" for rel e
  proof (cases "rel \<in> set (wk_vanished b)")
    case True
    with assms(2) show ?thesis by (auto simp: walk_grows_def)
  next
    case False
    with assms(1) that obtain m where m: "om_get (wk_entries b) rel = Some (e\<lparr>r_mount := m\<rparr>)" "r_mount e = None \<or> m \<noteq> None"
      unfolding walk_grows_def by blast
    from assms(2) m(1) have "rel \<in> set (wk_vanished c) \<or> (\<exists>m'. om_get (wk_entries c) rel = Some (e\<lparr>r_mount := m\<rparr>\<lparr>r_mount := m'\<rparr>)
        \<and> (r_mount (e\<lparr>r_mount := m\<rparr>) = None \<or> m' \<noteq> None))"
      unfolding walk_grows_def by blast
    with m(2) show ?thesis by auto
  qed
  with assms show ?thesis
    by (auto simp: walk_grows_def)
qed

section \<open>One entry\<close>

text \<open>What the walk keeps of an item: its entry, its place among the vanished, or a named skip.\<close>

definition kept_item :: "remote_item \<Rightarrow> remote_entry \<Rightarrow> bool" where
  "kept_item item e =
     (r_path e = it_path item \<and> r_kind e = item_kind item
      \<and> (r_kind e = File \<longrightarrow> aw_size (item_extra item) = Some (r_size e) \<and> aw_time (item_extra item) = Some (Some (r_mtime e))))"

text \<open>
  An item that is not what its place says: its folder's real path is known, and its own is unknown or
  another than its name in that folder.
\<close>

definition elsewhere :: "text_env \<Rightarrow> string option \<Rightarrow> remote_item \<Rightarrow> bool" where
  "elsewhere E real item =
     (\<exists>parent. real = Some parent
        \<and> (\<forall>r. reported_real_path (item_extra item) = Some r \<longrightarrow>
             walked_real_path_key E r \<noteq> walked_real_path_key E (trim_end_slashes parent @ slash # it_name item)))"

definition boundary_item :: "text_env \<Rightarrow> string option \<Rightarrow> remote_item \<Rightarrow> bool" where
  "boundary_item E real item = (named_mount (item_extra item) \<noteq> None \<or> elsewhere E real item)"

lemma elsewhere_verdict:
  assumes "elsewhere E real item"
  shows "link_verdict E real (it_name item) (reported_real_path (item_extra item)) dir visited \<noteq> None"
  using assms
  by (auto simp: elsewhere_def link_verdict_def linked_entry_cause_def Let_def split: option.splits)

definition accounted :: "text_env \<Rightarrow> string option \<Rightarrow> remote_root \<Rightarrow> walk_state \<Rightarrow> remote_item \<Rightarrow> bool" where
  "accounted E real root st item =
     ((\<exists>rel. root_relative root (it_path item) = Inr rel \<and> (rel \<in> set (wk_vanished st)
         \<or> (\<exists>e. om_get (wk_entries st) rel = Some e \<and> kept_item item e
              \<and> (boundary_item E real item \<longrightarrow> r_mount e \<noteq> None))))
      \<or> (\<exists>s \<in> set (wk_skipped st). sr_remote_path s = it_path item \<and> sr_reason s = UnrepresentableRemoteName))"

lemma kept_item_mount [simp]: "kept_item item (e\<lparr>r_mount := m\<rparr>) = kept_item item e"
  by (simp add: kept_item_def)

lemma accounted_grows:
  assumes "accounted E real root st item" and "walk_grows st st'"
  shows "accounted E real root st' item"
proof -
  let ?kept = "\<lambda>e. kept_item item e \<and> (boundary_item E real item \<longrightarrow> r_mount e \<noteq> None)"
  have "rel \<in> set (wk_vanished st') \<or> (\<exists>e. om_get (wk_entries st') rel = Some e \<and> ?kept e)"
    if get: "om_get (wk_entries st) rel = Some e" and kept: "?kept e" for rel e
  proof -
    from assms(2) get have "rel \<in> set (wk_vanished st')
        \<or> (\<exists>m. om_get (wk_entries st') rel = Some (e\<lparr>r_mount := m\<rparr>) \<and> (r_mount e = None \<or> m \<noteq> None))"
      unfolding walk_grows_def by blast
    moreover have "?kept (e\<lparr>r_mount := m\<rparr>)" if "r_mount e = None \<or> m \<noteq> None" for m
      using kept that by auto
    ultimately show ?thesis by blast
  qed
  with assms show ?thesis
    unfolding accounted_def walk_grows_def by (meson subsetD)
qed

lemma metadata_kept:
  "file_metadata operation (item_kind item) (item_extra item) = Inr (sz, mtime) \<Longrightarrow>
     kept_item item (entry_of rel (it_path item) (item_kind item) sz mtime mount)"
  by (auto simp: file_metadata_def kept_item_def entry_of_def Let_def bind_eq_Some_conv split: option.splits if_splits)

lemma note_link_form:
  obtains skipped checks where
    "note_link F item excluded link st = st\<lparr>wk_checks := checks, wk_skipped := wk_skipped st @ skipped\<rparr>"
proof -
  have "\<exists>skipped checks. note_link F item excluded link st =
      st\<lparr>wk_checks := checks, wk_skipped := wk_skipped st @ skipped\<rparr>"
  proof (cases link)
    case None
    then show ?thesis
      by (intro exI [of _ "[]"] exI [of _ "if wf_real F \<noteq> None \<and> \<not> excluded
        then link_record (it_isdir item) (map_option fst link) (wk_checks st) else wk_checks st"])
        (simp add: note_link_def)
  next
    case (Some v)
    then show ?thesis
      by (intro exI [of _ "[skipped_item (wf_relative F) item (fst v) excluded (snd v)]"]
          exI [of _ "if wf_real F \<noteq> None \<and> \<not> excluded
            then link_record (it_isdir item) (map_option fst link) (wk_checks st) else wk_checks st"])
        (simp add: note_link_def split_beta)
  qed
  with that show thesis by blast
qed

lemma walk_entry_cases:
  assumes "walk_entry E rules budget F item rel st = Inr (spent, st')"
  obtains (full) skipped checks where "spent" "budget \<le> length (wk_entries st)"
      "st' = st\<lparr>wk_checks := checks, wk_skipped := wk_skipped st @ skipped, wk_complete := False\<rparr>"
  | (entry) skipped checks sz mtime mount visited opened where "\<not> spent" "length (wk_entries st) < budget"
      "\<not> om_has (wk_entries st) rel"
      "kept_item item (entry_of rel (it_path item) (item_kind item) sz mtime mount)"
      "boundary_item E (wf_real F) item \<longrightarrow> mount \<noteq> None"
      "opened = (if it_isdir item \<and> mount = None \<and> \<not> walk_excluded E rules rel (it_isdir item)
         then [(it_path item, reported_real_path (item_extra item))] else [])"
      "st' = st\<lparr>wk_checks := checks, wk_skipped := wk_skipped st @ skipped,
         wk_entries := om_insert rel (entry_of rel (it_path item) (item_kind item) sz mtime mount) (wk_entries st),
         wk_visited := visited, wk_pending := opened @ wk_pending st\<rparr>"
proof -
  let ?extra = "item_extra item"
  let ?link = "link_verdict E (wf_real F) (it_name item) (reported_real_path ?extra) (it_isdir item) (wk_visited st)"
  let ?excluded = "walk_excluded E rules rel (it_isdir item)"
  let ?mount = "case ?link of Some _ \<Rightarrow> Some linked_entry_mount_type | None \<Rightarrow> named_mount ?extra"
  obtain sz mtime where meta: "file_metadata list_operation (item_kind item) ?extra = Inr (sz, mtime)"
    using assms by (auto simp: walk_entry_def)
  obtain skipped checks where noted: "note_link F item ?excluded ?link st =
      st\<lparr>wk_checks := checks, wk_skipped := wk_skipped st @ skipped\<rparr>"
    by (rule note_link_form)
  define mount where "mount = ?mount"
  have bounded: "boundary_item E (wf_real F) item \<longrightarrow> mount \<noteq> None"
    using elsewhere_verdict [of E "wf_real F" item "it_isdir item" "wk_visited st"]
    by (auto simp: mount_def boundary_item_def split: option.splits)
  let ?open = "it_isdir item \<and> mount = None \<and> \<not> ?excluded"
  note step = assms [unfolded walk_entry_def meta Let_def bind_r_simps prod.case noted, folded mount_def]
  show thesis
  proof (cases "budget \<le> length (wk_entries st)")
    case True
    with step show thesis by (intro full [where skipped = skipped and checks = checks]) simp_all
  next
    case False
    from False step bounded metadata_kept [OF meta, of rel mount] show thesis
      by (intro entry [where skipped = skipped and checks = checks and sz = sz and mtime = mtime and mount = mount
            and visited = "if ?open then (case reported_real_path ?extra of None \<Rightarrow> wk_visited st
               | Some r \<Rightarrow> insert (walked_real_path_key E r) (wk_visited st)) else wk_visited st"
            and opened = "if ?open then [(it_path item, reported_real_path ?extra)] else []"])
        (auto split: if_splits option.splits)
  qed
qed

lemma child_beneath: "child_of folder path \<Longrightarrow> beneath folder path"
  by (auto simp: child_of_def beneath_iff)

lemma child_within: "at_or_beneath scope folder \<Longrightarrow> child_of folder path \<Longrightarrow> beneath scope path"
  by (auto simp: at_or_beneath_def dest: child_beneath intro: beneath_trans)

lemma om_has_False: "\<not> om_has m k \<longleftrightarrow> om_get m k = None"
  by (simp add: om_has_def)

lemma walk_shapeD:
  assumes "walk_shape E root rules scope current listed st"
  shows "om_wf (wk_entries st)"
    and "folder \<in> set (map fst (wk_pending st)) \<union> listed \<union> current \<Longrightarrow> known_folder E root rules scope (wk_entries st) folder"
    and "om_get (wk_entries st) rel = Some e \<Longrightarrow> rel \<noteq> [] \<and> root_relative root (r_path e) = Inr rel
       \<and> placed_entry E rules scope listed (set (map fst (wk_pending st)) \<union> current) rel e"
  using assms unfolding walk_shape_def by blast+

lemma new_entry_unknown:
  assumes shape: "walk_shape E root rules scope {} listed st" and "beneath scope path"
    and "root_relative root path = Inr rel" and "\<not> om_has (wk_entries st) rel"
  shows "path \<notin> set (map fst (wk_pending st)) \<union> listed"
proof
  assume "path \<in> set (map fst (wk_pending st)) \<union> listed"
  then have "known_folder E root rules scope (wk_entries st) path"
    using walk_shapeD(2) [OF shape] by blast
  with assms(2-4) show False
    by (auto simp: known_folder_def om_has_def)
qed

lemma insert_shape:
  assumes shape: "walk_shape E root rules scope {} listed st" and folder: "folder \<in> listed"
    and path: "child_of folder (r_path e)" "root_relative root (r_path e) = Inr rel" "rel \<noteq> []"
    and fresh: "\<not> om_has (wk_entries st) rel" and opened: "map fst opened = (if open_entry E rules rel e then [r_path e] else [])"
  shows "walk_shape E root rules scope {} listed
    (st\<lparr>wk_entries := om_insert rel e (wk_entries st), wk_pending := opened @ wk_pending st\<rparr>)"
proof -
  let ?m = "om_insert rel e (wk_entries st)"
  have wf: "om_wf (wk_entries st)" by (rule walk_shapeD(1) [OF shape])
  have within: "beneath scope (r_path e)"
    using known_folder_within [OF walk_shapeD(2) [OF shape]] folder path(1) by (blast intro: child_within)
  note new = new_entry_unknown [OF shape within path(2) fresh]
  have get: "om_get ?m q = (if q = rel then Some e else om_get (wk_entries st) q)" for q
    by (rule om_get_insert [OF wf])
  have older: "om_get ?m q = Some x" if "om_get (wk_entries st) q = Some x" for q x
    using that fresh by (auto simp: get om_has_def)
  have known: "known_folder E root rules scope ?m f" if "f \<in> set (map fst (opened @ wk_pending st)) \<union> listed" for f
  proof (cases "f \<in> set (map fst (wk_pending st)) \<union> listed")
    case True
    then have "known_folder E root rules scope (wk_entries st) f"
      using walk_shapeD(2) [OF shape] by blast
    then show ?thesis
      by (rule known_folder_mono) (rule older)
  next
    case False
    with that opened have "f = r_path e" "open_entry E rules rel e"
      by (auto split: if_splits)
    with within path get show ?thesis
      by (auto simp: known_folder_def)
  qed
  have placed: "placed_entry E rules scope listed (set (map fst (opened @ wk_pending st))) q x"
    if "om_get ?m q = Some x" for q x
  proof (cases "q = rel")
    case True
    with that get have "x = e" by simp
    with True within folder path(1) opened show ?thesis
      by (auto simp: placed_entry_def)
  next
    case False
    with that get walk_shapeD(3) [OF shape, of q x] show ?thesis
      by (auto simp: placed_entry_def)
  qed
  show ?thesis
    unfolding walk_shape_def
  proof (intro conjI allI impI)
    show "distinct (map fst (wk_pending (st\<lparr>wk_entries := ?m, wk_pending := opened @ wk_pending st\<rparr>)))"
      using shape new opened by (auto simp: walk_shape_def)
    show "set (map fst (wk_pending (st\<lparr>wk_entries := ?m, wk_pending := opened @ wk_pending st\<rparr>))) \<inter> (listed \<union> {}) = {}"
      using shape new opened by (auto simp: walk_shape_def split: if_splits)
    fix q x assume x: "om_get (wk_entries (st\<lparr>wk_entries := ?m, wk_pending := opened @ wk_pending st\<rparr>)) q = Some x"
    then show "q \<noteq> []" "root_relative root (r_path x) = Inr q"
      using get path walk_shapeD(3) [OF shape, of q x] by (auto split: if_splits)
    show "placed_entry E rules scope listed
        (set (map fst (wk_pending (st\<lparr>wk_entries := ?m, wk_pending := opened @ wk_pending st\<rparr>))) \<union> {}) q x"
      using placed x by simp
  qed (use known wf in \<open>auto intro: om_wf_insert\<close>)
qed

lemma walk_entry_shape:
  assumes shape: "walk_shape E root rules scope {} listed st" and folder: "wf_path F \<in> listed"
    and path: "child_of (wf_path F) (it_path item)" "root_relative root (it_path item) = Inr rel" "rel \<noteq> []"
    and step: "walk_entry E rules budget F item rel st = Inr (spent, st')"
  shows "walk_shape E root rules scope {} listed st' \<and> walk_grows st st' \<and> (spent \<longrightarrow> \<not> wk_complete st') \<and> (spent \<or> accounted E (wf_real F) root st' item)
    \<and> length (wk_entries st') \<le> max budget (length (wk_entries st))"
  using step
proof (cases rule: walk_entry_cases)
  case (full skipped checks)
  from shape full(3) have "walk_shape E root rules scope {} listed st'"
    by (simp add: walk_shape_def)
  moreover have "walk_grows st st'"
    by (rule walk_growsI) (auto simp: full(3))
  ultimately show ?thesis
    using full(1,3) by simp
next
  case (entry skipped checks sz mtime mount visited opened)
  let ?e = "entry_of rel (it_path item) (item_kind item) sz mtime mount"
  let ?st = "st\<lparr>wk_entries := om_insert rel ?e (wk_entries st), wk_pending := opened @ wk_pending st\<rparr>"
  have "map fst opened = (if open_entry E rules rel ?e then [r_path ?e] else [])"
    using entry(6) by (auto simp: open_entry_def entry_of_def item_kind_def)
  moreover have "r_path ?e = it_path item"
    by (simp add: entry_of_def)
  ultimately have "walk_shape E root rules scope {} listed ?st"
    using insert_shape [OF shape folder] path entry(3) by metis
  then have shape': "walk_shape E root rules scope {} listed st'"
    using entry(7) by (simp add: walk_shape_def)
  have get: "om_get (wk_entries st') q = (if q = rel then Some ?e else om_get (wk_entries st) q)" for q
    using om_get_insert [OF walk_shapeD(1) [OF shape]] entry(7) by simp
  have "walk_grows st st'"
    by (rule walk_growsI) (use entry(3,7) get in \<open>auto simp: om_has_def\<close>)
  moreover have "accounted E (wf_real F) root st' item"
    using path(2) get entry(4,5) by (auto simp: accounted_def entry_of_def)
  moreover have "length (wk_entries st') \<le> budget"
    using entry(2,7) length_om_insert [of rel ?e "wk_entries st"] by simp
  ultimately show ?thesis
    using shape' entry(1) by auto
qed

section \<open>The entries of one listing\<close>

lemma walk_item_shape:
  assumes shape: "walk_shape E root rules scope {} listed st" and folder: "wf_path F \<in> listed"
    and step: "walk_item E root rules budget F item st = Inr (spent, st')"
  shows "walk_shape E root rules scope {} listed st' \<and> walk_grows st st' \<and> (spent \<longrightarrow> \<not> wk_complete st') \<and> (spent \<or> accounted E (wf_real F) root st' item)
    \<and> length (wk_entries st') \<le> max budget (length (wk_entries st))"
proof -
  from step obtain name where "parent_and_name (it_path item) = Inr (wf_path F, name)"
    by (auto simp: walk_item_def split: if_splits)
  then have child: "child_of (wf_path F) (it_path item)"
    by (auto simp: parent_and_name_Inr_iff child_of_def)
  show ?thesis
  proof (cases "root_relative root (it_path item)")
    case (Inr rel)
    with step have "rel \<noteq> []" "walk_entry E rules budget F item rel st = Inr (spent, st')"
      by (auto simp: walk_item_def split: if_splits)
    from walk_entry_shape [OF shape folder child Inr this] show ?thesis .
  next
    case (Inl e)
    with step obtain skip where st': "\<not> spent" "st' = st\<lparr>wk_skipped := wk_skipped st @ [skip]\<rparr>"
      and skip: "sr_remote_path skip = it_path item" "sr_reason skip = UnrepresentableRemoteName"
      by (cases e) (auto simp: walk_item_def skipped_item_def Let_def split: if_splits)
    from shape st'(2) have "walk_shape E root rules scope {} listed st'"
      by (simp add: walk_shape_def)
    moreover have "walk_grows st st'"
      by (rule walk_growsI) (auto simp: st'(2))
    moreover have "accounted E (wf_real F) root st' item"
      using skip st'(2) by (auto simp: accounted_def)
    ultimately show ?thesis
      using st' by simp
  qed
qed

lemma walk_items_shape:
  assumes "walk_shape E root rules scope {} listed st" and "wf_path F \<in> listed"
    and "walk_items E root rules budget F items st = Inr (spent, st')"
  shows "walk_shape E root rules scope {} listed st' \<and> walk_grows st st' \<and> (spent \<longrightarrow> \<not> wk_complete st')
    \<and> (spent \<or> (\<forall>item \<in> set items. accounted E (wf_real F) root st' item))
    \<and> length (wk_entries st') \<le> max budget (length (wk_entries st))"
  using assms(1,3)
proof (induction items arbitrary: st)
  case Nil
  then show ?case by (auto intro: walk_grows_refl)
next
  case (Cons item items)
  from Cons.prems(2) obtain spent1 st1 where
    first: "walk_item E root rules budget F item st = Inr (spent1, st1)"
    and rest: "if spent1 then (spent, st') = (True, st1) else walk_items E root rules budget F items st1 = Inr (spent, st')"
    by (auto split: if_splits)
  note one = walk_item_shape [OF Cons.prems(1) assms(2) first]
  show ?case
  proof (cases spent1)
    case True
    with rest one show ?thesis by simp
  next
    case False
    with rest have "walk_items E root rules budget F items st1 = Inr (spent, st')" by simp
    with Cons.IH one have "walk_shape E root rules scope {} listed st'" "walk_grows st1 st'" "spent \<longrightarrow> \<not> wk_complete st'"
      "spent \<or> (\<forall>item \<in> set items. accounted E (wf_real F) root st' item)"
      "length (wk_entries st') \<le> max budget (length (wk_entries st1))"
      by blast+
    with one False show ?thesis
      by (auto intro: walk_grows_trans accounted_grows)
  qed
qed

section \<open>Folders reached through plain folders\<close>

text \<open>
  A folder and the real path the NAS gave for it, as reached from the scope's folder through listings
  that gave every folder between as a plain one: no mount type, and a real path in its place.
\<close>

inductive passed :: "text_env \<Rightarrow> nas_reads \<Rightarrow> string \<Rightarrow> string \<Rightarrow> string option \<Rightarrow> bool"
  for E :: text_env and N :: nas_reads and scope :: string
where
  scope: "fst (get_info E N scope n) = Inr info \<Longrightarrow> passed E N scope scope (reported_real_path (item_extra info))"
| folder: "passed E N scope parent real \<Longrightarrow> fst (list_directory E N parent n) = Inr (items, whole) \<Longrightarrow> item \<in> set items \<Longrightarrow>
     it_isdir item \<Longrightarrow> child_of parent (it_path item) \<Longrightarrow> \<not> boundary_item E real item \<Longrightarrow>
     passed E N scope (it_path item) (reported_real_path (item_extra item))"

definition opened_by :: "text_env \<Rightarrow> walk_folder \<Rightarrow> remote_item list \<Rightarrow> string \<times> string option \<Rightarrow> bool" where
  "opened_by E F items p =
     (\<exists>item \<in> set items. p = (it_path item, reported_real_path (item_extra item)) \<and> it_isdir item
        \<and> child_of (wf_path F) (it_path item) \<and> \<not> boundary_item E (wf_real F) item)"

lemma walk_item_opened:
  assumes "walk_item E root rules budget F item st = Inr (spent, st')" and "p \<in> set (wk_pending st')"
  shows "p \<in> set (wk_pending st) \<or> opened_by E F [item] p"
proof -
  from assms(1) obtain name where "parent_and_name (it_path item) = Inr (wf_path F, name)"
    by (auto simp: walk_item_def split: if_splits)
  then have child: "child_of (wf_path F) (it_path item)"
    by (auto simp: parent_and_name_Inr_iff child_of_def)
  show ?thesis
  proof (cases "root_relative root (it_path item)")
    case (Inr rel)
    with assms(1) have "walk_entry E rules budget F item rel st = Inr (spent, st')"
      by (auto simp: walk_item_def split: if_splits)
    then show ?thesis
      by (cases rule: walk_entry_cases) (use assms(2) child in \<open>auto simp: opened_by_def split: if_splits\<close>)
  next
    case (Inl e)
    with assms(1) have "wk_pending st' = wk_pending st"
      by (cases e) (auto simp: walk_item_def Let_def split: if_splits)
    with assms(2) show ?thesis by simp
  qed
qed

lemma walk_items_opened:
  "walk_items E root rules budget F items st = Inr (spent, st') \<Longrightarrow> p \<in> set (wk_pending st') \<Longrightarrow>
     p \<in> set (wk_pending st) \<or> opened_by E F items p"
proof (induction items arbitrary: st)
  case (Cons item items)
  from Cons.prems(1) obtain spent1 st1 where
    first: "walk_item E root rules budget F item st = Inr (spent1, st1)"
    and rest: "if spent1 then (spent, st') = (True, st1) else walk_items E root rules budget F items st1 = Inr (spent, st')"
    by (auto split: if_splits)
  have "p \<in> set (wk_pending st1) \<or> opened_by E F items p"
    using rest Cons.IH [of st1] Cons.prems(2) by (cases spent1) auto
  with walk_item_opened [OF first, of p] show ?case
    by (auto simp: opened_by_def)
qed simp

section \<open>Whole listings\<close>

text \<open>
  Consecutive answers that agree on the number of entries of a folder, and hold that many: the \<open>i\<close>-th
  begins where those before it end.
\<close>

definition page_starts :: "list_data list \<Rightarrow> nat \<Rightarrow> nat" where
  "page_starts pages i = sum_list (map (\<lambda>page. length (ld_files page)) (take i pages))"

definition full_listing :: "text_env \<Rightarrow> nas_reads \<Rightarrow> string \<Rightarrow> remote_item list \<Rightarrow> bool" where
  "full_listing E N folder items =
     (\<exists>n pages total. pages \<noteq> []
        \<and> (\<forall>i < length pages. nr_page N (n + i) folder (page_starts pages i) = Inr (Some (pages ! i))
             \<and> ld_total (pages ! i) = total)
        \<and> collect (into_item ''SYNO.FileStation.List'' ''list'') (concat (map ld_files pages)) = Inr items
        \<and> length items = total)"

lemma collect_append:
  "collect f xs = Inr ys \<Longrightarrow> collect f zs = Inr ws \<Longrightarrow> collect f (xs @ zs) = Inr (ys @ ws)"
  by (auto simp: collect_Inr_iff list_all2_appendI)

lemma list_pages_read:
  "list_pages E N folder offset declared acc n = (Inr l, n') \<Longrightarrow> dl_changed_to l = None \<Longrightarrow>
   \<exists>pages. pages \<noteq> []
     \<and> (\<forall>i < length pages. nr_page N (n + i) folder (offset + page_starts pages i) = Inr (Some (pages ! i))
          \<and> ld_total (pages ! i) = dl_declared l)
     \<and> (\<exists>items. collect (into_item ''SYNO.FileStation.List'' ''list'') (concat (map ld_files pages)) = Inr items
          \<and> dl_items l = acc @ items)
     \<and> (offset \<noteq> 0 \<longrightarrow> dl_declared l = declared)"
proof (induction E N folder offset declared acc n rule: list_pages.induct)
  case (1 E N folder offset declared acc n)
  note run = 1(2) [unfolded list_pages.simps [of E N folder offset declared acc n]]
  from run 1(3) obtain page items where page: "nr_page N n folder offset = Inr (Some page)"
      "\<not> (offset \<noteq> 0 \<and> ld_total page \<noteq> declared)" "\<not> nr_cancelled N n"
      and items: "collect (into_item ''SYNO.FileStation.List'' ''list'') (ld_files page) = Inr items"
    by (auto simp: Let_def split: if_splits sum.splits option.splits)
  show ?case
  proof (cases "ld_total page \<le> offset + length (ld_files page) \<or> length (ld_files page) = 0")
    case True
    with run page items have "l = \<lparr>dl_items = acc @ items, dl_declared = ld_total page, dl_changed_to = None\<rparr>"
      by (auto simp: Let_def split: if_splits)
    with page items show ?thesis
      by (intro exI [of _ "[page]"]) (auto simp: page_starts_def)
  next
    case False
    let ?next = "offset + length (ld_files page)"
    have more: "list_pages E N folder ?next (ld_total page) (acc @ items) (Suc n) = (Inr l, n')"
      using run page items False by (auto simp: Let_def split: if_splits)
    from 1(1) [OF page(3) page(1) refl page(2) items refl refl False more 1(3)] obtain pages rest where
      pages: "pages \<noteq> []" "\<And>i. i < length pages \<Longrightarrow> nr_page N (Suc n + i) folder (?next + page_starts pages i) = Inr (Some (pages ! i))
          \<and> ld_total (pages ! i) = dl_declared l"
      and rest: "collect (into_item ''SYNO.FileStation.List'' ''list'') (concat (map ld_files pages)) = Inr rest"
        "dl_items l = (acc @ items) @ rest"
      and declared: "?next \<noteq> 0 \<longrightarrow> dl_declared l = ld_total page"
      by blast
    have total: "dl_declared l = ld_total page"
      using declared False by simp
    have "nr_page N (n + i) folder (offset + page_starts (page # pages) i) = Inr (Some ((page # pages) ! i))
        \<and> ld_total ((page # pages) ! i) = dl_declared l" if "i < length (page # pages)" for i
      using that page(1) pages(2) total by (cases i) (auto simp: page_starts_def add.assoc)
    moreover have "collect (into_item ''SYNO.FileStation.List'' ''list'') (concat (map ld_files (page # pages))) = Inr (items @ rest)"
      using collect_append [OF items rest(1)] by simp
    ultimately show ?thesis
      using rest(2) page(2) total by (intro exI [of _ "page # pages"]) auto
  qed
qed

lemma pass_full:
  assumes "list_directory_pass E N folder n = (Inr l, n')" and "is_whole l"
  shows "full_listing E N folder (dl_items l)"
proof -
  from assms list_pages_read [of E N folder 0 0 "[]" n l n'] obtain pages where "pages \<noteq> []"
    "\<forall>i < length pages. nr_page N (n + i) folder (page_starts pages i) = Inr (Some (pages ! i)) \<and> ld_total (pages ! i) = dl_declared l"
    "collect (into_item ''SYNO.FileStation.List'' ''list'') (concat (map ld_files pages)) = Inr (dl_items l)"
    by (auto simp: list_directory_pass_def is_whole_def)
  with assms(2) show ?thesis
    unfolding full_listing_def is_whole_def by blast
qed

lemma listed_full:
  assumes "fst (list_directory E N folder n) = Inr (items, True)"
  shows "full_listing E N folder items"
proof -
  obtain r n1 where first: "list_directory_pass E N folder n = (r, n1)" by fastforce
  with assms obtain l where r: "r = Inr l"
    by (cases r) (auto simp: list_directory_def)
  show ?thesis
  proof (cases "is_whole l")
    case True
    with first r assms pass_full show ?thesis
      by (auto simp: list_directory_def)
  next
    case False
    with first r assms obtain l2 n2 where "list_directory_pass E N folder n1 = (Inr l2, n2)" "is_whole l2" "items = dl_items l2"
      by (auto simp: list_directory_def split: prod.splits sum.splits)
    with pass_full show ?thesis by blast
  qed
qed

end
