(* ===== verification/WalkFacts.thy ===== *)
theory WalkFacts
  imports WalkShape
begin

text \<open>
  The remote walk returns whatever the NAS answers, and what its result stands for: nothing beneath
  a link, a mount or an excluded folder, and nothing left out unnamed.
\<close>

section \<open>One folder\<close>

lemma pop_shape:
  assumes "walk_shape E root rules scope {} listed st" and "wk_pending st = (folder, real) # rest"
  shows "walk_shape E root rules scope {folder} listed (st\<lparr>wk_pending := rest\<rparr>)"
  using assms unfolding walk_shape_def by (auto simp: placed_entry_def)

lemma listed_shape:
  assumes "walk_shape E root rules scope {folder} listed st"
  shows "walk_shape E root rules scope {} (insert folder listed) st"
  using assms unfolding walk_shape_def placed_entry_def by (auto 0 4)

lemma scope_missing_shape:
  assumes "walk_shape E root rules scope {scope} listed st"
  shows "walk_shape E root rules scope {} listed st"
  using assms unfolding walk_shape_def placed_entry_def by (auto 0 4)

lemma some_mount: "\<exists>mount. e = e\<lparr>r_mount := mount\<rparr> \<and> (r_mount e = None \<or> mount \<noteq> None)" for e :: remote_entry
  by (rule exI [of _ "r_mount e"]) auto

text \<open>The popped folder is closed: its entry goes, or stops being a plain folder.\<close>

lemma closed_shape:
  assumes shape: "walk_shape E root rules scope {folder} listed st"
    and rel: "root_relative root folder = Inr rel" and inner: "folder \<noteq> scope"
    and entries: "om_wf m" "\<And>q. q \<noteq> rel \<Longrightarrow> om_get m q = om_get (wk_entries st) q"
    and closed: "\<And>e. om_get m rel = Some e \<Longrightarrow> \<exists>e0 mount. om_get (wk_entries st) rel = Some e0
        \<and> e = e0\<lparr>r_mount := Some mount\<rparr>"
  shows "walk_shape E root rules scope {} listed (st\<lparr>wk_entries := m\<rparr>)"
proof -
  note old = walk_shapeD [OF shape]
  have known_rel: "rel \<noteq> []" "beneath scope folder"
    using old(2) [of folder] inner rel by (auto simp: known_folder_def)
  have disjoint: "folder \<notin> set (map fst (wk_pending st)) \<union> listed"
    using shape by (auto simp: walk_shape_def)
  have "known_folder E root rules scope m f" if "f \<in> set (map fst (wk_pending st)) \<union> listed" for f
  proof (rule known_folder_mono)
    show "known_folder E root rules scope (wk_entries st) f"
      using that old(2) by blast
    show "om_get m q = Some e" if "root_relative root f = Inr q" "om_get (wk_entries st) q = Some e" for q e
    proof -
      have "q \<noteq> rel"
        using that(1) rel known_rel disjoint \<open>f \<in> _\<close> root_relative_inj by blast
      with that(2) entries(2) show ?thesis by simp
    qed
  qed
  moreover have "q \<noteq> [] \<and> root_relative root (r_path e) = Inr q
      \<and> placed_entry E rules scope listed (set (map fst (wk_pending st))) q e" if e: "om_get m q = Some e" for q e
  proof (cases "q = rel")
    case True
    with e closed obtain e0 mount where e0: "om_get (wk_entries st) rel = Some e0" "e = e0\<lparr>r_mount := Some mount\<rparr>"
      by blast
    from old(3) [OF e0(1)] have "root_relative root (r_path e0) = Inr rel" by blast
    then have "r_path e0 = folder"
      using rel known_rel root_relative_inj by blast
    moreover have "\<not> at_or_beneath folder scope"
      using known_rel by (auto simp: at_or_beneath_def dest: beneath_asym)
    ultimately show ?thesis
      using True old(3) [OF e0(1)] e0(2) by (auto simp: placed_entry_def open_entry_def)
  next
    case False
    with e entries(2) have e0: "om_get (wk_entries st) q = Some e" by simp
    have "r_path e \<noteq> folder"
      using False rel old(3) [OF e0] by auto
    with old(3) [OF e0] show ?thesis
      by (auto simp: placed_entry_def)
  qed
  ultimately show ?thesis
    using shape entries(1) unfolding walk_shape_def by auto
qed

lemma vanished_shape:
  assumes shape: "walk_shape E root rules scope {folder} listed st" and "folder \<noteq> scope"
    and step: "vanished_folder root folder st = Inr st'"
  shows "walk_shape E root rules scope {} listed st' \<and> walk_grows st st' \<and> wk_pending st' = wk_pending st
    \<and> length (wk_entries st') \<le> length (wk_entries st) \<and> wk_complete st' = wk_complete st"
proof -
  from step obtain rel where rel: "root_relative root folder = Inr rel" and st': "st' =
      st\<lparr>wk_entries := om_remove rel (wk_entries st), wk_incomplete := wk_incomplete st @ [parent_relative rel],
         wk_vanished := wk_vanished st @ [rel]\<rparr>"
    by (auto simp: vanished_folder_def)
  have "walk_shape E root rules scope {} listed (st\<lparr>wk_entries := om_remove rel (wk_entries st)\<rparr>)"
    by (rule closed_shape [OF shape rel assms(2)])
      (auto simp: om_get_remove intro: om_wf_remove walk_shapeD(1) [OF shape])
  then have "walk_shape E root rules scope {} listed st'"
    by (simp add: st' walk_shape_def)
  moreover have "walk_grows st st'"
    unfolding walk_grows_def
  proof (intro conjI allI impI)
    fix q x assume "om_get (wk_entries st) q = Some x"
    then show "q \<in> set (wk_vanished st') \<or> (\<exists>mount. om_get (wk_entries st') q = Some (x\<lparr>r_mount := mount\<rparr>)
        \<and> (r_mount x = None \<or> mount \<noteq> None))"
      using some_mount [of x]
      by (auto simp: st' om_get_remove)
  qed (auto simp: st')
  ultimately show ?thesis
    by (simp add: st' om_remove_def)
qed

lemma get_marked:
  "om_get (map (\<lambda>(k, v). (k, if k = rel then mark_unlistable v else v)) m) q
     = map_option (if q = rel then mark_unlistable else id) (om_get m q)"
  unfolding om_get_def by (induction m) auto

lemma unlistable_shape:
  assumes shape: "walk_shape E root rules scope {folder} listed st" and "folder \<noteq> scope"
    and step: "unlistable_folder E root rules e folder st = Inr st'"
  shows "walk_shape E root rules scope {} listed st' \<and> walk_grows st st' \<and> wk_pending st' = wk_pending st
    \<and> length (wk_entries st') \<le> length (wk_entries st) \<and> wk_complete st' = wk_complete st"
proof -
  from step obtain rel skips where rel: "root_relative root folder = Inr rel" and st': "st' =
      st\<lparr>wk_entries := map (\<lambda>(k, v). (k, if k = rel then mark_unlistable v else v)) (wk_entries st),
         wk_skipped := wk_skipped st @ skips, wk_incomplete := wk_incomplete st @ [rel]\<rparr>"
    by (auto simp: unlistable_folder_def)
  let ?m = "map (\<lambda>(k, v). (k, if k = rel then mark_unlistable v else v)) (wk_entries st)"
  have "map fst ?m = map fst (wk_entries st)"
    by (simp add: o_def split_def)
  then have "om_wf ?m"
    using walk_shapeD(1) [OF shape] unfolding om_wf_def by metis
  then have "walk_shape E root rules scope {} listed (st\<lparr>wk_entries := ?m\<rparr>)"
    by (intro closed_shape [OF shape rel assms(2)]) (auto simp: get_marked mark_unlistable_def option.map_id0)
  then have "walk_shape E root rules scope {} listed st'"
    by (simp add: st' walk_shape_def)
  moreover have "walk_grows st st'"
    unfolding walk_grows_def
  proof (intro conjI allI impI disjI2)
    fix q x assume "om_get (wk_entries st) q = Some x"
    then show "\<exists>mount. om_get (wk_entries st') q = Some (x\<lparr>r_mount := mount\<rparr>) \<and> (r_mount x = None \<or> mount \<noteq> None)"
      using some_mount [of x] by (auto simp: st' get_marked mark_unlistable_def)
  qed (auto simp: st')
  ultimately show ?thesis
    by (simp add: st')
qed

text \<open>A folder counts as covered when its entries were read and every one is accounted for.\<close>

definition covered_folder :: "text_env \<Rightarrow> nas_reads \<Rightarrow> remote_root \<Rightarrow> string \<Rightarrow> walk_state \<Rightarrow> string \<Rightarrow> bool" where
  "covered_folder E N root scope st folder =
     (\<exists>n items whole rel real. passed E N scope folder real \<and> fst (list_directory E N folder n) = Inr (items, whole)
        \<and> root_relative root folder = Inr rel \<and> (whole \<or> rel \<in> set (wk_incomplete st))
        \<and> (\<forall>item \<in> set items. accounted E real root st item))"

definition all_passed :: "text_env \<Rightarrow> nas_reads \<Rightarrow> string \<Rightarrow> string set \<Rightarrow> walk_state \<Rightarrow> bool" where
  "all_passed E N scope listed st =
     ((\<forall>p \<in> set (wk_pending st). passed E N scope (fst p) (snd p))
      \<and> (\<forall>folder \<in> listed. \<exists>real. passed E N scope folder real))"

definition scope_gone :: "text_env \<Rightarrow> nas_reads \<Rightarrow> string \<Rightarrow> bool" where
  "scope_gone E N scope = (\<exists>n e. fst (list_directory E N scope n) = Inl e \<and> api_code e = Some 408)"

lemma covered_grows:
  assumes "covered_folder E N root scope st folder" and grows: "walk_grows st st'"
  shows "covered_folder E N root scope st' folder"
proof -
  from assms(1) obtain n items whole rel real where "passed E N scope folder real"
    "fst (list_directory E N folder n) = Inr (items, whole)"
    "root_relative root folder = Inr rel" "whole \<or> rel \<in> set (wk_incomplete st)"
    "\<forall>item \<in> set items. accounted E real root st item"
    by (auto simp: covered_folder_def)
  moreover have "set (wk_incomplete st) \<subseteq> set (wk_incomplete st')"
    using grows by (simp add: walk_grows_def)
  ultimately show ?thesis
    using grows accounted_grows unfolding covered_folder_def by blast
qed

lemma visit_folder_shape:
  assumes shape: "walk_shape E root rules scope {} listed st" and pending: "wk_pending st = (folder, real) # rest"
    and passed: "all_passed E N scope listed st" and inside: "at_or_beneath (root_str root) scope"
    and step: "visit_folder E N root rules budget scope folder real (st\<lparr>wk_pending := rest\<rparr>) n = (Inr (over, st'), n')"
  shows "walk_grows st st' \<and> length (wk_entries st') \<le> max budget (length (wk_entries st))
    \<and> (walk_shape E root rules scope {} (insert folder listed) st'
         \<and> all_passed E N scope (insert folder listed) st'
         \<and> (over \<longrightarrow> \<not> wk_complete st') \<and> (over \<or> covered_folder E N root scope st' folder)
       \<or> walk_shape E root rules scope {} listed st' \<and> all_passed E N scope listed st' \<and> wk_pending st' = rest
         \<and> (folder = scope \<longleftrightarrow> over) \<and> (over \<longrightarrow> scope_gone E N scope))"
proof -
  let ?st = "st\<lparr>wk_pending := rest\<rparr>"
  note popped = pop_shape [OF shape pending]
  have here: "passed E N scope folder real" and rest: "all_passed E N scope listed ?st"
    using passed pending by (auto simp: all_passed_def)
  have rest': "all_passed E N scope listed st'" if "wk_pending st' = rest"
    using rest that by (simp add: all_passed_def)
  have grows: "walk_grows ?st st' \<longleftrightarrow> walk_grows st st'"
    by (simp add: walk_grows_def)
  show ?thesis
  proof (cases "list_directory E N folder n")
    case (Pair listing n1)
    show ?thesis
    proof (cases listing)
      case (Inr l)
      with step Pair obtain rel where rel: "root_relative root folder = Inr rel"
        and items: "walk_items E root rules budget \<lparr>wf_path = folder, wf_relative = rel, wf_real = real\<rparr> (fst l)
          (?st\<lparr>wk_incomplete := wk_incomplete ?st @ (if snd l then [] else [rel]),
               wk_unchecked := wk_unchecked ?st + (if real = None then 1 else 0)\<rparr>) = Inr (over, st')"
        by (auto simp: visit_folder_def listed_folder_def)
      let ?st1 = "?st\<lparr>wk_incomplete := wk_incomplete ?st @ (if snd l then [] else [rel]),
               wk_unchecked := wk_unchecked ?st + (if real = None then 1 else 0)\<rparr>"
      have "walk_shape E root rules scope {} (insert folder listed) ?st1"
        using listed_shape [OF popped] by (simp add: walk_shape_def)
      from walk_items_shape [OF this _ items] have r:
        "walk_shape E root rules scope {} (insert folder listed) st'" "walk_grows ?st1 st'"
        "over \<longrightarrow> \<not> wk_complete st'" "over \<or> (\<forall>item \<in> set (fst l). accounted E real root st' item)"
        "length (wk_entries st') \<le> max budget (length (wk_entries st))"
        by auto
      moreover from r(2) have "walk_grows st st'" "snd l \<or> rel \<in> set (wk_incomplete st')"
        by (auto simp: walk_grows_def split: if_splits)
      moreover have read: "fst (list_directory E N folder n) = Inr (fst l, snd l)"
        using Pair Inr by simp
      moreover have "over \<or> covered_folder E N root scope st' folder"
        using rel r(4) read here \<open>snd l \<or> _\<close> unfolding covered_folder_def by blast
      moreover have "passed E N scope (fst p) (snd p)" if "p \<in> set (wk_pending st')" for p
        using walk_items_opened [OF items that] rest passed.folder [OF here read]
        by (auto simp: all_passed_def opened_by_def)
      then have "all_passed E N scope (insert folder listed) st'"
        using here rest by (auto simp: all_passed_def)
      ultimately show ?thesis by blast
    next
      case (Inl e)
      have failed: "failed_listing E N root rules scope folder e ?st n1 = (Inr (over, st'), n')"
        using step Pair Inl by (simp add: visit_folder_def)
      have outer: "folder = scope" if "folder = root_str root"
        using that inside walk_shapeD(2) [OF shape, of folder] pending
        by (auto simp: at_or_beneath_def known_folder_def dest: beneath_asym)
      show ?thesis
      proof (cases "folder = scope")
        case True
        have "api_code e = Some 408"
          using failed True by (auto simp: failed_listing_def Let_def split: if_splits)
        then have "scope_gone E N scope"
          using Pair Inl True unfolding scope_gone_def by (intro exI [of _ n] exI [of _ e]) simp
        moreover from failed True have "over" "st' = ?st \<or> st' = ?st\<lparr>wk_root_exists := False\<rparr>"
          by (auto simp: failed_listing_def Let_def split: if_splits)
        moreover from this have "walk_grows st st'"
          by (intro walk_growsI) auto
        moreover have "walk_shape E root rules scope {} listed ?st"
          using scope_missing_shape popped True by blast
        then have "walk_shape E root rules scope {} listed st'"
          using \<open>st' = ?st \<or> _\<close> by (elim disjE) (simp_all add: walk_shape_def)
        ultimately show ?thesis
          using True rest' by auto
      next
        case False
        with failed outer consider "vanished_folder root folder ?st = Inr st'" "\<not> over"
          | "unlistable_folder E root rules e folder ?st = Inr st'" "\<not> over"
          by (auto simp: failed_listing_def Let_def split: if_splits prod.splits)
        then show ?thesis
        proof cases
          case 1
          with vanished_shape [OF popped False 1(1)] False grows rest' show ?thesis
            by (simp add: le_max_iff_disj)
        next
          case 2
          with unlistable_shape [OF popped False 2(1)] False grows rest' show ?thesis
            by (simp add: le_max_iff_disj)
        qed
      qed
    qed
  qed
qed

section \<open>The walk\<close>

text \<open>
  A state of the walk: the scope comes first, every folder listed so far is covered, and there are
  no more of them than the entries allow.
\<close>

definition walk_state_ok ::
  "text_env \<Rightarrow> nas_reads \<Rightarrow> remote_root \<Rightarrow> ignore_rules \<Rightarrow> nat \<Rightarrow> string \<Rightarrow> bool \<Rightarrow> string set \<Rightarrow> walk_state \<Rightarrow> bool"
where
  "walk_state_ok E N root rules bound scope idle listed st =
     (walk_shape E root rules scope {} listed st \<and> all_passed E N scope listed st
      \<and> finite listed \<and> length (wk_entries st) \<le> bound
      \<and> (scope \<in> listed \<or> listed = {} \<and> map fst (wk_pending st) = (if idle then [] else [scope]))
      \<and> (\<forall>folder \<in> listed. covered_folder E N root scope st folder))"

text \<open>Where a walk may end; an idle one had no folder to list.\<close>

definition walk_end ::
  "text_env \<Rightarrow> nas_reads \<Rightarrow> remote_root \<Rightarrow> ignore_rules \<Rightarrow> nat \<Rightarrow> string \<Rightarrow> bool \<Rightarrow> walk_state \<Rightarrow> bool"
where
  "walk_end E N root rules bound scope idle st =
     (\<exists>listed. walk_shape E root rules scope {} listed st \<and> all_passed E N scope listed st
        \<and> length (wk_entries st) \<le> bound
        \<and> (wk_complete st \<longrightarrow> wk_pending st = [] \<and> (\<forall>folder \<in> listed. covered_folder E N root scope st folder)
             \<and> (idle \<or> scope \<in> listed \<or> scope_gone E N scope)))"

lemma listed_few:
  assumes "walk_state_ok E N root rules bound scope idle listed st"
  shows "card listed \<le> Suc bound"
proof -
  have shape: "walk_shape E root rules scope {} listed st" and fin: "finite listed"
    and len: "length (wk_entries st) \<le> bound"
    using assms by (simp_all add: walk_state_ok_def)
  let ?rel = "\<lambda>folder. projr (root_relative root folder)"
  have known: "?rel f \<noteq> [] \<and> root_relative root f = Inr (?rel f) \<and> ?rel f \<in> set (map fst (wk_entries st))"
    if "f \<in> listed - {scope}" for f
    using that walk_shapeD(2) [OF shape, of f]
    by (auto simp: known_folder_def om_get_def dest!: map_of_SomeD intro: rev_image_eqI)
  have "inj_on ?rel (listed - {scope})"
    using known root_relative_inj by (intro inj_onI) metis
  moreover have "?rel ` (listed - {scope}) \<subseteq> set (map fst (wk_entries st))"
    using known by blast
  ultimately have "card (listed - {scope}) \<le> card (set (map fst (wk_entries st)))"
    by (intro card_inj_on_le) auto
  also have "\<dots> \<le> length (wk_entries st)"
    using card_length [of "map fst (wk_entries st)"] by simp
  finally have "card (listed - {scope}) \<le> bound"
    using len by simp
  then show ?thesis
    using card_Diff1_le [of listed scope] fin by (cases "scope \<in> listed") (simp_all add: card_Diff_singleton)
qed

lemma step_ok:
  assumes ok: "walk_state_ok E N root rules bound scope idle listed st" and pending: "wk_pending st = (folder, real) # rest"
    and inside: "at_or_beneath (root_str root) scope" and budget: "budget \<le> bound"
    and step: "visit_folder E N root rules budget scope folder real (st\<lparr>wk_pending := rest\<rparr>) n = (Inr (over, st'), n')"
  shows "if over then walk_end E N root rules bound scope idle st'
    else \<exists>listed'. walk_state_ok E N root rules bound scope idle listed' st'
      \<and> (card listed < card listed' \<or> listed' = listed \<and> length (wk_pending st') < length (wk_pending st))"
proof -
  have shape: "walk_shape E root rules scope {} listed st" and fin: "finite listed"
    and first: "scope \<in> listed \<or> listed = {} \<and> map fst (wk_pending st) = (if idle then [] else [scope])"
    and passed: "all_passed E N scope listed st" and len: "length (wk_entries st) \<le> bound"
    using ok by (simp_all add: walk_state_ok_def)
  have distinct: "distinct (map fst (wk_pending st))" "folder \<notin> listed"
    using shape pending by (auto simp: walk_shape_def)
  have start: "listed = {} \<and> folder = scope \<and> rest = []" if "scope \<notin> listed"
    using that first pending by (auto split: if_splits)
  note visited = visit_folder_shape [OF shape pending passed inside step]
  have grows: "walk_grows st st'" and len': "length (wk_entries st') \<le> bound"
    using visited len budget by auto
  have old: "\<forall>f \<in> listed. covered_folder E N root scope st' f"
    using ok grows covered_grows by (auto simp: walk_state_ok_def)
  from visited consider
    (listed) "walk_shape E root rules scope {} (insert folder listed) st'" "over \<longrightarrow> \<not> wk_complete st'"
      "over \<or> covered_folder E N root scope st' folder" "all_passed E N scope (insert folder listed) st'"
  | (closed) "walk_shape E root rules scope {} listed st'" "wk_pending st' = rest" "folder = scope \<longleftrightarrow> over"
      "all_passed E N scope listed st'" "over \<longrightarrow> scope_gone E N scope"
    by blast
  then show ?thesis
  proof cases
    case listed
    show ?thesis
    proof (cases over)
      case True
      with listed len' show ?thesis by (auto simp: walk_end_def)
    next
      case False
      have "scope \<in> insert folder listed"
        using start by blast
      with listed False old fin len' have "walk_state_ok E N root rules bound scope idle (insert folder listed) st'"
        by (auto simp: walk_state_ok_def)
      moreover have "card listed < card (insert folder listed)"
        using fin distinct(2) by simp
      ultimately show ?thesis
        using False by auto
    qed
  next
    case closed
    show ?thesis
    proof (cases over)
      case True
      with closed distinct(2) have "scope \<notin> listed" by blast
      with start closed len' True show ?thesis
        by (auto simp: walk_end_def)
    next
      case False
      with closed start have "scope \<in> listed" by blast
      with closed False old fin len' have "walk_state_ok E N root rules bound scope idle listed st'"
        by (simp add: walk_state_ok_def)
      with False closed(2) pending show ?thesis by auto
    qed
  qed
qed

lemma remote_walk_result:
  assumes "walk_state_ok E N root rules bound scope idle listed st"
    and inside: "at_or_beneath (root_str root) scope" and budget: "budget \<le> bound"
  shows "\<exists>res n'. remote_walk E N root rules budget scope st n = Some (res, n')
    \<and> (\<forall>st'. res = Inr st' \<longrightarrow> walk_end E N root rules bound scope idle st')"
  using assms(1)
proof (induction "(Suc bound - card listed, length (wk_pending st))" arbitrary: listed st n
    rule: wf_induct_rule [OF wf_lex_prod [OF wf_less_than wf_less_than]])
  case (1 listed st n)
  note prems = 1(2) and hyps = 1(1)
  show ?case
  proof (cases "wk_pending st")
    case Nil
    with prems show ?thesis
      by (subst remote_walk.simps) (auto simp: walk_end_def walk_state_ok_def)
  next
    case (Cons top rest)
    obtain folder real where p: "top = (folder, real)" by (cases top)
    show ?thesis
    proof (cases "nr_cancelled N n")
      case True
      with Cons p show ?thesis by (subst remote_walk.simps) simp
    next
      case False
      obtain r n1 where v: "visit_folder E N root rules budget scope folder real (st\<lparr>wk_pending := rest\<rparr>) n = (r, n1)"
        by fastforce
      note unfold = remote_walk.simps [of E N root rules budget scope st n]
      show ?thesis
      proof (cases r)
        case (Inl e)
        with Cons p False v show ?thesis by (subst unfold) simp
      next
        case (Inr a)
        obtain over st' where a: "a = (over, st')" by (cases a)
        note ok = step_ok [OF prems Cons [unfolded p] inside budget v [unfolded Inr a]]
        show ?thesis
        proof (cases over)
          case True
          with ok Cons p False v Inr a show ?thesis by (subst unfold) simp
        next
          case going: False
          with ok obtain listed' where l': "walk_state_ok E N root rules bound scope idle listed' st'"
            "card listed < card listed' \<or> listed' = listed \<and> length (wk_pending st') < length (wk_pending st)"
            by auto
          have "((Suc bound - card listed', length (wk_pending st')), Suc bound - card listed, length (wk_pending st))
              \<in> less_than <*lex*> less_than"
            using l'(2) listed_few [OF l'(1)] by auto
          from hyps [OF this l'(1), of n1] show ?thesis
            using going Cons p False v Inr a by (subst unfold) simp
        qed
      qed
    qed
  qed
qed

section \<open>The way to the scope\<close>

lemma prefixes_from_above:
  "q \<in> set (prefixes_from current cs) \<Longrightarrow> at_or_beneath q (current @ concat (map ((#) slash) cs))"
proof (induction current cs rule: prefixes_from.induct)
  case (2 current c cs)
  then show ?case
    by (cases cs) (auto simp: at_or_beneath_def beneath_iff)
qed simp

lemma concat_components: "concat (map ((#) slash) (split_on slash s)) = slash # s"
proof (induction s)
  case (Cons c s)
  obtain w ws where "split_on slash s = w # ws"
    using split_on_nonempty [of slash s] by (cases "split_on slash s") auto
  with Cons show ?case by (cases "c = slash") auto
qed simp

lemma absolute_prefixes_above:
  assumes "path = slash # s" and "s \<noteq> []" "hd s \<noteq> slash" and "q \<in> set (absolute_prefixes path)"
  shows "at_or_beneath q path"
proof -
  have "dropWhile (\<lambda>c. c = slash) path = s"
    using assms(1-3) by (cases s) auto
  with assms(4) show ?thesis
    using prefixes_from_above [of q "[]" "split_on slash s"]
    by (simp add: absolute_prefixes_def concat_components assms(1))
qed

definition way_ok :: "remote_root \<Rightarrow> string \<Rightarrow> way_state \<Rightarrow> bool" where
  "way_ok root scope w =
     (om_wf (wy_entries w) \<and> (\<forall>rel e. om_get (wy_entries w) rel = Some e \<longrightarrow> rel \<noteq> []
        \<and> root_relative root (r_path e) = Inr rel \<and> at_or_beneath (r_path e) scope \<and> r_mount e = None))"

lemma way_ok_cong: "wy_entries v = wy_entries w \<Longrightarrow> way_ok root scope v = way_ok root scope w"
  by (simp add: way_ok_def)

lemma way_mark_entries: "wy_entries (way_mark E root path real names_file w) = wy_entries w"
  by (simp add: way_mark_def)

lemma way_step_ok:
  assumes "way_ok root scope w" and "at_or_beneath path scope" and "path \<noteq> root_str root @ [slash]"
    and "way_step E root sc scope path info w = Inr w'"
  shows "way_ok root scope w'"
proof -
  have entry: "way_ok root scope b" if "way_entry E root path info real a = Inr b" "way_ok root scope a" for a b real
  proof (cases "contains_child root path")
    case True
    with that(1) obtain rel sz mtime where rel: "root_relative root path = Inr rel"
      and b: "wy_entries b = om_insert rel (entry_of rel path (item_kind info) sz mtime None) (wy_entries a)"
      by (auto simp: way_entry_def Let_def split: option.splits)
    have "rel \<noteq> []"
      using rel True assms(3) by (auto simp: root_relative_Inr_iff contains_child_def prefix_def)
    with that(2) rel b assms(2) show ?thesis
      by (auto simp: way_ok_def om_wf_insert om_get_insert entry_of_def)
  next
    case False
    with that show ?thesis by (simp add: way_entry_def)
  qed
  let ?real = "reported_real_path (item_extra info)"
  let ?a = "if path = scope then w\<lparr>wy_scope_real := ?real\<rparr> else w"
  from assms(4) obtain b names where b: "way_entry E root path info ?real ?a = Inr b" "way_mark E root path ?real names b = w'"
    unfolding way_step_def Let_def
    by (cases "named_mount (item_extra info)") (auto split: if_split_asm)
  have "way_ok root scope ?a"
    by (rule way_ok_cong [THEN iffD2, OF _ assms(1)]) simp
  from entry [OF b(1) this] b(2) show ?thesis
    by (metis way_mark_entries way_ok_cong)
qed

lemma walk_way_ok:
  assumes "way_ok root scope w" and "\<forall>path \<in> set paths. at_or_beneath path scope \<and> path \<noteq> root_str root @ [slash]"
    and "walk_way E N root sc scope paths w n = (Inr (present, exists, w'), n')"
  shows "way_ok root scope w'"
  using assms
proof (induction paths arbitrary: w n)
  case (Cons path paths)
  from Cons.prems show ?case
    by (auto split: if_splits prod.splits sum.splits dest: Cons.IH way_step_ok)
qed auto

text \<open>The scope's own answer gave the real path it is walked with, and says whether it is a file.\<close>

definition scope_asked :: "text_env \<Rightarrow> nas_reads \<Rightarrow> string \<Rightarrow> way_state \<Rightarrow> bool" where
  "scope_asked E N scope w =
     (\<exists>n info. fst (get_info E N scope n) = Inr info \<and> wy_scope_real w = reported_real_path (item_extra info))"

definition scope_file :: "text_env \<Rightarrow> nas_reads \<Rightarrow> scope \<Rightarrow> string \<Rightarrow> bool" where
  "scope_file E N sc scope =
     (\<not> scope_is_root sc \<and> (\<exists>n info. fst (get_info E N scope n) = Inr info \<and> \<not> it_isdir info))"

definition way_absent :: "text_env \<Rightarrow> nas_reads \<Rightarrow> string list \<Rightarrow> bool" where
  "way_absent E N paths = (\<exists>path \<in> set paths. \<exists>n e. fst (get_info E N path n) = Inl e \<and> api_code e = Some 408)"

lemma way_step_real:
  assumes "way_step E root sc scope path info w = Inr w'"
  shows "wy_scope_real w' = (if path = scope then reported_real_path (item_extra info) else wy_scope_real w)"
    and "wy_file w' \<longrightarrow> wy_file w \<or> path = scope \<and> \<not> scope_is_root sc \<and> \<not> it_isdir info"
proof -
  have entry: "wy_scope_real b = wy_scope_real a \<and> wy_file b = wy_file a" if "way_entry E root path info real a = Inr b" for a b real
    using that by (auto simp: way_entry_def Let_def split: if_splits option.splits)
  let ?real = "reported_real_path (item_extra info)"
  let ?a = "if path = scope then w\<lparr>wy_scope_real := ?real\<rparr> else w"
  let ?names = "path = scope \<and> \<not> scope_is_root sc \<and> \<not> it_isdir info"
  from assms obtain b where b: "way_entry E root path info ?real ?a = Inr b" "way_mark E root path ?real ?names b = w'"
    unfolding way_step_def Let_def
    by (cases "named_mount (item_extra info)") (auto split: if_split_asm)
  with entry [OF b(1)]
  show "wy_scope_real w' = (if path = scope then ?real else wy_scope_real w)" "wy_file w' \<longrightarrow> wy_file w \<or> ?names"
    by (auto simp: way_mark_def split: if_splits)
qed

lemma walk_way_asked:
  assumes "walk_way E N root sc scope paths w n = (Inr (present, exists, w'), n')"
    and "wy_file w \<longrightarrow> scope_file E N sc scope"
  shows "wy_file w' \<longrightarrow> scope_file E N sc scope"
    and "present \<Longrightarrow> scope_asked E N scope w \<or> scope \<in> set paths \<Longrightarrow> scope_asked E N scope w'"
    and "\<not> present \<Longrightarrow> way_absent E N paths"
proof -
  have "(wy_file w' \<longrightarrow> scope_file E N sc scope)
    \<and> (present \<longrightarrow> scope_asked E N scope w \<or> scope \<in> set paths \<longrightarrow> scope_asked E N scope w')
    \<and> (\<not> present \<longrightarrow> way_absent E N paths)"
    using assms
  proof (induction paths arbitrary: w n)
    case (Cons path paths)
    obtain r n1 where asked: "get_info E N path n = (r, n1)" by fastforce
    show ?case
    proof (cases r)
      case (Inl e)
      with Cons.prems asked have "api_code e = Some 408" "\<not> present" "w' = w"
        by (auto split: if_splits)
      with Inl asked Cons.prems(2) show ?thesis
        by (auto simp: way_absent_def intro!: exI [of _ n])
    next
      case (Inr info)
      with Cons.prems(1) asked obtain w1 where w1: "way_step E root sc scope path info w = Inr w1"
        and rest: "walk_way E N root sc scope paths w1 n1 = (Inr (present, exists, w'), n')"
        by (auto split: if_splits sum.splits)
      have got: "fst (get_info E N path n) = Inr info"
        using asked Inr by simp
      note real = way_step_real [OF w1]
      have "wy_file w1 \<longrightarrow> scope_file E N sc scope"
        using real(2) got Cons.prems(2) unfolding scope_file_def by blast
      from Cons.IH [OF rest this] have ih: "wy_file w' \<longrightarrow> scope_file E N sc scope"
        "present \<Longrightarrow> scope_asked E N scope w1 \<or> scope \<in> set paths \<Longrightarrow> scope_asked E N scope w'"
        "\<not> present \<Longrightarrow> way_absent E N paths"
        by blast+
      have "scope_asked E N scope w1" if "path = scope \<or> scope_asked E N scope w"
        using that real(1) got by (auto simp: scope_asked_def)
      with ih show ?thesis
        by (auto simp: way_absent_def)
    qed
  qed auto
  then show "wy_file w' \<longrightarrow> scope_file E N sc scope"
    "present \<Longrightarrow> scope_asked E N scope w \<or> scope \<in> set paths \<Longrightarrow> scope_asked E N scope w'"
    "\<not> present \<Longrightarrow> way_absent E N paths"
    by blast+
qed

lemma prefixes_reach: "cs \<noteq> [] \<Longrightarrow> current @ concat (map ((#) slash) cs) \<in> set (prefixes_from current cs)"
proof (induction current cs rule: prefixes_from.induct)
  case (2 current c cs)
  then show ?case by (cases cs) auto
qed simp

lemma scope_on_way:
  assumes "path = slash # s" and "s \<noteq> []" "hd s \<noteq> slash"
  shows "path \<in> set (absolute_prefixes path)"
proof -
  have "dropWhile (\<lambda>c. c = slash) path = s"
    using assms by (cases s) auto
  with prefixes_reach [OF split_on_nonempty [of slash s], of "[]"] show ?thesis
    by (simp add: absolute_prefixes_def concat_components assms(1))
qed

lemma walk_start_ok:
  assumes "way_ok root scope w" and "scope_asked E N scope w"
  shows "walk_state_ok E N root rules (length (wy_entries w)) scope (wy_file w) {} (walk_start exists scope w)"
  using assms
  by (auto simp: walk_state_ok_def walk_shape_def walk_start_def way_ok_def placed_entry_def known_folder_def
      all_passed_def scope_asked_def intro: passed.scope)

end
