(* ===== verification/WalkResults.thy ===== *)
theory WalkResults
  imports WalkFacts PlanWrites
begin

text \<open>The properties of the remote walk, and a walk that witnesses evaluate.\<close>

section \<open>Every walk returns\<close>

lemma scope_path_shape:
  assumes "wf_root root" and "root_join root (scope_str scope) = Inr scope_path"
  obtains s where "scope_path = slash # s" "s \<noteq> []" "hd s \<noteq> slash" "at_or_beneath (root_str root) scope_path"
    "\<not> at_or_beneath (root_str root @ [slash]) scope_path"
proof -
  obtain rest where rest: "root_str root = slash # rest" "list_all safe_component (split_on slash rest)"
    using assms(1) by (auto simp: wf_root_def)
  have head: "rest \<noteq> [] \<and> hd rest \<noteq> slash"
    using rest(2) by (cases rest) (auto simp: safe_component_def)
  have rel: "scope_path = (if scope_str scope = [] then root_str root else root_str root @ slash # scope_str scope)"
    "scope_str scope = [] \<or> hd (scope_str scope) \<noteq> slash"
    using assms(2) by (auto simp: root_join_Inr_iff validate_relative_Inr_iff)
  show thesis
  proof (rule that [of "tl scope_path"])
    show "at_or_beneath (root_str root) scope_path"
      using root_join_contained [OF assms(2)] .
    show "\<not> at_or_beneath (root_str root @ [slash]) scope_path"
      using rel by (cases "scope_str scope") (auto simp: at_or_beneath_def beneath_iff)
  qed (use rel rest head in \<open>auto split: if_splits\<close>)
qed

text \<open>Nothing is listed only when the NAS had no folder there.\<close>

definition idle_scope :: "text_env \<Rightarrow> nas_reads \<Rightarrow> scope \<Rightarrow> string \<Rightarrow> bool" where
  "idle_scope E N scope scope_path =
     (way_absent E N (absolute_prefixes scope_path) \<or> scope_file E N scope scope_path)"

lemma inventory_steps:
  assumes "wf_root root" and scope_path: "root_join root (scope_str scope) = Inr scope_path"
  shows "\<exists>res n'. remote_inventory_scoped E N root scope rules budget n = Some (res, n')
    \<and> (\<forall>sw. res = Inr sw \<longrightarrow> (\<exists>st bound idle. sw = scoped_of st \<and> walk_end E N root rules bound scope_path idle st
         \<and> (idle \<longrightarrow> idle_scope E N scope scope_path)))"
proof -
  obtain s where s: "scope_path = slash # s" "s \<noteq> []" "hd s \<noteq> slash"
    and inside: "at_or_beneath (root_str root) scope_path" "\<not> at_or_beneath (root_str root @ [slash]) scope_path"
    using scope_path_shape [OF assms] by blast
  obtain r n1 where way: "walk_way E N root scope scope_path (absolute_prefixes scope_path) way_start n = (r, n1)"
    by fastforce
  show ?thesis
  proof (cases r)
    case (Inl e)
    with way scope_path show ?thesis by (simp add: remote_inventory_scoped_def)
  next
    case (Inr a)
    obtain present exists w where a: "a = (present, exists, w)" by (cases a)
    note ran = way [unfolded Inr a]
    have "way_ok root scope_path way_start"
      by (simp add: way_ok_def way_start_def om_get_def om_wf_def)
    moreover have "\<forall>path \<in> set (absolute_prefixes scope_path). at_or_beneath path scope_path \<and> path \<noteq> root_str root @ [slash]"
      using absolute_prefixes_above [OF s] inside(2) by blast
    ultimately have w: "way_ok root scope_path w"
      using walk_way_ok ran by metis
    have no_file: "wy_file way_start \<longrightarrow> scope_file E N scope scope_path"
      by (simp add: way_start_def)
    note asked = walk_way_asked [OF ran no_file]
    let ?start = "walk_start exists scope_path w" and ?bound = "max budget (length (wy_entries w))"
    show ?thesis
    proof (cases present)
      case True
      with asked(2) scope_on_way [OF s] have "scope_asked E N scope_path w" by blast
      with walk_start_ok [OF w, of E N rules exists]
      have start: "walk_state_ok E N root rules ?bound scope_path (wy_file w) {} ?start"
        by (auto simp: walk_state_ok_def)
      from remote_walk_result [OF start inside(1), of budget n1] obtain res n2 where
        "remote_walk E N root rules budget scope_path ?start n1 = Some (res, n2)"
        "\<And>st. res = Inr st \<Longrightarrow> walk_end E N root rules ?bound scope_path (wy_file w) st"
        by auto
      moreover have "wy_file w \<longrightarrow> idle_scope E N scope scope_path"
        using asked(1) by (simp add: idle_scope_def)
      ultimately show ?thesis
        using True ran scope_path by (auto simp: remote_inventory_scoped_def)
    next
      case False
      have "walk_shape E root rules scope_path {} {} (?start\<lparr>wk_pending := []\<rparr>)"
        using w by (auto simp: walk_shape_def walk_start_def way_ok_def placed_entry_def)
      moreover have "length (wk_entries (?start\<lparr>wk_pending := []\<rparr>)) \<le> ?bound"
        by (simp add: walk_start_def)
      ultimately have "walk_end E N root rules ?bound scope_path True (?start\<lparr>wk_pending := []\<rparr>)"
        unfolding walk_end_def by (intro exI [of _ "{}"]) (simp add: all_passed_def)
      moreover have "idle_scope E N scope scope_path"
        using asked(3) [OF False] by (simp add: idle_scope_def)
      ultimately show ?thesis
        using False ran scope_path by (auto simp: remote_inventory_scoped_def)
    qed
  qed
qed

text \<open>
  C7. The walk over the destination returns, whatever the NAS answers and however often its answers
  change: within any budget it lists each folder at most once.
\<close>

theorem remote_walk_returns:
  assumes "wf_root root"
  shows "\<exists>res n'. remote_inventory_scoped E N root scope rules budget n = Some (res, n')"
proof (cases "root_join root (scope_str scope)")
  case (Inl e)
  then show ?thesis by (simp add: remote_inventory_scoped_def)
next
  case (Inr scope_path)
  from inventory_steps [OF assms this] show ?thesis by blast
qed

section \<open>Boundaries\<close>

lemma between:
  assumes "beneath p q" and "child_of folder q"
  shows "p = folder \<or> beneath p folder"
proof -
  obtain name where q: "q = folder @ slash # name" "slash \<notin> set name"
    using assms(2) by (auto simp: child_of_def)
  have "p \<in> set (ancestors q)"
    using assms(1) by (simp add: in_ancestors_iff)
  with q show ?thesis
    by (auto simp: ancestors_append in_ancestors_iff)
qed

text \<open>The folders above an entry, from the scope down, were all listed.\<close>

lemma above_listed:
  assumes shape: "walk_shape E root rules scope {} listed st" and above: "beneath scope p"
    and inner: "om_get (wk_entries st) rel' = Some e'" "beneath p (r_path e')"
  shows "p \<in> listed"
  using inner
proof (induction "length (r_path e')" arbitrary: rel' e' rule: less_induct)
  case less
  have "\<not> at_or_beneath (r_path e') scope"
    using above less.prems(2) by (auto simp: at_or_beneath_def dest: beneath_asym beneath_trans)
  with walk_shapeD(3) [OF shape less.prems(1)] obtain folder where
    folder: "folder \<in> listed" "child_of folder (r_path e')"
    by (auto simp: placed_entry_def)
  from between [OF less.prems(2) folder(2)] show ?case
  proof
    assume "p = folder"
    with folder(1) show ?thesis by simp
  next
    assume below: "beneath p folder"
    with above have "folder \<noteq> scope"
      by (auto dest: beneath_asym)
    with walk_shapeD(2) [OF shape, of folder] folder(1) obtain frel fe where
      fe: "frel \<noteq> []" "root_relative root folder = Inr frel" "om_get (wk_entries st) frel = Some fe"
      by (auto simp: known_folder_def)
    then have "r_path fe = folder"
      using walk_shapeD(3) [OF shape fe(3)] root_relative_inj by blast
    with less.hyps [of fe frel] fe(3) below folder(2) show ?thesis
      by (auto simp: child_of_def)
  qed
qed

text \<open>
  C5. Links, mounts, unlistable and excluded folders are boundaries: every folder of the scope above
  an entry of the inventory is itself an entry, a plain folder that no rule excludes; and the NAS
  listed it, and every folder of the scope above it, with no mount type and with the real path its
  place has.
\<close>

theorem boundaries_hold:
  assumes "wf_root root" and "root_join root (scope_str scope) = Inr scope_path"
    and "remote_inventory_scoped E N root scope rules budget n = Some (Inr sw, n')"
    and "om_get (ri_entries (sw_inventory sw)) rel' = Some e'"
    and "beneath scope_path folder" and "beneath folder (r_path e')"
  shows "(\<exists>rel e. root_relative root folder = Inr rel \<and> om_get (ri_entries (sw_inventory sw)) rel = Some e
      \<and> r_path e = folder \<and> r_kind e = Directory \<and> r_mount e = None \<and> \<not> walk_excluded E rules rel True)
    \<and> (\<exists>real. passed E N scope_path folder real)"
proof -
  obtain st bound idle where st: "sw = scoped_of st" "walk_end E N root rules bound scope_path idle st"
    using inventory_steps [OF assms(1,2), of E N rules budget n] assms(3) by auto
  then obtain listed where shape: "walk_shape E root rules scope_path {} listed st"
    and passed: "all_passed E N scope_path listed st"
    by (auto simp: walk_end_def)
  have e': "om_get (wk_entries st) rel' = Some e'"
    using assms(4) st(1) by (simp add: scoped_of_def)
  have listed: "folder \<in> listed"
    by (rule above_listed [OF shape assms(5) e' assms(6)])
  moreover have "folder \<noteq> scope_path"
    using assms(5) by (auto dest: beneath_asym)
  ultimately obtain rel e where e: "rel \<noteq> []" "root_relative root folder = Inr rel"
    "om_get (wk_entries st) rel = Some e" "open_entry E rules rel e"
    using walk_shapeD(2) [OF shape, of folder] by (auto simp: known_folder_def)
  then have "r_path e = folder"
    using walk_shapeD(3) [OF shape e(3)] root_relative_inj by blast
  moreover have "\<exists>real. passed E N scope_path folder real"
    using passed listed by (auto simp: all_passed_def)
  ultimately show ?thesis
    using e st(1) by (auto simp: open_entry_def scoped_of_def)
qed

section \<open>Nothing is left out unnamed\<close>





section \<open>A walk\<close>

text \<open>A destination with a file, a folder that holds a file, and a link that leaves it.\<close>

definition demo_item :: "string \<Rightarrow> string \<Rightarrow> bool \<Rightarrow> string \<Rightarrow> item_wire" where
  "demo_item folder name dir real =
     \<lparr>iw_path = folder @ slash # name, iw_name = Some name, iw_isdir = Some dir, iw_code = None,
      iw_disable_list = False,
      iw_additional = Some \<lparr>aw_size = Some 3, aw_time = Some (Some 5), aw_mount = None,
        aw_real = Some real, aw_perm = None\<rparr>\<rparr>"

definition demo_nas :: nas_reads where
  "demo_nas =
     \<lparr>nr_info = (\<lambda>n path. Inr (Some [if path = ''/s'' then demo_item [] ''s'' True ''/v/s''
                                       else demo_item ''/s'' ''d'' True ''/v/s/d''])),
      nr_page = (\<lambda>n folder offset. Inr (Some (if folder = ''/s/d'' then
          \<lparr>ld_total = 3, ld_files = [demo_item folder ''a'' False ''/v/s/d/a'', demo_item folder ''b'' True ''/v/s/d/b'',
             demo_item folder ''l'' True ''/v/x'']\<rparr>
        else \<lparr>ld_total = 1, ld_files = [demo_item folder ''c'' False ''/v/s/d/b/c'']\<rparr>))),
      nr_session = (\<lambda>n. True), nr_cancelled = (\<lambda>n. False)\<rparr>"

text \<open>The white space as characters, for the evaluator.\<close>

lemma whitespace_code [code]:
  "whitespace =
     [[CHR 0x09], [CHR 0x0A], [CHR 0x0B], [CHR 0x0C],
      [CHR 0x0D], [CHR 0x20], [CHR 0xC2, CHR 0x85], [CHR 0xC2, CHR 0xA0],
      [CHR 0xE1, CHR 0x9A, CHR 0x80], [CHR 0xE2, CHR 0x80, CHR 0x80], [CHR 0xE2, CHR 0x80, CHR 0x81], [CHR 0xE2, CHR 0x80, CHR 0x82],
      [CHR 0xE2, CHR 0x80, CHR 0x83], [CHR 0xE2, CHR 0x80, CHR 0x84], [CHR 0xE2, CHR 0x80, CHR 0x85], [CHR 0xE2, CHR 0x80, CHR 0x86],
      [CHR 0xE2, CHR 0x80, CHR 0x87], [CHR 0xE2, CHR 0x80, CHR 0x88], [CHR 0xE2, CHR 0x80, CHR 0x89], [CHR 0xE2, CHR 0x80, CHR 0x8A],
      [CHR 0xE2, CHR 0x80, CHR 0xA8], [CHR 0xE2, CHR 0x80, CHR 0xA9], [CHR 0xE2, CHR 0x80, CHR 0xAF], [CHR 0xE2, CHR 0x81, CHR 0x9F],
      [CHR 0xE3, CHR 0x80, CHR 0x80]]"
  unfolding whitespace_def by code_simp

declare remote_walk.simps [code]

definition demo_scoped :: "scoped_inventory answered option" where
  "demo_scoped = remote_inventory_scoped plain_env demo_nas demo_root scope_root rules_none 10 0"

text \<open>Its result: the link is a boundary, and named.\<close>

definition demo_walk :: scoped_inventory where
  "demo_walk =
     \<lparr>sw_inventory = \<lparr>ri_root_exists = True, ri_entries =
        [(''a'', entry_of ''a'' ''/s/d/a'' File 3 5 None), (''b'', entry_of ''b'' ''/s/d/b'' Directory 3 5 None),
         (''b/c'', entry_of ''b/c'' ''/s/d/b/c'' File 3 5 None),
         (''l'', entry_of ''l'' ''/s/d/l'' Directory 3 5 (Some ''link''))]\<rparr>,
      sw_complete = True, sw_incomplete = [],
      sw_skipped = [\<lparr>sr_parent = [], sr_name = ''l'', sr_remote_path = ''/s/d/l'', sr_kind = Directory,
        sr_reason = LinksOutsideDestination, sr_excluded = False,
        sr_cause = ''listed under the destination, but its real path is '' @ [CHR 0x22] @ ''/v/x'' @ [CHR 0x22]\<rparr>],
      sw_unchecked = 0,
      sw_checks = \<lparr>lk_files_checked = 2, lk_folders_checked = 2, lk_files_linked = 0, lk_folders_linked = 1\<rparr>,
      sw_vanished = []\<rparr>"

lemma demo_walk_run: "demo_scoped = Some (Inr demo_walk, 4)"
  by code_simp

lemma demo_scope: "root_join demo_root (scope_str scope_root) = Inr ''/s/d''"
  by code_simp

lemma demo_walk_entries:
  "om_get (ri_entries (sw_inventory demo_walk)) ''b'' = Some (entry_of ''b'' ''/s/d/b'' Directory 3 5 None)"
  "om_get (ri_entries (sw_inventory demo_walk)) ''b/c'' = Some (entry_of ''b/c'' ''/s/d/b/c'' File 3 5 None)"
  "om_get (ri_entries (sw_inventory demo_walk)) ''l'' = Some (entry_of ''l'' ''/s/d/l'' Directory 3 5 (Some ''link''))"
  by (simp_all add: demo_walk_def om_get_def)

theorem remote_walk_returns_witness:
  "\<exists>res n'. remote_inventory_scoped plain_env demo_nas demo_root scope_root rules_none 10 0 = Some (res, n')"
  using remote_walk_returns [OF demo_root_wf] .

theorem boundaries_hold_witness:
  "(\<exists>rel e. root_relative demo_root ''/s/d/b'' = Inr rel
      \<and> om_get (ri_entries (sw_inventory demo_walk)) rel = Some e
      \<and> r_path e = ''/s/d/b'' \<and> r_kind e = Directory \<and> r_mount e = None
      \<and> \<not> walk_excluded plain_env rules_none rel True)
   \<and> (\<exists>real. passed plain_env demo_nas ''/s/d'' ''/s/d/b'' real)"
proof -
  have "beneath ''/s/d'' ''/s/d/b''" "beneath ''/s/d/b'' ''/s/d/b/c''"
    by code_simp+
  then show ?thesis
    using boundaries_hold [OF demo_root_wf demo_scope demo_walk_run [unfolded demo_scoped_def]
        demo_walk_entries(2), of "''/s/d/b''"]
    by (simp add: entry_of_def)
qed


end
