(* ===== verification/Pacing.thy ===== *)
theory Pacing
  imports ErrorText Numbers
begin

text \<open>
  The limits \<open>src/api.rs\<close> keeps by the clock: the ledger of re-authentications, the token bucket
  that paces uploads, the gate that bounds the tasks in flight, and the bounds of one upload attempt.
  Instants and durations are nanoseconds; an instant is what \<open>Instant::now\<close> gave.
\<close>

type_synonym nanos = nat

definition nanos_per_second :: nat where
  "nanos_per_second = 1000000000"

abbreviation seconds :: "nat \<Rightarrow> nanos" where
  "seconds s \<equiv> s * nanos_per_second"

definition u32_max :: nat where "u32_max = 2 ^ 32 - 1"
definition u64_max :: nat where "u64_max = 2 ^ 64 - 1"
definition u128_max :: nat where "u128_max = 2 ^ 128 - 1"

definition as_secs :: "nanos \<Rightarrow> nat" where
  "as_secs d = d div nanos_per_second"

definition div_ceil :: "nat \<Rightarrow> nat \<Rightarrow> nat" where
  "div_ceil a b = (a + b - 1) div b"

section \<open>The re-authentications of a client\<close>

definition reauthentications_per_window :: nat where "reauthentications_per_window = 4"
definition reauthentication_window :: nanos where "reauthentication_window = seconds (10 * 60)"
definition reauthentication_allowance_period :: nanos where
  "reauthentication_allowance_period = seconds (15 * 60)"

record reauth_ledger =
  lg_started :: nanos
  lg_recent :: "nanos list"
  lg_total :: nat

definition ledger_new :: "nanos \<Rightarrow> reauth_ledger" where
  "ledger_new started = \<lparr>lg_started = started, lg_recent = [], lg_total = 0\<rparr>"

definition whole_minutes :: "nanos \<Rightarrow> nat" where
  "whole_minutes d = max 1 (div_ceil (as_secs d) 60)"

definition prune_ledger :: "nanos \<Rightarrow> reauth_ledger \<Rightarrow> reauth_ledger" where
  "prune_ledger now l = l\<lparr>lg_recent := dropWhile (\<lambda>at. reauthentication_window \<le> now - at) (lg_recent l)\<rparr>"

definition ledger_allowance :: "nanos \<Rightarrow> reauth_ledger \<Rightarrow> nat" where
  "ledger_allowance now l =
     (let earned = min u32_max (as_secs (now - lg_started l) div as_secs reauthentication_allowance_period) in
      min u32_max (reauthentications_per_window + earned))"

text \<open>The reason of a refusal, and the ledger after the question: old entries are gone either way.\<close>

definition ledger_admit :: "nanos \<Rightarrow> reauth_ledger \<Rightarrow> (string + unit) \<times> reauth_ledger" where
  "ledger_admit now l =
     (let l = prune_ledger now l in
      if reauthentications_per_window \<le> length (lg_recent l) then
        let oldest = (case lg_recent l of [] \<Rightarrow> now | at # _ \<Rightarrow> at) in
        (Inl (''DSM ended '' @ show_nat (length (lg_recent l) + 1) @ '' sessions in ''
              @ show_nat (whole_minutes (now - oldest)) @ '' minutes, so re-authentication stopped''), l)
      else if ledger_allowance now l \<le> lg_total l then
        (Inl (''DSM ended '' @ show_nat (min u32_max (lg_total l + 1)) @ '' sessions in ''
              @ show_nat (whole_minutes (now - lg_started l))
              @ '' minutes of this run, so re-authentication stopped''), l)
      else
        (Inr (), l\<lparr>lg_recent := lg_recent l @ [now], lg_total := min u32_max (lg_total l + 1)\<rparr>))"

text \<open>The instants admitted out of those asked for, in their order.\<close>

fun admitted :: "reauth_ledger \<Rightarrow> nanos list \<Rightarrow> nanos list" where
  "admitted l [] = []"
| "admitted l (now # later) =
     (case ledger_admit now l of
        (Inl _, l') \<Rightarrow> admitted l' later
      | (Inr _, l') \<Rightarrow> now # admitted l' later)"

section \<open>The pace of uploads\<close>

record token_bucket =
  tb_rate :: nat
  tb_capacity :: nat
  tb_available :: nat
  tb_updated :: nanos

datatype rate_grant = Ready nat | Wait nanos

definition bucket_new :: "nat \<Rightarrow> nanos \<Rightarrow> token_bucket" where
  "bucket_new rate now =
     \<lparr>tb_rate = rate, tb_capacity = rate * nanos_per_second,
      tb_available = rate * nanos_per_second, tb_updated = now\<rparr>"

definition bucket_refill :: "nanos \<Rightarrow> token_bucket \<Rightarrow> token_bucket" where
  "bucket_refill now b =
     (let elapsed = now - tb_updated b in
      if elapsed = 0 then b
      else
        let minted = min u128_max (elapsed * tb_rate b) in
        b\<lparr>tb_updated := now,
          tb_available := min (min u128_max (tb_available b + minted)) (tb_capacity b)\<rparr>)"

definition bucket_take :: "nat \<Rightarrow> nanos \<Rightarrow> token_bucket \<Rightarrow> rate_grant \<times> token_bucket" where
  "bucket_take requested now b =
     (let b = bucket_refill now b;
          wanted = min requested (tb_rate b);
          available = min u64_max (tb_available b div nanos_per_second) in
      if wanted = 0 \<or> 0 < available then
        let granted = min available wanted in
        (Ready granted, b\<lparr>tb_available := tb_available b - granted * nanos_per_second\<rparr>)
      else
        let shortfall = wanted * nanos_per_second - tb_available b in
        (Wait (min u64_max (div_ceil shortfall (tb_rate b))), b))"

definition upload_rate_bucket :: "nat option \<Rightarrow> nanos \<Rightarrow> token_bucket option" where
  "upload_rate_bucket rate now =
     (case rate of None \<Rightarrow> None | Some r \<Rightarrow> if r = 0 then None else Some (bucket_new r now))"

fun granted :: "rate_grant \<Rightarrow> nat" where
  "granted (Ready n) = n"
| "granted (Wait _) = 0"

text \<open>What readers asking at these instants are granted between them, whatever each asks for.\<close>

fun bytes_granted :: "token_bucket \<Rightarrow> (nanos \<times> nat) list \<Rightarrow> nat" where
  "bytes_granted b [] = 0"
| "bytes_granted b ((now, requested) # later) =
     (case bucket_take requested now b of (g, b') \<Rightarrow> granted g + bytes_granted b' later)"

definition minimum_upload_duration :: "nat option \<Rightarrow> u64 \<Rightarrow> nanos option" where
  "minimum_upload_duration rate sz =
     (case rate of None \<Rightarrow> None
      | Some r \<Rightarrow> Some (seconds ((unat sz - max 1 r) div max 1 r)))"

section \<open>The tasks in flight\<close>

record task_gate =
  tg_in_use :: nat
  tg_capacity :: nat

definition gate_new :: "nat \<Rightarrow> task_gate" where
  "gate_new capacity = \<lparr>tg_in_use = 0, tg_capacity = max 1 capacity\<rparr>"

text \<open>One look at the gate under its lock: a slot, or the wait goes on.\<close>

definition gate_try :: "task_gate \<Rightarrow> task_gate option" where
  "gate_try g = (if tg_capacity g \<le> tg_in_use g then None else Some (g\<lparr>tg_in_use := tg_in_use g + 1\<rparr>))"

definition gate_drop :: "task_gate \<Rightarrow> task_gate" where
  "gate_drop g = g\<lparr>tg_in_use := tg_in_use g - 1\<rparr>"

section \<open>The bounds of one upload attempt\<close>

definition upload_stall_window_max :: nanos where "upload_stall_window_max = seconds 300"
definition upload_minimum_rate :: nat where "upload_minimum_rate = 16 * 1024"
definition upload_drain_allowance_bytes :: nat where "upload_drain_allowance_bytes = 16 * 1024 * 1024"

record upload_bounds =
  ub_stall :: nanos
  ub_ceiling :: nanos
  ub_response :: nanos

definition bounds_for_upload :: "nanos \<Rightarrow> u64 \<Rightarrow> upload_bounds" where
  "bounds_for_upload timeout sz =
     \<lparr>ub_stall = min timeout upload_stall_window_max,
      ub_ceiling = max timeout (seconds (div_ceil (unat sz) upload_minimum_rate)),
      ub_response = timeout\<rparr>"

datatype upload_bound = StallBound | CeilingBound | ResponseBound

text \<open>How far a body has got: milliseconds since its start.\<close>

record upload_progress =
  up_last_taken_ms :: nat
  up_taken :: nat
  up_finished_ms :: nat

definition progress_new :: upload_progress where
  "progress_new = \<lparr>up_last_taken_ms = 0, up_taken = 0, up_finished_ms = 0\<rparr>"

definition progress_took :: "nat \<Rightarrow> nat \<Rightarrow> upload_progress \<Rightarrow> upload_progress" where
  "progress_took now_ms bytes p =
     p\<lparr>up_taken := (up_taken p + bytes) mod 2 ^ 64, up_last_taken_ms := now_ms\<rparr>"

definition progress_finish :: "nat \<Rightarrow> upload_progress \<Rightarrow> upload_progress" where
  "progress_finish now_ms p = p\<lparr>up_finished_ms := min u64_max (now_ms + 1)\<rparr>"

definition finish_if_unfinished :: "nat \<Rightarrow> upload_progress \<Rightarrow> upload_progress" where
  "finish_if_unfinished now_ms p =
     (if up_finished_ms p = 0 then p\<lparr>up_finished_ms := min u64_max (now_ms + 1)\<rparr> else p)"

definition drain_allowance :: "nat \<Rightarrow> nanos" where
  "drain_allowance taken = seconds (div_ceil (min taken upload_drain_allowance_bytes) upload_minimum_rate)"

definition from_millis :: "nat \<Rightarrow> nanos" where
  "from_millis ms = ms * 1000000"

definition response_text :: "text_env \<Rightarrow> upload_bounds \<Rightarrow> string \<Rightarrow> u64 \<Rightarrow> nanos \<Rightarrow> string" where
  "response_text E bounds relative sz drain =
     ''DSM did not answer within '' @ show_nat (as_secs (ub_response bounds))
     @ '' s (--timeout) after the last byte of '' @ debug_str E relative @ '' ('' @ show_u64 sz
     @ '' bytes) was sent, allowing '' @ show_nat (as_secs drain)
     @ '' s more for what the connection was still carrying''"

definition stall_text :: "upload_bounds \<Rightarrow> nat \<Rightarrow> u64 \<Rightarrow> nanos \<Rightarrow> string" where
  "stall_text bounds taken sz elapsed =
     ''the upload stalled: the connection took no body bytes for '' @ show_nat (as_secs (ub_stall bounds))
     @ '' s ('' @ show_nat taken @ '' of '' @ show_u64 sz @ '' bytes sent in ''
     @ show_nat (as_secs elapsed)
     @ '' s); check the link and any proxy in front of DSM, or raise --timeout''"

definition ceiling_text :: "upload_bounds \<Rightarrow> nat \<Rightarrow> u64 \<Rightarrow> nanos \<Rightarrow> string" where
  "ceiling_text bounds taken sz elapsed =
     ''the upload is too slow to finish: '' @ show_nat taken @ '' of '' @ show_u64 sz @ '' bytes in ''
     @ show_nat (as_secs elapsed) @ '' s, below the '' @ show_nat upload_minimum_rate
     @ '' bytes/s this file needs to arrive within the '' @ show_nat (as_secs (ub_ceiling bounds))
     @ '' s one attempt may take; raise --timeout, or check the link''"

definition broken_bound ::
  "text_env \<Rightarrow> upload_bounds \<Rightarrow> string \<Rightarrow> u64 \<Rightarrow> nat \<Rightarrow> upload_progress \<Rightarrow> (upload_bound \<times> string) option"
where
  "broken_bound E bounds relative sz now_ms p =
     (let elapsed = from_millis now_ms in
      if 0 < up_finished_ms p then
        let waited = from_millis (now_ms - (up_finished_ms p - 1)); drain = drain_allowance (up_taken p) in
        if ub_response bounds + drain \<le> waited then
          Some (ResponseBound, response_text E bounds relative sz drain)
        else None
      else if ub_stall bounds \<le> from_millis (now_ms - up_last_taken_ms p) then
        Some (StallBound, stall_text bounds (up_taken p) sz elapsed)
      else if ub_ceiling bounds \<le> elapsed then
        Some (CeilingBound, ceiling_text bounds (up_taken p) sz elapsed)
      else None)"

end
