(* ===== verification/PaceFacts.thy ===== *)
theory PaceFacts
  imports Pacing
begin

text \<open>
  The limits hold: re-authentications keep their rate and their allowance, a bucket never grants more
  than its rate over any stretch of time and never makes a reader wait for more than a second, the
  gate never lets in more than its capacity.
\<close>

section \<open>Re-authentications\<close>

lemma window_parts [simp]:
  "as_secs reauthentication_allowance_period = 900"
  "reauthentications_per_window = 4"
  by (simp_all add: as_secs_def reauthentication_allowance_period_def nanos_per_second_def
    reauthentications_per_window_def)

lemma minutes_elapsed: "as_secs d div 900 = d div reauthentication_allowance_period"
  by (simp add: as_secs_def reauthentication_allowance_period_def nanos_per_second_def div_mult2_eq
    flip: div_mult2_eq)

definition spaced :: "nanos list \<Rightarrow> bool" where
  "spaced at_times \<longleftrightarrow>
     (\<forall>i. i + 4 < length at_times \<longrightarrow> at_times ! i + reauthentication_window \<le> at_times ! (i + 4))"

definition allowed :: "nanos \<Rightarrow> nanos list \<Rightarrow> bool" where
  "allowed started at_times \<longleftrightarrow>
     (\<forall>i < length at_times. i < 4 + (at_times ! i - started) div reauthentication_allowance_period)"

text \<open>What the ledger knows of the re-authentications made up to an instant.\<close>

definition ledger_knows :: "nanos list \<Rightarrow> nanos \<Rightarrow> reauth_ledger \<Rightarrow> bool" where
  "ledger_knows past now l \<longleftrightarrow>
     (\<exists>old. past = old @ lg_recent l \<and> (\<forall>a \<in> set old. a + reauthentication_window \<le> now))
     \<and> lg_total l = length past \<and> (\<forall>a \<in> set past. a \<le> now)
     \<and> spaced past \<and> allowed (lg_started l) past"

lemma knows_new: "ledger_knows [] now (ledger_new started)"
  by (simp add: ledger_knows_def ledger_new_def spaced_def allowed_def)

lemma knows_pruned:
  assumes "ledger_knows past before l" and "before \<le> now"
  shows "ledger_knows past now (prune_ledger now l)"
proof -
  obtain old where old: "past = old @ lg_recent l" "\<forall>a \<in> set old. a + reauthentication_window \<le> before"
    using assms(1) by (auto simp: ledger_knows_def)
  let ?gone = "\<lambda>at. reauthentication_window \<le> now - at"
  let ?old = "old @ takeWhile ?gone (lg_recent l)"
  have "past = ?old @ dropWhile ?gone (lg_recent l)" by (simp add: old(1))
  moreover have "a + reauthentication_window \<le> now" if "a \<in> set ?old" for a
  proof (cases "a \<in> set old")
    case True
    then show ?thesis using old(2) assms(2) by fastforce
  next
    case False
    then have "?gone a" using that set_takeWhileD by fastforce
    moreover have "0 < reauthentication_window"
      by (simp add: reauthentication_window_def nanos_per_second_def)
    ultimately show ?thesis by arith
  qed
  ultimately show ?thesis
    using assms unfolding ledger_knows_def prune_ledger_def
    by (auto intro!: exI [of _ ?old] dest: le_trans [OF _ assms(2)])
qed

lemma spaced_snoc:
  assumes "spaced past" and "past = old @ recent" and "length recent < 4"
    and "\<forall>a \<in> set old. a + reauthentication_window \<le> now"
  shows "spaced (past @ [now])"
  unfolding spaced_def
proof (intro allI impI)
  fix i assume i: "i + 4 < length (past @ [now])"
  show "(past @ [now]) ! i + reauthentication_window \<le> (past @ [now]) ! (i + 4)"
  proof (cases "i + 4 < length past")
    case True
    then show ?thesis using assms(1) by (simp add: spaced_def nth_append)
  next
    case False
    then have at: "i + 4 = length past" using i by simp
    then have "i < length old" using assms(2,3) by simp
    then have "past ! i \<in> set old" using assms(2) by (simp add: nth_append)
    then show ?thesis using assms(4) at by (simp add: nth_append)
  qed
qed

lemma knows_admitted:
  assumes known: "ledger_knows past now l"
    and room: "length (lg_recent l) < 4" and budget: "lg_total l < ledger_allowance now l"
  shows "ledger_knows (past @ [now]) now
           (l\<lparr>lg_recent := lg_recent l @ [now], lg_total := min u32_max (lg_total l + 1)\<rparr>)"
proof -
  obtain old where old: "past = old @ lg_recent l" "\<forall>a \<in> set old. a + reauthentication_window \<le> now"
    using known by (auto simp: ledger_knows_def)
  have total: "lg_total l = length past" using known by (simp add: ledger_knows_def)
  have "length past < 4 + (now - lg_started l) div reauthentication_allowance_period"
    and fits: "length past < u32_max"
    using budget by (auto simp: ledger_allowance_def total Let_def minutes_elapsed)
  moreover have "allowed (lg_started l) past" using known by (simp add: ledger_knows_def)
  ultimately have "allowed (lg_started l) (past @ [now])"
    by (simp add: allowed_def All_less_Suc nth_append)
  moreover have "spaced (past @ [now])"
    using spaced_snoc [OF _ old(1) room old(2)] known by (simp add: ledger_knows_def)
  ultimately show ?thesis
    using known old fits by (auto simp: ledger_knows_def total)
qed

lemma admit_keeps_knowledge:
  assumes "ledger_knows past before l" and "before \<le> now"
  shows "case ledger_admit now l of
           (Inl _, l') \<Rightarrow> ledger_knows past now l' | (Inr _, l') \<Rightarrow> ledger_knows (past @ [now]) now l'"
  using knows_pruned [OF assms] knows_admitted [of past now "prune_ledger now l"]
  by (simp add: ledger_admit_def Let_def)

lemma prune_keeps_start [simp]: "lg_started (prune_ledger now l) = lg_started l"
  by (simp add: prune_ledger_def)

lemma admit_keeps_start: "ledger_admit now l = (r, l') \<Longrightarrow> lg_started l' = lg_started l"
  by (auto simp: ledger_admit_def Let_def split: if_splits)

lemma admitted_known:
  assumes "ledger_knows past before l" and "sorted (before # at_times)"
  shows "spaced (past @ admitted l at_times) \<and> allowed (lg_started l) (past @ admitted l at_times)"
  using assms
proof (induction at_times arbitrary: past before l)
  case Nil
  then show ?case by (simp add: ledger_knows_def)
next
  case (Cons now at_times)
  have step: "before \<le> now" "sorted (now # at_times)" using Cons.prems(2) by auto
  obtain r l' where admit: "ledger_admit now l = (r, l')" by fastforce
  note knows = admit_keeps_knowledge [OF Cons.prems(1) step(1)]
  show ?case
  proof (cases r)
    case (Inl why)
    then show ?thesis
      using Cons.IH [of past now l'] knows step(2) admit_keeps_start [OF admit] by (simp add: admit)
  next
    case (Inr u)
    then show ?thesis
      using Cons.IH [of "past @ [now]" now l'] knows step(2) admit_keeps_start [OF admit]
      by (simp add: admit)
  qed
qed

text \<open>
  C40. However often it is asked, the ledger admits at most four logins within any ten minutes: the
  fourth after a login is at least ten minutes later. And in the whole run it admits at most four, and
  one more for each full quarter of an hour since the client was made.
\<close>

theorem relogins_are_bounded:
  assumes "sorted (started # at_times)"
  shows "(i + 4 < length (admitted (ledger_new started) at_times) \<longrightarrow>
            admitted (ledger_new started) at_times ! i + reauthentication_window
              \<le> admitted (ledger_new started) at_times ! (i + 4))
       \<and> (i < length (admitted (ledger_new started) at_times) \<longrightarrow>
            i < 4 + (admitted (ledger_new started) at_times ! i - started) div reauthentication_allowance_period)"
  using admitted_known [OF knows_new assms, of started]
  by (simp add: spaced_def allowed_def ledger_new_def)

text \<open>Six requests refused in one minute and one after ten: five logins, the fifth after the window.\<close>

theorem relogins_are_bounded_witness:
  "admitted (ledger_new 0) (map seconds [1, 2, 3, 4, 5, 6, 1000]) = map seconds [1, 2, 3, 4, 1000]
   \<and> seconds 1 + reauthentication_window \<le> seconds 1000
   \<and> 4 < 4 + (seconds 1000 - 0) div reauthentication_allowance_period"
proof -
  have run: "admitted (ledger_new 0) (map seconds [1, 2, 3, 4, 5, 6, 1000]) = map seconds [1, 2, 3, 4, 1000]"
    by (simp add: ledger_new_def ledger_admit_def prune_ledger_def ledger_allowance_def
        reauthentication_window_def reauthentication_allowance_period_def nanos_per_second_def
        u32_max_def as_secs_def Let_def)
  have "sorted (0 # map seconds [1, 2, 3, 4, 5, 6, 1000])" by (simp add: nanos_per_second_def)
  from relogins_are_bounded [OF this, of 0] relogins_are_bounded [OF this, of 4] run
  show ?thesis by simp
qed

section \<open>The pace of uploads\<close>

definition bucket_wf :: "token_bucket \<Rightarrow> bool" where
  "bucket_wf b \<longleftrightarrow> tb_capacity b = tb_rate b * nanos_per_second \<and> tb_available b \<le> tb_capacity b"

lemma bucket_new_wf: "bucket_wf (bucket_new rate now)"
  by (simp add: bucket_wf_def bucket_new_def)

lemma refill_wf: "bucket_wf b \<Longrightarrow> bucket_wf (bucket_refill now b)"
  by (simp add: bucket_wf_def bucket_refill_def Let_def)

lemma refill_rate [simp]: "tb_rate (bucket_refill now b) = tb_rate b"
  by (simp add: bucket_refill_def Let_def)

lemma refill_updated: "tb_updated b \<le> now \<Longrightarrow> tb_updated (bucket_refill now b) = now"
  by (simp add: bucket_refill_def Let_def)

lemma refill_mints_at_most:
  "tb_available (bucket_refill now b) \<le> tb_available b + tb_rate b * (now - tb_updated b)"
  by (simp add: bucket_refill_def Let_def mult.commute min_def)

lemma take_spends:
  assumes "bucket_take requested now b = (g, b')"
  shows "granted g * nanos_per_second + tb_available b' = tb_available (bucket_refill now b)
       \<and> tb_rate b' = tb_rate b \<and> tb_updated b' = tb_updated (bucket_refill now b)
       \<and> tb_capacity b' = tb_capacity (bucket_refill now b)"
proof -
  let ?b = "bucket_refill now b"
  let ?n = "min (min u64_max (tb_available ?b div nanos_per_second)) (min requested (tb_rate b))"
  have "?n * nanos_per_second \<le> tb_available ?b div nanos_per_second * nanos_per_second"
    by (rule mult_le_mono1) simp
  also have "\<dots> \<le> tb_available ?b" by (rule div_times_less_eq_dividend)
  finally have spent: "?n * nanos_per_second \<le> tb_available ?b" .
  show ?thesis
  proof (cases "min requested (tb_rate b) = 0 \<or> 0 < min u64_max (tb_available ?b div nanos_per_second)")
    case True
    then have "g = Ready ?n" "b' = ?b\<lparr>tb_available := tb_available ?b - ?n * nanos_per_second\<rparr>"
      using assms by (simp_all only: bucket_take_def Let_def refill_rate if_True prod.inject)
    then show ?thesis using spent by (simp del: min_less_iff_conj)
  next
    case False
    then have "granted g = 0" "b' = ?b"
      using assms by (auto simp only: bucket_take_def Let_def refill_rate if_False prod.inject granted.simps)
    then show ?thesis by simp
  qed
qed

lemma take_wf: "bucket_wf b \<Longrightarrow> bucket_take requested now b = (g, b') \<Longrightarrow> bucket_wf b'"
  using take_spends [of requested now b g b'] refill_wf [of b now] by (auto simp: bucket_wf_def)

lemma spend_then_spend:
  "g + kept = (had :: nat) \<Longrightarrow> rest \<le> kept + minted \<Longrightarrow> had \<le> bound \<Longrightarrow> g + rest \<le> bound + minted"
  by linarith

lemma granted_between:
  assumes "sorted (tb_updated b # map fst reqs)" and "\<forall>t \<in> set (map fst reqs). t \<le> till"
  shows "bytes_granted b reqs * nanos_per_second
           \<le> tb_available b + tb_rate b * (till - tb_updated b)"
  using assms
proof (induction reqs arbitrary: b)
  case Nil
  then show ?case by simp
next
  case (Cons req reqs)
  obtain now requested where req: "req = (now, requested)" by fastforce
  obtain g b' where step: "bucket_take requested now b = (g, b')" by fastforce
  have order: "tb_updated b \<le> now" "now \<le> till" using Cons.prems by (auto simp: req)
  note spends = take_spends [OF step] refill_updated [OF order(1)] refill_mints_at_most [of now b]
  have "bytes_granted b' reqs * nanos_per_second \<le> tb_available b' + tb_rate b' * (till - tb_updated b')"
    using Cons.prems spends by (intro Cons.IH) (auto simp: req)
  then have rest: "bytes_granted b' reqs * nanos_per_second \<le> tb_available b' + tb_rate b * (till - now)"
    using spends(1,2) by simp
  have "till - tb_updated b = (now - tb_updated b) + (till - now)" using order by arith
  then have span: "tb_rate b * (till - tb_updated b) = tb_rate b * (now - tb_updated b) + tb_rate b * (till - now)"
    by (simp only: distrib_left)
  have "bytes_granted b (req # reqs) * nanos_per_second
      = granted g * nanos_per_second + bytes_granted b' reqs * nanos_per_second"
    by (simp add: req step distrib_right)
  also have "\<dots> \<le> tb_available b + tb_rate b * (now - tb_updated b) + tb_rate b * (till - now)"
    by (rule spend_then_spend [OF conjunct1 [OF spends(1)] rest spends(3)])
  finally show ?case by (simp only: span add.assoc)
qed

fun bucket_run :: "token_bucket \<Rightarrow> (nanos \<times> nat) list \<Rightarrow> token_bucket" where
  "bucket_run b [] = b"
| "bucket_run b ((now, requested) # later) = bucket_run (snd (bucket_take requested now b)) later"

lemma run_wf: "bucket_wf b \<Longrightarrow> bucket_wf (bucket_run b reqs)"
  by (induction b reqs rule: bucket_run.induct) (auto intro: take_wf [OF _ prod.collapse [symmetric]])

lemma run_rate [simp]: "tb_rate (bucket_run b reqs) = tb_rate b"
proof (induction reqs arbitrary: b)
  case (Cons req reqs)
  then show ?case
    using take_spends [of "snd req" "fst req" b "fst (bucket_take (snd req) (fst req) b)"
        "snd (bucket_take (snd req) (fst req) b)"]
    by (cases req) simp
qed simp

lemma run_updated:
  "sorted (tb_updated b # map fst reqs) \<Longrightarrow> tb_updated (bucket_run b reqs) = last (tb_updated b # map fst reqs)"
proof (induction reqs arbitrary: b)
  case (Cons req reqs)
  let ?t = "bucket_take (snd req) (fst req) b"
  have "tb_updated (snd ?t) = fst req"
    using take_spends [of "snd req" "fst req" b "fst ?t" "snd ?t"] refill_updated [of b "fst req"] Cons.prems
    by simp
  then show ?case using Cons by (cases req) auto
qed simp

text \<open>
  Over any stretch of any run the readers that share one bucket, however many and whatever they
  ask for, are granted at most the configured rate over the length of the stretch, and one second of
  traffic on top.
\<close>

theorem uploads_keep_the_rate:
  assumes "sorted (started # map fst before @ since # map fst within)"
    and "\<forall>t \<in> set (map fst within). t \<le> till" and "since \<le> till"
  shows "bytes_granted (bucket_run (bucket_new rate started) before) ((since, requested) # within)
           * nanos_per_second
         \<le> rate * (till - since + seconds 1)"
proof -
  let ?b = "bucket_run (bucket_new rate started) before"
  obtain g b' where step: "bucket_take requested since ?b = (g, b')" by fastforce
  have wf: "bucket_wf (bucket_refill since ?b)" by (intro refill_wf run_wf bucket_new_wf)
  have new: "tb_rate (bucket_new rate started) = rate" "tb_updated (bucket_new rate started) = started"
    by (simp_all add: bucket_new_def)
  have "tb_updated ?b = last (started # map fst before)"
    using run_updated [of "bucket_new rate started" before] assms(1)
    by (simp add: new sorted_append)
  then have "tb_updated ?b \<le> since"
    using assms(1) by (cases "before = []") (auto simp: sorted_append last_map dest: last_in_set)
  note spends = take_spends [OF step] refill_updated [OF this]
  have "bytes_granted b' within * nanos_per_second \<le> tb_available b' + tb_rate b' * (till - tb_updated b')"
    using assms spends by (intro granted_between) (auto simp: sorted_append)
  then have rest: "bytes_granted b' within * nanos_per_second \<le> tb_available b' + rate * (till - since)"
    using spends(1,2) by (simp add: new)
  have full: "tb_available (bucket_refill since ?b) \<le> rate * seconds 1"
    using wf by (simp add: bucket_wf_def new)
  have "bytes_granted ?b ((since, requested) # within) * nanos_per_second
      = granted g * nanos_per_second + bytes_granted b' within * nanos_per_second"
    by (simp add: step distrib_right)
  also have "\<dots> \<le> rate * seconds 1 + rate * (till - since)"
    by (rule spend_then_spend [OF conjunct1 [OF spends(1)] rest full])
  finally show ?thesis by (simp only: distrib_left add.commute)
qed

theorem uploads_keep_the_rate_witness:
  "bytes_granted (bucket_new 10 0) [(0, 8), (0, 8), (seconds 1, 30)] * nanos_per_second
     \<le> 10 * (seconds 1 - 0 + seconds 1)
   \<and> bytes_granted (bucket_new 10 0) [(0, 8), (0, 8), (seconds 1, 30)] = 20"
proof -
  let ?b = "\<lambda>available at. \<lparr>tb_rate = 10, tb_capacity = 10000000000, tb_available = available, tb_updated = at\<rparr>"
  note numbers = bucket_take_def bucket_refill_def nanos_per_second_def u64_max_def u128_max_def
  have "bucket_new 10 0 = ?b 10000000000 0" by (simp add: bucket_new_def nanos_per_second_def)
  moreover have "bucket_take 8 0 (?b 10000000000 0) = (Ready 8, ?b 2000000000 0)" by (simp add: numbers)
  moreover have "bucket_take 8 0 (?b 2000000000 0) = (Ready 2, ?b 0 0)" by (simp add: numbers)
  moreover have "bucket_take 30 1000000000 (?b 0 0) = (Ready 10, ?b 0 1000000000)" by (simp add: numbers)
  ultimately have "bytes_granted (bucket_new 10 0) [(0, 8), (0, 8), (seconds 1, 30)] = 20"
    by (simp add: nanos_per_second_def)
  then show ?thesis
    using uploads_keep_the_rate [of 0 "[]" 0 "[(0, 8), (seconds 1, 30)]" "seconds 1" 10 8]
    by (simp add: nanos_per_second_def)
qed

text \<open>A reader told to wait is told at most a second, and is served in full after that wait.\<close>

lemma div_ceil_covers: "0 < r \<Longrightarrow> s \<le> div_ceil s r * r"
proof -
  assume r: "0 < r"
  have "s + r - 1 = (s + r - 1) div r * r + (s + r - 1) mod r" by simp
  moreover have "(s + r - 1) mod r \<le> r - 1" using r by (simp add: less_Suc_eq_le [symmetric])
  ultimately show ?thesis unfolding div_ceil_def using r by arith
qed

lemma div_ceil_bound:
  assumes "0 < r" and "s \<le> r * n"
  shows "div_ceil s r \<le> n"
proof -
  have "s + r - 1 < Suc n * r" using assms by (simp add: mult.commute)
  then have "(s + r - 1) div r < Suc n" by (rule less_mult_imp_div_less)
  then show ?thesis by (simp add: div_ceil_def)
qed

lemma wait_parts:
  assumes "bucket_take requested now b = (Wait d, b')"
  shows "b' = bucket_refill now b" "0 < min requested (tb_rate b)"
    "tb_available b' < nanos_per_second"
    "d = min u64_max (div_ceil (min requested (tb_rate b) * nanos_per_second - tb_available b') (tb_rate b))"
proof -
  let ?b = "bucket_refill now b"
  let ?stop = "min requested (tb_rate b) = 0 \<or> 0 < min u64_max (tb_available ?b div nanos_per_second)"
  have stop: "\<not> ?stop"
  proof
    assume s: ?stop
    from assms show False
      unfolding bucket_take_def Let_def refill_rate if_P [OF s] by simp
  qed
  have parts: "b' = ?b" "d = min u64_max (div_ceil (min requested (tb_rate b) * nanos_per_second - tb_available ?b) (tb_rate b))"
    using assms unfolding bucket_take_def Let_def refill_rate if_not_P [OF stop] by auto
  show "b' = bucket_refill now b" by (rule parts)
  show "0 < min requested (tb_rate b)" using stop by linarith
  show "tb_available b' < nanos_per_second"
    using stop by (auto simp: parts(1) u64_max_def div_eq_0_iff nanos_per_second_def)
  show "d = min u64_max (div_ceil (min requested (tb_rate b) * nanos_per_second - tb_available b') (tb_rate b))"
    by (simp only: parts)
qed

lemma wait_is_short:
  assumes "0 < tb_rate b" and "bucket_take requested now b = (Wait d, b')"
  shows "d \<le> seconds 1"
proof -
  have "min requested (tb_rate b) * nanos_per_second \<le> tb_rate b * nanos_per_second"
    by (rule mult_le_mono1) simp
  then have "div_ceil (min requested (tb_rate b) * nanos_per_second - tb_available b') (tb_rate b) \<le> nanos_per_second"
    by (intro div_ceil_bound assms(1)) linarith
  then show ?thesis using wait_parts(4) [OF assms(2)] by simp
qed

lemma waited_is_served:
  assumes wf: "bucket_wf b" and rate: "0 < tb_rate b" "tb_rate b \<le> u64_max" and "tb_updated b \<le> now"
    and wait: "bucket_take requested now b = (Wait d, b')"
  shows "fst (bucket_take requested (now + d) b') = Ready (min requested (tb_rate b))"
proof -
  let ?w = "min requested (tb_rate b)"
  note parts = wait_parts [OF wait]
  have b': "tb_rate b' = tb_rate b" "tb_updated b' = now" "bucket_wf b'"
    using refill_updated [OF assms(4)] refill_wf [OF wf] by (simp_all add: parts(1))
  let ?s = "?w * nanos_per_second - tb_available b'"
  have short: "div_ceil ?s (tb_rate b) \<le> nanos_per_second"
    using mult_le_mono1 [of ?w "tb_rate b" nanos_per_second] by (intro div_ceil_bound rate) linarith
  then have d: "d = div_ceil ?s (tb_rate b)" "d \<le> nanos_per_second"
    using parts(4) by (simp_all add: u64_max_def nanos_per_second_def)
  have "nanos_per_second \<le> ?w * nanos_per_second" using parts(2) by simp
  then have "0 < ?s" using parts(3) by linarith
  then have pos: "0 < d" using div_ceil_covers [OF rate(1), of ?s] d(1) by (cases d) auto
  have covered: "?w * nanos_per_second \<le> tb_available b' + d * tb_rate b"
    using div_ceil_covers [OF rate(1), of ?s] unfolding d(1) by linarith
  have "d * tb_rate b \<le> nanos_per_second * u64_max" by (intro mult_le_mono d(2) rate(2))
  also have "\<dots> + nanos_per_second \<le> u128_max" by (simp add: nanos_per_second_def u64_max_def u128_max_def)
  finally have fits: "d * tb_rate b \<le> u128_max" "tb_available b' + d * tb_rate b \<le> u128_max"
    using parts(3) by linarith+
  let ?r = "bucket_refill (now + d) b'"
  have available: "tb_available ?r = min (tb_available b' + d * tb_rate b) (tb_rate b * nanos_per_second)"
    using pos fits b' by (simp add: bucket_refill_def bucket_wf_def)
  have "?w * nanos_per_second \<le> tb_available ?r"
    unfolding available using covered mult_le_mono1 [of ?w "tb_rate b" nanos_per_second] by simp
  then have enough: "?w \<le> tb_available ?r div nanos_per_second"
    by (simp add: nanos_per_second_def less_eq_div_iff_mult_less_eq)
  have stop: "?w = 0 \<or> 0 < min u64_max (tb_available ?r div nanos_per_second)"
    using less_le_trans [OF parts(2) enough] by (simp only: min_less_iff_conj u64_max_def) simp
  have "min (min u64_max (tb_available ?r div nanos_per_second)) ?w = ?w"
    using enough rate(2) by simp
  then show ?thesis
    using stop by (simp only: bucket_take_def Let_def refill_rate b'(1) if_P fst_conv)
qed

section \<open>The tasks in flight\<close>

lemma gate_new_room: "tg_in_use (gate_new c) \<le> tg_capacity (gate_new c)" "0 < tg_capacity (gate_new c)"
  by (simp_all add: gate_new_def)

lemma gate_try_room: "gate_try g = Some g' \<Longrightarrow> tg_in_use g' \<le> tg_capacity g' \<and> tg_capacity g' = tg_capacity g"
  by (auto simp: gate_try_def split: if_splits)

lemma gate_drop_try: "gate_try g = Some g' \<Longrightarrow> gate_drop g' = g"
  by (auto simp: gate_try_def gate_drop_def split: if_splits)

text \<open>A gate that let everyone out is free again, so a waiter that keeps looking gets its slot.\<close>

lemma gate_drop_frees:
  "0 < tg_in_use g \<Longrightarrow> tg_in_use g \<le> tg_capacity g \<Longrightarrow> gate_try (gate_drop g) \<noteq> None"
  by (auto simp: gate_try_def gate_drop_def)

section \<open>The bounds of one attempt\<close>

text \<open>A body that keeps moving is ended by the ceiling alone, which is never below the time limit.\<close>

lemma moving_body_goes_on:
  assumes "up_finished_ms p = 0" and "from_millis (now_ms - up_last_taken_ms p) < min timeout upload_stall_window_max"
    and "from_millis now_ms < max timeout (seconds (div_ceil (unat sz) upload_minimum_rate))"
  shows "broken_bound E (bounds_for_upload timeout sz) relative sz now_ms p = None"
  using assms by (simp add: broken_bound_def bounds_for_upload_def Let_def not_le less_max_iff_disj)

lemma body_ends_by_its_ceiling:
  assumes "up_finished_ms p = 0" and "max timeout (seconds (div_ceil (unat sz) upload_minimum_rate)) \<le> from_millis now_ms"
  shows "broken_bound E (bounds_for_upload timeout sz) relative sz now_ms p \<noteq> None"
  using assms by (simp add: broken_bound_def bounds_for_upload_def Let_def)

end
