(* ===== verification/UploadBody.thy ===== *)
theory UploadBody
  imports LocalFiles Pacing
begin

text \<open>
  The body of one upload (\<open>src/api.rs\<close>): the reader that meters, hashes and watches what it hands to
  the transport, the wait of a paced reader, and the pump that reads until the body ends. What the
  system, the token and the observer answer to one read is a \<open>read_event\<close>.
\<close>

section \<open>Waiting for the budget\<close>

text \<open>
  One look of a paced reader: whether the token is cancelled, and the time it asks the bucket at. A
  reader whose looks have run out is still waiting.
\<close>

datatype claim = Claimed nat | ClaimCancelled | StillWaiting

fun throttle_claim :: "nat \<Rightarrow> (bool \<times> nanos) list \<Rightarrow> token_bucket \<Rightarrow> claim \<times> token_bucket" where
  "throttle_claim requested [] b = (StillWaiting, b)"
| "throttle_claim requested ((cancelled, now) # looks) b =
     (if cancelled then (ClaimCancelled, b)
      else
        (case bucket_take requested now b of
           (Ready allowance, b') \<Rightarrow> (Claimed allowance, b')
         | (Wait _, b') \<Rightarrow> throttle_claim requested looks b'))"

lemma claim_is_paced:
  "bucket_take requested now b = (Ready n, b') \<Longrightarrow> n \<le> requested"
  by (auto simp: bucket_take_def Let_def split: if_splits)

lemma throttle_claim_bounded: "throttle_claim requested looks b = (Claimed n, b') \<Longrightarrow> n \<le> requested"
  by (induction requested looks b rule: throttle_claim.induct)
    (auto split: if_splits prod.splits rate_grant.splits dest: claim_is_paced)

section \<open>What the source must still be\<close>

definition content_evidence_matches :: "fingerprint \<Rightarrow> fingerprint \<Rightarrow> bool" where
  "content_evidence_matches expected actual = (full_match expected actual = Some True)"

lemma evidence_iff: "content_evidence_matches expected actual \<longleftrightarrow> has_full_proof expected \<and> actual = expected"
  by (cases expected; cases actual)
    (auto simp: content_evidence_matches_def full_match_def has_full_proof_def split: option.splits)

definition verify_local_snapshot :: "local_entry \<Rightarrow> io_error + fs_meta \<Rightarrow> unit res" where
  "verify_local_snapshot local_file stat =
     (case stat of
        Inl e \<Rightarrow> Inl (FileIo (l_full_path local_file) e)
      | Inr meta \<Rightarrow>
          (case fm_modified_ns meta of
             Inl e \<Rightarrow> Inl (FileIo (l_full_path local_file) e)
           | Inr ns \<Rightarrow>
               if fm_link meta \<or> fm_kind meta \<noteq> RegularFile \<or> fm_len meta \<noteq> l_size local_file
                   \<or> millis_since_epoch ns \<noteq> Some (l_mtime_ms local_file)
               then Inl (SourceChangedError (l_full_path local_file)) else Inr ()))"

definition verify_open_file_snapshot :: "local_entry \<Rightarrow> io_error + fs_meta \<Rightarrow> unit res" where
  "verify_open_file_snapshot local_file stat =
     (case stat of
        Inl e \<Rightarrow> Inl (FileIo (l_full_path local_file) e)
      | Inr meta \<Rightarrow>
          (case fm_modified_ns meta of
             Inl e \<Rightarrow> Inl (FileIo (l_full_path local_file) e)
           | Inr ns \<Rightarrow>
               if fm_kind meta \<noteq> RegularFile \<or> fm_len meta \<noteq> l_size local_file
                   \<or> millis_since_epoch ns \<noteq> Some (l_mtime_ms local_file)
               then Inl (SourceChangedError (l_full_path local_file)) else Inr ()))"

lemma verified_local:
  "verify_local_snapshot local_file stat = Inr () \<longleftrightarrow>
     (\<exists>meta ns. stat = Inr meta \<and> fm_modified_ns meta = Inr ns \<and> \<not> fm_link meta
        \<and> fm_kind meta = RegularFile \<and> fm_len meta = l_size local_file
        \<and> millis_since_epoch ns = Some (l_mtime_ms local_file))"
  by (auto simp: verify_local_snapshot_def split: sum.splits)

section \<open>The reader\<close>

record read_event =
  ev_cancelled :: bool
  ev_claim :: "claim option"
  ev_data :: "io_error + u8 list"
  ev_stat :: "io_error + fs_meta"
  ev_retired :: bool
  ev_observer :: bool
  ev_taken :: bool

text \<open>\<open>br_streamed\<close> is what has been hashed so far, kept only for an entry that carries a digest.\<close>

record body_reader =
  br_streamed :: "u8 list"
  br_cancelled :: bool
  br_changed :: bool

definition reader_new :: body_reader where
  "reader_new = \<lparr>br_streamed = [], br_cancelled = False, br_changed = False\<rparr>"

definition upload_cancelled :: io_error where
  "upload_cancelled = \<lparr>io_kind_of = OtherIo, io_text = ''upload cancelled''\<rparr>"

definition source_refused :: io_error where
  "source_refused = \<lparr>io_kind_of = OtherIo, io_text = ''upload source changed while it was being sent''\<rparr>"

definition attempt_ended :: io_error where
  "attempt_ended = \<lparr>io_kind_of = OtherIo, io_text = ''upload attempt already ended''\<rparr>"

text \<open>The bytes streamed, in a counter of 64 bits that saturates.\<close>

definition streamed_bytes :: "body_reader \<Rightarrow> int" where
  "streamed_bytes rd = min (2 ^ 64 - 1) (int (length (br_streamed rd)))"

definition source_intact :: "(u8 list \<Rightarrow> fingerprint) \<Rightarrow> local_entry \<Rightarrow> io_error + fs_meta \<Rightarrow> body_reader \<Rightarrow> bool" where
  "source_intact finish local_file stat rd =
     ((case l_md5 local_file of
         None \<Rightarrow> True
       | Some expected \<Rightarrow>
           streamed_bytes rd = uint (l_size local_file)
           \<and> content_evidence_matches expected (finish (br_streamed rd)))
      \<and> verify_local_snapshot local_file stat = Inr ())"

definition refuse :: "body_reader \<Rightarrow> (io_error + u8 list) \<times> body_reader" where
  "refuse rd = (Inl source_refused, rd\<lparr>br_changed := True\<rparr>)"

definition stream_data :: "local_entry \<Rightarrow> u8 list \<Rightarrow> body_reader \<Rightarrow> body_reader" where
  "stream_data local_file data rd =
     (if l_md5 local_file = None then rd else rd\<lparr>br_streamed := br_streamed rd @ data\<rparr>)"

text \<open>What follows once the file has given its bytes.\<close>

definition judge_read ::
  "(u8 list \<Rightarrow> fingerprint) \<Rightarrow> local_entry \<Rightarrow> read_event \<Rightarrow> u8 list \<Rightarrow> body_reader
     \<Rightarrow> (io_error + u8 list) \<times> body_reader"
where
  "judge_read finish local_file ev data rd =
     (let rd = stream_data local_file data rd in
      if data \<noteq> [] \<and> l_md5 local_file \<noteq> None \<and> uint (l_size local_file) < streamed_bytes rd
      then refuse rd
      else if data = [] \<and> \<not> source_intact finish local_file (ev_stat ev) rd then refuse rd
      else if ev_retired ev then (Inl attempt_ended, rd)
      else if data \<noteq> [] \<and> \<not> ev_observer ev then (Inl upload_cancelled, rd\<lparr>br_cancelled := True\<rparr>)
      else (Inr data, rd))"

definition observed_read ::
  "(u8 list \<Rightarrow> fingerprint) \<Rightarrow> local_entry \<Rightarrow> read_event \<Rightarrow> body_reader \<Rightarrow> (io_error + u8 list) \<times> body_reader"
where
  "observed_read finish local_file ev rd =
     (if ev_cancelled ev \<or> ev_claim ev = Some ClaimCancelled then
        (Inl upload_cancelled, rd\<lparr>br_cancelled := True\<rparr>)
      else
        (case ev_data ev of
           Inl e \<Rightarrow> (Inl e, rd)
         | Inr data \<Rightarrow> judge_read finish local_file ev data rd))"

text \<open>
  The pump, with a buffer that is never empty: the chunks handed over, and how the body ended.
  \<open>ev_taken\<close> is whether the transport still took the chunk.
\<close>

datatype body_end = BodyEnded | BodyFailed io_error | BodyAbandoned

fun pump_upload_body ::
  "(u8 list \<Rightarrow> fingerprint) \<Rightarrow> local_entry \<Rightarrow> read_event list \<Rightarrow> body_reader
     \<Rightarrow> u8 list list \<times> body_end \<times> body_reader"
where
  "pump_upload_body finish local_file [] rd = ([], BodyAbandoned, rd)"
| "pump_upload_body finish local_file (ev # evs) rd =
     (case observed_read finish local_file ev rd of
        (Inl e, rd) \<Rightarrow> ([], BodyFailed e, rd)
      | (Inr data, rd) \<Rightarrow>
          if data = [] then ([], BodyEnded, rd)
          else if \<not> ev_taken ev then ([], BodyAbandoned, rd)
          else
            (case pump_upload_body finish local_file evs rd of
               (chunks, ended, rd) \<Rightarrow> (data # chunks, ended, rd)))"

section \<open>A body ends only as it was planned\<close>

lemma read_streams:
  assumes "observed_read finish local_file ev rd = (Inr data, rd')"
  shows "br_streamed rd' = (if l_md5 local_file = None then br_streamed rd else br_streamed rd @ data)"
    and "data = [] \<Longrightarrow> source_intact finish local_file (ev_stat ev) rd'"
    and "br_changed rd' = br_changed rd \<and> br_cancelled rd' = br_cancelled rd"
  using assms
  by (auto simp: observed_read_def judge_read_def stream_data_def refuse_def Let_def
      split: if_splits sum.splits)

lemma pump_ended:
  assumes "pump_upload_body finish local_file evs rd = (chunks, BodyEnded, rd')"
  shows "br_streamed rd' = (if l_md5 local_file = None then br_streamed rd else br_streamed rd @ concat chunks)
       \<and> (\<exists>ev \<in> set evs. source_intact finish local_file (ev_stat ev) rd')
       \<and> br_changed rd' = br_changed rd \<and> br_cancelled rd' = br_cancelled rd"
  using assms
proof (induction evs arbitrary: rd chunks)
  case (Cons ev evs)
  obtain data rd1 where one: "observed_read finish local_file ev rd = (Inr data, rd1)"
    using Cons.prems by (cases "observed_read finish local_file ev rd") (auto split: sum.splits)
  show ?case
  proof (cases "data = []")
    case True
    then show ?thesis using Cons.prems one read_streams [OF one] by auto
  next
    case False
    then obtain later where "ev_taken ev" and rest: "pump_upload_body finish local_file evs rd1 = (later, BodyEnded, rd')"
        and "chunks = data # later"
      using Cons.prems one by (auto split: if_splits prod.splits)
    then show ?thesis using Cons.IH [OF rest] read_streams(1,3) [OF one] by auto
  qed
qed simp

text \<open>
  The body of an upload is ended, so that the NAS can commit it, only when the bytes handed over
  are the planned number with the planned fingerprint, and the file was then still the planned one:
  a source that changes while it is sent never reaches its end.
\<close>

theorem body_ends_as_planned:
  assumes "pump_upload_body finish local_file evs reader_new = (chunks, BodyEnded, rd)"
    and "l_md5 local_file = Some expected" and "length (concat chunks) < 2 ^ 64"
  shows "length (concat chunks) = unat (l_size local_file)
       \<and> finish (concat chunks) = expected \<and> has_full_proof expected
       \<and> (\<exists>ev \<in> set evs. verify_local_snapshot local_file (ev_stat ev) = Inr ())
       \<and> \<not> br_changed rd"
proof -
  note ended = pump_ended [OF assms(1)]
  have streamed: "br_streamed rd = concat chunks" using ended assms(2) by (simp add: reader_new_def)
  obtain ev where ev: "ev \<in> set evs" "source_intact finish local_file (ev_stat ev) rd"
    using ended by blast
  have "streamed_bytes rd = int (length (concat chunks))"
    using assms(3) by (simp add: streamed_bytes_def streamed)
  then have len: "int (length (concat chunks)) = uint (l_size local_file)"
    and same: "finish (concat chunks) = expected" "has_full_proof expected"
    and still: "verify_local_snapshot local_file (ev_stat ev) = Inr ()"
    using ev(2) assms(2) by (simp_all add: source_intact_def streamed evidence_iff)
  moreover have "\<not> br_changed rd" using ended by (simp add: reader_new_def)
  moreover have "length (concat chunks) = unat (l_size local_file)"
    unfolding unat_eq_nat_uint len [symmetric] by (rule nat_int [symmetric])
  ultimately show ?thesis using ev(1) by blast
qed

definition demo_print :: fingerprint where
  "demo_print = Fingerprint (replicate 16 0) (Some (StrongDigests 0 (replicate 32 0)))"

definition demo_hash :: "u8 list \<Rightarrow> fingerprint" where
  "demo_hash bytes = (if bytes = [1, 2, 3] then demo_print else Fingerprint [] None)"

definition demo_file :: local_entry where
  "demo_file = \<lparr>l_relative = ''a'', l_full_path = ''/s/a'', l_kind = File, l_size = 3, l_mtime_ms = 5,
     l_identity = default_identity, l_md5 = Some demo_print\<rparr>"

definition demo_stat :: "io_error + fs_meta" where
  "demo_stat = Inr \<lparr>fm_kind = RegularFile, fm_link = False, fm_unsupported = False,
     fm_modified_ns = Inr 5000000, fm_len = 3, fm_identity = default_identity\<rparr>"

definition demo_read :: "u8 list \<Rightarrow> read_event" where
  "demo_read data = \<lparr>ev_cancelled = False, ev_claim = None, ev_data = Inr data, ev_stat = demo_stat,
     ev_retired = False, ev_observer = True, ev_taken = True\<rparr>"

theorem body_ends_as_planned_witness:
  "pump_upload_body demo_hash demo_file (map demo_read [[1, 2], [3], []]) reader_new
     = ([[1, 2], [3]], BodyEnded, \<lparr>br_streamed = [1, 2, 3], br_cancelled = False, br_changed = False\<rparr>)
   \<and> length (concat [[1, 2], [3 :: u8]]) = unat (l_size demo_file)
   \<and> demo_hash [1, 2, 3] = demo_print"
proof -
  have run: "pump_upload_body demo_hash demo_file (map demo_read [[1, 2], [3], []]) reader_new
     = ([[1, 2], [3]], BodyEnded, \<lparr>br_streamed = [1, 2, 3], br_cancelled = False, br_changed = False\<rparr>)"
    by (simp add: observed_read_def judge_read_def stream_data_def source_intact_def verified_local
        millis_since_epoch_def i64_max_def evidence_iff has_full_proof_def demo_read_def demo_stat_def
        demo_file_def demo_hash_def demo_print_def reader_new_def streamed_bytes_def Let_def)
  show ?thesis
    using body_ends_as_planned [OF run, of demo_print] run by (simp add: demo_file_def)
qed

end
