(* ===== verification/ClientCore.thy ===== *)
theory ClientCore
  imports RemoteItems RemoteDigests UploadBody
begin

text \<open>
  The client of \<open>src/api.rs\<close> below its operations: sessions, one request attempt, the retries of a
  request, and the recovery of a session DSM ended. Everything outside the process is a \<open>world\<close> of
  answers, numbered by the clock \<open>c_tick\<close> in the order in which the client asks. Other workers share
  the session and the ledger; what they did to them by then is one of the answers.
\<close>

section \<open>State\<close>

record session =
  se_sid :: string
  se_token :: "string option"

record api_spec =
  as_path :: string
  as_min :: nat
  as_max :: nat

record sent_request =
  rq_api :: string
  rq_version :: nat
  rq_method :: string
  rq_fields :: "(string \<times> string) list"
  rq_headers :: "session option"
  rq_timeout :: nanos
  rq_attempt :: nat

text \<open>What a successful response decodes to, by the type its caller asks for.\<close>

datatype reply =
    SharesReply "string list" "nat option"
  | TaskReply string
  | StatusReply bool "string option"
  | Md5Reply bool "string option"
  | InfoReply "item_wire list"
  | LoginReply string "string option"
  | DownloadReply fingerprint
  | OtherReply

text \<open>
  \<open>c_private\<close>: no other worker holds the slot this client keeps its session in. \<open>c_sends\<close> counts the
  sends of the upload in hand, over all its sessions.
\<close>

record client =
  c_session :: "session option"
  c_private :: bool
  c_ledger :: reauth_ledger
  c_retries :: nat
  c_relogins :: nat
  c_relogin_failures :: nat
  c_keepalive_failures :: nat
  c_not_stopped :: nat
  c_unhonoured :: nat
  c_sends :: nat
  c_tick :: nat
  c_log :: "(sent_request \<times> reply option res) list"

text \<open>What does not change while a client lives.\<close>

record client_setup =
  cl_apis :: "string \<Rightarrow> api_spec option"
  cl_endpoint :: "string \<Rightarrow> unit res"
  cl_retries :: nat
  cl_control_timeout :: nanos
  cl_deadline :: "nanos option"
  cl_operation_timeout :: nanos
  cl_upload_timeout :: nanos
  cl_rate :: "nat option"

text \<open>What reqwest says of the source of an HTTP error.\<close>

record http_fault =
  hf_connect :: bool
  hf_timeout :: bool
  hf_body :: bool
  hf_request :: bool
  hf_builder :: bool
  hf_redirect :: bool

text \<open>
  \<open>wd_body\<close> is what the reads of the body of the next upload find, \<open>wd_file\<close> one whole read of a
  file; \<open>wd_json\<close> encodes a text, \<open>wd_inner\<close> is the first inner code of a failure.
\<close>

record world =
  wd_answer :: "nat \<Rightarrow> sent_request \<Rightarrow> reply option res"
  wd_now :: "nat \<Rightarrow> nanos"
  wd_cancelled :: "nat \<Rightarrow> bool"
  wd_interrupted :: "nat \<Rightarrow> nanos \<Rightarrow> bool"
  wd_session :: "nat \<Rightarrow> session option \<Rightarrow> session option"
  wd_ledger :: "nat \<Rightarrow> reauth_ledger \<Rightarrow> reauth_ledger"
  wd_fault :: "string \<Rightarrow> http_fault"
  wd_bound :: "io_error \<Rightarrow> upload_bound option"
  wd_header_ok :: "string \<Rightarrow> bool"
  wd_json :: "string \<Rightarrow> string"
  wd_inner :: "error \<Rightarrow> int option"
  wd_hash :: "u8 list \<Rightarrow> fingerprint"
  wd_stat :: "nat \<Rightarrow> string \<Rightarrow> io_error + fs_meta"
  wd_open :: "nat \<Rightarrow> string \<Rightarrow> io_error + unit"
  wd_open_meta :: "nat \<Rightarrow> string \<Rightarrow> io_error + fs_meta"
  wd_file :: "nat \<Rightarrow> string \<Rightarrow> file_read"
  wd_body :: "nat \<Rightarrow> read_event list"
  wd_observer :: "nat \<Rightarrow> bool"
  wd_relogin :: "(client \<Rightarrow> unit res \<times> client) option"

text \<open>An operation of the client: an answer, and the client after it.\<close>

type_synonym 'a action = "client \<Rightarrow> 'a res \<times> client"

definition fail :: "error \<Rightarrow> 'a action" where
  "fail e = (\<lambda>c. (Inl e, c))"

definition give :: "'a \<Rightarrow> 'a action" where
  "give x = (\<lambda>c. (Inr x, c))"

definition from_res :: "'a res \<Rightarrow> 'a action" where
  "from_res r = (\<lambda>c. (r, c))"

definition bind_a :: "'a action \<Rightarrow> ('a \<Rightarrow> 'b action) \<Rightarrow> 'b action" where
  "bind_a m k = (\<lambda>c. case m c of (Inl e, c') \<Rightarrow> (Inl e, c') | (Inr x, c') \<Rightarrow> k x c')"

text \<open>The answer as a value: what a \<open>match\<close> on a result looks at.\<close>

definition attempt_a :: "'a action \<Rightarrow> ('a res \<Rightarrow> 'b action) \<Rightarrow> 'b action" where
  "attempt_a m k = (\<lambda>c. case m c of (r, c') \<Rightarrow> k r c')"

definition ticked :: "client \<Rightarrow> client" where
  "ticked c = c\<lparr>c_tick := Suc (c_tick c)\<rparr>"

definition current_session :: "world \<Rightarrow> session option action" where
  "current_session W c =
     (let s = (if c_private c then c_session c else wd_session W (c_tick c) (c_session c)) in
      (Inr s, ticked (c\<lparr>c_session := s\<rparr>)))"

definition clock :: "world \<Rightarrow> nanos action" where
  "clock W c = (Inr (wd_now W (c_tick c)), ticked c)"

definition check_cancelled :: "world \<Rightarrow> unit action" where
  "check_cancelled W c = (if wd_cancelled W (c_tick c) then Inl Cancelled else Inr (), ticked c)"

definition is_cancelled :: "world \<Rightarrow> bool action" where
  "is_cancelled W c = (Inr (wd_cancelled W (c_tick c)), ticked c)"

text \<open>A pause, which the token may end early.\<close>

definition sleep_cancellable :: "world \<Rightarrow> nanos \<Rightarrow> unit action" where
  "sleep_cancellable W d c = (if wd_interrupted W (c_tick c) d then Inl Cancelled else Inr (), ticked c)"

section \<open>Which failures are sent again\<close>

definition status_in :: "string list \<Rightarrow> string \<Rightarrow> bool" where
  "status_in codes status = (status_number status \<in> set codes)"

fun retryable :: "world \<Rightarrow> error \<Rightarrow> bool" where
  "retryable W (Http operation source) =
     (let f = wd_fault W source in
      hf_connect f \<or> hf_timeout f \<or> hf_body f \<or> (hf_request f \<and> \<not> hf_builder f \<and> \<not> hf_redirect f))"
| "retryable W (HttpBody operation source) = (wd_bound W source \<noteq> Some CeilingBound)"
| "retryable W (HttpStatus operation status message) =
     status_in [''408'', ''425'', ''429'', ''502'', ''503'', ''504''] status"
| "retryable W (Api api operation code description) =
     (109 \<le> code \<and> code \<le> 111 \<or> 117 \<le> code \<and> code \<le> 118 \<or> code = 402)"
| "retryable W other = False"

fun login_retryable :: "world \<Rightarrow> error \<Rightarrow> bool" where
  "login_retryable W (Http operation source) = hf_connect (wd_fault W source)"
| "login_retryable W (HttpStatus operation status message) =
     status_in [''502'', ''503'', ''504''] status"
| "login_retryable W other = False"

definition retry_backoff :: "nat \<Rightarrow> nanos" where
  "retry_backoff attempt = from_millis (250 * 2 ^ min attempt 4)"

definition retry_pause :: "world \<Rightarrow> nat \<Rightarrow> unit action" where
  "retry_pause W attempt = sleep_cancellable W (retry_backoff attempt)"

definition count_retry :: "client \<Rightarrow> client" where
  "count_retry c = c\<lparr>c_retries := c_retries c + 1\<rparr>"

section \<open>One attempt\<close>

definition valid_cookie_value :: "string \<Rightarrow> bool" where
  "valid_cookie_value value =
     (value \<noteq> [] \<and> list_all (\<lambda>ch. let b = byte ch in
        b = 0x21 \<or> 0x23 \<le> b \<and> b \<le> 0x2B \<or> 0x2D \<le> b \<and> b \<le> 0x3A \<or> 0x3C \<le> b \<and> b \<le> 0x5B
        \<or> 0x5D \<le> b \<and> b \<le> 0x7E) value)"

definition invalid_session_header :: "string \<Rightarrow> error" where
  "invalid_session_header component =
     InvalidResponse ''SYNO.API.Auth.login''
       (''successful response contained '' @ component
        @ '' data that cannot be used safely for authenticated DSM requests'')"

definition max_session_header_bytes :: nat where "max_session_header_bytes = 4 * 1024"

definition request_headers :: "world \<Rightarrow> session \<Rightarrow> session res" where
  "request_headers W s =
     (if max_session_header_bytes < length (se_sid s) \<or> \<not> valid_cookie_value (se_sid s)
         \<or> \<not> wd_header_ok W (''id='' @ se_sid s)
      then Inl (invalid_session_header ''SID'')
      else
        (case se_token s of
           None \<Rightarrow> Inr s
         | Some token \<Rightarrow>
             if token = [] \<or> max_session_header_bytes < length token \<or> \<not> wd_header_ok W token
             then Inl (invalid_session_header ''SynoToken'') else Inr s))"

definition session_headers :: "world \<Rightarrow> session option action" where
  "session_headers W =
     bind_a (current_session W) (\<lambda>s. from_res (case s of None \<Rightarrow> Inr None | Some s \<Rightarrow> map_r Some (request_headers W s)))"

definition remaining_control_timeout :: "world \<Rightarrow> client_setup \<Rightarrow> nanos \<Rightarrow> nanos action" where
  "remaining_control_timeout W S requested =
     (case cl_deadline S of
        None \<Rightarrow> give requested
      | Some deadline \<Rightarrow>
          bind_a (clock W) (\<lambda>now.
            if deadline - now = 0 then
              fail (Message ''File Station control operation exceeded its total deadline'')
            else give (min requested (deadline - now))))"

record api_call =
  ac_api :: string
  ac_version :: nat
  ac_method :: string
  ac_fields :: "(string \<times> string) list"

definition transmit :: "world \<Rightarrow> sent_request \<Rightarrow> reply option action" where
  "transmit W rq c =
     (let r = wd_answer W (c_tick c) rq in (r, ticked (c\<lparr>c_log := c_log c @ [(rq, r)]\<rparr>)))"

definition send_attempt :: "world \<Rightarrow> client_setup \<Rightarrow> api_call \<Rightarrow> nanos \<Rightarrow> nat \<Rightarrow> reply option action" where
  "send_attempt W S q timeout attempt =
     bind_a (remaining_control_timeout W S timeout) (\<lambda>timeout.
     bind_a (session_headers W) (\<lambda>headers.
       transmit W \<lparr>rq_api = ac_api q, rq_version = ac_version q, rq_method = ac_method q,
         rq_fields = ac_fields q, rq_headers = headers, rq_timeout = timeout, rq_attempt = attempt\<rparr>))"

text \<open>The attempts of one request: \<open>left\<close> more may follow this one.\<close>

fun send_tries :: "world \<Rightarrow> client_setup \<Rightarrow> api_call \<Rightarrow> nanos \<Rightarrow> nat \<Rightarrow> nat \<Rightarrow> reply option action" where
  "send_tries W S q timeout 0 attempt c = send_attempt W S q timeout (attempt + 1) c"
| "send_tries W S q timeout (Suc left) attempt c =
     (case send_attempt W S q timeout (attempt + 1) c of
        (Inr v, c) \<Rightarrow> (Inr v, c)
      | (Inl e, c) \<Rightarrow>
          if retryable W e then
            bind_a (retry_pause W attempt) (\<lambda>_. send_tries W S q timeout left (attempt + 1)) (count_retry c)
          else (Inl e, c))"

definition send_form_with_retry_bounded ::
  "world \<Rightarrow> client_setup \<Rightarrow> api_call \<Rightarrow> bool \<Rightarrow> nanos \<Rightarrow> reply option action"
where
  "send_form_with_retry_bounded W S q allow_retry timeout =
     send_tries W S q timeout (if allow_retry then cl_retries S else 0) 0"

section \<open>Which interfaces there are\<close>

definition required_spec :: "client_setup \<Rightarrow> string \<Rightarrow> api_spec res" where
  "required_spec S api = (case cl_apis S api of None \<Rightarrow> Inl (MissingApi api) | Some spec \<Rightarrow> Inr spec)"

definition validate_api :: "client_setup \<Rightarrow> string \<Rightarrow> nat \<Rightarrow> unit res" where
  "validate_api S api version =
     bind_r (required_spec S api) (\<lambda>spec.
       if version < as_min spec \<or> as_max spec < version then
         Inl (UnsupportedApiVersion api version (as_min spec) (as_max spec))
       else Inr ())"

definition api_url :: "client_setup \<Rightarrow> string \<Rightarrow> unit res" where
  "api_url S api = bind_r (required_spec S api) (\<lambda>spec. cl_endpoint S (as_path spec))"

definition required_session :: "world \<Rightarrow> session action" where
  "required_session W =
     bind_a (current_session W) (\<lambda>s.
       case s of None \<Rightarrow> fail (Message ''not authenticated to File Station'') | Some s \<Rightarrow> give s)"

definition authenticated_fields :: "world \<Rightarrow> api_call \<Rightarrow> api_call action" where
  "authenticated_fields W q =
     bind_a (required_session W) (\<lambda>s.
       give (q\<lparr>ac_fields :=
         [(''api'', ac_api q), (''version'', show_nat (ac_version q)), (''method'', ac_method q)]
         @ ac_fields q @ [(''_sid'', se_sid s)]
         @ (case se_token s of None \<Rightarrow> [] | Some token \<Rightarrow> [(''SynoToken'', token)])\<rparr>))"

section \<open>Recovering a session\<close>

datatype recovery = Resend | NotApplicable | LoginFailed error

definition session_codes :: "int list" where
  "session_codes = [105, 106, 107, 119]"

fun session_error_naming :: "text_env \<Rightarrow> error \<Rightarrow> string \<Rightarrow> error" where
  "session_error_naming E (Api api operation code description) reason =
     Api api operation code (description @ ''; '' @ reason)"
| "session_error_naming E other reason = Message (error_display E other @ ''; '' @ reason)"

definition call_bounded :: "world \<Rightarrow> client_setup \<Rightarrow> api_call \<Rightarrow> nanos \<Rightarrow> reply option action" where
  "call_bounded W S q timeout =
     bind_a (from_res (validate_api S (ac_api q) (ac_version q))) (\<lambda>_.
     bind_a (authenticated_fields W q) (\<lambda>fields.
     bind_a (from_res (api_url S (ac_api q))) (\<lambda>_.
       send_attempt W S fields timeout 1)))"

definition session_confirmation_timeout :: nanos where "session_confirmation_timeout = seconds 5"

definition list_share_operation :: string where
  "list_share_operation = ''SYNO.FileStation.List.list_share''"

definition confirm_file_station_session :: "world \<Rightarrow> client_setup \<Rightarrow> unit action" where
  "confirm_file_station_session W S =
     bind_a (call_bounded W S
       \<lparr>ac_api = ''SYNO.FileStation.List'', ac_version = 2, ac_method = ''list_share'',
        ac_fields = [(''offset'', ''0''), (''limit'', ''1'')]\<rparr> session_confirmation_timeout) (\<lambda>reply.
       case reply of
         Some (SharesReply shares declared) \<Rightarrow>
           if 1 < length shares \<or> (case declared of None \<Rightarrow> False | Some t \<Rightarrow> t < length shares) then
             fail (InvalidResponse list_share_operation
               ''session confirmation exceeded its one-item response bound'')
           else give ()
       | _ \<Rightarrow> fail (InvalidResponse list_share_operation
           ''session confirmation returned no shared-folder data''))"

text \<open>The re-login itself, on a scratch client without one of its own; the slot is replaced only on success.\<close>

definition replace_session :: "world \<Rightarrow> (client \<Rightarrow> unit res \<times> client) \<Rightarrow> client \<Rightarrow> recovery \<times> client" where
  "replace_session W relogin c =
     (case relogin c of
        (r, fresh) \<Rightarrow>
          let c' = fresh\<lparr>c_session := c_session c, c_private := c_private c, c_ledger := c_ledger c\<rparr>;
              session = bind_r r (\<lambda>_. case c_session fresh of
                None \<Rightarrow> Inl (Message ''re-authentication completed without a session'') | Some s \<Rightarrow> Inr s) in
          case session of
            Inr s \<Rightarrow> (Resend, c'\<lparr>c_session := Some s, c_relogins := c_relogins c' + 1\<rparr>)
          | Inl e \<Rightarrow> (LoginFailed e, c'\<lparr>c_relogin_failures := c_relogin_failures c' + 1\<rparr>))"

definition admit_relogin ::
  "text_env \<Rightarrow> world \<Rightarrow> (client \<Rightarrow> unit res \<times> client) \<Rightarrow> error \<Rightarrow> client \<Rightarrow> recovery \<times> client"
where
  "admit_relogin E W relogin e c =
     (case ledger_admit (wd_now W (c_tick c)) (c_ledger c) of
        (Inl reason, l) \<Rightarrow> (LoginFailed (session_error_naming E e reason), ticked (c\<lparr>c_ledger := l\<rparr>))
      | (Inr _, l) \<Rightarrow> replace_session W relogin (ticked (c\<lparr>c_ledger := l\<rparr>)))"

text \<open>The lock: what the others did to the session and the ledger before they gave it back.\<close>

definition locked :: "world \<Rightarrow> client \<Rightarrow> client" where
  "locked W c =
     ticked (c\<lparr>c_session := (if c_private c then c_session c else wd_session W (c_tick c) (c_session c)),
               c_ledger := wd_ledger W (c_tick c) (c_ledger c)\<rparr>)"

definition recover_session ::
  "text_env \<Rightarrow> world \<Rightarrow> client_setup \<Rightarrow> string option \<Rightarrow> error \<Rightarrow> client \<Rightarrow> recovery \<times> client"
where
  "recover_session E W S sent e c =
     (case wd_relogin W of
        None \<Rightarrow> (NotApplicable, c)
      | Some relogin \<Rightarrow>
          if api_code e \<notin> Some ` set session_codes then (NotApplicable, c)
          else
            let c = locked W c in
            if map_option se_sid (c_session c) \<noteq> sent then (Resend, c)
            else if api_code e = Some 105 then
              (case confirm_file_station_session W S c of
                 (Inr _, c) \<Rightarrow> (NotApplicable, c)
               | (Inl _, c) \<Rightarrow> admit_relogin E W relogin e c)
            else admit_relogin E W relogin e c)"

definition with_session_recovery ::
  "text_env \<Rightarrow> world \<Rightarrow> client_setup \<Rightarrow> 'a action \<Rightarrow> 'a action"
where
  "with_session_recovery E W S m =
     bind_a (current_session W) (\<lambda>s c.
       case m c of
         (Inl e, c) \<Rightarrow>
           (case recover_session E W S (map_option se_sid s) e c of
              (Resend, c) \<Rightarrow> m c
            | (NotApplicable, c) \<Rightarrow> (Inl e, c)
            | (LoginFailed e', c) \<Rightarrow> (Inl e', c))
       | (Inr x, c) \<Rightarrow> (Inr x, c))"

section \<open>Requests\<close>

text \<open>A request that recovers its session, given how it is sent once its fields are known.\<close>

definition recovering_call ::
  "text_env \<Rightarrow> world \<Rightarrow> client_setup \<Rightarrow> api_call \<Rightarrow> (api_call \<Rightarrow> reply option action) \<Rightarrow> reply option action"
where
  "recovering_call E W S q send =
     bind_a (from_res (validate_api S (ac_api q) (ac_version q))) (\<lambda>_.
     bind_a (from_res (api_url S (ac_api q))) (\<lambda>_.
       with_session_recovery E W S (bind_a (authenticated_fields W q) send)))"

definition call_api :: "text_env \<Rightarrow> world \<Rightarrow> client_setup \<Rightarrow> api_call \<Rightarrow> bool \<Rightarrow> reply option action" where
  "call_api E W S q allow_retry =
     recovering_call E W S q (\<lambda>fields.
       send_form_with_retry_bounded W S fields allow_retry (cl_control_timeout S))"

definition call_bounded_recovering ::
  "text_env \<Rightarrow> world \<Rightarrow> client_setup \<Rightarrow> api_call \<Rightarrow> nanos \<Rightarrow> reply option action"
where
  "call_bounded_recovering E W S q timeout =
     recovering_call E W S q (\<lambda>fields. send_attempt W S fields timeout 1)"

definition call_bounded_with_retry ::
  "text_env \<Rightarrow> world \<Rightarrow> client_setup \<Rightarrow> api_call \<Rightarrow> nanos \<Rightarrow> reply option action"
where
  "call_bounded_with_retry E W S q timeout =
     recovering_call E W S q (\<lambda>fields. send_form_with_retry_bounded W S fields True timeout)"

definition touch_session :: "text_env \<Rightarrow> world \<Rightarrow> client_setup \<Rightarrow> client \<Rightarrow> client" where
  "touch_session E W S c =
     (case with_session_recovery E W S (confirm_file_station_session W S) c of
        (Inr _, c) \<Rightarrow> c
      | (Inl e, c) \<Rightarrow>
          if e = Cancelled then c else c\<lparr>c_keepalive_failures := c_keepalive_failures c + 1\<rparr>)"

section \<open>Signing in and out\<close>

definition login_operation :: string where "login_operation = ''SYNO.API.Auth.login''"

definition auth_version :: "api_spec \<Rightarrow> nat res" where
  "auth_version spec =
     (let v = min 6 (as_max spec) in
      if v < 3 \<or> v < as_min spec then
        Inl (UnsupportedApiVersion ''SYNO.API.Auth'' 6 (as_min spec) (as_max spec))
      else Inr v)"

definition login_fields :: "nat \<Rightarrow> string \<Rightarrow> string \<Rightarrow> string option \<Rightarrow> bool \<Rightarrow> (string \<times> string) list" where
  "login_fields version username password otp enable_syno_token =
     [(''api'', ''SYNO.API.Auth''), (''version'', show_nat version), (''method'', ''login''),
      (''account'', username), (''passwd'', password), (''session'', ''FileStation''), (''format'', ''sid'')]
     @ (if 6 \<le> version \<and> enable_syno_token then [(''enable_syno_token'', ''yes'')] else [])
     @ (case otp of None \<Rightarrow> [] | Some code \<Rightarrow> [(''otp_code'', code)])"

fun login_tries :: "world \<Rightarrow> client_setup \<Rightarrow> api_call \<Rightarrow> nat \<Rightarrow> nat \<Rightarrow> reply option action" where
  "login_tries W S q 0 attempt c = send_attempt W S q (cl_control_timeout S) (attempt + 1) c"
| "login_tries W S q (Suc left) attempt c =
     (case send_attempt W S q (cl_control_timeout S) (attempt + 1) c of
        (Inr v, c) \<Rightarrow> (Inr v, c)
      | (Inl e, c) \<Rightarrow>
          if login_retryable W e then
            bind_a (retry_pause W attempt) (\<lambda>_. login_tries W S q left (attempt + 1)) (count_retry c)
          else (Inl e, c))"

definition session_of_reply :: "reply option \<Rightarrow> session res" where
  "session_of_reply reply =
     (case reply of
        Some (LoginReply sid token) \<Rightarrow>
          if sid = [] then
            Inl (InvalidResponse login_operation ''successful response contained an empty SID'')
          else Inr \<lparr>se_sid = sid, se_token = (if token = Some [] then None else token)\<rparr>
      | _ \<Rightarrow> Inl (InvalidResponse login_operation ''successful response contained no session data''))"

definition login_negotiating ::
  "world \<Rightarrow> client_setup \<Rightarrow> string \<Rightarrow> string \<Rightarrow> string option \<Rightarrow> bool \<Rightarrow> unit action"
where
  "login_negotiating W S username password otp enable_syno_token c =
     bind_a (from_res (bind_r (required_spec S ''SYNO.API.Auth'') auth_version)) (\<lambda>version.
     bind_a (from_res (api_url S ''SYNO.API.Auth'')) (\<lambda>_.
     bind_a (login_tries W S
       \<lparr>ac_api = ''SYNO.API.Auth'', ac_version = version, ac_method = ''login'',
        ac_fields = login_fields version username password otp enable_syno_token\<rparr> (cl_retries S) 0) (\<lambda>reply.
     bind_a (from_res (session_of_reply reply)) (\<lambda>s.
     bind_a (from_res (request_headers W s)) (\<lambda>_ c. (Inr (), c\<lparr>c_session := Some s\<rparr>))))))
     (c\<lparr>c_session := None, c_private := True\<rparr>)"

definition login :: "world \<Rightarrow> client_setup \<Rightarrow> string \<Rightarrow> string \<Rightarrow> string option \<Rightarrow> unit action" where
  "login W S username password otp = login_negotiating W S username password otp True"

definition login_without_syno_token ::
  "world \<Rightarrow> client_setup \<Rightarrow> string \<Rightarrow> string \<Rightarrow> string option \<Rightarrow> unit action"
where
  "login_without_syno_token W S username password otp = login_negotiating W S username password otp False"

definition logout :: "world \<Rightarrow> client_setup \<Rightarrow> unit action" where
  "logout W S =
     bind_a (current_session W) (\<lambda>s.
       if s = None then give ()
       else
         bind_a (from_res (required_spec S ''SYNO.API.Auth'')) (\<lambda>spec.
         let version = min 6 (as_max spec) in
         bind_a (authenticated_fields W
           \<lparr>ac_api = ''SYNO.API.Auth'', ac_version = version, ac_method = ''logout'',
            ac_fields = [(''session'', ''FileStation'')]\<rparr>) (\<lambda>q.
         bind_a (from_res (api_url S ''SYNO.API.Auth'')) (\<lambda>_ c.
           case send_attempt W S q (cl_control_timeout S) 1 c of
             (r, c) \<Rightarrow> (map_r (\<lambda>_. ()) r, c\<lparr>c_session := None, c_private := True\<rparr>)))))"

end
