(* ===== verification/ClientFacts.thy ===== *)
theory ClientFacts
  imports ClientCore
begin

text \<open>
  What a client sends: every operation only appends to the log of what was sent and answered, a
  request is repeated within a session only after a failure worth repeating, and across sessions only
  after DSM refused it for its session.
\<close>

type_synonym exchange = "sent_request \<times> reply option res"

section \<open>Operations and the log\<close>

text \<open>The result of an action and what it sent, whatever the client is.\<close>

definition logs :: "'a action \<Rightarrow> ('a res \<Rightarrow> exchange list \<Rightarrow> bool) \<Rightarrow> bool" where
  "logs m P \<longleftrightarrow> (\<forall>c r c'. m c = (r, c') \<longrightarrow> (\<exists>sent. c_log c' = c_log c @ sent \<and> P r sent))"

lemma logsI: "(\<And>c r c'. m c = (r, c') \<Longrightarrow> \<exists>sent. c_log c' = c_log c @ sent \<and> P r sent) \<Longrightarrow> logs m P"
  by (simp add: logs_def)

lemma logsD: "logs m P \<Longrightarrow> m c = (r, c') \<Longrightarrow> \<exists>sent. c_log c' = c_log c @ sent \<and> P r sent"
  by (simp add: logs_def)

lemma logs_mono: "logs m P \<Longrightarrow> (\<And>r sent. P r sent \<Longrightarrow> Q r sent) \<Longrightarrow> logs m Q"
  unfolding logs_def by blast

lemma logs_bind:
  assumes m: "logs m P" and k: "\<And>x. logs (k x) (R x)"
    and fails: "\<And>e sent. P (Inl e) sent \<Longrightarrow> Q (Inl e) sent"
    and goes_on: "\<And>x r sent extra. P (Inr x) sent \<Longrightarrow> R x r extra \<Longrightarrow> Q r (sent @ extra)"
  shows "logs (bind_a m k) Q"
proof (rule logsI)
  fix c r c'
  assume run: "bind_a m k c = (r, c')"
  obtain r1 c1 where one: "m c = (r1, c1)" by fastforce
  obtain sent where sent: "c_log c1 = c_log c @ sent" "P r1 sent" using logsD [OF m one] by blast
  show "\<exists>sent. c_log c' = c_log c @ sent \<and> Q r sent"
  proof (cases r1)
    case (Inl e)
    then show ?thesis using run one sent fails by (auto simp: bind_a_def)
  next
    case (Inr x)
    then have "k x c1 = (r, c')" using run one by (simp add: bind_a_def)
    then obtain extra where "c_log c' = c_log c1 @ extra" "R x r extra" using logsD [OF k] by blast
    then show ?thesis using sent Inr goes_on by (intro exI [of _ "sent @ extra"]) simp
  qed
qed

text \<open>An action that sends nothing, and fails only in ways no request would be repeated for.\<close>

definition unsent :: "world \<Rightarrow> error \<Rightarrow> bool" where
  "unsent W e \<longleftrightarrow> api_code e = None \<and> \<not> retryable W e"

definition silent :: "world \<Rightarrow> 'a action \<Rightarrow> bool" where
  "silent W m \<longleftrightarrow> logs m (\<lambda>r sent. sent = [] \<and> (\<forall>e. r = Inl e \<longrightarrow> unsent W e))"

lemma silent_bind: "silent W m \<Longrightarrow> (\<And>x. silent W (k x)) \<Longrightarrow> silent W (bind_a m k)"
  unfolding silent_def
  by (rule logs_bind [where P = "\<lambda>r sent. sent = [] \<and> (\<forall>e. r = Inl e \<longrightarrow> unsent W e)"
        and R = "\<lambda>_ r sent. sent = [] \<and> (\<forall>e. r = Inl e \<longrightarrow> unsent W e)"]) auto

lemma logs_after_silent:
  assumes "silent W m" and "\<And>x. logs (k x) Q" and "\<And>e. unsent W e \<Longrightarrow> Q (Inl e) []"
  shows "logs (bind_a m k) Q"
  using assms(1) unfolding silent_def by (rule logs_bind [where R = "\<lambda>_. Q"]) (auto intro: assms(2,3))

named_theorems sends_nothing

lemma unsent_simps [simp]: "unsent W (Message m)" "unsent W Cancelled" "unsent W (InvalidResponse a b)"
  "unsent W (MissingApi a)" "unsent W (UnsupportedApiVersion a v l h)"
  by (simp_all add: unsent_def)

lemma silent_clock [sends_nothing]: "silent W (clock V)"
  and silent_session [sends_nothing]: "silent W (current_session V)"
  and silent_check [sends_nothing]: "silent W (check_cancelled V)"
  and silent_cancelled [sends_nothing]: "silent W (is_cancelled V)"
  and silent_sleep [sends_nothing]: "silent W (sleep_cancellable V d)"
  and silent_give [sends_nothing]: "silent W (give x)"
  by (auto simp: silent_def logs_def clock_def current_session_def check_cancelled_def is_cancelled_def
      sleep_cancellable_def give_def ticked_def Let_def split: if_splits)

lemma silent_pause [sends_nothing]: "silent W (retry_pause V n)"
  by (simp add: retry_pause_def sends_nothing)

lemma silent_fail: "unsent W e \<Longrightarrow> silent W (fail e)"
  by (auto simp: silent_def logs_def fail_def)

lemma silent_res: "(\<And>e. r = Inl e \<Longrightarrow> unsent W e) \<Longrightarrow> silent W (from_res r)"
  by (auto simp: silent_def logs_def from_res_def)

lemma silent_headers [sends_nothing]: "silent W (session_headers V)"
  unfolding session_headers_def
  by (intro silent_bind silent_res sends_nothing)
    (auto simp: request_headers_def invalid_session_header_def map_r_def split: option.splits if_splits sum.splits)

lemma silent_timeout [sends_nothing]: "silent W (remaining_control_timeout V S t)"
  unfolding remaining_control_timeout_def
  by (cases "cl_deadline S") (auto intro!: silent_bind silent_fail sends_nothing)

lemma silent_fields [sends_nothing]: "silent W (authenticated_fields V q)"
  unfolding authenticated_fields_def required_session_def
  by (intro silent_bind sends_nothing) (auto intro: silent_fail sends_nothing split: option.splits)

section \<open>One attempt, and its repetitions\<close>

definition is_of :: "api_call \<Rightarrow> exchange \<Rightarrow> bool" where
  "is_of q x \<longleftrightarrow> rq_api (fst x) = ac_api q \<and> rq_method (fst x) = ac_method q"

text \<open>
  The sends of one request under one session: all but the last failed in a way worth repeating, and
  the result is the last answer unless the client gave up on its own.
\<close>

definition tried :: "world \<Rightarrow> api_call \<Rightarrow> nat \<Rightarrow> reply option res \<Rightarrow> exchange list \<Rightarrow> bool" where
  "tried W q most r sent \<longleftrightarrow>
     length sent \<le> most \<and> list_all (is_of q) sent
     \<and> (\<forall>x \<in> set (butlast sent). \<exists>e. snd x = Inl e \<and> retryable W e)
     \<and> ((\<exists>e. r = Inl e \<and> unsent W e) \<or> (sent \<noteq> [] \<and> r = snd (last sent)))"

lemma attempt_logs: "logs (send_attempt W S q t a) (tried W q 1)"
  unfolding send_attempt_def
proof (intro logs_after_silent sends_nothing)
  fix timeout headers
  show "logs (transmit W \<lparr>rq_api = ac_api q, rq_version = ac_version q, rq_method = ac_method q,
      rq_fields = ac_fields q, rq_headers = headers, rq_timeout = timeout, rq_attempt = a\<rparr>) (tried W q 1)"
    by (auto simp: logs_def transmit_def ticked_def Let_def tried_def is_of_def)
qed (auto simp: tried_def)

lemma attempt_fields [simp]: "is_of (q\<lparr>ac_fields := f\<rparr>) = is_of q"
  by (simp add: fun_eq_iff is_of_def)

lemma tried_more:
  assumes "tried W q 1 (Inl e) first" and "retryable W e" and "tried W q n r extra"
  shows "tried W q (Suc n) r (first @ extra)"
proof -
  have "first \<noteq> []" "length first \<le> 1" using assms(1,2) by (auto simp: tried_def unsent_def)
  then obtain x where x: "first = [x]" by (cases first) auto
  then have "snd x = Inl e" using assms(1,2) by (auto simp: tried_def unsent_def)
  then show ?thesis using assms x by (cases "extra = []") (auto simp: tried_def butlast_append unsent_def)
qed

lemma tried_fewer: "tried W q n r sent \<Longrightarrow> n \<le> m \<Longrightarrow> tried W q m r sent"
  by (auto simp: tried_def)

lemma count_retry_log [simp]: "c_log (count_retry c) = c_log c"
  by (simp add: count_retry_def)

lemma tries_logs: "logs (send_tries W S q t left a) (tried W q (Suc left))"
proof (induction left arbitrary: a)
  case 0
  then show ?case
    using attempt_logs [of W S q t "a + 1"] by (simp add: logs_def)
next
  case (Suc left)
  show ?case
  proof (rule logsI)
    fix c r c'
    assume run: "send_tries W S q t (Suc left) a c = (r, c')"
    obtain r1 c1 where one: "send_attempt W S q t (a + 1) c = (r1, c1)" by fastforce
    obtain first where first: "c_log c1 = c_log c @ first" "tried W q 1 r1 first"
      using logsD [OF attempt_logs one] by blast
    show "\<exists>sent. c_log c' = c_log c @ sent \<and> tried W q (Suc (Suc left)) r sent"
    proof (cases "\<exists>e. r1 = Inl e \<and> retryable W e")
      case False
      then have "r = r1" "c' = c1" using run one by (auto split: sum.splits if_splits)
      then show ?thesis using first tried_fewer [of W q 1 r1 first "Suc (Suc left)"] by auto
    next
      case True
      then obtain e where e: "r1 = Inl e" "retryable W e" by blast
      have rest: "bind_a (retry_pause W a) (\<lambda>_. send_tries W S q t left (a + 1)) (count_retry c1) = (r, c')"
        using run one e by simp
      have "logs (bind_a (retry_pause W a) (\<lambda>_. send_tries W S q t left (a + 1)))
          (\<lambda>r extra. tried W q (Suc left) r extra)"
        by (rule logs_after_silent [OF silent_pause Suc.IH]) (auto simp: tried_def)
      from logsD [OF this rest] obtain extra where "c_log c' = c_log c1 @ extra" "tried W q (Suc left) r extra"
        by auto
      then show ?thesis
        using first e tried_more [of W q e first "Suc left" r extra] by (intro exI [of _ "first @ extra"]) simp
    qed
  qed
qed

section \<open>Signed requests\<close>

lemma bind_give [simp]: "bind_a (give x) k = k x"
  by (simp add: bind_a_def give_def)

lemma bind_res [simp]: "bind_a (from_res (Inr x)) k = k x" "bind_a (from_res (Inl e)) k = fail e"
  by (simp_all add: bind_a_def from_res_def fail_def)

lemma bind_assoc: "bind_a (bind_a m f) g = bind_a m (\<lambda>x. bind_a (f x) g)"
  by (auto simp: bind_a_def fun_eq_iff split: prod.splits sum.splits)

lemma bind_fail [simp]: "bind_a (fail e) k = fail e"
  by (simp add: bind_a_def fail_def)

lemma logs_fail: "Q (Inl e) [] \<Longrightarrow> logs (fail e) Q"
  by (simp add: logs_def fail_def)

lemma logs_signed_fields:
  assumes "\<And>f. set (ac_fields q) \<subseteq> set f \<Longrightarrow> logs (send (q\<lparr>ac_fields := f\<rparr>)) Q" and "\<And>e. unsent W e \<Longrightarrow> Q (Inl e) []"
  shows "logs (bind_a (authenticated_fields V q) send) Q"
  unfolding authenticated_fields_def required_session_def bind_assoc
proof (rule logs_after_silent [OF silent_session])
  fix s
  show "logs (bind_a (case s of None \<Rightarrow> fail (Message ''not authenticated to File Station'') | Some s \<Rightarrow> give s)
      (\<lambda>s. bind_a (give (q\<lparr>ac_fields := [(''api'', ac_api q), (''version'', show_nat (ac_version q)),
        (''method'', ac_method q)] @ ac_fields q @ [(''_sid'', se_sid s)] @
        (case se_token s of None \<Rightarrow> [] | Some token \<Rightarrow> [(''SynoToken'', token)])\<rparr>)) send)) Q"
    by (cases s) (auto simp: logs_fail assms(2) intro!: assms(1))
qed (rule assms(2))

lemma logs_signed:
  assumes "\<And>f. logs (send (q\<lparr>ac_fields := f\<rparr>)) Q" and "\<And>e. unsent W e \<Longrightarrow> Q (Inl e) []"
  shows "logs (bind_a (authenticated_fields V q) send) Q"
  using assms by (rule logs_signed_fields [where W = W])

definition sends_only :: "(exchange \<Rightarrow> bool) \<Rightarrow> 'a action \<Rightarrow> bool" where
  "sends_only F m \<longleftrightarrow> logs m (\<lambda>_. list_all F)"

lemma sends_only_bind: "sends_only F m \<Longrightarrow> (\<And>x. sends_only F (k x)) \<Longrightarrow> sends_only F (bind_a m k)"
  unfolding sends_only_def by (rule logs_bind [where R = "\<lambda>_ _. list_all F"]) auto

lemma silent_sends_only: "silent W m \<Longrightarrow> sends_only F m"
  unfolding silent_def sends_only_def
  by (erule logs_mono [where P = "\<lambda>r sent. sent = [] \<and> (\<forall>e. r = Inl e \<longrightarrow> unsent W e)"]) simp

lemma sends_only_res [simp]: "sends_only F (from_res r)" "sends_only F (fail e)" "sends_only F (give x)"
  by (simp_all add: sends_only_def logs_def from_res_def fail_def give_def)

lemma sends_only_attempt:
  assumes "\<And>x. is_of q x \<Longrightarrow> F x"
  shows "sends_only F (send_attempt W S q t a)"
  unfolding sends_only_def using attempt_logs
  by (rule logs_mono) (auto simp: tried_def intro: list.pred_mono_strong assms)

lemma sends_only_signed:
  "(\<And>f. sends_only F (send (q\<lparr>ac_fields := f\<rparr>))) \<Longrightarrow> sends_only F (bind_a (authenticated_fields V q) send)"
  unfolding sends_only_def by (rule logs_signed) auto

section \<open>Recovering a session\<close>

text \<open>What the client sends on its own account: it signs in, and it asks whether the session lives.\<close>

definition housekeeping :: "exchange \<Rightarrow> bool" where
  "housekeeping x \<longleftrightarrow> rq_api (fst x) = ''SYNO.API.Auth''
     \<or> (rq_api (fst x) = ''SYNO.FileStation.List'' \<and> rq_method (fst x) = ''list_share'')"

text \<open>A caller's re-login only signs in.\<close>

definition relogin_signs_in :: "world \<Rightarrow> bool" where
  "relogin_signs_in W \<longleftrightarrow> (\<forall>relogin. wd_relogin W = Some relogin \<longrightarrow>
     sends_only (\<lambda>x. rq_api (fst x) = ''SYNO.API.Auth'') relogin)"

lemma confirm_logs: "sends_only housekeeping (confirm_file_station_session W S)"
  unfolding confirm_file_station_session_def call_bounded_def
  by (intro sends_only_bind sends_only_signed sends_only_attempt sends_only_res)
    (auto simp: is_of_def housekeeping_def split: option.splits reply.splits)

definition logs_of :: "(client \<Rightarrow> 'x \<times> client) \<Rightarrow> (exchange \<Rightarrow> bool) \<Rightarrow> bool" where
  "logs_of m F \<longleftrightarrow> (\<forall>c. \<exists>sent. c_log (snd (m c)) = c_log c @ sent \<and> list_all F sent)"

lemma replace_logs:
  assumes "sends_only housekeeping relogin"
  shows "\<exists>sent. c_log (snd (replace_session W relogin c)) = c_log c @ sent \<and> list_all housekeeping sent"
proof -
  obtain r fresh where run: "relogin c = (r, fresh)" by fastforce
  obtain sent where "c_log fresh = c_log c @ sent" "list_all housekeeping sent"
    using logsD [OF assms [unfolded sends_only_def] run] by blast
  then show ?thesis
    by (intro exI [of _ sent])
      (auto simp: replace_session_def run Let_def bind_r_def split: sum.splits option.splits)
qed

lemma admit_logs:
  assumes "sends_only housekeeping relogin"
  shows "\<exists>sent. c_log (snd (admit_relogin E W relogin e c)) = c_log c @ sent \<and> list_all housekeeping sent"
proof (cases "ledger_admit (wd_now W (c_tick c)) (c_ledger c)")
  case (Pair r l)
  then show ?thesis
    using replace_logs [OF assms, of W "ticked (c\<lparr>c_ledger := l\<rparr>)"]
    by (cases r) (auto simp: admit_relogin_def ticked_def)
qed

lemma locked_log [simp]: "c_log (locked W c) = c_log c"
  by (simp add: locked_def ticked_def)

lemma relogin_housekeeping:
  "relogin_signs_in W \<Longrightarrow> wd_relogin W = Some relogin \<Longrightarrow> sends_only housekeeping relogin"
  unfolding relogin_signs_in_def sends_only_def
  by (auto elim!: logs_mono simp: list_all_iff housekeeping_def)

lemma recover_logs:
  assumes signs: "relogin_signs_in W" and run: "recover_session E W S sent e c = (v, c')"
  shows "(\<exists>sent. c_log c' = c_log c @ sent \<and> list_all housekeeping sent)
       \<and> (v = Resend \<longrightarrow> (\<exists>code \<in> set session_codes. api_code e = Some code))"
proof (cases "wd_relogin W")
  case None
  then show ?thesis using run by (auto simp: recover_session_def)
next
  case (Some relogin)
  note admit = admit_logs [OF relogin_housekeeping [OF signs Some]]
  obtain r k where confirm: "confirm_file_station_session W S (locked W c) = (r, k)" by fastforce
  obtain asked where asked: "c_log k = c_log c @ asked" "list_all housekeeping asked"
    using logsD [OF confirm_logs [unfolded sends_only_def] confirm] by auto
  obtain extra where extra: "c_log (snd (admit_relogin E W relogin e k)) = c_log k @ extra" "list_all housekeeping extra"
    using admit by blast
  obtain direct where direct: "c_log (snd (admit_relogin E W relogin e (locked W c))) = c_log c @ direct"
      "list_all housekeeping direct"
    using admit [of E W e "locked W c"] by auto
  have codes: "api_code e \<in> Some ` set session_codes \<longleftrightarrow> (\<exists>code \<in> set session_codes. api_code e = Some code)"
    by auto
  show ?thesis
  proof (cases "api_code e \<in> Some ` set session_codes")
    case False
    then show ?thesis using run Some by (auto simp: recover_session_def)
  next
    case True
    have "\<exists>sent. c_log c' = c_log c @ sent \<and> list_all housekeeping sent"
    proof (cases "map_option se_sid (c_session (locked W c)) \<noteq> sent")
      case True
      then show ?thesis using run Some \<open>api_code e \<in> _\<close> by (auto simp: recover_session_def)
    next
      case same: False
      show ?thesis
      proof (cases "api_code e = Some 105")
        case False
        then have "c' = snd (admit_relogin E W relogin e (locked W c))"
          using run Some True same by (simp add: recover_session_def Let_def)
        then show ?thesis using direct by blast
      next
        case dead: True
        show ?thesis
        proof (cases r)
          case (Inl e1)
          then have "c' = snd (admit_relogin E W relogin e k)"
            using run Some True same dead confirm by (simp add: recover_session_def Let_def)
          then show ?thesis using asked extra by (intro exI [of _ "asked @ extra"]) simp
        next
          case (Inr u)
          then have "c' = k" using run Some True same dead confirm by (simp add: recover_session_def Let_def)
          then show ?thesis using asked by blast
        qed
      qed
    qed
    then show ?thesis using True codes by blast
  qed
qed

text \<open>What a recovering request sends: one try, then housekeeping, then perhaps one more try.\<close>

definition session_refusal :: "error \<Rightarrow> bool" where
  "session_refusal e \<longleftrightarrow> (\<exists>code \<in> set session_codes. api_code e = Some code)"

definition recovered :: "('a res \<Rightarrow> exchange list \<Rightarrow> bool) \<Rightarrow> 'a res \<Rightarrow> exchange list \<Rightarrow> bool" where
  "recovered P r sent \<longleftrightarrow>
     (\<exists>r1 first mid. P r1 first \<and> list_all housekeeping mid
        \<and> (sent = first @ mid \<and> (r = r1 \<or> (\<exists>e. r = Inl e) \<and> (\<exists>e. r1 = Inl e))
           \<or> (\<exists>e again. r1 = Inl e \<and> session_refusal e \<and> P r again \<and> sent = first @ mid @ again)))"

lemma recovered_once: "P r first \<Longrightarrow> list_all housekeeping mid \<Longrightarrow> recovered P r (first @ mid)"
  unfolding recovered_def by blast

lemma session_answers: "logs (current_session W) (\<lambda>r sent. sent = [] \<and> (\<exists>s. r = Inr s))"
  by (auto simp: logs_def current_session_def ticked_def Let_def)

lemma recovery_logs:
  assumes signs: "relogin_signs_in W" and m: "logs m P"
  shows "logs (with_session_recovery E W S m) (recovered P)"
  unfolding with_session_recovery_def
proof (rule logs_bind [OF session_answers, where R = "\<lambda>_. recovered P"])
  fix s
  show "logs (\<lambda>c. case m c of
         (Inl e, c) \<Rightarrow>
           (case recover_session E W S (map_option se_sid s) e c of
              (Resend, c) \<Rightarrow> m c
            | (NotApplicable, c) \<Rightarrow> (Inl e, c)
            | (LoginFailed e', c) \<Rightarrow> (Inl e', c))
       | (Inr x, c) \<Rightarrow> (Inr x, c)) (recovered P)" (is "logs ?m _")
  proof (rule logsI)
    fix c r c'
    assume run: "?m c = (r, c')"
    obtain r1 c1 where one: "m c = (r1, c1)" by fastforce
    obtain first where first: "c_log c1 = c_log c @ first" "P r1 first" using logsD [OF m one] by blast
    show "\<exists>sent. c_log c' = c_log c @ sent \<and> recovered P r sent"
    proof (cases r1)
      case (Inr x)
      then have "r = r1" "c' = c1" using run one by auto
      then show ?thesis
        using first recovered_once [of P r1 first "[]"] by auto
    next
      case (Inl e)
      obtain v c2 where rec: "recover_session E W S (map_option se_sid s) e c1 = (v, c2)" by fastforce
      obtain mid where mid: "c_log c2 = c_log c1 @ mid" "list_all housekeeping mid"
        using recover_logs [OF signs rec] by blast
      show ?thesis
      proof (cases v)
        case Resend
        then have "m c2 = (r, c')" using run one Inl rec by simp
        then obtain again where again: "c_log c' = c_log c2 @ again" "P r again" using logsD [OF m] by blast
        have "session_refusal e" using recover_logs [OF signs rec] Resend by (simp add: session_refusal_def)
        then have "recovered P r (first @ mid @ again)"
          using first mid again Inl unfolding recovered_def by blast
        then show ?thesis using first mid again by (intro exI [of _ "first @ mid @ again"]) simp
      next
        case NotApplicable
        then have "r = r1" "c' = c2" using run one Inl rec by auto
        then have "recovered P r (first @ mid)" using first mid unfolding recovered_def by blast
        then show ?thesis using first mid \<open>c' = c2\<close> by (intro exI [of _ "first @ mid"]) simp
      next
        case (LoginFailed e')
        then have "r = Inl e'" "c' = c2" using run one Inl rec by auto
        then have "recovered P r (first @ mid)" using first mid Inl unfolding recovered_def by blast
        then show ?thesis using first mid \<open>c' = c2\<close> by (intro exI [of _ "first @ mid"]) simp
      qed
    qed
  qed
qed auto

text \<open>The same over what is sent of the request itself, told apart from the housekeeping.\<close>

definition plain_request :: "api_call \<Rightarrow> bool" where
  "plain_request q \<longleftrightarrow> ac_api q \<noteq> ''SYNO.API.Auth''
     \<and> (ac_api q = ''SYNO.FileStation.List'' \<longrightarrow> ac_method q \<noteq> ''list_share'')"

lemma housekeeping_filtered:
  "plain_request q \<Longrightarrow> list_all housekeeping mid \<Longrightarrow> filter (is_of q) mid = []"
  by (auto simp: list_all_iff housekeeping_def plain_request_def is_of_def filter_empty_conv)

lemma own_filtered: "list_all (is_of q) xs \<Longrightarrow> filter (is_of q) xs = xs"
  by (simp add: list_all_iff)

definition repeatable :: "world \<Rightarrow> exchange \<Rightarrow> bool" where
  "repeatable W x \<longleftrightarrow> (\<exists>e. snd x = Inl e \<and> (retryable W e \<or> session_refusal e))"

lemma recovered_tries:
  assumes plain: "plain_request q" and sent: "recovered (tried W q n) r sent"
  defines "own \<equiv> filter (is_of q) sent"
  shows "length own \<le> 2 * n" "\<forall>x \<in> set (butlast own). repeatable W x"
    "r = Inr v \<Longrightarrow> own \<noteq> [] \<and> snd (last own) = Inr v"
    "n = 1 \<Longrightarrow> length own = 2 \<Longrightarrow> \<exists>e. snd (hd own) = Inl e \<and> session_refusal e"
proof -
  obtain r1 first mid where one: "tried W q n r1 first" "list_all housekeeping mid"
      and shape: "sent = first @ mid \<and> (r = r1 \<or> (\<exists>e. r = Inl e) \<and> (\<exists>e. r1 = Inl e))
        \<or> (\<exists>e again. r1 = Inl e \<and> session_refusal e \<and> tried W q n r again \<and> sent = first @ mid @ again)"
    using sent unfolding recovered_def by blast
  note quiet = housekeeping_filtered [OF plain one(2)]
  have mine: "filter (is_of q) first = first" using one(1) by (intro own_filtered) (simp add: tried_def)
  have "length own \<le> 2 * n \<and> (\<forall>x \<in> set (butlast own). repeatable W x)
      \<and> (\<forall>v. r = Inr v \<longrightarrow> own \<noteq> [] \<and> snd (last own) = Inr v)
      \<and> (n = 1 \<longrightarrow> length own = 2 \<longrightarrow> (\<exists>e. snd (hd own) = Inl e \<and> session_refusal e))"
    using shape
  proof (elim disjE exE conjE)
    assume "sent = first @ mid" and r: "r = r1"
    then have "own = first" by (simp add: own_def quiet mine)
    then show ?thesis using one(1) r by (auto simp: tried_def repeatable_def)
  next
    fix e e'
    assume "sent = first @ mid" and r: "r = Inl e" "r1 = Inl e'"
    then have "own = first" by (simp add: own_def quiet mine)
    then show ?thesis using one(1) r by (auto simp: tried_def repeatable_def)
  next
    fix e again
    assume r1: "r1 = Inl e" and refused: "session_refusal e" and extra: "tried W q n r again"
      and "sent = first @ mid @ again"
    have "filter (is_of q) again = again" using extra by (intro own_filtered) (simp add: tried_def)
    then have own: "own = first @ again" using \<open>sent = _\<close> by (simp add: own_def quiet mine)
    have "first \<noteq> []" and answer: "snd (last first) = Inl e"
      using one(1) r1 refused by (auto simp: tried_def unsent_def session_refusal_def)
    then have "\<forall>x \<in> set first. repeatable W x"
      using one(1) refused append_butlast_last_id [OF \<open>first \<noteq> []\<close>]
      by (metis (no_types, lifting) UnE empty_iff empty_set repeatable_def set_ConsD set_append tried_def)
    moreover have "n = 1 \<Longrightarrow> hd own = last first"
      using one(1) \<open>first \<noteq> []\<close> by (cases first) (auto simp: own tried_def)
    ultimately show ?thesis
      using one(1) extra answer refused
      by (auto simp: own tried_def butlast_append repeatable_def unsent_def)
  qed
  then show "length own \<le> 2 * n" "\<forall>x \<in> set (butlast own). repeatable W x"
    "r = Inr v \<Longrightarrow> own \<noteq> [] \<and> snd (last own) = Inr v"
    "n = 1 \<Longrightarrow> length own = 2 \<Longrightarrow> \<exists>e. snd (hd own) = Inl e \<and> session_refusal e"
    by blast+
qed

text \<open>What one client sends of a request between two states.\<close>

definition sent_of :: "api_call \<Rightarrow> client \<Rightarrow> client \<Rightarrow> exchange list" where
  "sent_of q c c' = filter (is_of q) (drop (length (c_log c)) (c_log c'))"

lemma recovering_call_logs:
  assumes "relogin_signs_in W" and "\<And>f. logs (send (q\<lparr>ac_fields := f\<rparr>)) (tried W q n)" 
    and run: "recovering_call E W S q send c = (r, c')"
  shows "sent_of q c c' = [] \<and> (\<exists>e. r = Inl e)
       \<or> (\<exists>sent. recovered (tried W q n) r sent \<and> sent_of q c c' = filter (is_of q) sent)"
proof -
  have "logs (bind_a (authenticated_fields W q) send) (tried W q n)"
    by (rule logs_signed [where W = W]) (auto intro: assms(2) simp: tried_def)
  note whole = recovery_logs [OF assms(1) this, of E S]
  show ?thesis
  proof (cases "bind_r (validate_api S (ac_api q) (ac_version q)) (\<lambda>_. api_url S (ac_api q))")
    case (Inl e)
    then have "r = Inl e" "c' = c"
      using run by (auto simp: recovering_call_def bind_r_def fail_def split: sum.splits)
    then show ?thesis by (simp add: sent_of_def)
  next
    case (Inr u)
    then have "with_session_recovery E W S (bind_a (authenticated_fields W q) send) c = (r, c')"
      using run by (auto simp: recovering_call_def bind_r_def split: sum.splits)
    from logsD [OF whole this] show ?thesis by (auto simp: sent_of_def)
  qed
qed

lemma call_sends:
  assumes signs: "relogin_signs_in W" and plain: "plain_request q"
    and run: "call_api E W S q allow_retry c = (r, c')"
  defines "most \<equiv> (if allow_retry then cl_retries S else 0) + 1"
  shows "length (sent_of q c c') \<le> 2 * most" "\<forall>x \<in> set (butlast (sent_of q c c')). repeatable W x"
    "r = Inr v \<Longrightarrow> sent_of q c c' \<noteq> [] \<and> snd (last (sent_of q c c')) = Inr v"
    "most = 1 \<Longrightarrow> length (sent_of q c c') = 2 \<Longrightarrow> \<exists>e. snd (hd (sent_of q c c')) = Inl e \<and> session_refusal e"
proof -
  have tries: "logs (send_form_with_retry_bounded W S (q\<lparr>ac_fields := f\<rparr>) allow_retry t) (tried W q most)" for f t
    using tries_logs [of W S "q\<lparr>ac_fields := f\<rparr>" t "most - 1" 0]
    by (simp add: send_form_with_retry_bounded_def most_def tried_def [abs_def])
  have "sent_of q c c' = [] \<and> (\<exists>e. r = Inl e)
      \<or> (\<exists>sent. recovered (tried W q most) r sent \<and> sent_of q c c' = filter (is_of q) sent)"
    using recovering_call_logs [OF signs tries run [unfolded call_api_def]] .
  then show "length (sent_of q c c') \<le> 2 * most" "\<forall>x \<in> set (butlast (sent_of q c c')). repeatable W x"
    "r = Inr v \<Longrightarrow> sent_of q c c' \<noteq> [] \<and> snd (last (sent_of q c c')) = Inr v"
    "most = 1 \<Longrightarrow> length (sent_of q c c') = 2 \<Longrightarrow> \<exists>e. snd (hd (sent_of q c c')) = Inl e \<and> session_refusal e"
    using recovered_tries [OF plain] by (fastforce simp: most_def)+
qed

lemma login_tries_sign_in:
  assumes "ac_api q = ''SYNO.API.Auth''"
  shows "sends_only (\<lambda>x. rq_api (fst x) = ''SYNO.API.Auth'') (login_tries W S q left a)"
proof (induction left arbitrary: a)
  case 0
  have "sends_only (\<lambda>x. rq_api (fst x) = ''SYNO.API.Auth'') (send_attempt W S q (cl_control_timeout S) (a + 1))"
    by (rule sends_only_attempt) (simp add: is_of_def assms)
  then show ?case by (simp add: sends_only_def logs_def)
next
  case (Suc left)
  let ?F = "\<lambda>x :: exchange. rq_api (fst x) = ''SYNO.API.Auth''"
  have one: "logs (send_attempt W S q (cl_control_timeout S) (a + 1)) (\<lambda>_. list_all ?F)"
    using sends_only_attempt [of q ?F W S "cl_control_timeout S" "a + 1"] by (simp add: sends_only_def is_of_def assms)
  have rest: "logs (bind_a (retry_pause W a) (\<lambda>_. login_tries W S q left (a + 1))) (\<lambda>_. list_all ?F)"
    using sends_only_bind [OF silent_sends_only [OF silent_pause [of W W a]] Suc.IH] by (simp add: sends_only_def)
  show ?case
    unfolding sends_only_def
  proof (rule logsI)
    fix c r c'
    assume run: "login_tries W S q (Suc left) a c = (r, c')"
    obtain r1 c1 where first: "send_attempt W S q (cl_control_timeout S) (a + 1) c = (r1, c1)" by fastforce
    obtain sent where sent: "c_log c1 = c_log c @ sent" "list_all ?F sent" using logsD [OF one first] by blast
    show "\<exists>sent. c_log c' = c_log c @ sent \<and> list_all ?F sent"
    proof (cases "\<exists>e. r1 = Inl e \<and> login_retryable W e")
      case True
      then have "bind_a (retry_pause W a) (\<lambda>_. login_tries W S q left (a + 1)) (count_retry c1) = (r, c')"
        using run first by auto
      from logsD [OF rest this] obtain extra where "c_log c' = c_log c1 @ extra" "list_all ?F extra" by auto
      then show ?thesis using sent by (intro exI [of _ "sent @ extra"]) simp
    next
      case False
      then have "c' = c1" using run first by (auto split: sum.splits if_splits)
      then show ?thesis using sent by blast
    qed
  qed
qed

lemma login_signs_in:
  "sends_only (\<lambda>x. rq_api (fst x) = ''SYNO.API.Auth'') (login_negotiating W S username password otp token)"
proof -
  let ?F = "\<lambda>x :: exchange. rq_api (fst x) = ''SYNO.API.Auth''"
  have "sends_only ?F (\<lambda>c. (Inr (), c\<lparr>c_session := Some s\<rparr>))" for s
    by (simp add: sends_only_def logs_def)
  then have "sends_only ?F (bind_a (from_res (bind_r (required_spec S ''SYNO.API.Auth'') auth_version)) (\<lambda>version.
     bind_a (from_res (api_url S ''SYNO.API.Auth'')) (\<lambda>_.
     bind_a (login_tries W S
       \<lparr>ac_api = ''SYNO.API.Auth'', ac_version = version, ac_method = ''login'',
        ac_fields = login_fields version username password otp token\<rparr> (cl_retries S) 0) (\<lambda>reply.
     bind_a (from_res (session_of_reply reply)) (\<lambda>s.
     bind_a (from_res (request_headers W s)) (\<lambda>_ c. (Inr (), c\<lparr>c_session := Some s\<rparr>)))))))"
    by (intro sends_only_bind sends_only_res login_tries_sign_in) simp_all
  then show ?thesis
    unfolding sends_only_def
    by (intro logsI) (auto simp: login_negotiating_def dest!: logsD)
qed

text \<open>
  C39. A request the caller does not let the client retry, as a deletion or a rename is, is sent a
  second time only when DSM refused the first for its session, and never a third time. A request that
  may be retried is sent again only after a failure worth a retry or a refusal for its session, and
  altogether at most twice as often as one session may send it. What the client reports as success is
  the answer to the last of them.
\<close>

theorem requests_repeat_with_cause:
  assumes "relogin_signs_in W" and "plain_request q" and "call_api E W S q allow_retry c = (r, c')"
  shows "length (sent_of q c c') \<le> 2 * ((if allow_retry then cl_retries S else 0) + 1)
       \<and> (\<forall>x \<in> set (butlast (sent_of q c c')). repeatable W x)
       \<and> (\<not> allow_retry \<and> length (sent_of q c c') = 2
            \<longrightarrow> (\<exists>e. snd (hd (sent_of q c c')) = Inl e \<and> session_refusal e))
       \<and> (\<forall>v. r = Inr v \<longrightarrow> sent_of q c c' \<noteq> [] \<and> snd (last (sent_of q c c')) = Inr v)"
  using call_sends [OF assms] by simp

end
