(* ===== verification/ClientOps.thy ===== *)
theory ClientOps
  imports ClientCore Snapshots Planner
begin

text \<open>
  The operations on one remote path (\<open>src/api.rs\<close>): what is there, what a refusal of it means,
  folders, deletions and renames, the digests DSM computes and the client downloads, and the copy
  that DSM makes.
\<close>

section \<open>Refusals of a path\<close>

fun naming_remote_path :: "text_env \<Rightarrow> error \<Rightarrow> string \<Rightarrow> error" where
  "naming_remote_path E (Api api operation code text) path =
     Api api operation code (text @ '' (path '' @ debug_str E path @ '')'')"
| "naming_remote_path E (InvalidResponse operation message) path =
     InvalidResponse operation (message @ '' (path '' @ debug_str E path @ '')'')"
| "naming_remote_path E (HttpStatus operation status message) path =
     HttpStatus (operation @ '' (path '' @ debug_str E path @ '')'') status message"
| "naming_remote_path E (Http operation source) path =
     Http (operation @ '' (path '' @ debug_str E path @ '')'') source"
| "naming_remote_path E (HttpBody operation source) path =
     HttpBody (operation @ '' (path '' @ debug_str E path @ '')'') source"
| "naming_remote_path E other path = other"

definition is_per_path_refusal_code :: "int \<Rightarrow> bool" where
  "is_per_path_refusal_code code =
     (code \<in> {105, 400, 407, 414, 418, 1100, 1101, 1802, 1804})"

definition refused_folder_text :: "string \<Rightarrow> int \<Rightarrow> string" where
  "refused_folder_text api inner =
     (case api_error_description api inner of
        Some text \<Rightarrow> '': '' @ text
      | None \<Rightarrow> '': folder creation failed'') @ '', reported as folder creation failure 1100''"

fun classify_path_refusal :: "text_env \<Rightarrow> world \<Rightarrow> error \<Rightarrow> string \<Rightarrow> error" where
  "classify_path_refusal E W (Api api operation code description) path =
     (if code = 1100 then
        (case wd_inner W (Api api operation code description) of
           Some inner \<Rightarrow>
             if inner \<in> {411, 415, 416} then
               naming_remote_path E (Api api operation 1100
                 (description @ '' (inner code '' @ show_int inner @ '')'')) path
             else if inner \<in> {105, 407, 400, 412, 413, 414, 418} then
               RemoteRefusedError (api @ ''.'' @ operation) path inner (refused_folder_text api inner)
             else RemoteRefusedError (api @ ''.'' @ operation) path 1100 description
         | None \<Rightarrow> RemoteRefusedError (api @ ''.'' @ operation) path 1100 description)
      else if is_per_path_refusal_code code then
        RemoteRefusedError (api @ ''.'' @ operation) path code description
      else naming_remote_path E (Api api operation code description) path)"
| "classify_path_refusal E W other path = naming_remote_path E other path"

definition is_api_105 :: "error \<Rightarrow> bool" where
  "is_api_105 e = (case e of Api api operation code description \<Rightarrow> code = 105 | _ \<Rightarrow> False)"

definition path_refusal :: "text_env \<Rightarrow> world \<Rightarrow> client_setup \<Rightarrow> error \<Rightarrow> string \<Rightarrow> client \<Rightarrow> error \<times> client" where
  "path_refusal E W S e path c =
     (if is_api_105 e then
        (case confirm_file_station_session W S c of
           (Inl _, c) \<Rightarrow> (naming_remote_path E e path, c)
         | (Inr _, c) \<Rightarrow> (classify_path_refusal E W e path, c))
      else (classify_path_refusal E W e path, c))"

text \<open>\<open>map_err(|error| self.path_refusal(error, path))\<close>.\<close>

definition refusing :: "text_env \<Rightarrow> world \<Rightarrow> client_setup \<Rightarrow> string \<Rightarrow> 'a action \<Rightarrow> 'a action" where
  "refusing E W S path m =
     attempt_a m (\<lambda>r c. case r of
       Inl e \<Rightarrow> (case path_refusal E W S e path c of (e', c) \<Rightarrow> (Inl e', c))
     | Inr x \<Rightarrow> (Inr x, c))"

definition map_err :: "(error \<Rightarrow> error) \<Rightarrow> 'a action \<Rightarrow> 'a action" where
  "map_err f m = attempt_a m (\<lambda>r. from_res (case r of Inl e \<Rightarrow> Inl (f e) | Inr x \<Rightarrow> Inr x))"

section \<open>What is at a path\<close>

definition json_array :: "world \<Rightarrow> string list \<Rightarrow> string" where
  "json_array W values = ''['' @ join_text '','' (map (wd_json W) values) @ '']''"

definition request_of :: "string \<Rightarrow> nat \<Rightarrow> string \<Rightarrow> (string \<times> string) list \<Rightarrow> api_call" where
  "request_of api version method parameters =
     \<lparr>ac_api = api, ac_version = version, ac_method = method, ac_fields = parameters\<rparr>"

definition info_call :: "world \<Rightarrow> string \<Rightarrow> api_call" where
  "info_call W path =
     request_of ''SYNO.FileStation.List'' 2 ''getinfo''
       [(''path'', json_array W [path]),
        (''additional'', json_array W [''size'', ''time'', ''mount_point_type'', ''real_path''])]"

definition info_of_reply :: "text_env \<Rightarrow> string \<Rightarrow> reply option \<Rightarrow> remote_item res" where
  "info_of_reply E path reply =
     (case reply of
        Some (InfoReply files) \<Rightarrow>
          if length files \<noteq> 1 then
            Inl (InvalidResponse info_operation
              (''expected exactly one result for '' @ debug_str E path @ '', received '' @ show_nat (length files)))
          else if iw_path (last files) \<noteq> path then
            Inl (InvalidResponse info_operation
              (''server returned path '' @ debug_str E (iw_path (last files)) @ '' while inspecting '' @ debug_str E path))
          else into_item ''SYNO.FileStation.List'' ''getinfo'' (last files)
      | _ \<Rightarrow> Inl (InvalidResponse info_operation ''successful response contained no path information''))"

definition get_info_with_retry ::
  "text_env \<Rightarrow> world \<Rightarrow> client_setup \<Rightarrow> string \<Rightarrow> bool \<Rightarrow> remote_item action"
where
  "get_info_with_retry E W S path allow_retry =
     bind_a (call_api E W S (info_call W path) allow_retry) (\<lambda>reply. from_res (info_of_reply E path reply))"

text \<open>\<open>None\<close> when nothing is there.\<close>

definition look_at :: "text_env \<Rightarrow> world \<Rightarrow> client_setup \<Rightarrow> string \<Rightarrow> remote_item option action" where
  "look_at E W S path =
     attempt_a (get_info_with_retry E W S path True) (\<lambda>r. from_res (case r of
       Inr item \<Rightarrow> Inr (Some item)
     | Inl e \<Rightarrow> if api_code e = Some 408 then Inr None else Inl e))"

definition remote_entry_exists :: "text_env \<Rightarrow> world \<Rightarrow> client_setup \<Rightarrow> string \<Rightarrow> bool action" where
  "remote_entry_exists E W S path = bind_a (look_at E W S path) (\<lambda>item. give (item \<noteq> None))"

record remote_facts =
  rf_size :: u64
  rf_mtime :: "int option"

definition facts_of_item :: "remote_item \<Rightarrow> remote_facts res" where
  "facts_of_item item =
     (case aw_size (item_extra item) of
        None \<Rightarrow> Inl (InvalidResponse info_operation ''file information contained no byte size'')
      | Some sz \<Rightarrow> Inr \<lparr>rf_size = sz,
          rf_mtime = (case aw_time (item_extra item) of None \<Rightarrow> None | Some t \<Rightarrow> t)\<rparr>)"

definition remote_file_facts :: "text_env \<Rightarrow> world \<Rightarrow> client_setup \<Rightarrow> string \<Rightarrow> remote_facts option action" where
  "remote_file_facts E W S path =
     bind_a (look_at E W S path) (\<lambda>item. from_res (case item of
       None \<Rightarrow> Inr None
     | Some item \<Rightarrow> if it_isdir item then Inr None else map_r Some (facts_of_item item)))"

definition path_state_of :: "text_env \<Rightarrow> world \<Rightarrow> client_setup \<Rightarrow> string \<Rightarrow> remote_path_state action" where
  "path_state_of E W S path =
     bind_a (look_at E W S path) (\<lambda>item. from_res (case item of
       None \<Rightarrow> Inr AbsentPath
     | Some item \<Rightarrow>
         if it_isdir item then Inr FolderPath
         else map_r (\<lambda>f. FilePath (rf_size f) (rf_mtime f)) (facts_of_item item)))"

definition verify_remote_metadata_snapshot ::
  "text_env \<Rightarrow> world \<Rightarrow> client_setup \<Rightarrow> string \<Rightarrow> entry_kind \<Rightarrow> u64 \<Rightarrow> int \<Rightarrow> bool \<Rightarrow> unit action"
where
  "verify_remote_metadata_snapshot E W S path kind sz mtime require_mtime =
     bind_a (check_cancelled W) (\<lambda>_.
     bind_a (look_at E W S path) (\<lambda>item.
     case item of
       None \<Rightarrow> fail (RemoteSnapshotChanged path)
     | Some item \<Rightarrow>
         if item_kind item \<noteq> kind then fail (RemoteSnapshotChanged path)
         else
           bind_a (from_res (file_metadata info_operation (item_kind item) (item_extra item))) (\<lambda>(size_now, mtime_now).
           if size_now \<noteq> sz \<or> (require_mtime \<and> mtime_now \<noteq> mtime) then fail (RemoteSnapshotChanged path)
           else check_cancelled W)))"

section \<open>Mutations\<close>

definition validate_delete_target :: "remote_root \<Rightarrow> string \<Rightarrow> unit res" where
  "validate_delete_target root path =
     (case root_relative root path of
        Inl _ \<Rightarrow> Inl (UnsafeRemotePath path
          ''delete target must be a normalized strict child of the configured destination'')
      | Inr relative \<Rightarrow>
          if relative = [] then
            Inl (UnsafeRemotePath path ''the configured destination itself cannot be deleted'')
          else Inr ())"

definition comma_ambiguity :: "text_env \<Rightarrow> world \<Rightarrow> client_setup \<Rightarrow> string \<Rightarrow> string option action" where
  "comma_ambiguity E W S path =
     (case comma_split_prefix path of
        None \<Rightarrow> give None
      | Some front \<Rightarrow>
          bind_a (remote_entry_exists E W S front) (\<lambda>there. give (if there then Some front else None)))"

definition refuse_comma_ambiguity :: "text_env \<Rightarrow> world \<Rightarrow> client_setup \<Rightarrow> string \<Rightarrow> string \<Rightarrow> unit action" where
  "refuse_comma_ambiguity E W S path operation =
     bind_a (comma_ambiguity E W S path) (\<lambda>found.
       case found of
         None \<Rightarrow> give ()
       | Some front \<Rightarrow> fail (UnsafeRemotePath path
           (''refusing to '' @ operation @ '' it: the part before its first comma, ''
            @ debug_str E front
            @ '', is an existing NAS entry, and until it is known how DSM parses a comma in a path list it could be the entry addressed'')))"

definition delete_call :: "world \<Rightarrow> string \<Rightarrow> api_call" where
  "delete_call W path =
     request_of ''SYNO.FileStation.Delete'' 2 ''delete''
       [(''path'', json_array W [path]), (''recursive'', ''false'')]"

definition delete_non_recursive :: "text_env \<Rightarrow> world \<Rightarrow> client_setup \<Rightarrow> remote_root \<Rightarrow> string \<Rightarrow> unit action" where
  "delete_non_recursive E W S root path =
     bind_a (from_res (validate_delete_target root path)) (\<lambda>_.
     bind_a (refuse_comma_ambiguity E W S path ''delete'') (\<lambda>_.
     bind_a (map_err (\<lambda>e. naming_remote_path E e path) (call_api E W S (delete_call W path) False)) (\<lambda>_.
       give ())))"

definition rename_call :: "world \<Rightarrow> string \<Rightarrow> string \<Rightarrow> api_call" where
  "rename_call W path new_name =
     request_of ''SYNO.FileStation.Rename'' 2 ''rename''
       [(''path'', json_array W [path]), (''name'', json_array W [new_name])]"

text \<open>What the new path holds decides: an answer of success is not taken as proof.\<close>

definition renamed :: "text_env \<Rightarrow> world \<Rightarrow> client_setup \<Rightarrow> string \<Rightarrow> string action" where
  "renamed E W S destination =
     attempt_a (path_state_of E W S destination) (\<lambda>r. from_res (case r of
       Inl e \<Rightarrow> Inl (naming_remote_path E e destination)
     | Inr state \<Rightarrow>
         if state = AbsentPath then Inl (ContentVerificationFailed destination) else Inr destination))"

definition rename_remote ::
  "text_env \<Rightarrow> world \<Rightarrow> client_setup \<Rightarrow> remote_root \<Rightarrow> string \<Rightarrow> string \<Rightarrow> string action"
where
  "rename_remote E W S root path new_name =
     bind_a (from_res (validate_delete_target root path)) (\<lambda>_.
     bind_a (from_res (parent_and_name path)) (\<lambda>(parent, _).
     let destination = parent @ slash # new_name in
     if slash \<in> set new_name then
       fail (UnsafeRemotePath destination ''a new name must be a single path component'')
     else
       bind_a (from_res (validate_delete_target root destination)) (\<lambda>_.
       bind_a (refuse_comma_ambiguity E W S path ''rename'') (\<lambda>_.
       bind_a (refusing E W S path (call_api E W S (rename_call W path new_name) False)) (\<lambda>_.
         renamed E W S destination)))))"

definition create_call :: "world \<Rightarrow> string \<Rightarrow> string \<Rightarrow> api_call" where
  "create_call W parent name =
     request_of ''SYNO.FileStation.CreateFolder'' 2 ''create''
       [(''folder_path'', json_array W [parent]), (''name'', json_array W [name]), (''force_parent'', ''true'')]"

text \<open>"Already exists" is what the run wanted when a folder is there.\<close>

definition folder_exists_now :: "text_env \<Rightarrow> world \<Rightarrow> client_setup \<Rightarrow> string \<Rightarrow> error \<Rightarrow> unit action" where
  "folder_exists_now E W S path e =
     attempt_a (path_state_of E W S path) (\<lambda>r.
       case r of
         Inr state \<Rightarrow> if state = FolderPath then give () else refusing E W S path (fail e)
       | Inl probe \<Rightarrow> fail (naming_remote_path E probe path))"

definition create_folder :: "text_env \<Rightarrow> world \<Rightarrow> client_setup \<Rightarrow> string \<Rightarrow> unit action" where
  "create_folder E W S path =
     bind_a (from_res (parent_and_name path)) (\<lambda>(parent, name).
     attempt_a (call_api E W S (create_call W parent name) True) (\<lambda>r.
       case r of
         Inr _ \<Rightarrow> give ()
       | Inl e \<Rightarrow>
           if api_code e = Some 414 then folder_exists_now E W S path e
           else refusing E W S path (fail e)))"

section \<open>Digests\<close>

definition validate_task_id :: "string \<Rightarrow> string \<Rightarrow> unit res" where
  "validate_task_id taskid operation =
     (if taskid = [] \<or> 1024 < length taskid \<or> has_control taskid then
        Inl (InvalidResponse operation ''server returned an invalid task ID'')
      else Inr ())"

definition stop_request_timeout :: nanos where "stop_request_timeout = seconds 3"

definition stop_task :: "text_env \<Rightarrow> world \<Rightarrow> client_setup \<Rightarrow> string \<Rightarrow> nat \<Rightarrow> string \<Rightarrow> client \<Rightarrow> client" where
  "stop_task E W S api version taskid c =
     (case call_bounded_recovering E W S
         (request_of api version ''stop'' [(''taskid'', wd_json W taskid)]) stop_request_timeout c of
        (Inr _, c) \<Rightarrow> c
      | (Inl _, c) \<Rightarrow> c\<lparr>c_not_stopped := c_not_stopped c + 1\<rparr>)"

text \<open>The task is abandoned for a more important error.\<close>

definition stop_with :: "text_env \<Rightarrow> world \<Rightarrow> client_setup \<Rightarrow> string \<Rightarrow> nat \<Rightarrow> string \<Rightarrow> error \<Rightarrow> 'a action" where
  "stop_with E W S api version taskid e c = (Inl e, stop_task E W S api version taskid c)"

definition task_of_reply :: "string \<Rightarrow> reply option \<Rightarrow> string res" where
  "task_of_reply operation reply =
     (case reply of
        Some (TaskReply taskid) \<Rightarrow> map_r (\<lambda>_. taskid) (validate_task_id taskid operation)
      | _ \<Rightarrow> Inl (InvalidResponse operation ''successful response contained no task ID''))"

definition no_task_status :: "string \<Rightarrow> error" where
  "no_task_status operation = InvalidResponse operation ''successful response contained no task status''"

definition status_call :: "world \<Rightarrow> string \<Rightarrow> nat \<Rightarrow> string \<Rightarrow> api_call" where
  "status_call W api version taskid = request_of api version ''status'' [(''taskid'', wd_json W taskid)]"

text \<open>What one poll of a task leads to: an end of the wait, an end that stops the task, or another poll.\<close>

datatype 'a poll = PollDone "'a res" | PollStop error | PollAgain

text \<open>
  The wait for a task: \<open>polls\<close> bounds how often it is polled. Before each poll the token and the
  deadline are looked at; a poll that does not end the wait is followed by a pause.
\<close>

fun await_task ::
  "text_env \<Rightarrow> world \<Rightarrow> client_setup \<Rightarrow> string \<Rightarrow> nat \<Rightarrow> string \<Rightarrow> string \<Rightarrow> (reply option res \<Rightarrow> 'a poll)
     \<Rightarrow> nanos \<Rightarrow> nanos \<Rightarrow> nanos \<Rightarrow> nat \<Rightarrow> client \<Rightarrow> ('a res \<times> client) option"
where
  "await_task E W S api version taskid what judge deadline longest interval 0 c = None"
| "await_task E W S api version taskid what judge deadline longest interval (Suc polls) c =
     (let cancelled = wd_cancelled W (c_tick c); c = ticked c in
      if cancelled then Some (stop_with E W S api version taskid Cancelled c)
      else
        let now = wd_now W (c_tick c); c = ticked c in
        if deadline \<le> now then Some (stop_with E W S api version taskid (OperationTimedOut what) c)
        else
          let now = wd_now W (c_tick c); c = ticked c in
          (case call_bounded_with_retry E W S
              (status_call W api version taskid)
              (min (cl_control_timeout S) (deadline - now)) c of
             (r, c) \<Rightarrow>
               (case judge r of
                  PollDone x \<Rightarrow> Some (x, c)
                | PollStop e \<Rightarrow> Some (stop_with E W S api version taskid e c)
                | PollAgain \<Rightarrow>
                    (case sleep_cancellable W interval c of
                       (Inl e, c) \<Rightarrow> Some (stop_with E W S api version taskid e c)
                     | (Inr _, c) \<Rightarrow>
                         await_task E W S api version taskid what judge deadline longest
                           (min (2 * interval) longest) polls c))))"

definition md5_first_poll :: nanos where "md5_first_poll = from_millis 5"
definition md5_longest_poll :: nanos where "md5_longest_poll = from_millis 100"
definition copy_first_poll :: nanos where "copy_first_poll = from_millis 50"
definition copy_longest_poll :: nanos where "copy_longest_poll = seconds 2"

definition judge_md5 :: "reply option res \<Rightarrow> fingerprint poll" where
  "judge_md5 r =
     (case r of
        Inl e \<Rightarrow> PollStop e
      | Inr (Some (Md5Reply finished digest)) \<Rightarrow>
          if finished then
            (case digest of
               None \<Rightarrow> PollDone (Inl (InvalidResponse ''SYNO.FileStation.MD5.status''
                 ''finished task contained no MD5 digest''))
             | Some text \<Rightarrow> PollDone (parse_hex text))
          else PollAgain
      | Inr _ \<Rightarrow> PollStop (no_task_status ''SYNO.FileStation.MD5.status''))"

definition md5_start_call :: "world \<Rightarrow> string \<Rightarrow> api_call" where
  "md5_start_call W path =
     request_of ''SYNO.FileStation.MD5'' 2 ''start'' [(''file_path'', wd_json W path)]"

text \<open>The wait for a place among the tasks in flight, which the token may end.\<close>

definition acquire_slot :: "world \<Rightarrow> unit action" where
  "acquire_slot W = sleep_cancellable W 0"

definition remote_content_md5 ::
  "text_env \<Rightarrow> world \<Rightarrow> client_setup \<Rightarrow> nat \<Rightarrow> string \<Rightarrow> client \<Rightarrow> (fingerprint res \<times> client) option"
where
  "remote_content_md5 E W S polls path c =
     (case bind_a (from_res (validate_api S ''SYNO.FileStation.MD5'' 2)) (\<lambda>_.
           bind_a (check_cancelled W) (\<lambda>_.
           bind_a (acquire_slot W) (\<lambda>_.
           bind_a (clock W) (\<lambda>now.
           bind_a (call_bounded_with_retry E W S
             (md5_start_call W path)
             (cl_control_timeout S)) (\<lambda>reply.
           bind_a (from_res (task_of_reply ''SYNO.FileStation.MD5.start'' reply)) (\<lambda>taskid.
             give (taskid, now + cl_operation_timeout S))))))) c of
        (Inl e, c) \<Rightarrow> Some (Inl e, c)
      | (Inr (taskid, deadline), c) \<Rightarrow>
          await_task E W S ''SYNO.FileStation.MD5'' 2 taskid ''remote MD5 calculation'' judge_md5
            deadline md5_longest_poll md5_first_poll polls c)"

definition download_call :: "world \<Rightarrow> string \<Rightarrow> api_call" where
  "download_call W path =
     request_of ''SYNO.FileStation.Download'' 2 ''download''
       [(''path'', json_array W [path]), (''mode'', wd_json W ''download'')]"

definition fingerprint_of_reply :: "reply option \<Rightarrow> fingerprint res" where
  "fingerprint_of_reply reply =
     (case reply of
        Some (DownloadReply fp) \<Rightarrow> Inr fp
      | _ \<Rightarrow> Inl (InvalidResponse ''SYNO.FileStation.Download.download'' ''no file content''))"

text \<open>One download: no deadline of the control requests applies to it.\<close>

definition remote_content_fingerprint_once :: "world \<Rightarrow> client_setup \<Rightarrow> string \<Rightarrow> fingerprint action" where
  "remote_content_fingerprint_once W S path =
     bind_a (authenticated_fields W (download_call W path)) (\<lambda>q.
     bind_a (from_res (api_url S ''SYNO.FileStation.Download'')) (\<lambda>_.
     bind_a (session_headers W) (\<lambda>headers.
     bind_a (transmit W \<lparr>rq_api = ac_api q, rq_version = ac_version q, rq_method = ac_method q,
         rq_fields = ac_fields q, rq_headers = headers, rq_timeout = cl_operation_timeout S, rq_attempt = 1\<rparr>)
       (\<lambda>reply. from_res (fingerprint_of_reply reply)))))"

fun fingerprint_tries :: "world \<Rightarrow> client_setup \<Rightarrow> string \<Rightarrow> nat \<Rightarrow> nat \<Rightarrow> fingerprint action" where
  "fingerprint_tries W S path 0 attempt c =
     bind_a (check_cancelled W) (\<lambda>_. remote_content_fingerprint_once W S path) c"
| "fingerprint_tries W S path (Suc left) attempt c =
     bind_a (check_cancelled W) (\<lambda>_ c.
       case remote_content_fingerprint_once W S path c of
         (Inr fp, c) \<Rightarrow> (Inr fp, c)
       | (Inl e, c) \<Rightarrow>
           if retryable W e then
             bind_a (retry_pause W attempt) (\<lambda>_. fingerprint_tries W S path left (attempt + 1)) (count_retry c)
           else (Inl e, c)) c"

definition remote_content_fingerprint :: "text_env \<Rightarrow> world \<Rightarrow> client_setup \<Rightarrow> string \<Rightarrow> fingerprint action" where
  "remote_content_fingerprint E W S path =
     bind_a (from_res (validate_api S ''SYNO.FileStation.Download'' 2)) (\<lambda>_.
       with_session_recovery E W S (fingerprint_tries W S path (cl_retries S) 0))"

definition remote_content_matches ::
  "text_env \<Rightarrow> world \<Rightarrow> client_setup \<Rightarrow> string \<Rightarrow> u64 \<Rightarrow> fingerprint \<Rightarrow> bool action"
where
  "remote_content_matches E W S path sz expected =
     bind_a (check_cancelled W) (\<lambda>_.
       if \<not> has_full_proof expected then give False
       else
         bind_a (remote_file_facts E W S path) (\<lambda>found.
           case found of
             None \<Rightarrow> give False
           | Some f \<Rightarrow>
               if rf_size f \<noteq> sz then give False
               else
                 bind_a (remote_content_fingerprint E W S path) (\<lambda>actual.
                   give (content_evidence_matches expected actual))))"

definition verify_remote_content ::
  "text_env \<Rightarrow> world \<Rightarrow> client_setup \<Rightarrow> string \<Rightarrow> u64 \<Rightarrow> fingerprint \<Rightarrow> unit action"
where
  "verify_remote_content E W S path sz expected =
     bind_a (remote_content_matches E W S path sz expected) (\<lambda>same.
       if same then give () else fail (ContentVerificationFailed path))"

section \<open>Copies DSM makes\<close>

definition copy_start_error :: "error \<Rightarrow> error" where
  "copy_start_error e =
     (if (case e of MissingApi _ \<Rightarrow> True | UnsupportedApiVersion _ _ _ _ \<Rightarrow> True | _ \<Rightarrow> False)
         \<or> api_code e \<in> Some ` {102, 103, 104, 105, 407, 409}
      then ServerCopyNotStarted else e)"

definition copy_status_reports_failed_task :: "error \<Rightarrow> bool" where
  "copy_status_reports_failed_task e =
     (case api_code e of
        None \<Rightarrow> False
      | Some code \<Rightarrow> 1000 \<le> code \<and> code \<le> 1007 \<or> code \<in> {414, 415, 416, 418})"

text \<open>At most so many characters of a text: a character starts at a byte that continues none.\<close>

fun take_chars :: "nat \<Rightarrow> string \<Rightarrow> string" where
  "take_chars n [] = []"
| "take_chars n (c # cs) =
     (if is_continuation c then c # take_chars n cs
      else (case n of 0 \<Rightarrow> [] | Suc m \<Rightarrow> c # take_chars m cs))"

definition judge_copy :: "text_env \<Rightarrow> string \<Rightarrow> reply option res \<Rightarrow> unit poll" where
  "judge_copy E destination r =
     (case r of
        Inl e \<Rightarrow>
          if copy_status_reports_failed_task e then
            PollDone (Inl (ServerCopyFailedError destination (take_chars 256 (error_display E e))))
          else PollStop e
      | Inr (Some (StatusReply finished failure)) \<Rightarrow>
          if finished then
            (case failure of
               None \<Rightarrow> PollDone (Inr ())
             | Some text \<Rightarrow> PollDone (Inl (ServerCopyFailedError destination (take_chars 256 text))))
          else PollAgain
      | Inr _ \<Rightarrow> PollStop (no_task_status ''SYNO.FileStation.CopyMove.status''))"

definition copy_start_call :: "world \<Rightarrow> string \<Rightarrow> string \<Rightarrow> api_call" where
  "copy_start_call W source_path destination_parent =
     request_of ''SYNO.FileStation.CopyMove'' 3 ''start''
       [(''path'', json_array W [source_path]), (''dest_folder_path'', wd_json W destination_parent),
        (''remove_src'', ''false''), (''accurate_progress'', ''false'')]"

text \<open>The checks before a copy; the folder it goes to.\<close>

definition copy_checks :: "client_setup \<Rightarrow> remote_root \<Rightarrow> string \<Rightarrow> string \<Rightarrow> string res" where
  "copy_checks S root source_path destination_path =
     bind_r (case validate_api S ''SYNO.FileStation.CopyMove'' 3 of
         Inl e \<Rightarrow> Inl (copy_start_error e) | Inr _ \<Rightarrow> Inr ()) (\<lambda>_.
     bind_r (validate_delete_target root source_path) (\<lambda>_.
     bind_r (validate_delete_target root destination_path) (\<lambda>_.
     bind_r (parent_and_name source_path) (\<lambda>(_, source_name).
     bind_r (parent_and_name destination_path) (\<lambda>(destination_parent, destination_name).
       if source_name \<noteq> destination_name \<or> source_path = destination_path then
         Inl (Message ''safe server-side copy requires different parents and an unchanged basename'')
       else Inr destination_parent)))))"

text \<open>The task and its deadline.\<close>

definition start_copy ::
  "text_env \<Rightarrow> world \<Rightarrow> client_setup \<Rightarrow> remote_root \<Rightarrow> string \<Rightarrow> string \<Rightarrow> (string \<times> nanos) action"
where
  "start_copy E W S root source_path destination_path =
     bind_a (from_res (copy_checks S root source_path destination_path)) (\<lambda>destination_parent.
     bind_a (comma_ambiguity E W S source_path) (\<lambda>found.
     if found \<noteq> None then fail ServerCopyNotStarted
     else
       bind_a (check_cancelled W) (\<lambda>_.
       bind_a (clock W) (\<lambda>now.
       bind_a (map_err copy_start_error (call_bounded_recovering E W S
         (copy_start_call W source_path destination_parent) (cl_control_timeout S))) (\<lambda>reply.
       bind_a (from_res (task_of_reply ''SYNO.FileStation.CopyMove.start'' reply)) (\<lambda>taskid.
         give (taskid, now + cl_operation_timeout S)))))))"

definition copy_file_verified ::
  "text_env \<Rightarrow> world \<Rightarrow> client_setup \<Rightarrow> remote_root \<Rightarrow> string \<Rightarrow> string \<Rightarrow> u64 \<Rightarrow> fingerprint \<Rightarrow> nat
     \<Rightarrow> client \<Rightarrow> (unit res \<times> client) option"
where
  "copy_file_verified E W S root source_path destination_path sz expected polls c =
     (case start_copy E W S root source_path destination_path c of
        (Inl e, c) \<Rightarrow> Some (Inl e, c)
      | (Inr (taskid, deadline), c) \<Rightarrow>
          (case await_task E W S ''SYNO.FileStation.CopyMove'' 3 taskid ''server-side file copy''
              (judge_copy E destination_path) deadline copy_longest_poll copy_first_poll polls c of
             None \<Rightarrow> None
           | Some (Inl e, c) \<Rightarrow> Some (Inl e, c)
           | Some (Inr _, c) \<Rightarrow> Some (verify_remote_content E W S destination_path sz expected c)))"

end
