(* ===== verification/ClientUpload.thy ===== *)
theory ClientUpload
  imports ClientOps
begin

text \<open>
  One upload (\<open>src/api.rs\<close>): its attempts, the evidence that the file landed, the probe after an
  attempt that failed in transport, and the one more attempt a torn overwrite is given. The waits for
  DSM's digest are bounded by a number of polls; \<open>None\<close> is an upload that is still polling.
\<close>

type_synonym 'a running = "client \<Rightarrow> ('a res \<times> client) option"

definition run_a :: "'a action \<Rightarrow> 'a running" where
  "run_a m = (\<lambda>c. Some (m c))"

definition bind_o :: "'a running \<Rightarrow> ('a \<Rightarrow> 'b running) \<Rightarrow> 'b running" where
  "bind_o m k =
     (\<lambda>c. case m c of
        None \<Rightarrow> None
      | Some (Inl e, c') \<Rightarrow> Some (Inl e, c')
      | Some (Inr x, c') \<Rightarrow> k x c')"

text \<open>What a \<open>match\<close> on the result looks at.\<close>

definition attempt_o :: "'a running \<Rightarrow> ('a res \<Rightarrow> 'b running) \<Rightarrow> 'b running" where
  "attempt_o m k = (\<lambda>c. case m c of None \<Rightarrow> None | Some (r, c') \<Rightarrow> k r c')"

section \<open>Evidence of what is on the NAS\<close>

definition hash_snapshot :: "world \<Rightarrow> local_entry \<Rightarrow> fingerprint action" where
  "hash_snapshot W local_file c =
     (hash_file_with (wd_hash W) local_file (wd_file W (c_tick c) (l_full_path local_file)), ticked c)"

definition local_snapshot :: "world \<Rightarrow> local_entry \<Rightarrow> unit action" where
  "local_snapshot W local_file c =
     (verify_local_snapshot local_file (wd_stat W (c_tick c) (l_full_path local_file)), ticked c)"

text \<open>The file is opened and what was opened is looked at.\<close>

definition open_snapshot :: "world \<Rightarrow> local_entry \<Rightarrow> unit action" where
  "open_snapshot W local_file c =
     (case wd_open W (c_tick c) (l_full_path local_file) of
        Inl e \<Rightarrow> (Inl (FileIo (l_full_path local_file) e), ticked c)
      | Inr _ \<Rightarrow>
          (verify_open_file_snapshot local_file (wd_open_meta W (c_tick c) (l_full_path local_file)), ticked c))"

definition preflight_upload_readable :: "world \<Rightarrow> local_entry \<Rightarrow> unit action" where
  "preflight_upload_readable W local_file = bind_a (local_snapshot W local_file) (\<lambda>_. open_snapshot W local_file)"

definition preflight_upload_source :: "world \<Rightarrow> local_entry \<Rightarrow> unit action" where
  "preflight_upload_source W local_file =
     bind_a (preflight_upload_readable W local_file) (\<lambda>_.
       case l_md5 local_file of
         None \<Rightarrow> give ()
       | Some expected \<Rightarrow>
           bind_a (hash_snapshot W local_file) (\<lambda>actual.
             if content_evidence_matches expected actual then give ()
             else fail (SourceChangedError (l_full_path local_file))))"

definition note_uploaded_mtime :: "local_entry \<Rightarrow> int option \<Rightarrow> client \<Rightarrow> client" where
  "note_uploaded_mtime local_file reported c =
     (case reported of
        None \<Rightarrow> c
      | Some r \<Rightarrow>
          if mtimes_agree (l_mtime_ms local_file) r then c else c\<lparr>c_unhonoured := c_unhonoured c + 1\<rparr>)"

definition noting :: "local_entry \<Rightarrow> int option \<Rightarrow> 'a \<Rightarrow> 'a action" where
  "noting local_file reported x c = (Inr x, note_uploaded_mtime local_file reported c)"

definition uploaded_digest_matches ::
  "text_env \<Rightarrow> world \<Rightarrow> client_setup \<Rightarrow> nat \<Rightarrow> string \<Rightarrow> fingerprint \<Rightarrow> bool running"
where
  "uploaded_digest_matches E W S polls path expected =
     bind_o (run_a (check_cancelled W)) (\<lambda>_.
       case validate_api S ''SYNO.FileStation.MD5'' 2 of
         Inl _ \<Rightarrow>
           if \<not> has_full_proof expected then run_a (give False)
           else
             bind_o (run_a (remote_content_fingerprint E W S path)) (\<lambda>actual.
               run_a (give (content_evidence_matches expected actual)))
       | Inr _ \<Rightarrow>
           bind_o (remote_content_md5 E W S polls path) (\<lambda>actual.
             run_a (give (md5_matches expected actual))))"

definition uploaded_content_matches ::
  "text_env \<Rightarrow> world \<Rightarrow> client_setup \<Rightarrow> nat \<Rightarrow> string \<Rightarrow> u64 \<Rightarrow> fingerprint \<Rightarrow> bool running"
where
  "uploaded_content_matches E W S polls path sz expected =
     bind_o (run_a (check_cancelled W)) (\<lambda>_.
     bind_o (run_a (remote_file_facts E W S path)) (\<lambda>found.
       case found of
         None \<Rightarrow> run_a (give False)
       | Some f \<Rightarrow>
           if rf_size f \<noteq> sz then run_a (give False)
           else uploaded_digest_matches E W S polls path expected))"

definition verify_uploaded_content ::
  "text_env \<Rightarrow> world \<Rightarrow> client_setup \<Rightarrow> nat \<Rightarrow> string \<Rightarrow> u64 \<Rightarrow> fingerprint \<Rightarrow> unit running"
where
  "verify_uploaded_content E W S polls path sz expected =
     bind_o (uploaded_content_matches E W S polls path sz expected) (\<lambda>same.
       run_a (if same then give () else fail (ContentVerificationFailed path)))"

definition time_kept :: "local_entry \<Rightarrow> int option \<Rightarrow> bool" where
  "time_kept local_file reported =
     (case reported of None \<Rightarrow> True | Some r \<Rightarrow> mtimes_agree (l_mtime_ms local_file) r)"

definition earlier_attempt_landed ::
  "text_env \<Rightarrow> world \<Rightarrow> client_setup \<Rightarrow> nat \<Rightarrow> local_entry \<Rightarrow> string \<Rightarrow> fingerprint \<Rightarrow> bool running"
where
  "earlier_attempt_landed E W S polls local_file path expected =
     bind_o (run_a (check_cancelled W)) (\<lambda>_.
     bind_o (run_a (remote_file_facts E W S path)) (\<lambda>found.
       case found of
         None \<Rightarrow> run_a (give False)
       | Some f \<Rightarrow>
           if rf_size f \<noteq> l_size local_file \<or> \<not> time_kept local_file (rf_mtime f) then run_a (give False)
           else
             bind_o (uploaded_digest_matches E W S polls path expected) (\<lambda>same.
               run_a (if same then noting local_file (rf_mtime f) True else give False))))"

text \<open>What was sent must be what was planned, before the destination is looked at.\<close>

definition sent_as_planned :: "world \<Rightarrow> local_entry \<Rightarrow> body_reader option \<Rightarrow> unit action" where
  "sent_as_planned W local_file streamed =
     (case l_md5 local_file of
        None \<Rightarrow> give ()
      | Some expected \<Rightarrow>
          (case streamed of
             Some rd \<Rightarrow>
               if streamed_bytes rd \<noteq> uint (l_size local_file)
                   \<or> \<not> content_evidence_matches expected (wd_hash W (br_streamed rd))
               then fail (SourceChangedError (l_full_path local_file)) else give ()
           | None \<Rightarrow>
               bind_a (hash_snapshot W local_file) (\<lambda>actual.
                 if content_evidence_matches expected actual then give ()
                 else fail (SourceChangedError (l_full_path local_file)))))"

definition verify_upload_landed ::
  "text_env \<Rightarrow> world \<Rightarrow> client_setup \<Rightarrow> nat \<Rightarrow> local_entry \<Rightarrow> string \<Rightarrow> body_reader option \<Rightarrow> unit running"
where
  "verify_upload_landed E W S polls local_file path streamed =
     bind_o (run_a (check_cancelled W)) (\<lambda>_.
     bind_o (run_a (sent_as_planned W local_file streamed)) (\<lambda>_.
     bind_o (run_a (remote_file_facts E W S path)) (\<lambda>found.
       case found of
         None \<Rightarrow> run_a (fail (ContentVerificationFailed path))
       | Some f \<Rightarrow>
           if rf_size f \<noteq> l_size local_file then run_a (fail (ContentVerificationFailed path))
           else
             bind_o (run_a (noting local_file (rf_mtime f) ())) (\<lambda>_.
               case l_md5 local_file of
                 None \<Rightarrow> run_a (give ())
               | Some expected \<Rightarrow>
                   bind_o (uploaded_digest_matches E W S polls path expected) (\<lambda>same.
                     run_a (if same then give () else fail (ContentVerificationFailed path)))))))"

section \<open>The last attempt\<close>

datatype last_attempt = Settled "unit res" | Torn error

definition torn_overwrite_error :: "text_env \<Rightarrow> error \<Rightarrow> string \<Rightarrow> error" where
  "torn_overwrite_error E e path =
     Message (error_display E e @ ''; the NAS copy of '' @ debug_str E path
       @ '' now has this file's size and modification time but not its content, so a metadata comparison would call it unchanged; one more full upload was tried and did not repair it; run once with --compare content to repair it'')"

definition probe_failed :: "text_env \<Rightarrow> error \<Rightarrow> string \<Rightarrow> error \<Rightarrow> error" where
  "probe_failed E e path probe =
     Message (error_display E e @ ''; checking what the failed upload left at '' @ debug_str E path
       @ '' also failed: '' @ error_display E probe)"

definition content_unchecked :: "text_env \<Rightarrow> error \<Rightarrow> string \<Rightarrow> error \<Rightarrow> error" where
  "content_unchecked E e path probe =
     Message (error_display E e @ ''; the NAS copy of '' @ debug_str E path
       @ '' now has this file's size and modification time, and its content could not be checked (''
       @ error_display E probe @ ''); run once with --compare content to make sure it is whole'')"

text \<open>The content of a file that looks complete.\<close>

definition judge_complete ::
  "text_env \<Rightarrow> world \<Rightarrow> client_setup \<Rightarrow> nat \<Rightarrow> local_entry \<Rightarrow> string \<Rightarrow> error \<Rightarrow> fingerprint \<Rightarrow> int option
     \<Rightarrow> last_attempt running"
where
  "judge_complete E W S polls local_file path e expected reported =
     attempt_o (uploaded_digest_matches E W S polls path expected) (\<lambda>r.
       run_a (case r of
         Inr True \<Rightarrow> noting local_file reported (Settled (Inr ()))
       | Inr False \<Rightarrow> give (Torn e)
       | Inl probe \<Rightarrow> give (Settled (Inl (content_unchecked E e path probe)))))"

definition last_attempt_failed_in_transport ::
  "text_env \<Rightarrow> world \<Rightarrow> client_setup \<Rightarrow> nat \<Rightarrow> local_entry \<Rightarrow> string \<Rightarrow> error \<Rightarrow> last_attempt running"
where
  "last_attempt_failed_in_transport E W S polls local_file path e =
     (case l_md5 local_file of
        None \<Rightarrow> run_a (give (Settled (Inl e)))
      | Some expected \<Rightarrow>
          bind_o (run_a (is_cancelled W)) (\<lambda>cancelled.
            if cancelled then run_a (give (Settled (Inl e)))
            else
              attempt_o (run_a (remote_file_facts E W S path)) (\<lambda>r.
                case r of
                  Inl probe \<Rightarrow>
                    run_a (give (Settled (Inl (if retryable W probe then e else probe_failed E e path probe))))
                | Inr None \<Rightarrow> run_a (give (Settled (Inl e)))
                | Inr (Some f) \<Rightarrow>
                    if rf_size f = l_size local_file \<and> time_kept local_file (rf_mtime f) then
                      judge_complete E W S polls local_file path e expected (rf_mtime f)
                    else run_a (give (Settled (Inl e))))))"

section \<open>One attempt\<close>

definition upload_call :: "local_entry \<Rightarrow> string \<Rightarrow> bool \<Rightarrow> bool \<Rightarrow> api_call" where
  "upload_call local_file parent overwrite create_parents =
     (let flag = (\<lambda>b. if b then ''true'' else ''false'') in
      request_of ''SYNO.FileStation.Upload'' 2 ''upload''
        [(''path'', parent), (''create_parents'', flag create_parents), (''overwrite'', flag overwrite),
         (''mtime'', show_int (l_mtime_ms local_file))])"

text \<open>
  Everything before the request: a failure here ends the upload. The binary part comes last in the
  form; it is listed by the name of its file.
\<close>

definition prepare_attempt ::
  "world \<Rightarrow> client_setup \<Rightarrow> local_entry \<Rightarrow> string \<Rightarrow> string \<Rightarrow> bool \<Rightarrow> bool \<Rightarrow> sent_request action"
where
  "prepare_attempt W S local_file parent name overwrite create_parents =
     bind_a (check_cancelled W) (\<lambda>_.
     bind_a (\<lambda>c. let c = c\<lparr>c_sends := c_sends c + 1\<rparr> in
        (if wd_observer W (c_tick c) then Inr (c_sends c) else Inl Cancelled, ticked c)) (\<lambda>number.
     bind_a (preflight_upload_readable W local_file) (\<lambda>_.
     bind_a (authenticated_fields W (upload_call local_file parent overwrite create_parents)) (\<lambda>q.
     bind_a (from_res (api_url S ''SYNO.FileStation.Upload'')) (\<lambda>_.
     bind_a (session_headers W) (\<lambda>headers.
       give \<lparr>rq_api = ac_api q, rq_version = ac_version q, rq_method = ac_method q,
         rq_fields = ac_fields q @ [(''file'', name)],
         rq_headers = headers, rq_timeout = cl_upload_timeout S, rq_attempt = number\<rparr>))))))"

text \<open>The request with its body: what the reader saw outranks what the transport says.\<close>

definition send_upload ::
  "world \<Rightarrow> local_entry \<Rightarrow> sent_request \<Rightarrow> client \<Rightarrow> (unit res \<times> body_reader) \<times> client"
where
  "send_upload W local_file rq c =
     (case pump_upload_body (wd_hash W) local_file (wd_body W (c_tick c)) reader_new of
        (handed, ended, rd) \<Rightarrow>
          (case transmit W rq c of
             (r, c) \<Rightarrow>
               ((if br_cancelled rd then Inl Cancelled
                 else
                   (case r of
                      Inr _ \<Rightarrow> Inr ()
                    | Inl e \<Rightarrow>
                        if br_changed rd then Inl (SourceChangedError (l_full_path local_file)) else Inl e),
                 rd), c)))"

text \<open>Before another attempt: whether this one landed after all, and otherwise a pause.\<close>

definition before_retry ::
  "text_env \<Rightarrow> world \<Rightarrow> client_setup \<Rightarrow> nat \<Rightarrow> local_entry \<Rightarrow> string \<Rightarrow> nat \<Rightarrow> bool running"
where
  "before_retry E W S polls local_file path attempt =
     bind_o (run_a (local_snapshot W local_file)) (\<lambda>_.
     bind_o
       (case l_md5 local_file of
          None \<Rightarrow> run_a (give False)
        | Some expected \<Rightarrow>
            bind_o (run_a (hash_snapshot W local_file)) (\<lambda>actual.
              if \<not> content_evidence_matches expected actual then
                run_a (fail (SourceChangedError (l_full_path local_file)))
              else
                attempt_o (earlier_attempt_landed E W S polls local_file path expected) (\<lambda>r.
                  run_a (case r of
                    Inr landed \<Rightarrow> give landed
                  | Inl probe \<Rightarrow> if retryable W probe then give False else fail probe))))
       (\<lambda>landed.
         if landed then run_a (give True)
         else bind_o (run_a (retry_pause W attempt)) (\<lambda>_. run_a (give False))))"

definition settled_as :: "text_env \<Rightarrow> string \<Rightarrow> error option \<Rightarrow> unit res \<Rightarrow> unit res" where
  "settled_as E path tear r =
     (case r of
        Inr _ \<Rightarrow> Inr ()
      | Inl e \<Rightarrow> Inl (if tear = None then e else torn_overwrite_error E e path))"

text \<open>The attempts under one session: \<open>left\<close> more may follow, and one more after a tear.\<close>

function upload_tries ::
  "text_env \<Rightarrow> world \<Rightarrow> client_setup \<Rightarrow> nat \<Rightarrow> local_entry \<Rightarrow> string \<Rightarrow> string \<Rightarrow> string \<Rightarrow> bool \<Rightarrow> bool
     \<Rightarrow> nat \<Rightarrow> error option \<Rightarrow> nat \<Rightarrow> unit running"
where
  "upload_tries E W S polls local_file path parent name overwrite create_parents left tear attempt c =
     (case prepare_attempt W S local_file parent name overwrite create_parents c of
        (Inl e, c) \<Rightarrow> Some (Inl e, c)
      | (Inr rq, c) \<Rightarrow>
          (case send_upload W local_file rq c of
             ((Inr _, rd), c) \<Rightarrow>
               bind_o (run_a (local_snapshot W local_file)) (\<lambda>_.
                 verify_upload_landed E W S polls local_file path
                   (if l_md5 local_file = None then None else Some rd)) c
           | ((Inl e, rd), c) \<Rightarrow>
               if tear \<noteq> None \<and> \<not> retryable W e then Some (Inl (torn_overwrite_error E e path), c)
               else if 0 < left \<and> retryable W e then
                 (case before_retry E W S polls local_file path attempt (count_retry c) of
                    None \<Rightarrow> None
                  | Some (Inl e, c) \<Rightarrow> Some (Inl e, c)
                  | Some (Inr landed, c) \<Rightarrow>
                      if landed then Some (Inr (), c)
                      else upload_tries E W S polls local_file path parent name overwrite create_parents
                             (left - 1) tear (attempt + 1) c)
               else if retryable W e then
                 (case last_attempt_failed_in_transport E W S polls local_file path e c of
                    None \<Rightarrow> None
                  | Some (Inl e, c) \<Rightarrow> Some (Inl e, c)
                  | Some (Inr (Settled r), c) \<Rightarrow> Some (settled_as E path tear r, c)
                  | Some (Inr (Torn e), c) \<Rightarrow>
                      if tear = None then
                        upload_tries E W S polls local_file path parent name overwrite create_parents
                          left (Some e) (attempt + 1) (count_retry c)
                      else Some (Inl (torn_overwrite_error E e path), c))
               else Some (Inl e, c)))"
  by pat_completeness auto

termination
  by (relation "measures [\<lambda>(E, W, S, polls, l, path, parent, name, ov, cp, left, tear, attempt, c). left,
                          \<lambda>(E, W, S, polls, l, path, parent, name, ov, cp, left, tear, attempt, c).
                            if tear = None then 1 else 0]") auto

declare upload_tries.simps [simp del]

definition upload_observed_inner ::
  "text_env \<Rightarrow> world \<Rightarrow> client_setup \<Rightarrow> nat \<Rightarrow> local_entry \<Rightarrow> string \<Rightarrow> bool \<Rightarrow> bool \<Rightarrow> unit running"
where
  "upload_observed_inner E W S polls local_file path overwrite create_parents =
     bind_o (run_a (from_res (parent_and_name path))) (\<lambda>(parent, name).
       upload_tries E W S polls local_file path parent name overwrite create_parents (cl_retries S) None 0)"

section \<open>The upload\<close>

definition with_session_recovery_o ::
  "text_env \<Rightarrow> world \<Rightarrow> client_setup \<Rightarrow> 'a running \<Rightarrow> 'a running"
where
  "with_session_recovery_o E W S m =
     bind_o (run_a (current_session W)) (\<lambda>s c.
       case m c of
         None \<Rightarrow> None
       | Some (Inl e, c) \<Rightarrow>
           (case recover_session E W S (map_option se_sid s) e c of
              (Resend, c) \<Rightarrow> m c
            | (NotApplicable, c) \<Rightarrow> Some (Inl e, c)
            | (LoginFailed e', c) \<Rightarrow> Some (Inl e', c))
       | Some (Inr x, c) \<Rightarrow> Some (Inr x, c))"

definition never_finishes :: "text_env \<Rightarrow> client_setup \<Rightarrow> local_entry \<Rightarrow> error option" where
  "never_finishes E S local_file =
     (let ceiling = ub_ceiling (bounds_for_upload (cl_upload_timeout S) (l_size local_file)) in
      case minimum_upload_duration (cl_rate S) (l_size local_file) of
        None \<Rightarrow> None
      | Some least \<Rightarrow>
          if ceiling < least then
            Some (Configuration (''uploading '' @ debug_str E (l_relative local_file) @ '' (''
              @ show_u64 (l_size local_file) @ '' bytes) takes at least '' @ show_nat (as_secs least)
              @ '' s at --max-rate '' @ show_nat (case cl_rate S of None \<Rightarrow> 0 | Some r \<Rightarrow> r)
              @ '' bytes/s, longer than the '' @ show_nat (as_secs ceiling)
              @ '' s one attempt may take (--timeout '' @ show_nat (as_secs (cl_upload_timeout S))
              @ '' s, or the time this size needs at '' @ show_nat upload_minimum_rate
              @ '' bytes/s), so it could never finish; raise --timeout or --max-rate''))
          else None)"

definition upload_observed_with_policy ::
  "text_env \<Rightarrow> world \<Rightarrow> client_setup \<Rightarrow> nat \<Rightarrow> local_entry \<Rightarrow> string \<Rightarrow> bool \<Rightarrow> bool \<Rightarrow> unit running"
where
  "upload_observed_with_policy E W S polls local_file path overwrite create_parents c =
     (case never_finishes E S local_file of
        Some e \<Rightarrow> Some (Inl e, c)
      | None \<Rightarrow>
          attempt_o (with_session_recovery_o E W S
              (upload_observed_inner E W S polls local_file path overwrite create_parents)) (\<lambda>r.
            run_a (refusing E W S path (from_res r))) (c\<lparr>c_sends := 0\<rparr>))"

definition upload_observed ::
  "text_env \<Rightarrow> world \<Rightarrow> client_setup \<Rightarrow> nat \<Rightarrow> local_entry \<Rightarrow> string \<Rightarrow> unit running"
where
  "upload_observed E W S polls local_file path =
     upload_observed_with_policy E W S polls local_file path True True"

definition upload_non_overwriting ::
  "text_env \<Rightarrow> world \<Rightarrow> client_setup \<Rightarrow> nat \<Rightarrow> local_entry \<Rightarrow> string \<Rightarrow> unit running"
where
  "upload_non_overwriting E W S polls local_file path =
     upload_observed_with_policy E W S polls local_file path False False"

end
