(* ===== verification/UploadFacts.thy ===== *)
theory UploadFacts
  imports ClientFacts ClientUpload
begin

text \<open>
  What stands behind a success: an upload and a server copy are reported done only on the NAS's own
  account of the file, given after the bytes were sent; and how often an upload is sent.
\<close>

section \<open>Evidence in the log\<close>

text \<open>An answer to a request, with at least the parameters it was asked with.\<close>

definition answered :: "api_call \<Rightarrow> reply option \<Rightarrow> exchange list \<Rightarrow> bool" where
  "answered q v sent \<longleftrightarrow>
     (\<exists>x \<in> set sent. is_of q x \<and> set (ac_fields q) \<subseteq> set (rq_fields (fst x)) \<and> snd x = Inr v)"

definition gives :: "'a action \<Rightarrow> ('a \<Rightarrow> exchange list \<Rightarrow> bool) \<Rightarrow> bool" where
  "gives m F \<longleftrightarrow> logs m (\<lambda>r sent. \<forall>v. r = Inr v \<longrightarrow> F v sent)"

text \<open>Evidence stays evidence when something else is sent before or after.\<close>

definition grows :: "(exchange list \<Rightarrow> bool) \<Rightarrow> bool" where
  "grows F \<longleftrightarrow> (\<forall>a sent b. F sent \<longrightarrow> F (a @ sent @ b))"

lemma growsD: "grows F \<Longrightarrow> F sent \<Longrightarrow> F (a @ sent)" "grows F \<Longrightarrow> F sent \<Longrightarrow> F (sent @ b)"
  unfolding grows_def by (metis append_Nil append_Nil2)+

lemma grows_answered: "grows (answered q v)"
  by (auto simp: grows_def answered_def)

lemma grows_ex: "(\<And>x. grows (K x)) \<Longrightarrow> grows (\<lambda>sent. \<exists>x. K x sent)"
  and grows_conj: "grows F \<Longrightarrow> grows G \<Longrightarrow> grows (\<lambda>sent. F sent \<and> G sent)"
  and grows_disj: "grows F \<Longrightarrow> grows G \<Longrightarrow> grows (\<lambda>sent. F sent \<or> G sent)"
  and grows_const: "grows (\<lambda>sent. P)"
  unfolding grows_def by blast+

lemmas grows_rules = grows_answered grows_ex grows_conj grows_disj grows_const

lemma gives_attempt: "gives (send_attempt W S q t a) (answered q)"
  unfolding gives_def send_attempt_def
proof (intro logs_after_silent [where W = W] sends_nothing)
  fix timeout headers
  show "logs (transmit W \<lparr>rq_api = ac_api q, rq_version = ac_version q, rq_method = ac_method q,
      rq_fields = ac_fields q, rq_headers = headers, rq_timeout = timeout, rq_attempt = a\<rparr>)
      (\<lambda>r sent. \<forall>v. r = Inr v \<longrightarrow> answered q v sent)"
    by (auto simp: logs_def transmit_def ticked_def Let_def answered_def is_of_def)
qed simp_all

lemma gives_mono: "gives m F \<Longrightarrow> (\<And>v sent. F v sent \<Longrightarrow> G v sent) \<Longrightarrow> gives m G"
  unfolding gives_def by (erule logs_mono) blast

lemma gives_bind:
  assumes m: "gives m F" and k: "\<And>x. gives (k x) (G x)"
    and both: "\<And>x v s t. F x s \<Longrightarrow> G x v t \<Longrightarrow> H v (s @ t)"
  shows "gives (bind_a m k) H"
  using m unfolding gives_def
  by (rule logs_bind [where R = "\<lambda>x r sent. \<forall>v. r = Inr v \<longrightarrow> G x v sent"])
    (use k both in \<open>auto simp: gives_def\<close>)

lemma gives_silent: "silent W m \<Longrightarrow> gives m (\<lambda>v sent. sent = [])"
  unfolding silent_def gives_def
  by (erule logs_mono [where P = "\<lambda>r sent. sent = [] \<and> (\<forall>e. r = Inl e \<longrightarrow> unsent W e)"]) simp

lemma gives_after_silent:
  assumes "silent W m" and "\<And>x. gives (k x) F"
  shows "gives (bind_a m k) F"
  using gives_silent [OF assms(1)] assms(2) by (rule gives_bind) simp

lemma gives_res: "gives (from_res r) (\<lambda>v sent. sent = [] \<and> r = Inr v)"
  and gives_give: "gives (give x) (\<lambda>v sent. sent = [] \<and> v = x)"
  and gives_fail: "gives (fail e) F"
  by (auto simp: gives_def logs_def from_res_def give_def fail_def)

lemma gives_tries: "gives (send_tries W S q t left a) (answered q)"
proof (induction left arbitrary: a)
  case 0
  then show ?case using gives_attempt [of W S q t "a + 1"] by (simp add: gives_def logs_def)
next
  case (Suc left)
  have rest: "gives (bind_a (retry_pause W a) (\<lambda>_. send_tries W S q t left (a + 1))) (answered q)"
    by (rule gives_after_silent [OF silent_pause [of W] Suc.IH])
  show ?case
    unfolding gives_def
  proof (rule logsI)
    fix c r c'
    assume run: "send_tries W S q t (Suc left) a c = (r, c')"
    obtain r1 c1 where one: "send_attempt W S q t (a + 1) c = (r1, c1)" by fastforce
    obtain first where first: "c_log c1 = c_log c @ first" "\<forall>v. r1 = Inr v \<longrightarrow> answered q v first"
      using logsD [OF gives_attempt [unfolded gives_def] one] by blast
    show "\<exists>sent. c_log c' = c_log c @ sent \<and> (\<forall>v. r = Inr v \<longrightarrow> answered q v sent)"
    proof (cases "\<exists>e. r1 = Inl e \<and> retryable W e")
      case False
      then have "r = r1" "c' = c1" using run one by (auto split: sum.splits if_splits)
      then show ?thesis using first by blast
    next
      case True
      then have "bind_a (retry_pause W a) (\<lambda>_. send_tries W S q t left (a + 1)) (count_retry c1) = (r, c')"
        using run one by auto
      from logsD [OF rest [unfolded gives_def] this] obtain extra
        where "c_log c' = c_log c1 @ extra" "\<forall>v. r = Inr v \<longrightarrow> answered q v extra" by auto
      then show ?thesis
        using first growsD(1) [OF grows_answered] by (intro exI [of _ "first @ extra"]) simp
    qed
  qed
qed

lemma gives_recovery:
  assumes signs: "relogin_signs_in W" and m: "gives m F" and grows: "\<And>v. grows (F v)"
  shows "gives (with_session_recovery E W S m) F"
  using recovery_logs [OF signs m [unfolded gives_def], of E S] unfolding gives_def
  by (rule logs_mono) (auto simp: recovered_def intro: growsD [OF grows])

lemma gives_signed:
  assumes "\<And>f. set (ac_fields q) \<subseteq> set f \<Longrightarrow> gives (send (q\<lparr>ac_fields := f\<rparr>)) F"
  shows "gives (bind_a (authenticated_fields V q) send) F"
  using assms unfolding gives_def by (rule logs_signed_fields [where W = V]) auto

lemma answered_signed: "set (ac_fields q) \<subseteq> set f \<Longrightarrow> answered (q\<lparr>ac_fields := f\<rparr>) v sent \<Longrightarrow> answered q v sent"
  by (auto simp: answered_def)

lemma gives_recovering:
  assumes signs: "relogin_signs_in W" and send: "\<And>f. gives (send (q\<lparr>ac_fields := f\<rparr>)) (answered (q\<lparr>ac_fields := f\<rparr>))"
  shows "gives (recovering_call E W S q send) (answered q)"
proof -
  have "gives (bind_a (authenticated_fields W q) send) (answered q)"
    by (rule gives_signed, rule gives_mono [OF send]) (rule answered_signed)
  then have body: "gives (with_session_recovery E W S (bind_a (authenticated_fields W q) send)) (answered q)"
    by (rule gives_recovery [OF signs _ grows_answered])
  show ?thesis
    unfolding recovering_call_def
    by (rule gives_bind [OF gives_res gives_bind [OF gives_res body]]) auto
qed

lemma gives_call: "relogin_signs_in W \<Longrightarrow> gives (call_api E W S q r) (answered q)"
  unfolding call_api_def send_form_with_retry_bounded_def by (rule gives_recovering [OF _ gives_tries])

lemma gives_call_retry: "relogin_signs_in W \<Longrightarrow> gives (call_bounded_with_retry E W S q t) (answered q)"
  unfolding call_bounded_with_retry_def send_form_with_retry_bounded_def
  by (rule gives_recovering [OF _ gives_tries])

section \<open>What the NAS said of a file\<close>

definition shown_file :: "world \<Rightarrow> string \<Rightarrow> remote_facts \<Rightarrow> exchange list \<Rightarrow> bool" where
  "shown_file W path f sent \<longleftrightarrow>
     (\<exists>w item. answered (info_call W path) (Some (InfoReply [w])) sent \<and> iw_path w = path
        \<and> into_item ''SYNO.FileStation.List'' ''getinfo'' w = Inr item \<and> \<not> it_isdir item
        \<and> facts_of_item item = Inr f)"

lemma grows_shown_file: "grows (shown_file W path f)"
  unfolding shown_file_def by (intro grows_rules)

lemma info_reply:
  "info_of_reply E path reply = Inr item \<Longrightarrow>
   \<exists>w. reply = Some (InfoReply [w]) \<and> iw_path w = path \<and> into_item ''SYNO.FileStation.List'' ''getinfo'' w = Inr item"
  by (auto simp: info_of_reply_def length_Suc_conv split: option.splits reply.splits if_splits)

lemma gives_info:
  assumes "relogin_signs_in W"
  shows "gives (get_info_with_retry E W S path b) (\<lambda>item sent. \<exists>w. answered (info_call W path) (Some (InfoReply [w])) sent
     \<and> iw_path w = path \<and> into_item ''SYNO.FileStation.List'' ''getinfo'' w = Inr item)"
  unfolding get_info_with_retry_def
  by (rule gives_bind [OF gives_call [OF assms] gives_res]) (auto dest: info_reply)

lemma gives_facts:
  assumes "relogin_signs_in W"
  shows "gives (remote_file_facts E W S path) (\<lambda>found sent. \<forall>f. found = Some f \<longrightarrow> shown_file W path f sent)"
proof -
  have look: "gives (look_at E W S path) (\<lambda>found sent. \<forall>item. found = Some item \<longrightarrow>
      (\<exists>w. answered (info_call W path) (Some (InfoReply [w])) sent
     \<and> iw_path w = path \<and> into_item ''SYNO.FileStation.List'' ''getinfo'' w = Inr item))"
    unfolding gives_def
  proof (rule logsI)
    fix c r c'
    assume run: "look_at E W S path c = (r, c')"
    obtain r1 c1 where one: "get_info_with_retry E W S path True c = (r1, c1)" by fastforce
    have "c1 = c'" and r: "r = (case r1 of Inr item \<Rightarrow> Inr (Some item)
        | Inl e \<Rightarrow> if api_code e = Some 408 then Inr None else Inl e)"
      using run by (auto simp: look_at_def attempt_a_def one from_res_def)
    then show "\<exists>sent. c_log c' = c_log c @ sent \<and> (\<forall>v. r = Inr v \<longrightarrow> (\<forall>item. v = Some item \<longrightarrow>
        (\<exists>w. answered (info_call W path) (Some (InfoReply [w])) sent
         \<and> iw_path w = path \<and> into_item ''SYNO.FileStation.List'' ''getinfo'' w = Inr item)))"
      using logsD [OF gives_info [OF assms, unfolded gives_def] one]
      by (auto split: sum.splits if_splits)
  qed
  show ?thesis
    unfolding remote_file_facts_def
    by (rule gives_bind [OF look gives_res])
      (auto simp: shown_file_def map_r_def split: option.splits if_splits sum.splits)
qed

text \<open>A digest: DSM's own MD5 of that path, or the whole file read back.\<close>

definition shown_md5 :: "world \<Rightarrow> string \<Rightarrow> fingerprint \<Rightarrow> exchange list \<Rightarrow> bool" where
  "shown_md5 W path fp sent \<longleftrightarrow>
     (\<exists>taskid text. answered (md5_start_call W path) (Some (TaskReply taskid)) sent
        \<and> answered (status_call W ''SYNO.FileStation.MD5'' 2 taskid) (Some (Md5Reply True (Some text))) sent
        \<and> parse_hex text = Inr fp)"

definition shown_content :: "world \<Rightarrow> string \<Rightarrow> fingerprint \<Rightarrow> exchange list \<Rightarrow> bool" where
  "shown_content W path fp sent \<longleftrightarrow> answered (download_call W path) (Some (DownloadReply fp)) sent"

lemma grows_shown: "grows (shown_md5 W path fp)" "grows (shown_content W path fp)"
  unfolding shown_md5_def shown_content_def by (intro grows_rules)+

lemma fingerprint_reply: "fingerprint_of_reply reply = Inr fp \<Longrightarrow> reply = Some (DownloadReply fp)"
  by (auto simp: fingerprint_of_reply_def split: option.splits reply.splits)

lemma gives_fingerprint_once: "gives (remote_content_fingerprint_once W S path) (shown_content W path)"
  unfolding remote_content_fingerprint_once_def
proof (rule gives_signed)
  fix f
  assume f: "set (ac_fields (download_call W path)) \<subseteq> set f"
  let ?q = "download_call W path\<lparr>ac_fields := f\<rparr>"
  have sent: "gives (transmit W \<lparr>rq_api = ac_api ?q, rq_version = ac_version ?q, rq_method = ac_method ?q,
      rq_fields = ac_fields ?q, rq_headers = h, rq_timeout = t, rq_attempt = 1\<rparr>) (answered (download_call W path))" for h t
    using f by (auto simp: gives_def logs_def transmit_def ticked_def Let_def answered_def is_of_def)
  show "gives (bind_a (from_res (api_url S ''SYNO.FileStation.Download'')) (\<lambda>_.
     bind_a (session_headers W) (\<lambda>headers.
     bind_a (transmit W \<lparr>rq_api = ac_api ?q, rq_version = ac_version ?q, rq_method = ac_method ?q,
         rq_fields = ac_fields ?q, rq_headers = headers, rq_timeout = cl_operation_timeout S, rq_attempt = 1\<rparr>)
       (\<lambda>reply. from_res (fingerprint_of_reply reply))))) (shown_content W path)"
    by (rule gives_bind [OF gives_res gives_after_silent [OF silent_headers [of W]
          gives_bind [OF sent gives_res, where H = "shown_content W path"]]])
      (auto simp: shown_content_def dest: fingerprint_reply)
qed

lemma gives_fingerprint_tries: "gives (fingerprint_tries W S path left a) (shown_content W path)"
proof (induction left arbitrary: a)
  case 0
  have "gives (bind_a (check_cancelled W) (\<lambda>_. remote_content_fingerprint_once W S path)) (shown_content W path)"
    by (rule gives_after_silent [OF silent_check [of W] gives_fingerprint_once])
  then show ?case by (simp add: gives_def logs_def)
next
  case (Suc left)
  have rest: "gives (bind_a (retry_pause W a) (\<lambda>_. fingerprint_tries W S path left (a + 1))) (shown_content W path)"
    by (rule gives_after_silent [OF silent_pause [of W] Suc.IH])
  have "gives (\<lambda>c. case remote_content_fingerprint_once W S path c of
         (Inr fp, c) \<Rightarrow> (Inr fp, c)
       | (Inl e, c) \<Rightarrow>
           if retryable W e then
             bind_a (retry_pause W a) (\<lambda>_. fingerprint_tries W S path left (a + 1)) (count_retry c)
           else (Inl e, c)) (shown_content W path)" (is "gives ?m _")
    unfolding gives_def
  proof (rule logsI)
    fix c r c'
    assume run: "?m c = (r, c')"
    obtain r1 c1 where one: "remote_content_fingerprint_once W S path c = (r1, c1)" by fastforce
    obtain first where first: "c_log c1 = c_log c @ first" "\<forall>v. r1 = Inr v \<longrightarrow> shown_content W path v first"
      using logsD [OF gives_fingerprint_once [unfolded gives_def] one] by blast
    show "\<exists>sent. c_log c' = c_log c @ sent \<and> (\<forall>v. r = Inr v \<longrightarrow> shown_content W path v sent)"
    proof (cases "\<exists>e. r1 = Inl e \<and> retryable W e")
      case False
      then have "r = r1" "c' = c1" using run one by (auto split: sum.splits if_splits)
      then show ?thesis using first by blast
    next
      case True
      then have "bind_a (retry_pause W a) (\<lambda>_. fingerprint_tries W S path left (a + 1)) (count_retry c1) = (r, c')"
        using run one by auto
      from logsD [OF rest [unfolded gives_def] this] obtain extra
        where "c_log c' = c_log c1 @ extra" "\<forall>v. r = Inr v \<longrightarrow> shown_content W path v extra" by auto
      then show ?thesis
        using first growsD(1) [OF grows_shown(2)] by (intro exI [of _ "first @ extra"]) simp
    qed
  qed
  from gives_after_silent [OF silent_check [of W] this]
  show ?case by (simp add: gives_def logs_def)
qed

lemma gives_fingerprint:
  assumes "relogin_signs_in W"
  shows "gives (remote_content_fingerprint E W S path) (shown_content W path)"
  unfolding remote_content_fingerprint_def
  by (rule gives_bind [OF gives_res gives_recovery [OF assms gives_fingerprint_tries grows_shown(2)]]) simp

section \<open>Waits that may go on\<close>

definition gives_o :: "'a running \<Rightarrow> ('a \<Rightarrow> exchange list \<Rightarrow> bool) \<Rightarrow> bool" where
  "gives_o m F \<longleftrightarrow> (\<forall>c r c'. m c = Some (r, c') \<longrightarrow>
     (\<exists>sent. c_log c' = c_log c @ sent \<and> (\<forall>v. r = Inr v \<longrightarrow> F v sent)))"

lemma gives_oI:
  "(\<And>c r c'. m c = Some (r, c') \<Longrightarrow> \<exists>sent. c_log c' = c_log c @ sent \<and> (\<forall>v. r = Inr v \<longrightarrow> F v sent)) \<Longrightarrow> gives_o m F"
  by (simp add: gives_o_def)

lemma gives_oD:
  "gives_o m F \<Longrightarrow> m c = Some (r, c') \<Longrightarrow> \<exists>sent. c_log c' = c_log c @ sent \<and> (\<forall>v. r = Inr v \<longrightarrow> F v sent)"
  by (simp add: gives_o_def)

lemma gives_run: "gives m F \<Longrightarrow> gives_o (run_a m) F"
  by (simp add: gives_def logs_def gives_o_def run_a_def)

lemma gives_o_mono: "gives_o m F \<Longrightarrow> (\<And>v sent. F v sent \<Longrightarrow> G v sent) \<Longrightarrow> gives_o m G"
  unfolding gives_o_def by meson

lemma gives_o_bind:
  assumes m: "gives_o m F" and k: "\<And>x. gives_o (k x) (G x)"
    and both: "\<And>x v s t. F x s \<Longrightarrow> G x v t \<Longrightarrow> H v (s @ t)"
  shows "gives_o (bind_o m k) H"
proof (rule gives_oI)
  fix c r c'
  assume run: "bind_o m k c = Some (r, c')"
  obtain r1 c1 where one: "m c = Some (r1, c1)"
    using run by (cases "m c") (auto simp: bind_o_def)
  obtain s where s: "c_log c1 = c_log c @ s" "\<forall>v. r1 = Inr v \<longrightarrow> F v s" using gives_oD [OF m one] by blast
  show "\<exists>sent. c_log c' = c_log c @ sent \<and> (\<forall>v. r = Inr v \<longrightarrow> H v sent)"
  proof (cases r1)
    case (Inl e)
    then show ?thesis using run one s by (auto simp: bind_o_def)
  next
    case (Inr x)
    then have "k x c1 = Some (r, c')" using run one by (simp add: bind_o_def)
    from gives_oD [OF k this] obtain t where "c_log c' = c_log c1 @ t" "\<forall>v. r = Inr v \<longrightarrow> G x v t" by blast
    then show ?thesis using s Inr both by (intro exI [of _ "s @ t"]) auto
  qed
qed

lemma gives_o_after_silent:
  "silent W m \<Longrightarrow> (\<And>x. gives_o (k x) F) \<Longrightarrow> gives_o (bind_o (run_a m) k) F"
  by (rule gives_o_bind [OF gives_run [OF gives_silent]]) auto

lemma gives_o_res: "gives_o (run_a (from_res r)) (\<lambda>v sent. sent = [] \<and> r = Inr v)"
  and gives_o_give: "gives_o (run_a (give x)) (\<lambda>v sent. sent = [] \<and> v = x)"
  and gives_o_fail: "gives_o (run_a (fail e)) G"
  by (intro gives_run gives_res gives_give gives_fail)+

text \<open>What the log is extended by, when nothing is known of the result.\<close>

lemma stop_extends:
  assumes "relogin_signs_in W"
  shows "\<exists>sent. c_log (stop_task E W S api version taskid c) = c_log c @ sent"
proof -
  let ?q = "request_of api version ''stop'' [(''taskid'', wd_json W taskid)]"
  obtain r c1 where run: "call_bounded_recovering E W S ?q stop_request_timeout c = (r, c1)" by fastforce
  have "gives (call_bounded_recovering E W S ?q stop_request_timeout) (answered ?q)"
    unfolding call_bounded_recovering_def by (rule gives_recovering [OF assms gives_attempt])
  from logsD [OF this [unfolded gives_def] run] obtain sent where "c_log c1 = c_log c @ sent" by blast
  then show ?thesis by (auto simp: stop_task_def run split: sum.splits)
qed

lemma stop_with_extends:
  "relogin_signs_in W \<Longrightarrow> stop_with E W S api version taskid e c = (r, c') \<Longrightarrow>
   \<exists>sent. c_log c' = c_log c @ sent \<and> r = Inl e"
  using stop_extends by (auto simp: stop_with_def)

lemma ticked_log [simp]: "c_log (ticked c) = c_log c"
  by (simp add: ticked_def)

text \<open>A wait that ends well ends on an answer the judge took for the end.\<close>

definition task_judged :: "world \<Rightarrow> string \<Rightarrow> nat \<Rightarrow> string \<Rightarrow> (reply option res \<Rightarrow> 'a poll) \<Rightarrow> 'a \<Rightarrow> exchange list \<Rightarrow> bool" where
  "task_judged W api version taskid judge v sent \<longleftrightarrow>
     (\<exists>reply. answered (status_call W api version taskid) reply sent \<and> judge (Inr reply) = PollDone (Inr v))"

lemma grows_judged: "grows (task_judged W api version taskid judge v)"
  unfolding task_judged_def by (intro grows_rules)

lemma gives_await:
  assumes signs: "relogin_signs_in W" and judge: "\<And>e v. judge (Inl e) \<noteq> PollDone (Inr v)"
  shows "gives_o (await_task E W S api version taskid what judge deadline longest interval polls)
           (task_judged W api version taskid judge)"
proof (induction polls arbitrary: interval)
  case 0
  then show ?case by (simp add: gives_o_def)
next
  case (Suc polls)
  show ?case
  proof (rule gives_oI)
    fix c r c'
    assume run: "await_task E W S api version taskid what judge deadline longest interval (Suc polls) c = Some (r, c')"
    let ?c1 = "ticked c" let ?c2 = "ticked ?c1" let ?c3 = "ticked ?c2"
    let ?t = "min (cl_control_timeout S) (deadline - wd_now W (c_tick ?c2))"
    let ?goal = "\<exists>sent. c_log c' = c_log c @ sent \<and> (\<forall>v. r = Inr v \<longrightarrow> task_judged W api version taskid judge v sent)"
    have stopped: ?goal if "c_log k = c_log c @ s" "stop_with E W S api version taskid e k = (r, c')" for e k s
      using stop_with_extends [OF signs that(2)] that(1) by auto
    show ?goal
    proof (cases "wd_cancelled W (c_tick c) \<or> deadline \<le> wd_now W (c_tick ?c1)")
      case True
      then show ?thesis using run by (auto simp: Let_def split: if_splits dest!: stop_with_extends [OF signs])
    next
      case False
      obtain r1 k where poll: "call_bounded_with_retry E W S (status_call W api version taskid) ?t ?c3 = (r1, k)" by fastforce
      obtain s where s: "c_log k = c_log c @ s" "\<forall>v. r1 = Inr v \<longrightarrow> answered (status_call W api version taskid) v s"
        using logsD [OF gives_call_retry [OF signs, unfolded gives_def] poll] by auto
      show ?thesis
      proof (cases "judge r1")
        case (PollDone x)
        then have "r = x" "c' = k" using run False poll by (simp_all add: Let_def)
        moreover have "task_judged W api version taskid judge v s" if x: "x = Inr v" for v
        proof -
          obtain reply where r1: "r1 = Inr reply" using judge PollDone x by (cases r1) auto
          then have "answered (status_call W api version taskid) reply s" using s(2) by simp
          then show ?thesis using PollDone x r1 by (auto simp: task_judged_def)
        qed
        ultimately show ?thesis using s(1) by auto
      next
        case (PollStop e)
        then have "stop_with E W S api version taskid e k = (r, c')" using run False poll by (simp add: Let_def)
        then show ?thesis using stopped s(1) by blast
      next
        case PollAgain
        obtain r2 k2 where pause: "sleep_cancellable W interval k = (r2, k2)" by fastforce
        have k2: "c_log k2 = c_log c @ s" using pause s(1) by (auto simp: sleep_cancellable_def)
        show ?thesis
        proof (cases r2)
          case (Inl e)
          then have "stop_with E W S api version taskid e k2 = (r, c')"
            using run False poll PollAgain pause by (simp add: Let_def)
          then show ?thesis using stopped k2 by blast
        next
          case (Inr u)
          then have "await_task E W S api version taskid what judge deadline longest (min (2 * interval) longest) polls k2 = Some (r, c')"
            using run False poll PollAgain pause by (simp add: Let_def)
          from gives_oD [OF Suc.IH this] obtain t where
            "c_log c' = c_log k2 @ t" "\<forall>v. r = Inr v \<longrightarrow> task_judged W api version taskid judge v t" by blast
          then show ?thesis using k2 growsD(1) [OF grows_judged] by (intro exI [of _ "s @ t"]) auto
        qed
      qed
    qed
  qed
qed

lemma md5_judged: "judge_md5 (Inr reply) = PollDone (Inr fp) \<Longrightarrow> \<exists>text. reply = Some (Md5Reply True (Some text)) \<and> parse_hex text = Inr fp"
  by (auto simp: judge_md5_def split: option.splits reply.splits if_splits)

lemma judge_md5_error: "judge_md5 (Inl e) \<noteq> PollDone (Inr v)"
  by (simp add: judge_md5_def)

lemma task_reply: "task_of_reply operation reply = Inr taskid \<Longrightarrow> reply = Some (TaskReply taskid)"
  by (auto simp: task_of_reply_def map_r_def split: option.splits reply.splits sum.splits)

lemma gives_md5_start:
  assumes "relogin_signs_in W"
  shows "gives (bind_a (from_res (validate_api S ''SYNO.FileStation.MD5'' 2)) (\<lambda>_.
           bind_a (check_cancelled W) (\<lambda>_.
           bind_a (acquire_slot W) (\<lambda>_.
           bind_a (clock W) (\<lambda>now.
           bind_a (call_bounded_with_retry E W S (md5_start_call W path) (cl_control_timeout S)) (\<lambda>reply.
           bind_a (from_res (task_of_reply ''SYNO.FileStation.MD5.start'' reply)) (\<lambda>taskid.
             give (taskid, now + cl_operation_timeout S))))))))
         (\<lambda>(taskid, deadline) sent. answered (md5_start_call W path) (Some (TaskReply taskid)) sent)" (is "gives _ ?F")
proof -
  have last: "gives (bind_a (call_bounded_with_retry E W S (md5_start_call W path) (cl_control_timeout S)) (\<lambda>reply.
           bind_a (from_res (task_of_reply ''SYNO.FileStation.MD5.start'' reply)) (\<lambda>taskid.
             give (taskid, now + cl_operation_timeout S)))) ?F" for now
  proof (rule gives_bind [OF gives_call_retry [OF assms]])
    fix reply
    show "gives (bind_a (from_res (task_of_reply ''SYNO.FileStation.MD5.start'' reply)) (\<lambda>taskid.
             give (taskid, now + cl_operation_timeout S)))
        (\<lambda>v s. s = [] \<and> task_of_reply ''SYNO.FileStation.MD5.start'' reply = Inr (fst v))"
      by (rule gives_bind [OF gives_res gives_give]) auto
  qed (auto dest: task_reply)
  show ?thesis
    unfolding acquire_slot_def
    by (rule gives_bind [OF gives_res gives_after_silent [OF silent_check [of W]
        gives_after_silent [OF silent_sleep [of W] gives_after_silent [OF silent_clock [of W] last]]]]) simp
qed

lemma gives_md5:
  assumes signs: "relogin_signs_in W"
  shows "gives_o (remote_content_md5 E W S polls path) (shown_md5 W path)"
proof (rule gives_oI)
  fix c r c'
  assume run: "remote_content_md5 E W S polls path c = Some (r, c')"
  show "\<exists>sent. c_log c' = c_log c @ sent \<and> (\<forall>v. r = Inr v \<longrightarrow> shown_md5 W path v sent)"
  proof (cases "bind_a (from_res (validate_api S ''SYNO.FileStation.MD5'' 2)) (\<lambda>_.
           bind_a (check_cancelled W) (\<lambda>_.
           bind_a (acquire_slot W) (\<lambda>_.
           bind_a (clock W) (\<lambda>now.
           bind_a (call_bounded_with_retry E W S (md5_start_call W path) (cl_control_timeout S)) (\<lambda>reply.
           bind_a (from_res (task_of_reply ''SYNO.FileStation.MD5.start'' reply)) (\<lambda>taskid.
             give (taskid, now + cl_operation_timeout S))))))) c")
    case (Pair r1 k)
    note started = logsD [OF gives_md5_start [OF signs, unfolded gives_def] Pair]
    show ?thesis
    proof (cases r1)
      case (Inl e)
      then show ?thesis using run started by (auto simp: remote_content_md5_def Pair)
    next
      case (Inr task)
      obtain taskid deadline where task: "task = (taskid, deadline)" by fastforce
      obtain s where s: "c_log k = c_log c @ s" "answered (md5_start_call W path) (Some (TaskReply taskid)) s"
        using started Inr task by auto
      have "await_task E W S ''SYNO.FileStation.MD5'' 2 taskid ''remote MD5 calculation'' judge_md5
            deadline md5_longest_poll md5_first_poll polls k = Some (r, c')"
        using run Inr task by (simp add: remote_content_md5_def Pair)
      from gives_oD [OF gives_await [where judge = judge_md5, OF signs judge_md5_error] this] obtain t where
        t: "c_log c' = c_log k @ t" "\<forall>v. r = Inr v \<longrightarrow> task_judged W ''SYNO.FileStation.MD5'' 2 taskid judge_md5 v t"
        by blast
      have "shown_md5 W path v (s @ t)" if r: "r = Inr v" for v
      proof -
        obtain reply where reply: "answered (status_call W ''SYNO.FileStation.MD5'' 2 taskid) reply t"
            and judged: "judge_md5 (Inr reply) = PollDone (Inr v)"
          using t(2) r by (auto simp: task_judged_def)
        from md5_judged [OF judged] obtain hex where "reply = Some (Md5Reply True (Some hex))" "parse_hex hex = Inr v"
          by blast
        then show ?thesis
          using growsD(2) [OF grows_answered s(2), of t] growsD(1) [OF grows_answered reply, of s]
          unfolding shown_md5_def by blast
      qed
      then show ?thesis using s t by (intro exI [of _ "s @ t"]) auto
    qed
  qed
qed

section \<open>Uploads that landed\<close>

definition shown_digest :: "world \<Rightarrow> string \<Rightarrow> fingerprint \<Rightarrow> exchange list \<Rightarrow> bool" where
  "shown_digest W path expected sent \<longleftrightarrow>
     (\<exists>fp. shown_md5 W path fp sent \<and> md5_matches expected fp)
     \<or> (has_full_proof expected \<and> shown_content W path expected sent)"

definition landed :: "world \<Rightarrow> local_entry \<Rightarrow> string \<Rightarrow> exchange list \<Rightarrow> bool" where
  "landed W local_file path sent \<longleftrightarrow>
     (\<exists>f. shown_file W path f sent \<and> rf_size f = l_size local_file)
     \<and> (\<forall>expected. l_md5 local_file = Some expected \<longrightarrow> shown_digest W path expected sent)"

lemma grows_all: "(\<And>x. P x \<Longrightarrow> grows (K x)) \<Longrightarrow> grows (\<lambda>sent. \<forall>x. P x \<longrightarrow> K x sent)"
  unfolding grows_def by blast

lemma grows_digest: "grows (shown_digest W path expected)"
  unfolding shown_digest_def by (intro grows_rules grows_shown)

lemma grows_landed: "grows (landed W local_file path)"
  unfolding landed_def by (intro grows_rules grows_all grows_shown_file grows_digest)

lemma gives_digest:
  assumes "relogin_signs_in W"
  shows "gives_o (uploaded_digest_matches E W S polls path expected)
           (\<lambda>same sent. same \<longrightarrow> shown_digest W path expected sent)" (is "gives_o _ ?F")
proof -
  have fetched: "gives_o (bind_o (run_a (remote_content_fingerprint E W S path)) (\<lambda>actual.
               run_a (give (content_evidence_matches expected actual)))) ?F"
    by (rule gives_o_bind [OF gives_run [OF gives_fingerprint [OF assms]] gives_o_give])
      (auto simp: shown_digest_def evidence_iff)
  have asked: "gives_o (bind_o (remote_content_md5 E W S polls path) (\<lambda>actual.
               run_a (give (md5_matches expected actual)))) ?F"
    by (rule gives_o_bind [OF gives_md5 [OF assms] gives_o_give]) (auto simp: shown_digest_def)
  have none: "gives_o (run_a (give False)) ?F"
    by (rule gives_o_mono [OF gives_o_give]) simp
  show ?thesis
    unfolding uploaded_digest_matches_def
    by (rule gives_o_after_silent [OF silent_check [of W]])
      (use fetched asked none in \<open>auto split: sum.splits\<close>)
qed

lemma gives_landed_probe:
  assumes "relogin_signs_in W" and "l_md5 local_file = Some expected"
  shows "gives_o (earlier_attempt_landed E W S polls local_file path expected)
           (\<lambda>there sent. there \<longrightarrow> landed W local_file path sent)" (is "gives_o _ ?F")
proof -
  have no: "gives_o (run_a (give False)) G" if "\<And>sent. G False sent" for G :: "bool \<Rightarrow> exchange list \<Rightarrow> bool"
    using that by (intro gives_o_mono [OF gives_o_give]) auto
  have yes: "gives_o (run_a (if same then noting local_file reported True else give False))
      (\<lambda>v sent. sent = [] \<and> v = same)" for same reported
    by (auto simp: gives_o_def run_a_def noting_def give_def note_uploaded_mtime_def split: option.splits)
  have probe: "gives_o (bind_o (uploaded_digest_matches E W S polls path expected) (\<lambda>same.
               run_a (if same then noting local_file (rf_mtime f) True else give False)))
      (\<lambda>v sent. v \<longrightarrow> shown_digest W path expected sent)" for f
    by (rule gives_o_bind [OF gives_digest [OF assms(1)] yes]) auto
  have found: "gives_o (case found of
         None \<Rightarrow> run_a (give False)
       | Some f \<Rightarrow>
           if rf_size f \<noteq> l_size local_file \<or> \<not> time_kept local_file (rf_mtime f) then run_a (give False)
           else
             bind_o (uploaded_digest_matches E W S polls path expected) (\<lambda>same.
               run_a (if same then noting local_file (rf_mtime f) True else give False)))
      (\<lambda>v sent. v \<longrightarrow> (\<exists>f. found = Some f \<and> rf_size f = l_size local_file) \<and> shown_digest W path expected sent)"
    for found
    using probe by (auto intro: no elim!: gives_o_mono split: option.splits)
  show ?thesis
    unfolding earlier_attempt_landed_def
    by (rule gives_o_after_silent [OF silent_check [of W]],
        rule gives_o_bind [OF gives_run [OF gives_facts [OF assms(1)]] found])
      (auto simp: landed_def assms(2) intro: growsD [OF grows_shown_file] growsD [OF grows_digest])
qed

end
