(* ===== verification/ClientReads.thy ===== *)
theory ClientReads
  imports UploadFacts
begin

text \<open>
  What an upload sends besides its bytes: every check of what is on the NAS, and every probe after a
  failed attempt, only looks.
\<close>

section \<open>Requests that only look\<close>

definition looking :: "exchange \<Rightarrow> bool" where
  "looking x \<longleftrightarrow> rq_api (fst x) \<in> {''SYNO.API.Auth'', ''SYNO.FileStation.List'', ''SYNO.FileStation.MD5'',
     ''SYNO.FileStation.Download''}"

lemma housekeeping_looks: "housekeeping x \<Longrightarrow> looking x"
  by (auto simp: housekeeping_def looking_def)

lemma sends_only_recovery:
  assumes "relogin_signs_in W" and "sends_only F m" and "\<And>x. housekeeping x \<Longrightarrow> F x"
  shows "sends_only F (with_session_recovery E W S m)"
  using recovery_logs [OF assms(1) assms(2) [unfolded sends_only_def], of E S] unfolding sends_only_def
  by (rule logs_mono) (use assms(3) in \<open>auto simp: recovered_def list_all_iff\<close>)

lemma sends_only_recovering:
  assumes "relogin_signs_in W" and "\<And>f. sends_only F (send (q\<lparr>ac_fields := f\<rparr>))" and "\<And>x. housekeeping x \<Longrightarrow> F x"
  shows "sends_only F (recovering_call E W S q send)"
  unfolding recovering_call_def
  by (intro sends_only_bind sends_only_res sends_only_recovery sends_only_signed assms)

lemma sends_only_tries:
  assumes "\<And>x. is_of q x \<Longrightarrow> F x"
  shows "sends_only F (send_form_with_retry_bounded W S (q\<lparr>ac_fields := f\<rparr>) allow_retry t)"
  unfolding sends_only_def send_form_with_retry_bounded_def
  by (rule logs_mono [OF tries_logs]) (auto simp: tried_def intro: list.pred_mono_strong assms)

lemma sends_only_call:
  assumes "relogin_signs_in W" and "\<And>x. is_of q x \<Longrightarrow> F x" and "\<And>x. housekeeping x \<Longrightarrow> F x"
  shows "sends_only F (call_api E W S q allow_retry)"
    and "sends_only F (call_bounded_with_retry E W S q t)"
    and "sends_only F (call_bounded_recovering E W S q t)"
proof -
  have one: "sends_only F (send_attempt W S (q\<lparr>ac_fields := f\<rparr>) t' n)" for f t' n
    by (rule sends_only_attempt) (auto intro: assms(2))
  show "sends_only F (call_api E W S q allow_retry)" "sends_only F (call_bounded_with_retry E W S q t)"
    "sends_only F (call_bounded_recovering E W S q t)"
    unfolding call_api_def call_bounded_with_retry_def call_bounded_recovering_def
    by (rule sends_only_recovering [OF assms(1) _ assms(3)], rule one sends_only_tries [OF assms(2)], assumption+)+
qed

lemma sends_only_attempt_a:
  "sends_only F m \<Longrightarrow> (\<And>r. sends_only F (k r)) \<Longrightarrow> sends_only F (attempt_a m k)"
  unfolding sends_only_def
proof (rule logsI)
  fix c r c'
  assume m: "logs m (\<lambda>_. list_all F)" and k: "\<And>r. logs (k r) (\<lambda>_. list_all F)" and run: "attempt_a m k c = (r, c')"
  obtain r1 c1 where one: "m c = (r1, c1)" by fastforce
  obtain s where s: "c_log c1 = c_log c @ s" "list_all F s" using logsD [OF m one] by blast
  have "k r1 c1 = (r, c')" using run one by (simp add: attempt_a_def)
  from logsD [OF k this] obtain t where "c_log c' = c_log c1 @ t" "list_all F t" by blast
  then show "\<exists>sent. c_log c' = c_log c @ sent \<and> list_all F sent"
    using s by (intro exI [of _ "s @ t"]) simp
qed

definition looks :: "'a action \<Rightarrow> bool" where
  "looks m \<longleftrightarrow> sends_only looking m"

lemma looks_bind: "looks m \<Longrightarrow> (\<And>x. looks (k x)) \<Longrightarrow> looks (bind_a m k)"
  unfolding looks_def by (rule sends_only_bind)

lemma looks_attempt: "looks m \<Longrightarrow> (\<And>r. looks (k r)) \<Longrightarrow> looks (attempt_a m k)"
  unfolding looks_def by (rule sends_only_attempt_a)

lemma looks_simps [simp]: "looks (from_res r)" "looks (fail e)" "looks (give x)"
  by (simp_all add: looks_def)

lemma looks_silent: "silent W m \<Longrightarrow> looks m"
  unfolding looks_def by (rule silent_sends_only)

lemma looks_simple [simp]: "looks (check_cancelled W)" "looks (is_cancelled W)" "looks (clock W)" "looks (sleep_cancellable W d)"
  "looks (retry_pause W n)" "looks (session_headers W)"
  by (rule looks_silent, rule sends_nothing)+

lemma looks_call:
  assumes "relogin_signs_in W" and "\<And>x. is_of q x \<Longrightarrow> looking x"
  shows "looks (call_api E W S q allow_retry)" "looks (call_bounded_with_retry E W S q t)"
    "looks (call_bounded_recovering E W S q t)"
  unfolding looks_def by (intro sends_only_call assms housekeeping_looks; assumption)+

lemma looking_calls:
  "is_of (info_call W path) x \<Longrightarrow> looking x" "is_of (md5_start_call W path) x \<Longrightarrow> looking x"
  "is_of (status_call W ''SYNO.FileStation.MD5'' v t) x \<Longrightarrow> looking x"
  "is_of (request_of ''SYNO.FileStation.MD5'' v m f) x \<Longrightarrow> looking x"
  "is_of (download_call W path) x \<Longrightarrow> looking x"
  by (auto simp: is_of_def info_call_def md5_start_call_def status_call_def download_call_def request_of_def looking_def)

lemma looks_facts:
  assumes "relogin_signs_in W"
  shows "looks (remote_file_facts E W S path)"
proof -
  have "looks (look_at E W S path)"
    unfolding look_at_def get_info_with_retry_def
    by (intro looks_attempt looks_bind looks_call assms looks_simps) (rule looking_calls)
  then show ?thesis
    unfolding remote_file_facts_def by (intro looks_bind looks_simps)
qed

section \<open>Digests\<close>

lemma looks_fingerprint_once: "looks (remote_content_fingerprint_once W S path)"
  unfolding remote_content_fingerprint_once_def looks_def
proof (rule sends_only_signed)
  fix f
  show "sends_only looking (bind_a (from_res (api_url S ''SYNO.FileStation.Download'')) (\<lambda>_.
     bind_a (session_headers W) (\<lambda>headers.
     bind_a (transmit W \<lparr>rq_api = ac_api (download_call W path\<lparr>ac_fields := f\<rparr>),
         rq_version = ac_version (download_call W path\<lparr>ac_fields := f\<rparr>),
         rq_method = ac_method (download_call W path\<lparr>ac_fields := f\<rparr>),
         rq_fields = ac_fields (download_call W path\<lparr>ac_fields := f\<rparr>), rq_headers = headers,
         rq_timeout = cl_operation_timeout S, rq_attempt = 1\<rparr>)
       (\<lambda>reply. from_res (fingerprint_of_reply reply)))))"
    by (intro sends_only_bind sends_only_res looks_simple [unfolded looks_def])
      (auto simp: sends_only_def logs_def transmit_def Let_def ticked_def looking_def download_call_def request_of_def)
qed

lemma looks_count:
  assumes "looks m"
  shows "looks (\<lambda>c. m (count_retry c))"
  unfolding looks_def sends_only_def
proof (rule logsI)
  fix c r c'
  assume "m (count_retry c) = (r, c')"
  from logsD [OF assms [unfolded looks_def sends_only_def] this]
  show "\<exists>sent. c_log c' = c_log c @ sent \<and> list_all looking sent" by simp
qed

lemma looks_cong: "(\<And>c. m c = m' c) \<Longrightarrow> looks m' \<Longrightarrow> looks m"
  by (simp add: looks_def sends_only_def logs_def)

lemma looks_fingerprint_tries: "looks (fingerprint_tries W S path left attempt)"
proof (induction left arbitrary: attempt)
  case 0
  show ?case
    by (rule looks_cong [OF fingerprint_tries.simps(1)]) (intro looks_bind looks_simple looks_fingerprint_once)
next
  case (Suc left)
  let ?k = "\<lambda>r. case r of Inr fp \<Rightarrow> give fp
     | Inl e \<Rightarrow> if retryable W e then
           (\<lambda>c. bind_a (retry_pause W attempt) (\<lambda>_. fingerprint_tries W S path left (attempt + 1)) (count_retry c))
         else fail e"
  have "looks (attempt_a (remote_content_fingerprint_once W S path) ?k)"
  proof (rule looks_attempt [OF looks_fingerprint_once])
    fix r
    show "looks (?k r)"
      by (cases r) (auto intro!: looks_count looks_bind Suc.IH)
  qed
  then have "looks (bind_a (check_cancelled W) (\<lambda>_. attempt_a (remote_content_fingerprint_once W S path) ?k))"
    by (intro looks_bind looks_simple)
  then show ?case
    by (rule looks_cong [rotated])
      (simp add: bind_a_def attempt_a_def give_def fail_def cong: if_cong split: prod.split sum.split)
qed

lemma looks_fingerprint:
  assumes "relogin_signs_in W"
  shows "looks (remote_content_fingerprint E W S path)"
  unfolding remote_content_fingerprint_def
  by (intro looks_bind looks_simps)
    (simp add: looks_def sends_only_recovery assms looks_fingerprint_tries [unfolded looks_def] housekeeping_looks)

section \<open>Running actions\<close>

definition looks_o :: "'a running \<Rightarrow> bool" where
  "looks_o m \<longleftrightarrow> (\<forall>c r c'. m c = Some (r, c') \<longrightarrow> (\<exists>sent. c_log c' = c_log c @ sent \<and> list_all looking sent))"

lemma looksD: "looks m \<Longrightarrow> m c = (r, c') \<Longrightarrow> \<exists>sent. c_log c' = c_log c @ sent \<and> list_all looking sent"
  unfolding looks_def sends_only_def by (rule logsD)

lemma looks_oD: "looks_o m \<Longrightarrow> m c = Some (r, c') \<Longrightarrow> \<exists>sent. c_log c' = c_log c @ sent \<and> list_all looking sent"
  by (simp add: looks_o_def)

lemma looks_oI:
  "(\<And>c r c'. m c = Some (r, c') \<Longrightarrow> \<exists>sent. c_log c' = c_log c @ sent \<and> list_all looking sent) \<Longrightarrow> looks_o m"
  by (simp add: looks_o_def)

lemma looked_twice:
  "\<exists>s. c_log b = c_log a @ s \<and> list_all looking s \<Longrightarrow> \<exists>t. c_log c = c_log b @ t \<and> list_all looking t \<Longrightarrow>
     \<exists>sent. c_log c = c_log a @ sent \<and> list_all looking sent"
  by (elim exE conjE) (rule exI, auto)

lemma looks_run: "looks m \<Longrightarrow> looks_o (run_a m)"
  by (auto simp: run_a_def intro!: looks_oI dest: looksD)

lemma looks_o_bind:
  assumes "looks_o m" and "\<And>x. looks_o (k x)"
  shows "looks_o (bind_o m k)"
proof (rule looks_oI)
  fix c r c'
  assume run: "bind_o m k c = Some (r, c')"
  obtain r1 c1 where one: "m c = Some (r1, c1)"
    using run by (cases "m c") (auto simp: bind_o_def)
  note first = looks_oD [OF assms(1) one]
  show "\<exists>sent. c_log c' = c_log c @ sent \<and> list_all looking sent"
  proof (cases r1)
    case (Inl e)
    then show ?thesis using run one first by (simp add: bind_o_def)
  next
    case (Inr x)
    then have "k x c1 = Some (r, c')" using run one by (simp add: bind_o_def)
    from looked_twice [OF first looks_oD [OF assms(2) this]] show ?thesis .
  qed
qed

lemma looks_o_attempt:
  assumes "looks_o m" and "\<And>r. looks_o (k r)"
  shows "looks_o (attempt_o m k)"
proof (rule looks_oI)
  fix c r c'
  assume run: "attempt_o m k c = Some (r, c')"
  obtain r1 c1 where one: "m c = Some (r1, c1)"
    using run by (cases "m c") (auto simp: attempt_o_def)
  then have "k r1 c1 = Some (r, c')" using run by (simp add: attempt_o_def)
  from looked_twice [OF looks_oD [OF assms(1) one] looks_oD [OF assms(2) this]]
  show "\<exists>sent. c_log c' = c_log c @ sent \<and> list_all looking sent" .
qed

lemma looks_stop:
  assumes "relogin_signs_in W"
  shows "looks (stop_with E W S ''SYNO.FileStation.MD5'' v taskid e)"
  unfolding looks_def sends_only_def
proof (rule logsI)
  fix c r c'
  assume run: "stop_with E W S ''SYNO.FileStation.MD5'' v taskid e c = (r, c')"
  let ?q = "request_of ''SYNO.FileStation.MD5'' v ''stop'' [(''taskid'', wd_json W taskid)]"
  obtain r1 c1 where one: "call_bounded_recovering E W S ?q stop_request_timeout c = (r1, c1)" by fastforce
  have "looks (call_bounded_recovering E W S ?q stop_request_timeout)"
    by (rule looks_call(3) [OF assms looking_calls(4)])
  from looksD [OF this one] show "\<exists>sent. c_log c' = c_log c @ sent \<and> list_all looking sent"
    using run one by (auto simp: stop_with_def stop_task_def split: sum.splits)
qed

lemma looks_await:
  assumes signs: "relogin_signs_in W"
  shows "looks_o (await_task E W S ''SYNO.FileStation.MD5'' v taskid what judge deadline longest interval polls)"
proof (induction polls arbitrary: interval)
  case 0
  show ?case by (simp add: looks_o_def)
next
  case (Suc polls)
  let ?stop = "stop_with E W S ''SYNO.FileStation.MD5'' v taskid"
  let ?call = "\<lambda>d. call_bounded_with_retry E W S (status_call W ''SYNO.FileStation.MD5'' v taskid) d"
  have stopped: "\<exists>sent. c_log c' = c_log c @ sent \<and> list_all looking sent" if "?stop e c = (r, c')" for e c r c'
    by (rule looksD [OF looks_stop [OF signs] that])
  show ?case
  proof (rule looks_oI)
    fix c r c'
    assume run: "await_task E W S ''SYNO.FileStation.MD5'' v taskid what judge deadline longest interval (Suc polls) c
      = Some (r, c')"
    define now where "now = wd_now W (c_tick (ticked (ticked c)))"
    define c3 where "c3 = ticked (ticked (ticked c))"
    have same: "c_log c3 = c_log c" by (simp add: c3_def ticked_def)
    show "\<exists>sent. c_log c' = c_log c @ sent \<and> list_all looking sent"
    proof (cases "wd_cancelled W (c_tick c) \<or> deadline \<le> wd_now W (c_tick (ticked c))")
      case True
      then obtain e k where "?stop e k = (r, c')" "c_log k = c_log c"
        using run by (auto simp: Let_def ticked_def split: if_splits)
      with stopped show ?thesis by metis
    next
      case False
      obtain r1 c4 where one: "?call (min (cl_control_timeout S) (deadline - now)) c3 = (r1, c4)" by fastforce
      have "looks (?call (min (cl_control_timeout S) (deadline - now)))"
        by (rule looks_call(2) [OF signs looking_calls(3)])
      note asked = looksD [OF this one]
      note step = run [unfolded await_task.simps Let_def, folded c3_def now_def, unfolded one prod.case]
      have "\<exists>t. c_log c' = c_log c4 @ t \<and> list_all looking t"
      proof (cases "judge r1")
        case (PollDone x)
        then show ?thesis using step False by auto
      next
        case (PollStop e)
        then have "?stop e c4 = (r, c')" using step False by auto
        then show ?thesis by (rule stopped)
      next
        case PollAgain
        obtain r2 c5 where slept: "sleep_cancellable W interval c4 = (r2, c5)" by fastforce
        then have log: "c_log c5 = c_log c4" by (auto simp: sleep_cancellable_def ticked_def)
        show ?thesis
        proof (cases r2)
          case (Inl e)
          then have "?stop e c5 = (r, c')" using step False PollAgain slept by auto
          from stopped [OF this] log show ?thesis by simp
        next
          case (Inr u)
          then have "await_task E W S ''SYNO.FileStation.MD5'' v taskid what judge deadline longest
              (min (2 * interval) longest) polls c5 = Some (r, c')"
            using step False PollAgain slept by auto
          from looks_oD [OF Suc.IH this] log show ?thesis by simp
        qed
      qed
      from looked_twice [OF asked this] same show ?thesis by simp
    qed
  qed
qed

lemma looks_md5:
  assumes signs: "relogin_signs_in W"
  shows "looks_o (remote_content_md5 E W S polls path)"
proof -
  have start: "looks (bind_a (from_res (validate_api S ''SYNO.FileStation.MD5'' 2)) (\<lambda>_.
           bind_a (check_cancelled W) (\<lambda>_.
           bind_a (acquire_slot W) (\<lambda>_.
           bind_a (clock W) (\<lambda>now.
           bind_a (call_bounded_with_retry E W S (md5_start_call W path) (cl_control_timeout S)) (\<lambda>reply.
           bind_a (from_res (task_of_reply ''SYNO.FileStation.MD5.start'' reply)) (\<lambda>taskid.
             give (taskid, now + cl_operation_timeout S))))))))"
    unfolding acquire_slot_def
    by (intro looks_bind looks_simps looks_simple looks_call signs) (rule looking_calls)
  have "looks_o (bind_o (run_a (bind_a (from_res (validate_api S ''SYNO.FileStation.MD5'' 2)) (\<lambda>_.
           bind_a (check_cancelled W) (\<lambda>_.
           bind_a (acquire_slot W) (\<lambda>_.
           bind_a (clock W) (\<lambda>now.
           bind_a (call_bounded_with_retry E W S (md5_start_call W path) (cl_control_timeout S)) (\<lambda>reply.
           bind_a (from_res (task_of_reply ''SYNO.FileStation.MD5.start'' reply)) (\<lambda>taskid.
             give (taskid, now + cl_operation_timeout S)))))))))
        (\<lambda>(taskid, deadline). await_task E W S ''SYNO.FileStation.MD5'' 2 taskid ''remote MD5 calculation'' judge_md5
            deadline md5_longest_poll md5_first_poll polls))"
    by (rule looks_o_bind [OF looks_run [OF start]]) (auto intro: looks_await [OF signs])
  then show ?thesis
    by (simp add: looks_o_def remote_content_md5_def bind_o_def run_a_def cong: if_cong split: prod.splits sum.splits)
qed

end
