(* ===== verification/UploadLanded.thy ===== *)
theory UploadLanded
  imports ClientReads
begin

text \<open>
  A successful upload has landed: the account the NAS gives of the file after the last send names its
  size and its digest. Likewise for a copy that DSM made.
\<close>

section \<open>The parts of an upload\<close>

lemma silent_local [sends_nothing]: "gives (local_snapshot W local_file) (\<lambda>v sent. sent = [])"
  and silent_open [sends_nothing]: "gives (open_snapshot W local_file) (\<lambda>v sent. sent = [])"
  and silent_hash [sends_nothing]: "gives (hash_snapshot W local_file) (\<lambda>v sent. sent = [])"
  by (auto simp: gives_def logs_def local_snapshot_def open_snapshot_def hash_snapshot_def split: sum.splits)

lemma gives_quiet: "gives m (\<lambda>v sent. sent = []) \<Longrightarrow> (\<And>x. gives (k x) F) \<Longrightarrow> gives (bind_a m k) F"
  by (rule gives_bind [where F = "\<lambda>v sent. sent = []" and G = "\<lambda>_. F"]) auto

lemma gives_o_quiet: "gives m (\<lambda>v sent. sent = []) \<Longrightarrow> (\<And>x. gives_o (k x) F) \<Longrightarrow> gives_o (bind_o (run_a m) k) F"
  by (rule gives_o_bind [OF gives_run, where F = "\<lambda>v sent. sent = []" and G = "\<lambda>_. F"]) auto

lemma quiet_rules:
  "gives (give x) (\<lambda>v sent. sent = [])" "gives (fail e) (\<lambda>v sent. sent = [])"
  "gives (noting l t x) (\<lambda>v sent. sent = [])"
  by (auto simp: gives_def logs_def give_def fail_def noting_def note_uploaded_mtime_def split: option.splits)

lemma quiet_planned: "gives (sent_as_planned W local_file streamed) (\<lambda>v sent. sent = [])"
  unfolding sent_as_planned_def
  by (auto intro!: quiet_rules gives_quiet [OF silent_hash] split: option.splits)

lemma gives_verify_landed:
  assumes "relogin_signs_in W"
  shows "gives_o (verify_upload_landed E W S polls local_file path streamed) (\<lambda>_ sent. landed W local_file path sent)"
proof -
  have checked: "gives_o (case l_md5 local_file of
                 None \<Rightarrow> run_a (give ())
               | Some expected \<Rightarrow>
                   bind_o (uploaded_digest_matches E W S polls path expected) (\<lambda>same.
                     run_a (if same then give () else fail (ContentVerificationFailed path))))
      (\<lambda>_ sent. \<forall>expected. l_md5 local_file = Some expected \<longrightarrow> shown_digest W path expected sent)" (is "gives_o ?m ?F")
  proof (cases "l_md5 local_file")
    case None
    then show ?thesis by (auto simp: gives_o_def run_a_def give_def)
  next
    case (Some expected)
    have answer: "gives_o (run_a (if same then give () else fail (ContentVerificationFailed path)))
        (\<lambda>_ sent. sent = [] \<and> same)" for same
      by (auto simp: gives_o_def run_a_def give_def fail_def)
    show ?thesis
      using gives_o_bind [OF gives_digest [OF assms] answer, where H = ?F] by (simp add: Some)
  qed
  have found: "gives_o (case found of
         None \<Rightarrow> run_a (fail (ContentVerificationFailed path))
       | Some f \<Rightarrow>
           if rf_size f \<noteq> l_size local_file then run_a (fail (ContentVerificationFailed path))
           else bind_o (run_a (noting local_file (rf_mtime f) ())) (\<lambda>_. ?m))
      (\<lambda>v sent. (\<exists>f. found = Some f \<and> rf_size f = l_size local_file) \<and> ?F v sent)" for found
  proof (cases found)
    case None
    then show ?thesis by (simp add: gives_o_fail)
  next
    case (Some f)
    then show ?thesis
      using gives_o_quiet [OF quiet_rules(3) [where x = "()"] checked] by (simp add: gives_o_fail)
  qed
  show ?thesis
    unfolding verify_upload_landed_def
    by (rule gives_o_after_silent [OF silent_check [of W] gives_o_quiet [OF quiet_planned
          gives_o_bind [OF gives_run [OF gives_facts [OF assms]] found]]])
      (auto simp: landed_def intro: growsD [OF grows_shown_file] growsD [OF grows_digest])
qed

lemma gives_last_attempt:
  assumes "relogin_signs_in W"
  shows "gives_o (last_attempt_failed_in_transport E W S polls local_file path e)
           (\<lambda>v sent. v = Settled (Inr ()) \<longrightarrow> landed W local_file path sent)"
proof (cases "l_md5 local_file")
  case None
  then show ?thesis
    by (auto simp: last_attempt_failed_in_transport_def gives_o_def run_a_def give_def)
next
  case (Some expected)
  have settled: "gives_o (run_a (give (Settled (Inl x)))) (\<lambda>v sent. v = Settled (Inr ()) \<longrightarrow> G sent)" for x G
    by (auto simp: gives_o_def run_a_def give_def)
  have complete: "gives_o (judge_complete E W S polls local_file path e expected t)
      (\<lambda>v sent. v = Settled (Inr ()) \<longrightarrow> shown_digest W path expected sent)" for t
  proof (rule gives_oI)
    fix c r c'
    assume run: "judge_complete E W S polls local_file path e expected t c = Some (r, c')"
    obtain r1 c1 where one: "uploaded_digest_matches E W S polls path expected c = Some (r1, c1)"
      using run by (cases "uploaded_digest_matches E W S polls path expected c") (auto simp: judge_complete_def attempt_o_def)
    have "c_log c' = c_log c1" "r = Inr (Settled (Inr ())) \<longrightarrow> r1 = Inr True"
      using run one by (auto simp: judge_complete_def attempt_o_def run_a_def noting_def give_def
          note_uploaded_mtime_def split: sum.splits bool.splits option.splits)
    with gives_oD [OF gives_digest [OF assms] one]
    show "\<exists>sent. c_log c' = c_log c @ sent \<and> (\<forall>v. r = Inr v \<longrightarrow> v = Settled (Inr ()) \<longrightarrow> shown_digest W path expected sent)"
      by auto
  qed
  have probe: "gives_o (attempt_o (run_a (remote_file_facts E W S path)) (\<lambda>r.
                case r of
                  Inl probe \<Rightarrow>
                    run_a (give (Settled (Inl (if retryable W probe then e else probe_failed E e path probe))))
                | Inr None \<Rightarrow> run_a (give (Settled (Inl e)))
                | Inr (Some f) \<Rightarrow>
                    if rf_size f = l_size local_file \<and> time_kept local_file (rf_mtime f) then
                      judge_complete E W S polls local_file path e expected (rf_mtime f)
                    else run_a (give (Settled (Inl e)))))
      (\<lambda>v sent. v = Settled (Inr ()) \<longrightarrow> landed W local_file path sent)" (is "gives_o (attempt_o _ ?k) ?F")
  proof (rule gives_oI)
    fix c r c'
    assume run: "attempt_o (run_a (remote_file_facts E W S path)) ?k c = Some (r, c')"
    obtain r1 c1 where one: "remote_file_facts E W S path c = (r1, c1)" by fastforce
    obtain s where s: "c_log c1 = c_log c @ s" "\<forall>v. r1 = Inr v \<longrightarrow> (\<forall>f. v = Some f \<longrightarrow> shown_file W path f s)"
      using logsD [OF gives_facts [OF assms, unfolded gives_def] one] by blast
    have rest: "?k r1 c1 = Some (r, c')" using run unfolding attempt_o_def by (simp add: run_a_def [of "remote_file_facts _ _ _ _"] one)
    show "\<exists>sent. c_log c' = c_log c @ sent \<and> (\<forall>v. r = Inr v \<longrightarrow> ?F v sent)"
    proof (cases "\<exists>f. r1 = Inr (Some f) \<and> rf_size f = l_size local_file \<and> time_kept local_file (rf_mtime f)")
      case False
      then have "c' = c1" "\<exists>x. r = Inr (Settled (Inl x))"
        using rest by (auto simp: run_a_def give_def split: sum.splits option.splits if_splits)
      then show ?thesis using s(1) by auto
    next
      case True
      then obtain f where f: "r1 = Inr (Some f)" "rf_size f = l_size local_file" "time_kept local_file (rf_mtime f)" by blast
      then have "judge_complete E W S polls local_file path e expected (rf_mtime f) c1 = Some (r, c')"
        using rest by simp
      from gives_oD [OF complete this] obtain t
        where t: "c_log c' = c_log c1 @ t" "\<forall>v. r = Inr v \<longrightarrow> v = Settled (Inr ()) \<longrightarrow> shown_digest W path expected t" by blast
      have "shown_file W path f s" using s(2) f(1) by blast
      then have "landed W local_file path (s @ t)" if "r = Inr (Settled (Inr ()))"
        using t(2) that f(2) Some growsD(2) [OF grows_shown_file] growsD(1) [OF grows_digest]
        unfolding landed_def by fastforce
      then show ?thesis using s(1) t(1) by (intro exI [of _ "s @ t"]) auto
    qed
  qed
  show ?thesis
    unfolding last_attempt_failed_in_transport_def Some option.case
    by (rule gives_o_after_silent [OF silent_cancelled [of W]]) (use probe settled in auto)
qed

lemma gives_before_retry:
  assumes "relogin_signs_in W"
  shows "gives_o (before_retry E W S polls local_file path attempt)
           (\<lambda>v sent. v \<longrightarrow> l_md5 local_file \<noteq> None \<and> landed W local_file path sent)" (is "gives_o _ ?F")
proof -
  let ?probe = "\<lambda>expected. attempt_o (earlier_attempt_landed E W S polls local_file path expected) (\<lambda>r.
                  run_a (case r of
                    Inr there \<Rightarrow> give there
                  | Inl probe \<Rightarrow> if retryable W probe then give False else fail probe))"
  have probed: "gives_o (?probe expected) ?F" if md5: "l_md5 local_file = Some expected" for expected
  proof (rule gives_oI)
    fix c r c'
    assume run: "?probe expected c = Some (r, c')"
    obtain r1 c1 where one: "earlier_attempt_landed E W S polls local_file path expected c = Some (r1, c1)"
      using run by (cases "earlier_attempt_landed E W S polls local_file path expected c") (auto simp: attempt_o_def)
    have "c' = c1" "r = Inr True \<longrightarrow> r1 = Inr True"
      using run one by (auto simp: attempt_o_def run_a_def give_def fail_def split: sum.splits if_splits)
    with gives_oD [OF gives_landed_probe [OF assms md5] one] md5
    show "\<exists>sent. c_log c' = c_log c @ sent \<and> (\<forall>v. r = Inr v \<longrightarrow> ?F v sent)" by auto
  qed
  have no: "gives_o (run_a (give False)) ?F" by (auto simp: gives_o_def run_a_def give_def)
  have first: "gives_o (case l_md5 local_file of
          None \<Rightarrow> run_a (give False)
        | Some expected \<Rightarrow>
            bind_o (run_a (hash_snapshot W local_file)) (\<lambda>actual.
              if \<not> content_evidence_matches expected actual then
                run_a (fail (SourceChangedError (l_full_path local_file)))
              else ?probe expected)) ?F"
    using no probed by (auto intro!: gives_o_quiet [OF silent_hash] gives_o_fail split: option.splits)
  have final: "gives_o (if there then run_a (give True)
         else bind_o (run_a (retry_pause W attempt)) (\<lambda>_. run_a (give False))) (\<lambda>v sent. v \<longrightarrow> there)" for there
    by (auto simp: gives_o_def run_a_def give_def bind_o_def retry_pause_def sleep_cancellable_def split: if_splits)
  show ?thesis
    unfolding before_retry_def
    by (rule gives_o_quiet [OF silent_local gives_o_bind [OF first final]])
      (auto intro: growsD [OF grows_landed])
qed

section \<open>Every check only looks\<close>

lemma looks_digest:
  assumes "relogin_signs_in W"
  shows "looks_o (uploaded_digest_matches E W S polls path expected)"
  unfolding uploaded_digest_matches_def
  by (intro looks_o_bind looks_run looks_simple)
    (auto intro!: looks_o_bind looks_run looks_fingerprint looks_md5 assms split: sum.split)

lemma looks_local [simp]: "looks (local_snapshot W local_file)" "looks (hash_snapshot W local_file)"
  by (auto simp: looks_def sends_only_def logs_def local_snapshot_def hash_snapshot_def ticked_def)

lemma looks_noting [simp]: "looks (noting local_file reported x)"
  by (auto simp: looks_def sends_only_def logs_def noting_def note_uploaded_mtime_def split: option.splits)

lemma looks_verify:
  assumes "relogin_signs_in W"
  shows "looks_o (verify_upload_landed E W S polls local_file path streamed)"
proof -
  have "looks (sent_as_planned W local_file streamed)"
    unfolding sent_as_planned_def by (auto intro!: looks_bind split: option.split)
  then show ?thesis
    unfolding verify_upload_landed_def
    by (intro looks_o_bind looks_run looks_simple looks_facts assms)
      (auto intro!: looks_o_bind looks_run looks_digest assms split: option.split)
qed

lemma looks_earlier:
  assumes "relogin_signs_in W"
  shows "looks_o (earlier_attempt_landed E W S polls local_file path expected)"
  unfolding earlier_attempt_landed_def
  by (intro looks_o_bind looks_run looks_simple looks_facts assms)
    (auto intro!: looks_o_bind looks_run looks_digest assms split: option.split)

lemma looks_before_retry:
  assumes "relogin_signs_in W"
  shows "looks_o (before_retry E W S polls local_file path attempt)"
  unfolding before_retry_def
  by (intro looks_o_bind looks_run looks_local)
    (auto intro!: looks_o_bind looks_o_attempt looks_run looks_earlier assms split: option.split sum.split)

lemma looks_last:
  assumes "relogin_signs_in W"
  shows "looks_o (last_attempt_failed_in_transport E W S polls local_file path e)"
proof -
  have complete: "looks_o (judge_complete E W S polls local_file path e expected reported)" for expected reported
    unfolding judge_complete_def
    by (intro looks_o_attempt looks_digest assms) (auto intro!: looks_run split: sum.split bool.split)
  show ?thesis
    unfolding last_attempt_failed_in_transport_def
    by (auto intro!: looks_o_bind looks_o_attempt looks_run looks_facts assms complete split: option.split sum.split)
qed

section \<open>The attempts\<close>

definition is_upload :: "exchange \<Rightarrow> bool" where
  "is_upload x \<longleftrightarrow> rq_api (fst x) = ''SYNO.FileStation.Upload''"

lemma looking_no_upload: "list_all looking sent \<Longrightarrow> list_all (\<lambda>x. \<not> is_upload x) sent"
  by (auto simp: list_all_iff looking_def is_upload_def)

text \<open>The request that sends a file to this path: the folder is a field, the name is the part's.\<close>

definition uploads_to :: "string \<Rightarrow> exchange \<Rightarrow> bool" where
  "uploads_to path x \<longleftrightarrow> is_upload x \<and> rq_method (fst x) = ''upload''
     \<and> (\<exists>parent name. parent_and_name path = Inr (parent, name)
          \<and> (''path'', parent) \<in> set (rq_fields (fst x)) \<and> (''file'', name) \<in> set (rq_fields (fst x)))"

text \<open>An upload to this path was sent, no other was sent after it, and after it the NAS gave its account.\<close>

definition landed_after :: "world \<Rightarrow> local_entry \<Rightarrow> string \<Rightarrow> exchange list \<Rightarrow> bool" where
  "landed_after W local_file path sent \<longleftrightarrow>
     (\<exists>before x later. sent = before @ x # later \<and> uploads_to path x \<and> list_all (\<lambda>x. \<not> is_upload x) later
        \<and> landed W local_file path later)"

lemma landed_afterI:
  "uploads_to path x \<Longrightarrow> list_all (\<lambda>x. \<not> is_upload x) later \<Longrightarrow> landed W local_file path later \<Longrightarrow>
     landed_after W local_file path (x # later)"
  unfolding landed_after_def by (metis append_Nil)

definition grows_front :: "(exchange list \<Rightarrow> bool) \<Rightarrow> bool" where
  "grows_front F \<longleftrightarrow> (\<forall>a sent. F sent \<longrightarrow> F (a @ sent))"

lemma grows_landed_after: "grows_front (landed_after W local_file path)"
  unfolding grows_front_def landed_after_def
proof (intro allI impI, elim exE conjE)
  fix a sent before x later
  assume "sent = before @ x # later" "uploads_to path x" "list_all (\<lambda>x. \<not> is_upload x) later" "landed W local_file path later"
  then show "\<exists>before x later. a @ sent = before @ x # later \<and> uploads_to path x \<and> list_all (\<lambda>x. \<not> is_upload x) later
      \<and> landed W local_file path later"
    by (intro exI [of _ "a @ before"] exI [of _ x] exI [of _ later]) simp
qed

lemma grows_frontD: "grows_front F \<Longrightarrow> F sent \<Longrightarrow> F (a @ sent)"
  unfolding grows_front_def by blast

lemma prepare_quiet:
  "gives (prepare_attempt W S local_file parent name ow cp)
     (\<lambda>rq sent. sent = [] \<and> rq_api rq = ''SYNO.FileStation.Upload'' \<and> rq_method rq = ''upload''
        \<and> (''path'', parent) \<in> set (rq_fields rq) \<and> (''file'', name) \<in> set (rq_fields rq))" (is "gives _ ?F")
proof -
  have counted: "gives (\<lambda>c. let c = c\<lparr>c_sends := c_sends c + 1\<rparr> in
        (if wd_observer W (c_tick c) then Inr (c_sends c) else Inl Cancelled, ticked c)) (\<lambda>v sent. sent = [])"
    by (auto simp: gives_def logs_def Let_def)
  have readable: "gives (preflight_upload_readable W local_file) (\<lambda>v sent. sent = [])"
    unfolding preflight_upload_readable_def by (rule gives_quiet [OF silent_local silent_open])
  have named: "gives (from_res (api_url S ''SYNO.FileStation.Upload'')) (\<lambda>v sent. sent = [])"
    by (rule gives_mono [OF gives_res]) simp
  have built: "gives (bind_a (session_headers W) (\<lambda>headers.
       give \<lparr>rq_api = ac_api q, rq_version = ac_version q, rq_method = ac_method q,
         rq_fields = ac_fields q @ [(''file'', name)],
         rq_headers = headers, rq_timeout = cl_upload_timeout S, rq_attempt = number\<rparr>)) ?F"
    if "ac_api q = ''SYNO.FileStation.Upload''" "ac_method q = ''upload''" "(''path'', parent) \<in> set (ac_fields q)" for q number
    by (rule gives_after_silent [OF silent_headers [of W]], rule gives_mono [OF gives_give]) (simp add: that)
  show ?thesis
    unfolding prepare_attempt_def
    by (rule gives_after_silent [OF silent_check [of W]], rule gives_quiet [OF counted],
        rule gives_quiet [OF readable], rule gives_signed, rule gives_quiet [OF named], rule built)
      (auto simp: upload_call_def request_of_def Let_def)
qed

lemma send_upload_logs:
  "send_upload W local_file rq c = ((r, rd), c') \<Longrightarrow> \<exists>a. c_log c' = c_log c @ [(rq, a)]"
  by (auto simp: send_upload_def transmit_def Let_def split: prod.splits)

lemma gives_upload_tries:
  assumes signs: "relogin_signs_in W" and place: "parent_and_name path = Inr (parent, name)"
  shows "gives_o (upload_tries E W S polls local_file path parent name ow cp left tear attempt)
           (\<lambda>_ sent. landed_after W local_file path sent)"
proof (induction "2 * left + (if tear = None then 1 else 0 :: nat)" arbitrary: left tear attempt rule: less_induct)
  case less
  show ?case
  proof (rule gives_oI)
    fix c r c'
    assume run: "upload_tries E W S polls local_file path parent name ow cp left tear attempt c = Some (r, c')"
    let ?goal = "\<exists>sent. c_log c' = c_log c @ sent \<and> (\<forall>v. r = Inr v \<longrightarrow> landed_after W local_file path sent)"
    note unfolded = run [unfolded upload_tries.simps [of E W S polls local_file path parent name ow cp left tear attempt c]]
    obtain p c1 where prepared: "prepare_attempt W S local_file parent name ow cp c = (p, c1)" by fastforce
    note quiet = logsD [OF prepare_quiet [unfolded gives_def] prepared]
    show ?goal
    proof (cases p)
      case (Inl e)
      then show ?thesis using unfolded prepared quiet by auto
    next
      case (Inr rq)
      obtain a rd c2 where sent: "send_upload W local_file rq c1 = ((a, rd), c2)" by (metis prod.exhaust)
      obtain x where x: "c_log c2 = c_log c @ [x]" "uploads_to path x"
        using send_upload_logs [OF sent] quiet Inr place by (auto simp: uploads_to_def is_upload_def)
      have over: ?goal if "c_log c' = c_log c2 @ s" "\<forall>v. r = Inr v \<longrightarrow> landed W local_file path s"
          "\<exists>s. c_log c' = c_log c2 @ s \<and> list_all looking s" for s
      proof -
        have "list_all (\<lambda>x. \<not> is_upload x) s"
          using that(1,3) looking_no_upload by auto
        then show ?thesis
          using that x landed_afterI [OF x(2)] by (intro exI [of _ "x # s"]) auto
      qed
      have again: ?goal if k: "c_log k = c_log c2 @ s"
        and next_try: "upload_tries E W S polls local_file path parent name ow cp l t n k = Some (r, c')"
        and smaller: "2 * l + (if t = None then 1 else 0) < 2 * left + (if tear = None then 1 else 0 :: nat)" for k s l t n
      proof -
        obtain rest where "c_log c' = c_log k @ rest" "\<forall>v. r = Inr v \<longrightarrow> landed_after W local_file path rest"
          using gives_oD [OF less.hyps [OF smaller] next_try] by blast
        then show ?thesis
          using k x(1) grows_frontD [OF grows_landed_after, of W local_file path rest "x # s"]
          by (intro exI [of _ "(x # s) @ rest"]) auto
      qed
      show ?goal
      proof (cases a)
        case fine: (Inr u)
        have "gives_o (bind_o (run_a (local_snapshot W local_file)) (\<lambda>_.
                 verify_upload_landed E W S polls local_file path
                   (if l_md5 local_file = None then None else Some rd))) (\<lambda>_ s. landed W local_file path s)"
          by (rule gives_o_quiet [OF silent_local gives_verify_landed [OF signs]])
        moreover have "bind_o (run_a (local_snapshot W local_file)) (\<lambda>_.
                 verify_upload_landed E W S polls local_file path
                   (if l_md5 local_file = None then None else Some rd)) c2 = Some (r, c')"
          using unfolded prepared Inr sent fine by simp
        moreover have "looks_o (bind_o (run_a (local_snapshot W local_file)) (\<lambda>_.
                 verify_upload_landed E W S polls local_file path
                   (if l_md5 local_file = None then None else Some rd)))"
          by (intro looks_o_bind looks_run looks_local looks_verify signs)
        ultimately show ?goal
          using over looks_oD gives_oD by metis
      next
        case (Inl e)
        note step = unfolded [unfolded prepared prod.case Inr sum.case sent Inl]
        consider "\<not> retryable W e" | "retryable W e" "0 < left" | "retryable W e" "left = 0" by blast
        then show ?goal
        proof cases
          case 1
          then have "c' = c2" "\<exists>e. r = Inl e" using step Inr by (auto split: if_splits)
          then show ?goal using x(1) by auto
        next
          case 2
          obtain b k where probed: "before_retry E W S polls local_file path attempt (count_retry c2) = Some (b, k)"
            using step 2 by (cases "before_retry E W S polls local_file path attempt (count_retry c2)") auto
          obtain s where s: "c_log k = c_log c2 @ s" "\<forall>v. b = Inr v \<longrightarrow> v \<longrightarrow> landed W local_file path s"
            using gives_oD [OF gives_before_retry [OF signs] probed] by auto
          show ?goal
          proof (cases "b = Inr False")
            case True
            then have "upload_tries E W S polls local_file path parent name ow cp (left - 1) tear (attempt + 1) k = Some (r, c')"
              using step 2 probed by simp
            then show ?goal using again [OF s(1)] 2 by fastforce
          next
            case False
            then have "c' = k" "r = Inr () \<longrightarrow> b = Inr True"
              using step 2 probed by (auto split: sum.splits if_splits)
            moreover have "\<exists>s. c_log k = c_log c2 @ s \<and> list_all looking s"
              using looks_oD [OF looks_before_retry [OF signs] probed] by simp
            ultimately show ?goal using over [of s] s by auto
          qed
        next
          case 3
          obtain b k where probed: "last_attempt_failed_in_transport E W S polls local_file path e c2 = Some (b, k)"
            using step 3 by (cases "last_attempt_failed_in_transport E W S polls local_file path e c2") auto
          obtain s where s: "c_log k = c_log c2 @ s" "\<forall>v. b = Inr v \<longrightarrow> v = Settled (Inr ()) \<longrightarrow> landed W local_file path s"
            using gives_oD [OF gives_last_attempt [OF signs] probed] by auto
          show ?goal
          proof (cases "(\<exists>e. b = Inr (Torn e)) \<and> tear = None")
            case True
            then obtain e1 where torn: "b = Inr (Torn e1)" "tear = None" by blast
            then have "upload_tries E W S polls local_file path parent name ow cp left (Some e1) (attempt + 1) (count_retry k) = Some (r, c')"
              using step 3 probed by simp
            then show ?goal using again [of "count_retry k" s] s(1) torn(2) by fastforce
          next
            case False
            then have "c' = k" "r = Inr () \<longrightarrow> b = Inr (Settled (Inr ()))"
              using step 3 probed
              by (auto simp: settled_as_def split: sum.splits last_attempt.splits option.splits if_splits)
            moreover have "\<exists>s. c_log k = c_log c2 @ s \<and> list_all looking s"
              using looks_oD [OF looks_last [OF signs] probed] .
            ultimately show ?goal using over [of s] s by auto
          qed
        qed
      qed
    qed
  qed
qed

section \<open>The upload\<close>

lemma gives_recovery_o:
  assumes signs: "relogin_signs_in W" and m: "gives_o m F" and grows: "\<And>v. grows_front (F v)"
  shows "gives_o (with_session_recovery_o E W S m) F"
  unfolding with_session_recovery_o_def
proof (rule gives_o_after_silent [OF silent_session [of W]])
  fix s
  show "gives_o (\<lambda>c. case m c of
         None \<Rightarrow> None
       | Some (Inl e, c) \<Rightarrow>
           (case recover_session E W S (map_option se_sid s) e c of
              (Resend, c) \<Rightarrow> m c
            | (NotApplicable, c) \<Rightarrow> Some (Inl e, c)
            | (LoginFailed e', c) \<Rightarrow> Some (Inl e', c))
       | Some (Inr x, c) \<Rightarrow> Some (Inr x, c)) F" (is "gives_o ?m F")
  proof (rule gives_oI)
    fix c r c'
    assume run: "?m c = Some (r, c')"
    obtain r1 c1 where one: "m c = Some (r1, c1)" using run by (cases "m c") auto
    obtain first where first: "c_log c1 = c_log c @ first" "\<forall>v. r1 = Inr v \<longrightarrow> F v first"
      using gives_oD [OF m one] by blast
    show "\<exists>sent. c_log c' = c_log c @ sent \<and> (\<forall>v. r = Inr v \<longrightarrow> F v sent)"
    proof (cases r1)
      case (Inr x)
      then show ?thesis using run one first by auto
    next
      case (Inl e)
      obtain v c2 where rec: "recover_session E W S (map_option se_sid s) e c1 = (v, c2)" by fastforce
      obtain mid where mid: "c_log c2 = c_log c1 @ mid" using recover_logs [OF signs rec] by blast
      show ?thesis
      proof (cases "v = Resend")
        case True
        then have second: "m c2 = Some (r, c')" using run one Inl rec by simp
        obtain again where "c_log c' = c_log c2 @ again" "\<forall>v. r = Inr v \<longrightarrow> F v again"
          using gives_oD [OF m second] by blast
        then show ?thesis
          using first mid grows_frontD [OF grows] by (intro exI [of _ "(first @ mid) @ again"]) auto
      next
        case False
        then have "c' = c2" "\<exists>e. r = Inl e" using run one Inl rec by (auto split: recovery.splits)
        then show ?thesis using first mid by auto
      qed
    qed
  qed
qed

lemma refusal_extends: "\<exists>sent. c_log (snd (path_refusal E W S e path c)) = c_log c @ sent"
proof -
  obtain r k where run: "confirm_file_station_session W S c = (r, k)" by fastforce
  obtain sent where "c_log k = c_log c @ sent"
    using logsD [OF confirm_logs [unfolded sends_only_def] run] by blast
  then show ?thesis by (cases r) (auto simp: path_refusal_def run)
qed

lemma gives_refusing: "gives m F \<Longrightarrow> gives (refusing E W S path m) F"
  unfolding gives_def
proof (rule logsI)
  fix c r c'
  assume m: "logs m (\<lambda>r sent. \<forall>v. r = Inr v \<longrightarrow> F v sent)" and run: "refusing E W S path m c = (r, c')"
  obtain r1 c1 where one: "m c = (r1, c1)" by fastforce
  obtain sent where sent: "c_log c1 = c_log c @ sent" "\<forall>v. r1 = Inr v \<longrightarrow> F v sent" using logsD [OF m one] by blast
  show "\<exists>sent. c_log c' = c_log c @ sent \<and> (\<forall>v. r = Inr v \<longrightarrow> F v sent)"
  proof (cases r1)
    case (Inl e)
    obtain extra where "c_log (snd (path_refusal E W S e path c1)) = c_log c1 @ extra" using refusal_extends by blast
    then show ?thesis using run one Inl sent by (auto simp: refusing_def attempt_a_def split: prod.splits)
  next
    case (Inr x)
    then show ?thesis using run one sent by (auto simp: refusing_def attempt_a_def)
  qed
qed

lemma gives_upload:
  assumes signs: "relogin_signs_in W"
  shows "gives_o (upload_observed_with_policy E W S polls local_file path ow cp)
           (\<lambda>_ sent. landed_after W local_file path sent)"
proof (rule gives_oI)
  fix c r c'
  assume run: "upload_observed_with_policy E W S polls local_file path ow cp c = Some (r, c')"
  let ?m = "with_session_recovery_o E W S (upload_observed_inner E W S polls local_file path ow cp)"
  have "gives_o (upload_observed_inner E W S polls local_file path ow cp) (\<lambda>_ sent. landed_after W local_file path sent)"
  proof (cases "parent_and_name path")
    case (Inl e)
    then show ?thesis
      by (simp add: upload_observed_inner_def bind_o_def run_a_def from_res_def gives_o_def)
  next
    case (Inr p)
    obtain parent name where "p = (parent, name)" by (cases p)
    then have "upload_observed_inner E W S polls local_file path ow cp
        = upload_tries E W S polls local_file path parent name ow cp (cl_retries S) None 0"
      using Inr by (simp add: upload_observed_inner_def bind_o_def run_a_def from_res_def fun_eq_iff)
    then show ?thesis
      using gives_upload_tries [OF signs] Inr \<open>p = _\<close> by simp
  qed
  then have sends: "gives_o ?m (\<lambda>_ sent. landed_after W local_file path sent)"
    by (intro gives_recovery_o signs grows_landed_after)
  show "\<exists>sent. c_log c' = c_log c @ sent \<and> (\<forall>v. r = Inr v \<longrightarrow> landed_after W local_file path sent)"
  proof (cases "never_finishes E S local_file")
    case (Some e)
    then show ?thesis using run by (auto simp: upload_observed_with_policy_def)
  next
    case None
    obtain r1 c1 where one: "?m (c\<lparr>c_sends := 0\<rparr>) = Some (r1, c1)"
      using run None by (cases "?m (c\<lparr>c_sends := 0\<rparr>)") (auto simp: upload_observed_with_policy_def attempt_o_def)
    obtain sent where sent: "c_log c1 = c_log c @ sent" "\<forall>v. r1 = Inr v \<longrightarrow> landed_after W local_file path sent"
      using gives_oD [OF sends one] by auto
    have final: "refusing E W S path (from_res r1) c1 = (r, c')"
      using run None one by (simp add: upload_observed_with_policy_def attempt_o_def run_a_def)
    from logsD [OF gives_refusing [OF gives_res, unfolded gives_def] final]
    obtain extra where "c_log c' = c_log c1 @ extra" "\<forall>v. r = Inr v \<longrightarrow> extra = [] \<and> r1 = Inr v" by blast
    then show ?thesis using sent by (intro exI [of _ "sent @ extra"]) auto
  qed
qed

text \<open>
  C36. An upload is reported done only when it was sent to that path and, after the last time anything
  was uploaded in it, the NAS itself said that a file of the planned size stands at that path and, for
  an entry with a digest, that its content has that digest: by DSM's own MD5 of the path, or by
  reading the whole file back.
\<close>

theorem upload_done_is_landed:
  assumes "relogin_signs_in W"
    and "upload_observed_with_policy E W S polls local_file path overwrite create_parents c = Some (Inr (), c')"
  shows "\<exists>before x later. c_log c' = c_log c @ before @ x # later
           \<and> uploads_to path x \<and> list_all (\<lambda>y. \<not> is_upload y) later
           \<and> (\<exists>f. shown_file W path f later \<and> rf_size f = l_size local_file)
           \<and> (\<forall>expected. l_md5 local_file = Some expected \<longrightarrow> shown_digest W path expected later)"
proof -
  obtain sent where "c_log c' = c_log c @ sent" "landed_after W local_file path sent"
    using gives_oD [OF gives_upload [OF assms(1)] assms(2)] by blast
  then show ?thesis unfolding landed_after_def landed_def by (elim exE conjE) (intro exI conjI, auto)
qed

section \<open>Copies\<close>

lemma judge_copy_error: "judge_copy E destination (Inl e) \<noteq> PollDone (Inr v)"
  by (simp add: judge_copy_def)

lemma copy_judged: "judge_copy E destination (Inr reply) = PollDone (Inr ()) \<Longrightarrow> reply = Some (StatusReply True None)"
  by (auto simp: judge_copy_def split: option.splits reply.splits if_splits)

lemma gives_map_err: "gives m F \<Longrightarrow> gives (map_err f m) F"
  unfolding gives_def logs_def map_err_def attempt_a_def from_res_def
  by (fastforce split: prod.splits sum.splits)

lemma gives_exists:
  assumes "relogin_signs_in W"
  shows "gives (remote_entry_exists E W S path) (\<lambda>_ _. True)"
proof -
  have look: "gives (look_at E W S path) (\<lambda>_ _. True)"
    using gives_info [OF assms, of E S path True] unfolding gives_def logs_def look_at_def attempt_a_def from_res_def
    by (fastforce split: prod.splits)
  show ?thesis
    unfolding remote_entry_exists_def by (rule gives_bind [OF look gives_give]) simp
qed

lemma gives_comma:
  assumes "relogin_signs_in W"
  shows "gives (comma_ambiguity E W S path) (\<lambda>_ _. True)"
  unfolding comma_ambiguity_def
  by (auto intro: gives_mono [OF gives_give] gives_bind [OF gives_exists [OF assms] gives_give] split: option.splits)

lemma gives_call_recovering: "relogin_signs_in W \<Longrightarrow> gives (call_bounded_recovering E W S q t) (answered q)"
  unfolding call_bounded_recovering_def by (rule gives_recovering [OF _ gives_attempt])

lemma gives_start_copy:
  assumes signs: "relogin_signs_in W"
  shows "gives (start_copy E W S root source_path destination_path) (\<lambda>(taskid, deadline) sent.
     \<exists>folder. copy_checks S root source_path destination_path = Inr folder
       \<and> answered (copy_start_call W source_path folder) (Some (TaskReply taskid)) sent)"
proof -
  let ?F = "\<lambda>folder (taskid, deadline) sent. answered (copy_start_call W source_path folder) (Some (TaskReply taskid)) sent"
  have started: "gives (bind_a (map_err copy_start_error (call_bounded_recovering E W S
         (copy_start_call W source_path folder) (cl_control_timeout S))) (\<lambda>reply.
       bind_a (from_res (task_of_reply ''SYNO.FileStation.CopyMove.start'' reply)) (\<lambda>taskid.
         give (taskid, now + cl_operation_timeout S)))) (?F folder)" for folder now
  proof (rule gives_bind [OF gives_map_err [OF gives_call_recovering [OF signs]]])
    fix reply
    show "gives (bind_a (from_res (task_of_reply ''SYNO.FileStation.CopyMove.start'' reply)) (\<lambda>taskid.
             give (taskid, now + cl_operation_timeout S)))
        (\<lambda>v s. s = [] \<and> task_of_reply ''SYNO.FileStation.CopyMove.start'' reply = Inr (fst v))"
      by (rule gives_bind [OF gives_res gives_give]) auto
  qed (auto dest: task_reply)
  have checked: "gives (if found \<noteq> None then fail ServerCopyNotStarted
     else
       bind_a (check_cancelled W) (\<lambda>_.
       bind_a (clock W) (\<lambda>now.
       bind_a (map_err copy_start_error (call_bounded_recovering E W S
         (copy_start_call W source_path folder) (cl_control_timeout S))) (\<lambda>reply.
       bind_a (from_res (task_of_reply ''SYNO.FileStation.CopyMove.start'' reply)) (\<lambda>taskid.
         give (taskid, now + cl_operation_timeout S)))))) (?F folder)" for folder and found :: "string option"
    by (auto intro: gives_fail gives_after_silent [OF silent_check [of W]
        gives_after_silent [OF silent_clock [of W] started]])
  have rest: "gives (bind_a (comma_ambiguity E W S source_path) (\<lambda>found.
     if found \<noteq> None then fail ServerCopyNotStarted
     else
       bind_a (check_cancelled W) (\<lambda>_.
       bind_a (clock W) (\<lambda>now.
       bind_a (map_err copy_start_error (call_bounded_recovering E W S
         (copy_start_call W source_path folder) (cl_control_timeout S))) (\<lambda>reply.
       bind_a (from_res (task_of_reply ''SYNO.FileStation.CopyMove.start'' reply)) (\<lambda>taskid.
         give (taskid, now + cl_operation_timeout S))))))) (?F folder)" for folder
    by (rule gives_bind [OF gives_comma [OF signs] checked]) (auto intro: growsD [OF grows_answered])
  show ?thesis
    unfolding start_copy_def
    by (rule gives_bind [OF gives_res rest]) auto
qed

lemma gives_content:
  assumes signs: "relogin_signs_in W"
  shows "gives (verify_remote_content E W S path sz expected) (\<lambda>_ sent. has_full_proof expected
     \<and> (\<exists>f. shown_file W path f sent \<and> rf_size f = sz) \<and> shown_content W path expected sent)" (is "gives _ ?G")
proof -
  have fetched: "gives (bind_a (remote_content_fingerprint E W S path) (\<lambda>actual.
                   give (content_evidence_matches expected actual)))
      (\<lambda>same sent. same \<longrightarrow> has_full_proof expected \<and> shown_content W path expected sent)"
    by (rule gives_bind [OF gives_fingerprint [OF signs] gives_give]) (auto simp: evidence_iff)
  have found: "gives (case found of
             None \<Rightarrow> give False
           | Some f \<Rightarrow>
               if rf_size f \<noteq> sz then give False
               else
                 bind_a (remote_content_fingerprint E W S path) (\<lambda>actual.
                   give (content_evidence_matches expected actual)))
      (\<lambda>same sent. same \<longrightarrow> (\<exists>f. found = Some f \<and> rf_size f = sz) \<and> has_full_proof expected
         \<and> shown_content W path expected sent)" for found
    using fetched by (auto intro: gives_mono [OF gives_give] elim!: gives_mono split: option.splits)
  have matched: "gives (remote_content_matches E W S path sz expected) (\<lambda>same sent. same \<longrightarrow> ?G () sent)"
  proof -
    have "gives (bind_a (remote_file_facts E W S path) (\<lambda>found.
           case found of
             None \<Rightarrow> give False
           | Some f \<Rightarrow>
               if rf_size f \<noteq> sz then give False
               else
                 bind_a (remote_content_fingerprint E W S path) (\<lambda>actual.
                   give (content_evidence_matches expected actual)))) (\<lambda>same sent. same \<longrightarrow> ?G () sent)"
      by (rule gives_bind [OF gives_facts [OF signs] found])
        (auto intro: growsD [OF grows_shown_file] growsD [OF grows_shown(2)])
    then show ?thesis
      unfolding remote_content_matches_def
      by (intro gives_after_silent [OF silent_check [of W]]) (auto intro: gives_mono [OF gives_give])
  qed
  have answer: "gives (if same then give () else fail (ContentVerificationFailed path)) (\<lambda>_ sent. sent = [] \<and> same)" for same
    by (auto simp: gives_def logs_def give_def fail_def)
  show ?thesis
    unfolding verify_remote_content_def by (rule gives_bind [OF matched answer]) auto
qed

definition strictly_within :: "remote_root \<Rightarrow> string \<Rightarrow> bool" where
  "strictly_within root path \<longleftrightarrow> (\<exists>relative. root_relative root path = Inr relative \<and> relative \<noteq> [])"

lemma valid_within: "validate_delete_target root path = Inr () \<Longrightarrow> strictly_within root path"
  by (auto simp: strictly_within_def validate_delete_target_def split: sum.splits if_splits)

lemma copy_within:
  assumes "copy_checks S root source_path destination_path = Inr folder"
  shows "strictly_within root source_path" "strictly_within root destination_path"
  using assms by (auto simp: copy_checks_def intro: valid_within)

text \<open>
  C37. A copy made by the NAS is reported done only when DSM said its task ended without an error and,
  after that, that a file of the expected size stands at the destination, and the whole of it was read
  back with the full expected fingerprint. Its source and destination lie strictly beneath the
  destination root.
\<close>

theorem copy_done_is_verified:
  assumes signs: "relogin_signs_in W"
    and run: "copy_file_verified E W S root source_path destination_path sz expected polls c = Some (Inr (), c')"
  shows "\<exists>before later taskid folder. c_log c' = c_log c @ before @ later
           \<and> copy_checks S root source_path destination_path = Inr folder
           \<and> strictly_within root source_path \<and> strictly_within root destination_path
           \<and> answered (copy_start_call W source_path folder) (Some (TaskReply taskid)) before
           \<and> answered (status_call W ''SYNO.FileStation.CopyMove'' 3 taskid) (Some (StatusReply True None)) before
           \<and> has_full_proof expected
           \<and> (\<exists>f. shown_file W destination_path f later \<and> rf_size f = sz)
           \<and> shown_content W destination_path expected later"
proof -
  obtain r1 k where start: "start_copy E W S root source_path destination_path c = (r1, k)" by fastforce
  obtain taskid deadline where r1: "r1 = Inr (taskid, deadline)"
    using run by (auto simp: copy_file_verified_def start split: sum.splits)
  obtain s folder where s: "c_log k = c_log c @ s" "copy_checks S root source_path destination_path = Inr folder"
      "answered (copy_start_call W source_path folder) (Some (TaskReply taskid)) s"
    using logsD [OF gives_start_copy [OF signs, unfolded gives_def] start] r1 by auto
  let ?wait = "await_task E W S ''SYNO.FileStation.CopyMove'' 3 taskid ''server-side file copy''
              (judge_copy E destination_path) deadline copy_longest_poll copy_first_poll polls"
  obtain k2 where waited: "?wait k = Some (Inr (), k2)"
      and last: "verify_remote_content E W S destination_path sz expected k2 = (Inr (), c')"
    using run by (auto simp: copy_file_verified_def start r1 split: option.splits sum.splits)
  obtain t where t: "c_log k2 = c_log k @ t" "task_judged W ''SYNO.FileStation.CopyMove'' 3 taskid (judge_copy E destination_path) () t"
    using gives_oD [OF gives_await [where judge = "judge_copy E destination_path", OF signs judge_copy_error] waited] by auto
  obtain later where later: "c_log c' = c_log k2 @ later" "has_full_proof expected"
      "\<exists>f. shown_file W destination_path f later \<and> rf_size f = sz" "shown_content W destination_path expected later"
    using logsD [OF gives_content [OF signs, unfolded gives_def] last] by auto
  have "answered (status_call W ''SYNO.FileStation.CopyMove'' 3 taskid) (Some (StatusReply True None)) t"
    using t(2) copy_judged by (auto simp: task_judged_def)
  then show ?thesis
    using s t(1) later growsD [OF grows_answered] copy_within [OF s(2)]
    by (intro exI [of _ "s @ t"] exI [of _ later] exI [of _ taskid] exI [of _ folder]) simp
qed

section \<open>Deletions\<close>








end
