(* ===== verification/ClientDemo.thy ===== *)
theory ClientDemo
  imports UploadLanded "HOL-Library.Code_Target_Nat"
begin

text \<open>
  One run of the client against a NAS that ends the first session: the request that meets it signs in
  again and is repeated, and an upload, a copy and a deletion go through.
\<close>

definition demo_env :: text_env where
  "demo_env = plain_env"

definition demo_setup :: client_setup where
  "demo_setup = \<lparr>cl_apis = (\<lambda>api. Some \<lparr>as_path = ''entry.cgi'', as_min = 1, as_max = 6\<rparr>),
     cl_endpoint = (\<lambda>_. Inr ()), cl_retries = 1, cl_control_timeout = 10, cl_deadline = None,
     cl_operation_timeout = 100, cl_upload_timeout = 100, cl_rate = None\<rparr>"

definition demo_item :: item_wire where
  "demo_item = \<lparr>iw_path = ''/v/d/a'', iw_name = Some ''a'', iw_isdir = Some False, iw_code = None,
     iw_disable_list = False,
     iw_additional = Some \<lparr>aw_size = Some 3, aw_time = Some (Some 0), aw_mount = None, aw_real = None, aw_perm = None\<rparr>\<rparr>"

definition demo_reply :: "string \<Rightarrow> string \<Rightarrow> reply" where
  "demo_reply api call =
     (if call = ''login'' then LoginReply ''new'' None
      else if call = ''getinfo'' then InfoReply [demo_item]
      else if call = ''start'' then TaskReply ''t''
      else if call = ''status'' then
        if api = ''SYNO.FileStation.MD5'' then Md5Reply True (Some (replicate 32 (CHR ''0'')))
        else StatusReply True None
      else if call = ''download'' then DownloadReply demo_print
      else OtherReply)"

definition demo_answer :: "nat \<Rightarrow> sent_request \<Rightarrow> reply option res" where
  "demo_answer n rq =
     (if rq_method rq \<noteq> ''login'' \<and> map_option se_sid (rq_headers rq) = Some ''old'' then
        Inl (Api (rq_api rq) (rq_method rq) 106 ''session timed out'')
      else Inr (Some (demo_reply (rq_api rq) (rq_method rq))))"

definition demo_read_file :: file_read where
  "demo_read_file = \<lparr>fr_stat_before = demo_stat, fr_open = Inr (), fr_meta_before = demo_stat,
     fr_blocks = [Inr [1, 2, 3]], fr_meta_after = demo_stat, fr_stat_after = demo_stat\<rparr>"

definition demo_nas :: "(client \<Rightarrow> unit res \<times> client) option \<Rightarrow> world" where
  "demo_nas relogin = \<lparr>wd_answer = demo_answer, wd_now = (\<lambda>n. 0), wd_cancelled = (\<lambda>n. False),
     wd_interrupted = (\<lambda>n d. False), wd_session = (\<lambda>n s. s), wd_ledger = (\<lambda>n l. l),
     wd_fault = (\<lambda>_. \<lparr>hf_connect = False, hf_timeout = False, hf_body = False, hf_request = False,
       hf_builder = False, hf_redirect = False\<rparr>),
     wd_bound = (\<lambda>_. None), wd_header_ok = (\<lambda>_. True), wd_json = (\<lambda>s. s), wd_inner = (\<lambda>_. None),
     wd_hash = demo_hash, wd_stat = (\<lambda>n p. demo_stat), wd_open = (\<lambda>n p. Inr ()),
     wd_open_meta = (\<lambda>n p. demo_stat), wd_file = (\<lambda>n p. demo_read_file),
     wd_body = (\<lambda>n. map demo_read [[1, 2], [3], []]), wd_observer = (\<lambda>n. True), wd_relogin = relogin\<rparr>"

definition demo_world :: world where
  "demo_world = demo_nas (Some (login (demo_nas None) demo_setup ''u'' ''p'' None))"

definition demo_client :: client where
  "demo_client = \<lparr>c_session = Some \<lparr>se_sid = ''old'', se_token = None\<rparr>, c_private = False,
     c_ledger = ledger_new 0, c_retries = 0, c_relogins = 0, c_relogin_failures = 0,
     c_keepalive_failures = 0, c_not_stopped = 0, c_unhonoured = 0, c_sends = 0, c_tick = 0, c_log = []\<rparr>"

lemma demo_signs: "relogin_signs_in demo_world"
  using login_signs_in [of "demo_nas None" demo_setup "''u''" "''p''" None True]
  by (simp add: relogin_signs_in_def demo_world_def demo_nas_def login_def [abs_def])

definition ready_client :: client where
  "ready_client = demo_client\<lparr>c_session := Some \<lparr>se_sid = ''new'', se_token = None\<rparr>\<rparr>"

definition demo_root :: remote_root where "demo_root = RemoteRoot ''/v/d''"




definition demo_request :: "reply option res \<times> client" where
  "demo_request = call_api demo_env demo_world demo_setup (rename_call demo_world ''/v/d/a'' ''b'') False demo_client"

lemma demo_request_run:
  "map_prod id (\<lambda>c'. map snd (sent_of (rename_call demo_world ''/v/d/a'' ''b'') demo_client c')) demo_request
     = (Inr (Some OtherReply),
        [Inl (Api ''SYNO.FileStation.Rename'' ''rename'' 106 ''session timed out''), Inr (Some OtherReply)])"
  by code_simp

theorem requests_repeat_with_cause_witness:
  "length (sent_of (rename_call demo_world ''/v/d/a'' ''b'') demo_client (snd demo_request)) = 2
   \<and> (\<exists>e. snd (hd (sent_of (rename_call demo_world ''/v/d/a'' ''b'') demo_client (snd demo_request))) = Inl e
        \<and> session_refusal e)
   \<and> snd (last (sent_of (rename_call demo_world ''/v/d/a'' ''b'') demo_client (snd demo_request)))
        = Inr (Some OtherReply)"
proof -
  let ?q = "rename_call demo_world ''/v/d/a'' ''b''"
  let ?sent = "sent_of ?q demo_client (snd demo_request)"
  have run: "call_api demo_env demo_world demo_setup ?q False demo_client = (Inr (Some OtherReply), snd demo_request)"
    using arg_cong [OF demo_request_run, of fst] prod.collapse [of demo_request]
    by (simp flip: demo_request_def)
  have "map snd ?sent = [Inl (Api ''SYNO.FileStation.Rename'' ''rename'' 106 ''session timed out''), Inr (Some OtherReply)]"
    using arg_cong [OF demo_request_run, of snd] by simp
  then have two: "length ?sent = 2" by (metis length_map length_Cons list.size(3) numeral_2_eq_2)
  have "plain_request ?q" by (simp add: plain_request_def rename_call_def request_of_def)
  from requests_repeat_with_cause [OF demo_signs this run] two show ?thesis by simp
qed

definition demo_upload :: "(unit res \<times> client) option" where
  "demo_upload = upload_observed_with_policy demo_env demo_world demo_setup 3 demo_file ''/v/d/a'' True True ready_client"

lemma demo_upload_run: "map_option fst demo_upload = Some (Inr ())"
  by code_simp

theorem upload_done_is_landed_witness:
  "\<exists>c' before x later. demo_upload = Some (Inr (), c') \<and> c_log c' = c_log ready_client @ before @ x # later
     \<and> uploads_to ''/v/d/a'' x \<and> list_all (\<lambda>y. \<not> is_upload y) later
     \<and> shown_digest demo_world ''/v/d/a'' demo_print later"
proof -
  obtain c' where run: "demo_upload = Some (Inr (), c')"
    using demo_upload_run by (cases demo_upload) auto
  have md5: "l_md5 demo_file = Some demo_print"
    by (simp add: demo_file_def)
  obtain before x later where "c_log c' = c_log ready_client @ before @ x # later"
    "uploads_to ''/v/d/a'' x" "list_all (\<lambda>y. \<not> is_upload y) later" "shown_digest demo_world ''/v/d/a'' demo_print later"
    using upload_done_is_landed [OF demo_signs run [unfolded demo_upload_def]] md5 by blast
  then show ?thesis
    using run by blast
qed

definition demo_copy :: "(unit res \<times> client) option" where
  "demo_copy = copy_file_verified demo_env demo_world demo_setup demo_root ''/v/d/x/a'' ''/v/d/a'' 3 demo_print 3 ready_client"

lemma demo_copy_run: "map_option fst demo_copy = Some (Inr ())"
  by code_simp

theorem copy_done_is_verified_witness:
  "\<exists>c' before later. demo_copy = Some (Inr (), c') \<and> c_log c' = c_log ready_client @ before @ later
     \<and> has_full_proof demo_print \<and> shown_content demo_world ''/v/d/a'' demo_print later"
proof -
  obtain c' where run: "demo_copy = Some (Inr (), c')"
    using demo_copy_run by (cases demo_copy) auto
  then show ?thesis
    using copy_done_is_verified [OF demo_signs run [unfolded demo_copy_def]] by fastforce
qed

end
