(* ===== verification/Spec2Isabelle.thy ===== *)
theory Spec2Isabelle
  imports PlanWrites PlanDeletes StatusPlan DigestFacts Ticket Prepare DigestPool SkipFacts Snapshots
    ExecSafety ExecSettle ExecReport Reconcile WatchWalk WatchLines BatchFacts CacheDemo WalkResults
    PaceFacts ClientDemo
begin

text \<open>
  A verification development for \<open>synology-drive-sync\<close>, a program that copies a local folder to a
  shared folder of a Synology NAS, in one direction. A run lists both sides, compares them, derives
  a plan, hashes what the plan has to be sure of, and carries the plan out; a status query shows the
  comparison alone. The model follows \<open>src/src/\<close> function by function and keeps its names; a
  Rust \<open>str\<close> is the list of its bytes, \<open>u64\<close> a 64-bit word, a \<open>BTreeMap\<close> a sorted association
  list, every error a value of \<open>error\<close>.

  The theories, in the order of the program:

  \<^item> \<^bold>\<open>Prelude, PathText, OrdMap\<close>: bytes and text, folds that may fail, saturating counters, paths
    as text, ordered maps.
  \<^item> \<^bold>\<open>Errors, ErrorText\<close> (\<open>error.rs\<close>): the errors, the classes of a refusal, the text shown.
  \<^item> \<^bold>\<open>Deferral, Deferrals\<close> (\<open>sync.rs\<close>): why a path is left for the next run, and the index of
    such paths with its lookups by path, by ancestor and by folded spelling.
  \<^item> \<^bold>\<open>Fingerprint\<close> (\<open>integrity.rs\<close>): content fingerprints and their text.
  \<^item> \<^bold>\<open>Paths\<close> (\<open>path.rs\<close>): remote roots, validation of paths, spelling keys.
  \<^item> \<^bold>\<open>Local, LocalFiles\<close> (\<open>local.rs\<close>, \<open>sync.rs\<close>): the local inventory and its collisions, the
    ignore rules, and what is asked of the file system after the walk.
  \<^item> \<^bold>\<open>PlanTypes, Resolve, Planner\<close> (\<open>plan.rs\<close>, with the records of \<open>api.rs\<close>): the data of a plan,
    the pairing of local and remote spellings, and \<open>build_plan\<close> with everything it calls.
    \<^bold>\<open>ResolveFacts, PlanFacts, CopyFacts, DeleteFacts, PlanStages\<close> hold its lemmas, \<^bold>\<open>PlanDeletes\<close>
    and \<^bold>\<open>PlanWrites\<close> its properties, \<^bold>\<open>Demo\<close> the plans that witnesses evaluate.
  \<^item> \<^bold>\<open>Digests, DigestFacts\<close> (\<open>plan.rs\<close>): which remote files are hashed before a plan is trusted.
  \<^item> \<^bold>\<open>Status, StatusFacts, StatusPlan, Ticket\<close> (\<open>plan.rs\<close>): status pages, their totals and cursors,
    and the ticket of a resync.
  \<^item> \<^bold>\<open>RemoteDigests, DigestPool\<close> (\<open>api.rs\<close>): the digest passes, their breaker and worker pool.
  \<^item> \<^bold>\<open>RemoteItems, RemoteWalk\<close> (\<open>api.rs\<close>): the pages of a listing, links and mounts, and the walk over
    the destination; the questions put to the NAS are numbered, so that its answers may change.
    \<^bold>\<open>WalkShape, WalkFacts\<close> hold the invariant of the walk, \<^bold>\<open>WalkResults\<close> its properties: it returns,
    every folder above an entry is an entry that DSM listed as a plain folder whose own path is
    where it was found, and every item of a folder it read is an entry or named.
  \<^item> \<^bold>\<open>Pacing, UploadBody\<close> (\<open>api.rs\<close>): the ledger of sign-ins, the bucket and gate of the uploads and
    the bounds of their time; the reader that sends a file and refuses one that changed.
    \<^bold>\<open>PaceFacts\<close> has the bound on sign-ins and the rate.
  \<^item> \<^bold>\<open>ClientCore\<close> (\<open>api.rs\<close>): a request on the wire, its repetitions, the session and its recovery,
    signing in and out. The client is a state, the network a world whose answers are numbered by
    \<open>c_tick\<close>; every request that leaves is in its trace. \<^bold>\<open>ClientFacts\<close>: which requests are sent twice.
  \<^item> \<^bold>\<open>ClientOps, ClientUpload\<close> (\<open>api.rs\<close>): looking up paths, deletions, renames, folders, the copies
    the NAS makes, the digests it and the client take; uploads with their preflight, attempts and
    verification. \<^bold>\<open>UploadFacts, ClientReads\<close> say which requests each sends, \<^bold>\<open>UploadLanded\<close> what an
    answer \<open>Inr\<close> has been checked against; \<^bold>\<open>ClientDemo\<close> has the runs that witnesses evaluate.
  \<^item> \<^bold>\<open>PlanFilters, Prepare, FilterFacts, SkipFacts\<close> (\<open>sync.rs\<close>): what is taken out of a plan before
    a run, and the preparation of a run.
  \<^item> \<^bold>\<open>Breaker\<close> (\<open>sync.rs\<close>): the breaker that fails a run whose refusals are one refusal of the share.
  \<^item> \<^bold>\<open>Snapshots\<close> (\<open>sync.rs\<close>): the checks a run repeats against the NAS.
  \<^item> \<^bold>\<open>ExecState, UploadPool, Execute\<close> (\<open>sync.rs\<close>): the executor. Its state is a record, its phases
    are state transformers that may fail, the NAS and the disk are an abstract world behind the
    operations of the \<open>SyncOperations\<close> trait, and the upload workers are a machine whose moves
    follow an arbitrary schedule.
  \<^item> \<^bold>\<open>ExecRules, ExecContract\<close>: the locales \<open>step_contract\<close> and \<open>request_contract\<close>: a relation
    between the states before and after that the primitive steps keep is kept by every phase.
    They are interpreted for growth of the log (\<open>grow\<close>) and for deletions that follow their
    checks (\<open>clean\<close>). \<^bold>\<open>ExecEval\<close> has the equations for evaluating a run, \<^bold>\<open>ExecSafety\<close> the safety of
    the deletions and a run of a mirror plan, \<^bold>\<open>PoolFacts\<close> the end of the worker machine,
    \<^bold>\<open>ExecSettle\<close> the order of a run (its deletions come last), \<^bold>\<open>ExecReport\<close> the interpretation
    \<open>account\<close>: what is reported is what was performed.
  \<^item> \<^bold>\<open>Reconcile\<close> (\<open>sync.rs\<close>): the verdict on the plan that is built again after a run.
  \<^item> \<^bold>\<open>Numbers\<close>: decimal numbers written and read.
  \<^item> \<^bold>\<open>Watch, WatchCommand, WatchTree\<close> (\<open>watch/\<close>): the errors, filter, budget and coalescer of the
    watcher, its command line and loop, the arena of watched directories, the walk and the
    processing of a batch of kernel events. \<^bold>\<open>WatchFacts\<close> shows that the arena stays linked in every
    state of \<open>watching\<close>, \<^bold>\<open>WatchWalk\<close> that walks end within the budget and watch what they should,
    \<^bold>\<open>WatchLines\<close> that lines are coalesced and no change is lost.

  \<^item> \<^bold>\<open>Batch, BatchFacts\<close> (\<open>batch.rs\<close>): jobs, the validation of a batch, and the preflight of its
    deletions; a batch is accepted exactly when no two jobs could touch a common path.
  \<^item> \<^bold>\<open>StatusCache\<close> (\<open>status_cache.rs\<close>): when a stored digest is served, the canary, and the merge
    that rewrites the file. \<^bold>\<open>CacheFacts\<close> shows that what is served is current, \<^bold>\<open>CacheRewrite\<close> and
    \<^bold>\<open>CacheMerge\<close> what the merge keeps and under which date, \<^bold>\<open>CacheServe\<close> that what was stored is
    served later; \<^bold>\<open>CacheDemo\<close> has the passes that witnesses evaluate.

  Bounds: a schedule of the upload workers is any list of worker numbers; the threads are joined by
  \<open>closing_schedule\<close>, which gives every worker \<open>7 * (n + 1)\<close> further steps for \<open>n\<close> queued uploads, as
  a worker takes at most seven steps for one upload; \<open>drained_pool_ends\<close> shows that all have ended.
  The walk of the watcher is a partial function; \<open>batch_is_answered\<close> shows that it returns whenever
  there is a budget. The polls of a task of DSM are bounded by a fuel: the code polls until its
  deadline, a state that says \<open>None\<close> is still polling, and the properties of the client are about the
  answers it gives.

  Parameters: Unicode tables (normal form, lower case, escapes) are a \<open>text_env\<close>; the hash functions
  a \<open>hash_suite\<close>; the answers of the NAS and of the file system are functions of the world.

  Not modelled: of the client of \<open>api.rs\<close> the transport under a request (HTTP, TLS, the redirect
  policy) and the decoding of its JSON, which are answers of the world, the discovery of the
  interfaces of DSM, the browsing of shares and the diagnostic and write probes; the DSM package bridge
  \<open>dsm_api.rs\<close>, the command line, configuration, credential stores, diagnostics and the foreign function interface, which are input and output around the parts
  above; of \<open>local.rs\<close> the walk over the directories; of the executor the progress observer, which can only
  abort a transfer, and the poisoning of locks; of the watcher the polling of its descriptor, the scan
  of \<open>/proc\<close> for the watches held, and the report of the probe; of the status cache the JSON of a line, the claiming and
  sweeping of its directory and the byte limit of that directory.
\<close>

end
